(* ===== verification/Prelude.thy ===== *)
theory Prelude
  imports Complex_Main
begin

text \<open>
  Shared vocabulary of the development: the daemon's error codes, the JavaScript values the code
  reads defensively (numbers that may be NaN or infinite, JSON-shaped values), the generic lemmas
  on lists and options the components share, and the interface \<open>machine\<close> through which each
  stateful component lifts its one-operation lemmas to arbitrary runs.
\<close>

named_theorems snap_simps
named_theorems step_defs

section \<open>Names\<close>

text \<open>
  Branded id strings of the code (token, client, worker, interaction ids) are strings. Absolute
  times and durations are milliseconds of an integer-valued JavaScript number, modelled as
  \<open>int\<close>; sequence numbers start at 1 and are integers too.
\<close>

type_synonym ms = int
type_synonym seq = int

text \<open>\<open>OMNI_ERROR_CODES\<close> of \<open>protocol/src/errors.ts\<close>, in the order of the source.\<close>

datatype omni_code =
    BadRequest | Unauthorized | Forbidden | PolicyExceedsCeiling | WorkerNotFound | WorkerBusy
  | WorkerClosed | NotResumable | LeaseHeld | WorkerLimit | AgentError | AgentTimeout | Internal
  | InteractionNotFound | InteractionSettled | CredentialRequired | CredentialExpired
  | CredentialForbidden | InsecureTransport | Restarted | McpNotFound | McpConflict

text \<open>\<open>ERROR_STATUS\<close>, the only status mapping in the repository.\<close>

fun error_status :: "omni_code \<Rightarrow> int" where
  "error_status BadRequest = 400"
| "error_status Unauthorized = 401"
| "error_status Forbidden = 403"
| "error_status PolicyExceedsCeiling = 403"
| "error_status WorkerNotFound = 404"
| "error_status WorkerBusy = 409"
| "error_status WorkerClosed = 410"
| "error_status NotResumable = 422"
| "error_status LeaseHeld = 423"
| "error_status WorkerLimit = 429"
| "error_status AgentError = 502"
| "error_status AgentTimeout = 504"
| "error_status Internal = 500"
| "error_status InteractionNotFound = 404"
| "error_status InteractionSettled = 409"
| "error_status CredentialRequired = 422"
| "error_status CredentialExpired = 422"
| "error_status CredentialForbidden = 403"
| "error_status InsecureTransport = 403"
| "error_status Restarted = 409"
| "error_status McpNotFound = 404"
| "error_status McpConflict = 409"

section \<open>JavaScript values\<close>

text \<open>
  A JavaScript number is a finite value or one of the three exceptional ones. Finite values are
  rationals: the code only compares, floors and adds them.
\<close>

datatype jsnum = Fin rat | PosInf | NegInf | NaN

text \<open>
  A JSON-shaped value. An object is the list of its own properties in insertion order; a property
  that is not there reads as \<open>None\<close>, which is JavaScript's \<open>undefined\<close>.
\<close>

datatype json =
    JNull
  | JBool bool
  | JNum jsnum
  | JStr string
  | JArr "json list"
  | JObj "(string \<times> json) list"

text \<open>
  \<open>v[key]\<close> on a value known to be a non-null object. No key the code reads is an array index;
  \<open>length\<close> is the only named property an array has.
\<close>

fun fld :: "json \<Rightarrow> string \<Rightarrow> json option" where
  "fld (JObj ps) k = map_of ps k"
| "fld (JArr xs) k = (if k = ''length'' then Some (JNum (Fin (of_nat (List.length xs)))) else None)"
| "fld _ _ = None"

fun has_key :: "json \<Rightarrow> string \<Rightarrow> bool" where
  "has_key v k = (fld v k \<noteq> None)"

text \<open>The helper \<open>str\<close> every fold of the code uses: a string, or nothing.\<close>

fun js_str :: "json option \<Rightarrow> string option" where
  "js_str (Some (JStr s)) = Some s"
| "js_str _ = None"

text \<open>
  \<open>record\<close> of \<open>turn.ts\<close>: \<open>typeof v === "object" && v !== null\<close>, which an array
  satisfies as well.
\<close>

fun js_record :: "json option \<Rightarrow> json option" where
  "js_record (Some (JObj ps)) = Some (JObj ps)"
| "js_record (Some (JArr xs)) = Some (JArr xs)"
| "js_record _ = None"

fun js_num :: "json option \<Rightarrow> jsnum option" where
  "js_num (Some (JNum n)) = Some n"
| "js_num _ = None"

fun js_arr :: "json option \<Rightarrow> json list option" where
  "js_arr (Some (JArr xs)) = Some xs"
| "js_arr _ = None"

lemma js_str_Some_iff: "js_str v = Some s \<longleftrightarrow> v = Some (JStr s)"
  by (cases v rule: js_str.cases) auto

lemma js_arr_Some_iff: "js_arr v = Some xs \<longleftrightarrow> v = Some (JArr xs)"
  by (cases v rule: js_arr.cases) auto

section \<open>Lists and options\<close>

text \<open>\<open>Array.prototype.find\<close> is \<open>List.find\<close>; its two facts, as the components use them.\<close>

lemma find_SomeD: "List.find P xs = Some x \<Longrightarrow> x \<in> set xs \<and> P x"
  by (induction xs) (auto split: if_splits)

lemma find_None_iff_all: "List.find P xs = None \<longleftrightarrow> (\<forall>x\<in>set xs. \<not> P x)"
  by (auto simp: find_None_iff)

lemma find_filter_hd:
  "List.find P xs = (case filter P xs of [] \<Rightarrow> None | y # _ \<Rightarrow> Some y)"
  by (induction xs) auto

text \<open>Appending an element to an insertion-ordered set of JavaScript.\<close>

definition set_add :: "'a \<Rightarrow> 'a list \<Rightarrow> 'a list" where
  "set_add x xs = (if x \<in> set xs then xs else xs @ [x])"

lemma set_set_add [simp]: "set (set_add x xs) = insert x (set xs)"
  by (auto simp: set_add_def)

lemma distinct_set_add [simp]: "distinct (set_add x xs) = distinct xs"
  by (auto simp: set_add_def)

definition set_delete :: "'a \<Rightarrow> 'a list \<Rightarrow> 'a list" where
  "set_delete x xs = filter (\<lambda>y. y \<noteq> x) xs"

lemma set_set_delete [simp]: "set (set_delete x xs) = set xs - {x}"
  by (auto simp: set_delete_def)

lemma distinct_set_delete [simp]: "distinct xs \<Longrightarrow> distinct (set_delete x xs)"
  by (simp add: set_delete_def)

lemma length_filter_neq:
  "distinct xs \<Longrightarrow> x \<in> set xs \<Longrightarrow> length (filter (\<lambda>y. y \<noteq> x) xs) = length xs - 1"
  by (simp add: distinct_remove1_removeAll [symmetric] length_remove1
      removeAll_filter_not_eq [symmetric] eq_commute [of _ x])

section \<open>State machines\<close>

text \<open>
  Every stateful object of the daemon is a closure whose public entry points are the operations of
  a machine. The interface: a step function and an invariant each step keeps. Its client lemma,
  proved once, is that the invariant holds after any sequence of operations.
\<close>

locale machine =
  fixes step :: "'s \<Rightarrow> 'op \<Rightarrow> 's"
    and inv :: "'s \<Rightarrow> bool"
  assumes step_inv: "inv s \<Longrightarrow> inv (step s op)"
begin

lemma run_inv: "inv s \<Longrightarrow> inv (foldl step s ops)"
  by (induction ops arbitrary: s) (auto intro: step_inv)

end

text \<open>A machine with a quantity no operation ever lowers (an epoch, a head, a count).\<close>

locale monotone_machine = machine step inv
  for step :: "'s \<Rightarrow> 'op \<Rightarrow> 's" and inv :: "'s \<Rightarrow> bool" +
  fixes rank :: "'s \<Rightarrow> 'r::preorder"
  assumes step_rank: "inv s \<Longrightarrow> rank s \<le> rank (step s op)"
begin

lemma run_rank: "inv s \<Longrightarrow> rank s \<le> rank (foldl step s ops)"
proof (induction ops arbitrary: s)
  case Nil
  then show ?case by simp
next
  case (Cons op ops)
  from Cons.prems have "rank s \<le> rank (step s op)" by (rule step_rank)
  also from Cons.prems have "\<dots> \<le> rank (foldl step (step s op) ops)"
    by (intro Cons.IH step_inv)
  finally show ?case by simp
qed

end

end
