(* ===== verification/LeasePolicy.thy ===== *)
theory LeasePolicy
  imports Prelude
begin

text \<open>
  The pure half of the lease, \<open>packages/core/src/lease/policy.ts\<close>: client identity, the
  fencing rule and the two permission questions. Nothing here has a state; \<open>Lease\<close> consults
  these definitions exactly where \<open>lease.ts\<close> does.
\<close>

text \<open>\<open>ClientRefWire\<close>: an identity. A client id of \<open>None\<close> is the token's default client.\<close>

record wire_ref =
  token_id :: string
  client_id :: "string option"

text \<open>\<open>ClientRef\<close>: an identity and, possibly, the fence the call carried.\<close>

record client_ref = wire_ref +
  fence :: "int option"

text \<open>
  \<open>LeaseSnapshot\<close>. The two instants are kept in milliseconds; the code renders them with
  \<open>toISOString\<close> when the snapshot is built.
\<close>

record lease_snapshot =
  s_worker_id :: string
  s_holder :: "wire_ref option"
  s_epoch :: int
  s_expires_at :: "ms option"
  s_acquired_at :: "ms option"
  s_pinned :: bool

text \<open>\<open>ResolvedLeaseConfig\<close> of \<open>protocol/src/config.ts\<close>.\<close>

record lease_config =
  ttl_ms :: ms
  renew_on_use :: bool
  steal_after_idle_ms :: ms
  require_client_id :: bool

definition same_client :: "'a wire_ref_scheme \<Rightarrow> 'b wire_ref_scheme \<Rightarrow> bool" where
  "same_client a b \<longleftrightarrow> token_id a = token_id b \<and> client_id a = client_id b"

definition to_wire :: "'a wire_ref_scheme \<Rightarrow> wire_ref" where
  "to_wire who = \<lparr>token_id = token_id who, client_id = client_id who\<rparr>"

definition is_stale_epoch :: "lease_snapshot \<Rightarrow> int option \<Rightarrow> bool" where
  "is_stale_epoch l e \<longleftrightarrow> (case e of None \<Rightarrow> False | Some n \<Rightarrow> n \<noteq> s_epoch l)"

definition may_act :: "lease_snapshot \<Rightarrow> 'a wire_ref_scheme \<Rightarrow> bool \<Rightarrow> int option \<Rightarrow> bool" where
  "may_act l who admin e =
     (if is_stale_epoch l e then False
      else if admin then True
      else case s_holder l of None \<Rightarrow> True | Some h \<Rightarrow> same_client h who)"

definition may_steal ::
  "lease_snapshot \<Rightarrow> 'a wire_ref_scheme \<Rightarrow> bool \<Rightarrow> ms \<Rightarrow> ms \<Rightarrow> lease_config \<Rightarrow> bool" where
  "may_steal l who admin now_ms last_use_ms cfg =
     (if admin then True
      else case s_holder l of
        None \<Rightarrow> True
      | Some h \<Rightarrow>
          if same_client h who then True
          else if token_id h \<noteq> token_id who then False
          else now_ms - last_use_ms \<ge> steal_after_idle_ms cfg)"

section \<open>Facts\<close>

lemma to_wire_sel [simp]:
  "token_id (to_wire who) = token_id who" "client_id (to_wire who) = client_id who"
  by (simp_all add: to_wire_def)

lemma same_client_refl [simp]: "same_client a a"
  by (simp add: same_client_def)

lemma same_client_sym: "same_client a b \<longleftrightarrow> same_client b a"
  by (auto simp: same_client_def)

lemma same_client_trans: "same_client a b \<Longrightarrow> same_client b c \<Longrightarrow> same_client a c"
  by (simp add: same_client_def)

lemma same_client_to_wire [simp]:
  "same_client (to_wire a) b = same_client a b" "same_client a (to_wire b) = same_client a b"
  by (simp_all add: same_client_def)

text \<open>Two wire references are the same client exactly when they are equal.\<close>

lemma same_client_eq: "same_client (a :: wire_ref) b \<longleftrightarrow> a = b"
  by (cases a; cases b) (simp add: same_client_def)

lemma same_client_iff_to_wire: "same_client (h :: wire_ref) who \<longleftrightarrow> h = to_wire who"
  by (simp add: same_client_eq [symmetric])

lemma is_stale_epoch_simps [simp]:
  "\<not> is_stale_epoch l None"
  "is_stale_epoch l (Some n) \<longleftrightarrow> n \<noteq> s_epoch l"
  by (simp_all add: is_stale_epoch_def)

text \<open>The fence comes before the admin bypass and before identity.\<close>

lemma may_act_stale: "is_stale_epoch l e \<Longrightarrow> \<not> may_act l who admin e"
  by (simp add: may_act_def)

lemma may_act_non_admin:
  "may_act l who False e \<longleftrightarrow>
     \<not> is_stale_epoch l e \<and> (\<forall>h. s_holder l = Some h \<longrightarrow> h = to_wire who)"
  by (auto simp: may_act_def same_client_iff_to_wire split: option.splits)

text \<open>
  A client that may act on a held lease may always steal it: \<open>steal\<close> degrades to a renewal for
  the holder, so the audited verb is never stricter than the gated ones.
\<close>

lemma may_act_imp_may_steal: "may_act l who False e \<Longrightarrow> may_steal l who False t u cfg"
  by (auto simp: may_act_def may_steal_def split: option.splits if_splits)

end
