(* ===== verification/Lease.thy ===== *)
theory Lease
  imports LeasePolicy
begin

text \<open>
  The single-controller lease of \<open>packages/core/src/lease/lease.ts\<close> (\<open>createLease\<close>) and its
  permissive counterpart \<open>always-granted.ts\<close>. The closure's variables are the fields of
  \<open>lease\<close>; every method and the timer callback is one operation, at one instant of the
  injected clock. A thrown \<open>OmniError\<close> is the left value of the result, beside the state the
  sweep at the top of the method has already left.
\<close>

section \<open>State\<close>

datatype lease_ev_op = Acquired | Released | Stolen | Expired
datatype lease_how =
  HowExplicit | HowImplicit | HowCreate | HowSteal | HowHibernate | HowTimeout | HowDaemonRestart

record lease_event =
  ev_op :: lease_ev_op
  ev_lease :: lease_snapshot
  ev_previous :: "wire_ref option"
  ev_by :: "wire_ref option"
  ev_how :: lease_how
  ev_reason :: "string option"

text \<open>Where a payload goes: the \<open>onEvent\<close> sink of the options, or an \<open>onChange\<close> subscriber.\<close>

datatype sink = OnEvent | Subscriber nat

record lease =
  worker_id :: string
  config :: lease_config
  has_on_event :: bool
  holder :: "wire_ref option"
  epoch :: int
  acquired_at :: "ms option"
  ttl :: ms
  expires_at :: "ms option"
  last_use :: ms
  pins :: nat
  live_pins :: "nat list"
  next_pin :: nat
  timer :: "ms option"
  is_closed :: bool
  subscribers :: "nat list"
  sent :: "(sink \<times> lease_event) list"

datatype lease_error = HeldError lease_snapshot | NotIdentified

type_synonym 'r lease_result = "lease \<times> (lease_error + 'r)"

section \<open>Internal operations\<close>

definition clear_timer :: "lease \<Rightarrow> lease" where
  "clear_timer s = s\<lparr>timer := None\<rparr>"

text \<open>The armed timer is the absolute instant its callback is due.\<close>

definition arm_timer :: "ms \<Rightarrow> lease \<Rightarrow> lease" where
  "arm_timer now s =
     (if is_closed s \<or> holder s = None \<or> pins s > 0 \<or> expires_at s = None
      then s\<lparr>timer := None\<rparr>
      else s\<lparr>timer := Some (now + max 0 (the (expires_at s) - now))\<rparr>)"

definition snapshot :: "lease \<Rightarrow> lease_snapshot" where
  "snapshot s =
     \<lparr>s_worker_id = worker_id s,
      s_holder = holder s,
      s_epoch = epoch s,
      s_expires_at = (if holder s = None \<or> pins s > 0 then None else expires_at s),
      s_acquired_at = acquired_at s,
      s_pinned = (pins s > 0)\<rparr>"

definition emit ::
  "lease_ev_op \<Rightarrow> lease_how \<Rightarrow> wire_ref option \<Rightarrow> wire_ref option \<Rightarrow> string option
   \<Rightarrow> lease \<Rightarrow> lease \<times> lease_snapshot" where
  "emit op how previous by reason s =
     (let payload = \<lparr>ev_op = op, ev_lease = snapshot s, ev_previous = previous, ev_by = by,
                      ev_how = how, ev_reason = reason\<rparr>;
          sinks = (if has_on_event s then [OnEvent] else []) @ map Subscriber (subscribers s)
      in (s\<lparr>sent := sent s @ map (\<lambda>k. (k, payload)) sinks\<rparr>, ev_lease payload))"

definition take_lease ::
  "ms \<Rightarrow> 'a wire_ref_scheme \<Rightarrow> lease_how \<Rightarrow> ms \<Rightarrow> string option \<Rightarrow> lease
   \<Rightarrow> lease \<times> lease_snapshot" where
  "take_lease now who how new_ttl reason s =
     (let previous = holder s;
          s1 = s\<lparr>holder := Some (to_wire who),
                 epoch := (if how \<noteq> HowImplicit then epoch s + 1 else epoch s),
                 ttl := new_ttl,
                 acquired_at := Some now,
                 last_use := now,
                 expires_at := (if new_ttl > 0 then Some (now + new_ttl) else None)\<rparr>;
          s2 = arm_timer now s1
      in emit (if previous = None then Acquired else Stolen) how previous (holder s2) reason s2)"

definition give_up ::
  "lease_how \<Rightarrow> wire_ref option \<Rightarrow> string option \<Rightarrow> lease \<Rightarrow> lease \<times> lease_snapshot" where
  "give_up how by reason s =
     (case holder s of
        None \<Rightarrow> (s, snapshot s)
      | Some previous \<Rightarrow>
          emit Released how (Some previous) by reason
            (clear_timer (s\<lparr>holder := None, acquired_at := None, expires_at := None,
                            ttl := ttl_ms (config s)\<rparr>)))"

definition expire :: "lease \<Rightarrow> lease" where
  "expire s =
     (case holder s of
        None \<Rightarrow> s
      | Some previous \<Rightarrow>
          fst (emit Expired HowTimeout (Some previous) None None
            (clear_timer (s\<lparr>holder := None, epoch := epoch s + 1, acquired_at := None,
                            expires_at := None, ttl := ttl_ms (config s)\<rparr>))))"

definition sweep :: "ms \<Rightarrow> lease \<Rightarrow> lease" where
  "sweep now s =
     (if is_closed s \<or> holder s = None \<or> pins s > 0 \<or> expires_at s = None then s
      else if now \<ge> the (expires_at s) then expire s else s)"

definition not_identified :: "lease_config \<Rightarrow> 'a wire_ref_scheme \<Rightarrow> bool" where
  "not_identified cfg who \<longleftrightarrow> require_client_id cfg \<and> client_id who = None"

definition fence_of :: "client_ref \<Rightarrow> int option \<Rightarrow> int option" where
  "fence_of who opt_epoch = (case fence who of Some e \<Rightarrow> Some e | None \<Rightarrow> opt_epoch)"

section \<open>Construction\<close>

definition create_lease ::
  "string \<Rightarrow> lease_config \<Rightarrow> bool \<Rightarrow> client_ref option \<Rightarrow> int option \<Rightarrow> ms \<Rightarrow> lease" where
  "create_lease wid cfg on_event initial_holder initial_epoch now =
     (let base = (case initial_epoch of None \<Rightarrow> 0 | Some e \<Rightarrow> e);
          fresh = \<lparr>worker_id = wid, config = cfg, has_on_event = on_event,
                   holder = None, epoch = base, acquired_at = None, ttl = ttl_ms cfg,
                   expires_at = None, last_use = now, pins = 0, live_pins = [], next_pin = 0,
                   timer = None, closed = False, subscribers = [], sent = []\<rparr>;
          seeded = (case initial_holder of
              None \<Rightarrow> fresh
            | Some h \<Rightarrow> fresh\<lparr>holder := Some (to_wire h), epoch := base + 1,
                              acquired_at := Some now, last_use := now,
                              expires_at := (if ttl_ms cfg > 0 then Some (now + ttl_ms cfg)
                                             else None)\<rparr>)
      in arm_timer now seeded)"

section \<open>Public operations\<close>

definition get_holder :: "ms \<Rightarrow> lease \<Rightarrow> lease \<times> wire_ref option" where
  "get_holder now s = (let s1 = sweep now s in (s1, holder s1))"

definition get_epoch :: "ms \<Rightarrow> lease \<Rightarrow> lease \<times> int" where
  "get_epoch now s = (let s1 = sweep now s in (s1, epoch s1))"

definition get_snapshot :: "ms \<Rightarrow> lease \<Rightarrow> lease \<times> lease_snapshot" where
  "get_snapshot now s = (let s1 = sweep now s in (s1, snapshot s1))"

definition assert_holder ::
  "ms \<Rightarrow> client_ref \<Rightarrow> int option \<Rightarrow> lease \<Rightarrow> lease_snapshot lease_result" where
  "assert_holder now who opt_epoch s0 =
     (let s = sweep now s0; f = fence_of who opt_epoch in
      if not_identified (config s) who then (s, Inl NotIdentified)
      else if \<not> may_act (snapshot s) who False f then (s, Inl (HeldError (snapshot s)))
      else if holder s = None
      then (let (s1, snap) = take_lease now who HowImplicit (ttl_ms (config s)) None s
            in (s1, Inr snap))
      else
        (let s1 = s\<lparr>last_use := now\<rparr>;
             s2 = (if renew_on_use (config s1) \<and> expires_at s1 \<noteq> None
                   then arm_timer now (s1\<lparr>expires_at := Some (now + ttl s1)\<rparr>) else s1)
         in (s2, Inr (snapshot s2))))"

definition acquire ::
  "ms \<Rightarrow> client_ref \<Rightarrow> ms option \<Rightarrow> lease \<Rightarrow> lease_snapshot lease_result" where
  "acquire now who opt_ttl s0 =
     (let s = sweep now s0 in
      if not_identified (config s) who then (s, Inl NotIdentified)
      else
        (let t = (case opt_ttl of None \<Rightarrow> ttl_ms (config s) | Some t \<Rightarrow> t) in
         case holder s of
           None \<Rightarrow> (let (s1, snap) = take_lease now who HowExplicit t None s in (s1, Inr snap))
         | Some h \<Rightarrow>
             if \<not> same_client h who then (s, Inl (HeldError (snapshot s)))
             else
               (let s1 = arm_timer now
                      (s\<lparr>ttl := t, last_use := now,
                         expires_at := (if t > 0 then Some (now + t) else None)\<rparr>)
                in (s1, Inr (snapshot s1)))))"

definition release :: "ms \<Rightarrow> client_ref \<Rightarrow> lease \<Rightarrow> lease_snapshot lease_result" where
  "release now who s0 =
     (let s = sweep now s0 in
      if not_identified (config s) who then (s, Inl NotIdentified)
      else if is_stale_epoch (snapshot s) (fence_of who None)
      then (s, Inl (HeldError (snapshot s)))
      else case holder s of
          None \<Rightarrow> (s, Inr (snapshot s))
        | Some h \<Rightarrow>
            if \<not> same_client h who then (s, Inl (HeldError (snapshot s)))
            else (let (s1, snap) = give_up HowExplicit (Some (to_wire who)) None s
                  in (s1, Inr snap)))"

definition steal ::
  "ms \<Rightarrow> client_ref \<Rightarrow> string option \<Rightarrow> bool \<Rightarrow> lease \<Rightarrow> lease_snapshot lease_result" where
  "steal now who reason admin s0 =
     (let s = sweep now s0 in
      if not_identified (config s) who then (s, Inl NotIdentified)
      else if \<not> may_steal (snapshot s) who admin now (last_use s) (config s)
      then (s, Inl (HeldError (snapshot s)))
      else if (case holder s of None \<Rightarrow> False | Some h \<Rightarrow> same_client h who)
      then
        (let s1 = s\<lparr>last_use := now\<rparr>;
             s2 = (if expires_at s1 \<noteq> None
                   then arm_timer now (s1\<lparr>expires_at := Some (now + ttl s1)\<rparr>) else s1)
         in (s2, Inr (snapshot s2)))
      else (let (s1, snap) = take_lease now who HowSteal (ttl_ms (config s)) reason s
            in (s1, Inr snap)))"

text \<open>\<open>pinExpiry\<close> returns a handle, named by a number; a handle not live any more is released.\<close>

definition pin_expiry :: "lease \<Rightarrow> lease \<times> nat" where
  "pin_expiry s =
     ((clear_timer (s\<lparr>pins := pins s + 1\<rparr>))
        \<lparr>live_pins := next_pin s # live_pins s, next_pin := next_pin s + 1\<rparr>, next_pin s)"

definition unpin :: "ms \<Rightarrow> nat \<Rightarrow> lease \<Rightarrow> lease" where
  "unpin now h s =
     (if h \<notin> set (live_pins s) then s
      else
        (let s1 = s\<lparr>live_pins := filter (\<lambda>x. x \<noteq> h) (live_pins s), pins := pins s - 1\<rparr> in
         if pins s1 > 0 then s1
         else
           (let s2 = (if holder s1 \<noteq> None \<and> ttl s1 > 0
                      then arm_timer now
                        (if renew_on_use (config s1)
                         then s1\<lparr>expires_at := Some (now + ttl s1)\<rparr> else s1)
                      else s1)
            in sweep now s2)))"

definition release_for_hibernate :: "ms \<Rightarrow> lease \<Rightarrow> lease \<times> lease_snapshot" where
  "release_for_hibernate now s0 =
     (let s = sweep now s0 in give_up HowHibernate None None (s\<lparr>pins := 0\<rparr>))"

definition on_change :: "nat \<Rightarrow> lease \<Rightarrow> lease" where
  "on_change k s = s\<lparr>subscribers := set_add k (subscribers s)\<rparr>"

definition off_change :: "nat \<Rightarrow> lease \<Rightarrow> lease" where
  "off_change k s = s\<lparr>subscribers := set_delete k (subscribers s)\<rparr>"

definition timer_fires :: "ms \<Rightarrow> lease \<Rightarrow> lease" where
  "timer_fires now s =
     (case timer s of
        None \<Rightarrow> s
      | Some due \<Rightarrow> if due \<le> now then sweep now (s\<lparr>timer := None\<rparr>) else s)"

definition close_lease :: "lease \<Rightarrow> lease" where
  "close_lease s =
     (if is_closed s then s else (clear_timer (s\<lparr>is_closed := True\<rparr>))\<lparr>subscribers := []\<rparr>)"

section \<open>The lease as a machine\<close>

datatype lease_op =
    OpGetHolder ms | OpGetEpoch ms | OpSnapshot ms
  | OpAssertHolder ms client_ref "int option"
  | OpAcquire ms client_ref "ms option"
  | OpRelease ms client_ref
  | OpSteal ms client_ref "string option" bool
  | OpPin | OpUnpin ms nat
  | OpReleaseForHibernate ms
  | OpOnChange nat | OpOffChange nat
  | OpTimerFires ms
  | OpClose

fun lease_step :: "lease \<Rightarrow> lease_op \<Rightarrow> lease" where
  "lease_step s (OpGetHolder t) = fst (get_holder t s)"
| "lease_step s (OpGetEpoch t) = fst (get_epoch t s)"
| "lease_step s (OpSnapshot t) = fst (get_snapshot t s)"
| "lease_step s (OpAssertHolder t who e) = fst (assert_holder t who e s)"
| "lease_step s (OpAcquire t who x) = fst (acquire t who x s)"
| "lease_step s (OpRelease t who) = fst (release t who s)"
| "lease_step s (OpSteal t who r admin) = fst (steal t who r admin s)"
| "lease_step s OpPin = fst (pin_expiry s)"
| "lease_step s (OpUnpin t h) = unpin t h s"
| "lease_step s (OpReleaseForHibernate t) = fst (release_for_hibernate t s)"
| "lease_step s (OpOnChange k) = on_change k s"
| "lease_step s (OpOffChange k) = off_change k s"
| "lease_step s (OpTimerFires t) = timer_fires t s"
| "lease_step s OpClose = close_lease s"

lemmas lease_op_defs =
  get_holder_def get_epoch_def get_snapshot_def assert_holder_def acquire_def release_def steal_def
  pin_expiry_def unpin_def release_for_hibernate_def on_change_def off_change_def timer_fires_def
  close_lease_def

lemmas lease_core_defs =
  clear_timer_def arm_timer_def emit_def take_lease_def give_up_def expire_def sweep_def

lemmas lease_splits = if_splits option.splits prod.splits

section \<open>Field-wise effect of the internal operations\<close>

text \<open>
  What the internal operations do to the holder and the epoch: the two fields every law below is
  about. The timer and the audit list never influence them.
\<close>

lemma arm_timer_sel [simp]:
  "holder (arm_timer t s) = holder s" "epoch (arm_timer t s) = epoch s"
  "config (arm_timer t s) = config s" "pins (arm_timer t s) = pins s"
  "is_closed (arm_timer t s) = is_closed s" "ttl (arm_timer t s) = ttl s"
  "expires_at (arm_timer t s) = expires_at s" "acquired_at (arm_timer t s) = acquired_at s"
  "last_use (arm_timer t s) = last_use s" "sent (arm_timer t s) = sent s"
  "live_pins (arm_timer t s) = live_pins s" "next_pin (arm_timer t s) = next_pin s"
  "has_on_event (arm_timer t s) = has_on_event s" "subscribers (arm_timer t s) = subscribers s"
  "worker_id (arm_timer t s) = worker_id s"
  by (simp_all add: arm_timer_def)

lemma timer_arm_timer:
  "timer (arm_timer t s) =
     (if is_closed s \<or> holder s = None \<or> pins s > 0 \<or> expires_at s = None then None
      else Some (max t (the (expires_at s))))"
  by (auto simp: arm_timer_def max_def)

lemma emit_sel [simp]:
  "holder (fst (emit op how p b r s)) = holder s" "epoch (fst (emit op how p b r s)) = epoch s"
  "config (fst (emit op how p b r s)) = config s" "pins (fst (emit op how p b r s)) = pins s"
  "is_closed (fst (emit op how p b r s)) = is_closed s" "ttl (fst (emit op how p b r s)) = ttl s"
  "expires_at (fst (emit op how p b r s)) = expires_at s"
  "acquired_at (fst (emit op how p b r s)) = acquired_at s"
  "last_use (fst (emit op how p b r s)) = last_use s"
  "live_pins (fst (emit op how p b r s)) = live_pins s"
  "next_pin (fst (emit op how p b r s)) = next_pin s"
  "has_on_event (fst (emit op how p b r s)) = has_on_event s"
  "subscribers (fst (emit op how p b r s)) = subscribers s"
  "timer (fst (emit op how p b r s)) = timer s"
  "worker_id (fst (emit op how p b r s)) = worker_id s"
  "snd (emit op how p b r s) = snapshot s"
  by (simp_all add: emit_def Let_def)

lemma snapshot_emit [simp]: "snapshot (fst (emit op how p b r s)) = snapshot s"
  by (simp add: snapshot_def)

lemma snapshot_arm_timer [simp]: "snapshot (arm_timer t s) = snapshot s"
  by (simp add: snapshot_def)

lemma snapshot_sel [simp]:
  "s_holder (snapshot s) = holder s" "s_epoch (snapshot s) = epoch s"
  "s_acquired_at (snapshot s) = acquired_at s" "s_pinned (snapshot s) = (pins s > 0)"
  "s_worker_id (snapshot s) = worker_id s"
  by (simp_all add: snapshot_def)

lemma take_lease_sel [simp]:
  "holder (fst (take_lease t who how x r s)) = Some (to_wire who)"
  "epoch (fst (take_lease t who how x r s)) = (if how = HowImplicit then epoch s else epoch s + 1)"
  "config (fst (take_lease t who how x r s)) = config s"
  "pins (fst (take_lease t who how x r s)) = pins s"
  "is_closed (fst (take_lease t who how x r s)) = is_closed s"
  "expires_at (fst (take_lease t who how x r s)) = (if x > 0 then Some (t + x) else None)"
  "ttl (fst (take_lease t who how x r s)) = x"
  "acquired_at (fst (take_lease t who how x r s)) = Some t"
  "live_pins (fst (take_lease t who how x r s)) = live_pins s"
  "next_pin (fst (take_lease t who how x r s)) = next_pin s"
  "snd (take_lease t who how x r s) = snapshot (fst (take_lease t who how x r s))"
  by (simp_all add: take_lease_def Let_def)

lemma give_up_sel [simp]:
  "holder (fst (give_up how b r s)) = None"
  "epoch (fst (give_up how b r s)) = epoch s"
  "config (fst (give_up how b r s)) = config s"
  "pins (fst (give_up how b r s)) = pins s"
  "is_closed (fst (give_up how b r s)) = is_closed s"
  "live_pins (fst (give_up how b r s)) = live_pins s"
  "next_pin (fst (give_up how b r s)) = next_pin s"
  "snd (give_up how b r s) = snapshot (fst (give_up how b r s))"
  by (simp_all add: give_up_def clear_timer_def split: option.split)

lemma expire_sel [simp]:
  "holder (expire s) = None"
  "epoch (expire s) = (if holder s = None then epoch s else epoch s + 1)"
  "config (expire s) = config s" "pins (expire s) = pins s" "is_closed (expire s) = is_closed s"
  "live_pins (expire s) = live_pins s" "next_pin (expire s) = next_pin s"
  by (simp_all add: expire_def clear_timer_def split: option.split)

text \<open>The deadline has passed and is one this lease honours.\<close>

definition due :: "ms \<Rightarrow> lease \<Rightarrow> bool" where
  "due t s \<longleftrightarrow> \<not> is_closed s \<and> holder s \<noteq> None \<and> pins s = 0 \<and>
     (\<exists>e. expires_at s = Some e \<and> e \<le> t)"

lemma sweep_due: "sweep t s = (if due t s then expire s else s)"
  by (auto simp: sweep_def due_def)

lemma sweep_sel [simp]:
  "holder (sweep t s) = (if due t s then None else holder s)"
  "epoch (sweep t s) = (if due t s then epoch s + 1 else epoch s)"
  "config (sweep t s) = config s" "pins (sweep t s) = pins s" "is_closed (sweep t s) = is_closed s"
  "live_pins (sweep t s) = live_pins s" "next_pin (sweep t s) = next_pin s"
  by (auto simp: sweep_due due_def)

section \<open>The invariant\<close>

text \<open>
  What the closure keeps true between its variables: an unheld lease has neither acquisition
  instant nor deadline; a deadline means a positive TTL; the timer is armed exactly when a
  deadline is being honoured, and never for an instant before it; the refcount never exceeds the
  handles still live, which are distinct and were all handed out.
\<close>

definition lease_inv :: "lease \<Rightarrow> bool" where
  "lease_inv s \<longleftrightarrow>
     (holder s = None \<longrightarrow> acquired_at s = None \<and> expires_at s = None) \<and>
     (holder s \<noteq> None \<longrightarrow> acquired_at s \<noteq> None) \<and>
     (expires_at s \<noteq> None \<longrightarrow> ttl s > 0) \<and>
     (timer s \<noteq> None \<longleftrightarrow> \<not> is_closed s \<and> holder s \<noteq> None \<and> pins s = 0 \<and> expires_at s \<noteq> None) \<and>
     (\<forall>d e. timer s = Some d \<longrightarrow> expires_at s = Some e \<longrightarrow> e \<le> d) \<and>
     pins s \<le> length (live_pins s) \<and> distinct (live_pins s) \<and>
     (\<forall>h \<in> set (live_pins s). h < next_pin s)"

lemma lease_inv_create: "lease_inv (create_lease wid cfg ev h e t)"
  by (simp add: lease_inv_def create_lease_def Let_def timer_arm_timer split: option.split)

lemma lease_inv_emit [simp]: "lease_inv (fst (emit op how p b r s)) = lease_inv s"
  by (simp add: lease_inv_def)

lemma lease_inv_take: "lease_inv s \<Longrightarrow> lease_inv (fst (take_lease t who how x r s))"
  by (simp add: lease_inv_def take_lease_def Let_def timer_arm_timer)

lemma lease_inv_give_up: "lease_inv s \<Longrightarrow> lease_inv (fst (give_up how b r s))"
  by (auto simp: lease_inv_def give_up_def clear_timer_def split: option.split)

lemma lease_inv_expire: "lease_inv s \<Longrightarrow> lease_inv (expire s)"
  by (auto simp: lease_inv_def expire_def clear_timer_def split: option.split)

lemma lease_inv_sweep: "lease_inv s \<Longrightarrow> lease_inv (sweep t s)"
  by (simp add: sweep_due lease_inv_expire)

lemma lease_inv_get:
  "lease_inv s \<Longrightarrow> lease_inv (fst (get_holder t s))"
  "lease_inv s \<Longrightarrow> lease_inv (fst (get_epoch t s))"
  "lease_inv s \<Longrightarrow> lease_inv (fst (get_snapshot t s))"
  by (simp_all add: get_holder_def get_epoch_def get_snapshot_def Let_def lease_inv_sweep)

text \<open>A renewal by the holder: a new deadline under a positive TTL, re-armed.\<close>

lemma lease_inv_last_use [simp]: "lease_inv (s\<lparr>last_use := t\<rparr>) = lease_inv s"
  by (simp add: lease_inv_def)

lemma lease_inv_renew:
  "lease_inv s \<Longrightarrow> holder s \<noteq> None \<Longrightarrow> x > 0 \<Longrightarrow>
   lease_inv (arm_timer t (s\<lparr>last_use := u, ttl := x, expires_at := Some e\<rparr>))"
  by (auto simp: lease_inv_def timer_arm_timer)

lemma lease_inv_renew_same:
  assumes "lease_inv s" "expires_at s \<noteq> None"
  shows "lease_inv (arm_timer t (s\<lparr>last_use := u, expires_at := Some e\<rparr>))"
  using assms by (auto simp: lease_inv_def timer_arm_timer)

lemma lease_inv_assert_holder:
  assumes "lease_inv s" shows "lease_inv (fst (assert_holder t who e s))"
proof -
  have inv: "lease_inv (sweep t s)" using assms by (rule lease_inv_sweep)
  show ?thesis
    unfolding assert_holder_def Let_def
    using inv lease_inv_take [OF inv] lease_inv_renew_same [OF inv]
    by (auto simp: case_prod_unfold)
qed

lemma lease_inv_acquire:
  assumes "lease_inv s" shows "lease_inv (fst (acquire t who x s))"
proof -
  have inv: "lease_inv (sweep t s)" using assms by (rule lease_inv_sweep)
  have renewed: "lease_inv (arm_timer t (sweep t s\<lparr>ttl := y, last_use := t,
      expires_at := Some (t + y)\<rparr>))" if "holder (sweep t s) \<noteq> None" "0 < y" for y
    using inv that by (auto simp: lease_inv_def timer_arm_timer simp del: sweep_sel)
  have endless: "lease_inv (arm_timer t (sweep t s\<lparr>ttl := y, last_use := t,
      expires_at := None\<rparr>))" if "holder (sweep t s) \<noteq> None" for y
    using inv that by (auto simp: lease_inv_def timer_arm_timer simp del: sweep_sel)
  show ?thesis
    unfolding acquire_def Let_def
    by (simp add: case_prod_unfold inv lease_inv_take renewed endless del: sweep_sel
        split: option.split)
qed

lemma lease_inv_release:
  assumes "lease_inv s" shows "lease_inv (fst (release t who s))"
  using lease_inv_sweep [OF assms]
  by (auto simp: release_def Let_def case_prod_unfold lease_inv_give_up
      split: option.split simp del: sweep_sel)

lemma lease_inv_steal:
  assumes "lease_inv s" shows "lease_inv (fst (steal t who r a s))"
proof -
  have inv: "lease_inv (sweep t s)" using assms by (rule lease_inv_sweep)
  show ?thesis
    unfolding steal_def Let_def
    using inv lease_inv_take [OF inv] lease_inv_renew_same [OF inv]
    by (auto simp: case_prod_unfold)
qed

lemma lease_inv_pin: "lease_inv s \<Longrightarrow> lease_inv (fst (pin_expiry s))"
  by (auto simp: lease_inv_def pin_expiry_def clear_timer_def)

lemma lease_inv_unpin:
  assumes "lease_inv s" shows "lease_inv (unpin t h s)"
proof (cases "h \<in> set (live_pins s)")
  case False
  with assms show ?thesis by (simp add: unpin_def)
next
  case True
  let ?s1 = "s\<lparr>live_pins := filter (\<lambda>x. x \<noteq> h) (live_pins s), pins := pins s - 1\<rparr>"
  have len: "pins s - 1 \<le> length (filter (\<lambda>x. x \<noteq> h) (live_pins s))"
    using True assms by (auto simp: lease_inv_def length_filter_neq)
  have s1: "lease_inv ?s1" if "pins s - 1 > 0 \<or> timer s \<noteq> None \<or> holder s = None \<or> \<not> 0 < ttl s"
    using assms len that by (auto simp: lease_inv_def)
  have s2: "lease_inv (arm_timer t (if renew_on_use (config s)
      then ?s1\<lparr>expires_at := Some (t + ttl s)\<rparr> else ?s1))"
    if "holder s \<noteq> None" "0 < ttl s"
    using assms len that by (auto simp: lease_inv_def timer_arm_timer)
  show ?thesis
    using True s1 s2 by (auto simp: unpin_def Let_def intro!: lease_inv_sweep)
qed

lemma lease_inv_hibernate: "lease_inv s \<Longrightarrow> lease_inv (fst (release_for_hibernate t s))"
  apply (drule lease_inv_sweep [where t = t])
  by (auto simp: release_for_hibernate_def Let_def give_up_def clear_timer_def lease_inv_def
      split: option.split simp del: sweep_sel)

lemma lease_inv_timer_fires:
  assumes "lease_inv s" shows "lease_inv (timer_fires t s)"
proof (cases "timer s")
  case None
  with assms show ?thesis by (simp add: timer_fires_def)
next
  case (Some d)
  show ?thesis
  proof (cases "d \<le> t")
    case True
    from assms Some True have "due t (s\<lparr>timer := None\<rparr>)"
      by (auto simp: lease_inv_def due_def)
    with assms Some True show ?thesis
      by (auto simp: timer_fires_def sweep_due lease_inv_def expire_def clear_timer_def
          split: option.split)
  qed (use assms Some in \<open>simp add: timer_fires_def\<close>)
qed

lemma lease_inv_close: "lease_inv s \<Longrightarrow> lease_inv (close_lease s)"
  by (simp add: close_lease_def clear_timer_def lease_inv_def)

lemma lease_inv_subscribe:
  "lease_inv s \<Longrightarrow> lease_inv (on_change k s)" "lease_inv s \<Longrightarrow> lease_inv (off_change k s)"
  by (simp_all add: on_change_def off_change_def lease_inv_def)

lemmas lease_inv_ops =
  lease_inv_get lease_inv_assert_holder lease_inv_acquire lease_inv_release lease_inv_steal
  lease_inv_pin lease_inv_unpin lease_inv_hibernate lease_inv_timer_fires lease_inv_close
  lease_inv_subscribe

lemma lease_step_inv: "lease_inv s \<Longrightarrow> lease_inv (lease_step s op)"
  by (cases op) (simp_all add: lease_inv_ops)

interpretation lease_machine: machine lease_step lease_inv
  by unfold_locales (rule lease_step_inv)

section \<open>The epoch never goes back\<close>

lemma epoch_sweep_le: "epoch s \<le> epoch (sweep t s)"
  by simp

lemma epoch_step_le: "epoch s \<le> epoch (lease_step s op)"
  by (cases op)
     (auto simp: lease_op_defs Let_def case_prod_unfold clear_timer_def split: option.split)

interpretation lease_epoch: monotone_machine lease_step lease_inv epoch
  by unfold_locales (rule epoch_step_le)

section \<open>Losing control\<close>

text \<open>The two operations that end a tenure without moving the epoch.\<close>

fun gives_up :: "lease_op \<Rightarrow> bool" where
  "gives_up (OpRelease t who) = True"
| "gives_up (OpReleaseForHibernate t) = True"
| "gives_up _ = False"

lemma holder_lost_step:
  assumes "holder s = Some a" "holder (lease_step s op) \<noteq> Some a" "\<not> gives_up op"
  shows "epoch s < epoch (lease_step s op)"
  using assms
  by (cases op)
     (auto simp: lease_op_defs Let_def case_prod_unfold clear_timer_def may_act_non_admin
        same_client_iff_to_wire split: option.splits if_splits)

lemma holder_lost_run:
  assumes "lease_inv s" "holder s = Some a" "\<forall>op \<in> set ops. \<not> gives_up op"
    and "holder (foldl lease_step s ops) \<noteq> Some a"
  shows "epoch s < epoch (foldl lease_step s ops)"
  using assms
proof (induction ops arbitrary: s)
  case Nil
  then show ?case by simp
next
  case (Cons op ops)
  let ?s1 = "lease_step s op"
  have inv: "lease_inv ?s1" using Cons.prems(1) by (rule lease_step_inv)
  show ?case
  proof (cases "holder ?s1 = Some a")
    case True
    have "epoch s \<le> epoch ?s1" by (rule epoch_step_le)
    also have "\<dots> < epoch (foldl lease_step ?s1 ops)"
      using Cons.prems by (intro Cons.IH [OF inv True]) auto
    finally show ?thesis by simp
  next
    case False
    with Cons.prems have "epoch s < epoch ?s1" by (intro holder_lost_step) auto
    also have "\<dots> \<le> epoch (foldl lease_step ?s1 ops)" using inv by (rule lease_epoch.run_rank)
    finally show ?thesis by simp
  qed
qed

lemma assert_holder_stale:
  assumes "fence who = Some e" "e < epoch s"
  shows "isl (snd (assert_holder t who opt s))"
    and "client_id who \<noteq> None \<Longrightarrow>
      \<exists>snap. snd (assert_holder t who opt s) = Inl (HeldError snap) \<and> e < s_epoch snap"
  using assms
  by (auto simp: assert_holder_def Let_def fence_of_def may_act_stale not_identified_def)

lemma assert_holder_Inr:
  assumes "snd (assert_holder t who opt s) = Inr snap"
  shows "holder (fst (assert_holder t who opt s)) = Some (to_wire who)"
    and "snap = snapshot (fst (assert_holder t who opt s))"
    and "\<And>e. fence_of who opt = Some e \<Longrightarrow> e = epoch (fst (assert_holder t who opt s))"
  using assms
  by (auto simp: assert_holder_def Let_def case_prod_unfold may_act_non_admin
      split: if_splits option.splits)

section \<open>Deadlines\<close>

text \<open>The instant an operation that sweeps first runs at.\<close>

fun swept_at :: "lease_op \<Rightarrow> ms option" where
  "swept_at (OpGetHolder t) = Some t"
| "swept_at (OpGetEpoch t) = Some t"
| "swept_at (OpSnapshot t) = Some t"
| "swept_at (OpAssertHolder t _ _) = Some t"
| "swept_at (OpAcquire t _ _) = Some t"
| "swept_at (OpRelease t _) = Some t"
| "swept_at (OpSteal t _ _ _) = Some t"
| "swept_at (OpReleaseForHibernate t) = Some t"
| "swept_at _ = None"

lemma shown_deadline_future:
  assumes "\<not> is_closed s" "lease_inv s" "swept_at op = Some t"
    and "s_expires_at (snapshot (lease_step s op)) = Some x"
  shows "t < x"
proof -
  have shown: "t < e" if "lease_inv u" "\<not> is_closed u" "\<not> due t u"
    "s_expires_at (snapshot u) = Some e" for u e
    using that by (auto simp: snapshot_def due_def lease_inv_def split: if_splits)
  have sw: "\<not> due t (sweep t s)" "lease_inv (sweep t s)" "\<not> is_closed (sweep t s)"
    using assms(1,2) by (auto simp: sweep_due due_def lease_inv_expire)
  have ttl: "expires_at (sweep t s) = Some e \<Longrightarrow> 0 < ttl (sweep t s)" for e
    using sw(2) by (simp add: lease_inv_def)
  show ?thesis
    using assms(3,4) shown [OF sw(2,3,1)] ttl
    by (cases op)
       (auto simp: lease_op_defs Let_def case_prod_unfold snapshot_def give_up_def clear_timer_def
          split: if_splits option.splits simp del: sweep_sel)
qed

lemma pinned_step:
  assumes "pins s > 0" "pins (lease_step s op) > 0"
    and "\<And>t who. op \<noteq> OpRelease t who" "\<And>t who r a. op \<noteq> OpSteal t who r a"
    and "holder s = Some h"
  shows "holder (lease_step s op) = Some h \<and> epoch (lease_step s op) = epoch s"
proof -
  have nd: "\<not> due t u" if "pins u > 0" for t u using that by (simp add: due_def)
  have sw: "sweep t s = s" for t using assms(1) by (simp add: sweep_due nd)
  show ?thesis
    using assms sw
    by (cases op)
       (auto simp: lease_op_defs Let_def case_prod_unfold clear_timer_def due_def
          same_client_iff_to_wire split: if_splits option.splits)
qed

section \<open>The audit trail\<close>

text \<open>
  The abstract lease is the pair of holder and epoch, and the \<open>omni.lease\<close> envelopes are its
  transitions: each names the holder before, and its snapshot carries the pair after. A release
  leaves the epoch, an implicit acquisition too, and every other transition adds one.
\<close>

definition audit :: "lease \<Rightarrow> lease_event list" where
  "audit s = map snd (filter (\<lambda>(k, _). k = OnEvent) (sent s))"

definition moves_epoch :: "lease_event \<Rightarrow> bool" where
  "moves_epoch e \<longleftrightarrow> ev_op e \<noteq> Released \<and> ev_how e \<noteq> HowImplicit"

fun audit_chain ::
  "wire_ref option \<times> int \<Rightarrow> lease_event list \<Rightarrow> wire_ref option \<times> int \<Rightarrow> bool" where
  "audit_chain p [] q = (p = q)"
| "audit_chain p (e # es) q =
     (ev_previous e = fst p \<and>
      s_epoch (ev_lease e) = snd p + (if moves_epoch e then 1 else 0) \<and>
      audit_chain (s_holder (ev_lease e), s_epoch (ev_lease e)) es q)"

lemma audit_chain_append:
  "audit_chain p (xs @ ys) q \<longleftrightarrow> (\<exists>m. audit_chain p xs m \<and> audit_chain m ys q)"
  by (induction xs arbitrary: p) auto

abbreviation abs_lease :: "lease \<Rightarrow> wire_ref option \<times> int" where
  "abs_lease s \<equiv> (holder s, epoch s)"

definition audited :: "lease \<Rightarrow> lease \<Rightarrow> bool" where
  "audited s s' \<longleftrightarrow> has_on_event s' = has_on_event s \<and>
     (has_on_event s \<longrightarrow>
       (\<exists>es. audit s' = audit s @ es \<and> audit_chain (abs_lease s) es (abs_lease s')))"

lemma audited_trans: "audited s u \<Longrightarrow> audited u v \<Longrightarrow> audited s v"
  by (fastforce simp: audited_def audit_chain_append)

lemma audited_same:
  "has_on_event s' = has_on_event s \<Longrightarrow> sent s' = sent s \<Longrightarrow> holder s' = holder s \<Longrightarrow>
   epoch s' = epoch s \<Longrightarrow> audited s s'"
  by (auto simp: audited_def audit_def intro!: exI [of _ "[]"])

lemma audit_emit:
  "audit (fst (emit op how p b r s)) =
     audit s @ (if has_on_event s
                then [\<lparr>ev_op = op, ev_lease = snapshot s, ev_previous = p, ev_by = b,
                       ev_how = how, ev_reason = r\<rparr>] else [])"
proof -
  have "filter (\<lambda>(k, _). k = OnEvent) (map (\<lambda>k. (k, y)) (map Subscriber ks)) = []"
    for y :: lease_event and ks
    by (induction ks) auto
  then show ?thesis by (simp add: audit_def emit_def Let_def comp_def)
qed

lemma audited_take: "audited s (fst (take_lease t who how x r s))"
  by (auto simp: audited_def take_lease_def Let_def audit_emit moves_epoch_def)
     (auto simp: audit_def moves_epoch_def)

lemma audited_give_up: "audited s (fst (give_up how b r s))"
  by (auto simp: audited_def give_up_def audit_emit clear_timer_def moves_epoch_def
      split: option.split) (auto simp: audit_def moves_epoch_def)

lemma audited_expire: "audited s (expire s)"
  by (auto simp: audited_def expire_def audit_emit clear_timer_def moves_epoch_def
      split: option.split) (auto simp: audit_def moves_epoch_def)

lemma audited_sweep: "audited s (sweep t s)"
  by (simp add: sweep_due audited_expire audited_same)

lemma audited_step: "audited s (lease_step s op)"
proof -
  note via_sweep = audited_trans [OF audited_sweep]
  have renewed: "audited s (arm_timer t (u\<lparr>expires_at := x\<rparr>))" if "audited s u" for s t u x
    by (rule audited_trans [OF that], rule audited_same) simp_all
  have renewed_ttl: "audited s (arm_timer t (u\<lparr>ttl := y, last_use := l, expires_at := x\<rparr>))"
    if "audited s u" for s t u x y l
    by (rule audited_trans [OF that], rule audited_same) simp_all
  have used: "audited s (u\<lparr>last_use := l\<rparr>)" if "audited s u" for s u l
    by (rule audited_trans [OF that], rule audited_same) simp_all
  show ?thesis
  proof (cases op)
    case (OpAssertHolder t who e)
    then show ?thesis
      by (auto simp: assert_holder_def Let_def case_prod_unfold intro: audited_sweep
          via_sweep [OF audited_take] renewed [OF used [OF audited_sweep]]
          used [OF audited_sweep])
  next
    case (OpAcquire t who x)
    then show ?thesis
      by (auto simp: acquire_def Let_def case_prod_unfold split: option.split intro: audited_sweep
          via_sweep [OF audited_take] renewed_ttl [OF audited_sweep])
  next
    case (OpRelease t who)
    then show ?thesis
      by (auto simp: release_def Let_def case_prod_unfold split: option.split intro: audited_sweep
          via_sweep [OF audited_give_up])
  next
    case (OpSteal t who r a)
    then show ?thesis
      by (auto simp: steal_def Let_def case_prod_unfold split: option.split intro: audited_sweep
          via_sweep [OF audited_take] renewed [OF used [OF audited_sweep]]
          used [OF audited_sweep])
  next
    case OpPin
    then show ?thesis by (auto simp: pin_expiry_def clear_timer_def intro: audited_same)
  next
    case (OpUnpin t h)
    then show ?thesis
      by (auto simp: unpin_def Let_def intro!: audited_trans [OF _ audited_sweep])
         (auto intro: audited_same)
  next
    case (OpReleaseForHibernate t)
    have "audited u (u\<lparr>pins := 0\<rparr>)" for u by (rule audited_same) simp_all
    then have "audited s (fst (give_up HowHibernate None None (sweep t s\<lparr>pins := 0\<rparr>)))"
      by (rule audited_trans [OF via_sweep audited_give_up])
    with OpReleaseForHibernate show ?thesis by (simp add: release_for_hibernate_def Let_def)
  next
    case (OpTimerFires t)
    have "audited s (s\<lparr>timer := None\<rparr>)" by (rule audited_same) simp_all
    with OpTimerFires show ?thesis
      by (auto simp: timer_fires_def split: option.split intro: audited_same
          audited_trans [OF _ audited_sweep])
  qed (auto simp: get_holder_def get_epoch_def get_snapshot_def Let_def on_change_def
        off_change_def close_lease_def clear_timer_def intro: audited_sweep audited_same)
qed

lemma audited_run: "audited s (foldl lease_step s ops)"
  by (induction ops rule: rev_induct)
     (auto intro: audited_same audited_trans audited_step)

section \<open>The permissive lease\<close>

text \<open>
  \<open>alwaysGrantedLease\<close>: no state at all. Every method either reports the one snapshot or is
  refused; refusals are \<open>bad_request\<close>.
\<close>

definition always_snapshot :: "string option \<Rightarrow> 'a wire_ref_scheme \<Rightarrow> lease_snapshot" where
  "always_snapshot wid h =
     \<lparr>s_worker_id = (case wid of Some w \<Rightarrow> w | None \<Rightarrow> ''w_unknown''),
      s_holder = Some (to_wire h), s_epoch = 0, s_expires_at = None, s_acquired_at = None,
      s_pinned = False\<rparr>"

fun always_result ::
  "string option \<Rightarrow> client_ref \<Rightarrow> lease_op \<Rightarrow> omni_code + lease_snapshot option" where
  "always_result wid h (OpAcquire _ _ _) = Inl BadRequest"
| "always_result wid h (OpRelease _ _) = Inl BadRequest"
| "always_result wid h (OpSteal _ _ _ _) = Inl BadRequest"
| "always_result wid h (OpAssertHolder _ _ _) = Inr (Some (always_snapshot wid h))"
| "always_result wid h (OpReleaseForHibernate _) = Inr (Some (always_snapshot wid h))"
| "always_result wid h (OpSnapshot _) = Inr (Some (always_snapshot wid h))"
| "always_result wid h _ = Inr None"

section \<open>Properties\<close>

definition demo_client :: "string \<Rightarrow> int option \<Rightarrow> client_ref" where
  "demo_client c f = \<lparr>token_id = ''t'', client_id = Some c, fence = f\<rparr>"

definition demo_lease :: lease where
  "demo_lease = create_lease ''w'' \<lparr>ttl_ms = 10, renew_on_use = True, steal_after_idle_ms = 0,
     require_client_id = False\<rparr> True (Some (demo_client ''a'' None)) None 0"

lemmas demo_defs = demo_lease_def demo_client_def create_lease_def
  lease_op_defs lease_core_defs may_act_def may_steal_def same_client_def to_wire_def
  not_identified_def fence_of_def snapshot_def

text \<open>
  C1: Fencing. Take a well-formed lease (the invariant every operation keeps) held by some client at some
  epoch, and any sequence of operations that contains neither a voluntary release nor a hibernation. If that
  client is not the holder at the end, then a gated call that carries the epoch of its tenure and names a
  client id, whatever token and client make it, is refused with \<open>lease_held\<close>, and the error body names a
  strictly newer epoch. Releases and hibernations are left out because they do not move the epoch
  (\<open>hibernation_leaves_fence_valid\<close>); a call that names no
  client is left out because it may be refused earlier, with another error.
\<close>

theorem lost_lease_is_fenced:
  assumes "lease_inv s" and "holder s = Some a"
    and "\<forall>op \<in> set ops. \<not> gives_up op"
    and "holder (foldl lease_step s ops) \<noteq> Some a"
    and "fence who = Some (epoch s)" and "client_id who \<noteq> None"
  shows "\<exists>snap. snd (assert_holder t who opt (foldl lease_step s ops)) = Inl (HeldError snap)
           \<and> epoch s < s_epoch snap"
  using assms(5,6) holder_lost_run [OF assms(1-4)] by (intro assert_holder_stale(2))

theorem lost_lease_is_fenced_witness:
  "\<exists>snap. snd (assert_holder 6 (demo_client ''a'' (Some 1)) None
       (foldl lease_step demo_lease [OpSteal 5 (demo_client ''b'' None) None False]))
     = Inl (HeldError snap) \<and> epoch demo_lease < s_epoch snap"
  by (rule lost_lease_is_fenced [where a = "\<lparr>token_id = ''t'', client_id = Some ''a''\<rparr>"])
     (simp_all add: demo_defs lease_inv_def Let_def)

text \<open>
  The epoch is monotonic: no sequence of operations, time going any way it likes, lowers it.
\<close>

theorem lease_epoch_monotone:
  "lease_inv s \<Longrightarrow> epoch s \<le> epoch (foldl lease_step s ops)"
  by (rule lease_epoch.run_rank)

theorem lease_epoch_monotone_witness:
  "epoch demo_lease \<le> epoch (foldl lease_step demo_lease [OpSnapshot 20, OpPin])"
  by (rule lease_epoch_monotone) (simp add: demo_lease_def lease_inv_create)

text \<open>
  A gated call that is let through leaves its caller as the holder: the returned snapshot is
  the state afterwards, it names the caller, and if the call carried a fence, that fence is the
  epoch in force. So no two clients can both have their last gated call accepted at one state.
\<close>

theorem granted_call_holds:
  assumes "snd (assert_holder t who opt s) = Inr snap"
  shows "s_holder snap = Some (to_wire who) \<and>
         snap = snapshot (fst (assert_holder t who opt s)) \<and>
         (\<forall>e. fence_of who opt = Some e \<longrightarrow> e = s_epoch snap)"
  using assms assert_holder_Inr [OF assms] by simp

theorem granted_call_holds_witness:
  "s_holder (snapshot (fst (assert_holder 3 (demo_client ''a'' (Some 1)) None demo_lease)))
     = Some \<lparr>token_id = ''t'', client_id = Some ''a''\<rparr>"
proof -
  let ?r = "assert_holder 3 (demo_client ''a'' (Some 1)) None demo_lease"
  have "snd ?r = Inr (snapshot (fst ?r))"
    by (simp add: demo_defs Let_def)
  from granted_call_holds [OF this] show ?thesis by (simp add: demo_client_def to_wire_def)
qed

text \<open>
  A deadline on show is a deadline to come. After any operation that sweeps, at instant
  \<open>t\<close>, on a lease that is not closed, \<open>expiresAt\<close> is either absent or strictly later than
  \<open>t\<close>, however the clock was stepped and whether or not the timer ever ran.
\<close>

theorem no_past_deadline:
  assumes "lease_inv s" and "\<not> is_closed s" and "swept_at op = Some t"
    and "s_expires_at (snapshot (lease_step s op)) = Some x"
  shows "t < x"
  using assms(2,1,3,4) by (rule shown_deadline_future)

theorem no_past_deadline_witness:
  "s_expires_at (snapshot (lease_step demo_lease
     (OpAssertHolder 3 (demo_client ''a'' None) None))) = Some 13 \<and> (3::int) < 13"
proof -
  have e: "s_expires_at (snapshot (lease_step demo_lease
      (OpAssertHolder 3 (demo_client ''a'' None) None))) = Some 13"
    by (simp add: demo_defs Let_def)
  have "(3::int) < 13"
    by (rule no_past_deadline [OF _ _ _ e]) (simp_all add: demo_defs lease_inv_def Let_def)
  with e show ?thesis by simp
qed

text \<open>
  A pinned lease cannot be lost to the clock. While a pin is outstanding before and after an
  operation, only an explicit release or steal changes who holds it or at which epoch: not the
  timer, not a sweep at any instant, not a gated call of somebody else.
\<close>

theorem pinned_lease_stays:
  assumes "pins s > 0" and "pins (lease_step s op) > 0"
    and "\<And>t who. op \<noteq> OpRelease t who" and "\<And>t who r a. op \<noteq> OpSteal t who r a"
    and "holder s = Some h"
  shows "holder (lease_step s op) = Some h \<and> epoch (lease_step s op) = epoch s"
  using assms by (rule pinned_step)

theorem pinned_lease_stays_witness:
  "holder (lease_step (lease_step demo_lease OpPin) (OpSnapshot 1000))
     = Some \<lparr>token_id = ''t'', client_id = Some ''a''\<rparr>
   \<and> epoch (lease_step (lease_step demo_lease OpPin) (OpSnapshot 1000))
     = epoch (lease_step demo_lease OpPin)"
  by (rule pinned_lease_stays) (simp_all add: demo_defs Let_def)

text \<open>
  The audit trail is the lease. With an event sink attached, any run of operations appends to
  the \<open>omni.lease\<close> stream a list of envelopes that, read as transitions of the pair (holder,
  epoch), lead exactly from the pair before the run to the pair after it: each names the previous
  holder truthfully, and the epoch moves by one precisely on expiries, steals and explicit
  acquisitions.
\<close>

theorem audit_trail_complete:
  assumes "has_on_event s"
  shows "\<exists>es. audit (foldl lease_step s ops) = audit s @ es \<and>
           audit_chain (holder s, epoch s) es
             (holder (foldl lease_step s ops), epoch (foldl lease_step s ops))"
  using assms audited_run [of s ops] by (simp add: audited_def)

theorem audit_trail_complete_witness:
  "\<exists>es. audit (foldl lease_step demo_lease [OpSnapshot 10]) = audit demo_lease @ es \<and>
     audit_chain (holder demo_lease, epoch demo_lease) es
       (holder (foldl lease_step demo_lease [OpSnapshot 10]),
        epoch (foldl lease_step demo_lease [OpSnapshot 10]))"
  by (rule audit_trail_complete) (simp add: demo_lease_def create_lease_def Let_def arm_timer_def)

text \<open>
  What fencing does not cover. \<open>releaseForHibernate\<close> takes the lease from its holder without
  moving the epoch, and an implicit acquisition does not move it either. So a client whose lease
  was taken by a hibernation, and then held and released by another client, still passes the fence
  with the epoch of its old tenure. The design comment in \<open>lease.ts\<close> says every transfer between
  two different parties passes through a steal or an expiry; this run is a transfer that does not.
\<close>

theorem hibernation_leaves_fence_valid:
  "let a = demo_client ''a'' (Some (epoch demo_lease));
       b = demo_client ''b'' None;
       s = foldl lease_step demo_lease
             [OpReleaseForHibernate 1, OpAssertHolder 2 b None, OpRelease 3 b]
   in holder demo_lease = Some (to_wire a) \<and>
      holder (foldl lease_step demo_lease [OpReleaseForHibernate 1, OpAssertHolder 2 b None])
        = Some (to_wire b) \<and>
      \<not> isl (snd (assert_holder 4 a None s))"
  by code_simp

end
