(* ===== verification/Events.thy ===== *)
theory Events
  imports LeasePolicy
begin

text \<open>
  The wire vocabulary of \<open>packages/protocol/src/events.ts\<close>: worker states, the envelope and
  the payload of every event kind. A \<open>session_update\<close> payload is the agent's own JSON object,
  which every consumer reads defensively; the daemon-written payloads are records. An optional
  property that every reader treats like \<open>null\<close> when absent is one \<open>option\<close>.
\<close>

datatype worker_state = Starting | Ready | Running | RequiresAction | Hibernated | Closed

datatype worker_reason =
    ClientRequest | DaemonShutdown | SpawnFailed | HandshakeError | HandshakeTimeout | AgentExited
  | AgentCrashed | ProtocolError | CancelTimeout | NotResumableReason | IdleTimeout | WakeFailed
  | Orphaned | AclRevoked
  | Created | HandshakeOk | PromptReason | TurnEndReason | HibernateReason | Wake | Resumed
  | WakeRetry | DaemonRestart | InteractionParked | InteractionResolved | ParkTimeout
  | WatchdogIdle | Restart

datatype interaction_method = RequestPermission | ElicitationCreate
datatype interaction_kind = Permission | Elicitation
datatype interaction_status = Pending | Answered | Failed | ExpiredStatus | Cancelled
datatype interaction_actor = Baseline | PolicyActor | Human | Timeout | Daemon
datatype park_timeout_action = TimeoutDeny | TimeoutFail

datatype policy_action = Allow | Park | Deny | Fail

fun action_text :: "policy_action \<Rightarrow> string" where
  "action_text Allow = ''allow''"
| "action_text Park = ''park''"
| "action_text Deny = ''deny''"
| "action_text Fail = ''fail''"

datatype decision = DAllow | DDeny | DAnswer | DCancel | DError

fun decision_text :: "decision \<Rightarrow> string" where
  "decision_text DAllow = ''allow''"
| "decision_text DDeny = ''deny''"
| "decision_text DAnswer = ''answer''"
| "decision_text DCancel = ''cancel''"
| "decision_text DError = ''error''"

datatype answer_action = Accept | Decline | CancelAnswer

fun answer_action_text :: "answer_action \<Rightarrow> string" where
  "answer_action_text Accept = ''accept''"
| "answer_action_text Decline = ''decline''"
| "answer_action_text CancelAnswer = ''cancel''"

datatype rule_source = SrcBaseline | SrcDefault | SrcPreset | SrcInline | SrcCeiling

record clamp =
  clamp_from :: policy_action
  clamp_by :: string

text \<open>\<open>OmniErrorBody\<close> as an event carries it; \<open>stderrTail\<close> is \<open>omni.error\<close>'s own extra.\<close>

record error_body =
  err_code :: omni_code
  err_message :: string
  err_acp :: "json option"
  err_stderr_tail :: "string option"

record worker_state_payload =
  ws_state :: worker_state
  ws_previous :: "worker_state option"
  ws_reason :: worker_reason
  ws_exit :: "(int option \<times> string option) option"
  ws_leader_exited :: "bool option"
  ws_tree_gone :: "bool option"
  ws_error :: "error_body option"
  ws_resume :: "json option"
  ws_orphan :: "json option"
  ws_crashed :: "bool option"
  ws_generation :: "int option"
  ws_watchdog :: "(bool \<times> ms \<times> int) option"
  ws_interactions :: "string list option"

record park_block =
  park_parked_at :: ms
  park_expires_at :: "ms option"
  park_on_timeout :: park_timeout_action

record answer_block =
  ans_option_id :: "string option"
  ans_by :: interaction_actor
  ans_action :: "answer_action option"
  ans_content_keys :: "string list option"
  ans_by_token :: "string option"
  ans_parked_ms :: "ms option"

record interaction_payload =
  ia_request_id :: string
  ia_kind :: "interaction_kind option"
  ia_method :: interaction_method
  ia_request :: json
  ia_raw :: "json option"
  ia_status :: interaction_status
  ia_park :: "park_block option"
  ia_tool_call_id :: "string option"
  ia_answer :: "answer_block option"

record policy_decision =
  pd_request_id :: string
  pd_kind :: "interaction_kind option"
  pd_method :: "interaction_method option"
  pd_title :: string
  pd_decision :: decision
  pd_by :: "interaction_actor option"
  pd_rule :: string
  pd_rule_source :: "rule_source option"
  pd_clamped :: "clamp option"
  pd_parked_ms :: "ms option"
  pd_option_id :: "string option"
  pd_offered :: "json list"
  pd_tool_call_id :: "string option"
  pd_blinds_policy :: bool

text \<open>
  \<open>EventBody\<close>: the kind and its payload in one. Run and credential payloads are read by no
  modelled consumer and stay JSON; so does the lease payload, whose content is \<open>Lease\<close>'s.
\<close>

datatype event_body =
    SessionUpdate json
  | Interaction interaction_payload
  | PolicyDecision policy_decision
  | WorkerStateEv worker_state_payload
  | LeaseEv json
  | ErrorEv error_body
  | RunEv json
  | CredentialEv json

record event_input =
  in_body :: event_body
  in_version :: int
  in_turn :: "string option"
  in_replay :: bool

record envelope =
  env_body :: event_body
  env_version :: int
  env_turn :: "string option"
  env_replay :: bool
  env_seq :: seq
  env_ts :: ms
  env_daemon :: string
  env_worker :: string
  env_session :: "string option"

text \<open>\<open>MappedPermissionRequest\<close> and \<open>InteractionRequest\<close>, the v2-mapped requests.\<close>

record permission_request =
  pr_session_id :: string
  pr_title :: "json option"
  pr_options :: "json option"
  pr_subject :: json
  pr_tool_call_id :: "string option"
  pr_raw :: json
  pr_meta :: "json option"

text \<open>
  \<open>ElicitationField\<close>: one question of a form. \<open>ef_custom\<close> is the free-text property paired with
  it; the constraints keep their numbers as the agent wrote them.
\<close>

datatype field_type = FtString | FtInteger | FtNumber | FtBoolean | FtArray

record elicit_option =
  eo_value :: string
  eo_title :: "string option"
  eo_description :: "string option"

record elicitation_field =
  ef_id :: string
  ef_title :: "string option"
  ef_type :: field_type
  ef_options :: "elicit_option list"
  ef_required :: bool
  ef_custom :: "string option"
  ef_custom_for :: "string option"
  ef_constraints :: "(string \<times> jsnum) list"

record interaction_request =
  iq_id :: string
  iq_kind :: interaction_kind
  iq_method :: interaction_method
  iq_title :: string
  iq_message :: "string option"
  iq_subject :: json
  iq_options :: "json list"
  iq_fields :: "elicitation_field list"
  iq_tool_call_id :: "string option"
  iq_turn_id :: "string option"
  iq_raw :: json

end
