(* ===== verification/EventLog.thy ===== *)
theory EventLog
  imports Events
begin

text \<open>
  The event log of \<open>packages/core/src/event-log/log-core.ts\<close>: the ring, the subscribers, the
  overflow policy, the re-entrancy guard and the one assigner of sequence numbers.

  A subscriber's listener and its overflow callback are code of the caller. They are parameters:
  given the log as it is at the call, the subscriber and the envelope, they answer the list of
  calls they make back into the log (appends, and closing a subscription), in order. The durable
  store is a parameter too (\<open>store_ops\<close>), whose laws are the locale of \<open>EventLogStore\<close>. The
  contract says a listener must not throw, and a throwing one is not modelled.
\<close>

section \<open>State\<close>

text \<open>
  One subscriber's bookkeeping (\<open>Sub\<close>). Subscribers are numbered in the order they were added
  to the \<open>Set\<close>; deleting one from the set is \<open>sub_in_set := False\<close>.
\<close>

record sub =
  queue_size :: nat
  attached_at :: seq
  pending :: "envelope list"
  next_idx :: nat
  last_delivered :: seq
  busy :: bool
  sub_closed :: bool
  sub_in_set :: bool

text \<open>The part of \<open>EventStore\<close> the log calls; \<open>put\<close> answers whether it threw.\<close>

record 'st store_ops =
  st_put :: "'st \<Rightarrow> envelope \<Rightarrow> 'st \<times> bool"
  st_tail_of :: "'st \<Rightarrow> string \<Rightarrow> seq"
  st_read :: "'st \<Rightarrow> string \<Rightarrow> seq \<Rightarrow> nat \<Rightarrow> envelope list"
  st_flush :: "'st \<Rightarrow> 'st"

text \<open>
  The variables of the closure. \<open>delivered\<close>, \<open>overflows\<close> and \<open>history\<close> are ghost fields no
  code reads: the listener calls, the overflow notifications and the envelopes appended, in order.
\<close>

record 'st log =
  log_worker :: string
  log_daemon :: string
  max_events :: nat
  default_queue :: nat
  base :: seq
  ring :: "envelope list"
  subs :: "sub list"
  head :: seq
  session :: "string option"
  store :: "'st option"
  degraded :: bool
  announced :: bool
  announcing :: bool
  batching :: bool
  delivered :: "(nat \<times> envelope) list"
  overflows :: "(nat \<times> seq) list"
  history :: "envelope list"

datatype log_call = CallAppend event_input | CallClose nat

record 'st log_env =
  ops :: "'st store_ops"
  now :: ms
  listener :: "'st log \<Rightarrow> nat \<Rightarrow> envelope \<Rightarrow> log_call list"
  on_overflow :: "'st log \<Rightarrow> nat \<Rightarrow> seq \<Rightarrow> log_call list"

section \<open>Construction and reading\<close>

text \<open>\<open>positiveInt\<close> and \<open>nonNegativeInt\<close>: anything else is an \<open>internal\<close> error.\<close>

fun positive_int :: "jsnum \<Rightarrow> omni_code + nat" where
  "positive_int (Fin q) = (if of_int \<lfloor>q\<rfloor> = q \<and> q \<ge> 1 then Inr (nat \<lfloor>q\<rfloor>) else Inl Internal)"
| "positive_int _ = Inl Internal"

fun non_negative_int :: "jsnum \<Rightarrow> omni_code + nat" where
  "non_negative_int (Fin q) = (if of_int \<lfloor>q\<rfloor> = q \<and> q \<ge> 0 then Inr (nat \<lfloor>q\<rfloor>) else Inl Internal)"
| "non_negative_int _ = Inl Internal"

text \<open>A cursor from the wire: below zero and non-finite both mean from birth.\<close>

fun cursor :: "jsnum \<Rightarrow> seq" where
  "cursor (Fin q) = (if q > 0 then \<lfloor>q\<rfloor> else 0)"
| "cursor _ = 0"

definition create_log ::
  "string \<Rightarrow> string \<Rightarrow> jsnum option \<Rightarrow> jsnum option \<Rightarrow> jsnum option \<Rightarrow> 'st option
   \<Rightarrow> omni_code + 'st log" where
  "create_log worker daemon max_ev queue start st =
     (case positive_int (case max_ev of None \<Rightarrow> Fin 10000 | Some v \<Rightarrow> v) of Inl e \<Rightarrow> Inl e
      | Inr m \<Rightarrow>
     (case positive_int (case queue of None \<Rightarrow> Fin 1024 | Some v \<Rightarrow> v) of Inl e \<Rightarrow> Inl e
      | Inr q \<Rightarrow>
     (case non_negative_int (case start of None \<Rightarrow> Fin 0 | Some v \<Rightarrow> v) of Inl e \<Rightarrow> Inl e
      | Inr b \<Rightarrow>
        Inr \<lparr>log_worker = worker, log_daemon = daemon, max_events = m, default_queue = q,
             base = int b, ring = [], subs = [], head = int b, session = None, store = st,
             degraded = False, announced = False, announcing = False, batching = False,
             delivered = [], overflows = [], history = []\<rparr>)))"

definition slot :: "'st log \<Rightarrow> seq \<Rightarrow> nat" where
  "slot l s = nat ((s - base l - 1) mod int (max_events l))"

definition ring_floor :: "'st log \<Rightarrow> seq" where
  "ring_floor l = (if ring l = [] then head l + 1 else head l - int (length (ring l)) + 1)"

definition log_tail :: "'st store_ops \<Rightarrow> 'st log \<Rightarrow> seq" where
  "log_tail so l =
     (let floor = max 1 (ring_floor l) in
      case store l of None \<Rightarrow> floor | Some st \<Rightarrow> min (st_tail_of so st (log_worker l)) floor)"

text \<open>The ring half of \<open>read\<close>: the loop from \<open>s\<close> to the head, at most \<open>want\<close> in all.\<close>

function ring_scan :: "'st log \<Rightarrow> nat option \<Rightarrow> seq \<Rightarrow> envelope list \<Rightarrow> envelope list" where
  "ring_scan l want s out =
     (if s \<le> head l \<and> (case want of None \<Rightarrow> True | Some w \<Rightarrow> length out < w)
      then ring_scan l want (s + 1)
             (if slot l s < length (ring l) then out @ [ring l ! slot l s] else out)
      else out)"
  by pat_completeness auto
termination
  by (relation "measure (\<lambda>(l, want, s, out). nat (head l + 1 - s))") auto

declare ring_scan.simps [simp del]

text \<open>
  \<open>read\<close>. The limit is absent or an integer; a negative one counts as zero. The disk half stops
  at the ring's floor, so the two sources never overlap.
\<close>

definition read_log :: "'st store_ops \<Rightarrow> 'st log \<Rightarrow> jsnum \<Rightarrow> int option \<Rightarrow> envelope list" where
  "read_log so l since limit =
     (let from = max (cursor since + 1) (log_tail so l) in
      if from > head l then []
      else
        (let want = map_option (\<lambda>n. nat (max 0 n)) limit in
         if want = Some 0 then []
         else
           (let floor = max 1 (ring_floor l);
                disk = (case store l of
                    None \<Rightarrow> []
                  | Some st \<Rightarrow>
                      if from < floor
                      then (let need = (case want of None \<Rightarrow> nat (floor - from)
                                        | Some w \<Rightarrow> min w (nat (floor - from)))
                            in takeWhile (\<lambda>e. env_seq e < floor)
                                 (st_read so st (log_worker l) (from - 1) need))
                      else [])
            in ring_scan l want (max from floor) disk)))"

section \<open>Subscriptions\<close>

definition upd_sub :: "nat \<Rightarrow> (sub \<Rightarrow> sub) \<Rightarrow> 'st log \<Rightarrow> 'st log" where
  "upd_sub i f l = (if i < length (subs l) then l\<lparr>subs := (subs l)[i := f (subs l ! i)]\<rparr> else l)"

definition close_sub :: "nat \<Rightarrow> 'st log \<Rightarrow> 'st log" where
  "close_sub i =
     upd_sub i (\<lambda>u. if sub_closed u then u
                    else u\<lparr>sub_closed := True, pending := [], next_idx := 0,
                           sub_in_set := False\<rparr>)"

text \<open>The pending envelopes not yet handed to the listener.\<close>

definition backlog :: "sub \<Rightarrow> envelope list" where
  "backlog u = drop (next_idx u) (pending u)"

definition enqueue :: "nat \<Rightarrow> envelope \<Rightarrow> 'st log \<Rightarrow> 'st log" where
  "enqueue i e = upd_sub i (\<lambda>u. u\<lparr>pending := pending u @ [e]\<rparr>)"

text \<open>
  Taking the next envelope off the queue: advance the cursor, drop the array once it is drained,
  record the last delivered number, and call the listener.
\<close>

definition take_next :: "nat \<Rightarrow> 'st log \<Rightarrow> 'st log \<times> envelope" where
  "take_next i l =
     (let u = subs l ! i; e = pending u ! next_idx u; n = next_idx u + 1;
          u1 = (if n \<ge> length (pending u) then u\<lparr>pending := [], next_idx := 0\<rparr>
                else u\<lparr>next_idx := n\<rparr>)
      in (l\<lparr>subs := (subs l)[i := u1\<lparr>last_delivered := env_seq e\<rparr>],
            delivered := delivered l @ [(i, e)]\<rparr>, e))"

text \<open>The envelope \<open>appendOne\<close> builds and freezes.\<close>

definition make_envelope :: "ms \<Rightarrow> 'st log \<Rightarrow> event_input \<Rightarrow> envelope" where
  "make_envelope t l inp =
     \<lparr>env_body = in_body inp, env_version = in_version inp, env_turn = in_turn inp,
      env_replay = in_replay inp, env_seq = head l, env_ts = t, env_daemon = log_daemon l,
      env_worker = log_worker l, env_session = session l\<rparr>"

text \<open>
  Assign the next number, write through to the store (a failure only degrades the log), and put
  the envelope in the ring: everything of \<open>appendOne\<close> before the fan-out.
\<close>

definition store_put :: "'st store_ops \<Rightarrow> envelope \<Rightarrow> 'st log \<Rightarrow> 'st log" where
  "store_put so e l =
     (case store l of
        None \<Rightarrow> l
      | Some st \<Rightarrow> (let (st', failed) = st_put so st e
                   in l\<lparr>store := Some st', degraded := degraded l \<or> failed\<rparr>))"

definition ring_put :: "envelope \<Rightarrow> 'st log \<Rightarrow> 'st log" where
  "ring_put e l =
     (if length (ring l) < max_events l then l\<lparr>ring := ring l @ [e]\<rparr>
      else l\<lparr>ring := (ring l)[slot l (env_seq e) := e]\<rparr>)"

definition record_event :: "'st log_env \<Rightarrow> event_input \<Rightarrow> 'st log \<Rightarrow> 'st log \<times> envelope" where
  "record_event env inp l =
     (let l1 = l\<lparr>head := head l + 1\<rparr>;
          e = make_envelope (now env) l1 inp;
          l2 = ring_put e (store_put (ops env) e l1)
      in (l2\<lparr>history := history l2 @ [e]\<rparr>, e))"

text \<open>The one in-band announcement that persistence is degraded.\<close>

definition degradation_notice :: event_input where
  "degradation_notice =
     \<lparr>in_body = ErrorEv \<lparr>err_code = Internal,
        err_message = ''event log persistence degraded: a durable write failed, so this worker's history will not survive a restart'',
        err_acp = None, err_stderr_tail = None\<rparr>,
      in_version = 2, in_turn = None, in_replay = False\<rparr>"

section \<open>Appending\<close>

text \<open>
  Appending, fan-out, delivery and the callbacks call each other, so they are one recursion over
  the function being run. A listener that appends whenever it is called never returns in the code
  either; the fuel bounds the depth of calls and \<open>None\<close> is running out of it.

  \<open>FanEnqueue\<close> and \<open>FanDrain\<close> are the two loops of \<open>fanOut\<close> over the live \<open>Set\<close>:
  subscribers in the order they were added, skipping the ones deleted meanwhile. \<open>Drain\<close> is the
  re-entrancy guard and \<open>DrainLoop\<close> the loop inside it.
\<close>

datatype log_fun =
    AppendOne event_input
  | FanEnqueue nat envelope
  | FanDrain nat
  | Drain nat
  | DrainLoop nat
  | RunCalls "log_call list"
  | Append event_input

primrec log_exec :: "'st log_env \<Rightarrow> nat \<Rightarrow> log_fun \<Rightarrow> 'st log \<Rightarrow> 'st log option" where
  "log_exec env 0 f l = None"
| "log_exec env (Suc n) f l =
    (case f of
       AppendOne inp \<Rightarrow>
         (let (l1, e) = record_event env inp l in
          Option.bind (log_exec env n (FanEnqueue 0 e) l1) (log_exec env n (FanDrain 0)))
     | FanEnqueue i e \<Rightarrow>
         (if i \<ge> length (subs l) then Some l
          else
            (let u = subs l ! i in
             if \<not> sub_in_set u \<or> sub_closed u \<or> env_seq e \<le> attached_at u
             then log_exec env n (FanEnqueue (Suc i) e) l
             else
               (let l1 = enqueue i e l; u1 = subs l1 ! i in
                if length (pending u1) - next_idx u1 > queue_size u1
                then
                  (let l2 = close_sub i l1;
                       l3 = l2\<lparr>overflows := overflows l2 @ [(i, last_delivered u1)]\<rparr>
                   in Option.bind
                        (log_exec env n (RunCalls (on_overflow env l3 i (last_delivered u1))) l3)
                        (log_exec env n (FanEnqueue (Suc i) e)))
                else log_exec env n (FanEnqueue (Suc i) e) l1)))
     | FanDrain i \<Rightarrow>
         (if i \<ge> length (subs l) then Some l
          else if \<not> sub_in_set (subs l ! i) then log_exec env n (FanDrain (Suc i)) l
          else Option.bind (log_exec env n (Drain i) l) (log_exec env n (FanDrain (Suc i))))
     | Drain i \<Rightarrow>
         (if busy (subs l ! i) then Some l
          else map_option (upd_sub i (\<lambda>u. u\<lparr>busy := False\<rparr>))
                 (log_exec env n (DrainLoop i) (upd_sub i (\<lambda>u. u\<lparr>busy := True\<rparr>) l)))
     | DrainLoop i \<Rightarrow>
         (let u = subs l ! i in
          if sub_closed u \<or> next_idx u \<ge> length (pending u) then Some l
          else
            (let (l1, e) = take_next i l in
             Option.bind (log_exec env n (RunCalls (listener env l1 i e)) l1)
               (log_exec env n (DrainLoop i))))
     | RunCalls cs \<Rightarrow>
         (case cs of
            [] \<Rightarrow> Some l
          | CallAppend inp # rest \<Rightarrow>
              Option.bind (log_exec env n (Append inp) l) (log_exec env n (RunCalls rest))
          | CallClose j # rest \<Rightarrow> log_exec env n (RunCalls rest) (close_sub j l))
     | Append inp \<Rightarrow>
         Option.bind (log_exec env n (AppendOne inp) l)
           (\<lambda>l1. if \<not> degraded l1 \<or> announced l1 \<or> announcing l1 \<or> batching l1 then Some l1
                 else map_option (\<lambda>l2. l2\<lparr>announcing := False\<rparr>)
                        (log_exec env n (AppendOne degradation_notice)
                           (l1\<lparr>announcing := True, announced := True\<rparr>))))"

text \<open>The functions of the code, each answering the envelope it built.\<close>

definition append_one ::
  "'st log_env \<Rightarrow> nat \<Rightarrow> event_input \<Rightarrow> 'st log \<Rightarrow> ('st log \<times> envelope) option" where
  "append_one env n inp l =
     map_option (\<lambda>l'. (l', snd (record_event env inp l))) (log_exec env n (AppendOne inp) l)"

definition append ::
  "'st log_env \<Rightarrow> nat \<Rightarrow> event_input \<Rightarrow> 'st log \<Rightarrow> ('st log \<times> envelope) option" where
  "append env n inp l =
     map_option (\<lambda>l'. (l', snd (record_event env inp l))) (log_exec env n (Append inp) l)"

text \<open>\<open>announceDegradation\<close> on its own, as \<open>appendAll\<close> calls it after the batch.\<close>

definition announce_degradation :: "'st log_env \<Rightarrow> nat \<Rightarrow> 'st log \<Rightarrow> 'st log option" where
  "announce_degradation env n l =
     (if \<not> degraded l \<or> announced l \<or> announcing l \<or> batching l then Some l
      else map_option (\<lambda>(l2, _). l2\<lparr>announcing := False\<rparr>)
             (append_one env n degradation_notice (l\<lparr>announcing := True, announced := True\<rparr>)))"

fun append_batch ::
  "'st log_env \<Rightarrow> nat \<Rightarrow> event_input list \<Rightarrow> 'st log \<Rightarrow> ('st log \<times> envelope list) option" where
  "append_batch env n [] l = Some (l, [])"
| "append_batch env n (inp # inps) l =
     (case append_one env n inp l of
        None \<Rightarrow> None
      | Some (l1, e) \<Rightarrow>
          map_option (\<lambda>(l2, es). (l2, e # es)) (append_batch env n inps l1))"

definition append_all ::
  "'st log_env \<Rightarrow> nat \<Rightarrow> event_input list \<Rightarrow> 'st log \<Rightarrow> ('st log \<times> envelope list) option" where
  "append_all env n inps l =
     (let outer = batching l in
      case append_batch env n inps (l\<lparr>batching := True\<rparr>) of
        None \<Rightarrow> None
      | Some (l1, es) \<Rightarrow>
          map_option (\<lambda>l2. (l2, es)) (announce_degradation env n (l1\<lparr>batching := outer\<rparr>)))"

section \<open>The other methods\<close>

definition subscribe ::
  "'st log_env \<Rightarrow> nat \<Rightarrow> jsnum \<Rightarrow> jsnum option \<Rightarrow> 'st log \<Rightarrow> omni_code + ('st log \<times> nat) option" where
  "subscribe env n since queue l =
     (case (case queue of None \<Rightarrow> Inr (default_queue l) | Some q \<Rightarrow> positive_int q) of
        Inl e \<Rightarrow> Inl e
      | Inr q \<Rightarrow>
          (let i = length (subs l);
               u = \<lparr>queue_size = q, attached_at = head l, pending = [], next_idx = 0,
                    last_delivered = min (cursor since) (head l), busy = False,
                    sub_closed = False, sub_in_set = True\<rparr>;
               l1 = l\<lparr>subs := subs l @ [u\<lparr>pending := read_log (ops env) l since None\<rparr>]\<rparr>
           in Inr (map_option (\<lambda>l2. (l2, i)) (log_exec env n (Drain i) l1))))"

fun close_all_from :: "nat \<Rightarrow> 'st log \<Rightarrow> 'st log" where
  "close_all_from 0 l = l"
| "close_all_from (Suc i) l = close_all_from i (close_sub i l)"

definition close_log :: "'st log \<Rightarrow> 'st log" where
  "close_log l = close_all_from (length (subs l)) l"

definition set_session_id :: "string \<Rightarrow> 'st log \<Rightarrow> 'st log" where
  "set_session_id sid l = l\<lparr>session := Some sid\<rparr>"

datatype persistence = MemoryLog | DurableLog | DegradedLog

definition log_persistence :: "'st log \<Rightarrow> persistence" where
  "log_persistence l =
     (if store l = None then MemoryLog else if degraded l then DegradedLog else DurableLog)"

definition flush_log :: "'st store_ops \<Rightarrow> 'st log \<Rightarrow> 'st log" where
  "flush_log so l = l\<lparr>store := map_option (st_flush so) (store l)\<rparr>"

definition subscriber_count :: "'st log \<Rightarrow> nat" where
  "subscriber_count l = length (filter sub_in_set (subs l))"

end
