(* ===== verification/EventLogRing.thy ===== *)
theory EventLogRing
  imports EventLog
begin

text \<open>
  What the ring of the event log holds. The abstract log is the list of all envelopes appended
  since construction (\<open>history\<close>); the ring refines its last \<open>max_events\<close> elements, and
  \<open>read\<close> without a store answers exactly the abstract suffix a cursor asks for.
\<close>

section \<open>Unfolding one call\<close>

text \<open>What a call that returned has done, function by function.\<close>

lemma exec_AppendOne:
  "log_exec env (Suc n) (AppendOne inp) l = Some l' \<longleftrightarrow>
     (\<exists>l2. log_exec env n (FanEnqueue 0 (snd (record_event env inp l)))
             (fst (record_event env inp l)) = Some l2 \<and>
           log_exec env n (FanDrain 0) l2 = Some l')"
  by (simp add: case_prod_unfold Let_def bind_eq_Some_conv)

text \<open>A subscriber the fan-out passes over.\<close>

definition skipped :: "'st log \<Rightarrow> nat \<Rightarrow> envelope \<Rightarrow> bool" where
  "skipped l i e \<longleftrightarrow> (let u = subs l ! i in
     \<not> sub_in_set u \<or> sub_closed u \<or> env_seq e \<le> attached_at u)"

definition overflows_now :: "'st log \<Rightarrow> nat \<Rightarrow> bool" where
  "overflows_now l i \<longleftrightarrow> (let u = subs l ! i in length (pending u) - next_idx u > queue_size u)"

definition close_overflowed :: "nat \<Rightarrow> 'st log \<Rightarrow> 'st log" where
  "close_overflowed i l =
     (let l2 = close_sub i l
      in l2\<lparr>overflows := overflows l2 @ [(i, last_delivered (subs l ! i))]\<rparr>)"

lemma exec_FanEnqueue:
  "log_exec env (Suc n) (FanEnqueue i e) l = Some l' \<longleftrightarrow>
     (if i \<ge> length (subs l) then l' = l
      else if skipped l i e then log_exec env n (FanEnqueue (Suc i) e) l = Some l'
      else if overflows_now (enqueue i e l) i
      then (\<exists>l4. log_exec env n
              (RunCalls (on_overflow env (close_overflowed i (enqueue i e l)) i
                           (last_delivered (subs (enqueue i e l) ! i))))
              (close_overflowed i (enqueue i e l)) = Some l4 \<and>
            log_exec env n (FanEnqueue (Suc i) e) l4 = Some l')
      else log_exec env n (FanEnqueue (Suc i) e) (enqueue i e l) = Some l')"
  by (auto simp: skipped_def overflows_now_def close_overflowed_def Let_def bind_eq_Some_conv)

lemma exec_FanDrain:
  "log_exec env (Suc n) (FanDrain i) l = Some l' \<longleftrightarrow>
     (if i \<ge> length (subs l) then l' = l
      else if \<not> sub_in_set (subs l ! i) then log_exec env n (FanDrain (Suc i)) l = Some l'
      else (\<exists>l1. log_exec env n (Drain i) l = Some l1 \<and>
                 log_exec env n (FanDrain (Suc i)) l1 = Some l'))"
  by (auto simp: bind_eq_Some_conv)

abbreviation set_busy :: "bool \<Rightarrow> nat \<Rightarrow> 'st log \<Rightarrow> 'st log" where
  "set_busy b i \<equiv> upd_sub i (\<lambda>u. u\<lparr>busy := b\<rparr>)"

lemma exec_Drain:
  "log_exec env (Suc n) (Drain i) l = Some l' \<longleftrightarrow>
     (if busy (subs l ! i) then l' = l
      else (\<exists>l1. log_exec env n (DrainLoop i) (set_busy True i l) = Some l1 \<and>
                 l' = set_busy False i l1))"
  by auto

lemma exec_DrainLoop:
  "log_exec env (Suc n) (DrainLoop i) l = Some l' \<longleftrightarrow>
     (if sub_closed (subs l ! i) \<or> next_idx (subs l ! i) \<ge> length (pending (subs l ! i))
      then l' = l
      else (\<exists>l2. log_exec env n
              (RunCalls (listener env (fst (take_next i l)) i (snd (take_next i l))))
              (fst (take_next i l)) = Some l2 \<and>
            log_exec env n (DrainLoop i) l2 = Some l'))"
  by (auto simp: Let_def case_prod_unfold bind_eq_Some_conv)

lemma exec_RunCalls:
  "log_exec env (Suc n) (RunCalls []) l = Some l' \<longleftrightarrow> l' = l"
  "log_exec env (Suc n) (RunCalls (CallAppend inp # cs)) l = Some l' \<longleftrightarrow>
     (\<exists>l1. log_exec env n (Append inp) l = Some l1 \<and> log_exec env n (RunCalls cs) l1 = Some l')"
  "log_exec env (Suc n) (RunCalls (CallClose j # cs)) l = Some l' \<longleftrightarrow>
     log_exec env n (RunCalls cs) (close_sub j l) = Some l'"
  by (auto simp: bind_eq_Some_conv)

definition must_announce :: "'st log \<Rightarrow> bool" where
  "must_announce l \<longleftrightarrow> degraded l \<and> \<not> announced l \<and> \<not> announcing l \<and> \<not> batching l"

lemma exec_Append:
  "log_exec env (Suc n) (Append inp) l = Some l' \<longleftrightarrow>
     (\<exists>l1. log_exec env n (AppendOne inp) l = Some l1 \<and>
       (if must_announce l1
        then (\<exists>l2. log_exec env n (AppendOne degradation_notice)
                     (l1\<lparr>announcing := True, announced := True\<rparr>) = Some l2 \<and>
                   l' = l2\<lparr>announcing := False\<rparr>)
        else l' = l1))"
  by (auto simp: must_announce_def bind_eq_Some_conv split: if_splits)

lemmas exec_iffs =
  exec_AppendOne exec_FanEnqueue exec_FanDrain exec_Drain exec_DrainLoop exec_RunCalls exec_Append

declare log_exec.simps(2) [simp del]

section \<open>Primitive steps\<close>

text \<open>
  Every function of the log is a composition of a few primitive steps. A predicate that each of
  them keeps is kept by all of them, through any callbacks.
\<close>

locale log_primitives =
  fixes env :: "'st log_env" and P :: "'st log \<Rightarrow> bool"
  assumes P_record: "P l \<Longrightarrow> P (fst (record_event env inp l))"
    and P_subs: "P l \<Longrightarrow> P (l\<lparr>subs := us\<rparr>)"
    and P_delivered: "P l \<Longrightarrow> P (l\<lparr>delivered := ds\<rparr>)"
    and P_overflows: "P l \<Longrightarrow> P (l\<lparr>overflows := os\<rparr>)"
    and P_announcing: "P l \<Longrightarrow> P (l\<lparr>announcing := a\<rparr>)"
    and P_announced: "P l \<Longrightarrow> P (l\<lparr>announced := b\<rparr>)"
begin

lemma P_upd_sub: "P l \<Longrightarrow> P (upd_sub i f l)"
  by (simp add: upd_sub_def P_subs)

lemma P_close_sub: "P l \<Longrightarrow> P (close_sub i l)"
  by (simp add: close_sub_def P_upd_sub)

lemma P_enqueue: "P l \<Longrightarrow> P (enqueue i e l)"
  by (simp add: enqueue_def P_upd_sub)

lemma P_close_overflowed: "P l \<Longrightarrow> P (close_overflowed i l)"
  by (simp add: close_overflowed_def Let_def P_close_sub P_overflows)

lemma P_take_next: "P l \<Longrightarrow> P (fst (take_next i l))"
  by (simp add: take_next_def Let_def P_subs P_delivered)

lemma P_exec: "log_exec env n f l = Some l' \<Longrightarrow> P l \<Longrightarrow> P l'"
proof (induction n arbitrary: f l l')
  case 0
  then show ?case by simp
next
  case (Suc n)
  note kept = P_record P_upd_sub P_close_sub P_enqueue P_close_overflowed P_take_next
    P_announcing P_announced
  have goal: "P x" if "log_exec env n g y = Some x" "P y" for g x y
    using Suc.IH that by blast
  show ?case
  proof (cases f)
    case (RunCalls cs)
    show ?thesis
    proof (cases cs)
      case Nil
      with RunCalls Suc.prems show ?thesis by (simp add: exec_iffs)
    next
      case (Cons c rest)
      with RunCalls Suc.prems show ?thesis
        by (cases c) (auto simp: exec_iffs intro: goal kept)
    qed
  next
    case (Append inp)
    with Suc.prems obtain l1 where l1: "log_exec env n (AppendOne inp) l = Some l1"
      and l': "if must_announce l1
        then (\<exists>l2. log_exec env n (AppendOne degradation_notice)
                     (l1\<lparr>announcing := True, announced := True\<rparr>) = Some l2 \<and>
                   l' = l2\<lparr>announcing := False\<rparr>)
        else l' = l1"
      unfolding Append exec_Append by blast
    have "P l1" using l1 Suc.prems(2) by (rule goal)
    then have "P (l1\<lparr>announcing := True, announced := True\<rparr>)"
      by (intro P_announced P_announcing)
    with l' \<open>P l1\<close> show ?thesis
      by (auto split: if_splits intro!: P_announcing intro: goal)
  qed (use Suc.prems in \<open>auto simp: exec_iffs split: if_splits intro: goal kept\<close>,
       (meson goal kept)+)
qed

end

section \<open>The ring refines the history\<close>

text \<open>
  The invariant: the history is numbered without gaps from \<open>base + 1\<close> to the head, the ring is
  as long as it can be, and the slot of each of the newest numbers holds that envelope.
\<close>

definition log_inv :: "'st log \<Rightarrow> bool" where
  "log_inv l \<longleftrightarrow>
     0 < max_events l \<and> 0 \<le> base l \<and>
     head l = base l + int (length (history l)) \<and>
     (\<forall>k < length (history l). env_seq (history l ! k) = base l + int k + 1) \<and>
     length (ring l) = min (max_events l) (length (history l)) \<and>
     (\<forall>k < length (history l). length (history l) \<le> k + max_events l \<longrightarrow>
        ring l ! (k mod max_events l) = history l ! k)"

lemma log_inv_create: "create_log w d m q st0 st = Inr l \<Longrightarrow> log_inv l"
proof -
  have "0 < x" if "positive_int v = Inr x" for v x
    using that by (cases v) (auto split: if_splits)
  then show "create_log w d m q st0 st = Inr l \<Longrightarrow> log_inv l"
    by (auto simp: create_log_def log_inv_def split: sum.splits)
qed

lemma store_put_sel [simp]:
  "max_events (store_put so e l) = max_events l" "base (store_put so e l) = base l"
  "head (store_put so e l) = head l" "history (store_put so e l) = history l"
  "ring (store_put so e l) = ring l" "subs (store_put so e l) = subs l"
  "delivered (store_put so e l) = delivered l" "log_worker (store_put so e l) = log_worker l"
  "announced (store_put so e l) = announced l" "announcing (store_put so e l) = announcing l"
  "batching (store_put so e l) = batching l"
  by (simp_all add: store_put_def case_prod_unfold Let_def split: option.split)

lemma ring_put_sel [simp]:
  "max_events (ring_put e l) = max_events l" "base (ring_put e l) = base l"
  "head (ring_put e l) = head l" "history (ring_put e l) = history l"
  "subs (ring_put e l) = subs l" "delivered (ring_put e l) = delivered l"
  "log_worker (ring_put e l) = log_worker l" "store (ring_put e l) = store l"
  "degraded (ring_put e l) = degraded l" "announced (ring_put e l) = announced l"
  "announcing (ring_put e l) = announcing l" "batching (ring_put e l) = batching l"
  by (simp_all add: ring_put_def)

lemma env_seq_make [simp]: "env_seq (make_envelope t l inp) = head l"
  by (simp add: make_envelope_def)

lemma record_event_sel [simp]:
  "head (fst (record_event env inp l)) = head l + 1"
  "history (fst (record_event env inp l)) = history l @ [snd (record_event env inp l)]"
  "subs (fst (record_event env inp l)) = subs l"
  "delivered (fst (record_event env inp l)) = delivered l"
  "base (fst (record_event env inp l)) = base l"
  "max_events (fst (record_event env inp l)) = max_events l"
  "log_worker (fst (record_event env inp l)) = log_worker l"
  "announced (fst (record_event env inp l)) = announced l"
  "announcing (fst (record_event env inp l)) = announcing l"
  "batching (fst (record_event env inp l)) = batching l"
  "env_seq (snd (record_event env inp l)) = head l + 1"
  by (simp_all add: record_event_def Let_def)

lemma ring_put_ring:
  "ring (ring_put e l) =
     (if length (ring l) < max_events l then ring l @ [e] else (ring l)[slot l (env_seq e) := e])"
  by (simp add: ring_put_def)

lemma ring_record_event:
  "ring (fst (record_event env inp l)) =
     (if length (ring l) < max_events l then ring l @ [snd (record_event env inp l)]
      else (ring l)[nat ((head l - base l) mod int (max_events l)) := snd (record_event env inp l)])"
  by (simp add: record_event_def Let_def ring_put_ring slot_def)

text \<open>Two positions of the same window never share a slot.\<close>

lemma mod_window_inj:
  fixes j k m :: nat
  assumes "j < k" "k < j + m"
  shows "j mod m \<noteq> k mod m"
proof
  assume "j mod m = k mod m"
  then have "m dvd k - j" using assms(1) by (simp add: mod_eq_dvd_iff_nat [THEN iffD1])
  with assms show False by (auto dest: dvd_imp_le)
qed

lemma log_inv_record: "log_inv l \<Longrightarrow> log_inv (fst (record_event env inp l))"
proof -
  assume inv: "log_inv l"
  let ?N = "length (history l)" and ?m = "max_events l" and ?e = "snd (record_event env inp l)"
  let ?l' = "fst (record_event env inp l)"
  have m: "0 < ?m" and N: "head l - base l = int ?N"
    and len: "length (ring l) = min ?m ?N"
    using inv by (auto simp: log_inv_def)
  have at: "nat ((head l - base l) mod int ?m) = ?N mod ?m"
    by (simp add: N flip: of_nat_mod)
  have win: "ring ?l' ! (k mod ?m) = (history l @ [?e]) ! k"
    if k: "k < Suc ?N" "Suc ?N \<le> k + ?m" for k
  proof (cases "k = ?N")
    case True
    then show ?thesis
      using len m by (auto simp: ring_record_event at nth_append)
  next
    case False
    with k have k': "k < ?N" "?N \<le> k + ?m" by auto
    then have old: "ring l ! (k mod ?m) = history l ! k" using inv by (simp add: log_inv_def)
    have ne: "k mod ?m \<noteq> ?N mod ?m" using k k' by (intro mod_window_inj) auto
    show ?thesis
    proof (cases "?N < ?m")
      case True
      with k' old len show ?thesis by (simp add: ring_record_event nth_append)
    next
      case False
      with k' old len ne show ?thesis by (simp add: ring_record_event at nth_append)
    qed
  qed
  show "log_inv ?l'"
    using inv win
    by (auto simp: log_inv_def ring_record_event nth_append less_Suc_eq)
qed

interpretation ring_steps: log_primitives env log_inv for env :: "'st log_env"
  by unfold_locales (auto intro: log_inv_record, auto simp: log_inv_def)

section \<open>Reading\<close>

text \<open>The position in the history of the envelope numbered \<open>s\<close>.\<close>

definition pos :: "'st log \<Rightarrow> seq \<Rightarrow> nat" where
  "pos l s = nat (s - base l - 1)"

definition limited :: "nat option \<Rightarrow> 'a list \<Rightarrow> 'a list" where
  "limited want xs = (case want of None \<Rightarrow> xs | Some w \<Rightarrow> take w xs)"

lemma slot_in_window:
  assumes "log_inv l" "head l - int (length (ring l)) < s" "s \<le> head l"
  shows "slot l s < length (ring l)" and "ring l ! slot l s = history l ! pos l s"
    and "pos l s < length (history l)"
proof -
  let ?N = "length (history l)" and ?m = "max_events l" and ?k = "pos l s"
  have m: "0 < ?m" and h: "head l = base l + int ?N" and len: "length (ring l) = min ?m ?N"
    using assms(1) by (auto simp: log_inv_def)
  have k: "int ?k = s - base l - 1" using assms h len by (auto simp: pos_def)
  then have bounds: "?k < ?N" "?N \<le> ?k + ?m" using assms h len by auto
  then show "?k < ?N" by simp
  have slot: "slot l s = ?k mod ?m" by (simp add: slot_def flip: k of_nat_mod)
  show "slot l s < length (ring l)"
    using bounds m by (auto simp: slot len min_def intro: le_less_trans [OF mod_less_eq_dividend])
  show "ring l ! slot l s = history l ! ?k"
    using assms(1) bounds by (simp add: slot log_inv_def)
qed

lemma ring_scan_window:
  assumes "log_inv l" "head l - int (length (ring l)) < s"
  shows "ring_scan l want s out =
           (case want of None \<Rightarrow> out @ drop (pos l s) (history l)
            | Some w \<Rightarrow> out @ take (w - length out) (drop (pos l s) (history l)))"
  using assms
proof (induction l want s out rule: ring_scan.induct)
  case (1 l want s out)
  have h: "head l = base l + int (length (history l))" and len: "length (ring l) \<le> length (history l)"
    using "1.prems"(1) by (auto simp: log_inv_def)
  show ?case
  proof (cases "s \<le> head l \<and> (case want of None \<Rightarrow> True | Some w \<Rightarrow> length out < w)")
    case True
    note win = slot_in_window [OF "1.prems"(1,2) True [THEN conjunct1]]
    have step: "drop (pos l s) (history l) =
        history l ! pos l s # drop (pos l (s + 1)) (history l)"
    proof -
      have "pos l (s + 1) = Suc (pos l s)"
        using "1.prems" h len by (auto simp: pos_def nat_eq_iff)
      then show ?thesis using win(3) by (simp add: Cons_nth_drop_Suc)
    qed
    have IH: "ring_scan l want (s + 1) (out @ [history l ! pos l s]) =
        (case want of None \<Rightarrow> (out @ [history l ! pos l s]) @ drop (pos l (s + 1)) (history l)
         | Some w \<Rightarrow> (out @ [history l ! pos l s]) @
             take (w - length (out @ [history l ! pos l s])) (drop (pos l (s + 1)) (history l)))"
      using "1.IH" [OF True] "1.prems" win(1,2) by (simp split: option.splits)
    show ?thesis
    proof (cases want)
      case None
      then show ?thesis
        using True win(1,2) IH step by (simp add: ring_scan.simps [of l None s out])
    next
      case (Some w)
      with True have "w - length out = Suc (w - Suc (length out))" by (simp add: Suc_diff_Suc)
      with Some show ?thesis
        using True win(1,2) IH step by (simp add: ring_scan.simps [of l "Some w" s out])
    qed
  next
    case False
    then have "drop (pos l s) (history l) = [] \<or> (\<exists>w. want = Some w \<and> w \<le> length out)"
      using h by (auto simp: pos_def split: option.splits)
    with False show ?thesis
      by (auto simp: ring_scan.simps [of l want s out] split: option.splits)
  qed
qed

text \<open>
  The suffix a cursor asks for: everything numbered above it that the ring still holds.
\<close>

definition retained_after :: "'st log \<Rightarrow> seq \<Rightarrow> envelope list" where
  "retained_after l c =
     filter (\<lambda>e. c < env_seq e) (drop (length (history l) - max_events l) (history l))"

lemma filter_seq_drop:
  assumes "\<forall>k < length xs. env_seq (xs ! k) = b + int k + 1"
  shows "filter (\<lambda>e. c < env_seq e) xs = drop (nat (c - b)) xs"
  using assms
proof (induction xs arbitrary: b)
  case Nil
  then show ?case by simp
next
  case (Cons x xs)
  have x: "env_seq x = b + 1" using Cons.prems by force
  have "\<forall>k < length xs. env_seq (xs ! k) = (b + 1) + int k + 1"
    using Cons.prems by force
  note IH = Cons.IH [OF this]
  show ?case
  proof (cases "c < b + 1")
    case True
    then have "nat (c - b) = 0" "nat (c - (b + 1)) = 0" by auto
    then show ?thesis using x IH True by simp
  next
    case False
    then have "nat (c - b) = Suc (nat (c - (b + 1)))" by simp
    with x IH False show ?thesis by simp
  qed
qed

lemma retained_after_drop:
  assumes "log_inv l"
  shows "retained_after l c =
    drop (max (nat (c - base l)) (length (history l) - max_events l)) (history l)"
proof -
  let ?d = "length (history l) - max_events l"
  have "\<forall>k < length (drop ?d (history l)).
      env_seq (drop ?d (history l) ! k) = (base l + int ?d) + int k + 1"
    using assms by (auto simp: log_inv_def)
  then have "retained_after l c = drop (nat (c - (base l + int ?d)) + ?d) (history l)"
    unfolding retained_after_def by (simp only: filter_seq_drop drop_drop)
  also have "nat (c - (base l + int ?d)) + ?d = max (nat (c - base l)) ?d"
    by linarith
  finally show ?thesis .
qed

lemma cursor_nonneg [simp]: "0 \<le> cursor since"
  by (cases since) auto

lemma read_memory:
  assumes "log_inv l" "store l = None"
  shows "read_log so l since limit =
    limited (map_option (\<lambda>n. nat (max 0 n)) limit) (retained_after l (cursor since))"
proof -
  let ?c = "cursor since" and ?N = "length (history l)" and ?m = "max_events l"
  let ?want = "map_option (\<lambda>n. nat (max 0 n)) limit"
  have b: "0 \<le> base l" and h: "head l = base l + int ?N" and len: "length (ring l) = min ?m ?N"
    and m: "0 < ?m"
    using assms(1) by (auto simp: log_inv_def)
  have fl: "max 1 (ring_floor l) = head l - int (length (ring l)) + 1"
    using b h len m by (cases "ring l = []") (auto simp: ring_floor_def)
  let ?from = "max (?c + 1) (head l - int (length (ring l)) + 1)"
  have start: "max (?c + 1) (log_tail so l) = ?from"
    by (simp add: log_tail_def assms(2) fl)
  have "pos l ?from = max (nat (?c - base l)) (?N - ?m)"
    using h len by (auto simp: pos_def max_def min_def)
  then have suffix: "drop (pos l ?from) (history l) = retained_after l ?c"
    by (simp add: retained_after_drop [OF assms(1)])
  show ?thesis
  proof (cases "?from > head l")
    case True
    then have "retained_after l ?c = []" unfolding suffix [symmetric] using h by (simp add: pos_def)
    with True show ?thesis
      by (simp add: read_log_def start limited_def split: option.split)
  next
    case False
    have scan: "ring_scan l ?want ?from [] = limited ?want (retained_after l ?c)"
      by (simp add: ring_scan_window [OF assms(1)] suffix limited_def split: option.split)
    have "read_log so l since limit =
        (if ?want = Some 0 then [] else ring_scan l ?want (max ?from (max 1 (ring_floor l))) [])"
      unfolding read_log_def Let_def start using False assms(2) by auto
    also have "max ?from (max 1 (ring_floor l)) = ?from" by (simp only: fl max.idem)
    finally show ?thesis by (auto simp: scan limited_def split: option.split)
  qed
qed

end
