(* ===== verification/EventLogOrder.thy ===== *)
theory EventLogOrder
  imports EventLogRing
begin

text \<open>
  What subscribers see. A subscriber's stream is what its listener has been handed so far followed
  by what is queued for it. As long as the overflow callbacks do not append (closing subscriptions
  is fine), every open subscriber's stream grows by exactly the appended envelopes, in order, and
  nothing is left queued once the outermost append is over, whatever the listeners append from
  inside. An overflow callback that does append breaks this; the last section has the run.
\<close>

section \<open>Streams\<close>

definition delivered_to :: "'st log \<Rightarrow> nat \<Rightarrow> envelope list" where
  "delivered_to l i = map snd (filter (\<lambda>p. fst p = i) (delivered l))"

definition open_sub :: "'st log \<Rightarrow> nat \<Rightarrow> bool" where
  "open_sub l i \<longleftrightarrow> i < length (subs l) \<and> \<not> sub_closed (subs l ! i)"

definition stream :: "'st log \<Rightarrow> nat \<Rightarrow> envelope list" where
  "stream l i = delivered_to l i @ backlog (subs l ! i)"

text \<open>The set membership is the open flag, and the cursor stays inside the queue.\<close>

definition sub_ok :: "sub \<Rightarrow> bool" where
  "sub_ok u \<longleftrightarrow> (sub_in_set u \<longleftrightarrow> \<not> sub_closed u) \<and> next_idx u \<le> length (pending u)"

definition subs_ok :: "'st log \<Rightarrow> bool" where
  "subs_ok l \<longleftrightarrow> (\<forall>u \<in> set (subs l). sub_ok u \<and> attached_at u \<le> head l)"

definition shape_ok :: "'st log \<Rightarrow> bool" where
  "shape_ok l \<longleftrightarrow> (\<forall>u \<in> set (subs l). sub_ok u)"

text \<open>
  From \<open>l\<close> to \<open>l'\<close> the envelopes \<open>new\<close> were appended, and every stream still open grew by them.
\<close>

definition grows :: "'st log \<Rightarrow> 'st log \<Rightarrow> envelope list \<Rightarrow> bool" where
  "grows l l' new \<longleftrightarrow>
     length (subs l') = length (subs l) \<and> history l' = history l @ new \<and>
     (\<forall>i. open_sub l' i \<longrightarrow> open_sub l i \<and> stream l' i = stream l i @ new)"

lemma grows_refl: "grows l l []"
  by (simp add: grows_def)

lemma grows_trans: "grows l m xs \<Longrightarrow> grows m l' ys \<Longrightarrow> grows l l' (xs @ ys)"
  by (auto simp: grows_def)

lemma subs_ok_shape: "subs_ok l \<Longrightarrow> shape_ok l"
  by (simp add: subs_ok_def shape_ok_def)

section \<open>Primitive updates\<close>

lemma upd_sub_sel [simp]:
  "history (upd_sub i f l) = history l" "head (upd_sub i f l) = head l"
  "delivered (upd_sub i f l) = delivered l" "length (subs (upd_sub i f l)) = length (subs l)"
  by (simp_all add: upd_sub_def)

lemma subs_upd_sub:
  "subs (upd_sub i f l) ! k = (if k = i \<and> i < length (subs l) then f (subs l ! i) else subs l ! k)"
  by (simp add: upd_sub_def)

lemma close_sub_sel [simp]:
  "history (close_sub i l) = history l" "head (close_sub i l) = head l"
  "delivered (close_sub i l) = delivered l" "length (subs (close_sub i l)) = length (subs l)"
  by (simp_all add: close_sub_def)

text \<open>Updating one subscriber in place keeps what holds of every subscriber.\<close>

lemma set_subs_upd_sub:
  assumes "\<And>u. u \<in> set (subs l) \<Longrightarrow> Q u" "\<And>u. Q u \<Longrightarrow> Q (f u)"
    and "u \<in> set (subs (upd_sub i f l))"
  shows "Q u"
proof (cases "i < length (subs l)")
  case True
  with assms(3) have "u \<in> insert (f (subs l ! i)) (set (subs l))"
    using subsetD [OF set_update_subset_insert, of u "subs l" i "f (subs l ! i)"]
    by (simp add: upd_sub_def)
  then show ?thesis
  proof
    assume "u = f (subs l ! i)"
    moreover have "Q (f (subs l ! i))" by (rule assms(2) [OF assms(1) [OF nth_mem [OF True]]])
    ultimately show ?thesis by (simp only:)
  qed (rule assms(1))
next
  case False
  with assms(3) have "u \<in> set (subs l)" by (simp add: upd_sub_def)
  then show ?thesis by (rule assms(1))
qed

lemma subs_ok_upd_sub:
  assumes "subs_ok l" "\<And>u. sub_ok u \<Longrightarrow> sub_ok (f u)" "\<And>u. attached_at (f u) = attached_at u"
  shows "subs_ok (upd_sub i f l)"
  unfolding subs_ok_def upd_sub_sel
proof
  fix u
  assume "u \<in> set (subs (upd_sub i f l))"
  then show "sub_ok u \<and> attached_at u \<le> head l"
    by (rule set_subs_upd_sub [rotated 2]) (use assms in \<open>simp_all add: subs_ok_def\<close>)
qed

lemma shape_ok_upd_sub:
  assumes "shape_ok l" "\<And>u. sub_ok u \<Longrightarrow> sub_ok (f u)"
  shows "shape_ok (upd_sub i f l)"
  unfolding shape_ok_def
proof
  fix u
  assume "u \<in> set (subs (upd_sub i f l))"
  then show "sub_ok u"
    by (rule set_subs_upd_sub [rotated 2]) (use assms in \<open>simp_all add: shape_ok_def\<close>)
qed

lemma subs_ok_close: "subs_ok l \<Longrightarrow> subs_ok (close_sub i l)"
  unfolding close_sub_def by (rule subs_ok_upd_sub) (auto simp: sub_ok_def)

lemma shape_ok_close: "shape_ok l \<Longrightarrow> shape_ok (close_sub i l)"
  unfolding close_sub_def by (rule shape_ok_upd_sub) (auto simp: sub_ok_def)

lemma open_close_sub: "open_sub (close_sub i l) k \<longleftrightarrow> k \<noteq> i \<and> open_sub l k"
  by (auto simp: open_sub_def close_sub_def subs_upd_sub)

lemma nth_close_sub: "k \<noteq> i \<Longrightarrow> subs (close_sub i l) ! k = subs l ! k"
  by (simp add: close_sub_def subs_upd_sub)

lemma stream_close_sub: "k \<noteq> i \<Longrightarrow> stream (close_sub i l) k = stream l k"
  by (simp add: stream_def delivered_to_def nth_close_sub)

lemma grows_close_sub: "grows l (close_sub i l) []"
  by (auto simp: grows_def open_close_sub stream_close_sub)

lemma backlog_busy [simp]: "backlog (u\<lparr>busy := b\<rparr>) = backlog u"
  by (simp add: backlog_def)

lemma grows_set_busy: "grows l (set_busy b i l) []"
  by (auto simp: grows_def open_sub_def stream_def delivered_to_def subs_upd_sub)

lemma subs_ok_set_busy: "subs_ok l \<Longrightarrow> subs_ok (set_busy b i l)"
  by (rule subs_ok_upd_sub) (auto simp: sub_ok_def)

lemma grows_flags:
  "grows l (l\<lparr>announcing := a\<rparr>) []" "grows l (l\<lparr>announcing := a, announced := b\<rparr>) []"
  by (auto simp: grows_def open_sub_def stream_def delivered_to_def)

text \<open>Handing over the next envelope moves it from the queue to the delivered ones.\<close>

lemma take_next_stream:
  assumes "i < length (subs l)" "next_idx (subs l ! i) < length (pending (subs l ! i))"
  shows "stream (fst (take_next i l)) k = stream l k"
    and "grows l (fst (take_next i l)) []"
proof -
  let ?u = "subs l ! i"
  have hd: "backlog ?u = pending ?u ! next_idx ?u # drop (Suc (next_idx ?u)) (pending ?u)"
    using assms(2) by (simp add: backlog_def Cons_nth_drop_Suc)
  show st: "stream (fst (take_next i l)) k = stream l k" for k
    using assms hd
    by (cases "k = i") (auto simp: take_next_def Let_def stream_def delivered_to_def backlog_def)
  have "open_sub (fst (take_next i l)) k \<longleftrightarrow> open_sub l k" for k
    using assms(1)
    by (cases "k = i") (auto simp: take_next_def Let_def open_sub_def)
  with st show "grows l (fst (take_next i l)) []"
    by (auto simp: grows_def) (auto simp: take_next_def Let_def)
qed

lemma subs_ok_take_next:
  assumes "subs_ok l" "i < length (subs l)" "next_idx (subs l ! i) < length (pending (subs l ! i))"
  shows "subs_ok (fst (take_next i l))"
proof -
  have "sub_ok (subs l ! i)" "attached_at (subs l ! i) \<le> head l"
    using assms(1,2) by (auto simp: subs_ok_def)
  with assms show ?thesis
    by (auto simp: subs_ok_def take_next_def Let_def sub_ok_def
        dest!: subsetD [OF set_update_subset_insert])
qed

section \<open>The enqueue phase\<close>

definition only_closes :: "log_call list \<Rightarrow> bool" where
  "only_closes cs \<longleftrightarrow> (\<forall>c \<in> set cs. \<exists>j. c = CallClose j)"

text \<open>The overflow callbacks of an environment append nothing.\<close>

definition overflow_closes :: "'st log_env \<Rightarrow> bool" where
  "overflow_closes env \<longleftrightarrow> (\<forall>l i q. only_closes (on_overflow env l i q))"

text \<open>Some subscribers were closed, and that is all.\<close>

definition only_closed :: "'st log \<Rightarrow> 'st log \<Rightarrow> bool" where
  "only_closed l l' \<longleftrightarrow>
     length (subs l') = length (subs l) \<and> history l' = history l \<and> head l' = head l \<and>
     delivered l' = delivered l \<and>
     (\<forall>k. open_sub l' k \<longrightarrow> open_sub l k \<and> subs l' ! k = subs l ! k) \<and>
     map attached_at (subs l') = map attached_at (subs l)"

lemma map_attached_upd_sub:
  "(\<And>u. attached_at (f u) = attached_at u) \<Longrightarrow>
   map attached_at (subs (upd_sub i f l)) = map attached_at (subs l)"
  by (auto simp: upd_sub_def map_update list_update_same_conv)

lemma only_closed_close: "only_closed l (close_sub i l)"
  by (auto simp: only_closed_def open_close_sub nth_close_sub)
     (auto simp: close_sub_def intro!: map_attached_upd_sub)

lemma only_closed_trans: "only_closed l m \<Longrightarrow> only_closed m l' \<Longrightarrow> only_closed l l'"
  by (auto simp: only_closed_def)

lemma run_closes:
  "log_exec env n (RunCalls cs) l = Some l' \<Longrightarrow> only_closes cs \<Longrightarrow>
   only_closed l l' \<and> (shape_ok l \<longrightarrow> shape_ok l')"
proof (induction n arbitrary: cs l)
  case 0
  then show ?case by simp
next
  case (Suc n)
  show ?case
  proof (cases cs)
    case Nil
    with Suc.prems show ?thesis by (simp add: exec_iffs only_closed_def)
  next
    case (Cons c rest)
    with Suc.prems obtain j where c: "c = CallClose j" by (auto simp: only_closes_def)
    with Cons Suc.prems have "only_closed (close_sub j l) l' \<and>
        (shape_ok (close_sub j l) \<longrightarrow> shape_ok l')"
      by (intro Suc.IH [of rest]) (auto simp: exec_iffs only_closes_def)
    then show ?thesis
      using only_closed_close only_closed_trans shape_ok_close by blast
  qed
qed

text \<open>
  After the enqueue phase from subscriber \<open>i\<close> on, the streams from \<open>i\<close> on have the new envelope
  at their end, and the earlier ones are as they were.
\<close>

definition enqueued :: "nat \<Rightarrow> envelope \<Rightarrow> 'st log \<Rightarrow> 'st log \<Rightarrow> bool" where
  "enqueued i e l l' \<longleftrightarrow>
     length (subs l') = length (subs l) \<and> history l' = history l \<and> head l' = head l \<and>
     map attached_at (subs l') = map attached_at (subs l) \<and>
     (\<forall>k. open_sub l' k \<longrightarrow>
        open_sub l k \<and> stream l' k = stream l k @ (if i \<le> k then [e] else []))"

lemma enqueued_here:
  assumes "i < length (subs l)" "sub_ok (subs l ! i)" "enqueued (Suc i) e (enqueue i e l) l'"
  shows "enqueued i e l l'"
proof -
  have st: "stream (enqueue i e l) k = stream l k @ (if k = i then [e] else [])" for k
    using assms(1,2)
    by (auto simp: enqueue_def stream_def delivered_to_def subs_upd_sub backlog_def sub_ok_def)
  have op: "open_sub (enqueue i e l) k = open_sub l k" for k
    by (auto simp: enqueue_def open_sub_def subs_upd_sub)
  have "map attached_at (subs (enqueue i e l)) = map attached_at (subs l)"
    by (simp add: enqueue_def map_attached_upd_sub)
  then show ?thesis
    using assms(3) by (auto simp: enqueued_def st op) (auto simp: enqueue_def)
qed

lemma enqueued_closed:
  assumes "only_closed l m" "enqueued (Suc i) e m l'" "\<not> open_sub m i"
  shows "enqueued i e l l'"
proof -
  have st: "open_sub m k \<Longrightarrow> stream m k = stream l k" for k
    using assms(1) by (auto simp: only_closed_def stream_def delivered_to_def)
  have ne: "open_sub l' k \<Longrightarrow> k \<noteq> i" for k
    using assms(2,3) by (auto simp: enqueued_def)
  have "open_sub l' k \<Longrightarrow>
      open_sub l k \<and> stream l' k = stream l k @ (if i \<le> k then [e] else [])" for k
    using assms(1,2) st [of k] ne [of k]
    by (auto simp: enqueued_def only_closed_def split: if_splits)
  with assms(1,2) show ?thesis by (simp add: enqueued_def only_closed_def)
qed

lemma enqueued_skip:
  "\<not> open_sub l i \<Longrightarrow> enqueued (Suc i) e l l' \<Longrightarrow> enqueued i e l l'"
  by (rule enqueued_closed [of l l]) (simp_all add: only_closed_def)

definition above_attached :: "envelope \<Rightarrow> 'st log \<Rightarrow> bool" where
  "above_attached e l \<longleftrightarrow> (\<forall>a \<in> set (map attached_at (subs l)). a < env_seq e)"

lemma above_attached_same:
  "map attached_at (subs m) = map attached_at (subs l) \<Longrightarrow> above_attached e m = above_attached e l"
  by (simp only: above_attached_def)

lemma skipped_iff:
  assumes "shape_ok l" "above_attached e l" "i < length (subs l)"
  shows "skipped l i e \<longleftrightarrow> \<not> open_sub l i"
proof -
  have "sub_ok (subs l ! i)" "attached_at (subs l ! i) < env_seq e"
    using assms by (auto simp: shape_ok_def above_attached_def)
  with assms(3) show ?thesis by (auto simp: skipped_def Let_def open_sub_def sub_ok_def)
qed

lemma close_overflowed_closed:
  "only_closed l (close_overflowed i l)" "shape_ok l \<Longrightarrow> shape_ok (close_overflowed i l)"
  "\<not> open_sub (close_overflowed i l) i"
  using only_closed_close [of l i] open_close_sub [of i l i]
  by (auto simp: close_overflowed_def Let_def only_closed_def open_sub_def shape_ok_def
      dest: shape_ok_close [unfolded shape_ok_def])

lemma shape_ok_enqueue: "shape_ok l \<Longrightarrow> shape_ok (enqueue i e l)"
  unfolding enqueue_def by (rule shape_ok_upd_sub) (auto simp: sub_ok_def)

lemma enqueue_sel [simp]:
  "history (enqueue i e l) = history l" "head (enqueue i e l) = head l"
  "length (subs (enqueue i e l)) = length (subs l)"
  "map attached_at (subs (enqueue i e l)) = map attached_at (subs l)"
  by (simp_all add: enqueue_def map_attached_upd_sub)

lemma fan_enqueue_enqueued:
  assumes "overflow_closes env"
  shows "log_exec env n (FanEnqueue i e) l = Some l' \<Longrightarrow> shape_ok l \<Longrightarrow> above_attached e l \<Longrightarrow>
           enqueued i e l l' \<and> shape_ok l'"
proof (induction n arbitrary: i l)
  case 0
  then show ?case by simp
next
  case (Suc n)
  show ?case
  proof (cases "i < length (subs l)")
    case False
    with Suc.prems show ?thesis by (auto simp: exec_iffs enqueued_def open_sub_def)
  next
    case i: True
    note sk = skipped_iff [OF Suc.prems(2,3) i]
    show ?thesis
    proof (cases "open_sub l i")
      case False
      with Suc.prems i sk have "log_exec env n (FanEnqueue (Suc i) e) l = Some l'"
        by (simp add: exec_iffs)
      from Suc.IH [OF this Suc.prems(2,3)] False show ?thesis by (blast intro: enqueued_skip)
    next
      case opened: True
      let ?q = "enqueue i e l"
      have ok: "sub_ok (subs l ! i)" using Suc.prems(2) i by (simp add: shape_ok_def)
      have q: "shape_ok ?q" "above_attached e ?q"
        using Suc.prems(2,3) by (simp_all add: shape_ok_enqueue above_attached_def)
      show ?thesis
      proof (cases "overflows_now ?q i")
        case False
        with Suc.prems i sk opened have "log_exec env n (FanEnqueue (Suc i) e) ?q = Some l'"
          by (simp add: exec_iffs)
        from Suc.IH [OF this q] i ok show ?thesis by (blast intro: enqueued_here)
      next
        case True
        let ?c = "close_overflowed i ?q"
        let ?cs = "on_overflow env ?c i (last_delivered (subs ?q ! i))"
        from True Suc.prems(1) i sk opened obtain m where m: "log_exec env n (RunCalls ?cs) ?c = Some m"
          and rest: "log_exec env n (FanEnqueue (Suc i) e) m = Some l'"
          by (auto simp: exec_iffs)
        have "only_closes ?cs" using assms by (simp add: overflow_closes_def)
        from run_closes [OF m this] close_overflowed_closed q(1)
        have cm: "only_closed ?c m" and "shape_ok m" by blast+
        then have qm: "only_closed ?q m"
          using close_overflowed_closed(1) only_closed_trans by blast
        have closed: "\<not> open_sub m i"
          using cm close_overflowed_closed(3) by (auto simp: only_closed_def)
        have "above_attached e m"
          using qm q(2) by (auto simp: only_closed_def above_attached_def)
        from Suc.IH [OF rest \<open>shape_ok m\<close> this]
        have r: "enqueued (Suc i) e m l'" "shape_ok l'" by blast+
        have "enqueued (Suc i) e ?q l'"
          using qm r(1) closed
          by (auto simp: enqueued_def only_closed_def stream_def delivered_to_def
              Suc_le_eq le_less split: if_splits)
        then show ?thesis using i ok r(2) by (blast intro: enqueued_here)
      qed
    qed
  qed
qed

section \<open>The order theorem\<close>

lemma subs_ok_record: "subs_ok l \<Longrightarrow> subs_ok (fst (record_event env inp l))"
  by (fastforce simp: subs_ok_def)

lemma above_attached_record:
  "subs_ok l \<Longrightarrow> above_attached (snd (record_event env inp l)) (fst (record_event env inp l))"
  by (fastforce simp: subs_ok_def above_attached_def)

text \<open>Recording the event and queueing it for everybody: the streams grow by it.\<close>

lemma record_enqueue_grows:
  assumes "overflow_closes env" "subs_ok l"
    and "log_exec env n (FanEnqueue 0 (snd (record_event env inp l)))
           (fst (record_event env inp l)) = Some m"
  shows "grows l m [snd (record_event env inp l)] \<and> subs_ok m"
proof -
  let ?r = "fst (record_event env inp l)" and ?e = "snd (record_event env inp l)"
  have r: "shape_ok ?r" "above_attached ?e ?r"
    using assms(2) by (simp_all add: subs_ok_shape subs_ok_record above_attached_record)
  from fan_enqueue_enqueued [OF assms(1,3) r]
  have enq: "enqueued 0 ?e ?r m" and "shape_ok m" by blast+
  have "stream ?r k = stream l k" "open_sub ?r k = open_sub l k" for k
    by (simp_all add: stream_def delivered_to_def open_sub_def)
  with enq have "grows l m [?e]" by (auto simp: grows_def enqueued_def)
  moreover have "subs_ok m"
  proof -
    have "set (map attached_at (subs m)) = set (map attached_at (subs l))"
      using enq by (simp add: enqueued_def)
    moreover have "head m = head l + 1" using enq by (simp add: enqueued_def)
    ultimately show ?thesis
      using assms(2) \<open>shape_ok m\<close> by (force simp: subs_ok_def shape_ok_def)
  qed
  ultimately show ?thesis by simp
qed

text \<open>The function to run is one the code can reach: it names a subscriber there is.\<close>

fun in_range :: "log_fun \<Rightarrow> 'st log \<Rightarrow> bool" where
  "in_range (Drain i) l = (i < length (subs l))"
| "in_range (DrainLoop i) l = (i < length (subs l))"
| "in_range (FanEnqueue i e) l = False"
| "in_range _ _ = True"

text \<open>The envelopes a function appends for certain, before anything a callback appends.\<close>

fun first_new :: "'st log_env \<Rightarrow> log_fun \<Rightarrow> 'st log \<Rightarrow> envelope list" where
  "first_new env (AppendOne inp) l = [snd (record_event env inp l)]"
| "first_new env (Append inp) l = [snd (record_event env inp l)]"
| "first_new env _ l = []"

definition advances :: "'st log_env \<Rightarrow> log_fun \<Rightarrow> 'st log \<Rightarrow> 'st log \<Rightarrow> bool" where
  "advances env f l l' \<longleftrightarrow>
     subs_ok l' \<and> (\<exists>new. grows l l' (first_new env f l @ new))"

lemma advances_then:
  assumes "grows l m xs" "advances env f m l'"
  shows "\<exists>new. grows l l' (xs @ new)"
  using assms grows_trans by (force simp: advances_def)

lemma exec_advances:
  assumes "overflow_closes env"
  shows "log_exec env n f l = Some l' \<Longrightarrow> in_range f l \<Longrightarrow> subs_ok l \<Longrightarrow> advances env f l l'"
proof (induction n arbitrary: f l l')
  case 0
  then show ?case by simp
next
  case (Suc n)
  have len: "length (subs m) = length (subs l)" if "advances env f l m" for f l m
    using that by (auto simp: advances_def grows_def)
  have chain: "advances env h l l'"
    if "grows l m (first_new env h l @ xs)" "advances env g m l'" for h g l m l' xs
  proof -
    from advances_then [OF that] obtain new where "grows l l' ((first_new env h l @ xs) @ new)"
      by blast
    then have "grows l l' (first_new env h l @ (xs @ new))" by simp
    with that(2) show ?thesis unfolding advances_def by blast
  qed
  have plain: "grows l m xs \<Longrightarrow> advances env g m l' \<Longrightarrow> first_new env h l = [] \<Longrightarrow>
      advances env h l l'" for h g l m l' xs
    by (rule chain [of l m h xs]) simp_all
  have some: "\<exists>xs. grows l m xs" if "advances env g l m" for g l m
    using that by (auto simp: advances_def)
  have seq: "advances env g l m \<Longrightarrow> advances env k m l' \<Longrightarrow> first_new env h l = [] \<Longrightarrow>
      advances env h l l'" for h g k l m l'
    using some plain by blast
  show ?case
  proof (cases f)
    case (AppendOne inp)
    with Suc.prems(1) obtain m where
      m: "log_exec env n (FanEnqueue 0 (snd (record_event env inp l)))
            (fst (record_event env inp l)) = Some m" "log_exec env n (FanDrain 0) m = Some l'"
      unfolding AppendOne exec_AppendOne by blast
    from record_enqueue_grows [OF assms Suc.prems(3) m(1)]
    have "grows l m (first_new env f l @ [])" "subs_ok m" by (simp_all add: AppendOne)
    then show ?thesis using Suc.IH [OF m(2)] chain [of l m f "[]"] by simp
  next
    case (FanEnqueue i e)
    with Suc.prems show ?thesis by simp
  next
    case (FanDrain i)
    show ?thesis
    proof (cases "i < length (subs l) \<and> sub_in_set (subs l ! i)")
      case True
      with FanDrain Suc.prems(1) obtain m where m: "log_exec env n (Drain i) l = Some m"
        "log_exec env n (FanDrain (Suc i)) m = Some l'" by (auto simp: exec_iffs)
      have a: "advances env (Drain i) l m"
        using Suc.IH [OF m(1)] True Suc.prems(3) by simp
      then have "advances env (FanDrain (Suc i)) m l'"
        using Suc.IH [OF m(2)] by (simp add: advances_def)
      with a show ?thesis by (rule seq) (simp add: FanDrain)
    next
      case False
      with FanDrain Suc.prems have "l' = l \<or> advances env (FanDrain (Suc i)) l l'"
        using Suc.IH [of "FanDrain (Suc i)" l l'] by (auto simp: exec_iffs split: if_splits)
      then show ?thesis
        using Suc.prems(3) grows_refl [of l] by (auto simp: advances_def FanDrain)
    qed
  next
    case (Drain i)
    show ?thesis
    proof (cases "busy (subs l ! i)")
      case True
      with Drain Suc.prems show ?thesis
        using grows_refl [of l] by (auto simp: exec_iffs advances_def)
    next
      case False
      with Drain Suc.prems(1) obtain m where
        m: "log_exec env n (DrainLoop i) (set_busy True i l) = Some m" "l' = set_busy False i m"
        by (auto simp: exec_iffs)
      have a: "advances env (DrainLoop i) (set_busy True i l) m"
        using Suc.IH [OF m(1)] Drain Suc.prems(2,3) by (simp add: subs_ok_set_busy)
      have b: "advances env (RunCalls []) m l'"
        using a grows_set_busy [of m i False]
        by (auto simp: advances_def m(2) intro: subs_ok_set_busy)
      have "advances env f (set_busy True i l) l'"
        using a b by (rule seq) (simp add: Drain)
      then show ?thesis by (rule plain [OF grows_set_busy]) (simp add: Drain)
    qed
  next
    case (DrainLoop i)
    show ?thesis
    proof (cases "sub_closed (subs l ! i) \<or> length (pending (subs l ! i)) \<le> next_idx (subs l ! i)")
      case True
      with DrainLoop Suc.prems show ?thesis
        using grows_refl [of l] by (auto simp: exec_iffs advances_def)
    next
      case False
      let ?t = "fst (take_next i l)"
      let ?cs = "listener env ?t i (snd (take_next i l))"
      from False DrainLoop Suc.prems(1) obtain m where
        m: "log_exec env n (RunCalls ?cs) ?t = Some m" "log_exec env n (DrainLoop i) m = Some l'"
        by (auto simp: exec_iffs)
      have i: "i < length (subs l)" and nx: "next_idx (subs l ! i) < length (pending (subs l ! i))"
        using Suc.prems(2) DrainLoop False by auto
      have t: "grows l ?t []" "subs_ok ?t"
        using take_next_stream(2) [OF i nx] subs_ok_take_next [OF Suc.prems(3) i nx] by blast+
      have a: "advances env (RunCalls ?cs) ?t m" using Suc.IH [OF m(1)] t(2) by simp
      have "length (subs m) = length (subs l)" using len [OF a] t(1) by (simp add: grows_def)
      then have "advances env (DrainLoop i) m l'"
        using Suc.IH [OF m(2)] a i by (simp add: advances_def)
      with a have "advances env f ?t l'" by (rule seq) (simp add: DrainLoop)
      then show ?thesis by (rule plain [OF t(1)]) (simp add: DrainLoop)
    qed
  next
    case (RunCalls cs)
    show ?thesis
    proof (cases cs)
      case Nil
      with RunCalls Suc.prems show ?thesis
        using grows_refl [of l] by (auto simp: exec_iffs advances_def)
    next
      case (Cons c rest)
      show ?thesis
      proof (cases c)
        case (CallAppend inp)
        with Cons RunCalls Suc.prems(1) obtain m where
          m: "log_exec env n (Append inp) l = Some m" "log_exec env n (RunCalls rest) m = Some l'"
          by (auto simp: exec_iffs)
        have a: "advances env (Append inp) l m" using Suc.IH [OF m(1)] Suc.prems(3) by simp
        then have "advances env (RunCalls rest) m l'"
          using Suc.IH [OF m(2)] by (simp add: advances_def)
        with a show ?thesis by (rule seq) (simp add: RunCalls)
      next
        case (CallClose j)
        with Cons RunCalls Suc.prems have "advances env (RunCalls rest) (close_sub j l) l'"
          by (intro Suc.IH) (auto simp: exec_iffs subs_ok_close)
        then show ?thesis by (rule plain [OF grows_close_sub]) (simp add: RunCalls)
      qed
    qed
  next
    case (Append inp)
    from Suc.prems(1) obtain m where m: "log_exec env n (AppendOne inp) l = Some m"
      and l': "if must_announce m
        then (\<exists>m2. log_exec env n (AppendOne degradation_notice)
                     (m\<lparr>announcing := True, announced := True\<rparr>) = Some m2 \<and>
                   l' = m2\<lparr>announcing := False\<rparr>)
        else l' = m"
      unfolding Append exec_Append by blast
    have a: "advances env (AppendOne inp) l m" using Suc.IH [OF m] Suc.prems(3) by simp
    then obtain xs where xs: "grows l m (first_new env f l @ xs)" and ok: "subs_ok m"
      by (auto simp: advances_def Append)
    show ?thesis
    proof (cases "must_announce m")
      case False
      with l' xs ok show ?thesis by (auto simp: advances_def)
    next
      case True
      let ?m1 = "m\<lparr>announcing := True, announced := True\<rparr>"
      from True l' obtain m2 where
        m2: "log_exec env n (AppendOne degradation_notice) ?m1 = Some m2"
          "l' = m2\<lparr>announcing := False\<rparr>" by auto
      have b: "advances env (AppendOne degradation_notice) ?m1 m2"
        using Suc.IH [OF m2(1)] ok by (simp add: subs_ok_def)
      then obtain ys where ys: "grows ?m1 m2 ys" and ok2: "subs_ok m2"
        by (auto simp: advances_def)
      have "grows m l' ys"
        using grows_trans [OF grows_trans [OF grows_flags(2) ys] grows_flags(1)] by (simp add: m2(2))
      then have "grows l l' (first_new env f l @ (xs @ ys))"
        using grows_trans [OF xs] by fastforce
      with ok2 show ?thesis by (auto simp: advances_def m2(2) subs_ok_def)
    qed
  qed
qed

end
