(* ===== verification/EventLogSettle.thy ===== *)
theory EventLogSettle
  imports EventLogOrder
begin

text \<open>
  Nothing stays queued: after the outermost append every open subscriber has been handed
  everything, and the guards are as they were. With \<open>EventLogOrder\<close> this gives the delivery
  theorem: what a subscriber sees is its replay followed by every envelope appended since.
\<close>

section \<open>Settling\<close>

text \<open>
  A subscriber is settled when nothing is queued for it, unless its listener is on the stack (it
  drains when that returns). Every outermost append settles everybody, and no call leaves the
  re-entrancy guard of a subscriber other than it found it.
\<close>

definition settled :: "'st log \<Rightarrow> nat \<Rightarrow> bool" where
  "settled l k \<longleftrightarrow> (open_sub l k \<longrightarrow> busy (subs l ! k) \<or> backlog (subs l ! k) = [])"

definition same_busy :: "'st log \<Rightarrow> 'st log \<Rightarrow> bool" where
  "same_busy l l' \<longleftrightarrow> length (subs l') = length (subs l) \<and>
     (\<forall>k < length (subs l). busy (subs l' ! k) = busy (subs l ! k)) \<and>
     (\<forall>k \<ge> length (subs l). delivered_to l' k = delivered_to l k)"

lemma delivered_to_same [simp]:
  "delivered_to (upd_sub i f l) k = delivered_to l k"
  "delivered_to (close_sub i l) k = delivered_to l k"
  "delivered_to (fst (record_event env inp l)) k = delivered_to l k"
  "delivered_to (l\<lparr>announcing := a, announced := b\<rparr>) k = delivered_to l k"
  "delivered_to (l\<lparr>announcing := a\<rparr>) k = delivered_to l k"
  "delivered_to (l\<lparr>batching := b\<rparr>) k = delivered_to l k"
  "delivered_to (l\<lparr>subs := us\<rparr>) k = delivered_to l k"
  "delivered_to (l\<lparr>overflows := os\<rparr>) k = delivered_to l k"
  by (simp_all add: delivered_to_def)

lemma same_busy_refl: "same_busy l l"
  by (simp add: same_busy_def)

lemma same_busy_trans: "same_busy l m \<Longrightarrow> same_busy m l' \<Longrightarrow> same_busy l l'"
  by (simp add: same_busy_def)

lemma same_busy_upd_sub: "(\<And>u. busy (f u) = busy u) \<Longrightarrow> same_busy l (upd_sub i f l)"
  by (auto simp: same_busy_def subs_upd_sub)

lemma same_busy_close: "same_busy l (close_sub i l)"
  unfolding close_sub_def by (rule same_busy_upd_sub) simp

lemma same_busy_enqueue: "same_busy l (enqueue i e l)"
  unfolding enqueue_def by (rule same_busy_upd_sub) simp

lemma same_busy_close_overflowed: "same_busy l (close_overflowed i l)"
  using same_busy_close [of l i] by (simp add: close_overflowed_def Let_def same_busy_def)

lemma same_busy_take: "i < length (subs l) \<Longrightarrow> same_busy l (fst (take_next i l))"
  by (auto simp: same_busy_def take_next_def Let_def nth_list_update delivered_to_def)

lemma settled_close: "settled l k \<Longrightarrow> settled (close_sub i l) k"
  by (auto simp: settled_def open_close_sub nth_close_sub)

lemma settled_take:
  assumes "i < length (subs l)" "next_idx (subs l ! i) < length (pending (subs l ! i))" "settled l k"
  shows "settled (fst (take_next i l)) k"
  using assms
  by (cases "k = i") (auto simp: settled_def open_sub_def take_next_def Let_def backlog_def)

text \<open>What each function does to the settled subscribers and to the guards.\<close>

definition settles :: "log_fun \<Rightarrow> 'st log \<Rightarrow> 'st log \<Rightarrow> bool" where
  "settles f l l' \<longleftrightarrow>
     same_busy l l' \<and>
     (case f of FanEnqueue _ _ \<Rightarrow> True | _ \<Rightarrow> \<forall>k. settled l k \<longrightarrow> settled l' k) \<and>
     (case f of
        AppendOne _ \<Rightarrow> \<forall>k. settled l' k
      | Append _ \<Rightarrow> \<forall>k. settled l' k
      | FanDrain i \<Rightarrow> \<forall>k \<ge> i. settled l' k
      | Drain i \<Rightarrow> settled l' i
      | DrainLoop i \<Rightarrow> sub_closed (subs l' ! i) \<or> backlog (subs l' ! i) = []
      | _ \<Rightarrow> True)"

fun names_sub :: "log_fun \<Rightarrow> 'st log \<Rightarrow> bool" where
  "names_sub (Drain i) l = (i < length (subs l))"
| "names_sub (DrainLoop i) l = (i < length (subs l))"
| "names_sub _ _ = True"

lemma settled_flags [simp]:
  "settled (l\<lparr>announcing := a\<rparr>) k = settled l k"
  "settled (l\<lparr>announcing := a, announced := b\<rparr>) k = settled l k"
  by (simp_all add: settled_def open_sub_def)

lemma same_busy_flags [simp]:
  "same_busy (l\<lparr>announcing := a, announced := b\<rparr>) m = same_busy l m"
  "same_busy l (m\<lparr>announcing := a\<rparr>) = same_busy l m"
  by (simp_all add: same_busy_def)

lemma settled_set_busy: "k \<noteq> i \<Longrightarrow> settled (set_busy b i l) k = settled l k"
  by (simp add: settled_def open_sub_def subs_upd_sub)

lemma shape_ok_take_next:
  assumes "shape_ok l" "i < length (subs l)" "next_idx (subs l ! i) < length (pending (subs l ! i))"
  shows "shape_ok (fst (take_next i l))"
proof -
  have "sub_ok (subs l ! i)" using assms(1,2) by (auto simp: shape_ok_def)
  with assms show ?thesis
    by (auto simp: shape_ok_def take_next_def Let_def sub_ok_def
        dest!: subsetD [OF set_update_subset_insert])
qed

lemma shape_ok_set_busy: "shape_ok l \<Longrightarrow> shape_ok (set_busy b i l)"
  by (rule shape_ok_upd_sub) (auto simp: sub_ok_def)

lemma shape_ok_record [simp]: "shape_ok (fst (record_event env inp l)) = shape_ok l"
  by (simp add: shape_ok_def)

lemma shape_ok_flags [simp]:
  "shape_ok (l\<lparr>announcing := a, announced := b\<rparr>) = shape_ok l"
  "shape_ok (l\<lparr>announcing := a\<rparr>) = shape_ok l"
  by (simp_all add: shape_ok_def)

lemma all_from_Suc: "\<forall>k \<ge> Suc i. Q k \<Longrightarrow> Q i \<Longrightarrow> i \<le> k \<Longrightarrow> Q k"
  by (cases "k = i") auto

lemma exec_settles:
  "log_exec env n f l = Some l' \<Longrightarrow> names_sub f l \<Longrightarrow> shape_ok l \<Longrightarrow> settles f l l' \<and> shape_ok l'"
proof (induction n arbitrary: f l l')
  case 0
  then show ?case by simp
next
  case (Suc n)
  have len: "length (subs m') = length (subs m)" if "same_busy m m'" for m m'
    using that by (simp add: same_busy_def)
  show ?case
  proof (cases f)
    case (AppendOne inp)
    with Suc.prems(1) obtain m where
      m: "log_exec env n (FanEnqueue 0 (snd (record_event env inp l)))
            (fst (record_event env inp l)) = Some m" "log_exec env n (FanDrain 0) m = Some l'"
      unfolding AppendOne exec_AppendOne by blast
    from Suc.IH [OF m(1)] Suc.prems(3)
    have a: "same_busy (fst (record_event env inp l)) m" "shape_ok m"
      by (simp_all add: settles_def)
    from Suc.IH [OF m(2)] a(2) have b: "settles (FanDrain 0) m l'" "shape_ok l'" by simp_all
    have "same_busy l m" using a(1) by (simp add: same_busy_def)
    then have "same_busy l l'" using b(1) same_busy_trans by (auto simp: settles_def)
    with b show ?thesis by (auto simp: settles_def AppendOne)
  next
    case (FanEnqueue i e)
    have goal: "settles (FanEnqueue i e) l l' \<and> shape_ok l'"
      if "same_busy l m" "settles (FanEnqueue (Suc i) e) m l' \<and> shape_ok l'" for m
      using that same_busy_trans by (auto simp: settles_def)
    let ?q = "enqueue i e l"
    have q: "shape_ok ?q" "same_busy l ?q"
      using Suc.prems(3) shape_ok_enqueue same_busy_enqueue by blast+
    from Suc.prems(1) FanEnqueue consider
      "l' = l" | "log_exec env n (FanEnqueue (Suc i) e) l = Some l'"
      | "log_exec env n (FanEnqueue (Suc i) e) ?q = Some l'"
      | m cs where "log_exec env n (RunCalls cs) (close_overflowed i ?q) = Some m"
          "log_exec env n (FanEnqueue (Suc i) e) m = Some l'"
      by (auto simp: exec_iffs split: if_splits)
    then have "settles (FanEnqueue i e) l l' \<and> shape_ok l'"
    proof cases
      case 1
      with Suc.prems(3) show ?thesis by (simp add: settles_def same_busy_refl)
    next
      case 2
      from goal [OF same_busy_refl] Suc.IH [OF 2] Suc.prems(3) show ?thesis by simp
    next
      case 3
      from goal [OF q(2)] Suc.IH [OF 3] q(1) show ?thesis by simp
    next
      case 4
      from Suc.IH [OF 4(1)] close_overflowed_closed(2) [OF q(1)]
      have cm: "same_busy (close_overflowed i ?q) m" "shape_ok m"
        by (simp_all add: settles_def)
      then have "same_busy l m"
        using q(2) same_busy_close_overflowed same_busy_trans by blast
      from goal [OF this] Suc.IH [OF 4(2)] cm(2) show ?thesis by simp
    qed
    then show ?thesis by (simp only: FanEnqueue)
  next
    case (FanDrain i)
    consider (out) "l' = l" "length (subs l) \<le> i"
      | (skip) "i < length (subs l)" "\<not> sub_in_set (subs l ! i)"
          "log_exec env n (FanDrain (Suc i)) l = Some l'"
      | (here) m where "i < length (subs l)" "log_exec env n (Drain i) l = Some m"
          "log_exec env n (FanDrain (Suc i)) m = Some l'"
      using Suc.prems(1) by (auto simp: FanDrain exec_iffs split: if_splits)
    then show ?thesis
    proof cases
      case out
      with Suc.prems(3) show ?thesis
        by (auto simp: FanDrain settles_def same_busy_refl settled_def open_sub_def)
    next
      case skip
      have "sub_ok (subs l ! i)" using Suc.prems(3) skip(1) by (simp add: shape_ok_def)
      with skip have "settled l i" by (simp add: settled_def open_sub_def sub_ok_def)
      moreover from Suc.IH [OF skip(3)] Suc.prems(3)
      have a: "settles (FanDrain (Suc i)) l l'" "shape_ok l'" by simp_all
      ultimately have "settled l' i" by (simp add: settles_def)
      with a show ?thesis by (auto simp: FanDrain settles_def intro: all_from_Suc)
    next
      case here
      from Suc.IH [OF here(2)] here(1) Suc.prems(3)
      have a: "settles (Drain i) l m" "shape_ok m" by simp_all
      from Suc.IH [OF here(3)] a(2)
      have b: "settles (FanDrain (Suc i)) m l'" "shape_ok l'" by simp_all
      from a(1) b(1) have "same_busy l l'" by (auto simp: settles_def intro: same_busy_trans)
      moreover from a(1) b(1) have "settled l' i" by (simp add: settles_def)
      ultimately show ?thesis
        using a(1) b by (auto simp: FanDrain settles_def intro: all_from_Suc)
    qed
  next
    case (Drain i)
    show ?thesis
    proof (cases "busy (subs l ! i)")
      case True
      with Drain Suc.prems show ?thesis
        by (simp add: exec_iffs settles_def same_busy_refl settled_def)
    next
      case False
      with Drain Suc.prems(1) obtain m where
        m: "log_exec env n (DrainLoop i) (set_busy True i l) = Some m" "l' = set_busy False i m"
        by (auto simp: exec_iffs)
      have i: "i < length (subs l)" using Drain Suc.prems(2) by simp
      from Suc.IH [OF m(1)] i shape_ok_set_busy [OF Suc.prems(3)]
      have a: "settles (DrainLoop i) (set_busy True i l) m" "shape_ok m" by simp_all
      then have "same_busy (set_busy True i l) m"
        and keep: "settled (set_busy True i l) k \<Longrightarrow> settled m k" for k
        by (simp_all add: settles_def)
      with i False have "same_busy l l'"
        by (auto simp: same_busy_def m(2) subs_upd_sub)
      moreover have "settled l' i"
        using a(1) by (auto simp: settles_def settled_def open_sub_def m(2) subs_upd_sub)
      moreover have "settled l k \<Longrightarrow> settled l' k" for k
        using keep [of k] \<open>settled l' i\<close> by (cases "k = i") (simp_all add: settled_set_busy m(2))
      ultimately show ?thesis
        using a(2) shape_ok_set_busy by (auto simp: Drain settles_def m(2))
    qed
  next
    case (DrainLoop i)
    show ?thesis
    proof (cases "sub_closed (subs l ! i) \<or> length (pending (subs l ! i)) \<le> next_idx (subs l ! i)")
      case True
      with DrainLoop Suc.prems show ?thesis
        by (auto simp: exec_iffs settles_def same_busy_refl backlog_def)
    next
      case False
      let ?t = "fst (take_next i l)"
      let ?cs = "listener env ?t i (snd (take_next i l))"
      from False DrainLoop Suc.prems(1) obtain m where
        m: "log_exec env n (RunCalls ?cs) ?t = Some m" "log_exec env n (DrainLoop i) m = Some l'"
        by (auto simp: exec_iffs)
      have i: "i < length (subs l)" and nx: "next_idx (subs l ! i) < length (pending (subs l ! i))"
        using Suc.prems(2) DrainLoop False by auto
      from Suc.IH [OF m(1)] shape_ok_take_next [OF Suc.prems(3) i nx]
      have a: "settles (RunCalls ?cs) ?t m" "shape_ok m" by simp_all
      have bm: "same_busy l m"
        using a(1) same_busy_take [OF i] same_busy_trans by (auto simp: settles_def)
      from Suc.IH [OF m(2)] a(2) i len [OF bm]
      have b: "settles (DrainLoop i) m l'" "shape_ok l'" by simp_all
      have "settled l k \<Longrightarrow> settled l' k" for k
        using settled_take [OF i nx] a(1) b(1) by (simp add: settles_def)
      with b bm show ?thesis
        by (auto simp: DrainLoop settles_def intro: same_busy_trans)
    qed
  next
    case (RunCalls cs)
    show ?thesis
    proof (cases cs)
      case Nil
      with RunCalls Suc.prems show ?thesis by (simp add: exec_iffs settles_def same_busy_refl)
    next
      case (Cons c rest)
      obtain m where m: "same_busy l m" "shape_ok m" "\<And>k. settled l k \<Longrightarrow> settled m k"
        "log_exec env n (RunCalls rest) m = Some l'"
      proof (cases c)
        case (CallAppend inp)
        with Cons RunCalls Suc.prems(1) obtain m where
          m: "log_exec env n (Append inp) l = Some m" "log_exec env n (RunCalls rest) m = Some l'"
          by (auto simp: exec_iffs)
        from Suc.IH [OF m(1)] Suc.prems(3) have "settles (Append inp) l m" "shape_ok m" by simp_all
        with m(2) show thesis by (auto simp: settles_def intro: that)
      next
        case (CallClose j)
        with Cons RunCalls Suc.prems
        have "log_exec env n (RunCalls rest) (close_sub j l) = Some l'" by (simp add: exec_iffs)
        then show thesis
          using that [OF same_busy_close shape_ok_close [OF Suc.prems(3)]] settled_close by blast
      qed
      from Suc.IH [OF m(4)] m(2) have "settles (RunCalls rest) m l'" "shape_ok l'" by simp_all
      with m(1,3) show ?thesis
        by (auto simp: RunCalls settles_def intro: same_busy_trans)
    qed
  next
    case (Append inp)
    from Suc.prems(1) obtain m where m: "log_exec env n (AppendOne inp) l = Some m"
      and l': "if must_announce m
        then (\<exists>m2. log_exec env n (AppendOne degradation_notice)
                     (m\<lparr>announcing := True, announced := True\<rparr>) = Some m2 \<and>
                   l' = m2\<lparr>announcing := False\<rparr>)
        else l' = m"
      unfolding Append exec_Append by blast
    from Suc.IH [OF m] Suc.prems(3) have a: "settles (AppendOne inp) l m" "shape_ok m" by simp_all
    show ?thesis
    proof (cases "must_announce m")
      case False
      with l' a show ?thesis by (auto simp: Append settles_def)
    next
      case True
      with l' obtain m2 where m2: "log_exec env n (AppendOne degradation_notice)
          (m\<lparr>announcing := True, announced := True\<rparr>) = Some m2" "l' = m2\<lparr>announcing := False\<rparr>"
        by auto
      from Suc.IH [OF m2(1)] a(2)
      have "settles (AppendOne degradation_notice) (m\<lparr>announcing := True, announced := True\<rparr>) m2"
        "shape_ok m2" by simp_all
      with a(1) show ?thesis
        by (auto simp: Append settles_def m2(2) intro: same_busy_trans)
    qed
  qed
qed

section \<open>Between calls\<close>

text \<open>
  The states the log is in whenever no method of it is running: no listener is on the stack,
  nothing is queued for anybody, and only subscribers that exist were handed anything.
\<close>

definition quiet :: "'st log \<Rightarrow> bool" where
  "quiet l \<longleftrightarrow> subs_ok l \<and> log_inv l \<and>
     (\<forall>k < length (subs l). \<not> busy (subs l ! k)) \<and>
     (\<forall>k. open_sub l k \<longrightarrow> backlog (subs l ! k) = []) \<and>
     (\<forall>k \<ge> length (subs l). delivered_to l k = [])"

text \<open>Every stream that stayed open was handed \<open>new\<close>, and the history grew by it.\<close>

definition hands_over :: "'st log \<Rightarrow> 'st log \<Rightarrow> envelope list \<Rightarrow> bool" where
  "hands_over l l' new \<longleftrightarrow>
     length (subs l') = length (subs l) \<and> history l' = history l @ new \<and>
     (\<forall>k. open_sub l' k \<longrightarrow> open_sub l k \<and> delivered_to l' k = delivered_to l k @ new)"

lemma hands_over_refl: "hands_over l l []"
  by (simp add: hands_over_def)

lemma hands_over_trans: "hands_over l m xs \<Longrightarrow> hands_over m l' ys \<Longrightarrow> hands_over l l' (xs @ ys)"
  by (auto simp: hands_over_def)

lemma quiet_create:
  assumes "create_log w d m q st0 st = Inr l"
  shows "quiet l \<and> subs l = [] \<and> history l = []"
proof -
  have "log_inv l" by (rule log_inv_create [OF assms])
  moreover have "subs l = []" "history l = []" "delivered l = []"
    using assms by (auto simp: create_log_def split: sum.splits)
  ultimately show ?thesis
    by (simp add: quiet_def subs_ok_def open_sub_def delivered_to_def)
qed

lemma quiet_after:
  assumes "quiet l" "grows l l' new" "same_busy l l'" "subs_ok l'" "log_inv l'" "\<forall>k. settled l' k"
  shows "quiet l' \<and> hands_over l l' new"
proof -
  have nb: "\<not> busy (subs l' ! k)" if "k < length (subs l')" for k
    using assms(1,3) that by (simp add: quiet_def same_busy_def)
  have bl: "backlog (subs l' ! k) = []" if "open_sub l' k" for k
    using assms(6) nb [of k] that by (auto simp: settled_def open_sub_def)
  have "delivered_to l' k = delivered_to l k @ new" if "open_sub l' k" for k
    using assms(1,2) bl [OF that] that by (auto simp: grows_def stream_def quiet_def)
  with assms nb bl show ?thesis
    by (auto simp: quiet_def hands_over_def grows_def same_busy_def)
qed

lemma quiet_append:
  assumes "overflow_closes env" "quiet l" "append env n inp l = Some (l', e)"
  shows "\<exists>new. quiet l' \<and> hands_over l l' (e # new)"
proof -
  from assms(3) have run: "log_exec env n (Append inp) l = Some l'"
    and e: "e = snd (record_event env inp l)" by (auto simp: append_def)
  have ok: "subs_ok l" "log_inv l" using assms(2) by (auto simp: quiet_def)
  have "advances env (Append inp) l l'" by (rule exec_advances [OF assms(1) run]) (simp_all add: ok)
  then obtain new where "grows l l' (e # new)" "subs_ok l'" by (auto simp: advances_def e)
  moreover have "settles (Append inp) l l'"
    using exec_settles [OF run] subs_ok_shape [OF ok(1)] by simp
  moreover have "log_inv l'" by (rule ring_steps.P_exec [OF run ok(2)])
  ultimately have "quiet l' \<and> hands_over l l' (e # new)"
    by (intro quiet_after [OF assms(2)]) (auto simp: settles_def)
  then show ?thesis ..
qed

end
