(* ===== verification/EventLogRun.thy ===== *)
theory EventLogRun
  imports EventLogSettle
begin

text \<open>
  Whole runs of the log: the methods of the handle as operations, the invariants over any sequence
  of them, when an append returns, and what one subscriber has been handed at the end.
\<close>

section \<open>Operations\<close>

datatype log_op =
    DoAppend event_input
  | DoAppendAll "event_input list"
  | DoSubscribe jsnum "jsnum option"
  | DoUnsubscribe nat
  | DoClose
  | DoSession string
  | DoFlush

text \<open>One method call. A \<open>subscribe\<close> that throws leaves the log as it was.\<close>

fun log_step :: "'st log_env \<Rightarrow> nat \<Rightarrow> log_op \<Rightarrow> 'st log \<Rightarrow> 'st log option" where
  "log_step env n (DoAppend inp) l = map_option fst (append env n inp l)"
| "log_step env n (DoAppendAll inps) l = map_option fst (append_all env n inps l)"
| "log_step env n (DoSubscribe since q) l =
     (case subscribe env n since q l of Inl _ \<Rightarrow> Some l | Inr r \<Rightarrow> map_option fst r)"
| "log_step env n (DoUnsubscribe i) l = Some (close_sub i l)"
| "log_step env n DoClose l = Some (close_log l)"
| "log_step env n (DoSession sid) l = Some (set_session_id sid l)"
| "log_step env n DoFlush l = Some (flush_log (ops env) l)"

text \<open>A run: each call at its own time.\<close>

fun log_run :: "'st log_env \<Rightarrow> nat \<Rightarrow> (ms \<times> log_op) list \<Rightarrow> 'st log \<Rightarrow> 'st log option" where
  "log_run env n [] l = Some l"
| "log_run env n ((t, op) # rest) l =
     Option.bind (log_step (env\<lparr>now := t\<rparr>) n op l) (log_run env n rest)"

section \<open>Invariants of runs\<close>

text \<open>
  The interface of an invariant of the whole handle: the primitive steps and the assignments the
  methods make around them keep it, whatever the environment. Its client lemma is that every run
  keeps it.
\<close>

locale log_methods =
  fixes P :: "'st log \<Rightarrow> bool"
  assumes M_record: "P l \<Longrightarrow> P (fst (record_event env inp l))"
    and M_subs: "P l \<Longrightarrow> P (l\<lparr>subs := us\<rparr>)"
    and M_delivered: "P l \<Longrightarrow> P (l\<lparr>delivered := ds\<rparr>)"
    and M_overflows: "P l \<Longrightarrow> P (l\<lparr>overflows := os\<rparr>)"
    and M_announcing: "P l \<Longrightarrow> P (l\<lparr>announcing := a\<rparr>)"
    and M_announced: "P l \<Longrightarrow> P (l\<lparr>announced := b\<rparr>)"
    and M_batching: "P l \<Longrightarrow> P (l\<lparr>batching := c\<rparr>)"
    and M_session: "P l \<Longrightarrow> P (l\<lparr>session := sid\<rparr>)"
    and M_flushed: "P l \<Longrightarrow> P (flush_log so l)"

sublocale log_methods \<subseteq> steps: log_primitives env P for env
  by unfold_locales (rule M_record M_subs M_delivered M_overflows M_announcing M_announced; assumption)+

context log_methods
begin

lemma P_append_one: "append_one env n inp l = Some (l', e) \<Longrightarrow> P l \<Longrightarrow> P l'"
  unfolding append_one_def by (auto intro: steps.P_exec)

lemma P_append: "append env n inp l = Some (l', e) \<Longrightarrow> P l \<Longrightarrow> P l'"
  unfolding append_def by (auto intro: steps.P_exec)

lemma P_batch: "append_batch env n inps l = Some (l', es) \<Longrightarrow> P l \<Longrightarrow> P l'"
  by (induction inps arbitrary: l l' es) (auto split: option.splits dest: P_append_one)

lemma P_announce:
  assumes "announce_degradation env n l = Some l'" "P l"
  shows "P l'"
proof (cases "\<not> degraded l \<or> announced l \<or> announcing l \<or> batching l")
  case True
  with assms show ?thesis by (auto simp: announce_degradation_def)
next
  case False
  with assms(1) obtain m e where
    m: "append_one env n degradation_notice (l\<lparr>announcing := True, announced := True\<rparr>) = Some (m, e)"
      "l' = m\<lparr>announcing := False\<rparr>"
    by (auto simp: announce_degradation_def)
  have "P (l\<lparr>announcing := True, announced := True\<rparr>)"
    by (rule M_announced [OF M_announcing [OF assms(2)]])
  from M_announcing [OF P_append_one [OF m(1) this]] show ?thesis by (simp add: m(2))
qed

lemma P_append_all:
  assumes "append_all env n inps l = Some (l', es)" "P l"
  shows "P l'"
proof -
  from assms(1) obtain m where m: "append_batch env n inps (l\<lparr>batching := True\<rparr>) = Some (m, es)"
    "announce_degradation env n (m\<lparr>batching := batching l\<rparr>) = Some l'"
    by (auto simp: append_all_def Let_def split: option.splits)
  from P_batch [OF m(1) M_batching [OF assms(2)]] have "P m" .
  from P_announce [OF m(2) M_batching [OF this]] show ?thesis .
qed

lemma P_close_all: "P l \<Longrightarrow> P (close_all_from n l)"
  by (induction n arbitrary: l) (simp_all add: steps.P_close_sub)

lemma P_subscribe: "subscribe env n since q l = Inr (Some (l', i)) \<Longrightarrow> P l \<Longrightarrow> P l'"
  by (auto simp: subscribe_def Let_def split: sum.splits option.splits intro: steps.P_exec M_subs)

lemma P_step:
  assumes "log_step env n op l = Some l'" "P l"
  shows "P l'"
  using assms
proof (cases op)
  case (DoSubscribe since q)
  with assms show ?thesis by (auto split: sum.splits dest: P_subscribe)
qed (auto simp: close_log_def set_session_id_def
  intro: P_append P_append_all P_close_all steps.P_close_sub M_session M_flushed)

lemma P_run: "log_run env n tops l = Some l' \<Longrightarrow> P l \<Longrightarrow> P l'"
  by (induction env n tops l rule: log_run.induct)
     (auto simp: bind_eq_Some_conv dest: P_step)

end

section \<open>Between calls everything is delivered\<close>

text \<open>
  From \<open>l\<close> to \<open>l'\<close> the envelopes \<open>new\<close> were appended, and every subscriber of \<open>l\<close> that is
  still open has been handed exactly those.
\<close>

definition keeps_up :: "'st log \<Rightarrow> 'st log \<Rightarrow> envelope list \<Rightarrow> bool" where
  "keeps_up l l' new \<longleftrightarrow>
     length (subs l) \<le> length (subs l') \<and> history l' = history l @ new \<and>
     (\<forall>k < length (subs l). open_sub l' k \<longrightarrow>
        open_sub l k \<and> delivered_to l' k = delivered_to l k @ new)"

lemma keeps_up_refl: "keeps_up l l []"
  by (simp add: keeps_up_def)

lemma keeps_up_trans:
  assumes "keeps_up l m xs" "keeps_up m l' ys"
  shows "keeps_up l l' (xs @ ys)"
  using assms unfolding keeps_up_def by (metis append.assoc le_trans less_le_trans)

lemma hands_over_keeps_up: "hands_over l l' new \<Longrightarrow> keeps_up l l' new"
  by (auto simp: hands_over_def keeps_up_def)

lemma same_view_keeps_up:
  assumes "subs l' = subs l" "history l' = history l" "delivered l' = delivered l"
  shows "keeps_up l l' []"
  using assms by (simp add: keeps_up_def open_sub_def delivered_to_def)

lemma quiet_cong:
  assumes "subs l' = subs l" "head l' = head l" "delivered l' = delivered l"
    "ring l' = ring l" "base l' = base l" "max_events l' = max_events l" "history l' = history l"
  shows "quiet l' = quiet l"
  using assms by (simp add: quiet_def subs_ok_def log_inv_def open_sub_def delivered_to_def)

lemma log_inv_upd_sub [simp]: "log_inv (upd_sub i f l) = log_inv l"
  by (simp add: log_inv_def upd_sub_def)

lemma quiet_close_sub:
  assumes "quiet l"
  shows "quiet (close_sub i l) \<and> keeps_up l (close_sub i l) []"
proof -
  have "log_inv (close_sub i l)" using assms by (simp add: quiet_def close_sub_def)
  moreover have "subs_ok (close_sub i l)" using assms by (auto simp: quiet_def intro: subs_ok_close)
  moreover have "busy (subs (close_sub i l) ! k) = busy (subs l ! k)" for k
    by (simp add: close_sub_def subs_upd_sub)
  moreover have "open_sub (close_sub i l) k \<Longrightarrow> backlog (subs (close_sub i l) ! k) = []" for k
    using assms by (simp add: quiet_def open_close_sub nth_close_sub)
  ultimately show ?thesis
    using assms by (simp add: quiet_def keeps_up_def open_close_sub)
qed

lemma quiet_close_all: "quiet l \<Longrightarrow> quiet (close_all_from n l) \<and> keeps_up l (close_all_from n l) []"
proof (induction n arbitrary: l)
  case 0
  then show ?case by (simp add: keeps_up_refl)
next
  case (Suc n)
  note c = quiet_close_sub [OF Suc.prems, of n]
  from Suc.IH [OF c [THEN conjunct1]] keeps_up_trans [OF c [THEN conjunct2]]
  show ?case by fastforce
qed

lemma quiet_append_one:
  assumes "overflow_closes env" "quiet l" "append_one env n inp l = Some (l', e)"
  shows "\<exists>new. quiet l' \<and> hands_over l l' (e # new)"
proof -
  from assms(3) have run: "log_exec env n (AppendOne inp) l = Some l'"
    and e: "e = snd (record_event env inp l)" by (auto simp: append_one_def)
  have ok: "subs_ok l" "log_inv l" using assms(2) by (auto simp: quiet_def)
  have "advances env (AppendOne inp) l l'"
    by (rule exec_advances [OF assms(1) run]) (simp_all add: ok)
  then obtain new where "grows l l' (e # new)" "subs_ok l'" by (auto simp: advances_def e)
  moreover have "settles (AppendOne inp) l l'"
    using exec_settles [OF run] subs_ok_shape [OF ok(1)] by simp
  moreover have "log_inv l'" by (rule ring_steps.P_exec [OF run ok(2)])
  ultimately have "quiet l' \<and> hands_over l l' (e # new)"
    by (intro quiet_after [OF assms(2)]) (auto simp: settles_def)
  then show ?thesis ..
qed

lemma append_one_keeps_up:
  assumes "overflow_closes env" "quiet l" "append_one env n inp l = Some (l', e)"
  shows "\<exists>new. quiet l' \<and> keeps_up l l' (e # new)"
  using quiet_append_one [OF assms] hands_over_keeps_up by blast

lemma append_batch_keeps_up:
  "overflow_closes env \<Longrightarrow> quiet l \<Longrightarrow> append_batch env n inps l = Some (l', es) \<Longrightarrow>
   \<exists>new. quiet l' \<and> keeps_up l l' new"
proof (induction inps arbitrary: l l' es)
  case Nil
  then show ?case using keeps_up_refl by auto
next
  case (Cons inp inps)
  then obtain l1 e es' where s: "append_one env n inp l = Some (l1, e)"
    "append_batch env n inps l1 = Some (l', es')"
    by (auto split: option.splits)
  from append_one_keeps_up [OF Cons.prems(1,2) s(1)]
  obtain new where a: "quiet l1" "keeps_up l l1 (e # new)" by blast
  from Cons.IH [OF Cons.prems(1) a(1) s(2)] keeps_up_trans [OF a(2)] show ?case by blast
qed

lemma announce_keeps_up:
  assumes "overflow_closes env" "quiet l" "announce_degradation env n l = Some l'"
  shows "\<exists>new. quiet l' \<and> keeps_up l l' new"
proof (cases "\<not> degraded l \<or> announced l \<or> announcing l \<or> batching l")
  case True
  with assms keeps_up_refl show ?thesis by (auto simp: announce_degradation_def)
next
  case False
  let ?l1 = "l\<lparr>announcing := True, announced := True\<rparr>"
  from False assms(3) obtain m e where m: "append_one env n degradation_notice ?l1 = Some (m, e)"
    "l' = m\<lparr>announcing := False\<rparr>"
    by (auto simp: announce_degradation_def)
  have "quiet ?l1" using assms(2) quiet_cong [of ?l1 l] by simp
  from append_one_keeps_up [OF assms(1) this m(1)]
  obtain new where new: "quiet m" "keeps_up ?l1 m (e # new)" by blast
  have "quiet l'" using new(1) quiet_cong [of l' m] by (simp add: m(2))
  moreover have "keeps_up l l' (e # new)"
    using new(2) by (simp add: keeps_up_def open_sub_def m(2))
  ultimately show ?thesis by blast
qed

lemma append_all_keeps_up:
  assumes "overflow_closes env" "quiet l" "append_all env n inps l = Some (l', es)"
  shows "\<exists>new. quiet l' \<and> keeps_up l l' new"
proof -
  let ?l0 = "l\<lparr>batching := True\<rparr>"
  from assms(3) obtain m where m: "append_batch env n inps ?l0 = Some (m, es)"
    "announce_degradation env n (m\<lparr>batching := batching l\<rparr>) = Some l'"
    by (auto simp: append_all_def Let_def split: option.splits)
  have "quiet ?l0" using assms(2) quiet_cong [of ?l0 l] by simp
  from append_batch_keeps_up [OF assms(1) this m(1)]
  obtain xs where a: "quiet m" "keeps_up ?l0 m xs" by blast
  have "quiet (m\<lparr>batching := batching l\<rparr>)"
    using a(1) quiet_cong [of "m\<lparr>batching := batching l\<rparr>" m] by simp
  from announce_keeps_up [OF assms(1) this m(2)]
  obtain ys where b: "quiet l'" "keeps_up (m\<lparr>batching := batching l\<rparr>) l' ys" by blast
  have "keeps_up l (m\<lparr>batching := batching l\<rparr>) xs"
    using a(2) by (simp add: keeps_up_def open_sub_def)
  from b keeps_up_trans [OF this] show ?thesis by blast
qed

section \<open>Subscribing\<close>

text \<open>The subscriber as \<open>subscribe\<close> adds it, its replay queued and nothing handed over yet.\<close>

definition attach :: "'st log_env \<Rightarrow> jsnum \<Rightarrow> nat \<Rightarrow> 'st log \<Rightarrow> 'st log" where
  "attach env since q l = l\<lparr>subs := subs l @
     [\<lparr>queue_size = q, attached_at = head l, pending = read_log (ops env) l since None,
       next_idx = 0, last_delivered = min (cursor since) (head l), busy = False,
       sub_closed = False, sub_in_set = True\<rparr>]\<rparr>"

lemma subscribe_cases:
  assumes "subscribe env n since queue l = Inr (Some (l', i))"
  obtains q where "i = length (subs l)" "log_exec env n (Drain i) (attach env since q l) = Some l'"
proof (cases "case queue of None \<Rightarrow> Inr (default_queue l) | Some q \<Rightarrow> positive_int q")
  case (Inl e)
  with assms show thesis by (simp add: subscribe_def)
next
  case (Inr q)
  with assms that [of q] show thesis by (auto simp: subscribe_def attach_def Let_def)
qed

lemma open_attach:
  "open_sub (attach env since q l) k \<longleftrightarrow> k = length (subs l) \<or> open_sub l k"
  by (auto simp: attach_def open_sub_def nth_append less_Suc_eq)

lemma attach_sel [simp]:
  "length (subs (attach env since q l)) = Suc (length (subs l))"
  "history (attach env since q l) = history l" "head (attach env since q l) = head l"
  "delivered_to (attach env since q l) k = delivered_to l k"
  "k < length (subs l) \<Longrightarrow> subs (attach env since q l) ! k = subs l ! k"
  by (simp_all add: attach_def nth_append)

text \<open>
  Subscribing hands over the replay, then whatever the listeners appended meanwhile; everybody
  else is handed the latter.
\<close>

lemma subscribe_keeps_up:
  assumes "overflow_closes env" "quiet l" "subscribe env n since queue l = Inr (Some (l', i))"
  shows "\<exists>new. quiet l' \<and> keeps_up l l' new \<and> i = length (subs l) \<and> i < length (subs l') \<and>
    (open_sub l' i \<longrightarrow> delivered_to l' i = read_log (ops env) l since None @ new)"
proof -
  from assms(3) obtain q where i: "i = length (subs l)"
    and run: "log_exec env n (Drain i) (attach env since q l) = Some l'"
    by (rule subscribe_cases)
  let ?a = "attach env since q l"
  have ok: "subs_ok ?a" using assms(2) by (auto simp: quiet_def subs_ok_def attach_def sub_ok_def)
  have "log_inv ?a" using assms(2) by (simp add: quiet_def attach_def log_inv_def)
  from ring_steps.P_exec [OF run this] have inv: "log_inv l'" .
  have "advances env (Drain i) ?a l'" by (rule exec_advances [OF assms(1) run _ ok]) (simp add: i)
  then obtain new where g: "grows ?a l' new" and ok': "subs_ok l'" by (auto simp: advances_def)
  have s: "settles (Drain i) ?a l'"
    using exec_settles [OF run _ subs_ok_shape [OF ok]] by (simp add: i)
  have sb: "same_busy ?a l'" using s by (simp add: settles_def)
  have len: "length (subs l') = Suc i" using sb by (simp add: same_busy_def i)
  have nb: "\<not> busy (subs l' ! k)" if "k < length (subs l')" for k
  proof -
    have "busy (subs l' ! k) = busy (subs ?a ! k)" using sb that len i by (simp add: same_busy_def)
    moreover have "\<not> busy (subs ?a ! k)"
      using assms(2) that len i
      by (cases "k = i") (auto simp: attach_def quiet_def nth_append less_Suc_eq)
    ultimately show ?thesis by simp
  qed
  have "settled ?a k" if "k \<noteq> i" for k
    using assms(2) that by (auto simp: settled_def open_attach quiet_def i open_sub_def)
  then have "settled l' k" for k using s by (cases "k = i") (simp_all add: settles_def)
  then have bl: "backlog (subs l' ! k) = []" if "open_sub l' k" for k
    using nb [of k] that by (auto simp: settled_def open_sub_def)
  have old: "open_sub l k \<and> delivered_to l' k = delivered_to l k @ new"
    if "open_sub l' k" "k < length (subs l)" for k
    using g bl [OF that(1)] that assms(2)
    by (auto simp: grows_def stream_def open_attach quiet_def)
  have mine: "delivered_to l' i = read_log (ops env) l since None @ new" if "open_sub l' i"
  proof -
    have "stream ?a i = delivered_to l i @ read_log (ops env) l since None"
      by (simp add: stream_def i) (simp add: attach_def backlog_def)
    moreover have "delivered_to l i = []" using assms(2) by (simp add: quiet_def i)
    ultimately show ?thesis
      using g bl [OF that] that by (auto simp: grows_def stream_def)
  qed
  have "\<forall>k \<ge> length (subs l'). delivered_to l' k = []"
    using sb assms(2) by (auto simp: same_busy_def quiet_def)
  with ok' inv nb bl have "quiet l'" by (simp add: quiet_def)
  moreover have "keeps_up l l' new"
    using g old len i by (auto simp: keeps_up_def grows_def)
  ultimately show ?thesis using mine i len by auto
qed

section \<open>Runs\<close>

lemma step_keeps_up:
  assumes "overflow_closes env" "quiet l" "log_step env n op l = Some l'"
  shows "\<exists>new. quiet l' \<and> keeps_up l l' new"
proof (cases op)
  case (DoAppend inp)
  with assms(3) obtain e where "append env n inp l = Some (l', e)" by auto
  from quiet_append [OF assms(1,2) this] hands_over_keeps_up show ?thesis by blast
next
  case (DoAppendAll inps)
  with assms(3) obtain es where "append_all env n inps l = Some (l', es)" by auto
  then show ?thesis by (rule append_all_keeps_up [OF assms(1,2)])
next
  case (DoSubscribe since q)
  show ?thesis
  proof (cases "subscribe env n since q l")
    case (Inl e)
    with DoSubscribe assms keeps_up_refl show ?thesis by auto
  next
    case (Inr r)
    with DoSubscribe assms(3) obtain i where "subscribe env n since q l = Inr (Some (l', i))" by auto
    from subscribe_keeps_up [OF assms(1,2) this] show ?thesis by blast
  qed
next
  case (DoUnsubscribe i)
  with assms quiet_close_sub [of l i] show ?thesis by auto
next
  case DoClose
  with assms quiet_close_all [of l "length (subs l)"] show ?thesis by (auto simp: close_log_def)
next
  case (DoSession sid)
  with assms(3) have l': "l' = l\<lparr>session := Some sid\<rparr>" by (simp add: set_session_id_def)
  have "keeps_up l l' []" by (rule same_view_keeps_up) (simp_all add: l')
  moreover have "quiet l'" using assms(2) quiet_cong [of l' l] by (simp add: l')
  ultimately show ?thesis by blast
next
  case DoFlush
  with assms(3) have l': "l' = flush_log (ops env) l" by simp
  have "keeps_up l l' []" by (rule same_view_keeps_up) (simp_all add: l' flush_log_def)
  moreover have "quiet l'" using assms(2) quiet_cong [of l' l] by (simp add: l' flush_log_def)
  ultimately show ?thesis by blast
qed

lemma run_keeps_up:
  "overflow_closes env \<Longrightarrow> quiet l \<Longrightarrow> log_run env n tops l = Some l' \<Longrightarrow>
   \<exists>new. quiet l' \<and> keeps_up l l' new"
proof (induction tops arbitrary: l)
  case Nil
  then show ?case using keeps_up_refl by auto
next
  case (Cons top tops)
  obtain t op where top: "top = (t, op)" by (cases top)
  with Cons.prems(3) obtain m where m: "log_step (env\<lparr>now := t\<rparr>) n op l = Some m"
    "log_run env n tops m = Some l'" by (auto simp: bind_eq_Some_conv)
  have "overflow_closes (env\<lparr>now := t\<rparr>)" using Cons.prems(1) by (simp add: overflow_closes_def)
  from step_keeps_up [OF this Cons.prems(2) m(1)]
  obtain xs where a: "quiet m" "keeps_up l m xs" by blast
  from Cons.IH [OF Cons.prems(1) a(1) m(2)] keeps_up_trans [OF a(2)] show ?case by blast
qed

end
