(* ===== verification/EventLogReturn.thy ===== *)
theory EventLogReturn
  imports EventLogRun
begin

text \<open>
  When an append returns: more fuel never changes the answer, and when no callback appends, every
  append returns, whatever the subscribers and their queues are.
\<close>

section \<open>Fuel\<close>

lemma exec_more_fuel: "log_exec env n f l = Some l' \<Longrightarrow> log_exec env (Suc n) f l = Some l'"
proof (induction n arbitrary: f l l')
  case 0
  then show ?case by simp
next
  case (Suc n)
  note IH = Suc.IH
  show ?case
  proof (cases f)
    case (RunCalls cs)
    show ?thesis
    proof (cases cs)
      case Nil
      with RunCalls Suc.prems show ?thesis by (simp add: exec_iffs)
    next
      case (Cons c rest)
      with RunCalls Suc.prems show ?thesis
        by (cases c) (auto simp: exec_RunCalls [of env n] exec_RunCalls [of env "Suc n"] intro: IH)
    qed
  next
    case (AppendOne inp)
    show ?thesis
      using Suc.prems [unfolded AppendOne exec_AppendOne] unfolding AppendOne
      by (subst exec_AppendOne) (auto intro: IH split: if_splits)
  next
    case (FanEnqueue i e)
    show ?thesis
      using Suc.prems [unfolded FanEnqueue exec_FanEnqueue] unfolding FanEnqueue
      by (subst exec_FanEnqueue) (auto intro: IH split: if_splits)
  next
    case (FanDrain i)
    show ?thesis
      using Suc.prems [unfolded FanDrain exec_FanDrain] unfolding FanDrain
      by (subst exec_FanDrain) (auto intro: IH split: if_splits)
  next
    case (Drain i)
    show ?thesis
      using Suc.prems [unfolded Drain exec_Drain] unfolding Drain
      by (subst exec_Drain) (auto intro: IH split: if_splits)
  next
    case (DrainLoop i)
    show ?thesis
      using Suc.prems [unfolded DrainLoop exec_DrainLoop] unfolding DrainLoop
      by (subst exec_DrainLoop) (auto intro: IH split: if_splits)
  next
    case (Append inp)
    show ?thesis
      using Suc.prems [unfolded Append exec_Append] unfolding Append
      by (subst exec_Append) (auto intro: IH split: if_splits)
  qed
qed

lemma exec_fuel_mono: "log_exec env n f l = Some l' \<Longrightarrow> n \<le> m \<Longrightarrow> log_exec env m f l = Some l'"
proof (induction m)
  case (Suc m)
  then show ?case by (cases "n = Suc m") (auto intro: exec_more_fuel)
qed simp

definition returns :: "'st log_env \<Rightarrow> log_fun \<Rightarrow> 'st log \<Rightarrow> bool" where
  "returns env f l \<longleftrightarrow> (\<exists>n l'. log_exec env n f l = Some l')"

text \<open>Two calls in a row return when the second does on the answer of the first.\<close>

lemma both_fuel:
  assumes "log_exec env n f l = Some m" "log_exec env k g m' = Some l'"
  shows "log_exec env (max n k) f l = Some m \<and> log_exec env (max n k) g m' = Some l'"
  using assms exec_fuel_mono by (metis max.cobounded1 max.cobounded2)

section \<open>Callbacks that do not append\<close>

definition mute :: "'st log_env \<Rightarrow> bool" where
  "mute env \<longleftrightarrow> overflow_closes env \<and> (\<forall>l i e. only_closes (listener env l i e))"

lemma closes_return: "only_closes cs \<Longrightarrow> \<exists>l'. log_exec env (Suc (length cs)) (RunCalls cs) l = Some l'"
proof (induction cs arbitrary: l)
  case Nil
  then show ?case by (simp add: exec_iffs)
next
  case (Cons c cs)
  then obtain j where "c = CallClose j" "only_closes cs" by (auto simp: only_closes_def)
  with Cons.IH [of "close_sub j l"] show ?case by (simp add: exec_iffs)
qed

lemma loop_returns:
  assumes "mute env" "i < length (subs l)"
  shows "returns env (DrainLoop i) l"
  using assms
proof (induction "length (pending (subs l ! i)) - next_idx (subs l ! i)" arbitrary: l
    rule: less_induct)
  case less
  show ?case
  proof (cases "sub_closed (subs l ! i) \<or> length (pending (subs l ! i)) \<le> next_idx (subs l ! i)")
    case True
    then have "log_exec env (Suc 0) (DrainLoop i) l = Some l" by (simp add: exec_iffs)
    then show ?thesis unfolding returns_def by blast
  next
    case False
    let ?t = "fst (take_next i l)"
    let ?cs = "listener env ?t i (snd (take_next i l))"
    have oc: "only_closes ?cs" using less.prems(1) by (simp add: mute_def)
    from closes_return [OF this] obtain m
      where m: "log_exec env (Suc (length ?cs)) (RunCalls ?cs) ?t = Some m" by blast
    have cm: "only_closed ?t m" using run_closes [OF m oc] by blast
    have len: "i < length (subs m)"
      using cm less.prems(2) by (simp add: only_closed_def take_next_def Let_def)
    have "returns env (DrainLoop i) m"
    proof (cases "open_sub m i")
      case True
      then have "subs m ! i = subs ?t ! i" using cm by (simp add: only_closed_def)
      then have "length (pending (subs m ! i)) - next_idx (subs m ! i)
          < length (pending (subs l ! i)) - next_idx (subs l ! i)"
        using False less.prems(2) by (auto simp: take_next_def Let_def)
      then show ?thesis by (rule less.hyps [OF _ less.prems(1) len])
    next
      case closed: False
      then have "log_exec env (Suc 0) (DrainLoop i) m = Some m"
        using len by (simp add: exec_iffs open_sub_def)
      then show ?thesis unfolding returns_def by blast
    qed
    then obtain k l' where k: "log_exec env k (DrainLoop i) m = Some l'"
      by (auto simp: returns_def)
    from both_fuel [OF m k] False
    have "log_exec env (Suc (max (Suc (length ?cs)) k)) (DrainLoop i) l = Some l'"
      by (auto simp: exec_DrainLoop)
    then show ?thesis unfolding returns_def by blast
  qed
qed

lemma drain_returns:
  assumes "mute env" "i < length (subs l)"
  shows "returns env (Drain i) l"
proof (cases "busy (subs l ! i)")
  case True
  then have "log_exec env (Suc 0) (Drain i) l = Some l" by (simp add: exec_iffs)
  then show ?thesis unfolding returns_def by blast
next
  case False
  from loop_returns [OF assms(1), of i "set_busy True i l"] assms(2)
  obtain n m where "log_exec env n (DrainLoop i) (set_busy True i l) = Some m"
    by (auto simp: returns_def)
  with False have "log_exec env (Suc n) (Drain i) l = Some (set_busy False i m)"
    by (simp add: exec_iffs)
  then show ?thesis unfolding returns_def by blast
qed

lemma fan_drain_returns:
  assumes "mute env" "shape_ok l"
  shows "returns env (FanDrain i) l"
  using assms
proof (induction "length (subs l) - i" arbitrary: i l rule: less_induct)
  case less
  show ?case
  proof (cases "i < length (subs l)")
    case False
    then have "log_exec env (Suc 0) (FanDrain i) l = Some l" by (simp add: exec_iffs)
    then show ?thesis unfolding returns_def by blast
  next
    case i: True
    show ?thesis
    proof (cases "sub_in_set (subs l ! i)")
      case False
      have "returns env (FanDrain (Suc i)) l" using i by (intro less.hyps) (simp_all add: less.prems)
      then obtain n l' where "log_exec env n (FanDrain (Suc i)) l = Some l'"
        by (auto simp: returns_def)
      with False i have "log_exec env (Suc n) (FanDrain i) l = Some l'" by (simp add: exec_iffs)
      then show ?thesis unfolding returns_def by blast
    next
      case True
      from drain_returns [OF less.prems(1) i] obtain n m
        where m: "log_exec env n (Drain i) l = Some m" by (auto simp: returns_def)
      from exec_settles [OF m] i less.prems(2)
      have sm: "length (subs m) = length (subs l)" "shape_ok m"
        by (simp_all add: settles_def same_busy_def)
      have "returns env (FanDrain (Suc i)) m"
        using i sm by (intro less.hyps) (simp_all add: less.prems)
      then obtain k l' where k: "log_exec env k (FanDrain (Suc i)) m = Some l'"
        by (auto simp: returns_def)
      from both_fuel [OF m k] True i
      have "log_exec env (Suc (max n k)) (FanDrain i) l = Some l'" by (auto simp: exec_FanDrain)
      then show ?thesis unfolding returns_def by blast
    qed
  qed
qed

lemma fan_enqueue_returns:
  assumes "mute env"
  shows "returns env (FanEnqueue i e) l"
proof (induction "length (subs l) - i" arbitrary: i l rule: less_induct)
  case less
  let ?q = "enqueue i e l"
  let ?c = "close_overflowed i ?q"
  let ?cs = "on_overflow env ?c i (last_delivered (subs ?q ! i))"
  show ?case
  proof (cases "i < length (subs l)")
    case False
    then have "log_exec env (Suc 0) (FanEnqueue i e) l = Some l" by (simp add: exec_iffs)
    then show ?thesis unfolding returns_def by blast
  next
    case i: True
    have nxt: "returns env (FanEnqueue (Suc i) e) m" if "length (subs m) = length (subs l)" for m
      using that i by (intro less.hyps) simp
    have oc: "only_closes ?cs" using assms by (simp add: mute_def overflow_closes_def)
    from closes_return [OF this] obtain m
      where m: "log_exec env (Suc (length ?cs)) (RunCalls ?cs) ?c = Some m" by blast
    have "length (subs m) = length (subs l)"
      using run_closes [OF m oc]
      by (simp add: only_closed_def close_overflowed_def Let_def)
    from nxt [OF this] obtain k1 l1 where k1: "log_exec env k1 (FanEnqueue (Suc i) e) m = Some l1"
      by (auto simp: returns_def)
    from nxt [of l] obtain k2 l2 where k2: "log_exec env k2 (FanEnqueue (Suc i) e) l = Some l2"
      by (auto simp: returns_def)
    from nxt [of ?q] obtain k3 l3 where k3: "log_exec env k3 (FanEnqueue (Suc i) e) ?q = Some l3"
      by (auto simp: returns_def)
    consider "skipped l i e" | "\<not> skipped l i e" "overflows_now ?q i"
      | "\<not> skipped l i e" "\<not> overflows_now ?q i" by blast
    then show ?thesis
    proof cases
      case 1
      with k2 i have "log_exec env (Suc k2) (FanEnqueue i e) l = Some l2"
        by (simp add: exec_FanEnqueue)
      then show ?thesis unfolding returns_def by blast
    next
      case 2
      with both_fuel [OF m k1] i
      have "log_exec env (Suc (max (Suc (length ?cs)) k1)) (FanEnqueue i e) l = Some l1"
        by (auto simp: exec_FanEnqueue)
      then show ?thesis unfolding returns_def by blast
    next
      case 3
      with k3 i have "log_exec env (Suc k3) (FanEnqueue i e) l = Some l3"
        by (simp add: exec_FanEnqueue)
      then show ?thesis unfolding returns_def by blast
    qed
  qed
qed

lemma append_one_returns:
  assumes "mute env" "shape_ok l"
  shows "returns env (AppendOne inp) l"
proof -
  let ?r = "fst (record_event env inp l)" and ?e = "snd (record_event env inp l)"
  from fan_enqueue_returns [OF assms(1)] obtain n m
    where m: "log_exec env n (FanEnqueue 0 ?e) ?r = Some m" unfolding returns_def by blast
  have "shape_ok m" using exec_settles [OF m] assms(2) by simp
  from fan_drain_returns [OF assms(1) this] obtain k l'
    where k: "log_exec env k (FanDrain 0) m = Some l'" unfolding returns_def by blast
  from both_fuel [OF m k] have "log_exec env (Suc (max n k)) (AppendOne inp) l = Some l'"
    by (auto simp: exec_AppendOne)
  then show ?thesis unfolding returns_def by blast
qed

lemma append_fun_returns:
  assumes "mute env" "shape_ok l"
  shows "returns env (Append inp) l"
proof -
  from append_one_returns [OF assms] obtain n m
    where m: "log_exec env n (AppendOne inp) l = Some m" unfolding returns_def by blast
  have sm: "shape_ok m" using exec_settles [OF m] assms(2) by simp
  let ?m1 = "m\<lparr>announcing := True, announced := True\<rparr>"
  have "shape_ok ?m1" using sm by simp
  from append_one_returns [OF assms(1) this] obtain k m2
    where k: "log_exec env k (AppendOne degradation_notice) ?m1 = Some m2"
    unfolding returns_def by blast
  from both_fuel [OF m k]
  have "\<exists>l'. log_exec env (Suc (max n k)) (Append inp) l = Some l'"
    unfolding exec_Append by (cases "must_announce m") auto
  then show ?thesis unfolding returns_def by blast
qed

end
