(* ===== verification/EventLogProps.thy ===== *)
theory EventLogProps
  imports EventLogReturn
begin

text \<open>
  The properties of the event log: gap-free numbering, exact bounded memory, ordered and complete
  delivery, the return of appends, and the run in which an overflow callback that appends makes
  two subscribers see one worker's events in different orders.
\<close>

section \<open>A concrete log\<close>

text \<open>
  A memory log of three slots; the store operations are never called. \<open>chatty\<close> is a listener of
  subscriber 0 that appends a turn event whenever it is handed a session event.
\<close>

definition no_store :: "unit store_ops" where
  "no_store = \<lparr>st_put = \<lambda>st e. (st, False), st_tail_of = \<lambda>st w. 1,
     st_read = \<lambda>st w s n. [], st_flush = \<lambda>st. st\<rparr>"

definition plain_input :: "string \<Rightarrow> event_input" where
  "plain_input m = \<lparr>in_body = ErrorEv \<lparr>err_code = AgentError, err_message = m, err_acp = None,
      err_stderr_tail = None\<rparr>, in_version = 1, in_turn = None, in_replay = False\<rparr>"

definition input_of :: "envelope \<Rightarrow> string" where
  "input_of e = (case env_body e of ErrorEv x \<Rightarrow> err_message x | _ \<Rightarrow> '''')"

definition sample_env :: "unit log_env" where
  "sample_env = \<lparr>ops = no_store, now = 1000,
     listener = \<lambda>l i e. if i = 0 \<and> input_of e = ''a'' then [CallAppend (plain_input ''b'')]
                      else if i = 0 \<and> input_of e = ''s'' then [CallClose 1] else [],
     on_overflow = \<lambda>l i q. []\<rparr>"

definition empty_log :: "nat \<Rightarrow> unit log" where
  "empty_log m = \<lparr>log_worker = ''w_1'', log_daemon = ''d_1'', max_events = m, default_queue = 8,
     base = 0, ring = [], subs = [], head = 0, session = None, store = None, degraded = False,
     announced = False, announcing = False, batching = False, delivered = [], overflows = [],
     history = []\<rparr>"

lemma create_sample:
  "create_log ''w_1'' ''d_1'' (Some (Fin 3)) (Some (Fin 8)) None (None :: unit option)
     = Inr (empty_log 3)"
  by (simp add: create_log_def empty_log_def)

text \<open>Two subscribers from birth, then the inputs one by one.\<close>

definition two_subs :: "(ms \<times> log_op) list" where
  "two_subs = [(1, DoSubscribe NaN None), (2, DoSubscribe (Fin 0) None)]"

definition seqs_of :: "unit log option \<Rightarrow> nat \<Rightarrow> seq list" where
  "seqs_of r i = (case r of None \<Rightarrow> [] | Some l \<Rightarrow> map env_seq (delivered_to l i))"

definition sample_run :: "(ms \<times> log_op) list" where
  "sample_run = two_subs @
     [(3, DoAppend (plain_input ''a'')), (4, DoAppend (plain_input ''c'')),
      (5, DoAppend (plain_input ''d''))]"

section \<open>Numbering and memory\<close>

interpretation ring_runs: log_methods log_inv
  by unfold_locales (auto intro: log_inv_record, auto simp: log_inv_def flush_log_def)

text \<open>The birth number never changes, and the history only grows.\<close>

interpretation grown_runs: log_methods "\<lambda>l. base l = b \<and> (\<exists>new. history l = h @ new)"
  for b h by unfold_locales (auto simp: flush_log_def)

text \<open>A memory log stays one, and its ring keeps its size.\<close>

interpretation memory_runs: log_methods "\<lambda>l. store l = None \<and> max_events l = m"
  for m by unfold_locales
    (auto simp: flush_log_def record_event_def Let_def store_put_def ring_put_def)

lemma seqs_of_history:
  assumes "log_inv l"
  shows "map env_seq (history l) = [base l + 1 .. head l]"
  by (rule nth_equalityI) (use assms in \<open>auto simp: log_inv_def\<close>)

lemma history_grows:
  assumes "log_run env n tops l = Some l'"
  shows "base l' = base l \<and> (\<exists>new. history l' = history l @ new)"
  by (rule grown_runs.P_run [OF assms]) simp

text \<open>
  C32: Event numbers have no gaps and no duplicates. Whatever the callbacks of the subscribers do
  (append, close subscriptions, or both, at any depth), after any sequence of calls to a new log
  the envelopes appended are numbered \<open>base + 1 .. head\<close> in the order they were appended, and an
  envelope once appended is never renumbered or taken back.
\<close>

theorem history_gap_free:
  assumes "create_log w d m q start st = Inr l"
    and "log_run env n tops l = Some l1" and "log_run env n later l1 = Some l2"
  shows "map env_seq (history l2) = [base l + 1 .. head l2]
    \<and> (\<exists>new. history l2 = history l1 @ new)"
proof -
  have "log_inv l2"
    using assms(2,3) log_inv_create [OF assms(1)] by (blast intro: ring_runs.P_run)
  from seqs_of_history [OF this] show ?thesis
    using history_grows [OF assms(2)] history_grows [OF assms(3)] by auto
qed

theorem history_gap_free_witness:
  "\<exists>l1 l2. log_run sample_env 20 two_subs (empty_log 3) = Some l1
    \<and> log_run sample_env 20 (drop 2 sample_run) l1 = Some l2
    \<and> map env_seq (history l2) = [base (empty_log 3) + 1 .. head l2] \<and> head l2 = 4"
proof -
  have "(case log_run sample_env 20 two_subs (empty_log 3) of None \<Rightarrow> False
      | Some l1 \<Rightarrow> (case log_run sample_env 20 (drop 2 sample_run) l1 of None \<Rightarrow> False
          | Some l2 \<Rightarrow> head l2 = 4))" by code_simp
  then obtain l1 l2 where r: "log_run sample_env 20 two_subs (empty_log 3) = Some l1"
    "log_run sample_env 20 (drop 2 sample_run) l1 = Some l2" "head l2 = 4"
    by (auto split: option.splits)
  from history_gap_free [OF create_sample r(1,2)] r show ?thesis by blast
qed

text \<open>
  C33: Bounded memory loses only what it must. A log without a durable store holds the last
  \<open>max_events\<close> envelopes, and reading from a cursor answers exactly those of them numbered above
  it, in order, cut to the limit; a negative, infinite or NaN cursor reads from the start. This
  holds after any sequence of calls and any re-entrant callbacks, whatever the ring wrapped over.
\<close>

theorem read_answers_retained_suffix:
  assumes "create_log w d m q start (None :: 'st option) = Inr l"
    and "log_run env n tops l = Some l'"
  shows "read_log so l' since limit =
      limited (map_option (\<lambda>k. nat (max 0 k)) limit)
        (filter (\<lambda>e. cursor since < env_seq e)
           (drop (length (history l') - max_events l') (history l')))
    \<and> max_events l' = max_events l"
proof -
  have "log_inv l'" by (rule ring_runs.P_run [OF assms(2) log_inv_create [OF assms(1)]])
  moreover have "store l = None" using assms(1) by (auto simp: create_log_def split: sum.splits)
  then have "store l' = None \<and> max_events l' = max_events l"
    using memory_runs.P_run [OF assms(2), of "max_events l"] by simp
  ultimately show ?thesis by (simp add: read_memory retained_after_def)
qed

theorem read_answers_retained_suffix_witness:
  "\<exists>l'. log_run sample_env 20 sample_run (empty_log 3) = Some l'
    \<and> read_log no_store l' NegInf (Some 2) = take 2 (drop 1 (history l'))
    \<and> length (history l') = 4"
proof -
  have "(case log_run sample_env 20 sample_run (empty_log 3) of None \<Rightarrow> False
      | Some l' \<Rightarrow> map env_seq (history l') = [1, 2, 3, 4] \<and> max_events l' = 3)" by code_simp
  then obtain l' where r: "log_run sample_env 20 sample_run (empty_log 3) = Some l'"
    "map env_seq (history l') = [1, 2, 3, 4]" "max_events l' = 3"
    by (auto split: option.splits)
  then obtain a b c d where "history l' = [a, b, c, d]" by (auto simp: map_eq_Cons_conv)
  with r read_answers_retained_suffix [OF create_sample r(1), of no_store NegInf "Some 2"]
  show ?thesis by (auto simp: limited_def)
qed

section \<open>Delivery\<close>

text \<open>
  C2: A subscriber sees its replay, then every event, in order. Take any state between calls of a
  memory log (one without a durable store), subscribe from a cursor, and let any calls follow, with listeners
  that append from inside their own call as they like, but overflow callbacks that do not append. If the
  subscriber is still open at the end, its listener has been handed exactly the envelopes the log retained
  above the cursor when it subscribed, followed by every envelope appended since, each once and in the order
  of their numbers; and nothing is still queued for it. With an overflow callback that appends the order can
  be lost (\<open>overflow_append_reorders\<close>).
\<close>

theorem subscriber_sees_replay_then_live:
  assumes "create_log w d m q start (None :: 'st option) = Inr l0"
    and "overflow_closes env"
    and "log_run env n before l0 = Some l"
    and "subscribe env n since queue l = Inr (Some (l1, i))"
    and "log_run env n after l1 = Some l2" and "open_sub l2 i"
  shows "delivered_to l2 i =
      filter (\<lambda>e. cursor since < env_seq e)
        (drop (length (history l) - max_events l) (history l))
      @ drop (length (history l)) (history l2)
    \<and> backlog (subs l2 ! i) = []"
proof -
  have l0: "store l0 = None" using assms(1) by (auto simp: create_log_def split: sum.splits)
  have q: "quiet l" using quiet_create [OF assms(1)] run_keeps_up [OF assms(2) _ assms(3)] by blast
  from subscribe_keeps_up [OF assms(2) q assms(4)] obtain xs where
    sub: "quiet l1" "keeps_up l l1 xs" "i < length (subs l1)"
      "open_sub l1 i \<longrightarrow> delivered_to l1 i = read_log (ops env) l since None @ xs" by blast
  from run_keeps_up [OF assms(2) sub(1) assms(5)] obtain ys where
    live: "quiet l2" "keeps_up l1 l2 ys" by blast
  have "store l = None" using memory_runs.P_run [OF assms(3), of "max_events l0"] l0 by simp
  then have "read_log (ops env) l since None = retained_after l (cursor since)"
    using q by (simp add: read_memory quiet_def limited_def)
  moreover have "history l2 = history l @ xs @ ys" using sub(2) live(2) by (simp add: keeps_up_def)
  moreover have "open_sub l1 i \<and> delivered_to l2 i = delivered_to l1 i @ ys"
    using live(2) sub(3) assms(6) by (simp add: keeps_up_def)
  moreover have "backlog (subs l2 ! i) = []" using live(1) assms(6) by (simp add: quiet_def)
  ultimately show ?thesis using sub(4) by (simp add: retained_after_def)
qed

lemma sample_env_closes: "overflow_closes sample_env"
  by (simp add: overflow_closes_def sample_env_def only_closes_def)

theorem subscriber_sees_replay_then_live_witness:
  "\<exists>l l1 l2. log_run sample_env 20 sample_run (empty_log 3) = Some l
    \<and> subscribe sample_env 20 (Fin 2) None l = Inr (Some (l1, 2))
    \<and> log_run sample_env 20 [(6, DoAppend (plain_input ''a''))] l1 = Some l2
    \<and> open_sub l2 2
    \<and> delivered_to l2 2 = filter (\<lambda>e. cursor (Fin 2) < env_seq e)
        (drop (length (history l) - max_events l) (history l)) @ drop (length (history l)) (history l2)
    \<and> map env_seq (delivered_to l2 2) = [3, 4, 5, 6]"
proof -
  have "(case log_run sample_env 20 sample_run (empty_log 3) of None \<Rightarrow> False
      | Some l \<Rightarrow> (case subscribe sample_env 20 (Fin 2) None l of Inl _ \<Rightarrow> False | Inr None \<Rightarrow> False
      | Inr (Some (l1, i)) \<Rightarrow> i = 2 \<and>
         (case log_run sample_env 20 [(6, DoAppend (plain_input ''a''))] l1 of None \<Rightarrow> False
          | Some l2 \<Rightarrow> open_sub l2 2 \<and> map env_seq (delivered_to l2 2) = [3, 4, 5, 6])))"
    unfolding open_sub_def by code_simp
  then obtain l l1 l2 where r: "log_run sample_env 20 sample_run (empty_log 3) = Some l"
    "subscribe sample_env 20 (Fin 2) None l = Inr (Some (l1, 2))"
    "log_run sample_env 20 [(6, DoAppend (plain_input ''a''))] l1 = Some l2" "open_sub l2 2"
    "map env_seq (delivered_to l2 2) = [3, 4, 5, 6]"
    by (auto split: option.splits sum.splits)
  note seen = subscriber_sees_replay_then_live
    [OF create_sample sample_env_closes r(1-4), THEN conjunct1]
  show ?thesis
    by (rule exI [of _ l], rule exI [of _ l1], rule exI [of _ l2]) (intro conjI r seen)
qed

text \<open>
  C37: An append returns when no callback appends. Whatever subscribers there are and however
  much is queued for them, as long as listeners and overflow callbacks at most close
  subscriptions, there is a call depth within which \<open>append\<close> returns, with the envelope it built;
  the announcement of a failed durable write included.
\<close>

theorem append_returns:
  assumes "create_log w d m q start st = Inr l0" and "log_run env n before l0 = Some l"
    and "mute env"
  shows "\<exists>k l'. append (env\<lparr>now := t\<rparr>) k inp l
      = Some (l', snd (record_event (env\<lparr>now := t\<rparr>) inp l))
    \<and> env_seq (snd (record_event (env\<lparr>now := t\<rparr>) inp l)) = head l + 1"
proof -
  have m: "mute (env\<lparr>now := t\<rparr>)" using assms(3) by (simp add: mute_def overflow_closes_def)
  have "overflow_closes env" using assms(3) by (simp add: mute_def)
  then have "quiet l" using quiet_create [OF assms(1)] run_keeps_up [OF _ _ assms(2)] by blast
  then have "shape_ok l" by (simp add: quiet_def subs_ok_shape)
  from append_fun_returns [OF m this, of inp] show ?thesis
    by (auto simp: returns_def append_def)
qed

definition quiet_env :: "unit log_env" where
  "quiet_env = sample_env\<lparr>listener := \<lambda>l i e. []\<rparr>"

theorem append_returns_witness:
  "\<exists>k l l'. log_run quiet_env 20 sample_run (empty_log 3) = Some l
    \<and> append (quiet_env\<lparr>now := 9\<rparr>) k (plain_input ''z'') l
        = Some (l', snd (record_event (quiet_env\<lparr>now := 9\<rparr>) (plain_input ''z'') l))"
proof -
  have "log_run quiet_env 20 sample_run (empty_log 3) \<noteq> None" by code_simp
  then obtain l where l: "log_run quiet_env 20 sample_run (empty_log 3) = Some l" by blast
  have "mute quiet_env"
    by (simp add: mute_def overflow_closes_def quiet_env_def sample_env_def only_closes_def)
  from append_returns [OF create_sample l this, of 9 "plain_input ''z''"] l show ?thesis by blast
qed

section \<open>An overflow callback that appends\<close>

text \<open>
  Subscriber 0 has a queue of one and a listener that appends twice when handed ''a''; its overflow
  callback appends a notice. Subscriber 1 only watches.
\<close>

definition noisy_env :: "unit log_env" where
  "noisy_env = \<lparr>ops = no_store, now = 1000,
     listener = \<lambda>l i e. if i = 0 \<and> input_of e = ''a''
                      then [CallAppend (plain_input ''b''), CallAppend (plain_input ''c'')] else [],
     on_overflow = \<lambda>l i q. [CallAppend (plain_input ''overflowed'')]\<rparr>"

definition noisy_run :: "(ms \<times> log_op) list" where
  "noisy_run = [(1, DoSubscribe (Fin 0) (Some (Fin 1))), (2, DoSubscribe (Fin 0) None),
                (3, DoAppend (plain_input ''a''))]"

text \<open>
  The order guarantee needs the overflow callback not to append. The comments of \<open>fanOut\<close>
  and \<open>drain\<close> promise every subscriber the events in order; in this run an append made from
  inside an overflow callback, while the fan-out that overflowed is still queueing, reaches a
  later subscriber before the event that overflowed: the watcher is handed 1, 2, 4, 3.
\<close>

theorem overflow_append_reorders:
  "case log_run noisy_env 30 noisy_run (empty_log 10) of
     None \<Rightarrow> False
   | Some l \<Rightarrow> map env_seq (history l) = [1, 2, 3, 4]
       \<and> map env_seq (delivered_to l 1) = [1, 2, 4, 3] \<and> \<not> sub_closed (subs l ! 1)"
  by code_simp

text \<open>
  A log of three envelopes, and a late subscriber with a queue of one whose listener appends when
  it is handed the first envelope of the replay.
\<close>

definition eager_env :: "unit log_env" where
  "eager_env = sample_env\<lparr>listener :=
     \<lambda>l i e. if env_seq e = 1 then [CallAppend (plain_input ''z'')] else []\<rparr>"

definition eager_run :: "(ms \<times> log_op) list" where
  "eager_run = [(1, DoAppend (plain_input ''a'')), (2, DoAppend (plain_input ''b'')),
                (3, DoAppend (plain_input ''c'')), (4, DoSubscribe (Fin 0) (Some (Fin 1)))]"

text \<open>
  A replay does count against the queue. The comment of \<open>overflow\<close> says a replay never
  counts, being the log's own retained history; but an append made while the replay drains is
  compared with the queue size together with the part of the replay still to come, so this
  subscriber is closed as a slow consumer after the first of four envelopes.
\<close>

theorem replay_overflows_queue:
  "case log_run eager_env 30 eager_run (empty_log 10) of
     None \<Rightarrow> False
   | Some l \<Rightarrow> map env_seq (delivered_to l 0) = [1] \<and> overflows l = [(0, 1)]
       \<and> sub_closed (subs l ! 0) \<and> head l = 4"
  by code_simp

end
