(* ===== verification/Glob.thy ===== *)
theory Glob
  imports Prelude "HOL-Library.Sublist"
begin

text \<open>
  Path globs: \<open>packages/core/src/policy/glob.ts\<close>. The translation to a regular expression is
  modelled as the list of regex tokens it emits; \<open>render\<close> gives each token's source text, so
  \<open>to_reg_exp_source\<close> is the string the code builds, and \<open>glob_match\<close> is what JavaScript's
  \<open>RegExp.test\<close> answers for an anchored sequence of those tokens, without the \<open>s\<close>, \<open>m\<close> and
  \<open>u\<close> flags: \<open>.\<close> stops at a line terminator, and under \<open>i\<close> characters are compared by their
  upper case. A string is a list of characters with codes below 256.
\<close>

section \<open>Policy errors\<close>

text \<open>
  What the policy code throws: a \<open>bad_request\<close> (named by the check that refused), the
  \<open>policy_exceeds_ceiling\<close> of \<open>Ceiling\<close> with its name and offenders, or the \<open>SyntaxError\<close>
  of \<open>new RegExp\<close> that nobody catches.
\<close>

datatype 'o policy_error = PBad string | PExceeds string "'o list" | PSyntax

section \<open>Separators\<close>

abbreviation slash :: char where "slash \<equiv> CHR ''/''"
abbreviation backslash :: char where "backslash \<equiv> CHR 0x5C"

definition normalize_separators :: "string \<Rightarrow> string" where
  "normalize_separators p =
     (let s = map (\<lambda>c. if c = backslash then slash else c) p
      in if length s > 1 \<and> last s = slash then butlast s else s)"

definition ascii_letter :: "char \<Rightarrow> bool" where
  "ascii_letter c \<longleftrightarrow> (let n = of_char c :: nat in 65 \<le> n \<and> n \<le> 90 \<or> 97 \<le> n \<and> n \<le> 122)"

fun is_absolute_pattern :: "string \<Rightarrow> bool" where
  "is_absolute_pattern [] = False"
| "is_absolute_pattern (c # cs) =
     (c = slash \<or> ascii_letter c \<and> take 2 cs = [CHR '':'', slash])"

section \<open>Translation\<close>

datatype tok =
    Lit char
  | Segs        \<comment> \<open>\<open>(?:[^/]+/)*\<close>\<close>
  | Tail        \<comment> \<open>\<open>(?:/.*)?\<close>\<close>
  | AnyText     \<comment> \<open>\<open>.*\<close>\<close>
  | Star        \<comment> \<open>\<open>[^/]*\<close>\<close>
  | One         \<comment> \<open>\<open>[^/]\<close>\<close>
  | Cls string  \<comment> \<open>a class, its body as written in the glob\<close>

text \<open>
  The loop of \<open>toRegExpSource\<close>: the character before the position, the output so far, and the
  rest of the pattern.
\<close>

function to_tokens :: "char option \<Rightarrow> tok list \<Rightarrow> string \<Rightarrow> tok list" where
  "to_tokens prev out [] = out"
| "to_tokens prev out (ch # rest) =
     (if ch = CHR ''*'' then
        (case rest of
           c2 # rest2 \<Rightarrow>
             (if c2 = CHR ''*'' then
                (let at_segment_start = (prev = None \<or> prev = Some slash) in
                 case rest2 of
                   c3 # rest3 \<Rightarrow>
                     (if at_segment_start \<and> c3 = slash
                      then to_tokens (Some slash) (out @ [Segs]) rest3
                      else to_tokens (Some (CHR ''*'')) (out @ [AnyText]) rest2)
                 | [] \<Rightarrow>
                     (if at_segment_start \<and> out \<noteq> [] \<and> last out = Lit slash
                      then butlast out @ [Tail]
                      else out @ [AnyText]))
              else to_tokens (Some (CHR ''*'')) (out @ [Star]) rest)
         | [] \<Rightarrow> out @ [Star])
      else if ch = CHR ''?'' then to_tokens (Some ch) (out @ [One]) rest
      else if ch = CHR ''['' then
        (if CHR '']'' \<in> set rest
         then to_tokens (Some (CHR '']'')) (out @ [Cls (takeWhile (\<lambda>c. c \<noteq> CHR '']'') rest)])
                (tl (dropWhile (\<lambda>c. c \<noteq> CHR '']'') rest))
         else to_tokens (Some ch) (out @ [Lit (CHR ''['')]) rest)
      else to_tokens (Some ch) (out @ [Lit ch]) rest)"
  by pat_completeness auto
termination
  by (relation "measure (\<lambda>(prev, out, p). length p)")
     (auto intro: le_less_trans [OF diff_le_self] le_less_trans [OF length_dropWhile_le])

declare to_tokens.simps(2) [simp del]

text \<open>\<open>REGEX_SPECIAL\<close>, and the \<open>[\<close> the code escapes on its own.\<close>

definition regex_special :: "char \<Rightarrow> bool" where
  "regex_special c \<longleftrightarrow> c \<in> set ''.+^$(){}|['' \<or> c = backslash"

fun render :: "tok \<Rightarrow> string" where
  "render (Lit c) = (if regex_special c then [backslash, c] else [c])"
| "render Segs = ''(?:[^/]+/)*''"
| "render Tail = ''(?:/.*)?''"
| "render AnyText = ''.*''"
| "render Star = ''[^/]*''"
| "render One = ''[^/]''"
| "render (Cls body) =
     ''['' @ concat (map (\<lambda>c. if c = backslash then [c, c] else [c])
                       (case body of c # cs \<Rightarrow> (if c = CHR ''!'' then CHR ''^'' # cs else body)
                        | [] \<Rightarrow> [])) @ '']''"

definition to_reg_exp_source :: "string \<Rightarrow> string" where
  "to_reg_exp_source p = concat (map render (to_tokens None [] p))"

section \<open>What the regex matches\<close>

text \<open>JavaScript's \<open>Canonicalize\<close> under the \<open>i\<close> flag: the upper case of a letter.\<close>

definition upper_char :: "char \<Rightarrow> char" where
  "upper_char c = (let n = of_char c :: nat in
     if 97 \<le> n \<and> n \<le> 122 \<or> 224 \<le> n \<and> n \<le> 254 \<and> n \<noteq> 247 then char_of (n - 32) else c)"

definition same_char :: "bool \<Rightarrow> char \<Rightarrow> char \<Rightarrow> bool" where
  "same_char ci a b \<longleftrightarrow> (if ci then upper_char a = upper_char b else a = b)"

definition line_terminator :: "char \<Rightarrow> bool" where
  "line_terminator c \<longleftrightarrow> of_char c = (10::nat) \<or> of_char c = (13::nat)"

text \<open>The ranges of a class body; a single character is a range of one.\<close>

fun class_ranges :: "string \<Rightarrow> (char \<times> char) list" where
  "class_ranges [] = []"
| "class_ranges (a # d # b # rest) =
     (if d = CHR ''-'' then (a, b) # class_ranges rest else (a, a) # class_ranges (d # b # rest))"
| "class_ranges (a # rest) = (a, a) # class_ranges rest"

definition class_negated :: "string \<Rightarrow> bool" where
  "class_negated body \<longleftrightarrow> body \<noteq> [] \<and> (hd body = CHR ''!'' \<or> hd body = CHR ''^'')"

definition class_items :: "string \<Rightarrow> (char \<times> char) list" where
  "class_items body = class_ranges (if class_negated body then tl body else body)"

definition range_has :: "bool \<Rightarrow> char \<Rightarrow> char \<times> char \<Rightarrow> bool" where
  "range_has ci c r \<longleftrightarrow>
     list_ex (\<lambda>n. same_char ci (char_of n) c) [of_char (fst r) ..< Suc (of_char (snd r))]"

definition class_has :: "bool \<Rightarrow> string \<Rightarrow> char \<Rightarrow> bool" where
  "class_has ci body c \<longleftrightarrow> (class_negated body \<noteq> list_ex (range_has ci c) (class_items body))"

text \<open>A class with a range out of order is a \<open>SyntaxError\<close>.\<close>

definition class_ok :: "string \<Rightarrow> bool" where
  "class_ok body \<longleftrightarrow> list_all (\<lambda>(a, b). (of_char a :: nat) \<le> of_char b) (class_items body)"

fun tok_ok :: "tok \<Rightarrow> bool" where
  "tok_ok (Cls body) = class_ok body"
| "tok_ok _ = True"

lemma dropWhile_shorter: "dropWhile P s = y # ys \<Longrightarrow> length ys < length s"
  using length_dropWhile_le [of P s] by simp

text \<open>Whether \<open>^\<dots>$\<close> over these tokens matches the whole string.\<close>

function glob_match :: "bool \<Rightarrow> tok list \<Rightarrow> string \<Rightarrow> bool" where
  "glob_match ci [] s = (s = [])"
| "glob_match ci (Lit c # ts) s =
     (case s of [] \<Rightarrow> False | x # xs \<Rightarrow> same_char ci c x \<and> glob_match ci ts xs)"
| "glob_match ci (One # ts) s =
     (case s of [] \<Rightarrow> False | x # xs \<Rightarrow> x \<noteq> slash \<and> glob_match ci ts xs)"
| "glob_match ci (Cls body # ts) s =
     (case s of [] \<Rightarrow> False | x # xs \<Rightarrow> class_has ci body x \<and> glob_match ci ts xs)"
| "glob_match ci (Star # ts) s =
     (glob_match ci ts s \<or>
      (case s of [] \<Rightarrow> False | x # xs \<Rightarrow> x \<noteq> slash \<and> glob_match ci (Star # ts) xs))"
| "glob_match ci (AnyText # ts) s =
     (glob_match ci ts s \<or>
      (case s of [] \<Rightarrow> False | x # xs \<Rightarrow> \<not> line_terminator x \<and> glob_match ci (AnyText # ts) xs))"
| "glob_match ci (Tail # ts) s =
     (glob_match ci ts s \<or>
      (case s of [] \<Rightarrow> False | x # xs \<Rightarrow> x = slash \<and> glob_match ci (AnyText # ts) xs))"
| "glob_match ci (Segs # ts) s =
     (glob_match ci ts s \<or>
      (case dropWhile (\<lambda>c. c \<noteq> slash) s of
         [] \<Rightarrow> False
       | _ # rest \<Rightarrow> hd s \<noteq> slash \<and> glob_match ci (Segs # ts) rest))"
  by pat_completeness auto
termination
  by (relation "measure (\<lambda>(ci, ts, s). length ts + length s)") (auto dest: dropWhile_shorter)

declare glob_match.simps(5-8) [simp del]

section \<open>The module's functions\<close>

definition max_pattern :: nat where
  "max_pattern = 512"

text \<open>A compiled glob is its tokens and the case flag.\<close>

definition compile_glob :: "string \<Rightarrow> bool \<Rightarrow> 'o policy_error + (tok list \<times> bool)" where
  "compile_glob pattern ci =
     (if pattern = [] then Inl (PBad ''empty glob'')
      else if length pattern > max_pattern then Inl (PBad ''long glob'')
      else
        (let n = normalize_separators pattern in
         if \<not> is_absolute_pattern n then Inl (PBad ''relative glob'')
         else
           (let ts = to_tokens None [] n in
            if list_all tok_ok ts then Inr (ts, ci) else Inl PSyntax)))"

definition glob_test :: "tok list \<times> bool \<Rightarrow> string \<Rightarrow> bool" where
  "glob_test g path = glob_match (snd g) (fst g) (normalize_separators path)"

definition wildcard :: "char \<Rightarrow> bool" where
  "wildcard c \<longleftrightarrow> c = CHR ''*'' \<or> c = CHR ''?'' \<or> c = CHR ''[''"

definition glob_head :: "string \<Rightarrow> string" where
  "glob_head pattern = takeWhile (\<lambda>c. \<not> wildcard c) (normalize_separators pattern)"

definition within_root :: "string \<Rightarrow> string \<Rightarrow> bool" where
  "within_root path dir =
     (let h = normalize_separators path; r = normalize_separators dir
      in r = [] \<or> h = r \<or> prefix (r @ [slash]) h)"


end
