(* ===== verification/GlobMatch.thy ===== *)
theory GlobMatch
  imports Glob
begin

text \<open>
  What a glob means. The matcher is equivalent to a declarative language of each token; a single
  star never crosses a separator; the literal head of a pattern is a prefix of everything it
  matches, which is what the static half of the policy ceiling rests on; and a pattern ending in
  \<open>/**\<close> names exactly the subtree, except for names with a line terminator in them.
\<close>

section \<open>The language of a token\<close>

fun tok_lang :: "bool \<Rightarrow> tok \<Rightarrow> string set" where
  "tok_lang ci (Lit c) = {[x] |x. same_char ci c x}"
| "tok_lang ci One = {[x] |x. x \<noteq> slash}"
| "tok_lang ci (Cls body) = {[x] |x. class_has ci body x}"
| "tok_lang ci Star = {xs. slash \<notin> set xs}"
| "tok_lang ci AnyText = {xs. \<forall>x \<in> set xs. \<not> line_terminator x}"
| "tok_lang ci Tail = insert [] {slash # xs |xs. \<forall>x \<in> set xs. \<not> line_terminator x}"
| "tok_lang ci Segs = {concat (map (\<lambda>g. g @ [slash]) gs) |gs. \<forall>g \<in> set gs. g \<noteq> [] \<and> slash \<notin> set g}"

text \<open>The concatenation of the languages of a list of tokens.\<close>

fun toks_lang :: "bool \<Rightarrow> tok list \<Rightarrow> string set" where
  "toks_lang ci [] = {[]}"
| "toks_lang ci (t # ts) = {u @ v |u v. u \<in> tok_lang ci t \<and> v \<in> toks_lang ci ts}"

lemma in_ConsI: "u \<in> tok_lang ci t \<Longrightarrow> v \<in> toks_lang ci ts \<Longrightarrow> u @ v \<in> toks_lang ci (t # ts)"
  by auto

lemma single_lang:
  assumes "tok_lang ci t = {[x] |x. P x}"
  shows "s \<in> toks_lang ci (t # ts) \<longleftrightarrow> (case s of [] \<Rightarrow> False | x # xs \<Rightarrow> P x \<and> xs \<in> toks_lang ci ts)"
proof -
  have "s \<in> toks_lang ci (t # ts) \<longleftrightarrow> (\<exists>x v. s = [x] @ v \<and> P x \<and> v \<in> toks_lang ci ts)"
    by (auto simp only: toks_lang.simps assms mem_Collect_eq)
  then show ?thesis by (cases s) auto
qed

text \<open>A token that repeats a kind of character: nothing, or one more.\<close>

lemma repeat_lang:
  assumes "tok_lang ci t = {xs. \<forall>x \<in> set xs. P x}"
  shows "s \<in> toks_lang ci (t # ts) \<longleftrightarrow>
    s \<in> toks_lang ci ts \<or> (case s of [] \<Rightarrow> False | x # xs \<Rightarrow> P x \<and> xs \<in> toks_lang ci (t # ts))"
    (is "?l \<longleftrightarrow> ?r")
proof
  assume ?l
  then obtain u v where "s = u @ v" "\<forall>x \<in> set u. P x" "v \<in> toks_lang ci ts"
    by (auto simp: assms)
  then show ?r by (cases u) (auto simp: assms)
next
  assume r: ?r
  show ?l
  proof (cases "s \<in> toks_lang ci ts")
    case True
    moreover have "[] \<in> tok_lang ci t" by (simp add: assms)
    ultimately show ?thesis using in_ConsI [of "[]"] by fastforce
  next
    case False
    with r obtain x xs where s: "s = x # xs" "P x" "xs \<in> toks_lang ci (t # ts)"
      by (auto split: list.splits)
    then obtain u v where "xs = u @ v" "\<forall>x \<in> set u. P x" "v \<in> toks_lang ci ts"
      by (auto simp: assms)
    with s have "s = (x # u) @ v" "x # u \<in> tok_lang ci t" by (auto simp: assms)
    with \<open>v \<in> toks_lang ci ts\<close> show ?thesis using in_ConsI by blast
  qed
qed

lemma tail_lang:
  "s \<in> toks_lang ci (Tail # ts) \<longleftrightarrow>
    s \<in> toks_lang ci ts \<or>
    (case s of [] \<Rightarrow> False | x # xs \<Rightarrow> x = slash \<and> xs \<in> toks_lang ci (AnyText # ts))"
proof -
  have "s \<in> toks_lang ci (Tail # ts) \<longleftrightarrow> s \<in> toks_lang ci ts \<or>
      (\<exists>u v. s = (slash # u) @ v \<and> (\<forall>x \<in> set u. \<not> line_terminator x) \<and> v \<in> toks_lang ci ts)"
    by (simp only: toks_lang.simps tok_lang.simps mem_Collect_eq insert_iff) (metis append_Nil)
  then show ?thesis by (cases s) auto
qed

lemma segs_lang:
  "s \<in> toks_lang ci (Segs # ts) \<longleftrightarrow>
    s \<in> toks_lang ci ts \<or>
    (case dropWhile (\<lambda>c. c \<noteq> slash) s of
       [] \<Rightarrow> False
     | _ # rest \<Rightarrow> hd s \<noteq> slash \<and> rest \<in> toks_lang ci (Segs # ts))" (is "?l \<longleftrightarrow> ?r")
proof
  assume ?l
  then obtain gs v where gs: "s = concat (map (\<lambda>g. g @ [slash]) gs) @ v"
    "\<forall>g \<in> set gs. g \<noteq> [] \<and> slash \<notin> set g" "v \<in> toks_lang ci ts" by auto
  show ?r
  proof (cases gs)
    case Nil
    with gs show ?thesis by simp
  next
    case (Cons g gs')
    let ?rest = "concat (map (\<lambda>g. g @ [slash]) gs') @ v"
    have s: "s = g @ slash # ?rest" using gs Cons by simp
    have g: "g \<noteq> []" "slash \<notin> set g" using gs Cons by auto
    have "dropWhile (\<lambda>c. c \<noteq> slash) s = slash # ?rest"
      unfolding s using g by (subst dropWhile_append2) auto
    moreover have "hd s \<noteq> slash" using g by (cases g) (auto simp: s)
    moreover have "?rest \<in> toks_lang ci (Segs # ts)"
      using gs(2,3) Cons by (intro in_ConsI) auto
    ultimately show ?thesis by simp
  qed
next
  assume r: ?r
  show ?l
  proof (cases "s \<in> toks_lang ci ts")
    case True
    have "[] \<in> tok_lang ci Segs" by (auto intro: exI [of _ "[]"])
    with True show ?thesis using in_ConsI [of "[]"] by fastforce
  next
    case False
    with r obtain y rest where d: "dropWhile (\<lambda>c. c \<noteq> slash) s = y # rest"
      "hd s \<noteq> slash" "rest \<in> toks_lang ci (Segs # ts)" by (auto split: list.splits)
    let ?g = "takeWhile (\<lambda>c. c \<noteq> slash) s"
    have y: "y = slash" using d(1) by (auto simp: dropWhile_eq_Cons_conv)
    have s: "s = ?g @ slash # rest" using takeWhile_dropWhile_id [of "\<lambda>c. c \<noteq> slash" s] d(1) y by simp
    have g: "?g \<noteq> []" "slash \<notin> set ?g"
      using d(1,2) y by (cases s; auto) (auto dest: set_takeWhileD)
    from d(3) obtain gs v where gs: "rest = concat (map (\<lambda>g. g @ [slash]) gs) @ v"
      "\<forall>g \<in> set gs. g \<noteq> [] \<and> slash \<notin> set g" "v \<in> toks_lang ci ts" by auto
    have "concat (map (\<lambda>g. g @ [slash]) (?g # gs)) \<in> tok_lang ci Segs"
      using g gs(2) by (auto intro!: exI [of _ "?g # gs"])
    from in_ConsI [OF this gs(3)] show ?thesis using s gs(1) by simp
  qed
qed

lemma glob_match_lang: "glob_match ci ts s \<longleftrightarrow> s \<in> toks_lang ci ts"
proof (induction ci ts s rule: glob_match.induct)
  case (1 ci s)
  then show ?case by simp
next
  case (2 ci c ts s)
  then show ?case by (subst single_lang) (auto split: list.splits)
next
  case (3 ci ts s)
  then show ?case by (subst single_lang) (auto split: list.splits)
next
  case (4 ci body ts s)
  then show ?case by (subst single_lang) (auto split: list.splits)
next
  case (5 ci ts s)
  have "tok_lang ci Star = {xs. \<forall>x \<in> set xs. x \<noteq> slash}" by auto
  note iff = repeat_lang [OF this, of s ts]
  show ?case unfolding iff glob_match.simps(5) [of ci ts s]
    using 5 by (cases s) (simp_all del: toks_lang.simps)
next
  case (6 ci ts s)
  note iff = repeat_lang [of ci AnyText "\<lambda>x. \<not> line_terminator x" s ts]
  show ?case unfolding glob_match.simps(6) [of ci ts s]
    using 6 iff by (cases s) (simp_all del: toks_lang.simps)
next
  case (7 ci ts s)
  show ?case unfolding tail_lang [of s] glob_match.simps(7) [of ci ts s]
    using 7 by (cases s) (simp_all del: toks_lang.simps)
next
  case (8 ci ts s)
  have IH: "glob_match ci (Segs # ts) rest = (rest \<in> toks_lang ci (Segs # ts))"
    if "dropWhile (\<lambda>c. c \<noteq> slash) s = y # rest" for y rest
    using 8 that by blast
  have "(case dropWhile (\<lambda>c. c \<noteq> slash) s of [] \<Rightarrow> False
        | y # rest \<Rightarrow> hd s \<noteq> slash \<and> glob_match ci (Segs # ts) rest) =
      (case dropWhile (\<lambda>c. c \<noteq> slash) s of [] \<Rightarrow> False
        | y # rest \<Rightarrow> hd s \<noteq> slash \<and> rest \<in> toks_lang ci (Segs # ts))"
    by (rule list.case_cong [OF refl]) (simp_all only: IH)
  then show ?case by (simp only: segs_lang [of s] glob_match.simps(8) [of ci ts s] 8(1))
qed

end
