(* ===== verification/GlobProps.thy ===== *)
theory GlobProps
  imports GlobMatch
begin

text \<open>
  The properties of the glob module: the translation and the matcher against the language a pattern is
  documented to have, the literal head, the subtree pattern, and the names a subtree pattern misses.
\<close>

section \<open>The literal head\<close>

lemma to_tokens_literals:
  assumes "\<forall>c \<in> set h. \<not> wildcard c"
  shows "to_tokens prev out (h @ r) =
    to_tokens (if h = [] then prev else Some (last h)) (out @ map Lit h) r"
  using assms by (induction h arbitrary: prev out) (auto simp: wildcard_def to_tokens.simps(2))

text \<open>What has been put out stays, except that a trailing \<open>/**\<close> takes back one slash.\<close>

definition keeps :: "tok list \<Rightarrow> tok list \<Rightarrow> bool" where
  "keeps out r \<longleftrightarrow> (\<exists>ts. r = out @ ts) \<or>
     (out \<noteq> [] \<and> last out = Lit slash \<and> r = butlast out @ [Tail])"

lemma keeps_snoc: "keeps (out @ [t]) r \<Longrightarrow> keeps out r"
  by (auto simp: keeps_def)

lemma keeps_one: "keeps out (out @ [t])"
  by (simp add: keeps_def)

lemma keeps_nil: "keeps [] r"
  by (simp add: keeps_def)

lemma keeps_self: "keeps out out"
  by (simp add: keeps_def)

lemma keeps_tail: "out \<noteq> [] \<Longrightarrow> last out = Lit slash \<Longrightarrow> keeps out (butlast out @ [Tail])"
  by (simp add: keeps_def)

lemma to_tokens_keeps: "keeps out (to_tokens prev out p)"
proof (induction "length p" arbitrary: p prev out rule: less_induct)
  case less
  have step: "keeps out (to_tokens q out' r)" if "out' = out @ [t]" "length r < length p"
    for q out' t r
    unfolding that(1) by (rule keeps_snoc [OF less [OF that(2)]])
  show ?case
  proof (cases p)
    case Nil
    then show ?thesis by (simp add: keeps_self)
  next
    case (Cons ch rest)
    have tl: "length (tl (dropWhile P rest)) < Suc (length rest)" for P
      using length_dropWhile_le [of P rest] by simp
    note here = to_tokens.simps(2) [of prev out ch rest, folded Cons]
    show ?thesis
    proof (cases "ch = CHR ''*''")
      case False
      then show ?thesis unfolding here using Cons tl by (auto intro: step [OF refl])
    next
      case star: True
      show ?thesis
      proof (cases rest)
        case Nil
        then show ?thesis unfolding here by (simp add: star keeps_one)
      next
        case rest: (Cons c2 rest2)
        show ?thesis
        proof (cases "c2 = CHR ''*''")
          case False
          then show ?thesis unfolding here
            using Cons rest by (auto simp: star intro: step [OF refl])
        next
          case True
          then show ?thesis unfolding here
            using Cons rest
            by (cases rest2) (auto simp: star Let_def intro: step [OF refl] keeps_one keeps_tail keeps_nil)
        qed
      qed
    qed
  qed
qed

lemma literal_prefix:
  "glob_match False (map Lit h @ ts) s \<Longrightarrow> prefix h s"
proof (induction h arbitrary: s)
  case (Cons c h)
  then show ?case by (cases s) (auto simp: same_char_def)
qed simp

lemma same_char_exact [simp]: "same_char False a b = (a = b)"
  by (simp add: same_char_def)

text \<open>
  Everything a pattern matches begins with its literal head, or is the head less its last slash.
\<close>

lemma tokens_of_head:
  fixes p :: string
  defines "h \<equiv> takeWhile (\<lambda>c. \<not> wildcard c) p"
  shows "keeps (map Lit h) (to_tokens None [] p)"
proof -
  let ?r = "dropWhile (\<lambda>c. \<not> wildcard c) p"
  have "\<forall>c \<in> set h. \<not> wildcard c" by (auto simp: h_def dest: set_takeWhileD)
  from to_tokens_literals [OF this, of None "[]" ?r]
  have "to_tokens None [] (h @ ?r) = to_tokens (if h = [] then None else Some (last h)) (map Lit h) ?r"
    by simp
  moreover have "h @ ?r = p" by (simp add: h_def)
  ultimately show ?thesis using to_tokens_keeps by metis
qed

lemma match_head:
  assumes "glob_match False (to_tokens None [] p) s"
  shows "prefix (takeWhile (\<lambda>c. \<not> wildcard c) p) s \<or>
         s @ [slash] = takeWhile (\<lambda>c. \<not> wildcard c) p"
    (is "prefix ?h s \<or> _")
proof -
  from tokens_of_head [of p] consider
    ts where "to_tokens None [] p = map Lit ?h @ ts"
  | "?h \<noteq> []" "last ?h = slash" "to_tokens None [] p = map Lit (butlast ?h) @ [Tail]"
    by (auto simp: keeps_def last_map map_butlast)
  then show ?thesis
  proof cases
    case 1
    with assms literal_prefix show ?thesis by metis
  next
    case 2
    have h: "?h = butlast ?h @ [slash]" using 2(1,2) by (metis append_butlast_last_id)
    from assms 2(3) have "glob_match False (map Lit (butlast ?h) @ [Tail]) s" by simp
    moreover have "glob_match False (map Lit g @ [Tail]) s \<Longrightarrow> s = g \<or> prefix (g @ [slash]) s"
      for g s
    proof (induction g arbitrary: s)
      case Nil
      then show ?case by (auto simp: glob_match.simps(7) split: list.splits)
    next
      case (Cons c g)
      then show ?case by (cases s) auto
    qed
    ultimately have "s = butlast ?h \<or> prefix ?h s" using h by metis
    then show ?thesis using h by metis
  qed
qed

section \<open>Subtree patterns\<close>

lemma normalize_clean:
  assumes "backslash \<notin> set p" "p = [] \<or> last p \<noteq> slash"
  shows "normalize_separators p = p"
proof -
  have "map (\<lambda>c. if c = backslash then slash else c) p = p"
    using assms(1) by (induction p) auto
  with assms(2) show ?thesis by (auto simp: normalize_separators_def)
qed

lemma subtree_tokens:
  assumes "\<forall>c \<in> set r. \<not> wildcard c"
  shows "to_tokens None [] (r @ ''/**'') = map Lit r @ [Tail]"
proof -
  have "\<forall>c \<in> set (r @ [slash]). \<not> wildcard c" using assms by (auto simp: wildcard_def)
  from to_tokens_literals [OF this, of None "[]" "''**''"]
  have "to_tokens None [] (r @ ''/**'') = to_tokens (Some slash) (map Lit (r @ [slash])) ''**''"
    by simp
  then show ?thesis by (simp add: to_tokens.simps(2) Let_def)
qed

lemma any_text_match:
  "glob_match ci [AnyText] s \<longleftrightarrow> (\<forall>c \<in> set s. \<not> line_terminator c)"
  by (subst glob_match_lang) auto

lemma subtree_match:
  "glob_match False (map Lit r @ [Tail]) s \<longleftrightarrow>
     s = r \<or> (\<exists>t. s = r @ slash # t \<and> (\<forall>c \<in> set t. \<not> line_terminator c))"
proof (induction r arbitrary: s)
  case Nil
  then show ?case by (cases s) (auto simp: glob_match.simps(7) any_text_match)
next
  case (Cons c r)
  then show ?case by (cases s) auto
qed

lemma absolute_append: "is_absolute_pattern r \<Longrightarrow> is_absolute_pattern (r @ u)"
  by (cases r; cases "tl r"; cases "tl (tl r)") auto

section \<open>What a pattern says\<close>

text \<open>
  The language of a glob, read off the pattern as its author wrote it and not off a translation.
  \<open>glob_says ci b p s\<close>: the pattern \<open>p\<close>, at the start of a segment when \<open>b\<close>, names the path \<open>s\<close>. A final
  \<open>/**\<close> is the directory itself and everything below it; \<open>**/\<close> at the start of a segment is any number of
  whole segments; any other \<open>**\<close> is any text without a line terminator; \<open>*\<close> is any text without a
  separator; \<open>?\<close> one character that is not one; \<open>[\<dots>]\<close> up to the first closing bracket is one character
  of the class; every other character, an unterminated \<open>[\<close> included, is itself.
\<close>

inductive glob_says :: "bool \<Rightarrow> bool \<Rightarrow> string \<Rightarrow> string \<Rightarrow> bool" for ci where
  says_end: "glob_says ci b [] []"
| says_directory: "glob_says ci b ''/**'' []"
| says_below: "\<forall>x\<in>set t. \<not> line_terminator x \<Longrightarrow> glob_says ci b ''/**'' (slash # t)"
| says_segments: "\<forall>g\<in>set gs. g \<noteq> [] \<and> slash \<notin> set g \<Longrightarrow> glob_says ci True p s \<Longrightarrow>
    glob_says ci True (CHR ''*'' # CHR ''*'' # slash # p) (concat (map (\<lambda>g. g @ [slash]) gs) @ s)"
| says_text: "\<not> (b \<and> take 1 p = [slash]) \<Longrightarrow> \<forall>x\<in>set t. \<not> line_terminator x \<Longrightarrow> glob_says ci False p s \<Longrightarrow>
    glob_says ci b (CHR ''*'' # CHR ''*'' # p) (t @ s)"
| says_star: "take 1 p \<noteq> ''*'' \<Longrightarrow> slash \<notin> set t \<Longrightarrow> glob_says ci False p s \<Longrightarrow>
    glob_says ci b (CHR ''*'' # p) (t @ s)"
| says_one: "x \<noteq> slash \<Longrightarrow> glob_says ci False p s \<Longrightarrow> glob_says ci b (CHR ''?'' # p) (x # s)"
| says_class: "CHR '']'' \<notin> set body \<Longrightarrow> class_has ci body x \<Longrightarrow> glob_says ci False p s \<Longrightarrow>
    glob_says ci b (CHR ''['' # body @ CHR '']'' # p) (x # s)"
| says_itself: "c \<noteq> CHR ''*'' \<Longrightarrow> c \<noteq> CHR ''?'' \<Longrightarrow> \<not> (c = CHR ''['' \<and> CHR '']'' \<in> set p) \<Longrightarrow>
    \<not> (c = slash \<and> p = ''**'') \<Longrightarrow> same_char ci c x \<Longrightarrow> glob_says ci (c = slash) p s \<Longrightarrow>
    glob_says ci b (c # p) (x # s)"

text \<open>One equation per shape of the pattern.\<close>

lemma says_end_iff: "glob_says ci b [] s \<longleftrightarrow> s = []"
  by (subst glob_says.simps) auto

lemma says_tail_iff:
  "glob_says ci b ''/**'' s \<longleftrightarrow> s = [] \<or> (\<exists>t. s = slash # t \<and> (\<forall>x\<in>set t. \<not> line_terminator x))"
  by (subst glob_says.simps) auto

lemma says_segments_iff:
  "glob_says ci True (CHR ''*'' # CHR ''*'' # slash # p) s \<longleftrightarrow>
    (\<exists>gs v. s = concat (map (\<lambda>g. g @ [slash]) gs) @ v \<and> (\<forall>g\<in>set gs. g \<noteq> [] \<and> slash \<notin> set g) \<and>
       glob_says ci True p v)"
  by (subst glob_says.simps) auto

lemma says_text_iff:
  "\<not> (b \<and> take 1 p = [slash]) \<Longrightarrow>
   glob_says ci b (CHR ''*'' # CHR ''*'' # p) s \<longleftrightarrow>
    (\<exists>t v. s = t @ v \<and> (\<forall>x\<in>set t. \<not> line_terminator x) \<and> glob_says ci False p v)"
  by (subst glob_says.simps) auto

lemma says_star_iff:
  "take 1 p \<noteq> ''*'' \<Longrightarrow>
   glob_says ci b (CHR ''*'' # p) s \<longleftrightarrow> (\<exists>t v. s = t @ v \<and> slash \<notin> set t \<and> glob_says ci False p v)"
  by (subst glob_says.simps) auto

lemma says_one_iff:
  "glob_says ci b (CHR ''?'' # p) s \<longleftrightarrow> (\<exists>x v. s = x # v \<and> x \<noteq> slash \<and> glob_says ci False p v)"
  by (subst glob_says.simps) auto

lemma same_split:
  "x \<notin> set us \<Longrightarrow> x \<notin> set vs \<Longrightarrow> us @ x # p = vs @ x # q \<longleftrightarrow> us = vs \<and> p = q"
  by (auto simp: append_eq_append_conv2 Cons_eq_append_conv append_eq_Cons_conv)

lemma says_class_iff:
  "CHR '']'' \<notin> set body \<Longrightarrow>
   glob_says ci b (CHR ''['' # body @ CHR '']'' # p) s \<longleftrightarrow>
     (\<exists>x v. s = x # v \<and> class_has ci body x \<and> glob_says ci False p v)"
  by (subst glob_says.simps) (auto simp: same_split)

lemma says_itself_iff:
  "c \<noteq> CHR ''*'' \<Longrightarrow> c \<noteq> CHR ''?'' \<Longrightarrow> \<not> (c = CHR ''['' \<and> CHR '']'' \<in> set p) \<Longrightarrow>
    \<not> (c = slash \<and> p = ''**'') \<Longrightarrow>
   glob_says ci b (c # p) s \<longleftrightarrow> (\<exists>x v. s = x # v \<and> same_char ci c x \<and> glob_says ci (c = slash) p v)"
  by (subst glob_says.simps) auto

section \<open>The translation, one token at a time\<close>

abbreviation seg_start :: "char option \<Rightarrow> bool" where
  "seg_start q \<equiv> q = None \<or> q = Some slash"

lemma to_tokens_after:
  "acc \<noteq> [] \<Longrightarrow> to_tokens q (out @ acc) r = out @ to_tokens q acc r"
proof (induction "length r" arbitrary: q acc r rule: less_induct)
  case less
  have step: "to_tokens q' (out @ acc @ [t]) r' = out @ to_tokens q' (acc @ [t]) r'" if "length r' < length r" for q' t r'
    using less(1) [OF that, of "acc @ [t]"] by simp
  show ?case
  proof (cases r)
    case (Cons ch rest)
    have tl: "length (tl (dropWhile P rest)) < length r" for P
      using length_dropWhile_le [of P rest] Cons by simp
    note here = to_tokens.simps(2) [of _ _ ch rest, folded Cons]
    show ?thesis
      unfolding here using less.prems Cons tl
      by (auto simp: step butlast_append Let_def split: list.split)
  qed simp
qed

lemma to_tokens_first:
  assumes "\<not> (t = Lit slash \<and> seg_start q \<and> r = ''**'')"
  shows "to_tokens q [t] r = t # to_tokens q [] r"
proof (cases r)
  case (Cons ch rest)
  have step: "to_tokens q' [a, u] r' = a # to_tokens q' [u] r'" for q' a u r'
    using to_tokens_after [of "[u]" q' "[a]" r'] by simp
  show ?thesis
    unfolding Cons to_tokens.simps(2) [of _ _ ch rest] using assms Cons
    by (auto simp: step Let_def split: list.split)
qed simp


text \<open>The token of each shape, and what follows it.\<close>

lemma tokens_tail: "to_tokens q [] ''/**'' = [Tail]"
  by (simp add: to_tokens.simps(2) Let_def)

lemma tokens_segments:
  "seg_start q \<Longrightarrow>
   to_tokens q [] (CHR ''*'' # CHR ''*'' # slash # p) = Segs # to_tokens (Some slash) [] p"
  by (simp add: to_tokens.simps(2) [of q] to_tokens_first Let_def)

lemma tokens_text:
  "\<not> (seg_start q \<and> take 1 p = [slash]) \<Longrightarrow>
   to_tokens q [] (CHR ''*'' # CHR ''*'' # p) = AnyText # to_tokens (Some (CHR ''*'')) [] p"
  by (auto simp: to_tokens.simps(2) [of q] to_tokens_first Let_def split: list.split)

lemma tokens_star:
  "take 1 p \<noteq> ''*'' \<Longrightarrow>
   to_tokens q [] (CHR ''*'' # p) = Star # to_tokens (Some (CHR ''*'')) [] p"
  by (auto simp: to_tokens.simps(2) [of q] to_tokens_first split: list.split)

lemma tokens_one: "to_tokens q [] (CHR ''?'' # p) = One # to_tokens (Some (CHR ''?'')) [] p"
  by (simp add: to_tokens.simps(2) [of q] to_tokens_first)

lemma tokens_class:
  "CHR '']'' \<notin> set body \<Longrightarrow>
   to_tokens q [] (CHR ''['' # body @ CHR '']'' # p) = Cls body # to_tokens (Some (CHR '']'')) [] p"
proof -
  assume body: "CHR '']'' \<notin> set body"
  then have "takeWhile (\<lambda>c. c \<noteq> CHR '']'') (body @ CHR '']'' # p) = body"
    "dropWhile (\<lambda>c. c \<noteq> CHR '']'') (body @ CHR '']'' # p) = CHR '']'' # p"
    by (subst takeWhile_append2 dropWhile_append2; auto)+
  then show ?thesis by (simp add: to_tokens.simps(2) [of q] to_tokens_first)
qed

lemma tokens_itself:
  "c \<noteq> CHR ''*'' \<Longrightarrow> c \<noteq> CHR ''?'' \<Longrightarrow> \<not> (c = CHR ''['' \<and> CHR '']'' \<in> set p) \<Longrightarrow>
    \<not> (c = slash \<and> p = ''**'') \<Longrightarrow>
   to_tokens q [] (c # p) = Lit c # to_tokens (Some c) [] p"
  by (auto simp: to_tokens.simps(2) [of q] to_tokens_first)

text \<open>Every pattern has one of these shapes.\<close>

lemma pattern_shapes:
  obtains (Done) "p = []"
  | (Tail) "p = ''/**''"
  | (Segments) r where "b" "p = CHR ''*'' # CHR ''*'' # slash # r"
  | (Text) r where "\<not> (b \<and> take 1 r = [slash])" "p = CHR ''*'' # CHR ''*'' # r"
  | (Star) r where "take 1 r \<noteq> ''*''" "p = CHR ''*'' # r"
  | (One) r where "p = CHR ''?'' # r"
  | (Class) body r where "CHR '']'' \<notin> set body" "p = CHR ''['' # body @ CHR '']'' # r"
  | (Itself) c r where "c \<noteq> CHR ''*''" "c \<noteq> CHR ''?''" "\<not> (c = CHR ''['' \<and> CHR '']'' \<in> set r)"
      "\<not> (c = slash \<and> r = ''**'')" "p = c # r"
proof (cases p)
  case (Cons c r)
  show ?thesis
  proof (cases "c = CHR ''*''")
    case True
    show ?thesis
    proof (cases "take 1 r = ''*''")
      case star: True
      then obtain r2 where "p = CHR ''*'' # CHR ''*'' # r2" using Cons True by (cases r) auto
      then show ?thesis using Segments [of "tl r2"] Text [of r2] by (cases r2) auto
    qed (use Star Cons True in auto)
  next
    case plain: False
    show ?thesis
    proof (cases "c = CHR ''['' \<and> CHR '']'' \<in> set r")
      case True
      then obtain body r2 where "r = body @ CHR '']'' # r2" "CHR '']'' \<notin> set body"
        by (meson split_list_first)
      with Class Cons True show ?thesis by auto
    qed (use plain One Tail Itself Cons in auto)
  qed
qed (rule Done)

lemma tokens_say:
  "glob_says ci (seg_start q) p s \<longleftrightarrow> s \<in> toks_lang ci (to_tokens q [] p)"
proof (induction "length p" arbitrary: q p s rule: less_induct)
  case less
  have IH: "glob_says ci b r v \<longleftrightarrow> v \<in> toks_lang ci (to_tokens q' [] r)"
    if "length r < length p" "b \<longleftrightarrow> seg_start q'" for b q' r v
    unfolding that(2) by (rule less [OF that(1)])
  show ?case
  proof (cases rule: pattern_shapes [where p = p and b = "seg_start q"])
    case Done
    then show ?thesis by (simp add: says_end_iff)
  next
    case Tail
    show ?thesis unfolding Tail says_tail_iff tokens_tail by auto
  next
    case (Segments r)
    show ?thesis
      using Segments(1) IH [of r True "Some slash"] Segments(2)
      unfolding Segments(2) by (auto simp: says_segments_iff tokens_segments)
  next
    case (Text r)
    show ?thesis
      using IH [of r False "Some (CHR ''*'')"] Text(2)
      unfolding Text(2) says_text_iff [OF Text(1)] tokens_text [OF Text(1)] by auto
  next
    case (Star r)
    show ?thesis
      using IH [of r False "Some (CHR ''*'')"] Star(2)
      unfolding Star(2) says_star_iff [OF Star(1)] tokens_star [OF Star(1)] by auto
  next
    case (One r)
    show ?thesis
      using IH [of r False "Some (CHR ''?'')"] One
      unfolding One says_one_iff tokens_one
        single_lang [OF tok_lang.simps(2)] by (cases s) simp_all
  next
    case (Class body r)
    show ?thesis
      using IH [of r False "Some (CHR '']'')"] Class(2)
      unfolding Class(2) says_class_iff [OF Class(1)] tokens_class [OF Class(1)]
        single_lang [OF tok_lang.simps(3)] by (cases s) simp_all
  next
    case (Itself c r)
    show ?thesis
      using IH [of r "c = slash" "Some c"] Itself(5)
      unfolding Itself(5) says_itself_iff [OF Itself(1-4)] tokens_itself [OF Itself(1-4)]
        single_lang [OF tok_lang.simps(1)] by (cases s) simp_all
  qed
qed

section \<open>Properties\<close>



text \<open>
  The static ceiling test is sound for patterns that reach below the root. If a
  case-sensitive pattern compiles and its literal head goes past a separator below the root, every
  path the pattern accepts is inside that root. (A head that ends inside a segment, like
  \<open>src*\<close>, is the case the runtime clamp exists for.)
\<close>

theorem head_below_root_is_contained:
  assumes "compile_glob pattern False = (Inr g :: 'o policy_error + _)"
    and "prefix (normalize_separators dir @ [slash]) (glob_head pattern)"
    and "glob_test g path"
  shows "within_root path dir"
proof -
  let ?n = "normalize_separators pattern" and ?s = "normalize_separators path"
  have "glob_match False (to_tokens None [] ?n) ?s"
    using assms(1,3) by (auto simp: compile_glob_def glob_test_def Let_def split: if_splits)
  from match_head [OF this] have "prefix (glob_head pattern) ?s \<or> ?s @ [slash] = glob_head pattern"
    by (simp add: glob_head_def)
  with assms(2) show ?thesis
    unfolding within_root_def Let_def
    by (metis prefix_order.trans prefix_snoc append1_eq_conv)
qed

theorem head_below_root_is_contained_witness:
  "within_root ''/repo/src/a/b.ts'' ''/repo/src/''"
proof -
  have g: "compile_glob ''/repo/src/**'' False =
      (Inr (map Lit ''/repo/src'' @ [Tail], False) :: unit policy_error + _)" by code_simp
  have "prefix (normalize_separators ''/repo/src/'' @ [slash]) (glob_head ''/repo/src/**'')"
    by code_simp
  moreover have "glob_test (map Lit ''/repo/src'' @ [Tail], False) ''/repo/src/a/b.ts''"
    by code_simp
  ultimately show ?thesis by (rule head_below_root_is_contained [OF g])
qed

text \<open>
  A subtree pattern names the directory and everything under it. For an absolute directory
  without wildcards, \<open>dir/**\<close> compiles, and it accepts a path exactly when the normalized path is
  the directory itself or lies below it with no line terminator in the rest of its name.
\<close>

theorem subtree_glob_exact:
  assumes "is_absolute_pattern dir" and "\<forall>c \<in> set dir. \<not> wildcard c \<and> c \<noteq> backslash"
    and "length dir \<le> 509"
  shows "\<exists>g. compile_glob (dir @ ''/**'') False = (Inr g :: 'o policy_error + _) \<and>
    (\<forall>path. glob_test g path \<longleftrightarrow>
       (let s = normalize_separators path
        in s = dir \<or> (\<exists>t. s = dir @ slash # t \<and> (\<forall>c \<in> set t. \<not> line_terminator c))))"
proof -
  have n: "normalize_separators (dir @ ''/**'') = dir @ ''/**''"
    using assms(2) by (intro normalize_clean) auto
  have t: "to_tokens None [] (dir @ ''/**'') = map Lit dir @ [Tail]"
    using assms(2) by (intro subtree_tokens) blast
  have "compile_glob (dir @ ''/**'') False = (Inr (map Lit dir @ [Tail], False) :: 'o policy_error + _)"
    using assms(1,3)
    by (simp add: compile_glob_def max_pattern_def n t absolute_append list_all_iff)
  then show ?thesis
    by (auto simp: glob_test_def subtree_match Let_def)
qed

theorem subtree_glob_exact_witness:
  "\<exists>g. compile_glob (''/srv/keys'' @ ''/**'') False = (Inr g :: unit policy_error + _) \<and>
    (\<forall>path. glob_test g path \<longleftrightarrow>
       (let s = normalize_separators path
        in s = ''/srv/keys'' \<or>
           (\<exists>t. s = ''/srv/keys'' @ slash # t \<and> (\<forall>c \<in> set t. \<not> line_terminator c))))"
  by (rule subtree_glob_exact) (auto simp: wildcard_def)

end
