(* ===== verification/PolicyMatch.thy ===== *)
theory PolicyMatch
  imports Events Glob
begin

text \<open>
  One policy rule against one subject: \<open>packages/core/src/policy/match.ts\<close>, with the policy
  language of \<open>protocol/src/config.ts\<close> and \<open>PolicySubject\<close> of \<open>contracts.ts\<close>. The command
  clause is a regular expression written by the policy's author, so the \<open>RegExp\<close> engine is a
  parameter (\<open>re_ops\<close>): whether a source compiles, and whether a compiled one matches a string.
  The memo of compiled globs holds no decision and is not modelled.
\<close>

section \<open>The policy language\<close>

datatype subject_clause = SubjToolCall | SubjCommand | SubjAny
datatype method_clause = MethOnly interaction_method | MethAny

record policy_match =
  pm_subject :: "subject_clause option"
  pm_method :: "method_clause option"
  pm_kind :: "string list option"
  pm_path :: "string list option"
  pm_cmd :: "string option"
  pm_agent :: "string list option"

record policy_rule =
  rule_id :: string
  rule_match :: policy_match
  rule_action :: policy_action

record policy_subject =
  ps_method :: interaction_method
  ps_type :: string
  ps_kind :: "string option"
  ps_paths :: "string list"
  ps_command :: "string option"
  ps_title :: string
  ps_agent :: string
  ps_cwd :: string

record re_ops =
  re_valid :: "string \<Rightarrow> bool"
  re_test :: "string \<Rightarrow> bool \<Rightarrow> string \<Rightarrow> bool"

definition subject_tags :: "string list" where
  "subject_tags = [''tool_call'', ''command'', ''elicitation'']"

text \<open>A compiled command clause is its anchored source and the case flag.\<close>

record compiled_rule =
  cr_rule :: policy_rule
  cr_kind :: "(bool \<times> string list) option"
  cr_paths :: "string list option"
  cr_cmd :: "(string \<times> bool) option"
  cr_subject :: subject_clause
  cr_method :: method_clause
  cr_ci :: bool

section \<open>The regex safety net\<close>

definition is_digit :: "char \<Rightarrow> bool" where
  "is_digit c \<longleftrightarrow> (let n = of_char c :: nat in 48 \<le> n \<and> n \<le> 57)"

fun has_backreference :: "string \<Rightarrow> bool" where
  "has_backreference [] = False"
| "has_backreference (c # rest) =
     (if c \<noteq> backslash then has_backreference rest
      else (case rest of
              [] \<Rightarrow> False
            | n # rest2 \<Rightarrow> is_digit n \<and> n \<noteq> CHR ''0'' \<or> n = CHR ''k'' \<or> has_backreference rest2))"

text \<open>\<open>classSpans\<close>, from a position where a class is open or not.\<close>

fun class_spans :: "bool \<Rightarrow> string \<Rightarrow> bool list" where
  "class_spans is_open [] = []"
| "class_spans is_open (c # rest) =
     (if c = backslash
      then (case rest of
              [] \<Rightarrow> [is_open]
            | d # rest2 \<Rightarrow> is_open # is_open # class_spans is_open rest2)
      else if \<not> is_open \<and> c = CHR ''['' then True # class_spans True rest
      else if is_open \<and> c = CHR '']'' then True # class_spans False rest
      else is_open # class_spans is_open rest)"

text \<open>\<open>/^\{\d+,\}/\<close> and \<open>/^\{\d+,\d*\}/\<close>.\<close>

definition open_bound :: "string \<Rightarrow> bool" where
  "open_bound s \<longleftrightarrow> (case s of [] \<Rightarrow> False | c # r \<Rightarrow>
     c = CHR ''{'' \<and> takeWhile is_digit r \<noteq> [] \<and> take 2 (dropWhile is_digit r) = '',}'')"

definition comma_bound :: "string \<Rightarrow> bool" where
  "comma_bound s \<longleftrightarrow> (case s of [] \<Rightarrow> False | c # r \<Rightarrow>
     c = CHR ''{'' \<and> takeWhile is_digit r \<noteq> [] \<and>
     (case dropWhile is_digit r of
        [] \<Rightarrow> False
      | d # r2 \<Rightarrow> d = CHR '','' \<and> take 1 (dropWhile is_digit r2) = ''}''))"

text \<open>The loop of \<open>bodyIsRisky\<close> over the characters and their class flags.\<close>

fun risky_from :: "int \<Rightarrow> (char \<times> bool) list \<Rightarrow> bool" where
  "risky_from depth [] = False"
| "risky_from depth ((c, in_class) # rest) =
     (if c = backslash then risky_from depth (tl rest)
      else if in_class then risky_from depth rest
      else if c = CHR ''('' then risky_from (depth + 1) rest
      else if c = CHR '')'' then risky_from (depth - 1) rest
      else if c = CHR ''*'' \<or> c = CHR ''+'' then True
      else if open_bound (map fst ((c, in_class) # rest)) then True
      else if c = CHR ''|'' \<and> depth = 0 then True
      else risky_from depth rest)"

definition body_is_risky :: "string \<Rightarrow> bool" where
  "body_is_risky body = risky_from 0 (zip body (class_spans False body))"

text \<open>The loop of \<open>isCatastrophic\<close>: the position, the open groups, the rest with its flags.\<close>

fun catastrophic_from :: "string \<Rightarrow> nat \<Rightarrow> nat list \<Rightarrow> (char \<times> bool) list \<Rightarrow> bool" where
  "catastrophic_from src i stack [] = False"
| "catastrophic_from src i stack ((c, in_class) # rest) =
     (if c = backslash then catastrophic_from src (i + 2) stack (tl rest)
      else if in_class then catastrophic_from src (i + 1) stack rest
      else if c = CHR ''('' then catastrophic_from src (i + 1) (i # stack) rest
      else if c \<noteq> CHR '')'' then catastrophic_from src (i + 1) stack rest
      else
        (case stack of
           [] \<Rightarrow> catastrophic_from src (i + 1) [] rest
         | start # stack2 \<Rightarrow>
             (let after = map fst rest;
                  quantified = (take 1 after = ''*'' \<or> take 1 after = ''+'' \<or> comma_bound after)
              in if quantified \<and> body_is_risky (take (i - start - 1) (drop (start + 1) src))
                 then True
                 else catastrophic_from src (i + 1) stack2 rest)))"

definition is_catastrophic :: "string \<Rightarrow> bool" where
  "is_catastrophic src = catastrophic_from src 0 [] (zip src (class_spans False src))"

definition compile_command_regex ::
  "re_ops \<Rightarrow> string \<Rightarrow> bool \<Rightarrow> 'o policy_error + (string \<times> bool)" where
  "compile_command_regex re pattern ci =
     (if length pattern > 512 then Inl (PBad ''long cmd'')
      else if has_backreference pattern then Inl (PBad ''cmd backreference'')
      else if is_catastrophic pattern then Inl (PBad ''catastrophic cmd'')
      else if \<not> re_valid re pattern then Inl (PBad ''invalid cmd'')
      else
        (let anchored = ''^(?:'' @ pattern @ '')$''
         in if re_valid re anchored then Inr (anchored, ci) else Inl (PBad ''invalid cmd'')))"

section \<open>Compiling a rule\<close>

fun segments :: "string \<Rightarrow> string list" where
  "segments [] = [[]]"
| "segments (c # cs) =
     (if c = slash then [] # segments cs
      else (case segments cs of [] \<Rightarrow> [[c]] | g # gs \<Rightarrow> (c # g) # gs))"

definition compile_path :: "bool \<Rightarrow> string \<Rightarrow> 'o policy_error + string" where
  "compile_path ci p =
     (if p = [] \<or> length p > 512 then Inl (PBad ''path length'')
      else
        (let n = normalize_separators p in
         if list_ex (\<lambda>seg. seg = ''.'' \<or> seg = ''..'') (segments n) then Inl (PBad ''dot segment'')
         else if is_absolute_pattern n
         then (case compile_glob n ci of Inl e \<Rightarrow> Inl e | Inr g \<Rightarrow> Inr n)
         else Inr n))"

fun compile_paths :: "bool \<Rightarrow> string list \<Rightarrow> 'o policy_error + string list" where
  "compile_paths ci [] = Inr []"
| "compile_paths ci (p # ps) =
     (case compile_path ci p of Inl e \<Rightarrow> Inl e
      | Inr n \<Rightarrow> (case compile_paths ci ps of Inl e \<Rightarrow> Inl e | Inr ns \<Rightarrow> Inr (n # ns)))"

definition subject_of :: "policy_match \<Rightarrow> subject_clause" where
  "subject_of m = (case pm_subject m of None \<Rightarrow> SubjAny | Some c \<Rightarrow> c)"

definition method_of :: "policy_match \<Rightarrow> method_clause" where
  "method_of m = (case pm_method m of None \<Rightarrow> MethAny | Some c \<Rightarrow> c)"

definition folds_case :: "policy_action \<Rightarrow> bool" where
  "folds_case a \<longleftrightarrow> a \<noteq> Allow"

definition compile_rule :: "re_ops \<Rightarrow> policy_rule \<Rightarrow> 'o policy_error + compiled_rule" where
  "compile_rule re r =
     (let m = rule_match r; ci = folds_case (rule_action r) in
      if pm_cmd m \<noteq> None \<and> subject_of m = SubjToolCall then Inl (PBad ''cmd on tool_call'')
      else if pm_path m \<noteq> None \<and> pm_kind m = None \<and> subject_of m = SubjAny
      then Inl (PBad ''path alone'')
      else
        (case (case pm_path m of None \<Rightarrow> Inr None
               | Some ps \<Rightarrow> map_sum id Some (compile_paths ci ps)) of
           Inl e \<Rightarrow> Inl e
         | Inr paths \<Rightarrow>
             (case (case pm_cmd m of None \<Rightarrow> Inr None
                    | Some c \<Rightarrow> map_sum id Some (compile_command_regex re c ci)) of
                Inl e \<Rightarrow> Inl e
              | Inr cmd \<Rightarrow>
                  Inr \<lparr>cr_rule = r,
                       cr_kind = map_option (\<lambda>k. (k = [''*''], k)) (pm_kind m),
                       cr_paths = paths, cr_cmd = cmd, cr_subject = subject_of m,
                       cr_method = method_of m, cr_ci = ci\<rparr>)))"

section \<open>Matching\<close>

text \<open>A relative pattern is anchored to the subject's working directory.\<close>

definition anchor :: "string \<Rightarrow> string \<Rightarrow> string" where
  "anchor pattern cwd =
     (if is_absolute_pattern pattern then pattern
      else normalize_separators cwd @ [slash] @ pattern)"

definition glob_for :: "string \<Rightarrow> string \<Rightarrow> bool \<Rightarrow> 'o policy_error + (tok list \<times> bool)" where
  "glob_for pattern cwd ci = compile_glob (anchor pattern cwd) ci"

text \<open>The two nested loops of the path clause; either may throw.\<close>

fun some_pattern :: "string list \<Rightarrow> string \<Rightarrow> bool \<Rightarrow> string \<Rightarrow> 'o policy_error + bool" where
  "some_pattern [] cwd ci p = Inr False"
| "some_pattern (pat # pats) cwd ci p =
     (case glob_for pat cwd ci of
        Inl e \<Rightarrow> Inl e
      | Inr g \<Rightarrow> if glob_test g p then Inr True else some_pattern pats cwd ci p)"

fun every_path :: "string list \<Rightarrow> string \<Rightarrow> bool \<Rightarrow> string list \<Rightarrow> 'o policy_error + bool" where
  "every_path pats cwd ci [] = Inr True"
| "every_path pats cwd ci (p # ps) =
     (case some_pattern pats cwd ci p of
        Inl e \<Rightarrow> Inl e
      | Inr ok \<Rightarrow> if ok then every_path pats cwd ci ps else Inr False)"

fun subject_passes :: "subject_clause \<Rightarrow> string \<Rightarrow> bool" where
  "subject_passes SubjAny t = True"
| "subject_passes SubjToolCall t = (t = ''tool_call'')"
| "subject_passes SubjCommand t = (t = ''command'')"

fun method_passes :: "method_clause \<Rightarrow> interaction_method \<Rightarrow> bool" where
  "method_passes MethAny m = True"
| "method_passes (MethOnly n) m = (n = m)"

definition kind_passes :: "(bool \<times> string list) option \<Rightarrow> string option \<Rightarrow> bool" where
  "kind_passes c k = (case c of None \<Rightarrow> True
     | Some (is_wild, ks) \<Rightarrow> is_wild \<or> (case k of None \<Rightarrow> False | Some x \<Rightarrow> x \<in> set ks))"

definition cmd_passes :: "re_ops \<Rightarrow> (string \<times> bool) option \<Rightarrow> string option \<Rightarrow> bool" where
  "cmd_passes re c s = (case c of None \<Rightarrow> True
     | Some (src, ci) \<Rightarrow> (case s of None \<Rightarrow> False | Some x \<Rightarrow> re_test re src ci x))"

definition match_compiled ::
  "re_ops \<Rightarrow> compiled_rule \<Rightarrow> policy_subject \<Rightarrow> 'o policy_error + bool" where
  "match_compiled re c s =
     (if ps_type s \<notin> set subject_tags then Inr False
      else if \<not> subject_passes (cr_subject c) (ps_type s) then Inr False
      else if \<not> method_passes (cr_method c) (ps_method s) then Inr False
      else if (case pm_agent (rule_match (cr_rule c)) of None \<Rightarrow> False
               | Some as \<Rightarrow> ps_agent s \<notin> set as) then Inr False
      else if \<not> kind_passes (cr_kind c) (ps_kind s) then Inr False
      else if \<not> cmd_passes re (cr_cmd c) (ps_command s) then Inr False
      else
        (case cr_paths c of
           None \<Rightarrow> Inr True
         | Some pats \<Rightarrow>
             if ps_paths s = [] then Inr False
             else every_path pats (ps_cwd s) (cr_ci c) (ps_paths s)))"

definition match_rule :: "re_ops \<Rightarrow> policy_rule \<Rightarrow> policy_subject \<Rightarrow> 'o policy_error + bool" where
  "match_rule re r s =
     (case compile_rule re r of Inl e \<Rightarrow> Inl e | Inr c \<Rightarrow> match_compiled re c s)"

end
