(* ===== verification/PolicyEngine.thy ===== *)
theory PolicyEngine
  imports PolicyMatch
begin

text \<open>
  The ceiling and the rule engine: \<open>packages/core/src/policy/ceiling.ts\<close> and \<open>engine.ts\<close>. The
  entries of \<open>body.policy.offending\<close> are values of \<open>offence\<close> rather than English sentences; each
  constructor is one sentence template of the code with what it quotes.
\<close>

section \<open>The lattice of actions\<close>

fun action_rank :: "policy_action \<Rightarrow> nat" where
  "action_rank Deny = 0"
| "action_rank Fail = 0"
| "action_rank Park = 1"
| "action_rank Allow = 2"

definition dominates :: "policy_action \<Rightarrow> policy_action \<Rightarrow> bool" where
  "dominates ceil a \<longleftrightarrow> action_rank a \<le> action_rank ceil"

record policy_ceiling =
  max_action :: policy_action
  allow_kinds :: "string list option"
  deny_kinds :: "string list"
  path_roots :: "string list option"
  commands :: bool
  may_park :: bool

record resolved_policy =
  pol_id :: string
  pol_sources :: "string list"
  pol_default :: policy_action
  pol_rules :: "policy_rule list"
  pol_alert :: "string list"

record policy_verdict =
  v_action :: policy_action
  v_rule :: string
  v_source :: rule_source
  v_clamped :: "clamp option"

datatype on_unresolved = UnresPark | UnresDeny | UnresFail

section \<open>The static check\<close>

datatype offence =
    DefaultExceeds policy_action policy_action
  | DefaultParks
  | DefaultUnscoped
  | RuleExceeds string policy_action policy_action
  | RuleParks string
  | RuleMatchesCommand string
  | RuleKindUnbounded string
  | RuleEveryKind string
  | RuleKindNotAllowed string string
  | RuleReachesDenied string policy_action "string list"
  | RuleKindDenied string string
  | RulePathUnscoped string "string list"
  | RulePathOutside string string string "string list"
  | RequestParks

definition scoped :: "policy_ceiling \<Rightarrow> bool" where
  "scoped c \<longleftrightarrow> path_roots c \<noteq> None \<or> allow_kinds c \<noteq> None \<or> deny_kinds c \<noteq> []"

definition grants :: "policy_action \<Rightarrow> bool" where
  "grants a \<longleftrightarrow> action_rank a > action_rank Deny"

definition default_offences :: "resolved_policy \<Rightarrow> policy_ceiling \<Rightarrow> offence list" where
  "default_offences doc c =
     (if dominates (max_action c) (pol_default doc) then []
      else [DefaultExceeds (pol_default doc) (max_action c)]) @
     (if pol_default doc = Park \<and> \<not> may_park c then [DefaultParks] else []) @
     (if pol_default doc = Allow \<and> scoped c then [DefaultUnscoped] else [])"

definition allow_kind_offences :: "policy_rule \<Rightarrow> policy_ceiling \<Rightarrow> offence list" where
  "allow_kind_offences r c =
     (case allow_kinds c of
        None \<Rightarrow> []
      | Some allowed \<Rightarrow>
          if rule_action r \<noteq> Allow then []
          else (case pm_kind (rule_match r) of
                  None \<Rightarrow> [RuleKindUnbounded (rule_id r)]
                | Some ks \<Rightarrow>
                    if ks = [''*''] then [RuleEveryKind (rule_id r)]
                    else map (RuleKindNotAllowed (rule_id r))
                           (filter (\<lambda>k. k \<notin> set allowed) ks)))"

definition deny_kind_offences :: "policy_rule \<Rightarrow> policy_ceiling \<Rightarrow> offence list" where
  "deny_kind_offences r c =
     (if grants (rule_action r) \<and> deny_kinds c \<noteq> []
      then (case pm_kind (rule_match r) of
              None \<Rightarrow> [RuleReachesDenied (rule_id r) (rule_action r) (deny_kinds c)]
            | Some ks \<Rightarrow>
                if ks = [''*''] then [RuleReachesDenied (rule_id r) (rule_action r) (deny_kinds c)]
                else map (RuleKindDenied (rule_id r)) (filter (\<lambda>k. k \<in> set (deny_kinds c)) ks))
      else [])"

definition path_offences :: "policy_rule \<Rightarrow> policy_ceiling \<Rightarrow> offence list" where
  "path_offences r c =
     (case path_roots c of
        None \<Rightarrow> []
      | Some roots \<Rightarrow>
          (case pm_path (rule_match r) of
             None \<Rightarrow> if rule_action r = Allow then [RulePathUnscoped (rule_id r) roots] else []
           | Some pats \<Rightarrow>
               map (\<lambda>p. RulePathOutside (rule_id r) p (glob_head p) roots)
                 (filter (\<lambda>p. \<not> list_ex (within_root (glob_head p)) roots) pats)))"

definition rule_offences :: "policy_ceiling \<Rightarrow> policy_rule \<Rightarrow> offence list" where
  "rule_offences c r =
     (if dominates (max_action c) (rule_action r) then []
      else [RuleExceeds (rule_id r) (rule_action r) (max_action c)]) @
     (if rule_action r = Park \<and> \<not> may_park c then [RuleParks (rule_id r)] else []) @
     (if \<not> commands c \<and>
         (pm_subject (rule_match r) = Some SubjCommand \<or> pm_cmd (rule_match r) \<noteq> None)
      then [RuleMatchesCommand (rule_id r)] else []) @
     allow_kind_offences r c @ deny_kind_offences r c @ path_offences r c"

definition ceiling_offences ::
  "resolved_policy \<Rightarrow> policy_ceiling \<Rightarrow> on_unresolved option \<Rightarrow> offence list" where
  "ceiling_offences doc c unres =
     default_offences doc c @ concat (map (rule_offences c) (pol_rules doc)) @
     (if unres = Some UnresPark \<and> \<not> may_park c then [RequestParks] else [])"

definition default_ceiling_name :: string where
  "default_ceiling_name = ''policyCeiling''"

definition assert_within_ceiling ::
  "resolved_policy \<Rightarrow> policy_ceiling \<Rightarrow> string option \<Rightarrow> on_unresolved option
   \<Rightarrow> offence policy_error + unit" where
  "assert_within_ceiling doc c name unres =
     (let offending = ceiling_offences doc c unres in
      if offending = [] then Inr ()
      else Inl (PExceeds (case name of None \<Rightarrow> default_ceiling_name | Some n \<Rightarrow> n) offending))"

section \<open>The runtime clamp\<close>

definition absolute_root :: "string \<Rightarrow> string \<Rightarrow> string" where
  "absolute_root cwd dir =
     (if is_absolute_pattern (normalize_separators dir) then normalize_separators dir
      else normalize_separators cwd @ [slash] @ normalize_separators dir)"

definition refusal :: "policy_action \<Rightarrow> policy_ceiling \<Rightarrow> policy_subject \<Rightarrow> string option" where
  "refusal a c s =
     (if \<not> dominates (max_action c) a then Some ''maxAction''
      else if a = Park then (if may_park c then None else Some ''park'')
      else if a \<noteq> Allow then None
      else if \<not> commands c \<and> ps_type s = ''command'' then Some ''commands''
      else if (case allow_kinds c of None \<Rightarrow> False
               | Some ks \<Rightarrow> (case ps_kind s of None \<Rightarrow> True | Some k \<Rightarrow> k \<notin> set ks))
      then Some ''allowKinds''
      else if (case ps_kind s of None \<Rightarrow> False | Some k \<Rightarrow> k \<in> set (deny_kinds c))
      then Some ''denyKinds''
      else (case path_roots c of
              None \<Rightarrow> None
            | Some dirs \<Rightarrow>
                if ps_paths s = [] then Some ''pathRoots''
                else if list_all
                          (\<lambda>p. list_ex (within_root p) (map (absolute_root (ps_cwd s)) dirs))
                          (ps_paths s)
                then None else Some ''pathRoots''))"

definition clamp_verdict ::
  "policy_verdict \<Rightarrow> policy_ceiling \<Rightarrow> policy_subject \<Rightarrow> string option \<Rightarrow> policy_verdict" where
  "clamp_verdict v c s name =
     (case refusal (v_action v) c s of
        None \<Rightarrow> v
      | Some why \<Rightarrow>
          (let n = (case name of None \<Rightarrow> default_ceiling_name | Some n \<Rightarrow> n);
               ladder = (if v_action v = Allow then [Park, Deny] else [Deny]);
               target = (case List.find (\<lambda>a. refusal a c s = None) ladder of
                           None \<Rightarrow> Deny | Some a \<Rightarrow> a)
           in \<lparr>v_action = target, v_rule = v_rule v, v_source = SrcCeiling,
               v_clamped = Some \<lparr>clamp_from = v_action v, clamp_by = n @ '':'' @ why\<rparr>\<rparr>))"

section \<open>The engine\<close>

record policy_snapshot =
  sn_sources :: "string list"
  sn_default :: policy_action
  sn_unresolved :: on_unresolved
  sn_rule_count :: nat
  sn_ceiling :: "string option"

record policy_engine =
  en_id :: string
  en_compiled :: "compiled_rule list"
  en_default :: policy_action
  en_ceiling :: "policy_ceiling option"
  en_ceiling_name :: "string option"
  en_snapshot :: policy_snapshot
  en_alert :: "string list"

fun compile_rules :: "re_ops \<Rightarrow> policy_rule list \<Rightarrow> 'o policy_error + compiled_rule list" where
  "compile_rules re [] = Inr []"
| "compile_rules re (r # rs) =
     (case compile_rule re r of Inl e \<Rightarrow> Inl e
      | Inr c \<Rightarrow> (case compile_rules re rs of Inl e \<Rightarrow> Inl e | Inr cs \<Rightarrow> Inr (c # cs)))"

definition create_policy_engine ::
  "re_ops \<Rightarrow> resolved_policy \<Rightarrow> policy_ceiling option \<Rightarrow> string \<Rightarrow> string option
   \<Rightarrow> on_unresolved option \<Rightarrow> offence policy_error + policy_engine" where
  "create_policy_engine re doc ceil pid name unres =
     (let u = (case unres of None \<Rightarrow> UnresDeny | Some u \<Rightarrow> u) in
      case compile_rules re (pol_rules doc) of
        Inl e \<Rightarrow> Inl e
      | Inr compiled \<Rightarrow>
          (case (case ceil of None \<Rightarrow> Inr ()
                 | Some c \<Rightarrow> assert_within_ceiling doc c name (Some u)) of
             Inl e \<Rightarrow> Inl e
           | Inr _ \<Rightarrow>
               Inr \<lparr>en_id = pid, en_compiled = compiled, en_default = pol_default doc,
                    en_ceiling = ceil, en_ceiling_name = name,
                    en_snapshot = \<lparr>sn_sources = pol_sources doc, sn_default = pol_default doc,
                      sn_unresolved = u, sn_rule_count = length (pol_rules doc),
                      sn_ceiling = (case ceil of None \<Rightarrow> None
                        | Some _ \<Rightarrow> Some (case name of None \<Rightarrow> default_ceiling_name | Some n \<Rightarrow> n))\<rparr>,
                    en_alert = pol_alert doc\<rparr>))"

definition source_of :: "string \<Rightarrow> rule_source" where
  "source_of rid = (if prefix ''inline:'' rid then SrcInline else SrcPreset)"

text \<open>The first compiled rule that matches; a rule's own error propagates.\<close>

fun first_match ::
  "re_ops \<Rightarrow> compiled_rule list \<Rightarrow> policy_subject \<Rightarrow> offence policy_error + compiled_rule option" where
  "first_match re [] s = Inr None"
| "first_match re (c # cs) s =
     (case match_compiled re c s of
        Inl e \<Rightarrow> Inl e
      | Inr ok \<Rightarrow> if ok then Inr (Some c) else first_match re cs s)"

definition rule_verdict :: "string \<Rightarrow> policy_rule \<Rightarrow> policy_verdict" where
  "rule_verdict pid r =
     \<lparr>v_action = rule_action r, v_rule = pid @ ''#'' @ rule_id r,
      v_source = source_of (rule_id r), v_clamped = None\<rparr>"

definition default_verdict :: "string \<Rightarrow> policy_action \<Rightarrow> policy_verdict" where
  "default_verdict pid a =
     \<lparr>v_action = a, v_rule = pid @ ''#default'', v_source = SrcDefault, v_clamped = None\<rparr>"

definition decide ::
  "re_ops \<Rightarrow> policy_engine \<Rightarrow> policy_subject \<Rightarrow> offence policy_error + policy_verdict" where
  "decide re en s =
     (case first_match re (en_compiled en) s of
        Inl e \<Rightarrow> Inl e
      | Inr found \<Rightarrow>
          (let v = (case found of
                      None \<Rightarrow> default_verdict (en_id en) (en_default en)
                    | Some c \<Rightarrow> rule_verdict (en_id en) (cr_rule c))
           in case en_ceiling en of
                None \<Rightarrow> Inr v
              | Some c \<Rightarrow> Inr (clamp_verdict v c s (en_ceiling_name en))))"

end
