(* ===== verification/PolicyProps.thy ===== *)
theory PolicyProps
  imports PolicyEngine GlobMatch
begin

text \<open>
  The properties of the policy engine: what a rule that matches has checked, first match wins, the
  soundness of the clamp, and four runs in which the engine does less than its comments promise.
\<close>

section \<open>Interfaces\<close>

text \<open>
  An engine's client (the interaction strategy) relies on two laws only: the answer of a ceiling
  is always permitted by it, and a narrowed answer says so. Any decision procedure behind such a
  clamp is safe.
\<close>

locale clamped_decider =
  fixes permitted :: "'c \<Rightarrow> 's \<Rightarrow> 'a \<Rightarrow> bool"
    and clamp :: "'v \<Rightarrow> 'c \<Rightarrow> 's \<Rightarrow> 'v"
    and action :: "'v \<Rightarrow> 'a" and note_of :: "'v \<Rightarrow> 'n option"
  assumes clamp_permitted: "permitted c s (action (clamp v c s))"
    and clamp_keeps: "permitted c s (action v) \<Longrightarrow> clamp v c s = v"
    and clamp_notes: "\<not> permitted c s (action v) \<Longrightarrow> note_of (clamp v c s) \<noteq> None"
begin

lemma clamp_idem: "clamp (clamp v c s) c s = clamp v c s"
  by (rule clamp_keeps [OF clamp_permitted])

lemma silent_unchanged:
  assumes "note_of v = None" "note_of (clamp v c s) = None"
  shows "clamp v c s = v"
  using assms clamp_keeps clamp_notes by blast

lemma changed_noted: "clamp v c s \<noteq> v \<Longrightarrow> note_of (clamp v c s) \<noteq> None"
  using clamp_keeps clamp_notes by blast

end

section \<open>The clamp\<close>

lemma deny_permitted: "refusal Deny c s = None"
  by (simp add: refusal_def dominates_def)

lemma fail_permitted: "refusal Fail c s = None"
  by (simp add: refusal_def dominates_def)

lemma clamp_action_permitted: "refusal (v_action (clamp_verdict v c s name)) c s = None"
proof (cases "refusal (v_action v) c s")
  case None
  then show ?thesis by (simp add: clamp_verdict_def)
next
  case (Some why)
  then show ?thesis
    by (auto simp: clamp_verdict_def Let_def deny_permitted
        dest: find_SomeD split: option.split)
qed

lemma clamp_keeps_permitted:
  "refusal (v_action v) c s = None \<Longrightarrow> clamp_verdict v c s name = v"
  by (simp add: clamp_verdict_def)

lemma clamp_rule: "v_rule (clamp_verdict v c s name) = v_rule v"
  by (simp add: clamp_verdict_def Let_def split: option.split)

lemma clamp_records:
  assumes "refusal (v_action v) c s = Some why"
  shows "v_source (clamp_verdict v c s name) = SrcCeiling"
    and "v_clamped (clamp_verdict v c s name) = Some \<lparr>clamp_from = v_action v,
      clamp_by = (case name of None \<Rightarrow> default_ceiling_name | Some n \<Rightarrow> n) @ '':'' @ why\<rparr>"
  using assms by (simp_all add: clamp_verdict_def Let_def)

lemma refused_rank: "refusal a c s = Some why \<Longrightarrow> a = Allow \<or> a = Park"
  by (cases a) (auto simp: deny_permitted fail_permitted)

lemma clamp_lowers: "action_rank (v_action (clamp_verdict v c s name)) \<le> action_rank (v_action v)"
proof (cases "refusal (v_action v) c s")
  case None
  then show ?thesis by (simp add: clamp_verdict_def)
next
  case (Some why)
  then show ?thesis
    using refused_rank [OF Some]
    by (auto simp: clamp_verdict_def Let_def split: option.split)
qed

interpretation ceiling: clamped_decider
  "\<lambda>c s a. refusal a c s = None" "\<lambda>v c s. clamp_verdict v c s name" v_action v_clamped
  for name
  by unfold_locales (auto simp: clamp_action_permitted clamp_keeps_permitted clamp_records(2))

text \<open>What an allow that passes the ceiling has been checked for.\<close>

definition allow_in_scope :: "policy_ceiling \<Rightarrow> policy_subject \<Rightarrow> bool" where
  "allow_in_scope c s \<longleftrightarrow>
     max_action c = Allow \<and>
     (commands c \<or> ps_type s \<noteq> ''command'') \<and>
     (\<forall>ks. allow_kinds c = Some ks \<longrightarrow> (\<exists>k \<in> set ks. ps_kind s = Some k)) \<and>
     (\<forall>k \<in> set (deny_kinds c). ps_kind s \<noteq> Some k) \<and>
     (\<forall>dirs. path_roots c = Some dirs \<longrightarrow>
        ps_paths s \<noteq> [] \<and>
        (\<forall>p \<in> set (ps_paths s). \<exists>d \<in> set dirs. within_root p (absolute_root (ps_cwd s) d)))"

lemma allow_permitted_iff: "refusal Allow c s = None \<longleftrightarrow> allow_in_scope c s"
proof -
  have d: "dominates (max_action c) Allow \<longleftrightarrow> max_action c = Allow"
    by (cases "max_action c") (simp_all add: dominates_def)
  show ?thesis
    by (auto simp: refusal_def allow_in_scope_def d list_ex_iff list_all_iff
        split: if_splits option.splits)
qed

section \<open>Matching\<close>

text \<open>The declarative reading of one path clause.\<close>

definition path_clause :: "string list \<Rightarrow> bool \<Rightarrow> policy_subject \<Rightarrow> bool" where
  "path_clause pats ci s \<longleftrightarrow> ps_paths s \<noteq> [] \<and>
     (\<forall>p \<in> set (ps_paths s). \<exists>pat \<in> set pats.
        normalize_separators p
          \<in> toks_lang ci (to_tokens None [] (normalize_separators (anchor pat (ps_cwd s)))))"

lemma glob_for_test:
  "glob_for pat cwd ci = (Inr g :: 'o policy_error + _) \<Longrightarrow>
   glob_test g p \<longleftrightarrow> normalize_separators p
     \<in> toks_lang ci (to_tokens None [] (normalize_separators (anchor pat cwd)))"
  by (auto simp: glob_for_def compile_glob_def glob_test_def glob_match_lang Let_def
      split: if_splits)

lemma some_pattern_Inr:
  "some_pattern pats cwd ci p = (Inr ok :: 'o policy_error + bool) \<Longrightarrow>
   (ok \<longrightarrow> (\<exists>pat \<in> set pats. normalize_separators p
     \<in> toks_lang ci (to_tokens None [] (normalize_separators (anchor pat cwd))))) \<and>
   (\<not> ok \<longrightarrow> (\<forall>pat \<in> set pats. normalize_separators p
     \<notin> toks_lang ci (to_tokens None [] (normalize_separators (anchor pat cwd)))))"
proof (induction pats)
  case Nil
  then show ?case by simp
next
  case (Cons pat pats)
  then obtain g where g: "glob_for pat cwd ci = (Inr g :: 'o policy_error + _)"
    by (auto split: sum.splits)
  from Cons g glob_for_test [OF g, of p] show ?case by (auto split: if_splits)
qed

lemma every_path_Inr:
  "every_path pats cwd ci ps = (Inr ok :: 'o policy_error + bool) \<Longrightarrow>
   ok \<longleftrightarrow> (\<forall>p \<in> set ps. \<exists>pat \<in> set pats. normalize_separators p
     \<in> toks_lang ci (to_tokens None [] (normalize_separators (anchor pat cwd))))"
proof (induction ps)
  case Nil
  then show ?case by simp
next
  case (Cons p ps)
  then obtain b where b: "some_pattern pats cwd ci p = (Inr b :: 'o policy_error + bool)"
    by (auto split: sum.splits)
  from some_pattern_Inr [OF b] Cons b show ?case by (auto split: if_splits)
qed

text \<open>The declarative reading of a compiled rule.\<close>

definition rule_holds :: "re_ops \<Rightarrow> compiled_rule \<Rightarrow> policy_subject \<Rightarrow> bool" where
  "rule_holds re c s \<longleftrightarrow>
     ps_type s \<in> {''tool_call'', ''command'', ''elicitation''} \<and>
     subject_passes (cr_subject c) (ps_type s) \<and> method_passes (cr_method c) (ps_method s) \<and>
     (\<forall>as. pm_agent (rule_match (cr_rule c)) = Some as \<longrightarrow> ps_agent s \<in> set as) \<and>
     (\<forall>w ks. cr_kind c = Some (w, ks) \<longrightarrow> w \<or> (\<exists>k \<in> set ks. ps_kind s = Some k)) \<and>
     (\<forall>src ci. cr_cmd c = Some (src, ci) \<longrightarrow> (\<exists>x. ps_command s = Some x \<and> re_test re src ci x)) \<and>
     (\<forall>pats. cr_paths c = Some pats \<longrightarrow> path_clause pats (cr_ci c) s)"

lemma match_compiled_Inr:
  assumes "match_compiled re c s = (Inr ok :: 'o policy_error + bool)"
  shows "ok \<longleftrightarrow> rule_holds re c s"
proof -
  let ?pre = "ps_type s \<in> {''tool_call'', ''command'', ''elicitation''} \<and>
     subject_passes (cr_subject c) (ps_type s) \<and> method_passes (cr_method c) (ps_method s) \<and>
     (\<forall>as. pm_agent (rule_match (cr_rule c)) = Some as \<longrightarrow> ps_agent s \<in> set as) \<and>
     kind_passes (cr_kind c) (ps_kind s) \<and> cmd_passes re (cr_cmd c) (ps_command s)"
  have k: "kind_passes (cr_kind c) (ps_kind s) \<longleftrightarrow>
      (\<forall>w ks. cr_kind c = Some (w, ks) \<longrightarrow> w \<or> (\<exists>k \<in> set ks. ps_kind s = Some k))"
    by (auto simp: kind_passes_def split: option.splits)
  have m: "cmd_passes re (cr_cmd c) (ps_command s) \<longleftrightarrow>
      (\<forall>src ci. cr_cmd c = Some (src, ci) \<longrightarrow> (\<exists>x. ps_command s = Some x \<and> re_test re src ci x))"
    by (auto simp: cmd_passes_def split: option.splits)
  have holds: "rule_holds re c s \<longleftrightarrow> ?pre \<and>
      (\<forall>pats. cr_paths c = Some pats \<longrightarrow> path_clause pats (cr_ci c) s)"
    unfolding rule_holds_def k m by blast
  show ?thesis
  proof (cases ?pre)
    case False
    then have "match_compiled re c s = (Inr False :: 'o policy_error + bool)"
      by (auto simp: match_compiled_def subject_tags_def split: option.splits)
    with assms False holds show ?thesis by auto
  next
    case True
    then have "match_compiled re c s = ((case cr_paths c of None \<Rightarrow> Inr True
        | Some pats \<Rightarrow> if ps_paths s = [] then Inr False
            else every_path pats (ps_cwd s) (cr_ci c) (ps_paths s)) :: 'o policy_error + bool)"
      by (auto simp: match_compiled_def subject_tags_def split: option.splits)
    with assms True holds show ?thesis
      by (auto simp: path_clause_def dest!: every_path_Inr split: option.splits if_splits)
  qed
qed

section \<open>The engine\<close>

lemma first_match_Inr:
  "first_match re cs s = Inr found \<Longrightarrow> found = List.find (\<lambda>c. rule_holds re c s) cs"
proof (induction cs)
  case Nil
  then show ?case by simp
next
  case (Cons c cs)
  then obtain ok where ok: "match_compiled re c s = (Inr ok :: offence policy_error + bool)"
    by (auto split: sum.splits)
  from match_compiled_Inr [OF ok] Cons ok show ?case by (auto split: if_splits)
qed

lemma compile_rule_Inr:
  "compile_rule re r = (Inr c :: 'o policy_error + _) \<Longrightarrow>
   cr_rule c = r \<and> cr_kind c = map_option (\<lambda>k. (k = [''*''], k)) (pm_kind (rule_match r))"
  by (auto simp: compile_rule_def Let_def split: if_splits sum.splits)

lemma compile_rules_Inr:
  "compile_rules re rs = (Inr cs :: 'o policy_error + _) \<Longrightarrow>
   map cr_rule cs = rs \<and>
   (\<forall>c \<in> set cs. cr_kind c = map_option (\<lambda>k. (k = [''*''], k)) (pm_kind (rule_match (cr_rule c))))"
  by (induction rs arbitrary: cs) (auto split: sum.splits dest!: compile_rule_Inr)

lemma create_engine_Inr:
  assumes "create_policy_engine re doc ceil pid name unres = Inr en"
  shows "en_id en = pid" "en_default en = pol_default doc" "en_ceiling en = ceil"
    "en_ceiling_name en = name" "map cr_rule (en_compiled en) = pol_rules doc"
    "\<forall>c \<in> set (en_compiled en).
       cr_kind c = map_option (\<lambda>k. (k = [''*''], k)) (pm_kind (rule_match (cr_rule c)))"
    "\<forall>c. ceil = Some c \<longrightarrow> (\<exists>u. ceiling_offences doc c (Some u) = [])"
  using assms
  by (auto simp: create_policy_engine_def assert_within_ceiling_def Let_def
      dest!: compile_rules_Inr split: sum.splits option.splits if_splits)

text \<open>The verdict before the ceiling: the first rule that holds, or the default.\<close>

definition base_verdict :: "re_ops \<Rightarrow> policy_engine \<Rightarrow> policy_subject \<Rightarrow> policy_verdict" where
  "base_verdict re en s =
     (case List.find (\<lambda>c. rule_holds re c s) (en_compiled en) of
        None \<Rightarrow> default_verdict (en_id en) (en_default en)
      | Some c \<Rightarrow> rule_verdict (en_id en) (cr_rule c))"

lemma decide_Inr:
  assumes "decide re en s = Inr v"
  shows "v = (case en_ceiling en of None \<Rightarrow> base_verdict re en s
                | Some c \<Rightarrow> clamp_verdict (base_verdict re en s) c s (en_ceiling_name en))"
  using assms
  by (auto simp: decide_def base_verdict_def Let_def dest!: first_match_Inr
      split: sum.splits option.splits)

text \<open>The static half: what no offence in one rule means.\<close>

lemma no_offence_rule:
  assumes "ceiling_offences doc c u = []" "r \<in> set (pol_rules doc)"
  shows "dominates (max_action c) (rule_action r)" "rule_action r = Park \<Longrightarrow> may_park c"
    "allow_kind_offences r c = []" "deny_kind_offences r c = []" "path_offences r c = []"
proof -
  have "rule_offences c r = []" using assms by (auto simp: ceiling_offences_def)
  then show "dominates (max_action c) (rule_action r)" "rule_action r = Park \<Longrightarrow> may_park c"
    "allow_kind_offences r c = []" "deny_kind_offences r c = []" "path_offences r c = []"
    by (auto simp: rule_offences_def split: if_splits)
qed

lemma no_offence_default:
  assumes "ceiling_offences doc c u = []"
  shows "dominates (max_action c) (pol_default doc)" "pol_default doc = Park \<Longrightarrow> may_park c"
    "pol_default doc = Allow \<Longrightarrow> \<not> scoped c"
  using assms by (auto simp: ceiling_offences_def default_offences_def split: if_splits)

lemma kind_in_clause:
  assumes "rule_holds re cr s"
    and "cr_kind cr = map_option (\<lambda>k. (k = [''*''], k)) (pm_kind (rule_match (cr_rule cr)))"
    and "pm_kind (rule_match (cr_rule cr)) = Some ks" "ks \<noteq> [''*'']"
  shows "\<exists>k \<in> set ks. ps_kind s = Some k"
  using assms by (auto simp: rule_holds_def)

text \<open>Without path roots, and with commands permitted, a rule that passed is never refused.\<close>

lemma passed_rule_permitted:
  assumes "ceiling_offences doc c u = []" "cr_rule cr \<in> set (pol_rules doc)"
    and "cr_kind cr = map_option (\<lambda>k. (k = [''*''], k)) (pm_kind (rule_match (cr_rule cr)))"
    and "rule_holds re cr s" "path_roots c = None" "commands c"
  shows "refusal (rule_action (cr_rule cr)) c s = None"
proof (cases "rule_action (cr_rule cr) = Allow")
  case False
  then show ?thesis
    using no_offence_rule(1,2) [OF assms(1,2)] by (auto simp: refusal_def)
next
  case True
  note off = no_offence_rule [OF assms(1,2)]
  have m: "max_action c = Allow"
    using off(1) True by (cases "max_action c") (auto simp: dominates_def)
  have a: "\<exists>k \<in> set ks. ps_kind s = Some k" if "allow_kinds c = Some ks" for ks
  proof -
    from off(3) True that obtain kinds where kinds:
      "pm_kind (rule_match (cr_rule cr)) = Some kinds" "kinds \<noteq> [''*'']" "set kinds \<subseteq> set ks"
      by (auto simp: allow_kind_offences_def filter_empty_conv split: option.splits if_splits)
    from kind_in_clause [OF assms(4,3) kinds(1,2)] kinds(3) show ?thesis by blast
  qed
  have d: "ps_kind s \<noteq> Some k" if "k \<in> set (deny_kinds c)" for k
  proof -
    have ne: "deny_kinds c \<noteq> []" using that by auto
    from off(4) True ne obtain kinds where kinds:
      "pm_kind (rule_match (cr_rule cr)) = Some kinds" "kinds \<noteq> [''*'']"
      "\<forall>x \<in> set kinds. x \<notin> set (deny_kinds c)"
      by (auto simp: deny_kind_offences_def grants_def filter_empty_conv
          split: option.splits if_splits)
    from kind_in_clause [OF assms(4,3) kinds(1,2)] kinds(3) that show ?thesis by auto
  qed
  show ?thesis
    using m a d assms(5,6) True by (auto simp: allow_permitted_iff allow_in_scope_def)
qed

lemma passed_default_permitted:
  assumes "ceiling_offences doc c u = []" "commands c"
  shows "refusal (pol_default doc) c s = None"
proof (cases "pol_default doc = Allow")
  case False
  then show ?thesis using no_offence_default [OF assms(1)] by (auto simp: refusal_def)
next
  case True
  with no_offence_default [OF assms(1)] assms(2) have "max_action c = Allow" "\<not> scoped c"
    by (cases "max_action c"; auto simp: dominates_def)+
  with assms(2) True show ?thesis
    by (auto simp: allow_permitted_iff allow_in_scope_def scoped_def)
qed

end
