(* ===== verification/PolicyPresets.thy ===== *)
theory PolicyPresets
  imports PolicyProps
begin

text \<open>
  The built-in presets and their resolution: \<open>packages/core/src/policy/presets.ts\<close>. The available
  presets are the list of entries of the record; \<open>extends\<close> is followed transitively and a cycle is
  an error, which is also why \<open>expand_preset\<close> ends: every step moves a known name to \<open>seen\<close>.
\<close>

section \<open>Presets as data\<close>

record policy_preset =
  pre_extends :: "string option"
  pre_default :: policy_action
  pre_rules :: "policy_rule list"
  pre_alert :: "string list"

definition parsed_match :: policy_match where
  "parsed_match = \<lparr>pm_subject = Some SubjAny, pm_method = Some MethAny, pm_kind = None,
     pm_path = None, pm_cmd = None, pm_agent = None\<rparr>"

definition preset_readonly :: policy_preset where
  "preset_readonly = \<lparr>pre_extends = None, pre_default = Deny,
     pre_rules = [\<lparr>rule_id = ''r1'',
       rule_match = parsed_match\<lparr>pm_kind := Some [''read'', ''search'', ''think'', ''fetch'']\<rparr>,
       rule_action = Allow\<rparr>],
     pre_alert = []\<rparr>"

definition contain_rule :: "policy_rule \<Rightarrow> policy_rule" where
  "contain_rule r =
     (if rule_action r = Allow
      then r\<lparr>rule_match := (rule_match r)\<lparr>pm_path := Some [''**'']\<rparr>\<rparr> else r)"

definition preset_readonly_contained :: policy_preset where
  "preset_readonly_contained = \<lparr>pre_extends = None, pre_default = pre_default preset_readonly,
     pre_rules = map contain_rule (pre_rules preset_readonly), pre_alert = []\<rparr>"

definition preset_deny_all :: policy_preset where
  "preset_deny_all = \<lparr>pre_extends = None, pre_default = Deny, pre_rules = [], pre_alert = []\<rparr>"

definition preset_src_edit :: policy_preset where
  "preset_src_edit = \<lparr>pre_extends = Some ''readonly'', pre_default = Park,
     pre_rules =
       [\<lparr>rule_id = ''e1'',
         rule_match = parsed_match\<lparr>pm_kind := Some [''edit''],
           pm_path := Some [''src/**'', ''test/**'', ''tests/**'']\<rparr>, rule_action = Allow\<rparr>,
        \<lparr>rule_id = ''d1'', rule_match = parsed_match\<lparr>pm_kind := Some [''delete'']\<rparr>,
         rule_action = Deny\<rparr>,
        \<lparr>rule_id = ''c1'',
         rule_match = parsed_match\<lparr>pm_subject := Some SubjCommand,
           pm_cmd := Some ''(pnpm|npm) (test|run build)''\<rparr>, rule_action = Allow\<rparr>],
     pre_alert = []\<rparr>"

definition preset_full :: policy_preset where
  "preset_full = \<lparr>pre_extends = None, pre_default = Allow,
     pre_rules = [\<lparr>rule_id = ''p1'', rule_match = parsed_match\<lparr>pm_kind := Some [''delete'']\<rparr>,
       rule_action = Park\<rparr>],
     pre_alert = []\<rparr>"

definition builtin_policies :: "(string \<times> policy_preset) list" where
  "builtin_policies =
     [(''deny-all'', preset_deny_all), (''readonly'', preset_readonly),
      (''readonly-contained'', preset_readonly_contained), (''src-edit'', preset_src_edit),
      (''full'', preset_full)]"

section \<open>Resolution\<close>

type_synonym layer = "string \<times> policy_preset"

lemma unseen_shrinks:
  fixes av :: "(string \<times> policy_preset) list"
  shows "map_of av n = Some p \<Longrightarrow> n \<notin> set seen \<Longrightarrow>
   length (filter (\<lambda>(k, _). k \<notin> set (seen @ [n])) av) < length (filter (\<lambda>(k, _). k \<notin> set seen) av)"
proof (induction av)
  case Nil
  then show ?case by simp
next
  case (Cons kp av)
  obtain k q where kp: "kp = (k, q)" by (cases kp)
  have le: "length (filter (\<lambda>(k, _). k \<notin> set (seen @ [n])) xs)
      \<le> length (filter (\<lambda>(k, _). k \<notin> set seen) xs)" for xs :: "(string \<times> policy_preset) list"
    by (induction xs) auto
  show ?case
  proof (cases "k = n")
    case True
    with Cons.prems(2) le [of av] show ?thesis by (simp add: kp)
  next
    case False
    with Cons show ?thesis by (simp add: kp)
  qed
qed

function expand_preset ::
  "string \<Rightarrow> (string \<times> policy_preset) list \<Rightarrow> string list \<Rightarrow> 'o policy_error + layer list" where
  "expand_preset n av seen =
     (if n \<in> set seen then Inl (PBad ''preset cycle'')
      else (case map_of av n of
              None \<Rightarrow> Inl (PBad ''unknown preset'')
            | Some p \<Rightarrow>
                (case pre_extends p of
                   None \<Rightarrow> Inr [(n, p)]
                 | Some b \<Rightarrow>
                     (case expand_preset b av (seen @ [n]) of
                        Inl e \<Rightarrow> Inl e
                      | Inr ls \<Rightarrow> Inr (ls @ [(n, p)])))))"
  by pat_completeness auto
termination
  by (relation "measure (\<lambda>(n, av, seen). length (filter (\<lambda>(k, _). k \<notin> set seen) av))")
     (auto dest: unseen_shrinks)

declare expand_preset.simps [simp del]

fun dedupe_keeping_last :: "layer list \<Rightarrow> layer list" where
  "dedupe_keeping_last [] = []"
| "dedupe_keeping_last (l # ls) =
     (if fst l \<in> fst ` set ls then dedupe_keeping_last ls else l # dedupe_keeping_last ls)"

text \<open>\<open>prefix\<close>: the layer's name in front of every id, a duplicate id being an error.\<close>

definition prefix_rules :: "string \<Rightarrow> policy_rule list \<Rightarrow> 'o policy_error + policy_rule list" where
  "prefix_rules layer rs =
     (if distinct (map rule_id rs)
      then Inr (map (\<lambda>r. r\<lparr>rule_id := layer @ '':'' @ rule_id r\<rparr>) rs)
      else Inl (PBad ''duplicate rule id''))"

fun prefix_layers :: "layer list \<Rightarrow> 'o policy_error + policy_rule list" where
  "prefix_layers [] = Inr []"
| "prefix_layers ((n, p) # ls) =
     (case prefix_rules n (pre_rules p) of
        Inl e \<Rightarrow> Inl e
      | Inr rs \<Rightarrow> (case prefix_layers ls of Inl e \<Rightarrow> Inl e | Inr rs2 \<Rightarrow> Inr (rs @ rs2)))"

fun expand_all ::
  "string list \<Rightarrow> (string \<times> policy_preset) list \<Rightarrow> 'o policy_error + layer list" where
  "expand_all [] av = Inr []"
| "expand_all (n # ns) av =
     (case expand_preset n av [] of
        Inl e \<Rightarrow> Inl e
      | Inr ls \<Rightarrow> (case expand_all ns av of Inl e \<Rightarrow> Inl e | Inr ls2 \<Rightarrow> Inr (ls @ ls2)))"

datatype policy_selection =
    SelFallback
  | SelName string
  | SelList "string list"
  | SelDoc "string list option" "policy_action option" "policy_rule list option"

fun selected_names :: "policy_selection \<Rightarrow> string \<Rightarrow> string list" where
  "selected_names SelFallback fallback = [fallback]"
| "selected_names (SelName n) fallback = [n]"
| "selected_names (SelList ns) fallback = (if ns = [] then [fallback] else ns)"
| "selected_names (SelDoc ns d rs) fallback =
     (case ns of None \<Rightarrow> [fallback] | Some ns \<Rightarrow> if ns = [] then [fallback] else ns)"

fun inline_default :: "policy_selection \<Rightarrow> policy_action option" where
  "inline_default (SelDoc ns d rs) = d"
| "inline_default _ = None"

fun inline_rules :: "policy_selection \<Rightarrow> policy_rule list" where
  "inline_rules (SelDoc ns d rs) = (case rs of None \<Rightarrow> [] | Some rs \<Rightarrow> rs)"
| "inline_rules _ = []"

definition has_inline :: "policy_selection \<Rightarrow> bool" where
  "has_inline sel \<longleftrightarrow> inline_default sel \<noteq> None \<or> inline_rules sel \<noteq> []"

text \<open>\<open>join("+")\<close> and the order-preserving \<open>new Set\<close>.\<close>

fun join_plus :: "string list \<Rightarrow> string" where
  "join_plus [] = []"
| "join_plus [s] = s"
| "join_plus (s # t # ss) = s @ ''+'' @ join_plus (t # ss)"

definition unique_in_order :: "'a list \<Rightarrow> 'a list" where
  "unique_in_order xs = fold set_add xs []"

definition resolve_policy_selection ::
  "policy_selection \<Rightarrow> (string \<times> policy_preset) list \<Rightarrow> string
   \<Rightarrow> 'o policy_error + resolved_policy" where
  "resolve_policy_selection sel av fallback =
     (case expand_all (selected_names sel fallback) av of
        Inl e \<Rightarrow> Inl e
      | Inr layers \<Rightarrow>
          (let applied = dedupe_keeping_last layers;
               sources = map fst applied @ (if has_inline sel then [''inline''] else []) in
           case (if has_inline sel then prefix_rules ''inline'' (inline_rules sel) else Inr []) of
             Inl e \<Rightarrow> Inl e
           | Inr first_rules \<Rightarrow>
               (case prefix_layers (rev applied) of
                  Inl e \<Rightarrow> Inl e
                | Inr layer_rules \<Rightarrow>
                    Inr \<lparr>pol_id = join_plus sources, pol_sources = sources,
                         pol_default = (case inline_default sel of
                             Some d \<Rightarrow> d
                           | None \<Rightarrow> if applied = [] then Deny
                                     else pre_default (snd (last applied))),
                         pol_rules = first_rules @ layer_rules,
                         pol_alert = unique_in_order (concat (map (pre_alert \<circ> snd) applied))\<rparr>)))"

end
