(* ===== verification/PolicyClaims.thy ===== *)
theory PolicyClaims
  imports PolicyProps
begin

text \<open>The claims about the policy engine, each with a run it applies to.\<close>

section \<open>Sample policies\<close>

text \<open>A regex engine that only knows literal sources.\<close>

definition literal_re :: re_ops where
  "literal_re = \<lparr>re_valid = \<lambda>src. True, re_test = \<lambda>src ci x. src = ''^(?:'' @ x @ '')$''\<rparr>"

definition no_clause :: policy_match where
  "no_clause = \<lparr>pm_subject = None, pm_method = None, pm_kind = None, pm_path = None,
     pm_cmd = None, pm_agent = None\<rparr>"

definition edit_rule :: "string \<Rightarrow> string list \<Rightarrow> policy_action \<Rightarrow> policy_rule" where
  "edit_rule rid pats a = \<lparr>rule_id = rid,
     rule_match = no_clause\<lparr>pm_kind := Some [''edit''], pm_path := Some pats\<rparr>, rule_action = a\<rparr>"

definition kind_rule :: "string \<Rightarrow> string list \<Rightarrow> policy_action \<Rightarrow> policy_rule" where
  "kind_rule rid ks a =
     \<lparr>rule_id = rid, rule_match = no_clause\<lparr>pm_kind := Some ks\<rparr>, rule_action = a\<rparr>"

definition tool_subject :: "string \<Rightarrow> string list \<Rightarrow> string \<Rightarrow> policy_subject" where
  "tool_subject k paths cwd = \<lparr>ps_method = RequestPermission, ps_type = ''tool_call'',
     ps_kind = Some k, ps_paths = paths, ps_command = None, ps_title = '''',
     ps_agent = ''claude'', ps_cwd = cwd\<rparr>"

definition policy_of :: "policy_action \<Rightarrow> policy_rule list \<Rightarrow> resolved_policy" where
  "policy_of d rs = \<lparr>pol_id = ''p'', pol_sources = [''p''], pol_default = d, pol_rules = rs,
     pol_alert = []\<rparr>"

definition open_ceiling :: policy_ceiling where
  "open_ceiling = \<lparr>max_action = Allow, allow_kinds = None, deny_kinds = [], path_roots = None,
     commands = True, may_park = True\<rparr>"

text \<open>Build an engine and decide one subject.\<close>

definition build_and_decide ::
  "resolved_policy \<Rightarrow> policy_ceiling option \<Rightarrow> policy_subject
   \<Rightarrow> offence policy_error + policy_verdict" where
  "build_and_decide doc c s =
     (case create_policy_engine literal_re doc c ''p'' None None of
        Inl e \<Rightarrow> Inl e | Inr en \<Rightarrow> decide literal_re en s)"

definition src_policy :: resolved_policy where
  "src_policy = policy_of Park [edit_rule ''preset:e1'' [''/repo/src*/**''] Allow]"

definition src_ceiling :: policy_ceiling where
  "src_ceiling = open_ceiling\<lparr>path_roots := Some [''/repo/src'']\<rparr>"

definition engine_of :: "resolved_policy \<Rightarrow> policy_ceiling option \<Rightarrow> policy_engine" where
  "engine_of doc c =
     (case create_policy_engine literal_re doc c ''p'' None None of Inr en \<Rightarrow> en)"

section \<open>Properties\<close>

text \<open>
  The engine decides by the first rule that holds. If an engine was built and decides a
  subject, the verdict is that of the first rule of the document (in the order it lists them) all
  of whose clauses hold for the subject, read declaratively, or of the document's default when none
  does, put through the ceiling's clamp when there is a ceiling.
\<close>

theorem engine_first_match:
  assumes "create_policy_engine re doc ceil pid name unres = Inr en" and "decide re en s = Inr v"
  shows "map cr_rule (en_compiled en) = pol_rules doc \<and>
    (let w = (case List.find (\<lambda>c. rule_holds re c s) (en_compiled en) of
                None \<Rightarrow> default_verdict pid (pol_default doc)
              | Some c \<Rightarrow> rule_verdict pid (cr_rule c))
     in v = (case ceil of None \<Rightarrow> w | Some c \<Rightarrow> clamp_verdict w c s name))"
  using decide_Inr [OF assms(2)] create_engine_Inr [OF assms(1)]
  by (auto simp: base_verdict_def Let_def split: option.split)

theorem engine_first_match_witness:
  "let en = engine_of src_policy None; s = tool_subject ''edit'' [''/repo/src/a''] ''/repo'' in
   \<exists>v. decide literal_re en s = Inr v \<and> v_action v = Allow \<and>
     v = (case List.find (\<lambda>c. rule_holds literal_re c s) (en_compiled en) of
            None \<Rightarrow> default_verdict ''p'' Park | Some c \<Rightarrow> rule_verdict ''p'' (cr_rule c))"
proof -
  let ?en = "engine_of src_policy None" and ?s = "tool_subject ''edit'' [''/repo/src/a''] ''/repo''"
  have en: "create_policy_engine literal_re src_policy None ''p'' None None = Inr ?en"
    by code_simp
  have d: "case decide literal_re ?en ?s of Inl _ \<Rightarrow> False | Inr v \<Rightarrow> v_action v = Allow"
    by code_simp
  then obtain v where v: "decide literal_re ?en ?s = Inr v" "v_action v = Allow"
    by (auto split: sum.splits)
  have dflt: "pol_default src_policy = Park" by (simp add: src_policy_def policy_of_def)
  from engine_first_match [OF en v(1), unfolded dflt Let_def] v show ?thesis
    by (simp only: Let_def option.case) blast
qed

text \<open>
  C38: The ceiling is never exceeded, and never silently. Whatever the document says, an engine
  built under a ceiling answers no action wider than \<open>maxAction\<close>, parks only if parking is
  permitted, and allows only a subject whose kind is permitted and not denied, whose listed paths
  are all inside the roots (and there is at least one, when there are roots), and which is not a
  command when commands are refused. The answer is never wider than the document's own, it keeps
  the name of the rule, and when it differs the verdict says so and from which action.
\<close>

theorem engine_respects_ceiling:
  assumes "create_policy_engine re doc (Some c) pid name unres = Inr en"
    and "decide re en s = Inr v"
  shows "dominates (max_action c) (v_action v)
    \<and> (v_action v = Park \<longrightarrow> may_park c) \<and> (v_action v = Allow \<longrightarrow> allow_in_scope c s)
    \<and> action_rank (v_action v) \<le> action_rank (v_action (base_verdict re en s))
    \<and> v_rule v = v_rule (base_verdict re en s)
    \<and> (if v_clamped v = None then v = base_verdict re en s
       else v_source v = SrcCeiling \<and>
            map_option clamp_from (v_clamped v) = Some (v_action (base_verdict re en s)))"
proof -
  let ?w = "base_verdict re en s"
  have v: "v = clamp_verdict ?w c s name"
    using decide_Inr [OF assms(2)] create_engine_Inr [OF assms(1)] by simp
  have p: "refusal (v_action v) c s = None" unfolding v by (rule clamp_action_permitted)
  have w: "v_clamped ?w = None"
    by (simp add: base_verdict_def default_verdict_def rule_verdict_def split: option.split)
  have "dominates (max_action c) (v_action v)" using p by (auto simp: refusal_def split: if_splits)
  moreover have "v_action v = Park \<longrightarrow> may_park c" using p by (auto simp: refusal_def split: if_splits)
  moreover have "v_action v = Allow \<longrightarrow> allow_in_scope c s" using p allow_permitted_iff by metis
  moreover have "if v_clamped v = None then v = ?w
       else v_source v = SrcCeiling \<and> map_option clamp_from (v_clamped v) = Some (v_action ?w)"
  proof (cases "refusal (v_action ?w) c s")
    case None
    then have "v = ?w" by (simp add: v clamp_keeps_permitted)
    with w show ?thesis by simp
  next
    case (Some why)
    from clamp_records [OF this] show ?thesis by (simp add: v)
  qed
  ultimately show ?thesis using v clamp_lowers clamp_rule by simp
qed

theorem engine_respects_ceiling_witness:
  "let en = engine_of src_policy (Some src_ceiling);
       s = tool_subject ''edit'' [''/repo/src-secrets/k''] ''/repo'' in
   \<exists>v. decide literal_re en s = Inr v \<and> v_action (base_verdict literal_re en s) = Allow \<and>
     v_action v = Park \<and> v_source v = SrcCeiling"
proof -
  let ?en = "engine_of src_policy (Some src_ceiling)"
  let ?s = "tool_subject ''edit'' [''/repo/src-secrets/k''] ''/repo''"
  have en: "create_policy_engine literal_re src_policy (Some src_ceiling) ''p'' None None = Inr ?en"
    by code_simp
  have d: "case decide literal_re ?en ?s of Inl _ \<Rightarrow> False
      | Inr v \<Rightarrow> v_action v = Park \<and> map_option clamp_from (v_clamped v) = Some Allow" by code_simp
  then obtain v where v: "decide literal_re ?en ?s = Inr v" "v_action v = Park"
    "map_option clamp_from (v_clamped v) = Some Allow" by (auto split: sum.splits)
  from engine_respects_ceiling [OF en v(1)] v show ?thesis
    by (auto simp: Let_def split: if_splits)
qed

text \<open>
  Where the static check is complete. Under a ceiling without path roots that permits command
  rules, an engine that could be built never needs its clamp: whatever subject it decides, the
  verdict is the document's own. So the runtime clamp exists only for paths and commands, which
  the static check cannot see.
\<close>

theorem static_check_complete:
  assumes "create_policy_engine re doc (Some c) pid name unres = Inr en"
    and "path_roots c = None" and "commands c" and "decide re en s = Inr v"
  shows "v = base_verdict re en s \<and> v_clamped v = None"
proof -
  note en = create_engine_Inr [OF assms(1)]
  from en(7) obtain u where off: "ceiling_offences doc c (Some u) = []" by blast
  let ?w = "base_verdict re en s"
  have "refusal (v_action ?w) c s = None"
  proof (cases "List.find (\<lambda>cr. rule_holds re cr s) (en_compiled en)")
    case None
    then show ?thesis
      using passed_default_permitted [OF off assms(3)]
      by (simp add: base_verdict_def default_verdict_def en(2))
  next
    case (Some cr)
    then have cr: "cr \<in> set (en_compiled en)" "rule_holds re cr s" by (auto dest: find_SomeD)
    have "cr_rule cr \<in> set (pol_rules doc)" using cr(1) by (simp flip: en(5))
    from passed_rule_permitted [OF off this _ cr(2) assms(2,3)] en(6) cr(1) Some show ?thesis
      by (simp add: base_verdict_def rule_verdict_def)
  qed
  moreover have "v = clamp_verdict ?w c s name" using decide_Inr [OF assms(4)] en by simp
  moreover have "v_clamped ?w = None"
    by (simp add: base_verdict_def default_verdict_def rule_verdict_def split: option.split)
  ultimately show ?thesis by (simp add: clamp_keeps_permitted)
qed

definition kinds_policy :: resolved_policy where
  "kinds_policy = policy_of Deny [kind_rule ''preset:k'' [''read'', ''search''] Allow]"

definition kinds_ceiling :: policy_ceiling where
  "kinds_ceiling = open_ceiling
     \<lparr>allow_kinds := Some [''search'', ''read'', ''think''], deny_kinds := [''delete'']\<rparr>"

theorem static_check_complete_witness:
  "let en = engine_of kinds_policy (Some kinds_ceiling); s = tool_subject ''read'' [] ''/repo'' in
   \<exists>v. decide literal_re en s = Inr v \<and> v_action v = Allow \<and> v_clamped v = None"
proof -
  let ?en = "engine_of kinds_policy (Some kinds_ceiling)"
  let ?s = "tool_subject ''read'' [] ''/repo''"
  have en: "create_policy_engine literal_re kinds_policy (Some kinds_ceiling) ''p'' None None = Inr ?en"
    by code_simp
  have d: "case decide literal_re ?en ?s of Inl _ \<Rightarrow> False | Inr v \<Rightarrow> v_action v = Allow" by code_simp
  then obtain v where v: "decide literal_re ?en ?s = Inr v" "v_action v = Allow"
    by (auto split: sum.splits)
  have "path_roots kinds_ceiling = None" "commands kinds_ceiling"
    by (simp_all add: kinds_ceiling_def open_ceiling_def)
  from static_check_complete [OF en this v(1)] v show ?thesis by (simp only: Let_def) blast
qed

text \<open>
  A path clause is never satisfied by vacuity. A rule with a path clause matches a subject
  only if the subject lists at least one path and every listed path is in the language of one of
  the rule's patterns, anchored to the working directory when relative and folded by case exactly
  when the rule does not grant.
\<close>

theorem path_clause_covers_every_path:
  assumes "compile_rule re r = (Inr c :: 'o policy_error + _)"
    and "match_compiled re c s = (Inr True :: 'o policy_error + _)"
    and "pm_path (rule_match r) = Some pats"
  shows "ps_paths s \<noteq> [] \<and>
    (\<forall>p \<in> set (ps_paths s). \<exists>pat \<in> normalize_separators ` set pats.
       normalize_separators p \<in> toks_lang (rule_action r \<noteq> Allow)
         (to_tokens None [] (normalize_separators (anchor pat (ps_cwd s)))))"
proof -
  have cp: "compile_paths ci ps = (Inr ns :: 'o policy_error + _) \<Longrightarrow>
      ns = map normalize_separators ps" for ci ps ns
    by (induction ps arbitrary: ns)
       (auto simp: compile_path_def Let_def split: sum.splits if_splits)
  have cp2: "map_sum id Some (compile_paths ci ps :: 'o policy_error + _) = Inr x \<Longrightarrow>
      x = Some (map normalize_separators ps)" for ci ps x
    by (cases "compile_paths ci ps :: 'o policy_error + _") (auto dest: cp)
  have "cr_paths c = Some (map normalize_separators pats) \<and> cr_ci c = (rule_action r \<noteq> Allow)"
    using assms(1,3)
    by (auto simp: compile_rule_def Let_def folds_case_def dest!: cp2 split: if_splits sum.splits)
  moreover have "rule_holds re c s" using match_compiled_Inr [OF assms(2)] by simp
  ultimately show ?thesis by (auto simp: rule_holds_def path_clause_def)
qed

theorem path_clause_covers_every_path_witness:
  "normalize_separators ''/repo/src/a.ts'' \<in> toks_lang False
     (to_tokens None [] (normalize_separators (anchor ''src/**'' ''/repo'')))"
proof -
  let ?r = "edit_rule ''e1'' [''src/**''] Allow"
  let ?s = "tool_subject ''edit'' [''/repo/src/a.ts''] ''/repo''"
  have "case compile_rule literal_re ?r :: unit policy_error + _ of Inl _ \<Rightarrow> False
      | Inr c \<Rightarrow> match_compiled literal_re c ?s = (Inr True :: unit policy_error + bool)"
    by code_simp
  then obtain c where c: "compile_rule literal_re ?r = (Inr c :: unit policy_error + _)"
    "match_compiled literal_re c ?s = (Inr True :: unit policy_error + bool)"
    by (auto split: sum.splits)
  have p: "pm_path (rule_match ?r) = Some [''src/**'']"
    by (simp add: edit_rule_def)
  have "normalize_separators ''src/**'' = ''src/**''" by code_simp
  with path_clause_covers_every_path [OF c p] show ?thesis
    by (simp add: tool_subject_def edit_rule_def)
qed

section \<open>Where the engine does less than its comments promise\<close>

text \<open>
  The working directory is spliced into a relative pattern unescaped. With a working directory
  whose name contains a bracket expression, an \<open>allow\<close> rule on \<open>src/**\<close> grants an edit in a
  different directory, outside the working directory, and does not grant it inside.
\<close>

theorem cwd_wildcards_widen_a_grant:
  "let doc = policy_of Deny [edit_rule ''preset:e1'' [''src/**''] Allow]; cwd = ''/w/[x]'' in
   (case build_and_decide doc None (tool_subject ''edit'' [''/w/x/src/a.ts''] cwd) of
      Inl _ \<Rightarrow> False | Inr v \<Rightarrow> v_action v = Allow) \<and>
   (case build_and_decide doc None (tool_subject ''edit'' [''/w/[x]/src/a.ts''] cwd) of
      Inl _ \<Rightarrow> False | Inr v \<Rightarrow> v_action v = Deny)"
  by code_simp

text \<open>
  A restriction with a path clause can be evaded. The all-must-match rule that keeps a second
  path from laundering a grant works the other way for a \<open>deny\<close> rule: under a default of
  \<open>allow\<close>, an edit of \<open>/etc/passwd\<close> is denied alone, and allowed when the call also lists a
  path outside, lists no path at all, or names a file whose name contains a line break, which
  the \<open>.\<close> of the translated \<open>**\<close> does not match.
\<close>

theorem deny_path_rule_evaded:
  "let doc = policy_of Allow [edit_rule ''preset:d1'' [''/etc/**''] Deny];
       verdict = (\<lambda>paths. case build_and_decide doc None (tool_subject ''edit'' paths ''/w'') of
                            Inl _ \<Rightarrow> None | Inr v \<Rightarrow> Some (v_action v)) in
   verdict [''/etc/passwd''] = Some Deny \<and>
   verdict [''/etc/passwd'', ''/tmp/x''] = Some Allow \<and>
   verdict [] = Some Allow \<and>
   verdict [''/etc/a'' @ [CHR 0x0A] @ ''b''] = Some Allow"
  by code_simp

text \<open>
  \<open>decide\<close> is not total. A relative pattern is compiled only when a subject arrives, so a
  pattern whose class has its range the wrong way round passes every load-time check and then
  throws a \<open>SyntaxError\<close> out of \<open>decide\<close>; and a legal pattern together with a long working
  directory exceeds the 512 characters a glob may have and throws \<open>bad_request\<close> there.
\<close>

theorem decide_throws_after_load:
  "(let doc = policy_of Deny [edit_rule ''preset:e1'' [''src/[z-a].ts''] Allow] in
    \<not> isl (create_policy_engine literal_re doc None ''p'' None None) \<and>
    build_and_decide doc None (tool_subject ''edit'' [''/w/src/a.ts''] ''/w'') = Inl PSyntax) \<and>
   (let doc = policy_of Deny [edit_rule ''preset:e1'' [replicate 300 (CHR ''a'')] Allow] in
    \<not> isl (create_policy_engine literal_re doc None ''p'' None None) \<and>
    build_and_decide doc None
      (tool_subject ''edit'' [''/w/x''] (CHR ''/'' # replicate 300 (CHR ''b'')))
      = Inl (PBad ''long glob''))"
  by code_simp

text \<open>
  A denied kind can still be parked. The ceiling's \<open>denyKinds\<close> are the kinds that may never
  exceed \<open>deny\<close>; but the static check looks at them only for rules and the clamp only for an
  \<open>allow\<close>, so under a document whose default is \<open>park\<close> a subject of a denied kind is parked, to
  be granted by whoever answers.
\<close>

theorem denied_kind_is_parked:
  "let c = open_ceiling\<lparr>deny_kinds := [''delete'']\<rparr>;
       doc = policy_of Park [kind_rule ''preset:r1'' [''read''] Allow] in
   (case build_and_decide doc (Some c) (tool_subject ''delete'' [''/w/a''] ''/w'') of
      Inl _ \<Rightarrow> False
    | Inr v \<Rightarrow> v_action v = Park \<and> v_clamped v = None
        \<and> action_rank (v_action v) > action_rank Deny)"
  by code_simp

text \<open>
  The detector of catastrophic command patterns misses a wrapped alternation. \<open>(a|a)*\<close> is
  refused at load; \<open>((a|a))*\<close>, the same pattern with one more group, is accepted, and so is
  \<open>(a?a?)*\<close>.
\<close>

theorem wrapped_alternation_accepted:
  "is_catastrophic ''(a|a)*'' \<and> is_catastrophic ''(a+)+'' \<and>
   \<not> is_catastrophic ''((a|a))*'' \<and> \<not> is_catastrophic ''(a?a?)*'' \<and>
   compile_command_regex literal_re ''((a|a))*b'' False
     = (Inr (''^(?:((a|a))*b)$'', False) :: unit policy_error + _)"
  by code_simp

end
