(* ===== verification/PresetClaims.thy ===== *)
theory PresetClaims
  imports PolicyPresets PolicyClaims GlobProps
begin

text \<open>What the built-in presets grant, and that an inline rule is consulted first.\<close>

section \<open>Resolved documents\<close>

lemma expand_base:
  "map_of av n = Some p \<Longrightarrow> pre_extends p = None \<Longrightarrow> expand_preset n av [] = Inr [(n, p)]"
  by (simp add: expand_preset.simps)

lemma resolve_readonly:
  "resolve_policy_selection (SelName ''readonly'') builtin_policies fb =
     (Inr \<lparr>pol_id = ''readonly'', pol_sources = [''readonly''], pol_default = Deny,
        pol_rules = [\<lparr>rule_id = ''readonly:r1'',
          rule_match = parsed_match\<lparr>pm_kind := Some [''read'', ''search'', ''think'', ''fetch'']\<rparr>,
          rule_action = Allow\<rparr>],
        pol_alert = []\<rparr> :: 'o policy_error + _)"
  by (simp add: resolve_policy_selection_def expand_base builtin_policies_def preset_readonly_def
      has_inline_def prefix_rules_def unique_in_order_def)

lemma resolve_contained:
  "resolve_policy_selection (SelName ''readonly-contained'') builtin_policies fb =
     (Inr \<lparr>pol_id = ''readonly-contained'', pol_sources = [''readonly-contained''],
        pol_default = Deny,
        pol_rules = [\<lparr>rule_id = ''readonly-contained:r1'',
          rule_match = parsed_match\<lparr>pm_kind := Some [''read'', ''search'', ''think'', ''fetch''],
            pm_path := Some [''**'']\<rparr>,
          rule_action = Allow\<rparr>],
        pol_alert = []\<rparr> :: 'o policy_error + _)"
  by (simp add: resolve_policy_selection_def expand_base builtin_policies_def preset_readonly_def
      preset_readonly_contained_def contain_rule_def has_inline_def prefix_rules_def
      unique_in_order_def)

text \<open>With a single grant and a default of \<open>deny\<close>, an allow comes from the grant.\<close>

lemma single_grant:
  assumes "create_policy_engine re doc None pid name unres = Inr en"
    and "decide re en s = Inr v" "v_action v = Allow"
    and "pol_rules doc = [r]" "pol_default doc = Deny"
  shows "\<exists>c. compile_rules re [r] = (Inr [c] :: offence policy_error + _) \<and> rule_holds re c s"
proof -
  note en = create_engine_Inr [OF assms(1)]
  obtain c where c: "en_compiled en = [c]" using en(5) assms(4) by auto
  have "v = base_verdict re en s" using decide_Inr [OF assms(2)] en(3) by simp
  with assms(3,5) c have "rule_holds re c s"
    by (auto simp: base_verdict_def default_verdict_def en(2) split: if_splits)
  moreover have "compile_rules re [r] = (Inr (en_compiled en) :: offence policy_error + _)"
    using assms(1,4)
    by (auto simp: create_policy_engine_def Let_def split: sum.splits option.splits)
  ultimately show ?thesis using c by auto
qed

lemma compile_one:
  "compile_rules re [r] = (Inr [c] :: 'o policy_error + _) \<Longrightarrow> compile_rule re r = (Inr c :: 'o policy_error + _)"
  by (auto split: sum.splits)

lemma read_kinds:
  assumes "compile_rule re r = (Inr c :: 'o policy_error + _)" "rule_holds re c s"
    and "pm_kind (rule_match r) = Some ks" "ks \<noteq> [''*'']"
  shows "\<exists>k \<in> set ks. ps_kind s = Some k"
  using assms(2,3,4) compile_rule_Inr [OF assms(1)] by (auto simp: rule_holds_def)

lemma in_normalize:
  assumes "x \<in> set (normalize_separators p)"
  shows "x \<noteq> backslash \<and> (x = slash \<or> x \<in> set p)"
proof -
  let ?m = "map (\<lambda>c. if c = backslash then slash else c) p"
  have "x \<in> set ?m"
    using assms in_set_butlastD [of x ?m]
    by (simp add: normalize_separators_def Let_def split: if_splits del: set_map)
  then show ?thesis by auto
qed

lemma compile_contained:
  "compile_rule re \<lparr>rule_id = n, rule_match = parsed_match\<lparr>pm_kind := Some ks,
      pm_path := Some [''**'']\<rparr>, rule_action = Allow\<rparr>
   = (Inr \<lparr>cr_rule = \<lparr>rule_id = n, rule_match = parsed_match\<lparr>pm_kind := Some ks,
        pm_path := Some [''**'']\<rparr>, rule_action = Allow\<rparr>,
      cr_kind = Some (ks = [''*''], ks), cr_paths = Some [''**''], cr_cmd = None,
      cr_subject = SubjAny, cr_method = MethAny, cr_ci = False\<rparr> :: 'o policy_error + _)"
proof -
  have "compile_path False ''**'' = (Inr ''**'' :: 'o policy_error + _)"
    by (simp add: compile_path_def normalize_separators_def Let_def)
  then show ?thesis
    by (simp add: compile_rule_def parsed_match_def subject_of_def method_of_def folds_case_def
        Let_def)
qed

section \<open>Properties\<close>

text \<open>
  \<open>readonly\<close> grants reading only. An engine built from the built-in \<open>readonly\<close> preset allows
  a subject only if it is a recognized subject whose kind is \<open>read\<close>, \<open>search\<close>, \<open>think\<close> or
  \<open>fetch\<close>: never an edit, a delete, an execution, a subject without a kind or of an unknown one.
\<close>

theorem readonly_grants_reading_only:
  assumes "resolve_policy_selection (SelName ''readonly'') builtin_policies fb
      = (Inr doc :: offence policy_error + _)"
    and "create_policy_engine re doc None pid name unres = Inr en"
    and "decide re en s = Inr v" and "v_action v = Allow"
  shows "\<exists>k \<in> {''read'', ''search'', ''think'', ''fetch''}. ps_kind s = Some k"
proof -
  let ?r = "\<lparr>rule_id = ''readonly:r1'',
      rule_match = parsed_match\<lparr>pm_kind := Some [''read'', ''search'', ''think'', ''fetch'']\<rparr>,
      rule_action = Allow\<rparr>"
  have doc: "pol_rules doc = [?r]" "pol_default doc = Deny"
    using assms(1) unfolding resolve_readonly by auto
  from single_grant [OF assms(2-4) doc] obtain c where
    c: "compile_rules re [?r] = (Inr [c] :: offence policy_error + _)" "rule_holds re c s" by blast
  from read_kinds [OF compile_one [OF c(1)] c(2)] show ?thesis by simp
qed

theorem readonly_grants_reading_only_witness:
  "\<exists>k \<in> {''read'', ''search'', ''think'', ''fetch''}.
     ps_kind (tool_subject ''search'' [] ''/w'') = Some k"
proof -
  let ?s = "tool_subject ''search'' [] ''/w''"
  have "case resolve_policy_selection (SelName ''readonly'') builtin_policies ''deny-all'' of
      Inl (_ :: offence policy_error) \<Rightarrow> False
    | Inr doc \<Rightarrow>
        (case create_policy_engine literal_re doc None ''p'' None None of Inl _ \<Rightarrow> False
         | Inr en \<Rightarrow> (case decide literal_re en ?s of Inl _ \<Rightarrow> False | Inr v \<Rightarrow> v_action v = Allow))"
    by code_simp
  then obtain doc en v where
    "resolve_policy_selection (SelName ''readonly'') builtin_policies ''deny-all''
       = (Inr doc :: offence policy_error + _)"
    "create_policy_engine literal_re doc None ''p'' None None = Inr en"
    "decide literal_re en ?s = Inr v" "v_action v = Allow"
    by (auto split: sum.splits)
  then show ?thesis by (rule readonly_grants_reading_only)
qed

text \<open>
  \<open>readonly-contained\<close> grants reading inside the working directory only. When the working
  directory's name has no wildcard in it, an allowed subject lists at least one path, and every
  path it lists is inside the working directory. (The comment beside the preset says its \<open>**\<close>
  matches every absolute path; being relative it is anchored, and matches those.)
\<close>

theorem contained_grants_inside_cwd:
  assumes "resolve_policy_selection (SelName ''readonly-contained'') builtin_policies fb
      = (Inr doc :: offence policy_error + _)"
    and "create_policy_engine re doc None pid name unres = Inr en"
    and "decide re en s = Inr v" and "v_action v = Allow"
    and "\<forall>c \<in> set (ps_cwd s). \<not> wildcard c"
  shows "ps_paths s \<noteq> [] \<and> (\<forall>p \<in> set (ps_paths s). within_root p (ps_cwd s))"
proof -
  let ?r = "\<lparr>rule_id = ''readonly-contained:r1'',
      rule_match = parsed_match\<lparr>pm_kind := Some [''read'', ''search'', ''think'', ''fetch''],
        pm_path := Some [''**'']\<rparr>, rule_action = Allow\<rparr>"
  let ?cwd = "normalize_separators (ps_cwd s)"
  have doc: "pol_rules doc = [?r]" "pol_default doc = Deny"
    using assms(1) unfolding resolve_contained by auto
  from single_grant [OF assms(2-4) doc] obtain c where
    c: "compile_rules re [?r] = (Inr [c] :: offence policy_error + _)" "rule_holds re c s" by blast
  have cr: "cr_paths c = Some [''**'']" "cr_ci c = False"
    using compile_one [OF c(1)] unfolding compile_contained by auto
  have wild: "\<forall>x \<in> set ?cwd. \<not> wildcard x"
    using assms(5) in_normalize [of _ "ps_cwd s"] by (auto simp: wildcard_def)
  have n: "normalize_separators (anchor ''**'' (ps_cwd s)) = ?cwd @ ''/**''"
  proof -
    have "backslash \<notin> set ?cwd"
      using in_normalize [of backslash "ps_cwd s"] by auto
    then show ?thesis by (simp add: anchor_def normalize_clean)
  qed
  have t: "to_tokens None [] (?cwd @ ''/**'') = map Lit ?cwd @ [Tail]"
    by (rule subtree_tokens [OF wild])
  have "path_clause [''**''] False s" using c(2) cr by (simp add: rule_holds_def)
  then show ?thesis
    by (auto simp: path_clause_def n t glob_match_lang [symmetric] subtree_match within_root_def Let_def)
qed

theorem contained_grants_inside_cwd_witness:
  "let s = tool_subject ''read'' [''/w/a.ts'', ''/w/lib/b.ts''] ''/w'' in
   ps_paths s \<noteq> [] \<and> (\<forall>p \<in> set (ps_paths s). within_root p (ps_cwd s))"
proof -
  let ?s = "tool_subject ''read'' [''/w/a.ts'', ''/w/lib/b.ts''] ''/w''"
  have "case resolve_policy_selection (SelName ''readonly-contained'') builtin_policies ''deny-all'' of
      Inl (_ :: offence policy_error) \<Rightarrow> False
    | Inr doc \<Rightarrow>
        (case create_policy_engine literal_re doc None ''p'' None None of Inl _ \<Rightarrow> False
         | Inr en \<Rightarrow> (case decide literal_re en ?s of Inl _ \<Rightarrow> False | Inr v \<Rightarrow> v_action v = Allow))"
    by code_simp
  then obtain doc en v where r:
    "resolve_policy_selection (SelName ''readonly-contained'') builtin_policies ''deny-all''
       = (Inr doc :: offence policy_error + _)"
    "create_policy_engine literal_re doc None ''p'' None None = Inr en"
    "decide literal_re en ?s = Inr v" "v_action v = Allow"
    by (auto split: sum.splits)
  have this_cwd: "\<forall>c \<in> set (ps_cwd ?s). \<not> wildcard c" by (simp add: tool_subject_def wildcard_def)
  show ?thesis unfolding Let_def by (rule contained_grants_inside_cwd [OF r this_cwd])
qed

text \<open>
  An inline rule is consulted before every preset. If a request's inline rules begin with a
  rule that holds for the subject, the engine's verdict is that rule's action, marked as inline,
  whatever presets the request names and whatever they extend.
\<close>

theorem inline_rule_decides:
  assumes "resolve_policy_selection (SelDoc ns d (Some (r # rs))) av fb
      = (Inr doc :: offence policy_error + _)"
    and "create_policy_engine re doc None pid name unres = Inr en"
    and "compile_rule re (r\<lparr>rule_id := ''inline:'' @ rule_id r\<rparr>) = (Inr c :: offence policy_error + _)"
    and "rule_holds re c s" and "decide re en s = Inr v"
  shows "v_action v = rule_action r \<and> v_source v = SrcInline
    \<and> v_rule v = pid @ ''#inline:'' @ rule_id r"
proof -
  note en = create_engine_Inr [OF assms(2)]
  obtain more_rules where "pol_rules doc = r\<lparr>rule_id := ''inline:'' @ rule_id r\<rparr> # more_rules"
    using assms(1)
    by (auto simp: resolve_policy_selection_def has_inline_def prefix_rules_def Let_def
        split: sum.splits if_splits)
  moreover have "compile_rules re (pol_rules doc) = (Inr (en_compiled en) :: offence policy_error + _)"
    using assms(2)
    by (auto simp: create_policy_engine_def Let_def split: sum.splits option.splits)
  ultimately have "\<exists>cs. en_compiled en = c # cs"
    using assms(3) by (auto split: sum.splits dest!: sym [of "_ # _"])
  then have "base_verdict re en s = rule_verdict pid (cr_rule c)"
    using assms(4) en(1) by (auto simp: base_verdict_def)
  moreover have "cr_rule c = r\<lparr>rule_id := ''inline:'' @ rule_id r\<rparr>"
    using compile_rule_Inr [OF assms(3)] by simp
  ultimately show ?thesis
    using decide_Inr [OF assms(5)] en(3) by (simp add: rule_verdict_def source_of_def)
qed

theorem inline_rule_decides_witness:
  "let r = kind_rule ''x'' [''fetch''] Deny in
   \<exists>doc en v. resolve_policy_selection (SelDoc (Some [''full'']) None (Some [r]))
       builtin_policies ''readonly'' = (Inr doc :: offence policy_error + _) \<and>
     create_policy_engine literal_re doc None ''p'' None None = Inr en \<and>
     decide literal_re en (tool_subject ''fetch'' [] ''/w'') = Inr v \<and>
     v_action v = Deny \<and> v_source v = SrcInline \<and> v_rule v = ''p#inline:x''"
proof -
  let ?r = "kind_rule ''x'' [''fetch''] Deny" and ?s = "tool_subject ''fetch'' [] ''/w''"
  let ?c = "case compile_rule literal_re (?r\<lparr>rule_id := ''inline:'' @ rule_id ?r\<rparr>) of
      Inl (_ :: offence policy_error) \<Rightarrow> undefined | Inr c \<Rightarrow> c"
  have "case resolve_policy_selection (SelDoc (Some [''full'']) None (Some [?r])) builtin_policies ''readonly'' of
      Inl (_ :: offence policy_error) \<Rightarrow> False
    | Inr doc \<Rightarrow>
        (case create_policy_engine literal_re doc None ''p'' None None of Inl _ \<Rightarrow> False
         | Inr en \<Rightarrow> (case decide literal_re en ?s of Inl _ \<Rightarrow> False | Inr v \<Rightarrow> True))"
    by code_simp
  then obtain doc en v where r:
    "resolve_policy_selection (SelDoc (Some [''full'']) None (Some [?r])) builtin_policies ''readonly''
       = (Inr doc :: offence policy_error + _)"
    "create_policy_engine literal_re doc None ''p'' None None = Inr en"
    "decide literal_re en ?s = Inr v"
    by (auto split: sum.splits)
  have c: "compile_rule literal_re (?r\<lparr>rule_id := ''inline:'' @ rule_id ?r\<rparr>)
      = (Inr \<lparr>cr_rule = ?r\<lparr>rule_id := ''inline:x''\<rparr>, cr_kind = Some (False, [''fetch'']),
           cr_paths = None, cr_cmd = None, cr_subject = SubjAny, cr_method = MethAny,
           cr_ci = True\<rparr> :: offence policy_error + _)"
    by (simp add: compile_rule_def kind_rule_def no_clause_def Let_def subject_of_def method_of_def
        folds_case_def)
  have h: "rule_holds literal_re \<lparr>cr_rule = ?r\<lparr>rule_id := ''inline:x''\<rparr>,
      cr_kind = Some (False, [''fetch'']), cr_paths = None, cr_cmd = None, cr_subject = SubjAny,
      cr_method = MethAny, cr_ci = True\<rparr> ?s"
    by (simp add: rule_holds_def tool_subject_def kind_rule_def no_clause_def)
  have sel: "rule_action ?r = Deny" "rule_id ?r = ''x''" by (simp_all add: kind_rule_def)
  from inline_rule_decides [OF r(1,2) c h r(3), unfolded sel] r show ?thesis
    by (simp only: Let_def append.simps) blast
qed

end
