(* ===== verification/WireJson.thy ===== *)
theory WireJson
  imports Events
begin

text \<open>
  The accessors of \<open>packages/core/src/normalizer/map/json.ts\<close> over JSON-shaped values, and the
  mapping of a permission request, \<open>normalizer/map/permission.ts\<close>. An object is the list of its
  own properties in the order \<open>Object.entries\<close> enumerates them, so a well-formed object has
  distinct keys.
\<close>

section \<open>Accessors\<close>

text \<open>\<open>record\<close>: a plain object, or nothing; an array is not a record.\<close>

fun obj_of :: "json option \<Rightarrow> (string \<times> json) list option" where
  "obj_of (Some (JObj ps)) = Some ps"
| "obj_of _ = None"

text \<open>\<open>asRecord\<close>: the same with an empty object for everything else.\<close>

definition as_record :: "json option \<Rightarrow> (string \<times> json) list" where
  "as_record v = (case obj_of v of None \<Rightarrow> [] | Some ps \<Rightarrow> ps)"

definition num_of :: "json option \<Rightarrow> rat option" where
  "num_of v = (case js_num v of Some (Fin q) \<Rightarrow> Some q | _ \<Rightarrow> None)"

definition has_prop :: "(string \<times> json) list \<Rightarrow> string \<Rightarrow> bool" where
  "has_prop ps k \<longleftrightarrow> map_of ps k \<noteq> None"

lemma obj_of_Some_iff: "obj_of v = Some ps \<longleftrightarrow> v = Some (JObj ps)"
  by (cases v rule: obj_of.cases) auto

lemma as_record_simps [simp]:
  "as_record None = []" "as_record (Some (JObj ps)) = ps" "as_record (Some JNull) = []"
  "as_record (Some (JArr xs)) = []" "as_record (Some (JStr t)) = []"
  by (simp_all add: as_record_def)

section \<open>Pointers\<close>

text \<open>RFC 6901: \<open>split("/")\<close>, then \<open>~1\<close> is a slash and \<open>~0\<close> a tilde, in that order.\<close>

fun split_on :: "char \<Rightarrow> string \<Rightarrow> string list" where
  "split_on c [] = [[]]"
| "split_on c (x # xs) =
     (if x = c then [] # split_on c xs
      else (case split_on c xs of [] \<Rightarrow> [[x]] | w # ws \<Rightarrow> (x # w) # ws))"

fun replace_pair :: "char \<Rightarrow> char \<Rightarrow> char \<Rightarrow> string \<Rightarrow> string" where
  "replace_pair a b r [] = []"
| "replace_pair a b r [x] = [x]"
| "replace_pair a b r (x # y # zs) =
     (if x = a \<and> y = b then r # replace_pair a b r zs else x # replace_pair a b r (y # zs))"

definition unescape_key :: "string \<Rightarrow> string" where
  "unescape_key k =
     replace_pair CHR 0x7E CHR ''0'' CHR 0x7E (replace_pair CHR 0x7E CHR ''1'' CHR 0x2F k)"

fun walk_pointer :: "json \<Rightarrow> string list \<Rightarrow> json option" where
  "walk_pointer v [] = Some v"
| "walk_pointer v (raw # ks) =
     (case obj_of (Some v) of
        None \<Rightarrow> None
      | Some ps \<Rightarrow> (case map_of ps (unescape_key raw) of None \<Rightarrow> None | Some w \<Rightarrow> walk_pointer w ks))"

definition resolve_pointer :: "json \<Rightarrow> string \<Rightarrow> json option" where
  "resolve_pointer v pointer =
     (case pointer of
        [] \<Rightarrow> Some v
      | c # rest \<Rightarrow> if c = CHR ''/'' then walk_pointer v (split_on CHR ''/'' rest) else None)"

definition escape_key :: "string \<Rightarrow> string" where
  "escape_key k = concat (map (\<lambda>c. if c = CHR 0x7E then [CHR 0x7E, CHR ''0'']
     else if c = CHR ''/'' then [CHR 0x7E, CHR ''1''] else [c]) k)"

section \<open>Permission requests\<close>

definition nonempty_str :: "json option \<Rightarrow> string option" where
  "nonempty_str v = (case js_str v of Some (c # cs) \<Rightarrow> Some (c # cs) | _ \<Rightarrow> None)"

definition first_some :: "'a option list \<Rightarrow> 'a option" where
  "first_some xs = (case filter (\<lambda>x. x \<noteq> None) xs of [] \<Rightarrow> None | x # _ \<Rightarrow> x)"

text \<open>The offered options, narrowed and otherwise untouched.\<close>

definition is_offer :: "json \<Rightarrow> bool" where
  "is_offer v \<longleftrightarrow> js_str (fld v ''optionId'') \<noteq> None \<and> js_str (fld v ''kind'') \<noteq> None"

definition wire_options :: "json option \<Rightarrow> json list" where
  "wire_options raw = (case js_arr raw of None \<Rightarrow> [] | Some xs \<Rightarrow> filter is_offer xs)"

definition title_from_call :: "(string \<times> json) list option \<Rightarrow> string" where
  "title_from_call tool_call =
     (case tool_call of
        None \<Rightarrow> ''permission request''
      | Some tc \<Rightarrow>
          (case nonempty_str (map_of tc ''title'') of
             Some t \<Rightarrow> t
           | None \<Rightarrow>
               (let kind = (case js_str (map_of tc ''kind'') of None \<Rightarrow> ''tool_call'' | Some k \<Rightarrow> k)
                in case first_some [js_str (map_of tc ''name''), js_str (map_of tc ''toolCallId'')] of
                     None \<Rightarrow> kind
                   | Some what \<Rightarrow> kind @ '': '' @ what)))"

definition wire_title :: "(string \<times> json) list \<Rightarrow> (string \<times> json) list option \<Rightarrow> string" where
  "wire_title r tool_call =
     (case nonempty_str (map_of (as_record (map_of (as_record (map_of r ''_meta'')) ''permission''))
              ''title'') of
        Some t \<Rightarrow> t
      | None \<Rightarrow>
     (case nonempty_str (map_of r ''title'') of
        Some t \<Rightarrow> t
      | None \<Rightarrow> title_from_call tool_call))"

text \<open>
  \<open>mapPermissionRequest\<close>. The descriptor's quirk is read and not used, so it is not an argument.
  A \<open>subject\<close> of \<open>null\<close> is \<open>JNull\<close>.
\<close>

definition map_permission_request :: "json \<Rightarrow> permission_request" where
  "map_permission_request req =
     (let r = as_record (Some req);
          existing = obj_of (map_of r ''subject'');
          tool_call = obj_of (map_of r ''toolCall'');
          subject = (case existing of
              Some e \<Rightarrow> JObj e
            | None \<Rightarrow> (case tool_call of
                None \<Rightarrow> JNull
              | Some tc \<Rightarrow> JObj [(''type'', JStr ''tool_call''), (''toolCall'', JObj tc)]));
          subject_call = (case existing of None \<Rightarrow> tool_call | Some e \<Rightarrow> obj_of (map_of e ''toolCall''))
      in \<lparr>pr_session_id = (case js_str (map_of r ''sessionId'') of None \<Rightarrow> '''' | Some i \<Rightarrow> i),
          pr_title = Some (JStr (wire_title r subject_call)),
          pr_options = Some (JArr (wire_options (map_of r ''options''))),
          pr_subject = subject,
          pr_tool_call_id = (case subject_call of None \<Rightarrow> None
            | Some tc \<Rightarrow> js_str (map_of tc ''toolCallId'')),
          pr_raw = JObj (case obj_of (map_of r ''raw'') of None \<Rightarrow> r | Some w \<Rightarrow> w),
          pr_meta = map_option JObj (obj_of (map_of r ''_meta''))\<rparr>)"

text \<open>The mapped request as the value it is, for a second application.\<close>

definition permission_json :: "permission_request \<Rightarrow> json" where
  "permission_json p =
     JObj ([(''sessionId'', JStr (pr_session_id p)),
            (''title'', (case pr_title p of None \<Rightarrow> JNull | Some t \<Rightarrow> t)),
            (''subject'', pr_subject p),
            (''options'', (case pr_options p of None \<Rightarrow> JNull | Some t \<Rightarrow> t)),
            (''toolCallId'', (case pr_tool_call_id p of None \<Rightarrow> JNull | Some t \<Rightarrow> JStr t)),
            (''raw'', pr_raw p)] @
           (case pr_meta p of None \<Rightarrow> [] | Some m \<Rightarrow> [(''_meta'', m)]))"

end
