(* ===== verification/Elicitation.thy ===== *)
theory Elicitation
  imports WireJson
begin

text \<open>
  Forms: \<open>packages/core/src/normalizer/map/elicitation.ts\<close>. \<open>map_elicitation\<close> reads the agent's
  schema into questions and \<open>build_elicitation_content\<close> turns a client's answers, keyed by question,
  into the properties that reach the agent. A form question may come with a second, free-text
  property; exactly one of the two may be sent.
\<close>

section \<open>Errors\<close>

text \<open>Every refusal is a \<open>bad_request\<close>; the constructors carry what its sentence names.\<close>

datatype form_error =
    NestedScope "string list"
  | NamesCustomSlot string string
  | UnknownQuestion string "string list"
  | WrongType string field_type
  | NotOffered string "string list"
  | RequiredMissing string

section \<open>Reading the schema\<close>

definition strings_of :: "json option \<Rightarrow> string list" where
  "strings_of v = (case js_arr v of None \<Rightarrow> []
     | Some xs \<Rightarrow> List.map_filter (\<lambda>x. js_str (Some x)) xs)"

definition custom_answer_owner :: "json \<Rightarrow> string option" where
  "custom_answer_owner property =
     (let meta = as_record (map_of (as_record (Some property)) ''_meta'');
          marker = as_record (map_of meta ''_askUserQuestionCustomAnswer'')
      in if map_of marker ''isCustomAnswer'' = Some (JBool True)
         then js_str (map_of marker ''questionId'') else None)"

definition field_types :: "(string \<times> field_type) list" where
  "field_types = [(''string'', FtString), (''integer'', FtInteger), (''number'', FtNumber),
     (''boolean'', FtBoolean), (''array'', FtArray)]"

definition constraint_keys :: "string list" where
  "constraint_keys = [''minLength'', ''maxLength'', ''minimum'', ''maximum'', ''minItems'', ''maxItems'']"

text \<open>\<open>optionsOf\<close>: \<open>oneOf[].const\<close> and then \<open>enum\<close>, the first of equal values.\<close>

definition offered_values :: "elicit_option list \<Rightarrow> string list" where
  "offered_values os = map eo_value os"

definition add_offer :: "elicit_option \<Rightarrow> elicit_option list \<Rightarrow> elicit_option list" where
  "add_offer e out = (if eo_value e \<in> set (offered_values out) then out else out @ [e])"

definition one_of_offers :: "json option \<Rightarrow> elicit_option list" where
  "one_of_offers v = (case js_arr v of None \<Rightarrow> []
     | Some xs \<Rightarrow> List.map_filter
         (\<lambda>x. let e = as_record (Some x) in
            map_option (\<lambda>c. \<lparr>eo_value = c, eo_title = js_str (map_of e ''title''),
                            eo_description = js_str (map_of e ''description'')\<rparr>)
              (js_str (map_of e ''const''))) xs)"

definition enum_offers :: "json option \<Rightarrow> elicit_option list" where
  "enum_offers v = map (\<lambda>c. \<lparr>eo_value = c, eo_title = None, eo_description = None\<rparr>) (strings_of v)"

definition options_of :: "(string \<times> json) list \<Rightarrow> elicit_option list" where
  "options_of p =
     fold add_offer (one_of_offers (map_of p ''oneOf'') @ enum_offers (map_of p ''enum'')) []"

definition field_of ::
  "string \<Rightarrow> json \<Rightarrow> string option \<Rightarrow> bool \<Rightarrow> elicitation_field option" where
  "field_of name property custom required =
     (let p = as_record (Some property) in
      case js_str (map_of p ''type'') of
        None \<Rightarrow> None
      | Some t \<Rightarrow>
          (case map_of field_types t of
             None \<Rightarrow> None
           | Some ft \<Rightarrow>
               Some \<lparr>ef_id = name, ef_title = js_str (map_of p ''title''), ef_type = ft,
                 ef_options = options_of p, ef_required = required, ef_custom = custom,
                 ef_custom_for = None,
                 ef_constraints = List.map_filter
                   (\<lambda>k. map_option (\<lambda>q. (k, Fin q)) (num_of (map_of p k))) constraint_keys\<rparr>))"

section \<open>\<open>mapElicitation\<close>\<close>

datatype form_mode = FormMode | UrlMode

record mapped_elicitation =
  me_mode :: form_mode
  me_session_id :: string
  me_tool_call_id :: "string option"
  me_request_id :: "string option"
  me_message :: string
  me_fields :: "elicitation_field list"
  me_unmodelled :: "string list"
  me_raw :: json
  me_meta :: "json option"

text \<open>
  Pass 1: which property is whose custom slot (\<open>isCustomFor\<close>, in enumeration order), and the first
  slot of each question (\<open>customOf\<close>).
\<close>

definition custom_slots :: "(string \<times> json) list \<Rightarrow> (string \<times> string) list" where
  "custom_slots properties = List.map_filter
     (\<lambda>(name, v). map_option (\<lambda>owner. (name, owner)) (custom_answer_owner v)) properties"

definition slot_of :: "(string \<times> string) list \<Rightarrow> string \<Rightarrow> string option" where
  "slot_of slots q = map_of (map (\<lambda>(name, owner). (owner, name)) slots) q"

text \<open>Pass 2: the fields, and the properties that are neither a field nor a custom slot.\<close>

fun read_fields ::
  "(string \<times> string) list \<Rightarrow> string list \<Rightarrow> (string \<times> json) list
   \<Rightarrow> elicitation_field list \<times> string list" where
  "read_fields slots required [] = ([], [])"
| "read_fields slots required ((name, v) # ps) =
     (let (fs, un) = read_fields slots required ps in
      if name \<in> set (map fst slots) then (fs, un)
      else case field_of name v (slot_of slots name) (name \<in> set required) of
             None \<Rightarrow> (fs, name # un)
           | Some f \<Rightarrow> (f # fs, un))"

definition form_properties :: "json \<Rightarrow> (string \<times> json) list" where
  "form_properties params =
     as_record (map_of (as_record (map_of (as_record (Some params)) ''requestedSchema'')) ''properties'')"

definition form_required :: "json \<Rightarrow> string list" where
  "form_required params =
     strings_of (map_of (as_record (map_of (as_record (Some params)) ''requestedSchema'')) ''required'')"

definition map_elicitation :: "json \<Rightarrow> form_error + mapped_elicitation" where
  "map_elicitation params =
     (let p = as_record (Some params) in
      if js_record (map_of p ''scope'') \<noteq> None
      then Inl (NestedScope (map fst (as_record (map_of p ''scope''))))
      else
        (let properties = form_properties params;
             slots = custom_slots properties;
             (qs, unread) = read_fields slots (form_required params) properties;
             orphans = filter (\<lambda>(name, owner). owner \<notin> set (map ef_id qs)) slots
         in Inr \<lparr>me_mode = (if map_of p ''mode'' = Some (JStr ''url'') then UrlMode else FormMode),
                 me_session_id = (case js_str (map_of p ''sessionId'') of None \<Rightarrow> '''' | Some i \<Rightarrow> i),
                 me_tool_call_id = js_str (map_of p ''toolCallId''),
                 me_request_id = js_str (map_of p ''requestId''),
                 me_message = (case js_str (map_of p ''message'') of None \<Rightarrow> '''' | Some m \<Rightarrow> m),
                 me_fields = qs, me_unmodelled = unread @ map fst orphans,
                 me_raw = JObj p, me_meta = js_record (map_of p ''_meta'')\<rparr>))"

section \<open>\<open>buildElicitationContent\<close>\<close>

definition js_string_list :: "json list \<Rightarrow> bool" where
  "js_string_list xs \<longleftrightarrow> list_all (\<lambda>x. js_str (Some x) \<noteq> None) xs"

text \<open>\<open>assertType\<close>: \<open>Number.isFinite\<close>, and \<open>Number.isInteger\<close> for an integer.\<close>

fun type_ok :: "field_type \<Rightarrow> json \<Rightarrow> bool" where
  "type_ok FtBoolean (JBool b) = True"
| "type_ok FtArray (JArr xs) = js_string_list xs"
| "type_ok FtString (JStr s) = True"
| "type_ok FtNumber (JNum (Fin q)) = True"
| "type_ok FtInteger (JNum (Fin q)) = (of_int \<lfloor>q\<rfloor> = q)"
| "type_ok t v = False"

definition is_offered :: "elicitation_field \<Rightarrow> json \<Rightarrow> bool" where
  "is_offered f v = (case js_str (Some v) of None \<Rightarrow> False
     | Some s \<Rightarrow> s \<in> set (offered_values (ef_options f)))"

text \<open>\<open>byId\<close> and \<open>customs\<close> are maps built front to back, so a later field of one key wins.\<close>

definition field_by_id :: "elicitation_field list \<Rightarrow> string \<Rightarrow> elicitation_field option" where
  "field_by_id fs k = List.find (\<lambda>f. ef_id f = k) (rev fs)"

definition field_by_custom :: "elicitation_field list \<Rightarrow> string \<Rightarrow> elicitation_field option" where
  "field_by_custom fs k = List.find (\<lambda>f. ef_custom f = Some k) (rev fs)"

text \<open>\<open>out[key] = value\<close>.\<close>

fun set_prop :: "string \<Rightarrow> 'v \<Rightarrow> (string \<times> 'v) list \<Rightarrow> (string \<times> 'v) list" where
  "set_prop k v [] = [(k, v)]"
| "set_prop k v ((k', v') # ps) = (if k' = k then (k, v) # ps else (k', v') # set_prop k v ps)"

definition answer_one ::
  "elicitation_field list \<Rightarrow> string \<times> json \<Rightarrow> form_error + string" where
  "answer_one qs a =
     (case field_by_custom qs (fst a) of
        Some owner \<Rightarrow> Inl (NamesCustomSlot (fst a) (ef_id owner))
      | None \<Rightarrow>
     (case field_by_id qs (fst a) of
        None \<Rightarrow> Inl (UnknownQuestion (fst a) (map ef_id qs))
      | Some f \<Rightarrow>
          if \<not> type_ok (ef_type f) (snd a) then Inl (WrongType (ef_id f) (ef_type f))
          else if ef_options f = [] \<or> is_offered f (snd a) then Inr (ef_id f)
          else (case ef_custom f of
                  None \<Rightarrow> Inl (NotOffered (ef_id f) (offered_values (ef_options f)))
                | Some c \<Rightarrow> Inr c)))"

fun answer_all ::
  "elicitation_field list \<Rightarrow> (string \<times> json) list \<Rightarrow> (string \<times> json) list
   \<Rightarrow> form_error + (string \<times> json) list" where
  "answer_all qs [] out = Inr out"
| "answer_all qs (a # as) out =
     (case answer_one qs a of
        Inl e \<Rightarrow> Inl e
      | Inr key \<Rightarrow> answer_all qs as (set_prop key (snd a) out))"

definition build_elicitation_content ::
  "elicitation_field list \<Rightarrow> (string \<times> json) list \<Rightarrow> form_error + (string \<times> json) list" where
  "build_elicitation_content qs answers =
     (case answer_all qs answers [] of
        Inl e \<Rightarrow> Inl e
      | Inr out \<Rightarrow>
          (case List.find (\<lambda>f. ef_required f \<and> ef_id f \<notin> set (map fst answers)) qs of
             Some f \<Rightarrow> Inl (RequiredMissing (ef_id f))
           | None \<Rightarrow> Inr out))"

section \<open>Questions as values\<close>

definition opt_str :: "string option \<Rightarrow> json" where
  "opt_str v = (case v of None \<Rightarrow> JNull | Some t \<Rightarrow> JStr t)"

definition type_name :: "field_type \<Rightarrow> string" where
  "type_name t = (case List.find (\<lambda>(n, u). u = t) field_types of None \<Rightarrow> '''' | Some (n, u) \<Rightarrow> n)"

definition field_json :: "elicitation_field \<Rightarrow> json" where
  "field_json f = JObj
     [(''id'', JStr (ef_id f)), (''title'', opt_str (ef_title f)), (''type'', JStr (type_name (ef_type f))),
      (''options'', JArr (map (\<lambda>e. JObj [(''value'', JStr (eo_value e)), (''title'', opt_str (eo_title e)),
          (''description'', opt_str (eo_description e))]) (ef_options f))),
      (''required'', JBool (ef_required f)), (''customField'', opt_str (ef_custom f)),
      (''isCustomFor'', opt_str (ef_custom_for f)),
      (''constraints'', JObj (map (\<lambda>(k, n). (k, JNum n)) (ef_constraints f)))]"

text \<open>\<open>MappedElicitationRequest\<close> as the value it is.\<close>

definition elicitation_json :: "mapped_elicitation \<Rightarrow> json" where
  "elicitation_json m = JObj
     ([(''mode'', JStr (case me_mode m of FormMode \<Rightarrow> ''form'' | UrlMode \<Rightarrow> ''url'')),
       (''sessionId'', JStr (me_session_id m)), (''toolCallId'', opt_str (me_tool_call_id m)),
       (''requestId'', opt_str (me_request_id m)), (''message'', JStr (me_message m)),
       (''fields'', JArr (map field_json (me_fields m))),
       (''unmodelled'', JArr (map JStr (me_unmodelled m))), (''raw'', me_raw m)] @
      (case me_meta m of None \<Rightarrow> [] | Some v \<Rightarrow> [(''_meta'', v)]))"

end
