(* ===== verification/Responder.thy ===== *)
theory Responder
  imports Events
begin

text \<open>
  Option selection: \<open>packages/core/src/worker/permission-responder.ts\<close>, the one place a permission
  option is chosen, and the M1 responder built on it. Options come from the agent unvalidated, so
  they are JSON values narrowed by the code.
\<close>

section \<open>Options\<close>

text \<open>\<open>PermissionOption\<close> as the code reads it: its id, its kind, and the value itself.\<close>

record perm_option =
  po_id :: string
  po_kind :: string
  po_raw :: json

text \<open>\<open>typeof o === "object" && o !== null\<close> with a string \<open>optionId\<close> and a string \<open>kind\<close>.\<close>

definition narrow_one :: "json \<Rightarrow> perm_option option" where
  "narrow_one o1 =
     (case (js_str (fld o1 ''optionId''), js_str (fld o1 ''kind'')) of
        (Some i, Some k) \<Rightarrow> Some \<lparr>po_id = i, po_kind = k, po_raw = o1\<rparr>
      | _ \<Rightarrow> None)"

definition narrow_options :: "json option \<Rightarrow> perm_option list" where
  "narrow_options raw = (case js_arr raw of None \<Rightarrow> [] | Some xs \<Rightarrow> List.map_filter narrow_one xs)"

definition session_grant_ids :: "string list" where
  "session_grant_ids = [''allow_session'', ''approve_for_session'']"

definition session_wide_grant_kind :: string where
  "session_wide_grant_kind = ''allow_always''"

definition selectable_grant :: "perm_option \<Rightarrow> bool" where
  "selectable_grant p \<longleftrightarrow> po_kind p \<noteq> session_wide_grant_kind"

definition is_session_wide_grant :: "perm_option \<Rightarrow> bool" where
  "is_session_wide_grant p \<longleftrightarrow> \<not> selectable_grant p"

section \<open>Selection\<close>

definition pick_allow :: "perm_option list \<Rightarrow> bool \<Rightarrow> (perm_option \<times> string) option" where
  "pick_allow ps session_grants =
     (case (if session_grants
            then List.find (\<lambda>p. po_id p \<in> set session_grant_ids \<and> selectable_grant p) ps
            else None) of
        Some g \<Rightarrow> Some (g, ''d4:2-session-grant'')
      | None \<Rightarrow> map_option (\<lambda>p. (p, ''d4:2-allow-once''))
                  (List.find (\<lambda>p. po_kind p = ''allow_once'') ps))"

definition pick_deny :: "perm_option list \<Rightarrow> perm_option option" where
  "pick_deny ps = List.find (\<lambda>p. po_kind p = ''reject_once'') ps"

datatype option_action = SelectAllow | SelectDeny

record option_choice =
  oc_id :: "string option"
  oc_rule :: string

definition select_option :: "option_action \<Rightarrow> perm_option list \<Rightarrow> bool \<Rightarrow> option_choice" where
  "select_option a ps session_grants =
     (case a of
        SelectAllow \<Rightarrow>
          (case pick_allow ps session_grants of
             Some (g, rule) \<Rightarrow> \<lparr>oc_id = Some (po_id g), oc_rule = rule\<rparr>
           | None \<Rightarrow>
               (case pick_deny ps of
                  Some d \<Rightarrow> \<lparr>oc_id = Some (po_id d), oc_rule = ''d4:2-downgraded-to-deny''\<rparr>
                | None \<Rightarrow> \<lparr>oc_id = None, oc_rule = ''d4:4-nothing-acceptable''\<rparr>))
      | SelectDeny \<Rightarrow>
          (case pick_deny ps of
             Some d \<Rightarrow> \<lparr>oc_id = Some (po_id d), oc_rule = ''d4:4-reject-once''\<rparr>
           | None \<Rightarrow> \<lparr>oc_id = None, oc_rule = ''d4:4-nothing-acceptable''\<rparr>))"

definition select_grant :: "perm_option list \<Rightarrow> bool \<Rightarrow> option_choice" where
  "select_grant ps session_grants =
     (case pick_allow ps session_grants of
        None \<Rightarrow> \<lparr>oc_id = None, oc_rule = ''d4:2-nothing-acceptable''\<rparr>
      | Some (g, rule) \<Rightarrow> \<lparr>oc_id = Some (po_id g), oc_rule = rule\<rparr>)"

section \<open>The M1 responder\<close>

text \<open>
  \<open>createBaselineResponder\<close>: the counter is its state. \<open>id_text\<close> spells the synthesized request
  id from the clock and the counter, whose decimal rendering is not modelled.
\<close>

record baseline_record =
  br_request_id :: string
  br_title :: string
  br_decision :: decision
  br_rule :: string
  br_option_id :: "string option"
  br_offered :: "perm_option list"
  br_tool_call_id :: "string option"

definition title_of :: "permission_request \<Rightarrow> string" where
  "title_of req = (case js_str (pr_title req) of None \<Rightarrow> '''' | Some t \<Rightarrow> t)"

definition baseline_decide ::
  "(ms \<Rightarrow> nat \<Rightarrow> string) \<Rightarrow> option_action \<Rightarrow> ms \<Rightarrow> permission_request \<Rightarrow> nat
   \<Rightarrow> nat \<times> (string option \<times> baseline_record)" where
  "baseline_decide id_text mode now req counter =
     (let n = counter + 1;
          offered = narrow_options (pr_options req);
          choice = select_option mode offered True;
          chosen = (case oc_id choice of None \<Rightarrow> None
                    | Some i \<Rightarrow> List.find (\<lambda>p. po_id p = i) offered)
      in (n, (map_option po_id chosen,
              \<lparr>br_request_id = id_text now n, br_title = title_of req,
               br_decision = (case chosen of None \<Rightarrow> DError
                 | Some p \<Rightarrow> if po_kind p = ''reject_once'' then DDeny else DAllow),
               br_rule = (case mode of SelectAllow \<Rightarrow> ''m0:auto-allow'' | SelectDeny \<Rightarrow> ''m0:auto-deny''),
               br_option_id = map_option po_id chosen, br_offered = offered,
               br_tool_call_id = pr_tool_call_id req\<rparr>)))"

section \<open>What is selected\<close>

lemma pick_allow_Some:
  assumes "pick_allow ps g = Some (p, rule)"
  shows "p \<in> set ps" "selectable_grant p"
    "po_kind p = ''allow_once'' \<or> g \<and> po_id p \<in> set session_grant_ids"
  using assms
  by (auto simp: pick_allow_def selectable_grant_def session_wide_grant_kind_def
      split: option.splits if_splits dest!: find_SomeD)

lemma pick_allow_SomeD:
  "pick_allow ps g = Some (p, rule) \<Longrightarrow> p \<in> set ps \<and> selectable_grant p
     \<and> (po_kind p = ''allow_once'' \<or> g \<and> po_id p \<in> set session_grant_ids)"
  using pick_allow_Some by blast

lemma pick_deny_Some: "pick_deny ps = Some p \<Longrightarrow> p \<in> set ps \<and> po_kind p = ''reject_once''"
  by (auto simp: pick_deny_def dest: find_SomeD)

lemma pick_deny_None: "pick_deny ps = None \<longleftrightarrow> (\<forall>p \<in> set ps. po_kind p \<noteq> ''reject_once'')"
  by (simp add: pick_deny_def find_None_iff_all)

lemma select_grant_Some:
  assumes "oc_id (select_grant ps g) = Some i"
  obtains p where "p \<in> set ps" "po_id p = i" "selectable_grant p"
    "po_kind p = ''allow_once'' \<or> g \<and> i \<in> set session_grant_ids"
proof -
  from assms obtain p rule where "pick_allow ps g = Some (p, rule)" "po_id p = i"
    by (auto simp: select_grant_def split: option.splits)
  with pick_allow_Some [OF this(1)] that show thesis by blast
qed

lemma select_deny_Some:
  assumes "oc_id (select_option SelectDeny ps g) = Some i"
  obtains p where "p \<in> set ps" "po_id p = i" "po_kind p = ''reject_once''"
proof -
  from assms obtain p where "pick_deny ps = Some p" "po_id p = i"
    by (auto simp: select_option_def split: option.splits)
  with pick_deny_Some [OF this(1)] that show thesis by blast
qed

lemma select_deny_None:
  "oc_id (select_option SelectDeny ps g) = None \<longleftrightarrow> (\<forall>p \<in> set ps. po_kind p \<noteq> ''reject_once'')"
  by (auto simp: select_option_def simp flip: pick_deny_None split: option.splits)

lemma find_unique_id:
  "distinct (map po_id ps) \<Longrightarrow> p \<in> set ps \<Longrightarrow> List.find (\<lambda>q. po_id q = po_id p) ps = Some p"
  by (induction ps) (auto simp: rev_image_eqI)

section \<open>Properties\<close>

definition offer :: "string \<Rightarrow> string \<Rightarrow> json" where
  "offer i k = JObj [(''optionId'', JStr i), (''kind'', JStr k), (''name'', JStr '''')]"

definition sample_request :: "json list \<Rightarrow> permission_request" where
  "sample_request os = \<lparr>pr_session_id = ''s1'', pr_title = Some (JStr ''Edit''), pr_options = Some (JArr os),
     pr_subject = JNull, pr_tool_call_id = Some ''tc1'', pr_raw = JNull, pr_meta = None\<rparr>"

text \<open>
  The M1 responder keeps D4's rules on options with distinct ids. In either mode the answer is
  the id of an option the agent offered, never one of kind \<open>allow_always\<close>; in \<open>deny\<close> mode it is
  a \<open>reject_once\<close> option and is recorded as a denial, or there is no answer and the record says
  \<open>error\<close>; no answer is given exactly when the record says \<open>error\<close>; and the record's option id is
  the one answered.
\<close>

theorem baseline_keeps_rules:
  assumes "distinct (map po_id (narrow_options (pr_options req)))"
    and "snd (baseline_decide id_text mode now req n) = (answer, rec)"
  shows "br_option_id rec = answer
    \<and> (answer = None \<longleftrightarrow> br_decision rec = DError)
    \<and> (\<forall>i. answer = Some i \<longrightarrow>
         (\<exists>p \<in> set (narrow_options (pr_options req)). po_id p = i \<and> po_kind p \<noteq> ''allow_always''
            \<and> (mode = SelectDeny \<longrightarrow> po_kind p = ''reject_once'' \<and> br_decision rec = DDeny)
            \<and> (br_decision rec = DAllow \<longrightarrow>
                 po_kind p = ''allow_once'' \<or> i \<in> {''allow_session'', ''approve_for_session''})))"
proof -
  let ?ps = "narrow_options (pr_options req)"
  have rec: "br_option_id rec = answer"
    "answer = (case oc_id (select_option mode ?ps True) of None \<Rightarrow> None
       | Some i \<Rightarrow> map_option po_id (List.find (\<lambda>p. po_id p = i) ?ps))"
    "br_decision rec = (case oc_id (select_option mode ?ps True) of None \<Rightarrow> DError
       | Some i \<Rightarrow> (case List.find (\<lambda>p. po_id p = i) ?ps of None \<Rightarrow> DError
           | Some p \<Rightarrow> if po_kind p = ''reject_once'' then DDeny else DAllow))"
    using assms(2) by (auto simp: baseline_decide_def Let_def split: option.splits)
  show ?thesis
  proof (cases "oc_id (select_option mode ?ps True)")
    case None
    with rec show ?thesis by simp
  next
    case (Some i)
    have "\<exists>p \<in> set ?ps. po_id p = i \<and> po_kind p \<noteq> ''allow_always'' \<and>
        (mode = SelectDeny \<longrightarrow> po_kind p = ''reject_once'') \<and>
        (po_kind p = ''reject_once'' \<or> po_kind p = ''allow_once'' \<or> i \<in> set session_grant_ids)"
    proof (cases mode)
      case SelectDeny
      with Some show ?thesis by (auto elim!: select_deny_Some)
    next
      case SelectAllow
      with Some show ?thesis
        by (auto simp: select_option_def selectable_grant_def session_wide_grant_kind_def
            split: option.splits prod.splits dest!: pick_allow_SomeD pick_deny_Some)
    qed
    then obtain p where p: "p \<in> set ?ps" "po_id p = i" "po_kind p \<noteq> ''allow_always''"
      "mode = SelectDeny \<longrightarrow> po_kind p = ''reject_once''"
      "po_kind p = ''reject_once'' \<or> po_kind p = ''allow_once'' \<or> i \<in> set session_grant_ids"
      by blast
    have "List.find (\<lambda>q. po_id q = i) ?ps = Some p" using find_unique_id [OF assms(1) p(1)] p(2) by simp
    with rec Some p show ?thesis by (auto simp: session_grant_ids_def)
  qed
qed

theorem baseline_keeps_rules_witness:
  "let req = sample_request [offer ''a'' ''allow_always'', offer ''o'' ''allow_once'', offer ''r'' ''reject_once''];
       (answer, rec) = snd (baseline_decide (\<lambda>t k. ''perm'') SelectDeny 5 req 0)
   in answer = Some ''r'' \<and> br_decision rec = DDeny \<and> br_option_id rec = answer"
proof -
  let ?req = "sample_request [offer ''a'' ''allow_always'', offer ''o'' ''allow_once'', offer ''r'' ''reject_once'']"
  let ?out = "snd (baseline_decide (\<lambda>t k. ''perm'') SelectDeny 5 ?req 0)"
  have d: "distinct (map po_id (narrow_options (pr_options ?req)))" by code_simp
  obtain answer rec where out: "?out = (answer, rec)" by (cases ?out)
  have "fst ?out = Some ''r''" by code_simp
  with out have a: "answer = Some ''r''" by simp
  from baseline_keeps_rules [OF d out] a show ?thesis
    by (auto simp: Let_def out)
qed

text \<open>
  Two options with one id defeat the rules. The header says an \<open>allow_always\<close> option is never
  selected and that unknown kinds are never grants. In \<open>deny\<close> mode, when the agent offers an
  \<open>allow_always\<close> and a \<open>reject_once\<close> under the same id, the record says \<open>allow\<close> for the answer
  that was chosen as a denial; and in \<open>allow\<close> mode an option of an unknown kind, or of kind
  \<open>reject_always\<close>, is selected as a grant when its id is one of the session-grant ids.
\<close>

theorem duplicate_ids_and_unknown_kinds:
  "(let req = sample_request [offer ''x'' ''allow_always'', offer ''x'' ''reject_once''];
        (answer, rec) = snd (baseline_decide (\<lambda>t k. ''perm'') SelectDeny 5 req 0)
    in answer = Some ''x'' \<and> br_decision rec = DAllow) \<and>
   select_grant (narrow_options (Some (JArr [offer ''allow_session'' ''allow_forever'',
       offer ''o'' ''allow_once'']))) True
     = \<lparr>oc_id = Some ''allow_session'', oc_rule = ''d4:2-session-grant''\<rparr> \<and>
   oc_id (select_grant (narrow_options (Some (JArr [offer ''allow_session'' ''reject_always'']))) True)
     = Some ''allow_session''"
  by code_simp

end
