(* ===== verification/Envelopes.thy ===== *)
theory Envelopes
  imports Elicitation Responder
begin

text \<open>
  What one interaction leaves in the log: \<open>packages/core/src/worker/interaction/envelopes.ts\<close>, with
  the capability gate \<open>capability.ts\<close> and the wrapped M1 strategy \<open>baseline.ts\<close>.
\<close>

section \<open>Settlements\<close>

datatype settled_status = SAnswered | SFailed | SExpired | SCancelled

fun status_of :: "settled_status \<Rightarrow> interaction_status" where
  "status_of SAnswered = Answered"
| "status_of SFailed = Failed"
| "status_of SExpired = ExpiredStatus"
| "status_of SCancelled = Cancelled"

record settlement_record =
  sr_status :: settled_status
  sr_decision :: decision
  sr_by :: interaction_actor
  sr_by_token :: "string option"
  sr_rule :: string
  sr_rule_source :: "rule_source option"
  sr_clamped :: "clamp option"
  sr_option_id :: "string option"
  sr_action :: "answer_action option"
  sr_content_keys :: "string list option"
  sr_parked_ms :: ms
  sr_blinds :: bool

text \<open>
  \<open>WireAnswer\<close>: the JSON-RPC result, or the \<open>-32603\<close> with its sentence and the offered options.
\<close>

datatype wire_answer = Resolve json | Reject string "json list"

record settlement =
  st_wire :: wire_answer
  st_record :: settlement_record

section \<open>Envelopes\<close>

definition normalized_request :: "interaction_request \<Rightarrow> json" where
  "normalized_request req =
     (case iq_kind req of
        Permission \<Rightarrow> JObj [(''title'', JStr (iq_title req)), (''subject'', iq_subject req),
                           (''options'', JArr (iq_options req))]
      | Elicitation \<Rightarrow>
          JObj [(''message'', JStr (case iq_message req of None \<Rightarrow> '''' | Some m \<Rightarrow> m)),
                (''fields'', JArr (map field_json (iq_fields req)))])"

definition answer_from :: "settlement_record \<Rightarrow> answer_block" where
  "answer_from s =
     \<lparr>ans_option_id = sr_option_id s, ans_by = sr_by s, ans_action = sr_action s,
      ans_content_keys = sr_content_keys s, ans_by_token = sr_by_token s,
      ans_parked_ms = Some (sr_parked_ms s)\<rparr>"

definition daemon_event :: "event_body \<Rightarrow> string option \<Rightarrow> event_input" where
  "daemon_event b turn = \<lparr>in_body = b, in_version = 2, in_turn = turn, in_replay = False\<rparr>"

definition pending_interaction_event ::
  "interaction_request \<Rightarrow> park_block \<Rightarrow> string option \<Rightarrow> event_input" where
  "pending_interaction_event req park turn = daemon_event (Interaction
     \<lparr>ia_request_id = iq_id req, ia_kind = Some (iq_kind req), ia_method = iq_method req,
      ia_request = normalized_request req, ia_raw = Some (iq_raw req), ia_status = Pending,
      ia_park = Some park, ia_tool_call_id = iq_tool_call_id req, ia_answer = None\<rparr>) turn"

definition settled_interaction_event ::
  "interaction_request \<Rightarrow> settlement_record \<Rightarrow> string option \<Rightarrow> event_input" where
  "settled_interaction_event req s turn = daemon_event (Interaction
     \<lparr>ia_request_id = iq_id req, ia_kind = Some (iq_kind req), ia_method = iq_method req,
      ia_request = normalized_request req, ia_raw = Some (iq_raw req),
      ia_status = status_of (sr_status s), ia_park = None,
      ia_tool_call_id = iq_tool_call_id req, ia_answer = Some (answer_from s)\<rparr>) turn"

definition policy_decision_event ::
  "interaction_request \<Rightarrow> settlement_record \<Rightarrow> string option \<Rightarrow> event_input" where
  "policy_decision_event req s turn = daemon_event (PolicyDecision
     \<lparr>pd_request_id = iq_id req, pd_kind = Some (iq_kind req), pd_method = Some (iq_method req),
      pd_title = iq_title req, pd_decision = sr_decision s, pd_by = Some (sr_by s),
      pd_rule = sr_rule s, pd_rule_source = sr_rule_source s, pd_clamped = sr_clamped s,
      pd_parked_ms = Some (sr_parked_ms s), pd_option_id = sr_option_id s,
      pd_offered = iq_options req, pd_tool_call_id = iq_tool_call_id req,
      pd_blinds_policy = sr_blinds s\<rparr>) turn"

definition settlement_events ::
  "interaction_request \<Rightarrow> settlement_record \<Rightarrow> string option \<Rightarrow> event_input list" where
  "settlement_events req s turn =
     [settled_interaction_event req s turn, policy_decision_event req s turn]"

section \<open>The capability gate\<close>

datatype unresolved = OnPark | OnDeny | OnFail

definition client_capabilities_for :: "unresolved \<Rightarrow> bool \<Rightarrow> json" where
  "client_capabilities_for on_unresolved declare_url =
     (if on_unresolved \<noteq> OnPark then JObj []
      else JObj [(''elicitation'', JObj ([(''form'', JObj [])] @
             (if declare_url then [(''url'', JObj [])] else [])))])"

section \<open>The M1 strategy\<close>

definition selected :: "string \<Rightarrow> json" where
  "selected oid = JObj [(''outcome'', JObj [(''outcome'', JStr ''selected''), (''optionId'', JStr oid)])]"

definition mapped_title :: "permission_request \<Rightarrow> string" where
  "mapped_title req = (case js_str (pr_title req) of None \<Rightarrow> '''' | Some t \<Rightarrow> t)"

definition mapped_options :: "permission_request \<Rightarrow> json list" where
  "mapped_options req = (case js_arr (pr_options req) of None \<Rightarrow> [] | Some os \<Rightarrow> os)"

text \<open>
  \<open>baselineInteractions.permission\<close> over what its responder decided, a parameter: the id it
  answers, if any, and its record. The result is the two envelopes and the answer.
\<close>

definition baseline_permission ::
  "string option \<times> baseline_record \<Rightarrow> permission_request \<Rightarrow> string option
   \<Rightarrow> event_input list \<times> wire_answer" where
  "baseline_permission decided req turn =
     (let response = fst decided; rec0 = snd decided;
          offered = List.map_filter (\<lambda>x. js_str (fld x ''optionId'')) (mapped_options req);
          forged = (response \<noteq> None \<and>
             (case br_option_id rec0 of None \<Rightarrow> True | Some i \<Rightarrow> i \<notin> set offered));
          rec1 = (if forged then rec0\<lparr>br_decision := DError, br_option_id := None\<rparr> else rec0);
          response1 = (if forged then None else response);
          interaction = \<lparr>iq_id = br_request_id rec1, iq_kind = Permission,
             iq_method = RequestPermission, iq_title = br_title rec1, iq_message = None,
             iq_subject = pr_subject req, iq_options = mapped_options req, iq_fields = [],
             iq_tool_call_id = pr_tool_call_id req, iq_turn_id = turn, iq_raw = pr_raw req\<rparr>;
          settled = \<lparr>sr_status = (if response1 = None then SFailed else SAnswered),
             sr_decision = br_decision rec1, sr_by = Baseline, sr_by_token = None,
             sr_rule = br_rule rec1, sr_rule_source = Some SrcBaseline, sr_clamped = None,
             sr_option_id = br_option_id rec1, sr_action = None, sr_content_keys = None,
             sr_parked_ms = 0, sr_blinds = False\<rparr>
      in (settlement_events interaction settled turn,
          case response1 of
            None \<Rightarrow> Reject (if forged then ''the selected permission option was not offered''
                           else ''no acceptable permission option was offered'')
                     (map po_raw (br_offered rec1))
          | Some i \<Rightarrow> Resolve (selected i)))"

definition baseline_elicitation :: wire_answer where
  "baseline_elicitation = Resolve (JObj [(''action'', JStr ''decline'')])"

end
