(* ===== verification/Interactions.thy ===== *)
theory Interactions
  imports Envelopes PolicyEngine "HOL-Library.List_Lexorder" "HOL-Library.Char_ord"
begin

text \<open>
  The interaction lifecycle: \<open>packages/core/src/worker/interaction/strategy.ts\<close> with its registry
  \<open>registry.ts\<close> and park timer \<open>park.ts\<close>. The state is the registry's map and counters, the armed
  park deadlines, and what the strategy did to its worker and to the agent, in order.
\<close>

section \<open>State\<close>

text \<open>Why a turn is failed; the code spells these out in English.\<close>

datatype fail_reason = PolicyFailed string string interaction_method | ParkExpired string ms

text \<open>
  The three verbs of \<open>InteractionContext\<close> and the settling of the promise the ACP link awaits.
\<close>

datatype effect =
    Emit "event_input list"
  | ParkWorker string
  | UnparkWorker string
  | Wire string wire_answer
  | FailTurn fail_reason

record held_interaction =
  hd_request :: interaction_request
  hd_parked_at :: ms
  hd_expires_at :: "ms option"
  hd_on_timeout :: park_timeout_action
  hd_clamped :: "clamp option"

record entry =
  en_held :: held_interaction
  en_ordinal :: nat
  en_timer :: nat
  en_settled :: "(settlement_record \<times> ms \<times> interaction_actor) option"

record strategy =
  entries :: "entry list"
  ordinal :: nat
  live :: int
  armed :: "(nat \<times> string) list"
  next_timer :: nat
  effects :: "effect list"

record interaction_config =
  ic_max_parked :: int
  ic_allow_always_human :: bool
  ic_park_timeout_ms :: ms
  ic_park_timeout_action :: park_timeout_action
  ic_on_unresolved :: unresolved
  ic_worker_state :: "worker_state option"

definition entry_id :: "entry \<Rightarrow> string" where
  "entry_id e = iq_id (hd_request (en_held e))"

definition find_entry :: "strategy \<Rightarrow> string \<Rightarrow> entry option" where
  "find_entry st i = List.find (\<lambda>e. entry_id e = i) (entries st)"

definition is_open :: "entry \<Rightarrow> bool" where
  "is_open e \<longleftrightarrow> en_settled e = None"

definition parked_ms :: "held_interaction \<Rightarrow> ms \<Rightarrow> ms" where
  "parked_ms h now = max 0 (now - hd_parked_at h)"

definition act :: "effect list \<Rightarrow> strategy \<Rightarrow> strategy" where
  "act es st = st\<lparr>effects := effects st @ es\<rparr>"

section \<open>The registry\<close>

definition terminal_history :: int where
  "terminal_history = 64"

record interaction_snapshot =
  is_request_id :: string
  is_kind :: interaction_kind
  is_method :: interaction_method
  is_status :: interaction_status
  is_title :: string
  is_message :: "string option"
  is_turn_id :: "string option"
  is_tool_call_id :: "string option"
  is_created_at :: ms
  is_options :: "json list"
  is_fields :: "elicitation_field list"
  is_expires_at :: "ms option"
  is_settled_at :: "ms option"
  is_settled_by :: "interaction_actor option"
  is_answer :: "answer_block option"

definition snapshot_of :: "entry \<Rightarrow> interaction_snapshot" where
  "snapshot_of e =
     (let req = hd_request (en_held e); settled = en_settled e in
      \<lparr>is_request_id = entry_id e, is_kind = iq_kind req, is_method = iq_method req,
       is_status = (case settled of None \<Rightarrow> Pending | Some (r, _) \<Rightarrow> status_of (sr_status r)),
       is_title = iq_title req, is_message = iq_message req, is_turn_id = iq_turn_id req,
       is_tool_call_id = iq_tool_call_id req, is_created_at = hd_parked_at (en_held e),
       is_options = iq_options req, is_fields = iq_fields req,
       is_expires_at = (if settled \<noteq> None then None else hd_expires_at (en_held e)),
       is_settled_at = map_option (\<lambda>(_, w, _). w) settled,
       is_settled_by = map_option (\<lambda>(_, _, who). who) settled,
       is_answer = map_option (\<lambda>(r, _). answer_from r) settled\<rparr>)"

text \<open>\<open>reap\<close>: past the bound the settled entries of lowest ordinal leave the history.\<close>

definition reap :: "strategy \<Rightarrow> strategy" where
  "reap st =
     (let terminal = int (length (entries st)) - live st in
      if terminal \<le> terminal_history then st
      else
        (let oldest_first = sort_key en_ordinal (filter (\<lambda>e. \<not> is_open e) (entries st));
             gone = map entry_id (take (nat (terminal - terminal_history)) oldest_first)
         in st\<lparr>entries := filter (\<lambda>e. entry_id e \<notin> set gone) (entries st)\<rparr>))"

text \<open>
  \<open>release\<close>: the timer leaves the set and is cancelled, and the worker is un-parked.
\<close>

definition release :: "nat \<Rightarrow> string \<Rightarrow> strategy \<Rightarrow> strategy" where
  "release t i st = act [UnparkWorker i] (st\<lparr>armed := filter (\<lambda>(u, _). u \<noteq> t) (armed st)\<rparr>)"

text \<open>\<open>settle\<close>: the one place an entry becomes terminal, in the order the code fixes.\<close>

definition mark_settled :: "string \<Rightarrow> settlement_record \<times> ms \<times> interaction_actor \<Rightarrow> entry \<Rightarrow> entry" where
  "mark_settled i how e = (if entry_id e = i then e\<lparr>en_settled := Some how\<rparr> else e)"

definition settle ::
  "entry \<Rightarrow> settlement \<Rightarrow> interaction_actor \<Rightarrow> ms \<Rightarrow> strategy \<Rightarrow> strategy" where
  "settle e s by now st =
     (let req = hd_request (en_held e);
          st1 = st\<lparr>entries := map (mark_settled (entry_id e) (st_record s, now, by)) (entries st),
                   live := live st - 1\<rparr>;
          st2 = act [Emit (settlement_events req (st_record s) (iq_turn_id req))] st1;
          st3 = release (en_timer e) (entry_id e) st2
      in reap (act [Wire (entry_id e) (st_wire s)] st3))"

text \<open>\<open>hold\<close>: refused on a duplicate id or past the bound.\<close>

definition at_capacity :: "interaction_config \<Rightarrow> strategy \<Rightarrow> bool" where
  "at_capacity c st \<longleftrightarrow> live st \<ge> ic_max_parked c"

definition hold ::
  "interaction_config \<Rightarrow> held_interaction \<Rightarrow> nat \<Rightarrow> strategy \<Rightarrow> strategy option" where
  "hold c h timer st =
     (if find_entry st (iq_id (hd_request h)) \<noteq> None \<or> at_capacity c st then None
      else Some (st\<lparr>entries := entries st @
             [\<lparr>en_held = h, en_ordinal = ordinal st + 1, en_timer = timer, en_settled = None\<rparr>],
           ordinal := ordinal st + 1, live := live st + 1\<rparr>))"

definition settle_one ::
  "string \<Rightarrow> (held_interaction \<Rightarrow> settlement) \<Rightarrow> interaction_actor \<Rightarrow> ms \<Rightarrow> strategy
   \<Rightarrow> bool \<times> strategy" where
  "settle_one i decide_one by now st =
     (case find_entry st i of
        None \<Rightarrow> (False, st)
      | Some e \<Rightarrow>
          if \<not> is_open e then (False, st)
          else (True, settle e (decide_one (en_held e)) by now st))"

definition pending :: "strategy \<Rightarrow> interaction_snapshot list" where
  "pending st = map snapshot_of (filter is_open (entries st))"

definition get_snapshot :: "strategy \<Rightarrow> string \<Rightarrow> interaction_snapshot option" where
  "get_snapshot st i = map_option snapshot_of (find_entry st i)"

section \<open>Decisions\<close>

record over =
  ov_status :: settled_status
  ov_by :: interaction_actor
  ov_by_token :: "string option"
  ov_rule :: string
  ov_rule_source :: "rule_source option"
  ov_clamped :: "clamp option"
  ov_parked_ms :: ms

definition record_of ::
  "over \<Rightarrow> settled_status \<Rightarrow> decision \<Rightarrow> string option \<Rightarrow> answer_action option
   \<Rightarrow> string list option \<Rightarrow> bool \<Rightarrow> settlement_record" where
  "record_of ov status d oid action keys blinds =
     \<lparr>sr_status = status, sr_decision = d, sr_by = ov_by ov, sr_by_token = ov_by_token ov,
      sr_rule = ov_rule ov, sr_rule_source = ov_rule_source ov, sr_clamped = ov_clamped ov,
      sr_option_id = oid, sr_action = action, sr_content_keys = keys,
      sr_parked_ms = ov_parked_ms ov, sr_blinds = blinds\<rparr>"

definition action_json :: "string \<Rightarrow> json" where
  "action_json a = JObj [(''action'', JStr a)]"

definition offered_options :: "interaction_request \<Rightarrow> perm_option list" where
  "offered_options req = narrow_options (Some (JArr (iq_options req)))"

text \<open>
  \<open>refuse\<close>: decline a form, pick the offered \<open>reject_once\<close>, or answer \<open>-32603\<close>.
\<close>

definition refuse :: "interaction_request \<Rightarrow> over \<Rightarrow> settlement" where
  "refuse req ov =
     (case iq_kind req of
        Elicitation \<Rightarrow>
          \<lparr>st_wire = Resolve (action_json ''decline''),
           st_record = record_of ov (ov_status ov) DDeny None (Some Decline) None False\<rparr>
      | Permission \<Rightarrow>
          (case oc_id (select_option SelectDeny (offered_options req) True) of
             None \<Rightarrow>
               \<lparr>st_wire = Reject ''no acceptable permission option was offered'' (iq_options req),
                st_record = record_of ov (if ov_status ov = SAnswered then SFailed else ov_status ov)
                  DError None None None False\<rparr>
           | Some oid \<Rightarrow>
               \<lparr>st_wire = Resolve (selected oid),
                st_record = record_of ov (ov_status ov) DDeny (Some oid) None None False\<rparr>))"

text \<open>\<open>autoOf\<close>: \<open>allow\<close>, \<open>deny\<close> and \<open>fail\<close> verdicts, with the turn to fail, if any.\<close>

definition auto_of ::
  "interaction_request \<Rightarrow> policy_verdict \<Rightarrow> settlement \<times> fail_reason option" where
  "auto_of req v =
     (let ov = \<lparr>ov_status = SAnswered, ov_by = PolicyActor, ov_by_token = None, ov_rule = v_rule v,
            ov_rule_source = Some (v_source v), ov_clamped = v_clamped v, ov_parked_ms = 0\<rparr>;
          fail_turn = (if v_action v = Fail
            then Some (PolicyFailed (v_rule v) (iq_id req) (iq_method req)) else None)
      in if iq_kind req = Elicitation then (refuse req ov, fail_turn)
         else if v_action v = Allow then
           (case oc_id (select_grant (offered_options req) True) of
              Some oid \<Rightarrow>
                (\<lparr>st_wire = Resolve (selected oid),
                  st_record = record_of ov SAnswered DAllow (Some oid) None None False\<rparr>, None)
            | None \<Rightarrow> (refuse req ov, fail_turn))
         else (refuse req ov, fail_turn))"

text \<open>A human answer.\<close>

datatype interaction_answer =
    AnsAllow "string option"
  | AnsDeny
  | AnsContent "(string \<times> json) list"
  | AnsCancel

datatype answer_error =
    InteractionNotFoundErr string
  | InteractionSettledErr interaction_snapshot
  | NoLog
  | AnswerVerbForPermission
  | AllowVerbForForm
  | FormRefused form_error
  | NothingToGrant
  | OptionNotOffered string
  | SessionWideGrant string
  | SelectionFailed

definition find_offer :: "interaction_request \<Rightarrow> string \<Rightarrow> json option" where
  "find_offer req oid = List.find (\<lambda>x. fld x ''optionId'' = Some (JStr oid)) (iq_options req)"

definition wide_offer :: "json \<Rightarrow> bool" where
  "wide_offer x \<longleftrightarrow> fld x ''kind'' = Some (JStr session_wide_grant_kind)"

definition allow_of ::
  "interaction_config \<Rightarrow> interaction_request \<Rightarrow> string option \<Rightarrow> over \<Rightarrow> answer_error + settlement" where
  "allow_of c req option_id ov =
     (let chosen = (case option_id of
          None \<Rightarrow> (case oc_id (select_grant (offered_options req) True) of
             None \<Rightarrow> Inl NothingToGrant
           | Some oid \<Rightarrow> (case find_offer req oid of None \<Rightarrow> Inl SelectionFailed | Some _ \<Rightarrow> Inr oid))
        | Some oid \<Rightarrow> (case find_offer req oid of
             None \<Rightarrow> Inl (OptionNotOffered oid) | Some _ \<Rightarrow> Inr oid))
      in case chosen of
           Inl e \<Rightarrow> Inl e
         | Inr oid \<Rightarrow>
             (let blinds = (case find_offer req oid of None \<Rightarrow> False | Some x \<Rightarrow> wide_offer x) in
              if blinds \<and> \<not> ic_allow_always_human c then Inl (SessionWideGrant oid)
              else Inr \<lparr>st_wire = Resolve (selected oid),
                        st_record = record_of ov SAnswered DAllow (Some oid) None None blinds\<rparr>))"

definition answer_of ::
  "interaction_config \<Rightarrow> held_interaction \<Rightarrow> interaction_answer \<Rightarrow> string \<Rightarrow> ms
   \<Rightarrow> answer_error + settlement" where
  "answer_of c h a token now =
     (let req = hd_request h;
          ov = \<lparr>ov_status = SAnswered, ov_by = Human, ov_by_token = Some token,
            ov_rule = ''human:'' @ token, ov_rule_source = None, ov_clamped = hd_clamped h,
            ov_parked_ms = parked_ms h now\<rparr>
      in case iq_kind req of
           Permission \<Rightarrow>
             (case a of
                AnsContent _ \<Rightarrow> Inl AnswerVerbForPermission
              | AnsDeny \<Rightarrow> Inr (refuse req ov)
              | AnsCancel \<Rightarrow> Inr
                  \<lparr>st_wire = Reject ''the permission request was cancelled by the client'' (iq_options req),
                   st_record = record_of ov SCancelled DCancel None None None False\<rparr>
              | AnsAllow oid \<Rightarrow> allow_of c req oid ov)
         | Elicitation \<Rightarrow>
             (case a of
                AnsAllow _ \<Rightarrow> Inl AllowVerbForForm
              | AnsDeny \<Rightarrow> Inr (refuse req ov)
              | AnsCancel \<Rightarrow> Inr
                  \<lparr>st_wire = Resolve (action_json ''cancel''),
                   st_record = record_of ov SCancelled DCancel None (Some CancelAnswer) None False\<rparr>
              | AnsContent content \<Rightarrow>
                  (case build_elicitation_content (iq_fields req) content of
                     Inl e \<Rightarrow> Inl (FormRefused e)
                   | Inr out \<Rightarrow> Inr
                       \<lparr>st_wire = Resolve (JObj [(''action'', JStr ''accept''), (''content'', JObj out)]),
                        st_record = record_of ov SAnswered DAnswer None (Some Accept)
                          (Some (sort (map fst out))) False\<rparr>)))"

text \<open>What a teardown imposes.\<close>

datatype settle_reason = RShutdown | RCancel | RClose | RHibernate | RTimeout

fun reason_text :: "settle_reason \<Rightarrow> string" where
  "reason_text RShutdown = ''shutdown''"
| "reason_text RCancel = ''cancel''"
| "reason_text RClose = ''close''"
| "reason_text RHibernate = ''hibernate''"
| "reason_text RTimeout = ''timeout''"

fun timeout_text :: "park_timeout_action \<Rightarrow> string" where
  "timeout_text TimeoutDeny = ''deny''"
| "timeout_text TimeoutFail = ''fail''"

definition settle_all_of ::
  "interaction_config \<Rightarrow> settle_reason \<Rightarrow> ms \<Rightarrow> held_interaction \<Rightarrow> settlement" where
  "settle_all_of c reason now h =
     (let req = hd_request h; expired = (reason = RTimeout);
          ov = \<lparr>ov_status = (if expired then SExpired else SCancelled),
            ov_by = (if expired then Timeout else Daemon), ov_by_token = None,
            ov_rule = (if expired then ''m2:parkTimeout:'' @ timeout_text (ic_park_timeout_action c)
                       else ''m2:settle:'' @ reason_text reason),
            ov_rule_source = Some SrcDefault, ov_clamped = hd_clamped h,
            ov_parked_ms = parked_ms h now\<rparr>
      in case iq_kind req of
           Elicitation \<Rightarrow>
             \<lparr>st_wire = Resolve (action_json ''decline''),
              st_record = record_of ov (ov_status ov) DCancel None (Some Decline) None False\<rparr>
         | Permission \<Rightarrow>
             \<lparr>st_wire = Reject (''the permission request was abandoned ('' @ reason_text reason @ '')'')
                (iq_options req),
              st_record = record_of ov (ov_status ov) DCancel None None None False\<rparr>)"

definition expire_of :: "interaction_config \<Rightarrow> ms \<Rightarrow> held_interaction \<Rightarrow> settlement" where
  "expire_of c now h = refuse (hd_request h)
     \<lparr>ov_status = SExpired, ov_by = Timeout, ov_by_token = None,
      ov_rule = ''m2:parkTimeout:'' @ timeout_text (ic_park_timeout_action c),
      ov_rule_source = Some SrcDefault, ov_clamped = hd_clamped h, ov_parked_ms = parked_ms h now\<rparr>"

definition over_limit :: over where
  "over_limit = \<lparr>ov_status = SAnswered, ov_by = Daemon, ov_by_token = None,
     ov_rule = ''limit:max_parked'', ov_rule_source = Some SrcDefault, ov_clamped = None,
     ov_parked_ms = 0\<rparr>"

end
