(* ===== verification/InteractionRun.thy ===== *)
theory InteractionRun
  imports Interactions
begin

text \<open>
  The operations of \<open>createInteractionStrategy\<close> and their runs. The policy engine and the subject
  builder are parameters; a request's clock reading and minted id are arguments of its operation.
\<close>

section \<open>Routing\<close>

type_synonym decider = "policy_subject \<Rightarrow> offence policy_error + policy_verdict"

definition unresolved_verdict :: "unresolved \<Rightarrow> policy_verdict" where
  "unresolved_verdict u =
     \<lparr>v_action = (case u of OnPark \<Rightarrow> Park | OnDeny \<Rightarrow> Deny | OnFail \<Rightarrow> Fail),
      v_rule = ''m2:onUnresolved'', v_source = SrcDefault, v_clamped = None\<rparr>"

text \<open>
  \<open>verdictFor\<close>: no engine, a subject that could not be built, or an engine that throws all fall
  back to \<open>onUnresolved\<close>.
\<close>

definition verdict_for ::
  "interaction_config \<Rightarrow> decider option \<Rightarrow> policy_subject option \<Rightarrow> policy_verdict" where
  "verdict_for c d subject =
     (case d of
        None \<Rightarrow> unresolved_verdict (ic_on_unresolved c)
      | Some decide_one \<Rightarrow>
          (case subject of
             None \<Rightarrow> unresolved_verdict (ic_on_unresolved c)
           | Some s \<Rightarrow>
               (case decide_one s of
                  Inl _ \<Rightarrow> unresolved_verdict (ic_on_unresolved c)
                | Inr v \<Rightarrow> v)))"

text \<open>\<open>subjectFor\<close> when no \<open>toSubject\<close> is given.\<close>

definition plain_subject :: "interaction_request \<Rightarrow> policy_subject" where
  "plain_subject req =
     \<lparr>ps_method = iq_method req,
      ps_type = (if iq_subject req = JNull then ''unknown'' else ''tool_call''),
      ps_kind = (case fld (iq_subject req) ''toolCall'' of None \<Rightarrow> None
         | Some tc \<Rightarrow> js_str (fld tc ''kind'')),
      ps_paths = [], ps_command = None, ps_title = iq_title req, ps_agent = '''', ps_cwd = ''''\<rparr>"

definition settle_now ::
  "interaction_request \<Rightarrow> settlement \<times> fail_reason option \<Rightarrow> strategy \<Rightarrow> strategy" where
  "settle_now req d st = act
     ([Emit (settlement_events req (st_record (fst d)) (iq_turn_id req)),
       Wire (iq_id req) (st_wire (fst d))] @
      (case snd d of None \<Rightarrow> [] | Some why \<Rightarrow> [FailTurn why])) st"

definition park_request ::
  "interaction_config \<Rightarrow> interaction_request \<Rightarrow> policy_verdict \<Rightarrow> ms \<Rightarrow> strategy \<Rightarrow> strategy" where
  "park_request c req v now st =
     (let timed = (ic_park_timeout_ms c > 0);
          expires = (if timed then Some (now + ic_park_timeout_ms c) else None);
          block = \<lparr>park_parked_at = now, park_expires_at = expires,
                   park_on_timeout = ic_park_timeout_action c\<rparr>;
          t = next_timer st;
          st1 = act [Emit [pending_interaction_event req block (iq_turn_id req)], ParkWorker (iq_id req)]
                  (st\<lparr>next_timer := t + 1,
                      armed := armed st @ (if timed then [(t, iq_id req)] else [])\<rparr>);
          h = \<lparr>hd_request = req, hd_parked_at = now, hd_expires_at = expires,
               hd_on_timeout = ic_park_timeout_action c, hd_clamped = v_clamped v\<rparr>
      in case hold c h t st1 of
           Some st2 \<Rightarrow> st2
         | None \<Rightarrow> settle_now req (refuse req over_limit, None) (release t (iq_id req) st1))"

definition route ::
  "interaction_config \<Rightarrow> policy_verdict \<Rightarrow> interaction_request \<Rightarrow> ms \<Rightarrow> strategy \<Rightarrow> strategy" where
  "route c v req now st =
     (if v_action v \<noteq> Park then settle_now req (auto_of req v) st
      else if at_capacity c st then settle_now req (refuse req over_limit, None) st
      else park_request c req v now st)"

section \<open>Operations\<close>

definition permission_request_of :: "string \<Rightarrow> permission_request \<Rightarrow> string option \<Rightarrow> interaction_request" where
  "permission_request_of i req turn =
     \<lparr>iq_id = i, iq_kind = Permission, iq_method = RequestPermission, iq_title = mapped_title req,
      iq_message = None, iq_subject = pr_subject req, iq_options = mapped_options req,
      iq_fields = [], iq_tool_call_id = pr_tool_call_id req, iq_turn_id = turn,
      iq_raw = pr_raw req\<rparr>"

definition elicitation_request_of :: "string \<Rightarrow> mapped_elicitation \<Rightarrow> string option \<Rightarrow> interaction_request" where
  "elicitation_request_of i req turn =
     \<lparr>iq_id = i, iq_kind = Elicitation, iq_method = ElicitationCreate, iq_title = me_message req,
      iq_message = Some (me_message req), iq_subject = JNull, iq_options = [],
      iq_fields = me_fields req, iq_tool_call_id = me_tool_call_id req, iq_turn_id = turn,
      iq_raw = me_raw req\<rparr>"

text \<open>\<open>safeRemap\<close>: the form is read again from the agent's own bytes.\<close>

definition safe_remap :: "mapped_elicitation \<Rightarrow> mapped_elicitation" where
  "safe_remap req = (case map_elicitation (me_raw req) of
     Inr m \<Rightarrow> m | Inl _ \<Rightarrow> req\<lparr>me_fields := []\<rparr>)"

text \<open>
  \<open>answer\<close>. \<open>cursor\<close> is the worker log's newest sequence number once the given events have been
  appended to it, or nothing without a log.
\<close>

definition answer_state :: "interaction_config \<Rightarrow> strategy \<Rightarrow> worker_state" where
  "answer_state c st = (case ic_worker_state c of Some w \<Rightarrow> w
     | None \<Rightarrow> if live st > 0 then RequiresAction else Running)"

definition answer ::
  "interaction_config \<Rightarrow> string \<Rightarrow> interaction_answer \<Rightarrow> string \<Rightarrow> ms
   \<Rightarrow> (event_input list \<Rightarrow> seq option) \<Rightarrow> strategy
   \<Rightarrow> (answer_error + interaction_snapshot \<times> worker_state \<times> seq) \<times> strategy" where
  "answer c i a token now cursor st =
     (case find_entry st i of
        None \<Rightarrow> (Inl (InteractionNotFoundErr i), st)
      | Some e \<Rightarrow>
          if \<not> is_open e then (Inl (InteractionSettledErr (snapshot_of e)), st)
          else if cursor [] = None then (Inl NoLog, st)
          else
            (case answer_of c (en_held e) a token now of
               Inl err \<Rightarrow> (Inl err, st)
             | Inr s \<Rightarrow>
                 (let st' = settle e s Human now st;
                      e' = e\<lparr>en_settled := Some (st_record s, now, Human)\<rparr>;
                      req = hd_request (en_held e)
                  in (case cursor (settlement_events req (st_record s) (iq_turn_id req)) of
                        None \<Rightarrow> Inl NoLog
                      | Some q \<Rightarrow> Inr (snapshot_of e', answer_state c st', q), st'))))"

text \<open>A park deadline: the timer disarms itself, then \<open>expire\<close>.\<close>

definition fire_timer :: "interaction_config \<Rightarrow> nat \<Rightarrow> ms \<Rightarrow> strategy \<Rightarrow> strategy" where
  "fire_timer c t now st =
     (case map_of (armed st) t of
        None \<Rightarrow> st
      | Some i \<Rightarrow>
          (let st1 = st\<lparr>armed := filter (\<lambda>(u, _). u \<noteq> t) (armed st)\<rparr>;
               (settled, st2) = settle_one i (expire_of c now) Timeout now st1
           in if settled \<and> ic_park_timeout_action c = TimeoutFail
              then act [FailTurn (ParkExpired i (ic_park_timeout_ms c))] st2 else st2))"

definition settle_all :: "interaction_config \<Rightarrow> settle_reason \<Rightarrow> ms \<Rightarrow> strategy \<Rightarrow> strategy" where
  "settle_all c reason now st =
     fold (\<lambda>e. settle e (settle_all_of c reason now (en_held e))
                 (if reason = RTimeout then Timeout else Daemon) now)
       (filter is_open (entries st)) st"

definition close_strategy :: "strategy \<Rightarrow> strategy" where
  "close_strategy st = st\<lparr>armed := []\<rparr>"

section \<open>Runs\<close>

datatype interaction_op =
    OpPermission string permission_request "string option" "policy_subject option" ms
  | OpElicitation string mapped_elicitation "string option" "policy_subject option" ms
  | OpAnswer string interaction_answer string ms "event_input list \<Rightarrow> seq option"
  | OpFire nat ms
  | OpSettleAll settle_reason ms
  | OpClose

fun op_step :: "interaction_config \<Rightarrow> decider option \<Rightarrow> interaction_op \<Rightarrow> strategy \<Rightarrow> strategy" where
  "op_step c d (OpPermission i req turn s now) st =
     route c (verdict_for c d s) (permission_request_of i req turn) now st"
| "op_step c d (OpElicitation i req turn s now) st =
     route c (verdict_for c d s) (elicitation_request_of i (safe_remap req) turn) now st"
| "op_step c d (OpAnswer i a token now cursor) st = snd (answer c i a token now cursor st)"
| "op_step c d (OpFire t now) st = fire_timer c t now st"
| "op_step c d (OpSettleAll reason now) st = settle_all c reason now st"
| "op_step c d OpClose st = close_strategy st"

fun minted :: "interaction_op \<Rightarrow> string list" where
  "minted (OpPermission i _ _ _ _) = [i]"
| "minted (OpElicitation i _ _ _ _) = [i]"
| "minted _ = []"

definition fresh_strategy :: strategy where
  "fresh_strategy = \<lparr>entries = [], ordinal = 0, live = 0, armed = [], next_timer = 0, effects = []\<rparr>"

text \<open>
  Reachable strategies, with the ids minted so far. \<open>IdGen\<close> never mints an id twice.
\<close>

inductive reached :: "interaction_config \<Rightarrow> decider option \<Rightarrow> string list \<Rightarrow> strategy \<Rightarrow> bool"
  for c :: interaction_config and d :: "decider option" where
  reached_new: "reached c d [] fresh_strategy"
| reached_step: "reached c d ids st \<Longrightarrow> set (minted op) \<inter> set ids = {} \<Longrightarrow>
    reached c d (ids @ minted op) (op_step c d op st)"

end
