(* ===== verification/InteractionInv.thy ===== *)
theory InteractionInv
  imports InteractionRun
begin

text \<open>
  The invariant of the strategy: the registry's bookkeeping, what the trace says about every minted
  id, and the timers. Each primitive of \<open>InteractionRun\<close> keeps it.
\<close>

section \<open>Reading the trace\<close>

definition wired :: "effect list \<Rightarrow> string list" where
  "wired es = List.map_filter (\<lambda>e. case e of Wire i _ \<Rightarrow> Some i | _ \<Rightarrow> None) es"

definition parked :: "effect list \<Rightarrow> string list" where
  "parked es = List.map_filter (\<lambda>e. case e of ParkWorker i \<Rightarrow> Some i | _ \<Rightarrow> None) es"

definition unparked :: "effect list \<Rightarrow> string list" where
  "unparked es = List.map_filter (\<lambda>e. case e of UnparkWorker i \<Rightarrow> Some i | _ \<Rightarrow> None) es"

lemma trace_append [simp]:
  "wired (xs @ ys) = wired xs @ wired ys" "parked (xs @ ys) = parked xs @ parked ys"
  "unparked (xs @ ys) = unparked xs @ unparked ys"
  by (simp_all add: wired_def parked_def unparked_def List.map_filter_def)

lemma trace_simps [simp]:
  "wired [] = []" "parked [] = []" "unparked [] = []"
  "wired (Wire i w # es) = i # wired es" "wired (Emit b # es) = wired es"
  "wired (ParkWorker i # es) = wired es" "wired (UnparkWorker i # es) = wired es"
  "wired (FailTurn r # es) = wired es"
  "parked (Wire i w # es) = parked es" "parked (Emit b # es) = parked es"
  "parked (ParkWorker i # es) = i # parked es" "parked (UnparkWorker i # es) = parked es"
  "parked (FailTurn r # es) = parked es"
  "unparked (Wire i w # es) = unparked es" "unparked (Emit b # es) = unparked es"
  "unparked (ParkWorker i # es) = unparked es" "unparked (UnparkWorker i # es) = i # unparked es"
  "unparked (FailTurn r # es) = unparked es"
  by (simp_all add: wired_def parked_def unparked_def List.map_filter_simps)

definition open_ids :: "strategy \<Rightarrow> string list" where
  "open_ids st = map entry_id (filter is_open (entries st))"

section \<open>The invariant\<close>

definition registry_ok :: "interaction_config \<Rightarrow> strategy \<Rightarrow> bool" where
  "registry_ok c st \<longleftrightarrow>
     distinct (map entry_id (entries st)) \<and> sorted_wrt (<) (map en_ordinal (entries st)) \<and>
     (\<forall>e \<in> set (entries st). en_ordinal e \<le> ordinal st) \<and>
     live st = int (length (open_ids st)) \<and> live st \<le> max 0 (ic_max_parked c)"

definition history_ok :: "strategy \<Rightarrow> bool" where
  "history_ok st \<longleftrightarrow> int (length (entries st)) - live st \<le> terminal_history"

definition trace_ok :: "string list \<Rightarrow> strategy \<Rightarrow> bool" where
  "trace_ok ids st \<longleftrightarrow>
     distinct (wired (effects st)) \<and> set (wired (effects st)) = set ids - set (open_ids st) \<and>
     distinct (parked (effects st)) \<and> distinct (unparked (effects st)) \<and>
     set (unparked (effects st)) \<union> set (open_ids st) = set (parked (effects st)) \<and>
     set (unparked (effects st)) \<inter> set (open_ids st) = {} \<and>
     set (parked (effects st)) \<subseteq> set ids"

definition timers_ok :: "strategy \<Rightarrow> bool" where
  "timers_ok st \<longleftrightarrow>
     (\<forall>(t, i) \<in> set (armed st). t < next_timer st \<and>
        (\<exists>e \<in> set (entries st). is_open e \<and> entry_id e = i \<and> en_timer e = t))"

definition strategy_inv :: "interaction_config \<Rightarrow> string list \<Rightarrow> strategy \<Rightarrow> bool" where
  "strategy_inv c ids st \<longleftrightarrow>
     distinct ids \<and> set (map entry_id (entries st)) \<subseteq> set ids \<and>
     registry_ok c st \<and> history_ok st \<and> trace_ok ids st \<and> timers_ok st"

lemmas inv_defs = registry_ok_def history_ok_def trace_ok_def timers_ok_def strategy_inv_def

lemma strategy_inv_new: "strategy_inv c [] fresh_strategy"
  by (simp add: inv_defs fresh_strategy_def open_ids_def terminal_history_def)

section \<open>Settling one entry\<close>

lemma mark_settled_simps [simp]:
  "entry_id (mark_settled i how e) = entry_id e" "en_ordinal (mark_settled i how e) = en_ordinal e"
  "en_timer (mark_settled i how e) = en_timer e"
  "is_open (mark_settled i how e) \<longleftrightarrow> is_open e \<and> entry_id e \<noteq> i"
  by (simp_all add: mark_settled_def entry_id_def is_open_def)

lemma open_mark:
  "map entry_id (filter is_open (map (mark_settled i how) es))
     = filter (\<lambda>j. j \<noteq> i) (map entry_id (filter is_open es))"
  by (induction es) auto

lemma find_entry_Some: "find_entry st i = Some e \<Longrightarrow> e \<in> set (entries st) \<and> entry_id e = i"
  by (auto simp: find_entry_def dest!: find_SomeD)

lemma find_entry_None: "find_entry st i = None \<longleftrightarrow> i \<notin> entry_id ` set (entries st)"
  by (auto simp: find_entry_def find_None_iff_all)

lemma act_simps [simp]:
  "entries (act es st) = entries st" "live (act es st) = live st" "armed (act es st) = armed st"
  "ordinal (act es st) = ordinal st" "next_timer (act es st) = next_timer st"
  "effects (act es st) = effects st @ es" "open_ids (act es st) = open_ids st"
  by (simp_all add: act_def open_ids_def)

text \<open>The state after a settlement, before the history is trimmed.\<close>

definition settled_state ::
  "entry \<Rightarrow> settlement \<Rightarrow> interaction_actor \<Rightarrow> ms \<Rightarrow> strategy \<Rightarrow> strategy" where
  "settled_state e s by now st =
     st\<lparr>entries := map (mark_settled (entry_id e) (st_record s, now, by)) (entries st),
        live := live st - 1, armed := filter (\<lambda>(u, _). u \<noteq> en_timer e) (armed st),
        effects := effects st @
          [Emit (settlement_events (hd_request (en_held e)) (st_record s)
             (iq_turn_id (hd_request (en_held e)))), UnparkWorker (entry_id e),
           Wire (entry_id e) (st_wire s)]\<rparr>"

lemma settle_eq: "settle e s by now st = reap (settled_state e s by now st)"
  by (simp add: settle_def settled_state_def release_def act_def Let_def)

lemma settled_open:
  "open_ids (settled_state e s by now st) = filter (\<lambda>j. j \<noteq> entry_id e) (open_ids st)"
  by (simp add: settled_state_def open_ids_def open_mark del: filter_map)

lemma open_idsI: "e \<in> set (entries st) \<Longrightarrow> is_open e \<Longrightarrow> entry_id e \<in> set (open_ids st)"
  by (auto simp: open_ids_def)

lemma distinct_open: "distinct (map entry_id (entries st)) \<Longrightarrow> distinct (open_ids st)"
  by (simp add: open_ids_def distinct_map_filter)

lemma settled_registry:
  assumes "registry_ok c st" "e \<in> set (entries st)" "is_open e"
  shows "registry_ok c (settled_state e s by now st)"
proof -
  have d: "distinct (open_ids st)" "entry_id e \<in> set (open_ids st)"
    using assms by (auto simp: registry_ok_def intro: distinct_open open_idsI)
  have len: "length (filter (\<lambda>j. j \<noteq> entry_id e) (open_ids st)) = length (open_ids st) - 1"
    by (rule length_filter_neq [OF d])
  obtain n where n: "length (open_ids st) = Suc n"
    using d(2) by (cases "open_ids st") auto
  have "live (settled_state e s by now st) = int (length (open_ids (settled_state e s by now st)))"
    using assms(1) len n unfolding settled_open by (simp add: registry_ok_def settled_state_def)
  moreover have "live (settled_state e s by now st) \<le> max 0 (ic_max_parked c)"
    using assms(1) by (simp add: registry_ok_def settled_state_def)
  ultimately show ?thesis
    using assms(1) by (simp add: registry_ok_def settled_state_def comp_def)
qed

lemma settled_trace:
  assumes "trace_ok ids st" "distinct (map entry_id (entries st))"
    "set (map entry_id (entries st)) \<subseteq> set ids" "e \<in> set (entries st)" "is_open e"
  shows "trace_ok ids (settled_state e s by now st)"
proof -
  have o1: "entry_id e \<in> set (open_ids st)" using assms(4,5) by (rule open_idsI)
  have i: "entry_id e \<in> set ids" using assms(3,4) by auto
  have "set (open_ids (settled_state e s by now st)) = set (open_ids st) - {entry_id e}"
    unfolding settled_open by auto
  with assms(1) o1 i show ?thesis
    unfolding trace_ok_def by (auto simp: settled_state_def)
qed

lemma same_entry:
  "distinct (map entry_id es) \<Longrightarrow> e \<in> set es \<Longrightarrow> f \<in> set es \<Longrightarrow> entry_id e = entry_id f \<Longrightarrow> e = f"
  by (simp add: distinct_map inj_on_def)

lemma settled_timers:
  assumes "timers_ok st" "distinct (map entry_id (entries st))" "e \<in> set (entries st)"
  shows "timers_ok (settled_state e s by now st)"
proof -
  let ?mark = "mark_settled (entry_id e) (st_record s, now, by)"
  have "t < next_timer st \<and> (\<exists>f \<in> ?mark ` set (entries st). is_open f \<and> entry_id f = i \<and> en_timer f = t)"
    if a: "(t, i) \<in> set (armed st)" "t \<noteq> en_timer e" for t i
  proof -
    from assms(1) a(1) obtain f where f: "f \<in> set (entries st)" "is_open f" "entry_id f = i"
      "en_timer f = t" "t < next_timer st" by (auto simp: timers_ok_def)
    have "entry_id f \<noteq> entry_id e" using same_entry [OF assms(2) f(1) assms(3)] f(4) a(2) by auto
    with f show ?thesis by force
  qed
  then show ?thesis unfolding timers_ok_def settled_state_def by auto
qed

section \<open>Trimming the history\<close>

lemma reap_parts:
  "live (reap st) = live st" "ordinal (reap st) = ordinal st" "armed (reap st) = armed st"
  "next_timer (reap st) = next_timer st" "effects (reap st) = effects st"
  "\<exists>P. entries (reap st) = filter P (entries st)"
  by (auto simp: reap_def Let_def intro: exI [of _ "\<lambda>_. True"])

text \<open>Only settled entries go, so nothing pending is ever dropped.\<close>

lemma reap_open:
  assumes "distinct (map entry_id (entries st))"
  shows "filter is_open (entries (reap st)) = filter is_open (entries st)"
proof (cases "int (length (entries st)) - live st \<le> terminal_history")
  case True
  then show ?thesis by (simp add: reap_def)
next
  case False
  let ?n = "nat (int (length (entries st)) - live st - terminal_history)"
  let ?gone = "take ?n (sort_key en_ordinal (filter (\<lambda>e. \<not> is_open e) (entries st)))"
  have "entry_id e \<notin> entry_id ` set ?gone" if e: "e \<in> set (entries st)" "is_open e" for e
  proof
    assume "entry_id e \<in> entry_id ` set ?gone"
    then obtain f where f: "f \<in> set ?gone" "entry_id e = entry_id f" by blast
    from f(1) have "f \<in> set (entries st)" "\<not> is_open f" by (auto dest: in_set_takeD)
    with same_entry [OF assms e(1) _ f(2)] e(2) show False by blast
  qed
  then show ?thesis
    using False by (auto simp: reap_def Let_def intro!: filter_cong)
qed

lemma reap_open_ids: "distinct (map entry_id (entries st)) \<Longrightarrow> open_ids (reap st) = open_ids st"
  by (simp add: open_ids_def reap_open)

lemma reap_registry:
  assumes "registry_ok c st"
  shows "registry_ok c (reap st)"
proof -
  have d: "distinct (map entry_id (entries st))" using assms by (simp add: registry_ok_def)
  obtain P where "entries (reap st) = filter P (entries st)" using reap_parts(6) by blast
  with assms reap_open_ids [OF d] show ?thesis
    by (auto simp: registry_ok_def reap_parts distinct_map_filter sorted_wrt_map sorted_wrt_filter)
qed

lemma reap_timers:
  assumes "timers_ok st" "distinct (map entry_id (entries st))"
  shows "timers_ok (reap st)"
proof -
  have keep: "f \<in> set (entries (reap st))" if "f \<in> set (entries st)" "is_open f" for f
  proof -
    have "f \<in> set (filter is_open (entries (reap st)))" using that by (simp add: reap_open [OF assms(2)])
    then show ?thesis by simp
  qed
  have "t < next_timer st \<and> (\<exists>f \<in> set (entries (reap st)). is_open f \<and> entry_id f = i \<and> en_timer f = t)"
    if "(t, i) \<in> set (armed st)" for t i
    using assms(1) that keep unfolding timers_ok_def by fast
  then show ?thesis unfolding timers_ok_def reap_parts by auto
qed

lemma length_filter_gone:
  assumes "distinct (map entry_id es)" "set gs \<subseteq> set es" "distinct gs"
  shows "length (filter (\<lambda>e. entry_id e \<notin> entry_id ` set gs) es) = length es - length gs"
proof -
  have inj: "inj_on entry_id (set es)" "distinct es" using assms(1) by (simp_all add: distinct_map)
  have "set (filter (\<lambda>e. entry_id e \<notin> entry_id ` set gs) es) = set es - set gs"
    using inj(1) assms(2) by (auto simp: inj_on_def image_iff subset_iff)
  then have "card (set (filter (\<lambda>e. entry_id e \<notin> entry_id ` set gs) es)) = card (set es) - card (set gs)"
    using assms(2) by (simp add: card_Diff_subset)
  then show ?thesis using inj(2) assms(3) by (simp add: distinct_card [symmetric])
qed

lemma length_split: "length es = length (filter is_open es) + length (filter (\<lambda>e. \<not> is_open e) es)"
  by (simp add: sum_length_filter_compl)

lemma reap_history:
  assumes "registry_ok c st"
  shows "history_ok (reap st)"
proof (cases "int (length (entries st)) - live st \<le> terminal_history")
  case True
  then show ?thesis by (simp add: reap_def history_ok_def)
next
  case False
  let ?over = "nat (int (length (entries st)) - live st - terminal_history)"
  let ?closed = "filter (\<lambda>e. \<not> is_open e) (entries st)"
  let ?gone = "take ?over (sort_key en_ordinal ?closed)"
  have d: "distinct (map entry_id (entries st))" "distinct (entries st)"
    using assms by (simp_all add: registry_ok_def distinct_map)
  have live: "live st = int (length (filter is_open (entries st)))"
    using assms by (simp add: registry_ok_def open_ids_def)
  have closed: "int (length ?closed) = int (length (entries st)) - live st"
    using length_split [of "entries st"] live by simp
  have sub: "set ?gone \<subseteq> set (entries st)" by (auto dest: in_set_takeD)
  have n: "length ?gone = ?over" using closed False by (simp add: terminal_history_def)
  have "length (entries (reap st)) = length (entries st) - ?over"
    using length_filter_gone [OF d(1) sub] d(2) n False by (simp add: reap_def Let_def)
  then show ?thesis
    using False closed live by (simp add: history_ok_def reap_parts terminal_history_def)
qed

lemma inv_settle:
  assumes "strategy_inv c ids st" "e \<in> set (entries st)" "is_open e"
  shows "strategy_inv c ids (settle e s by now st)"
proof -
  let ?st = "settled_state e s by now st"
  have d: "distinct (map entry_id (entries st))" using assms(1) by (simp add: strategy_inv_def registry_ok_def)
  have reg: "registry_ok c ?st" using assms by (simp add: strategy_inv_def settled_registry)
  then have d': "distinct (map entry_id (entries ?st))" by (simp add: registry_ok_def)
  have tr: "trace_ok ids ?st" using assms d by (intro settled_trace) (simp_all add: strategy_inv_def)
  have ti: "timers_ok ?st" using assms d by (intro settled_timers) (simp_all add: strategy_inv_def)
  obtain P where P: "entries (reap ?st) = filter P (entries ?st)" using reap_parts(6) by blast
  have "set (map entry_id (entries (reap ?st))) \<subseteq> set (map entry_id (entries ?st))" unfolding P by auto
  also have "\<dots> \<subseteq> set ids" using assms(1) by (auto simp: strategy_inv_def settled_state_def)
  finally have sub: "set (map entry_id (entries (reap ?st))) \<subseteq> set ids" .
  have "trace_ok ids (reap ?st)"
    using tr by (simp add: trace_ok_def reap_parts reap_open_ids [OF d'])
  then show ?thesis
    using assms(1) sub reap_registry [OF reg] reap_history [OF reg] reap_timers [OF ti d']
    by (simp add: strategy_inv_def settle_eq)
qed

section \<open>Operations\<close>

lemma settle_now_parts [simp]:
  "entries (settle_now req d st) = entries st" "live (settle_now req d st) = live st"
  "armed (settle_now req d st) = armed st" "next_timer (settle_now req d st) = next_timer st"
  "ordinal (settle_now req d st) = ordinal st" "open_ids (settle_now req d st) = open_ids st"
  "wired (effects (settle_now req d st)) = wired (effects st) @ [iq_id req]"
  "parked (effects (settle_now req d st)) = parked (effects st)"
  "unparked (effects (settle_now req d st)) = unparked (effects st)"
  by (simp_all add: settle_now_def split: option.splits)

lemma open_sub: "set (open_ids st) \<subseteq> set (map entry_id (entries st))"
  by (auto simp: open_ids_def)

lemma inv_settle_now:
  assumes "strategy_inv c ids st" "iq_id req \<notin> set ids"
  shows "strategy_inv c (ids @ [iq_id req]) (settle_now req d st)"
proof -
  have "iq_id req \<notin> set (open_ids st)" using assms open_sub by (auto simp: strategy_inv_def)
  moreover have "iq_id req \<notin> set (wired (effects st))" using assms by (auto simp: inv_defs)
  ultimately show ?thesis
    using assms unfolding strategy_inv_def
    by (auto simp: registry_ok_def history_ok_def trace_ok_def timers_ok_def)
qed

lemma inv_park:
  assumes "strategy_inv c ids st" "iq_id req \<notin> set ids" "\<not> at_capacity c st"
  shows "strategy_inv c (ids @ [iq_id req]) (park_request c req v now st)"
proof -
  let ?i = "iq_id req"
  let ?timed = "ic_park_timeout_ms c > 0"
  let ?exp = "if ?timed then Some (now + ic_park_timeout_ms c) else None"
  let ?block = "\<lparr>park_parked_at = now, park_expires_at = ?exp, park_on_timeout = ic_park_timeout_action c\<rparr>"
  let ?h = "\<lparr>hd_request = req, hd_parked_at = now, hd_expires_at = ?exp,
     hd_on_timeout = ic_park_timeout_action c, hd_clamped = v_clamped v\<rparr>"
  let ?e = "\<lparr>en_held = ?h, en_ordinal = ordinal st + 1, en_timer = next_timer st, en_settled = None\<rparr>"
  have fresh: "?i \<notin> entry_id ` set (entries st)" using assms(1,2) by (auto simp: strategy_inv_def)
  have st: "park_request c req v now st =
      \<lparr>entries = entries st @ [?e], ordinal = ordinal st + 1, live = live st + 1,
       armed = armed st @ (if ?timed then [(next_timer st, ?i)] else []),
       next_timer = next_timer st + 1,
       effects = effects st @ [Emit [pending_interaction_event req ?block (iq_turn_id req)], ParkWorker ?i]\<rparr>"
    (is "_ = ?st")
  proof -
    have "List.find (\<lambda>e. entry_id e = ?i) (entries st) = None"
      unfolding find_None_iff_all using fresh by (metis imageI)
    with assms(3) show ?thesis
      by (simp add: park_request_def hold_def find_entry_def at_capacity_def act_def Let_def)
  qed
  have id: "entry_id ?e = ?i" "is_open ?e" by (simp_all add: entry_id_def is_open_def)
  have op: "open_ids ?st = open_ids st @ [?i]" using id by (simp add: open_ids_def)
  have "registry_ok c ?st"
    using assms(1,3) fresh id(1) op
    by (auto simp: strategy_inv_def registry_ok_def at_capacity_def sorted_wrt_append less_Suc_eq_le)
  moreover have "history_ok ?st" using assms(1) by (simp add: strategy_inv_def history_ok_def)
  moreover have "trace_ok (ids @ [?i]) ?st"
  proof -
    have "?i \<notin> set (open_ids st)" using fresh open_sub by fastforce
    moreover have "?i \<notin> set (parked (effects st))" "?i \<notin> set (wired (effects st))"
      using assms(1,2) by (auto simp: inv_defs)
    ultimately show ?thesis
      using assms(1,2) op by (auto simp: strategy_inv_def trace_ok_def)
  qed
  moreover have "timers_ok ?st"
    using assms(1) id unfolding strategy_inv_def timers_ok_def by (auto intro: less_SucI)
  ultimately show ?thesis
    using assms(1,2) id unfolding st strategy_inv_def by auto
qed

lemma inv_route:
  assumes "strategy_inv c ids st" "iq_id req \<notin> set ids"
  shows "strategy_inv c (ids @ [iq_id req]) (route c v req now st)"
  using assms by (simp add: route_def inv_settle_now inv_park)

lemma inv_act_fail: "strategy_inv c ids st \<Longrightarrow> strategy_inv c ids (act [FailTurn r] st)"
  by (simp add: inv_defs)

lemma inv_disarm: "strategy_inv c ids st \<Longrightarrow> strategy_inv c ids (st\<lparr>armed := filter P (armed st)\<rparr>)"
  by (auto simp: inv_defs open_ids_def)

lemma inv_settle_one:
  "strategy_inv c ids st \<Longrightarrow> strategy_inv c ids (snd (settle_one i f by now st))"
  by (auto simp: settle_one_def inv_settle dest: find_entry_Some split: option.splits)

lemma inv_fire: "strategy_inv c ids st \<Longrightarrow> strategy_inv c ids (fire_timer c t now st)"
proof (cases "map_of (armed st) t")
  case (Some i)
  assume "strategy_inv c ids st"
  then have "strategy_inv c ids (snd (settle_one i (expire_of c now) Timeout now
      (st\<lparr>armed := filter (\<lambda>(u, _). u \<noteq> t) (armed st)\<rparr>)))"
    by (intro inv_settle_one inv_disarm)
  with Some show ?thesis
    by (simp add: fire_timer_def Let_def split_beta inv_act_fail)
qed (simp add: fire_timer_def)

lemma inv_answer: "strategy_inv c ids st \<Longrightarrow> strategy_inv c ids (snd (answer c i a token now cursor st))"
  by (auto simp: answer_def Let_def inv_settle dest: find_entry_Some split: option.splits sum.splits)

end
