(* ===== verification/InteractionSettle.thy ===== *)
theory InteractionSettle
  imports InteractionInv
begin

text \<open>
  What each operation appends to the trace, and that every answer on the wire was explained by the
  envelopes before it.
\<close>

section \<open>Effects\<close>

definition settle_effects :: "interaction_request \<Rightarrow> settlement \<Rightarrow> effect list" where
  "settle_effects req s =
     [Emit (settlement_events req (st_record s) (iq_turn_id req)), UnparkWorker (iq_id req),
      Wire (iq_id req) (st_wire s)]"

lemma settle_effects: "effects (settle e s by now st) = effects st @ settle_effects (hd_request (en_held e)) s"
  by (simp add: settle_eq reap_parts settled_state_def settle_effects_def entry_id_def)

lemma settle_open:
  assumes "distinct (map entry_id (entries st))"
  shows "open_ids (settle e s by now st) = filter (\<lambda>j. j \<noteq> entry_id e) (open_ids st)"
proof -
  have "distinct (map entry_id (entries (settled_state e s by now st)))"
    using assms by (simp add: settled_state_def comp_def)
  then show ?thesis by (simp add: settle_eq reap_open_ids settled_open)
qed

lemma settle_keeps:
  assumes "distinct (map entry_id (entries st))" "f \<in> set (entries st)" "is_open f" "entry_id f \<noteq> entry_id e"
  shows "f \<in> set (entries (settle e s by now st))"
proof -
  let ?st = "settled_state e s by now st"
  have "mark_settled (entry_id e) (st_record s, now, by) f = f" using assms(4) by (simp add: mark_settled_def)
  then have "f \<in> set (filter is_open (entries ?st))"
    using assms(2,3) by (force simp: settled_state_def)
  moreover have "distinct (map entry_id (entries ?st))"
    using assms(1) by (simp add: settled_state_def comp_def)
  ultimately show ?thesis unfolding settle_eq using reap_open [of ?st] by (metis filter_is_subset subsetD)
qed

lemma settle_armed: "armed (settle e s by now st) = filter (\<lambda>(u, _). u \<noteq> en_timer e) (armed st)"
  by (simp add: settle_eq reap_parts settled_state_def)

lemma inv_distinct: "strategy_inv c ids st \<Longrightarrow> distinct (map entry_id (entries st))"
  by (simp add: strategy_inv_def registry_ok_def)

section \<open>Teardown\<close>

lemma settle_list:
  assumes "strategy_inv c ids st" "set es \<subseteq> set (filter is_open (entries st))" "distinct (map entry_id es)"
  shows "strategy_inv c ids (fold (\<lambda>e. settle e (f (en_held e)) by now) es st) \<and>
    open_ids (fold (\<lambda>e. settle e (f (en_held e)) by now) es st)
      = filter (\<lambda>j. j \<notin> entry_id ` set es) (open_ids st) \<and>
    effects (fold (\<lambda>e. settle e (f (en_held e)) by now) es st)
      = effects st @ concat (map (\<lambda>e. settle_effects (hd_request (en_held e)) (f (en_held e))) es)"
  using assms
proof (induction es arbitrary: st)
  case Nil
  then show ?case by simp
next
  case (Cons e es)
  let ?st = "settle e (f (en_held e)) by now st"
  have e: "e \<in> set (entries st)" "is_open e" using Cons.prems(2) by auto
  have inv: "strategy_inv c ids ?st" by (rule inv_settle [OF Cons.prems(1) e])
  note d = inv_distinct [OF Cons.prems(1)]
  have sub: "set es \<subseteq> set (filter is_open (entries ?st))"
  proof
    fix g assume g: "g \<in> set es"
    then have "g \<in> set (entries st)" "is_open g" using Cons.prems(2) by auto
    moreover have "entry_id g \<noteq> entry_id e" using Cons.prems(3) g by (metis distinct.simps(2) image_eqI list.simps(9) set_map)
    ultimately show "g \<in> set (filter is_open (entries ?st))" using settle_keeps [OF d] by simp
  qed
  have "distinct (map entry_id es)" using Cons.prems(3) by simp
  from Cons.IH [OF inv sub this] show ?case
    by (simp add: settle_open [OF d] settle_effects conj_commute)
qed

lemma settle_all_parts:
  assumes "strategy_inv c ids st"
  shows "strategy_inv c ids (settle_all c reason now st)"
    "open_ids (settle_all c reason now st) = []"
    "effects (settle_all c reason now st) = effects st @
       concat (map (\<lambda>e. settle_effects (hd_request (en_held e)) (settle_all_of c reason now (en_held e)))
         (filter is_open (entries st)))"
proof -
  have "distinct (map entry_id (filter is_open (entries st)))"
    using inv_distinct [OF assms] by (simp add: distinct_map_filter)
  note l = settle_list [OF assms subset_refl this, of "settle_all_of c reason now"
      "if reason = RTimeout then Timeout else Daemon" now, folded settle_all_def]
  show "strategy_inv c ids (settle_all c reason now st)"
    "effects (settle_all c reason now st) = effects st @
       concat (map (\<lambda>e. settle_effects (hd_request (en_held e)) (settle_all_of c reason now (en_held e)))
         (filter is_open (entries st)))"
    using l by simp_all
  show "open_ids (settle_all c reason now st) = []" using l by (auto simp: open_ids_def filter_empty_conv)
qed

section \<open>Reachable strategies\<close>

lemma inv_step:
  assumes "strategy_inv c ids st" "set (minted op) \<inter> set ids = {}"
  shows "strategy_inv c (ids @ minted op) (op_step c d op st)"
proof (cases op)
  case (OpPermission i req turn s now)
  then show ?thesis
    using assms inv_route [of c ids st "permission_request_of i req turn"]
    by (simp add: permission_request_of_def)
next
  case (OpElicitation i req turn s now)
  then show ?thesis
    using assms inv_route [of c ids st "elicitation_request_of i (safe_remap req) turn"]
    by (simp add: elicitation_request_of_def)
next
  case OpClose
  with assms(1) show ?thesis by (simp add: close_strategy_def inv_defs open_ids_def)
qed (use assms in \<open>simp_all add: inv_answer inv_fire settle_all_parts(1)\<close>)

lemma reached_inv: "reached c d ids st \<Longrightarrow> strategy_inv c ids st"
  by (induction rule: reached.induct) (simp_all add: strategy_inv_new inv_step)

section \<open>Sound settlements\<close>

text \<open>
  What any settlement of a request says. \<open>offer_with\<close>: an offered option with this id.
\<close>

definition offer_with :: "interaction_request \<Rightarrow> string \<Rightarrow> (json \<Rightarrow> bool) \<Rightarrow> bool" where
  "offer_with req oid P \<longleftrightarrow> (\<exists>x \<in> set (iq_options req). fld x ''optionId'' = Some (JStr oid) \<and> P x)"

definition settlement_ok :: "interaction_config \<Rightarrow> interaction_request \<Rightarrow> settlement \<Rightarrow> bool" where
  "settlement_ok c req s \<longleftrightarrow>
     (let r = st_record s in
      (case sr_option_id r of
         Some oid \<Rightarrow> iq_kind req = Permission \<and> st_wire s = Resolve (selected oid) \<and>
           (if sr_decision r = DDeny then offer_with req oid (\<lambda>x. fld x ''kind'' = Some (JStr ''reject_once''))
            else sr_decision r = DAllow \<and>
              (offer_with req oid (\<lambda>x. \<not> wide_offer x) \<or>
               ic_allow_always_human c \<and> sr_by r = Human \<and> sr_blinds r \<and> offer_with req oid (\<lambda>_. True)))
       | None \<Rightarrow> sr_decision r \<noteq> DAllow \<and>
           (iq_kind req = Permission \<longrightarrow> (\<exists>m. st_wire s = Reject m (iq_options req)))) \<and>
      (sr_decision r = DAllow \<longrightarrow> sr_by r \<in> {PolicyActor, Human}) \<and>
      (sr_decision r = DAnswer \<longrightarrow> sr_by r = Human))"

lemma narrow_offered:
  "p \<in> set (offered_options req) \<Longrightarrow> \<exists>x \<in> set (iq_options req).
     fld x ''optionId'' = Some (JStr (po_id p)) \<and> fld x ''kind'' = Some (JStr (po_kind p))"
proof -
  assume "p \<in> set (offered_options req)"
  then obtain x where "x \<in> set (iq_options req)" "narrow_one x = Some p"
    by (auto simp: offered_options_def narrow_options_def List.map_filter_def)
  then show ?thesis
    by (auto simp: narrow_one_def js_str_Some_iff split: option.splits)
qed

lemma refuse_ok:
  "ov_by ov \<noteq> Baseline \<Longrightarrow> settlement_ok c req (refuse req ov)"
proof (cases "iq_kind req")
  case Elicitation
  then show ?thesis by (simp add: refuse_def settlement_ok_def record_of_def)
next
  case Permission
  show ?thesis
  proof (cases "oc_id (select_option SelectDeny (offered_options req) True)")
    case None
    with Permission show ?thesis by (simp add: refuse_def settlement_ok_def record_of_def Let_def)
  next
    case (Some oid)
    then obtain p where p: "p \<in> set (offered_options req)" "po_id p = oid" "po_kind p = ''reject_once''"
      by (rule select_deny_Some)
    from narrow_offered [OF p(1)] p have "offer_with req oid (\<lambda>x. fld x ''kind'' = Some (JStr ''reject_once''))"
      unfolding offer_with_def by metis
    with Permission Some show ?thesis
      by (simp add: refuse_def settlement_ok_def record_of_def Let_def)
  qed
qed

lemma grant_offer:
  assumes "oc_id (select_grant (offered_options req) g) = Some oid"
  shows "offer_with req oid (\<lambda>x. \<not> wide_offer x)"
proof -
  from assms obtain p where p: "p \<in> set (offered_options req)" "po_id p = oid" "selectable_grant p"
    by (rule select_grant_Some)
  from narrow_offered [OF p(1)] p(2,3) show ?thesis
    unfolding offer_with_def by (auto simp: wide_offer_def selectable_grant_def)
qed

lemma auto_ok: "settlement_ok c req (fst (auto_of req v))"
proof (cases "iq_kind req = Permission \<and> v_action v = Allow")
  case True
  show ?thesis
  proof (cases "oc_id (select_grant (offered_options req) True)")
    case None
    with True show ?thesis by (simp add: auto_of_def Let_def refuse_ok)
  next
    case (Some oid)
    with True grant_offer [OF Some] show ?thesis
      by (simp add: auto_of_def Let_def settlement_ok_def record_of_def)
  qed
next
  case False
  then show ?thesis by (cases "iq_kind req") (auto simp: auto_of_def Let_def refuse_ok)
qed

lemma find_offer_Some: "find_offer req oid = Some x \<Longrightarrow> x \<in> set (iq_options req) \<and> fld x ''optionId'' = Some (JStr oid)"
  by (auto simp: find_offer_def dest!: find_SomeD)

lemma allow_ok:
  assumes "allow_of c req choice ov = Inr s" "iq_kind req = Permission" "ov_by ov = Human"
  shows "settlement_ok c req s"
proof -
  from assms(1) obtain oid x where x: "find_offer req oid = Some x"
    "wide_offer x \<longrightarrow> ic_allow_always_human c"
    "s = \<lparr>st_wire = Resolve (selected oid),
        st_record = record_of ov SAnswered DAllow (Some oid) None None (wide_offer x)\<rparr>"
    by (auto simp: allow_of_def Let_def split: option.splits sum.splits if_splits)
  have "offer_with req oid (\<lambda>y. y = x)" using find_offer_Some [OF x(1)] by (auto simp: offer_with_def)
  then have "offer_with req oid (\<lambda>y. \<not> wide_offer y) \<or> wide_offer x \<and> offer_with req oid (\<lambda>_. True)"
    by (auto simp: offer_with_def)
  with assms(2,3) x(2,3) show ?thesis
    by (auto simp: settlement_ok_def record_of_def Let_def)
qed

lemma answer_ok: "answer_of c h a token now = Inr s \<Longrightarrow> settlement_ok c (hd_request h) s"
proof (cases "iq_kind (hd_request h)")
  case Permission
  assume a: "answer_of c h a token now = Inr s"
  show ?thesis
  proof (cases a)
    case (AnsAllow oid)
    with a Permission show ?thesis by (auto simp: answer_of_def Let_def intro!: allow_ok)
  next
    case AnsCancel
    with a Permission show ?thesis
      by (auto simp: answer_of_def Let_def settlement_ok_def record_of_def)
  qed (use a Permission in \<open>auto simp: answer_of_def Let_def refuse_ok\<close>)
next
  case Elicitation
  assume a: "answer_of c h a token now = Inr s"
  show ?thesis
  proof (cases a)
    case AnsDeny
    with a Elicitation show ?thesis by (auto simp: answer_of_def Let_def refuse_ok)
  qed (use a Elicitation in \<open>auto simp: answer_of_def Let_def settlement_ok_def record_of_def
        split: sum.splits\<close>)
qed

lemma teardown_ok: "settlement_ok c (hd_request h) (settle_all_of c reason now h)"
  by (simp add: settle_all_of_def Let_def settlement_ok_def record_of_def split: interaction_kind.splits)

lemma expire_ok: "settlement_ok c (hd_request h) (expire_of c now h)"
  by (simp add: expire_of_def refuse_ok)

end
