(* ===== verification/InteractionClaims.thy ===== *)
theory InteractionClaims
  imports InteractionSettle PolicyClaims
begin

text \<open>
  The properties of the interaction lifecycle. The interface \<open>scoped_decider\<close> is what the strategy
  relies on in the policy engine: an \<open>allow\<close> verdict is in scope.
\<close>

section \<open>Explained answers\<close>

definition explains :: "interaction_config \<Rightarrow> effect list \<Rightarrow> string \<Rightarrow> wire_answer \<Rightarrow> bool" where
  "explains c before i w \<longleftrightarrow> (\<exists>req s. iq_id req = i \<and> st_wire s = w \<and> settlement_ok c req s \<and>
     Emit (settlement_events req (st_record s) (iq_turn_id req)) \<in> set before)"

definition explained :: "interaction_config \<Rightarrow> effect list \<Rightarrow> bool" where
  "explained c es \<longleftrightarrow> (\<forall>n i w. n < length es \<longrightarrow> es ! n = Wire i w \<longrightarrow> explains c (take n es) i w)"

lemma explains_mono: "explains c xs i w \<Longrightarrow> set xs \<subseteq> set ys \<Longrightarrow> explains c ys i w"
  unfolding explains_def by blast

lemma explained_append:
  assumes "explained c xs" "explained c ys"
  shows "explained c (xs @ ys)"
  unfolding explained_def
proof (intro allI impI)
  fix n i w
  assume n: "n < length (xs @ ys)" "(xs @ ys) ! n = Wire i w"
  show "explains c (take n (xs @ ys)) i w"
  proof (cases "n < length xs")
    case True
    with n assms(1) show ?thesis by (auto simp: explained_def nth_append)
  next
    case False
    with n assms(2) have "explains c (take (n - length xs) ys) i w"
      by (auto simp: explained_def nth_append)
    then show ?thesis by (rule explains_mono) (use False in auto)
  qed
qed

lemma explained_concat: "(\<And>es. es \<in> set ess \<Longrightarrow> explained c es) \<Longrightarrow> explained c (concat ess)"
  by (induction ess) (simp_all add: explained_append, simp add: explained_def)

lemma explained_mute: "wired es = [] \<Longrightarrow> explained c es"
  unfolding explained_def
proof (intro allI impI)
  fix n i w
  assume "wired es = []" "n < length es" "es ! n = Wire i w"
  then have "Wire i w \<in> set es" by (metis nth_mem)
  then have "i \<in> set (wired es)" by (force simp: wired_def List.map_filter_def)
  with \<open>wired es = []\<close> show "explains c (take n es) i w" by simp
qed

lemma explained_settle:
  assumes "settlement_ok c req s"
  shows "explained c (settle_effects req s)"
proof -
  have "explains c [Emit (settlement_events req (st_record s) (iq_turn_id req)), UnparkWorker (iq_id req)]
      (iq_id req) (st_wire s)"
    using assms unfolding explains_def by auto
  then show ?thesis
    by (auto simp: explained_def settle_effects_def nth_Cons less_Suc_eq split: nat.splits)
qed

lemma settle_now_effects:
  assumes "settlement_ok c req (fst x)"
  shows "\<exists>es. effects (settle_now req x st) = effects st @ es \<and> explained c es"
proof -
  let ?blk = "[Emit (settlement_events req (st_record (fst x)) (iq_turn_id req)), Wire (iq_id req) (st_wire (fst x))]"
  let ?fail = "case snd x of None \<Rightarrow> [] | Some why \<Rightarrow> [FailTurn why]"
  have "explains c [Emit (settlement_events req (st_record (fst x)) (iq_turn_id req))] (iq_id req) (st_wire (fst x))"
    using assms unfolding explains_def by auto
  then have "explained c ?blk" by (auto simp: explained_def nth_Cons less_Suc_eq split: nat.splits)
  moreover have "explained c ?fail" by (rule explained_mute) (simp split: option.split)
  ultimately have "explained c (?blk @ ?fail)" by (rule explained_append)
  moreover have "effects (settle_now req x st) = effects st @ (?blk @ ?fail)"
    by (simp add: settle_now_def)
  ultimately show ?thesis by blast
qed

text \<open>Every operation appends an explained block.\<close>

definition well_grown :: "interaction_config \<Rightarrow> strategy \<Rightarrow> strategy \<Rightarrow> bool" where
  "well_grown c st st' \<longleftrightarrow> (\<exists>es. effects st' = effects st @ es \<and> explained c es)"

lemma well_grown_refl: "effects st' = effects st \<Longrightarrow> well_grown c st st'"
  unfolding well_grown_def by (intro exI [of _ "[]"]) (simp add: explained_mute)

lemma well_grown_trans: "well_grown c r s \<Longrightarrow> well_grown c s t \<Longrightarrow> well_grown c r t"
  unfolding well_grown_def by (metis append.assoc explained_append)

lemma well_grown_act: "wired es = [] \<Longrightarrow> well_grown c st (act es st)"
  unfolding well_grown_def by (auto simp: explained_mute)

lemma well_grown_settle: "settlement_ok c (hd_request (en_held e)) s \<Longrightarrow> well_grown c st (settle e s by now st)"
  unfolding well_grown_def settle_effects by (auto simp: explained_settle)

lemma well_grown_settle_now: "settlement_ok c req (fst x) \<Longrightarrow> well_grown c st (settle_now req x st)"
  unfolding well_grown_def by (rule settle_now_effects)

lemma over_limit_ok: "settlement_ok c req (refuse req over_limit)"
  by (rule refuse_ok) (simp add: over_limit_def)

lemma well_grown_park: "well_grown c st (park_request c req v now st)"
proof -
  let ?timed = "ic_park_timeout_ms c > 0"
  let ?exp = "if ?timed then Some (now + ic_park_timeout_ms c) else None"
  let ?block = "\<lparr>park_parked_at = now, park_expires_at = ?exp, park_on_timeout = ic_park_timeout_action c\<rparr>"
  let ?st1 = "act [Emit [pending_interaction_event req ?block (iq_turn_id req)], ParkWorker (iq_id req)]
      (st\<lparr>next_timer := next_timer st + 1,
          armed := armed st @ (if ?timed then [(next_timer st, iq_id req)] else [])\<rparr>)"
  let ?st2 = "settle_now req (refuse req over_limit, None) (release (next_timer st) (iq_id req) ?st1)"
  have 1: "well_grown c st ?st1" by (rule well_grown_trans [OF well_grown_refl well_grown_act]) simp_all
  have "well_grown c ?st1 (release (next_timer st) (iq_id req) ?st1)"
    unfolding release_def by (rule well_grown_trans [OF well_grown_refl well_grown_act]) simp_all
  from well_grown_trans [OF 1 well_grown_trans [OF this well_grown_settle_now]] have 2: "well_grown c st ?st2"
    by (simp add: over_limit_ok)
  have h: "hold c h t ?st1 = Some st3 \<Longrightarrow> well_grown c st st3" for h t st3
    by (rule well_grown_trans [OF 1 well_grown_refl]) (auto simp: hold_def split: if_splits)
  show ?thesis
    unfolding park_request_def Let_def by (split option.split) (intro conjI impI allI 2 h)
qed

lemma well_grown_route: "well_grown c st (route c v req now st)"
  by (auto simp: route_def well_grown_park intro!: well_grown_settle_now auto_ok over_limit_ok)

lemma well_grown_answer: "well_grown c st (snd (answer c i a token now cursor st))"
  by (auto simp: answer_def Let_def well_grown_refl intro!: well_grown_settle answer_ok split: option.splits sum.splits)

lemma well_grown_fire: "well_grown c st (fire_timer c t now st)"
proof (cases "map_of (armed st) t")
  case (Some i)
  let ?st1 = "st\<lparr>armed := filter (\<lambda>(u, _). u \<noteq> t) (armed st)\<rparr>"
  let ?r = "settle_one i (expire_of c now) Timeout now ?st1"
  have "well_grown c ?st1 (snd ?r)"
    by (auto simp: settle_one_def well_grown_refl intro!: well_grown_settle expire_ok split: option.splits)
  then have g: "well_grown c st (snd ?r)" by (rule well_grown_trans [OF well_grown_refl, rotated]) simp
  have "fire_timer c t now st = (if fst ?r \<and> ic_park_timeout_action c = TimeoutFail
      then act [FailTurn (ParkExpired i (ic_park_timeout_ms c))] (snd ?r) else snd ?r)"
    using Some by (simp add: fire_timer_def Let_def split_beta)
  then show ?thesis using g by (auto intro: well_grown_trans [OF g well_grown_act])
qed (simp add: fire_timer_def well_grown_refl)

lemma well_grown_settle_all:
  assumes "strategy_inv c ids st"
  shows "well_grown c st (settle_all c reason now st)"
proof -
  let ?ess = "map (\<lambda>e. settle_effects (hd_request (en_held e)) (settle_all_of c reason now (en_held e)))
    (filter is_open (entries st))"
  have "explained c (concat ?ess)"
    by (rule explained_concat) (auto intro: explained_settle teardown_ok)
  then show ?thesis unfolding well_grown_def settle_all_parts(3) [OF assms] by blast
qed

lemma well_grown_step: "strategy_inv c ids st \<Longrightarrow> well_grown c st (op_step c d op st)"
  by (cases op) (auto simp: well_grown_route well_grown_answer well_grown_fire well_grown_settle_all close_strategy_def well_grown_refl)

lemma reached_explained: "reached c d ids st \<Longrightarrow> explained c (effects st)"
proof (induction rule: reached.induct)
  case reached_new
  show ?case by (rule explained_mute) (simp add: fresh_strategy_def)
next
  case (reached_step ids st op)
  from well_grown_step [OF reached_inv [OF reached_step(1)]] obtain es where
    "effects (op_step c d op st) = effects st @ es" "explained c es" unfolding well_grown_def by blast
  with reached_step(3) show ?case by (simp add: explained_append)
qed

section \<open>Scoped deciders\<close>

text \<open>The contract between a policy engine and the strategy: an \<open>allow\<close> verdict is in scope.\<close>

locale scoped_decider =
  fixes decide_one :: "policy_subject \<Rightarrow> 'e + policy_verdict"
    and in_scope :: "policy_subject \<Rightarrow> bool"
  assumes allow_in_scope: "decide_one s = Inr v \<Longrightarrow> v_action v = Allow \<Longrightarrow> in_scope s"
begin

text \<open>Whatever the fallback, an \<open>allow\<close> can only be the decider's own, on a subject in scope.\<close>

lemma fallback_never_allows:
  assumes "v = (case decide_one s of Inl _ \<Rightarrow> unresolved_verdict u | Inr v \<Rightarrow> v)" "v_action v = Allow"
  shows "in_scope s"
  using assms allow_in_scope
  by (auto simp: unresolved_verdict_def split: sum.splits unresolved.splits)

end

text \<open>The engine as the daemon builds it for one worker, and asks it.\<close>

definition ceiled_decide ::
  "re_ops \<Rightarrow> resolved_policy \<Rightarrow> policy_ceiling \<Rightarrow> string \<Rightarrow> string option \<Rightarrow> on_unresolved option
   \<Rightarrow> policy_subject \<Rightarrow> offence policy_error + policy_verdict" where
  "ceiled_decide re doc ceil pid name unres s =
     (case create_policy_engine re doc (Some ceil) pid name unres of
        Inl e \<Rightarrow> Inl e | Inr en \<Rightarrow> decide re en s)"

interpretation ceiled: scoped_decider
  "ceiled_decide re doc ceil pid name unres" "allow_in_scope ceil"
  for re doc ceil pid name unres
proof
  fix s v
  assume d: "ceiled_decide re doc ceil pid name unres s = Inr v" and a: "v_action v = Allow"
  then obtain en where en: "create_policy_engine re doc (Some ceil) pid name unres = Inr en"
    "decide re en s = Inr v" by (auto simp: ceiled_decide_def split: sum.splits)
  have "v = clamp_verdict (base_verdict re en s) ceil s name"
    using decide_Inr [OF en(2)] create_engine_Inr [OF en(1)] by simp
  then have "refusal (v_action v) ceil s = None" using clamp_action_permitted by simp
  with a show "allow_in_scope ceil s" using allow_permitted_iff by simp
qed

section \<open>Properties\<close>

lemma pending_ids: "map is_request_id (pending st) = open_ids st"
  by (simp add: pending_def open_ids_def snapshot_of_def Let_def)

text \<open>
  C3: The lifecycle of a request, over any sequence of requests, answers, park deadlines,
  teardowns and closes in which no id is minted twice. Every minted request has been answered on
  the wire exactly once, or is pending and has not been answered. At most \<open>maxParked\<close> are pending.
  The worker is parked once for each pending request and un-parked exactly once for each parked
  request that is no longer pending. At most 64 settled rows are kept.
\<close>

theorem answered_exactly_once:
  assumes "reached c d ids st"
  shows "distinct (wired (effects st)) \<and> distinct (map is_request_id (pending st)) \<and>
    set (wired (effects st)) = set ids - is_request_id ` set (pending st) \<and>
    is_request_id ` set (pending st) \<subseteq> set ids \<and>
    int (length (pending st)) \<le> max 0 (ic_max_parked c) \<and>
    distinct (parked (effects st)) \<and> distinct (unparked (effects st)) \<and>
    set (unparked (effects st)) = set (parked (effects st)) - is_request_id ` set (pending st) \<and>
    is_request_id ` set (pending st) \<subseteq> set (parked (effects st)) \<and>
    int (length (entries st)) - int (length (pending st)) \<le> 64"
proof -
  have inv: "strategy_inv c ids st" by (rule reached_inv [OF assms])
  have p: "is_request_id ` set (pending st) = set (open_ids st)"
    using pending_ids [of st] by (metis set_map)
  have l: "length (pending st) = length (open_ids st)" by (metis length_map pending_ids)
  have o1: "set (open_ids st) \<subseteq> set ids" using inv open_sub by (auto simp: strategy_inv_def)
  show ?thesis
    unfolding p l pending_ids using inv o1 distinct_open [OF inv_distinct [OF inv]]
    by (auto simp: strategy_inv_def registry_ok_def history_ok_def trace_ok_def terminal_history_def)
qed

text \<open>
  C40: An agent is never told something the log does not say, or that it did not offer. Every answer
  on the wire comes after the envelopes of a settlement of that request, and the settlement is
  sound: an option id is one the agent offered; a denial is an offered \<open>reject_once\<close>; a grant is of
  an option that is not session-wide, except under \<open>allowAlways: human\<close>, by a human and flagged;
  without an acceptable option a permission gets the error; a timer or a teardown never grants.
\<close>

theorem answers_are_explained_and_offered:
  assumes "reached c d ids st" and "n < length (effects st)" and "effects st ! n = Wire i w"
  shows "\<exists>req s. iq_id req = i \<and> st_wire s = w \<and> settlement_ok c req s \<and>
    Emit (settlement_events req (st_record s) (iq_turn_id req)) \<in> set (take n (effects st))"
  using reached_explained [OF assms(1)] assms(2,3) by (auto simp: explained_def explains_def)

text \<open>
  Teardown leaves nothing pending and grants nothing. Settling everything answers each pending
  request once, in order, each with its envelopes, its un-park and then its answer, and nothing
  stays pending; the answer of a permission is the error and that of a form is a decline.
\<close>

theorem settle_all_answers_everyone:
  assumes "reached c d ids st"
  shows "pending (settle_all c reason now st) = [] \<and>
    (\<exists>hs. map (iq_id \<circ> hd_request) hs = map is_request_id (pending st) \<and>
       effects (settle_all c reason now st) = effects st @
         concat (map (\<lambda>h. let s = settle_all_of c reason now h; req = hd_request h in
           [Emit (settlement_events req (st_record s) (iq_turn_id req)), UnparkWorker (iq_id req),
            Wire (iq_id req)
              (case iq_kind req of
                 Elicitation \<Rightarrow> Resolve (action_json ''decline'')
               | Permission \<Rightarrow> Reject (''the permission request was abandoned ('' @ reason_text reason @ '')'')
                   (iq_options req))]) hs))"
proof -
  note inv = reached_inv [OF assms]
  let ?hs = "map en_held (filter is_open (entries st))"
  have "map (iq_id \<circ> hd_request) ?hs = map is_request_id (pending st)"
    unfolding pending_ids by (simp add: open_ids_def entry_id_def comp_def)
  moreover have "st_wire (settle_all_of c reason now h) = (case iq_kind (hd_request h) of
      Elicitation \<Rightarrow> Resolve (action_json ''decline'')
    | Permission \<Rightarrow> Reject (''the permission request was abandoned ('' @ reason_text reason @ '')'')
        (iq_options (hd_request h)))" for h
    by (simp add: settle_all_of_def Let_def split: interaction_kind.split)
  moreover have "pending (settle_all c reason now st) = []"
    using settle_all_parts(2) [OF inv] pending_ids by (metis Nil_is_map_conv)
  ultimately show ?thesis
    using settle_all_parts(3) [OF inv, of reason now]
    by (intro conjI exI [of _ ?hs]) (simp_all add: settle_effects_def Let_def comp_def)
qed

text \<open>
  A park deadline settles its own request, once, and never grants. An armed timer belongs to a
  pending request; when it fires, that request is settled as expired by a denial or an error, and
  is pending no more; the turn is failed, after the answer, exactly under the action \<open>fail\<close>.
\<close>

theorem deadline_denies:
  assumes "reached c d ids st" and "map_of (armed st) t = Some i"
  shows "i \<in> is_request_id ` set (pending st) \<and>
    i \<notin> is_request_id ` set (pending (fire_timer c t now st)) \<and>
    (\<exists>req (s :: settlement). iq_id req = i \<and> sr_status (st_record s) = SExpired \<and>
       sr_decision (st_record s) \<in> {DDeny, DError} \<and>
       effects (fire_timer c t now st) = effects st @
         [Emit (settlement_events req (st_record s) (iq_turn_id req)), UnparkWorker i,
          Wire i (st_wire s)] @
         (if ic_park_timeout_action c = TimeoutFail
          then [FailTurn (ParkExpired i (ic_park_timeout_ms c))] else []))"
proof -
  note inv = reached_inv [OF assms(1)]
  note d = inv_distinct [OF inv]
  let ?st1 = "st\<lparr>armed := filter (\<lambda>(u, _). u \<noteq> t) (armed st)\<rparr>"
  from inv map_of_SomeD [OF assms(2)] obtain e where e: "e \<in> set (entries st)" "is_open e" "entry_id e = i"
    by (auto simp: strategy_inv_def timers_ok_def)
  have "find_entry ?st1 i \<noteq> None" using e by (auto simp: find_entry_None)
  then obtain f where "find_entry ?st1 i = Some f" by blast
  moreover from this have "f = e"
    using find_entry_Some [of ?st1 i f] same_entry [OF d, of f e] e by simp
  ultimately have f: "find_entry ?st1 i = Some e" by simp
  let ?s = "expire_of c now (en_held e)"
  have one: "settle_one i (expire_of c now) Timeout now ?st1 = (True, settle e ?s Timeout now ?st1)"
    using f e(2) by (simp add: settle_one_def)
  have eff: "effects (fire_timer c t now st) = effects st @ settle_effects (hd_request (en_held e)) ?s @
      (if ic_park_timeout_action c = TimeoutFail
       then [FailTurn (ParkExpired i (ic_park_timeout_ms c))] else [])"
    using assms(2) one by (simp add: fire_timer_def Let_def settle_effects)
  have "open_ids (fire_timer c t now st) = filter (\<lambda>j. j \<noteq> i) (open_ids st)"
    using assms(2) one settle_open [of ?st1 e ?s Timeout now] d e(3)
    by (simp add: fire_timer_def Let_def open_ids_def)
  moreover have "i \<in> set (open_ids st)" using e by (auto simp: open_ids_def)
  moreover have p: "is_request_id ` set (pending x) = set (open_ids x)" for x
    using pending_ids [of x] by (metis set_map)
  moreover have "sr_status (st_record ?s) = SExpired" "sr_decision (st_record ?s) \<in> {DDeny, DError}"
    by (simp_all add: expire_of_def refuse_def record_of_def split: interaction_kind.split option.split)
  moreover have "iq_id (hd_request (en_held e)) = i" using e(3) by (simp add: entry_id_def)
  ultimately show ?thesis
    unfolding p by (intro conjI exI [of _ "hd_request (en_held e)"] exI [of _ ?s])
      (simp_all add: settle_effects_def eff)
qed

text \<open>A configuration with room for one park, an agent's request, and the run that parks it.\<close>

definition one_park :: interaction_config where
  "one_park = \<lparr>ic_max_parked = 1, ic_allow_always_human = False, ic_park_timeout_ms = 100,
     ic_park_timeout_action = TimeoutFail, ic_on_unresolved = OnPark, ic_worker_state = None\<rparr>"

definition parked_run :: strategy where
  "parked_run = op_step one_park None
     (OpPermission ''x1'' (sample_request [offer ''o'' ''allow_once'', offer ''r'' ''reject_once''])
        (Some ''t1'') None 5) fresh_strategy"

lemma parked_run_reached: "reached one_park None [''x1''] parked_run"
proof -
  have "reached one_park None ([] @ minted (OpPermission ''x1''
      (sample_request [offer ''o'' ''allow_once'', offer ''r'' ''reject_once'']) (Some ''t1'') None 5)) parked_run"
    unfolding parked_run_def by (rule reached_step [OF reached_new]) simp
  then show ?thesis by simp
qed

theorem answered_exactly_once_witness:
  "map is_request_id (pending parked_run) = [''x1''] \<and> set (wired (effects parked_run)) = {} \<and>
   distinct (parked (effects parked_run))"
proof -
  have p: "map is_request_id (pending parked_run) = [''x1'']" by code_simp
  then have "is_request_id ` set (pending parked_run) = {''x1''}" by (metis list.simps(15) set_empty set_map empty_set)
  with answered_exactly_once [OF parked_run_reached] p show ?thesis by simp
qed

theorem settle_all_answers_everyone_witness:
  "pending (settle_all one_park RShutdown 9 parked_run) = []"
  using settle_all_answers_everyone [OF parked_run_reached] by blast

theorem deadline_denies_witness:
  "map_of (armed parked_run) 0 = Some ''x1'' \<and>
   ''x1'' \<notin> is_request_id ` set (pending (fire_timer one_park 0 105 parked_run))"
proof -
  have a: "map_of (armed parked_run) 0 = Some ''x1''" by code_simp
  with deadline_denies [OF parked_run_reached a] show ?thesis by blast
qed

theorem answers_are_explained_and_offered_witness:
  "\<exists>req s. iq_id req = ''x1'' \<and> settlement_ok one_park req s \<and> st_wire s = Resolve (selected ''r'')"
proof -
  let ?op = "OpFire 0 105"
  let ?st = "op_step one_park None ?op parked_run"
  have "reached one_park None ([''x1''] @ minted ?op) ?st"
    by (rule reached_step [OF parked_run_reached]) simp
  moreover have "4 < length (effects ?st)" by code_simp
  moreover have "effects ?st ! 4 = Wire ''x1'' (Resolve (selected ''r''))" by code_simp
  ultimately show ?thesis using answers_are_explained_and_offered by blast
qed

text \<open>What handling a request can emit.\<close>

lemma settle_now_emits:
  "effects (settle_now req x st) = effects st @ es \<Longrightarrow> Emit evs \<in> set es \<Longrightarrow>
   evs = settlement_events req (st_record (fst x)) (iq_turn_id req)"
  by (auto simp: settle_now_def split: option.splits)

lemma park_emits:
  assumes "effects (park_request c req v now st) = effects st @ es" "Emit evs \<in> set es"
  shows "evs = settlement_events req (st_record (refuse req over_limit)) (iq_turn_id req)
    \<or> (\<exists>b. evs = [pending_interaction_event req b (iq_turn_id req)])"
  using assms
  by (auto simp: park_request_def settle_now_def release_def hold_def Let_def split: option.splits if_splits)

lemma route_emits:
  assumes "effects (route c v req now st) = effects st @ es" "Emit evs \<in> set es"
  shows "evs = settlement_events req (st_record (fst (auto_of req v))) (iq_turn_id req) \<or>
    evs = settlement_events req (st_record (refuse req over_limit)) (iq_turn_id req) \<or>
    (\<exists>b. evs = [pending_interaction_event req b (iq_turn_id req)])"
proof (cases "v_action v \<noteq> Park")
  case True
  then have "route c v req now st = settle_now req (auto_of req v) st" by (simp add: route_def)
  with assms settle_now_emits show ?thesis by metis
next
  case False
  show ?thesis
  proof (cases "at_capacity c st")
    case True
    with False have "route c v req now st = settle_now req (refuse req over_limit, None) st"
      by (simp add: route_def)
    with assms settle_now_emits show ?thesis by (metis fst_conv)
  next
    case cap: False
    with False have "route c v req now st = park_request c req v now st" by (simp add: route_def)
    with assms park_emits show ?thesis by metis
  qed
qed

text \<open>
  C4: The ceiling reaches the wire. In a worker whose strategy consults an engine built under a
  ceiling, whatever the policy document says and whatever happened before, handling a permission
  request emits a decision by the policy that allows only if the subject is in the ceiling's scope:
  its kind is permitted and not denied, it lists paths and all of them are inside the roots, and
  it is not a command where commands are refused.
\<close>

theorem ceiling_reaches_the_wire:
  assumes "effects (op_step c (Some (ceiled_decide re doc ceil pid name unres))
        (OpPermission i req turn (Some s) now) st) = effects st @ es"
    and "Emit evs \<in> set es" and "ev \<in> set evs" and "in_body ev = PolicyDecision pd"
    and "pd_decision pd = DAllow"
  shows "allow_in_scope ceil s"
proof -
  let ?v = "verdict_for c (Some (ceiled_decide re doc ceil pid name unres)) (Some s)"
  let ?req = "permission_request_of i req turn"
  have refused: "sr_decision (st_record (refuse ?req ov)) \<noteq> DAllow" for ov
    by (simp add: refuse_def record_of_def split: interaction_kind.split option.split)
  have pd: "sr_decision (st_record x) = DAllow" if "ev \<in> set (settlement_events q (st_record x) t)" for x q t
    using that assms(4,5)
    by (auto simp: settlement_events_def settled_interaction_event_def policy_decision_event_def daemon_event_def)
  have quiet: "ev \<notin> {pending_interaction_event q b t}" for q b t
    using assms(4) by (auto simp: pending_interaction_event_def daemon_event_def)
  have "v_action ?v = Allow"
  proof (rule ccontr)
    assume no: "v_action ?v \<noteq> Allow"
    have "sr_decision (st_record (fst (auto_of ?req ?v))) \<noteq> DAllow"
      using no refused by (simp add: auto_of_def Let_def)
    moreover have "effects (route c ?v ?req now st) = effects st @ es" using assms(1) by simp
    ultimately show False
      using route_emits [OF _ assms(2)] assms(3) pd refused quiet
      by (metis empty_set list.simps(15))
  qed
  moreover have "?v = (case ceiled_decide re doc ceil pid name unres s of
      Inl _ \<Rightarrow> unresolved_verdict (ic_on_unresolved c) | Inr v \<Rightarrow> v)"
    by (simp add: verdict_for_def)
  ultimately show ?thesis using ceiled.fallback_never_allows by blast
qed

definition allow_event :: "event_input \<Rightarrow> bool" where
  "allow_event ev = (case in_body ev of PolicyDecision pd \<Rightarrow> pd_decision pd = DAllow | _ \<Rightarrow> False)"

definition emits_allow :: "effect \<Rightarrow> bool" where
  "emits_allow e = (case e of Emit evs \<Rightarrow> list_ex allow_event evs | _ \<Rightarrow> False)"

lemma emits_allowD:
  assumes "list_ex emits_allow es"
  obtains evs ev pd where "Emit evs \<in> set es" "ev \<in> set evs" "in_body ev = PolicyDecision pd"
    "pd_decision pd = DAllow"
proof -
  from assms obtain e where e: "e \<in> set es" "emits_allow e" by (auto simp: list_ex_iff)
  from e(2) obtain evs ev where ev: "e = Emit evs" "ev \<in> set evs" "allow_event ev"
    by (cases e) (auto simp: emits_allow_def list_ex_iff)
  from ev(3) obtain pd where "in_body ev = PolicyDecision pd" "pd_decision pd = DAllow"
    by (cases "in_body ev") (auto simp: allow_event_def)
  with e(1) ev that show thesis by blast
qed

theorem ceiling_reaches_the_wire_witness:
  "allow_in_scope src_ceiling (tool_subject ''edit'' [''/repo/src/a.ts''] ''/repo'')"
proof -
  let ?s = "tool_subject ''edit'' [''/repo/src/a.ts''] ''/repo''"
  let ?op = "OpPermission ''x1'' (sample_request [offer ''o'' ''allow_once'']) None (Some ?s) 5"
  let ?es = "effects (op_step one_park (Some (ceiled_decide literal_re src_policy src_ceiling ''p'' None None))
      ?op fresh_strategy)"
  have e: "?es = effects fresh_strategy @ ?es" by (simp add: fresh_strategy_def)
  have "list_ex emits_allow ?es" by code_simp
  then obtain evs ev pd where "Emit evs \<in> set ?es" "ev \<in> set evs" "in_body ev = PolicyDecision pd"
    "pd_decision pd = DAllow" by (rule emits_allowD)
  from ceiling_reaches_the_wire [OF e this] show ?thesis .
qed

text \<open>
  The M1 strategy's guard. As long as a responder answers the id it records, no id reaches the
  agent that the agent did not offer, whatever the responder decides; and what the log records is
  what was answered.
\<close>

theorem baseline_never_forges:
  assumes "fst decided = br_option_id (snd decided)"
    and "baseline_permission decided req turn = (evs, Resolve w)"
  shows "\<exists>x \<in> set (mapped_options req). \<exists>i. fld x ''optionId'' = Some (JStr i) \<and> w = selected i \<and>
    (\<forall>pd. PolicyDecision pd \<in> in_body ` set evs \<longrightarrow> pd_option_id pd = Some i)"
proof -
  obtain i where i: "fst decided = Some i" "br_option_id (snd decided) = Some i"
    "i \<in> set (List.map_filter (\<lambda>x. js_str (fld x ''optionId'')) (mapped_options req))" "w = selected i"
    using assms by (auto simp: baseline_permission_def Let_def split: option.splits if_splits)
  from i(3) obtain x where "x \<in> set (mapped_options req)" "fld x ''optionId'' = Some (JStr i)"
    by (auto simp: List.map_filter_def js_str_Some_iff)
  moreover have "\<forall>pd. PolicyDecision pd \<in> in_body ` set evs \<longrightarrow> pd_option_id pd = Some i"
    using assms(2) i(1-3)
    by (auto simp: baseline_permission_def Let_def settlement_events_def settled_interaction_event_def
        policy_decision_event_def daemon_event_def split: option.splits if_splits)
  ultimately show ?thesis using i(4) by blast
qed

definition echo_record :: "string option \<Rightarrow> baseline_record" where
  "echo_record oid = \<lparr>br_request_id = ''perm'', br_title = '''', br_decision = DAllow,
     br_rule = ''m0'', br_option_id = oid, br_offered = [], br_tool_call_id = None\<rparr>"

theorem baseline_never_forges_witness:
  "\<exists>x \<in> set (mapped_options (sample_request [offer ''o'' ''allow_once''])).
     fld x ''optionId'' = Some (JStr ''o'')"
proof -
  let ?r = "sample_request [offer ''o'' ''allow_once'']" and ?d = "(Some ''o'', echo_record (Some ''o''))"
  have "snd (baseline_permission ?d ?r None) = Resolve (selected ''o'')" by code_simp
  then have b: "baseline_permission ?d ?r None =
      (fst (baseline_permission ?d ?r None), Resolve (selected ''o''))"
    by (metis prod.collapse)
  have "fst ?d = br_option_id (snd ?d)" by (simp add: echo_record_def)
  from baseline_never_forges [OF this b] show ?thesis
    by (auto simp: selected_def)
qed

text \<open>
  The guard reads the record, not the answer. A responder whose record names an offered id and
  whose answer names another passes it, and the id that was never offered reaches the agent while
  the log records the offered one.
\<close>

theorem guard_trusts_the_record:
  "let (evs, w) = baseline_permission (Some ''forged'', echo_record (Some ''o''))
         (sample_request [offer ''o'' ''allow_once'']) None
   in w = Resolve (selected ''forged'') \<and>
      list_ex (\<lambda>ev. case in_body ev of PolicyDecision pd \<Rightarrow> pd_option_id pd = Some ''o'' | _ \<Rightarrow> False) evs"
  by code_simp

end
