(* ===== verification/WireProps.thy ===== *)
theory WireProps
  imports WireJson
begin

text \<open>
  Properties of \<open>WireJson\<close>: pointers reach what they name, and the permission map is idempotent.
\<close>

section \<open>Pointers\<close>

lemma split_on_clean: "c \<notin> set w \<Longrightarrow> split_on c w = [w]"
  by (induction w) auto

lemma split_on_cons: "c \<notin> set w \<Longrightarrow> split_on c (w @ c # rest) = w # split_on c rest"
  by (induction w) auto

lemma replace_pair_other:
  "x \<noteq> a \<Longrightarrow> replace_pair a b r (x # w) = x # replace_pair a b r w"
  by (cases w) auto

lemma replace_pair_kept:
  "y \<noteq> b \<Longrightarrow> y \<noteq> a \<Longrightarrow> replace_pair a b r (a # y # w) = a # y # replace_pair a b r w"
  by (simp add: replace_pair_other)

lemma unescape_escape [simp]: "unescape_key (escape_key k) = k"
proof -
  let ?half = "\<lambda>k. concat (map (\<lambda>c. if c = CHR 0x7E then [CHR 0x7E, CHR ''0''] else [c]) k)"
  have "replace_pair CHR 0x7E CHR ''1'' CHR 0x2F (escape_key k) = ?half k"
    by (induction k) (auto simp: escape_key_def replace_pair_other replace_pair_kept)
  moreover have "replace_pair CHR 0x7E CHR ''0'' CHR 0x7E (?half k) = k"
    by (induction k) (auto simp: replace_pair_other)
  ultimately show ?thesis by (simp add: unescape_key_def)
qed

lemma escape_no_slash: "CHR ''/'' \<notin> set (escape_key k)"
  by (induction k) (auto simp: escape_key_def)

text \<open>The abstract lookup: one property per key.\<close>

fun get_path :: "json \<Rightarrow> string list \<Rightarrow> json option" where
  "get_path v [] = Some v"
| "get_path v (k # ks) =
     (case obj_of (Some v) of
        None \<Rightarrow> None
      | Some ps \<Rightarrow> (case map_of ps k of None \<Rightarrow> None | Some w \<Rightarrow> get_path w ks))"

fun pointer_to :: "string list \<Rightarrow> string" where
  "pointer_to [] = ''''"
| "pointer_to (k # ks) = CHR ''/'' # escape_key k @ pointer_to ks"

lemma split_pointer:
  "split_on CHR ''/'' (escape_key k @ pointer_to ks) = map escape_key (k # ks)"
proof (induction ks arbitrary: k)
  case Nil
  show ?case using escape_no_slash [of k] by (simp add: split_on_clean)
next
  case (Cons m ks)
  then show ?case using escape_no_slash [of k] by (simp add: split_on_cons)
qed

lemma walk_escaped: "walk_pointer v (map escape_key ks) = get_path v ks"
  by (induction ks arbitrary: v) (auto split: option.splits)

text \<open>
  A JSON pointer reaches exactly what it names. Whatever the keys are, slashes and tildes
  included, resolving the pointer that spells them is looking them up one after the other, and it
  is undefined exactly where that lookup is.
\<close>

theorem pointer_roundtrip: "resolve_pointer v (pointer_to ks) = get_path v ks"
proof (cases ks)
  case Nil
  then show ?thesis by (simp add: resolve_pointer_def)
next
  case (Cons k ms)
  then show ?thesis
    using walk_escaped [of v ks] by (simp add: resolve_pointer_def split_pointer)
qed

section \<open>Permission requests\<close>

lemma wire_options_again:
  "wire_options (Some (JArr (wire_options v))) = wire_options v"
  by (simp add: wire_options_def split: option.splits)

lemma nonempty_str_pos: "nonempty_str v = Some t \<Longrightarrow> t \<noteq> ''''"
  by (auto simp: nonempty_str_def split: option.splits list.splits)

lemma nonempty_str_JStr: "nonempty_str (Some (JStr t)) = (if t = '''' then None else Some t)"
  by (cases t) (auto simp: nonempty_str_def)

text \<open>The title is a fixed point once it is the request's own \<open>title\<close>.\<close>

lemma wire_title_again:
  assumes "map_of r' ''title'' = Some (JStr (wire_title r tc))"
    and "as_record (map_of r' ''_meta'') = as_record (map_of r ''_meta'')"
    and "tc' = tc"
  shows "wire_title r' tc' = wire_title r tc"
  using assms by (simp add: wire_title_def nonempty_str_JStr split: option.splits)
                 (auto dest: nonempty_str_pos)

text \<open>The second application sees these properties.\<close>

definition call_of :: "(string \<times> json) list \<Rightarrow> (string \<times> json) list option" where
  "call_of r = (case obj_of (map_of r ''subject'') of
     None \<Rightarrow> obj_of (map_of r ''toolCall'') | Some e \<Rightarrow> obj_of (map_of e ''toolCall''))"

definition subject_of_call :: "(string \<times> json) list \<Rightarrow> json" where
  "subject_of_call r = (case obj_of (map_of r ''subject'') of
       Some e \<Rightarrow> JObj e
     | None \<Rightarrow> (case obj_of (map_of r ''toolCall'') of
         None \<Rightarrow> JNull
       | Some tc \<Rightarrow> JObj [(''type'', JStr ''tool_call''), (''toolCall'', JObj tc)]))"

lemma mapped_fields:
  fixes req
  defines "r \<equiv> as_record (Some req)"
  shows "map_permission_request req =
     \<lparr>pr_session_id = (case js_str (map_of r ''sessionId'') of None \<Rightarrow> '''' | Some i \<Rightarrow> i),
      pr_title = Some (JStr (wire_title r (call_of r))),
      pr_options = Some (JArr (wire_options (map_of r ''options''))),
      pr_subject = subject_of_call r,
      pr_tool_call_id = (case call_of r of None \<Rightarrow> None | Some tc \<Rightarrow> js_str (map_of tc ''toolCallId'')),
      pr_raw = JObj (case obj_of (map_of r ''raw'') of None \<Rightarrow> r | Some w \<Rightarrow> w),
      pr_meta = map_option JObj (obj_of (map_of r ''_meta''))\<rparr>"
  unfolding map_permission_request_def call_of_def subject_of_call_def Let_def r_def ..

lemma mapped_parts:
  "pr_title (map_permission_request req) =
     Some (JStr (wire_title (as_record (Some req)) (call_of (as_record (Some req)))))"
  "pr_options (map_permission_request req) =
     Some (JArr (wire_options (map_of (as_record (Some req)) ''options'')))"
  "pr_subject (map_permission_request req) = subject_of_call (as_record (Some req))"
  "obj_of (Some (pr_raw (map_permission_request req))) \<noteq> None"
  by (simp_all add: mapped_fields)

lemma json_fields:
  fixes p
  defines "r \<equiv> as_record (Some (permission_json p))"
  assumes "pr_title p = Some t" "pr_options p = Some ops"
  shows "map_of r ''title'' = Some t" "map_of r ''subject'' = Some (pr_subject p)"
    "map_of r ''options'' = Some ops" "map_of r ''raw'' = Some (pr_raw p)"
    "map_of r ''sessionId'' = Some (JStr (pr_session_id p))"
    "map_of r ''_meta'' = pr_meta p" "map_of r ''toolCall'' = None"
  using assms(2,3) by (auto simp: r_def permission_json_def split: option.splits)

lemma subject_again:
  assumes "map_of r' ''subject'' = Some (subject_of_call r)" and "map_of r' ''toolCall'' = None"
  shows "call_of r' = call_of r" "subject_of_call r' = subject_of_call r"
  using assms by (auto simp: call_of_def subject_of_call_def split: option.splits)

text \<open>
  The permission map is idempotent: mapping an already mapped request gives it back, whatever
  the agent sent. So a request mapped once by the worker and once more by the strategy reaches the
  policy engine and the audit unchanged.
\<close>

theorem permission_map_idempotent:
  "map_permission_request (permission_json (map_permission_request req)) = map_permission_request req"
proof -
  let ?r = "as_record (Some req)" and ?p = "map_permission_request req"
  let ?r' = "as_record (Some (permission_json ?p))"
  have f: "map_of ?r' ''title'' = Some (JStr (wire_title ?r (call_of ?r)))"
    "map_of ?r' ''subject'' = Some (subject_of_call ?r)"
    "map_of ?r' ''options'' = Some (JArr (wire_options (map_of ?r ''options'')))"
    "map_of ?r' ''raw'' = Some (pr_raw ?p)"
    "map_of ?r' ''sessionId'' = Some (JStr (pr_session_id ?p))"
    "map_of ?r' ''_meta'' = pr_meta ?p" "map_of ?r' ''toolCall'' = None"
    using json_fields [OF mapped_parts(1,2), of req] by (simp_all only: mapped_parts)
  note again = subject_again [OF f(2,7)]
  have meta: "as_record (map_of ?r' ''_meta'') = as_record (map_of ?r ''_meta'')"
    unfolding f(6) by (auto simp: mapped_fields as_record_def obj_of_Some_iff split: option.splits)
  have "wire_title ?r' (call_of ?r') = wire_title ?r (call_of ?r)"
    by (rule wire_title_again [OF f(1) meta again(1)])
  moreover have "map_option JObj (obj_of (pr_meta ?p)) = pr_meta ?p"
    by (cases "obj_of (map_of ?r ''_meta'')") (simp_all add: mapped_fields)
  moreover have "obj_of (Some (pr_raw ?p)) \<noteq> None" by (simp add: mapped_fields)
  ultimately show ?thesis
    apply (subst (1) mapped_fields)
    apply (simp only: f again)
    apply (simp add: mapped_fields wire_options_again)
    done
qed

text \<open>
  The audit copy is the agent's to choose. \<open>raw\<close> is documented as the agent's parameters,
  verbatim; when the parameters have an object under \<open>raw\<close>, that object is recorded instead, so
  an agent can have its request audited as anything it likes. And the title, documented as never
  empty, is empty for a tool call whose kind is the empty string and which names nothing.
\<close>

theorem forged_raw_and_empty_title:
  "let call = JObj [(''kind'', JStr ''execute''), (''toolCallId'', JStr ''t1'')];
       fake = JObj [(''toolCall'', JObj [(''kind'', JStr ''read'')])]
   in pr_raw (map_permission_request (JObj [(''toolCall'', call), (''raw'', fake)])) = fake
    \<and> pr_subject (map_permission_request (JObj [(''toolCall'', call), (''raw'', fake)]))
        = JObj [(''type'', JStr ''tool_call''), (''toolCall'', call)]
    \<and> pr_title (map_permission_request (JObj [(''toolCall'', JObj [(''kind'', JStr '''')])]))
        = Some (JStr '''')"
  by code_simp

end
