(* ===== verification/ElicitationProps.thy ===== *)
theory ElicitationProps
  imports Elicitation
begin

text \<open>
  What \<open>Elicitation\<close> promises: the schema reader yields forms in which no property serves two
  questions, and on such a form an accepted answer reaches the agent under exactly one property.
\<close>

section \<open>Well-formed forms\<close>

definition own_slots :: "elicitation_field \<Rightarrow> string set" where
  "own_slots f = insert (ef_id f) (set_option (ef_custom f))"

text \<open>Ids are distinct, and no property belongs to two questions.\<close>

definition wf_form :: "elicitation_field list \<Rightarrow> bool" where
  "wf_form qs \<longleftrightarrow> distinct (map ef_id qs)
     \<and> (\<forall>f \<in> set qs. \<forall>g \<in> set qs. ef_custom f \<noteq> Some (ef_id g))
     \<and> (\<forall>f \<in> set qs. \<forall>g \<in> set qs. \<forall>c. ef_custom f = Some c \<and> ef_custom g = Some c
          \<longrightarrow> ef_id f = ef_id g)"

lemma field_of_Some:
  "field_of name v c r = Some f \<Longrightarrow> ef_id f = name \<and> ef_custom f = c \<and> ef_required f = r"
  by (auto simp: field_of_def Let_def split: option.splits)

lemma read_fields_sound:
  "f \<in> set (fst (read_fields slots required ps)) \<Longrightarrow>
     ef_id f \<in> set (map fst ps) \<and> ef_id f \<notin> set (map fst slots)
     \<and> ef_custom f = slot_of slots (ef_id f) \<and> ef_required f = (ef_id f \<in> set required)"
  by (induction slots required ps rule: read_fields.induct)
     (auto simp: Let_def split: prod.splits if_splits option.splits dest!: field_of_Some)

lemma read_fields_ids:
  "map ef_id (fst (read_fields slots required ps)) = map fst (filter (\<lambda>p.
     fst p \<notin> set (map fst slots)
     \<and> field_of (fst p) (snd p) (slot_of slots (fst p)) (fst p \<in> set required) \<noteq> None) ps)"
  by (induction slots required ps rule: read_fields.induct)
     (auto simp: Let_def split: prod.splits option.splits dest: field_of_Some)

lemma read_fields_distinct:
  "distinct (map fst ps) \<Longrightarrow> distinct (map ef_id (fst (read_fields slots required ps)))"
  by (simp add: read_fields_ids distinct_map_filter)

lemma custom_slots_names:
  "map fst (custom_slots ps) = map fst (filter (\<lambda>p. custom_answer_owner (snd p) \<noteq> None) ps)"
  by (induction ps) (auto simp: custom_slots_def List.map_filter_simps split: option.splits)

lemma custom_slots_distinct: "distinct (map fst ps) \<Longrightarrow> distinct (map fst (custom_slots ps))"
  by (simp add: custom_slots_names distinct_map_filter)

lemma slot_of_Some: "slot_of slots q = Some c \<Longrightarrow> (c, q) \<in> set slots"
  by (auto simp: slot_of_def dest!: map_of_SomeD)

lemma map_elicitation_fields:
  assumes "map_elicitation p = Inr m"
  shows "me_fields m = fst (read_fields (custom_slots (form_properties p)) (form_required p)
    (form_properties p))"
  using assms by (auto simp: map_elicitation_def Let_def split: prod.splits if_splits)

lemma mapped_form_wf:
  assumes "map_elicitation p = Inr m" and "distinct (map fst (form_properties p))"
  shows "wf_form (me_fields m)"
proof -
  let ?slots = "custom_slots (form_properties p)"
  have d: "distinct (map fst ?slots)" by (rule custom_slots_distinct [OF assms(2)])
  have s: "ef_id f \<notin> set (map fst ?slots) \<and> ef_custom f = slot_of ?slots (ef_id f)"
    if "f \<in> set (me_fields m)" for f
    using read_fields_sound that unfolding map_elicitation_fields [OF assms(1)] by blast
  have "ef_custom f \<noteq> Some (ef_id g)" if "f \<in> set (me_fields m)" "g \<in> set (me_fields m)" for f g
  proof
    assume "ef_custom f = Some (ef_id g)"
    with s [OF that(1)] have "(ef_id g, ef_id f) \<in> set ?slots" by (metis slot_of_Some)
    with s [OF that(2)] show False by force
  qed
  moreover have "ef_id f = ef_id g" if "f \<in> set (me_fields m)" "g \<in> set (me_fields m)"
    "ef_custom f = Some c" "ef_custom g = Some c" for f g c
  proof -
    from that s have "(c, ef_id f) \<in> set ?slots" "(c, ef_id g) \<in> set ?slots"
      by (metis slot_of_Some)+
    with d show ?thesis by (metis eq_key_imp_eq_value)
  qed
  moreover have "distinct (map ef_id (me_fields m))"
    unfolding map_elicitation_fields [OF assms(1)] by (rule read_fields_distinct [OF assms(2)])
  ultimately show ?thesis unfolding wf_form_def by blast
qed

section \<open>One answer\<close>

text \<open>Where the routing rule sends a value of a question, if anywhere.\<close>

definition route_of :: "elicitation_field \<Rightarrow> json \<Rightarrow> string option" where
  "route_of f v = (if ef_options f = [] \<or> is_offered f v then Some (ef_id f) else ef_custom f)"

lemma field_by_id_None: "field_by_id qs q = None \<longleftrightarrow> (\<forall>f \<in> set qs. ef_id f \<noteq> q)"
  by (simp add: field_by_id_def find_None_iff_all)

lemma field_by_id_Some: "field_by_id qs q = Some f \<Longrightarrow> f \<in> set qs \<and> ef_id f = q"
  by (auto simp: field_by_id_def dest!: find_SomeD)

lemma field_by_custom_None: "field_by_custom qs q = None \<longleftrightarrow> (\<forall>f \<in> set qs. ef_custom f \<noteq> Some q)"
  by (simp add: field_by_custom_def find_None_iff_all)

lemma wf_form_inj: "wf_form qs \<Longrightarrow> f \<in> set qs \<Longrightarrow> g \<in> set qs \<Longrightarrow> ef_id f = ef_id g \<Longrightarrow> f = g"
  by (simp add: wf_form_def distinct_map inj_on_def)

lemma unique_field: "wf_form qs \<Longrightarrow> f \<in> set qs \<Longrightarrow> field_by_id qs (ef_id f) = Some f"
  by (metis field_by_id_None field_by_id_Some not_None_eq wf_form_inj)

lemma answer_one_known:
  assumes "wf_form qs" "f \<in> set qs"
  shows "answer_one qs (ef_id f, v) = Inr k \<longleftrightarrow> type_ok (ef_type f) v \<and> route_of f v = Some k"
proof -
  have "field_by_custom qs (ef_id f) = None"
    using assms by (simp add: field_by_custom_None wf_form_def)
  with unique_field [OF assms] show ?thesis
    by (auto simp: answer_one_def route_of_def split: option.splits)
qed

lemma answer_one_iff:
  assumes "wf_form qs"
  shows "answer_one qs (q, v) = Inr k \<longleftrightarrow>
    (\<exists>f \<in> set qs. ef_id f = q \<and> type_ok (ef_type f) v \<and> route_of f v = Some k)"
proof (cases "field_by_id qs q")
  case None
  then have "\<forall>f \<in> set qs. ef_id f \<noteq> q" by (simp add: field_by_id_None)
  with None show ?thesis by (auto simp: answer_one_def split: option.splits)
next
  case (Some f)
  then have f: "f \<in> set qs" "ef_id f = q" using field_by_id_Some by blast+
  have only: "g = f" if "g \<in> set qs" "ef_id g = q" for g
    using wf_form_inj [OF assms that(1) f(1)] that(2) f(2) by simp
  show ?thesis
    using answer_one_known [OF assms f(1), of v k] f only by blast
qed

lemma route_in_slots: "route_of f v = Some k \<Longrightarrow> k \<in> own_slots f"
  by (auto simp: route_of_def own_slots_def split: if_splits)

lemma slots_disjoint:
  assumes "wf_form qs" "f \<in> set qs" "g \<in> set qs" "k \<in> own_slots f" "k \<in> own_slots g"
  shows "f = g"
proof -
  have w: "ef_custom f \<noteq> Some (ef_id g)" "ef_custom g \<noteq> Some (ef_id f)"
    "ef_custom f = Some k \<and> ef_custom g = Some k \<longrightarrow> ef_id f = ef_id g"
    using assms(1-3) unfolding wf_form_def by blast+
  have "ef_id f = ef_id g"
  proof -
    have "k = ef_id f \<or> ef_custom f = Some k" "k = ef_id g \<or> ef_custom g = Some k"
      using assms(4,5) by (auto simp: own_slots_def)
    with w show ?thesis by blast
  qed
  then show ?thesis by (rule wf_form_inj [OF assms(1-3)])
qed

section \<open>All answers\<close>

lemma list_all2_right: "list_all2 R xs ys \<Longrightarrow> y \<in> set ys \<Longrightarrow> \<exists>x \<in> set xs. R x y"
  by (induction rule: list_all2_induct) auto

lemma list_all2_left: "list_all2 R xs ys \<Longrightarrow> x \<in> set xs \<Longrightarrow> \<exists>y \<in> set ys. R x y"
  by (induction rule: list_all2_induct) auto

lemma set_prop_fresh: "k \<notin> fst ` set ps \<Longrightarrow> set_prop k v ps = ps @ [(k, v)]"
  by (induction ps) auto

definition routed :: "elicitation_field list \<Rightarrow> string \<times> json \<Rightarrow> string \<times> json \<Rightarrow> bool" where
  "routed qs a o1 \<longleftrightarrow> answer_one qs a = Inr (fst o1) \<and> snd o1 = snd a"

lemma answer_one_inj:
  assumes "wf_form qs" "answer_one qs (p, v) = Inr k" "answer_one qs (q, w) = Inr k"
  shows "p = q"
  using assms by (metis answer_one_iff route_in_slots slots_disjoint)

lemma answer_all_routed:
  assumes "wf_form qs" "answer_all qs as out = Inr out'" "distinct (map fst as)"
    and "\<And>a k. a \<in> set as \<Longrightarrow> answer_one qs a = Inr k \<Longrightarrow> k \<notin> fst ` set out"
  shows "\<exists>sent. out' = out @ sent \<and> list_all2 (routed qs) as sent"
  using assms(2-4)
proof (induction as arbitrary: out)
  case Nil
  then show ?case by simp
next
  case (Cons a as)
  then obtain k where k: "answer_one qs a = Inr k" by (auto split: sum.splits)
  have fresh: "k \<notin> fst ` set out" using Cons.prems(3) [of a] k by simp
  have rest: "answer_all qs as (out @ [(k, snd a)]) = Inr out'"
    using Cons.prems(1) k set_prop_fresh [OF fresh] by simp
  have new: "l \<notin> fst ` set (out @ [(k, snd a)])" if b: "b \<in> set as" "answer_one qs b = Inr l" for b l
  proof -
    have "fst b \<in> fst ` set as" using b(1) by (rule imageI)
    moreover have "fst a \<notin> fst ` set as" using Cons.prems(2) by simp
    ultimately have "fst b \<noteq> fst a" by metis
    then have "l \<noteq> k" using answer_one_inj [OF assms(1), of "fst a" "snd a" k "fst b" "snd b"] k b
      by auto
    with Cons.prems(3) [of b] b show ?thesis by simp
  qed
  have d: "distinct (map fst as)" using Cons.prems(2) by simp
  have "\<exists>sent. out' = (out @ [(k, snd a)]) @ sent \<and> list_all2 (routed qs) as sent"
    by (rule Cons.IH [OF rest d]) (rule new)
  then obtain sent where
    "out' = (out @ [(k, snd a)]) @ sent" "list_all2 (routed qs) as sent" by blast
  then have "out' = out @ ((k, snd a) # sent)" "list_all2 (routed qs) (a # as) ((k, snd a) # sent)"
    using k by (auto simp: routed_def)
  then show ?case by blast
qed

lemma answer_all_ok:
  "(\<exists>o1. answer_all qs as out = Inr o1) \<longleftrightarrow> (\<forall>a \<in> set as. \<exists>k. answer_one qs a = Inr k)"
proof (induction as arbitrary: out)
  case (Cons a as)
  then show ?case by (cases "answer_one qs a") auto
qed simp

lemma routed_keys:
  assumes "wf_form qs" "list_all2 (routed qs) as sent" "distinct (map fst as)"
  shows "distinct (map fst sent)"
  using assms(2,3)
proof (induction rule: list_all2_induct)
  case (Cons a as s sent)
  have "fst s \<noteq> fst t" if t: "t \<in> set sent" for t
  proof
    assume eq: "fst s = fst t"
    from list_all2_right [OF Cons(2) t] obtain b where b: "b \<in> set as" "routed qs b t"
      by blast
    with Cons(1) eq have "answer_one qs (fst a, snd a) = Inr (fst t)"
      "answer_one qs (fst b, snd b) = Inr (fst t)" by (auto simp: routed_def)
    from answer_one_inj [OF assms(1) this] have "fst a \<in> fst ` set as" using b(1) by simp
    with Cons(4) show False by simp
  qed
  with Cons show ?case by auto
qed simp

lemma routed_map_of:
  assumes "wf_form qs" "list_all2 (routed qs) as sent" "distinct (map fst as)"
  shows "map_of sent k = Some v \<longleftrightarrow> (\<exists>q. map_of as q = Some v \<and> answer_one qs (q, v) = Inr k)"
proof -
  have "map_of sent k = Some v \<longleftrightarrow> (k, v) \<in> set sent"
    using routed_keys [OF assms] by simp
  also have "\<dots> \<longleftrightarrow> (\<exists>q. (q, v) \<in> set as \<and> answer_one qs (q, v) = Inr k)"
  proof
    assume "(k, v) \<in> set sent"
    from list_all2_right [OF assms(2) this] show "\<exists>q. (q, v) \<in> set as \<and> answer_one qs (q, v) = Inr k"
      by (auto simp: routed_def)
  next
    assume "\<exists>q. (q, v) \<in> set as \<and> answer_one qs (q, v) = Inr k"
    then obtain q where q: "(q, v) \<in> set as" "answer_one qs (q, v) = Inr k" by blast
    from list_all2_left [OF assms(2) q(1)] q(2) show "(k, v) \<in> set sent"
      by (auto simp: routed_def)
  qed
  finally show ?thesis using assms(3) by simp
qed

section \<open>Properties\<close>

lemma build_parts:
  assumes "build_elicitation_content qs answers = Inr out"
  shows "answer_all qs answers [] = Inr out"
    "\<forall>f \<in> set qs. ef_required f \<longrightarrow> ef_id f \<in> fst ` set answers"
  using assms by (auto simp: build_elicitation_content_def find_None_iff_all split: sum.splits option.splits)

text \<open>An accepted answer, per question: who owns a sent property, and where a value goes.\<close>

lemma sent_owner:
  assumes "wf_form qs" "list_all2 (routed qs) answers out" "distinct (map fst answers)"
    and "f \<in> set qs" "k \<in> own_slots f" "k \<in> fst ` set out"
  shows "\<exists>v. map_of answers (ef_id f) = Some v \<and> type_ok (ef_type f) v \<and> route_of f v = Some k"
proof -
  from assms(6) obtain v where "map_of out k = Some v"
    by (cases "map_of out k") (auto simp: map_of_eq_None_iff)
  then obtain g where g: "g \<in> set qs" "map_of answers (ef_id g) = Some v"
    "type_ok (ef_type g) v" "route_of g v = Some k"
    unfolding routed_map_of [OF assms(1-3)] answer_one_iff [OF assms(1)] by blast
  with slots_disjoint [OF assms(1,4) g(1) assms(5) route_in_slots [OF g(4)]] show ?thesis by blast
qed

lemma sent_value:
  assumes "wf_form qs" "list_all2 (routed qs) answers out" "distinct (map fst answers)"
    and "f \<in> set qs" "map_of answers (ef_id f) = Some v"
  obtains k where "type_ok (ef_type f) v" "route_of f v = Some k" "map_of out k = Some v"
proof -
  have a: "(ef_id f, v) \<in> set answers" using assms(5) by (rule map_of_SomeD)
  from list_all2_left [OF assms(2) a] obtain k where "answer_one qs (ef_id f, v) = Inr k"
    by (auto simp: routed_def)
  then have k: "type_ok (ef_type f) v" "route_of f v = Some k"
    using answer_one_known [OF assms(1,4)] by simp_all
  have "map_of out k = Some v"
    unfolding routed_map_of [OF assms(1-3)] answer_one_iff [OF assms(1)] using assms(4,5) k by blast
  with k that show thesis by blast
qed

lemma one_slot_per_question:
  assumes "wf_form qs" "list_all2 (routed qs) answers out" "distinct (map fst answers)"
    and f: "f \<in> set qs" and v: "map_of answers (ef_id f) = Some v"
  shows "\<exists>k. own_slots f \<inter> fst ` set out = {k} \<and> map_of out k = Some v \<and>
    (if ef_options f = [] \<or> is_offered f v then k = ef_id f else ef_custom f = Some k)"
proof -
  obtain k where k: "route_of f v = Some k" "map_of out k = Some v"
    by (rule sent_value [OF assms]) blast
  have "k \<in> fst ` set out" using k(2) by (force dest: map_of_SomeD)
  moreover have "l = k" if "l \<in> own_slots f" "l \<in> fst ` set out" for l
    using sent_owner [OF assms(1-4) that] v k(1) by simp
  ultimately have "own_slots f \<inter> fst ` set out = {k}" using route_in_slots [OF k(1)] by blast
  with k show ?thesis by (auto simp: route_of_def split: if_splits)
qed

text \<open>
  Exactly one property per question reaches the agent. When answers to a form the agent's
  schema was read into are accepted, then for every question: unanswered, it was not required and
  neither its own property nor its free-text one is sent; answered, exactly one of the two is sent,
  with the client's value, its own property when the question has no choices or the value is one of
  them, and the free-text one otherwise. Nothing else is sent, and nothing twice.
\<close>

theorem one_property_per_question:
  assumes "map_elicitation p = Inr m" and "distinct (map fst (form_properties p))"
    and "distinct (map fst answers)"
    and "build_elicitation_content (me_fields m) answers = Inr out"
  shows "distinct (map fst out) \<and> length out = length answers \<and>
    fst ` set out \<subseteq> (\<Union>f \<in> set (me_fields m). own_slots f) \<and>
    (\<forall>f \<in> set (me_fields m).
       case map_of answers (ef_id f) of
         None \<Rightarrow> \<not> ef_required f \<and> own_slots f \<inter> fst ` set out = {}
       | Some v \<Rightarrow>
           \<exists>k. own_slots f \<inter> fst ` set out = {k} \<and> map_of out k = Some v \<and>
             (if ef_options f = [] \<or> is_offered f v then k = ef_id f else ef_custom f = Some k))"
proof -
  note wf = mapped_form_wf [OF assms(1,2)]
  note b = build_parts [OF assms(4)]
  have "\<exists>sent. out = [] @ sent \<and> list_all2 (routed (me_fields m)) answers sent"
    by (rule answer_all_routed [OF wf b(1) assms(3)]) simp
  then have r: "list_all2 (routed (me_fields m)) answers out" by simp
  have "case map_of answers (ef_id f) of
      None \<Rightarrow> \<not> ef_required f \<and> own_slots f \<inter> fst ` set out = {}
    | Some v \<Rightarrow> \<exists>k. own_slots f \<inter> fst ` set out = {k} \<and> map_of out k = Some v \<and>
        (if ef_options f = [] \<or> is_offered f v then k = ef_id f else ef_custom f = Some k)"
    if f: "f \<in> set (me_fields m)" for f
  proof (cases "map_of answers (ef_id f)")
    case None
    then have "\<not> ef_required f" using b(2) f by (auto simp: map_of_eq_None_iff)
    with None sent_owner [OF wf r assms(3) f] show ?thesis by auto
  next
    case (Some v)
    with one_slot_per_question [OF wf r assms(3) f Some] show ?thesis by simp
  qed
  moreover have "fst ` set out \<subseteq> (\<Union>f \<in> set (me_fields m). own_slots f)"
  proof
    fix k assume "k \<in> fst ` set out"
    then obtain v where "map_of out k = Some v"
      by (cases "map_of out k") (auto simp: map_of_eq_None_iff)
    then show "k \<in> (\<Union>f \<in> set (me_fields m). own_slots f)"
      unfolding routed_map_of [OF wf r assms(3)] answer_one_iff [OF wf] by (blast intro: route_in_slots)
  qed
  ultimately show ?thesis
    using routed_keys [OF wf r assms(3)] list_all2_lengthD [OF r] by simp
qed

text \<open>A recorded form: one choice with a free-text twin, and a required number.\<close>

definition sample_form :: json where
  "sample_form = JObj [(''sessionId'', JStr ''s1''), (''requestedSchema'', JObj [
     (''properties'', JObj [
        (''question_0'', JObj [(''type'', JStr ''string''), (''oneOf'', JArr [
            JObj [(''const'', JStr ''notes.md'')], JObj [(''const'', JStr ''todo.md'')]])]),
        (''question_0_custom'', JObj [(''type'', JStr ''string''), (''_meta'', JObj [
            (''_askUserQuestionCustomAnswer'', JObj [
               (''questionId'', JStr ''question_0''), (''isCustomAnswer'', JBool True)])])]),
        (''count'', JObj [(''type'', JStr ''integer'')])]),
     (''required'', JArr [JStr ''count''])])]"

theorem one_property_per_question_witness:
  "\<exists>m out. map_elicitation sample_form = Inr m \<and>
     build_elicitation_content (me_fields m)
       [(''question_0'', JStr ''other.txt''), (''count'', JNum (Fin 2))] = Inr out \<and>
     out = [(''question_0_custom'', JStr ''other.txt''), (''count'', JNum (Fin 2))] \<and>
     distinct (map fst out) \<and> length out = 2"
proof -
  let ?as = "[(''question_0'', JStr ''other.txt''), (''count'', JNum (Fin 2))]"
  let ?out = "[(''question_0_custom'', JStr ''other.txt''), (''count'', JNum (Fin 2))]"
  have "case map_elicitation sample_form of Inl e \<Rightarrow> False
      | Inr m \<Rightarrow> build_elicitation_content (me_fields m) ?as = Inr ?out" by code_simp
  then obtain m where m: "map_elicitation sample_form = Inr m"
    "build_elicitation_content (me_fields m) ?as = Inr ?out" by (auto split: sum.splits)
  have d: "distinct (map fst (form_properties sample_form))" "distinct (map fst ?as)" by code_simp+
  from one_property_per_question [OF m(1) d(1) d(2) m(2)] m show ?thesis by auto
qed

lemma route_exists:
  "(\<exists>k. route_of f v = Some k) \<longleftrightarrow> ef_options f = [] \<or> is_offered f v \<or> ef_custom f \<noteq> None"
  by (auto simp: route_of_def)

text \<open>
  Which answers a form accepts, exactly: those in which every key is a question of the form,
  every value has the question's type and is one of its choices unless it has none or has a
  free-text twin, and every required question is answered. Everything else is refused.
\<close>

theorem accepted_answers:
  assumes "map_elicitation p = Inr m" and "distinct (map fst (form_properties p))"
  shows "(\<exists>out. build_elicitation_content (me_fields m) answers = Inr out) \<longleftrightarrow>
    (\<forall>(q, v) \<in> set answers. \<exists>f \<in> set (me_fields m). ef_id f = q \<and> type_ok (ef_type f) v \<and>
       (ef_options f = [] \<or> is_offered f v \<or> ef_custom f \<noteq> None)) \<and>
    (\<forall>f \<in> set (me_fields m). ef_required f \<longrightarrow> ef_id f \<in> fst ` set answers)"
proof -
  let ?qs = "me_fields m"
  note wf = mapped_form_wf [OF assms]
  have "(\<exists>out. build_elicitation_content ?qs answers = Inr out) \<longleftrightarrow>
      (\<exists>out. answer_all ?qs answers [] = Inr out) \<and>
      (\<forall>f \<in> set ?qs. ef_required f \<longrightarrow> ef_id f \<in> fst ` set answers)"
    by (auto simp: build_elicitation_content_def find_None_iff_all split: sum.splits option.splits
        dest!: find_SomeD)
  also have "(\<exists>out. answer_all ?qs answers [] = Inr out) \<longleftrightarrow>
      (\<forall>(q, v) \<in> set answers. \<exists>k. answer_one ?qs (q, v) = Inr k)"
    unfolding answer_all_ok by auto
  also have "\<dots> \<longleftrightarrow> (\<forall>(q, v) \<in> set answers. \<exists>f \<in> set ?qs. ef_id f = q \<and> type_ok (ef_type f) v \<and>
       (ef_options f = [] \<or> is_offered f v \<or> ef_custom f \<noteq> None))"
    unfolding answer_one_iff [OF wf] route_exists [symmetric] by blast
  finally show ?thesis .
qed

theorem accepted_answers_witness:
  "\<exists>m. map_elicitation sample_form = Inr m \<and>
     \<not> (\<exists>out. build_elicitation_content (me_fields m) [(''question_0'', JStr ''notes.md'')] = Inr out)"
proof -
  have "case map_elicitation sample_form of Inl e \<Rightarrow> False
      | Inr m \<Rightarrow> list_ex (\<lambda>f. ef_required f \<and> ef_id f = ''count'') (me_fields m)" by code_simp
  then obtain m where m: "map_elicitation sample_form = Inr m"
    "\<exists>f \<in> set (me_fields m). ef_required f \<and> ef_id f = ''count''"
    by (auto split: sum.splits simp: list_ex_iff)
  have d: "distinct (map fst (form_properties sample_form))" by code_simp
  from accepted_answers [OF m(1) d, of "[(''question_0'', JStr ''notes.md'')]"] m show ?thesis
    by auto
qed

definition slot_for :: "string \<Rightarrow> json" where
  "slot_for q = JObj [(''type'', JStr ''string''), (''_meta'', JObj [(''_askUserQuestionCustomAnswer'',
     JObj [(''questionId'', JStr q), (''isCustomAnswer'', JBool True)])])]"

text \<open>
  Two promises of the mapper's comments that it does not keep. A second custom slot of one
  question is said to be reported in \<open>unmodelled\<close>; it is dropped without a trace. And the mapper is
  said to be idempotent; applied to its own result it finds no schema and yields an empty form.
\<close>

theorem second_slot_dropped_and_not_idempotent:
  "let form = JObj [(''requestedSchema'', JObj [(''properties'', JObj
         [(''q'', JObj [(''type'', JStr ''string'')]), (''c1'', slot_for ''q''), (''c2'', slot_for ''q'')])])];
       m = map_elicitation form
   in (case m of Inl e \<Rightarrow> False
       | Inr m \<Rightarrow> map ef_id (me_fields m) = [''q''] \<and> map ef_custom (me_fields m) = [Some ''c1'']
           \<and> me_unmodelled m = []
           \<and> (case map_elicitation (elicitation_json m) of Inl e \<Rightarrow> False
              | Inr m' \<Rightarrow> me_fields m' = [] \<and> me_raw m' \<noteq> me_raw m))"
  by code_simp

end
