(* ===== verification/TurnFold.thy ===== *)
theory TurnFold
  imports Events
begin

text \<open>
  The turn aggregate of \<open>packages/protocol/src/turn.ts\<close>: the pure fold over event envelopes that
  both the daemon's \<open>GET /turns/{id}\<close> and the client's \<open>prompt()\<close> run. The fold keeps its state
  in one record; payloads of the agent's own updates are read defensively out of JSON. A JavaScript
  \<open>TypeError\<close> (reading a property of \<open>null\<close>) is the value \<open>None\<close> of the functions that can
  raise it.
\<close>

section \<open>The result\<close>

record file_change =
  fc_path :: string
  fc_operation :: string
  fc_old_text :: "string option"
  fc_new_text :: string
  fc_fragment :: bool

datatype turn_verdict = VOk | VPartial | VFailed

datatype warning_source = WUsageMeta | WStderr | WPolicy | WToolStatus | WPatch | WWatchdog

record turn_warning =
  tw_code :: string
  tw_message :: string
  tw_source :: warning_source
  tw_detail :: "json option"

record tool_call =
  tc_id :: string
  tc_title :: "string option"
  tc_kind :: "string option"
  tc_status :: "string option"
  tc_locations :: "(string \<times> jsnum option) list"
  tc_content :: "json list"
  tc_raw_input :: "json option"
  tc_raw_output :: "json option"

record interaction_record =
  ir_request_id :: string
  ir_kind :: interaction_kind
  ir_method :: interaction_method
  ir_title :: string
  ir_decision :: decision
  ir_by :: interaction_actor
  ir_parked_ms :: ms
  ir_tool_call_id :: "string option"
  ir_option_id :: "string option"
  ir_rule :: string
  ir_at :: ms

text \<open>The wire's error body: \<open>code\<close>, \<open>message\<close> and the agent's detail, without the stderr tail.\<close>

type_synonym wire_error = "omni_code \<times> string \<times> json option"

record token_usage =
  tk_total :: jsnum
  tk_input :: jsnum
  tk_output :: jsnum
  tk_cached_read :: "jsnum option"
  tk_cached_write :: "jsnum option"

datatype patch_quality = QExact | QSharedWorktree | QUnavailable

record patch_info =
  pi_git :: bool
  pi_truncated :: bool
  pi_quality :: patch_quality

type_synonym usage = "jsnum \<times> jsnum \<times> (jsnum \<times> string) option"

record turn_result =
  tr_turn_id :: string
  tr_worker_id :: string
  tr_stop_reason :: "string option"
  tr_text :: string
  tr_tool_calls :: "tool_call list"
  tr_changes :: "file_change list"
  tr_patch :: "string option"
  tr_patch_info :: "patch_info option"
  tr_vendor_patch :: "(string \<times> string) option"
  tr_usage :: "usage option"
  tr_tokens :: "token_usage option"
  tr_interactions :: "interaction_record list"
  tr_verdict :: turn_verdict
  tr_warnings :: "turn_warning list"
  tr_failed :: "string list"
  tr_denied :: "string list"
  tr_stranded :: "string list"
  tr_pending :: "string list"
  tr_error :: "wire_error option"

datatype turn_state = TsRunning | TsCompleted | TsFailed | TsUnknown

record turn_status =
  st_turn_id :: string
  st_state :: turn_state
  st_start_seq :: "seq option"
  st_end_seq :: "seq option"
  st_stop_reason :: "string option"
  st_result :: "turn_result option"

section \<open>The fold's state\<close>

datatype terminal = ByIdle | ByClose

record turn_fold =
  fo_worker :: "string option"
  fo_start_seq :: "seq option"
  fo_end_seq :: "seq option"
  fo_terminal :: "terminal option"
  fo_stop_reason :: "string option"
  fo_text :: string
  fo_order :: "string list"
  fo_calls :: "string \<rightharpoonup> tool_call"
  fo_usage :: "usage option"
  fo_interactions :: "interaction_record list"
  fo_error :: "wire_error option"
  fo_tokens :: "token_usage option"
  fo_vendor_patch :: "(string \<times> string) option"
  fo_stream_warnings :: "turn_warning list"
  fo_alert :: "string list"
  fo_denied :: "string list"
  fo_patch :: "(string option \<times> patch_info) option"
  fo_pending :: "string list"

definition fold_start :: turn_fold where
  "fold_start = \<lparr>fo_worker = None, fo_start_seq = None, fo_end_seq = None, fo_terminal = None,
     fo_stop_reason = None, fo_text = '''', fo_order = [], fo_calls = Map.empty, fo_usage = None,
     fo_interactions = [], fo_error = None, fo_tokens = None, fo_vendor_patch = None,
     fo_stream_warnings = [], fo_alert = [], fo_denied = [], fo_patch = None, fo_pending = []\<rparr>"

section \<open>Spellings\<close>

fun close_reason_code :: "worker_reason \<Rightarrow> omni_code option" where
  "close_reason_code ClientRequest = Some WorkerClosed"
| "close_reason_code DaemonShutdown = Some WorkerClosed"
| "close_reason_code NotResumableReason = Some WorkerClosed"
| "close_reason_code SpawnFailed = Some AgentError"
| "close_reason_code HandshakeError = Some AgentError"
| "close_reason_code AgentExited = Some AgentError"
| "close_reason_code AgentCrashed = Some AgentError"
| "close_reason_code ProtocolError = Some AgentError"
| "close_reason_code HandshakeTimeout = Some AgentTimeout"
| "close_reason_code CancelTimeout = Some AgentTimeout"
| "close_reason_code IdleTimeout = Some WorkerClosed"
| "close_reason_code Orphaned = Some WorkerClosed"
| "close_reason_code WakeFailed = Some AgentError"
| "close_reason_code AclRevoked = Some Forbidden"
| "close_reason_code _ = None"

fun worker_reason_text :: "worker_reason \<Rightarrow> string" where
  "worker_reason_text ClientRequest = ''client_request''"
| "worker_reason_text DaemonShutdown = ''daemon_shutdown''"
| "worker_reason_text SpawnFailed = ''spawn_failed''"
| "worker_reason_text HandshakeError = ''handshake_error''"
| "worker_reason_text HandshakeTimeout = ''handshake_timeout''"
| "worker_reason_text AgentExited = ''agent_exited''"
| "worker_reason_text AgentCrashed = ''agent_crashed''"
| "worker_reason_text ProtocolError = ''protocol_error''"
| "worker_reason_text CancelTimeout = ''cancel_timeout''"
| "worker_reason_text NotResumableReason = ''not_resumable''"
| "worker_reason_text IdleTimeout = ''idle_timeout''"
| "worker_reason_text WakeFailed = ''wake_failed''"
| "worker_reason_text Orphaned = ''orphaned''"
| "worker_reason_text AclRevoked = ''acl_revoked''"
| "worker_reason_text Created = ''created''"
| "worker_reason_text HandshakeOk = ''handshake_ok''"
| "worker_reason_text PromptReason = ''prompt''"
| "worker_reason_text TurnEndReason = ''turn_end''"
| "worker_reason_text HibernateReason = ''hibernate''"
| "worker_reason_text Wake = ''wake''"
| "worker_reason_text Resumed = ''resumed''"
| "worker_reason_text WakeRetry = ''wake_retry''"
| "worker_reason_text DaemonRestart = ''daemon_restart''"
| "worker_reason_text Restart = ''restart''"
| "worker_reason_text InteractionParked = ''interaction_parked''"
| "worker_reason_text InteractionResolved = ''interaction_resolved''"
| "worker_reason_text ParkTimeout = ''park_timeout''"
| "worker_reason_text WatchdogIdle = ''watchdog_idle''"

fun method_text :: "interaction_method \<Rightarrow> string" where
  "method_text RequestPermission = ''session/request_permission''"
| "method_text ElicitationCreate = ''elicitation/create''"

text \<open>\<open>WARNING_SOURCES\<close>, as the reading of a spelling.\<close>

definition warning_source_of :: "string \<Rightarrow> warning_source option" where
  "warning_source_of s =
     (if s = ''usage_meta'' then Some WUsageMeta else if s = ''stderr'' then Some WStderr
      else if s = ''policy'' then Some WPolicy else if s = ''tool_status'' then Some WToolStatus
      else if s = ''patch'' then Some WPatch else if s = ''watchdog'' then Some WWatchdog
      else None)"

fun str_json :: "string option \<Rightarrow> json" where
  "str_json None = JNull"
| "str_json (Some s) = JStr s"

definition quoted :: "string \<Rightarrow> string" where
  "quoted s = CHR 0x22 # s @ [CHR 0x22]"

definition terminal_tool_status :: "string \<Rightarrow> bool" where
  "terminal_tool_status s \<longleftrightarrow> s = ''completed'' \<or> s = ''failed''"

section \<open>Defensive readers\<close>

definition wire_error_of :: "error_body \<Rightarrow> wire_error" where
  "wire_error_of b = (err_code b, err_message b, err_acp b)"

definition obj_field :: "json option \<Rightarrow> string \<Rightarrow> json option" where
  "obj_field v k = (case js_record v of None \<Rightarrow> None | Some r \<Rightarrow> fld r k)"

definition read_tokens :: "json option \<Rightarrow> token_usage option" where
  "read_tokens raw =
     (case js_record raw of None \<Rightarrow> None
      | Some u \<Rightarrow>
         (case (js_num (fld u ''totalTokens''), js_num (fld u ''inputTokens''),
                js_num (fld u ''outputTokens'')) of
            (Some total_n, Some input_n, Some output_n) \<Rightarrow>
              Some \<lparr>tk_total = total_n, tk_input = input_n, tk_output = output_n,
                    tk_cached_read = js_num (fld u ''cachedReadTokens''),
                    tk_cached_write = js_num (fld u ''cachedWriteTokens'')\<rparr>
          | _ \<Rightarrow> None))"

text \<open>The format is the constant \<open>git_patch\<close>, so the patch is its text and its source.\<close>

definition read_vendor_patch :: "json option \<Rightarrow> (string \<times> string) option" where
  "read_vendor_patch raw =
     (case js_record raw of None \<Rightarrow> None
      | Some p \<Rightarrow>
         (case (js_str (fld p ''text''), js_str (fld p ''source'')) of
            (Some t, Some s) \<Rightarrow>
              (if fld p ''format'' = Some (JStr ''git_patch'') then Some (t, s) else None)
          | _ \<Rightarrow> None))"

definition patch_quality_of :: "string option \<Rightarrow> patch_quality option" where
  "patch_quality_of q =
     (if q = Some ''exact'' then Some QExact
      else if q = Some ''shared_worktree'' then Some QSharedWorktree
      else if q = Some ''unavailable'' then Some QUnavailable else None)"

definition read_patch :: "json option \<Rightarrow> (string option \<times> patch_info) option" where
  "read_patch raw =
     (case js_record raw of None \<Rightarrow> None
      | Some p \<Rightarrow>
         (case patch_quality_of (js_str (fld p ''quality'')) of None \<Rightarrow> None
          | Some quality \<Rightarrow>
              Some (js_str (fld p ''text''),
                    \<lparr>pi_git = (fld p ''source'' = Some (JStr ''git'')),
                     pi_truncated = (fld p ''truncated'' = Some (JBool True)),
                     pi_quality = quality\<rparr>)))"

definition read_warning :: "json \<Rightarrow> turn_warning list" where
  "read_warning item =
     (case js_record (Some item) of None \<Rightarrow> []
      | Some w \<Rightarrow>
         (case (js_str (fld w ''code''), js_str (fld w ''message''),
                Option.bind (js_str (fld w ''source'')) warning_source_of) of
            (Some code, Some message, Some source) \<Rightarrow>
              [\<lparr>tw_code = code, tw_message = message, tw_source = source,
                tw_detail = js_record (fld w ''detail'')\<rparr>]
          | _ \<Rightarrow> []))"

definition read_warnings :: "json option \<Rightarrow> turn_warning list" where
  "read_warnings raw =
     (case js_arr raw of None \<Rightarrow> [] | Some items \<Rightarrow> List.maps read_warning items)"

definition read_string_list :: "json option \<Rightarrow> string list" where
  "read_string_list raw =
     (case js_arr raw of None \<Rightarrow> []
      | Some items \<Rightarrow> List.map_filter (\<lambda>x. js_str (Some x)) items)"

section \<open>Advisories\<close>

definition policy_clamp_warning :: "clamp option \<Rightarrow> string \<Rightarrow> string \<Rightarrow> turn_warning option" where
  "policy_clamp_warning clamped action rule =
     (case clamped of None \<Rightarrow> None
      | Some c \<Rightarrow>
          Some \<lparr>tw_code = ''policy_clamped'',
                tw_message = quoted (action_text (clamp_from c)) @ '' was narrowed to '' @
                  quoted action @ '' by '' @ clamp_by c,
                tw_source = WPolicy,
                tw_detail = Some (JObj [(''from'', JStr (action_text (clamp_from c))),
                  (''to'', JStr action), (''by'', JStr (clamp_by c)), (''rule'', JStr rule)])\<rparr>)"

definition unpoliced_warning :: "string \<Rightarrow> string \<Rightarrow> turn_warning" where
  "unpoliced_warning call_id kind =
     \<lparr>tw_code = ''unpoliced_tool_call'',
      tw_message = ''a '' @ quoted kind @ '' tool call ran without reaching the policy engine'',
      tw_source = WPolicy,
      tw_detail = Some (JObj [(''toolCallId'', JStr call_id), (''kind'', JStr kind)])\<rparr>"

text \<open>The loop of \<open>unpolicedToolCalls\<close> over the tool calls, with its set of ids already reported.\<close>

fun unpoliced_loop ::
  "string list \<Rightarrow> string list \<Rightarrow> string list \<Rightarrow> tool_call list \<Rightarrow> turn_warning list" where
  "unpoliced_loop watched policed seen [] = []"
| "unpoliced_loop watched policed seen (call # calls) =
     (case tc_kind call of
        None \<Rightarrow> unpoliced_loop watched policed seen calls
      | Some kind \<Rightarrow>
          if kind \<notin> set watched \<or> tc_id call \<in> set policed \<or> tc_id call \<in> set seen
          then unpoliced_loop watched policed seen calls
          else unpoliced_warning (tc_id call) kind #
               unpoliced_loop watched policed (tc_id call # seen) calls)"

definition unpoliced_tool_calls ::
  "string list \<Rightarrow> tool_call list \<Rightarrow> interaction_record list \<Rightarrow> turn_warning list" where
  "unpoliced_tool_calls alert calls interactions =
     (if alert = [] then []
      else unpoliced_loop alert (List.map_filter ir_tool_call_id interactions) [] calls)"

section \<open>One agent update\<close>

definition new_tool_call :: "string \<Rightarrow> tool_call" where
  "new_tool_call i = \<lparr>tc_id = i, tc_title = None, tc_kind = None, tc_status = None,
     tc_locations = [], tc_content = [], tc_raw_input = None, tc_raw_output = None\<rparr>"

fun or_else :: "'a option \<Rightarrow> 'a option \<Rightarrow> 'a option" where
  "or_else (Some x) d = Some x"
| "or_else None d = d"

definition read_location :: "json \<Rightarrow> (string \<times> jsnum option) list" where
  "read_location raw =
     (case js_record (Some raw) of None \<Rightarrow> []
      | Some l \<Rightarrow> (case js_str (fld l ''path'') of None \<Rightarrow> []
                   | Some path \<Rightarrow> [(path, js_num (fld l ''line''))]))"

text \<open>The field-by-field merge: an absent or null field means unchanged.\<close>

definition merge_tool_call :: "json \<Rightarrow> tool_call \<Rightarrow> tool_call" where
  "merge_tool_call payload c =
     c\<lparr>tc_title := or_else (js_str (fld payload ''title'')) (tc_title c),
       tc_kind := or_else (js_str (fld payload ''kind'')) (tc_kind c),
       tc_status := or_else (js_str (fld payload ''status'')) (tc_status c),
       tc_locations := (case js_arr (fld payload ''locations'') of
                          None \<Rightarrow> tc_locations c | Some ls \<Rightarrow> List.maps read_location ls),
       tc_content := (case js_arr (fld payload ''content'') of
                        None \<Rightarrow> tc_content c | Some items \<Rightarrow> items),
       tc_raw_input := or_else (fld payload ''rawInput'') (tc_raw_input c),
       tc_raw_output := or_else (fld payload ''rawOutput'') (tc_raw_output c)\<rparr>"

definition upsert_tool_call :: "turn_fold \<Rightarrow> json \<Rightarrow> turn_fold" where
  "upsert_tool_call f payload =
     (case js_str (fld payload ''toolCallId'') of
        None \<Rightarrow> f
      | Some i \<Rightarrow>
         (case fo_calls f i of
            None \<Rightarrow>
              f\<lparr>fo_calls := (fo_calls f)(i \<mapsto> merge_tool_call payload (new_tool_call i)),
                fo_order := fo_order f @ [i]\<rparr>
          | Some c \<Rightarrow> f\<lparr>fo_calls := (fo_calls f)(i \<mapsto> merge_tool_call payload c)\<rparr>))"

text \<open>The keys of \<open>idle._meta\<close> the Normalizer and the worker stamp.\<close>

definition apply_idle_meta :: "turn_fold \<Rightarrow> json \<Rightarrow> turn_fold" where
  "apply_idle_meta f meta =
     (let f1 = f\<lparr>fo_vendor_patch :=
                    or_else (read_vendor_patch (fld meta ''omni/vendorPatch'')) (fo_vendor_patch f),
                  fo_stream_warnings :=
                    fo_stream_warnings f @ read_warnings (fld meta ''omni/warnings''),
                  fo_alert :=
                    read_string_list (obj_field (fld meta ''omni/policy'') ''alertOnUnpoliced'')\<rparr>
      in if has_key meta ''omni/patch''
         then f1\<lparr>fo_patch := read_patch (fld meta ''omni/patch''),
                 fo_stream_warnings := fo_stream_warnings f1 @
                   (case js_record (fld meta ''omni/patch'') of None \<Rightarrow> []
                    | Some block \<Rightarrow> read_warnings (fld block ''warnings''))\<rparr>
         else f1)"

definition apply_idle :: "turn_fold \<Rightarrow> seq \<Rightarrow> json \<Rightarrow> turn_fold" where
  "apply_idle f s payload =
     (let f1 = f\<lparr>fo_terminal := Some ByIdle, fo_end_seq := Some s,
                  fo_stop_reason := js_str (fld payload ''stopReason''),
                  fo_tokens := or_else (read_tokens (fld payload ''usage'')) (fo_tokens f)\<rparr>
      in case js_record (fld payload ''_meta'') of
           None \<Rightarrow> f1
         | Some meta \<Rightarrow> apply_idle_meta f1 meta)"

text \<open>The text of an \<open>agent_message_chunk\<close>, when its content block is a text block.\<close>

definition chunk_text :: "json \<Rightarrow> string option" where
  "chunk_text payload =
     (case js_record (fld payload ''content'') of
        None \<Rightarrow> None
      | Some c \<Rightarrow> if fld c ''type'' = Some (JStr ''text'') then js_str (fld c ''text'') else None)"

definition read_usage :: "json \<Rightarrow> usage option" where
  "read_usage payload =
     (case (js_num (fld payload ''used''), js_num (fld payload ''size'')) of
        (Some used, Some sz) \<Rightarrow>
          (let cost = fld payload ''cost'' in
           case (js_num (obj_field cost ''amount''), js_str (obj_field cost ''currency'')) of
             (Some amount, Some currency) \<Rightarrow> Some (used, sz, Some (amount, currency))
           | _ \<Rightarrow> Some (used, sz, None))
      | _ \<Rightarrow> None)"

definition apply_session_update :: "turn_fold \<Rightarrow> seq \<Rightarrow> json \<Rightarrow> turn_fold" where
  "apply_session_update f s payload =
     (let tag = js_str (fld payload ''sessionUpdate'') in
      if tag = Some ''state_update'' then
        (if fld payload ''state'' = Some (JStr ''idle'') then apply_idle f s payload else f)
      else if tag = Some ''agent_message_chunk'' then
        (case chunk_text payload of None \<Rightarrow> f | Some t \<Rightarrow> f\<lparr>fo_text := fo_text f @ t\<rparr>)
      else if tag = Some ''tool_call'' \<or> tag = Some ''tool_call_update'' then
        upsert_tool_call f payload
      else if tag = Some ''usage_update'' then
        (case read_usage payload of None \<Rightarrow> f | Some u \<Rightarrow> f\<lparr>fo_usage := Some u\<rparr>)
      else f)"

section \<open>The daemon's own records\<close>

definition close_error :: "worker_state_payload \<Rightarrow> wire_error" where
  "close_error p =
     (case ws_error p of
        Some b \<Rightarrow> wire_error_of b
      | None \<Rightarrow>
         ((case close_reason_code (ws_reason p) of None \<Rightarrow> Internal | Some c \<Rightarrow> c),
          ''worker closed during turn ('' @ worker_reason_text (ws_reason p) @ '')'', None))"

definition restart_error :: "worker_state_payload \<Rightarrow> wire_error" where
  "restart_error p =
     (case ws_error p of
        Some b \<Rightarrow> wire_error_of b
      | None \<Rightarrow> (Restarted, ''the worker was restarted while this turn was running'', None))"

fun option_or :: "'a \<Rightarrow> 'a option \<Rightarrow> 'a" where
  "option_or d None = d"
| "option_or d (Some x) = x"

definition interaction_row :: "policy_decision \<Rightarrow> ms \<Rightarrow> interaction_record" where
  "interaction_row p ts =
     \<lparr>ir_request_id = pd_request_id p, ir_kind = option_or Permission (pd_kind p),
      ir_method = option_or RequestPermission (pd_method p), ir_title = pd_title p,
      ir_decision = pd_decision p, ir_by = option_or Baseline (pd_by p),
      ir_parked_ms = option_or 0 (pd_parked_ms p), ir_tool_call_id = pd_tool_call_id p,
      ir_option_id = pd_option_id p, ir_rule = pd_rule p, ir_at = ts\<rparr>"

text \<open>The tool call a decision joins to as denied: permission denials only.\<close>

definition denied_call :: "policy_decision \<Rightarrow> string option" where
  "denied_call p =
     (if option_or RequestPermission (pd_method p) = RequestPermission \<and> pd_decision p = DDeny
      then pd_tool_call_id p else None)"

definition not_offered_warning :: turn_warning where
  "not_offered_warning =
     \<lparr>tw_code = ''permission_not_offered'',
      tw_message = ''no acceptable permission option was offered'',
      tw_source = WPolicy, tw_detail = None\<rparr>"

definition blinded_warning :: "policy_decision \<Rightarrow> turn_warning" where
  "blinded_warning p =
     \<lparr>tw_code = ''policy_blinded'',
      tw_message = ''a session-wide grant was selected for interaction '' @ pd_request_id p @
        ''; the policy engine will not be consulted again for this session'',
      tw_source = WPolicy,
      tw_detail = Some (JObj [(''requestId'', JStr (pd_request_id p)),
                              (''optionId'', str_json (pd_option_id p))])\<rparr>"

definition decision_warnings :: "policy_decision \<Rightarrow> turn_warning list" where
  "decision_warnings p =
     (if pd_decision p = DError then [not_offered_warning] else []) @
     (case policy_clamp_warning (pd_clamped p) (decision_text (pd_decision p)) (pd_rule p) of
        None \<Rightarrow> [] | Some w \<Rightarrow> [w]) @
     (if pd_blinds_policy p then [blinded_warning p] else [])"

definition apply_decision :: "turn_fold \<Rightarrow> ms \<Rightarrow> policy_decision \<Rightarrow> turn_fold" where
  "apply_decision f ts p =
     f\<lparr>fo_interactions := fo_interactions f @ [interaction_row p ts],
       fo_denied := (case denied_call p of None \<Rightarrow> fo_denied f
                     | Some i \<Rightarrow> set_add i (fo_denied f)),
       fo_stream_warnings := fo_stream_warnings f @ decision_warnings p\<rparr>"

definition expired_warning :: "interaction_payload \<Rightarrow> turn_warning" where
  "expired_warning p =
     \<lparr>tw_code = ''interaction_expired'',
      tw_message = ''interaction '' @ ia_request_id p @ '' expired with no answer'',
      tw_source = WPolicy,
      tw_detail = Some (JObj [(''requestId'', JStr (ia_request_id p)),
                              (''method'', JStr (method_text (ia_method p)))])\<rparr>"

definition declined_warning :: "interaction_payload \<Rightarrow> answer_action \<Rightarrow> turn_warning" where
  "declined_warning p action =
     \<lparr>tw_code = ''interaction_declined'',
      tw_message = ''interaction '' @ ia_request_id p @ '' was '' @ answer_action_text action @ ''d'',
      tw_source = WPolicy,
      tw_detail = Some (JObj [(''requestId'', JStr (ia_request_id p)),
                              (''action'', JStr (answer_action_text action)),
                              (''method'', JStr (method_text (ia_method p)))])\<rparr>"

definition interaction_warnings :: "interaction_payload \<Rightarrow> turn_warning list" where
  "interaction_warnings p =
     (if ia_status p = ExpiredStatus then [expired_warning p] else []) @
     (case Option.bind (ia_answer p) ans_action of
        Some Decline \<Rightarrow> [declined_warning p Decline]
      | Some CancelAnswer \<Rightarrow> [declined_warning p CancelAnswer]
      | _ \<Rightarrow> [])"

definition apply_interaction :: "turn_fold \<Rightarrow> interaction_payload \<Rightarrow> turn_fold" where
  "apply_interaction f p =
     (if ia_status p = Pending then f\<lparr>fo_pending := set_add (ia_request_id p) (fo_pending f)\<rparr>
      else f\<lparr>fo_pending := set_delete (ia_request_id p) (fo_pending f),
             fo_stream_warnings := fo_stream_warnings f @ interaction_warnings p\<rparr>)"

section \<open>The fold\<close>

text \<open>The de-duplicating pass: replayed envelopes are skipped, then the first of each identity wins.\<close>

fun unique_from :: "(string \<times> seq) list \<Rightarrow> envelope list \<Rightarrow> envelope list" where
  "unique_from seen [] = []"
| "unique_from seen (e # es) =
     (if env_replay e then unique_from seen es
      else if (env_worker e, env_seq e) \<in> set seen then unique_from seen es
      else e # unique_from ((env_worker e, env_seq e) # seen) es)"

definition ordered_envelopes :: "envelope list \<Rightarrow> envelope list" where
  "ordered_envelopes es = sort_key env_seq (unique_from [] es)"

definition note_mine :: "turn_fold \<Rightarrow> envelope \<Rightarrow> turn_fold" where
  "note_mine f e =
     f\<lparr>fo_start_seq := or_else (fo_start_seq f) (Some (env_seq e)),
       fo_worker := or_else (fo_worker f) (Some (env_worker e))\<rparr>"

definition is_restart :: "event_body \<Rightarrow> worker_state_payload option" where
  "is_restart b =
     (case b of WorkerStateEv p \<Rightarrow>
        if ws_state p = Starting \<and> ws_reason p = Restart then Some p else None
      | _ \<Rightarrow> None)"

definition is_closed :: "event_body \<Rightarrow> worker_state_payload option" where
  "is_closed b =
     (case b of WorkerStateEv p \<Rightarrow> if ws_state p = Closed then Some p else None | _ \<Rightarrow> None)"

definition end_by_close :: "turn_fold \<Rightarrow> envelope \<Rightarrow> wire_error \<Rightarrow> turn_fold" where
  "end_by_close f e err =
     f\<lparr>fo_terminal := Some ByClose, fo_end_seq := Some (env_seq e), fo_stop_reason := None,
       fo_error := or_else (fo_error f) (Some err)\<rparr>"

definition apply_body :: "turn_fold \<Rightarrow> envelope \<Rightarrow> turn_fold" where
  "apply_body f e =
     (case env_body e of
        SessionUpdate payload \<Rightarrow> apply_session_update f (env_seq e) payload
      | PolicyDecision p \<Rightarrow> apply_decision f (env_ts e) p
      | ErrorEv b \<Rightarrow> f\<lparr>fo_error := Some (wire_error_of b)\<rparr>
      | Interaction p \<Rightarrow> apply_interaction f p
      | _ \<Rightarrow> f)"

text \<open>
  One round of the loop. The flag is \<open>break\<close>; a \<open>continue\<close> returns the state with the flag off.
  A restart or a close by another worker, or before the turn started, is skipped.
\<close>

definition fold_step :: "string \<Rightarrow> turn_fold \<Rightarrow> envelope \<Rightarrow> turn_fold \<times> bool" where
  "fold_step t f0 e =
     (let mine = (env_turn e = Some t);
          f = (if mine then note_mine f0 e else f0);
          skip = (fo_start_seq f = None \<or> (fo_worker f \<noteq> None \<and> fo_worker f \<noteq> Some (env_worker e)))
      in case is_restart (env_body e) of
           Some p \<Rightarrow> if skip then (f, False) else (end_by_close f e (restart_error p), True)
         | None \<Rightarrow>
          (case is_closed (env_body e) of
             Some p \<Rightarrow>
               if skip then (f, False)
               else ((end_by_close f e (close_error p))
                       \<lparr>fo_worker := or_else (fo_worker f) (Some (env_worker e))\<rparr>, True)
           | None \<Rightarrow>
               if \<not> mine then (f, False)
               else (let g = apply_body f e in (g, fo_terminal g = Some ByIdle))))"

fun fold_loop :: "string \<Rightarrow> turn_fold \<Rightarrow> envelope list \<Rightarrow> turn_fold" where
  "fold_loop t f [] = f"
| "fold_loop t f (e # es) =
     (let (g, stop) = fold_step t f e in if stop then g else fold_loop t g es)"

definition fold_turn :: "string \<Rightarrow> envelope list \<Rightarrow> turn_fold" where
  "fold_turn t es = fold_loop t fold_start (ordered_envelopes es)"

section \<open>Materializing\<close>

definition read_diff_block :: "json \<Rightarrow> file_change option" where
  "read_diff_block d =
     (let v1 = js_record (obj_field (fld d ''_meta'') ''omni/v1Diff'') in
      case js_arr (fld d ''changes'') of
        Some changes \<Rightarrow>
         (let first = js_record (case changes of [] \<Rightarrow> None | c # _ \<Rightarrow> Some c) in
          case (first, Option.bind first (\<lambda>r. js_str (fld r ''path'')), v1) of
            (Some fst_change, Some path, Some old) \<Rightarrow>
             (case js_str (fld old ''newText'') of
                None \<Rightarrow> None
              | Some new_text \<Rightarrow>
                  Some \<lparr>fc_path = path,
                        fc_operation = option_or
                          (if js_str (fld old ''oldText'') = None then ''add'' else ''modify'')
                          (js_str (fld fst_change ''operation'')),
                        fc_old_text = js_str (fld old ''oldText''), fc_new_text = new_text,
                        fc_fragment = (fld old ''fragment'' = Some (JBool True))\<rparr>)
          | _ \<Rightarrow> None)
      | None \<Rightarrow>
         (case (js_str (fld d ''path''), js_str (fld d ''newText'')) of
            (Some path, Some new_text) \<Rightarrow>
              Some \<lparr>fc_path = path,
                    fc_operation = option_or
                      (if js_str (fld d ''oldText'') = None then ''add'' else ''modify'')
                      (js_str (fld d ''operation'')),
                    fc_old_text = js_str (fld d ''oldText''), fc_new_text = new_text,
                    fc_fragment = (fld d ''fragment'' = Some (JBool True))\<rparr>
          | _ \<Rightarrow> None))"

text \<open>
  The extraction of file changes. An item is cast, never checked, so \<open>item.type\<close> on a \<open>null\<close> item
  raises a \<open>TypeError\<close>: the value \<open>None\<close>.
\<close>

fun changes_of_items :: "json list \<Rightarrow> file_change list option" where
  "changes_of_items [] = Some []"
| "changes_of_items (item # items) =
     (if item = JNull then None
      else map_option
             (\<lambda>cs. (if fld item ''type'' = Some (JStr ''diff'')
                    then (case read_diff_block item of None \<Rightarrow> [] | Some c \<Rightarrow> [c])
                    else []) @ cs)
             (changes_of_items items))"

definition denied_warning :: "string \<Rightarrow> turn_warning" where
  "denied_warning i =
     \<lparr>tw_code = ''tool_denied'', tw_message = ''tool call '' @ i @ '' was denied by policy'',
      tw_source = WPolicy, tw_detail = Some (JObj [(''toolCallId'', JStr i)])\<rparr>"

definition failed_warning :: "string \<Rightarrow> turn_warning" where
  "failed_warning i =
     \<lparr>tw_code = ''tool_failed'', tw_message = ''tool call '' @ i @ '' ended with status failed'',
      tw_source = WToolStatus, tw_detail = Some (JObj [(''toolCallId'', JStr i)])\<rparr>"

definition fold_calls :: "turn_fold \<Rightarrow> tool_call list" where
  "fold_calls f = List.map_filter (fo_calls f) (fo_order f)"

definition failed_calls :: "turn_fold \<Rightarrow> string list" where
  "failed_calls f = map tc_id (filter (\<lambda>c. tc_status c = Some ''failed'') (fold_calls f))"

definition stranded_calls :: "turn_fold \<Rightarrow> string list" where
  "stranded_calls f =
     (if fo_terminal f = None then []
      else map tc_id (filter (\<lambda>c. case tc_status c of None \<Rightarrow> True
                                | Some s \<Rightarrow> \<not> terminal_tool_status s) (fold_calls f)))"

definition verdict_of :: "turn_fold \<Rightarrow> turn_verdict" where
  "verdict_of f =
     (if fo_error f \<noteq> None then VFailed
      else if failed_calls f \<noteq> [] \<or> fo_denied f \<noteq> [] \<or> stranded_calls f \<noteq> [] \<or> fo_pending f \<noteq> []
      then VPartial else VOk)"

definition materialize :: "string \<Rightarrow> turn_fold \<Rightarrow> turn_result option" where
  "materialize t f =
     map_option
       (\<lambda>changes.
         \<lparr>tr_turn_id = t, tr_worker_id = option_or ''w_unknown'' (fo_worker f),
          tr_stop_reason = fo_stop_reason f, tr_text = fo_text f, tr_tool_calls = fold_calls f,
          tr_changes = changes, tr_patch = Option.bind (fo_patch f) fst,
          tr_patch_info = map_option snd (fo_patch f), tr_vendor_patch = fo_vendor_patch f,
          tr_usage = fo_usage f, tr_tokens = fo_tokens f, tr_interactions = fo_interactions f,
          tr_verdict = verdict_of f,
          tr_warnings = fo_stream_warnings f @
            unpoliced_tool_calls (fo_alert f) (fold_calls f) (fo_interactions f) @
            map denied_warning (fo_denied f) @ map failed_warning (failed_calls f),
          tr_failed = failed_calls f, tr_denied = fo_denied f, tr_stranded = stranded_calls f,
          tr_pending = fo_pending f, tr_error = fo_error f\<rparr>)
       (changes_of_items (List.maps tc_content (fold_calls f)))"

definition reduce_turn :: "string \<Rightarrow> envelope list \<Rightarrow> turn_result option" where
  "reduce_turn t es = materialize t (fold_turn t es)"

definition turn_status_of :: "string \<Rightarrow> envelope list \<Rightarrow> turn_status option" where
  "turn_status_of t es =
     (let f = fold_turn t es in
      case fo_start_seq f of
        None \<Rightarrow> Some \<lparr>st_turn_id = t, st_state = TsUnknown, st_start_seq = None, st_end_seq = None,
                      st_stop_reason = None, st_result = None\<rparr>
      | Some start \<Rightarrow>
          map_option
            (\<lambda>r. \<lparr>st_turn_id = t,
                   st_state = (if fo_terminal f = None then TsRunning
                               else if tr_error r = None then TsCompleted else TsFailed),
                   st_start_seq = Some start, st_end_seq = fo_end_seq f,
                   st_stop_reason = tr_stop_reason r, st_result = Some r\<rparr>)
            (materialize t f))"

end
