(* ===== verification/TurnSpec.thy ===== *)
theory TurnSpec
  imports TurnFold
begin

text \<open>
  What the fold of \<open>turn.ts\<close> computes, stated without its loop: the span of a turn is the stretch of
  the ordered log from its first envelope to the one that ends it, and each field of the aggregate is
  a function of that span. The lemmas lift one round of the loop to the span.
\<close>

section \<open>The span of a turn\<close>

fun upto_first :: "('a \<Rightarrow> bool) \<Rightarrow> 'a list \<Rightarrow> 'a list" where
  "upto_first P [] = []"
| "upto_first P (x # xs) = (if P x then [x] else x # upto_first P xs)"

definition idle_body :: "event_body \<Rightarrow> bool" where
  "idle_body b =
     (case b of SessionUpdate p \<Rightarrow>
        js_str (fld p ''sessionUpdate'') = Some ''state_update'' \<and>
        fld p ''state'' = Some (JStr ''idle'')
      | _ \<Rightarrow> False)"

definition shuts_down :: "event_body \<Rightarrow> bool" where
  "shuts_down b \<longleftrightarrow> is_restart b \<noteq> None \<or> is_closed b \<noteq> None"

definition turn_ends :: "string \<Rightarrow> string \<Rightarrow> envelope \<Rightarrow> bool" where
  "turn_ends t w e \<longleftrightarrow>
     (shuts_down (env_body e) \<and> env_worker e = w) \<or>
     (env_turn e = Some t \<and> idle_body (env_body e))"

definition turn_span :: "string \<Rightarrow> envelope list \<Rightarrow> envelope list" where
  "turn_span t es =
     (case dropWhile (\<lambda>e. env_turn e \<noteq> Some t) (ordered_envelopes es) of
        [] \<Rightarrow> []
      | e # rest \<Rightarrow> upto_first (turn_ends t (env_worker e)) (e # rest))"

text \<open>The bodies of the span that are folded into the aggregate, with their times.\<close>

definition own_bodies :: "string \<Rightarrow> envelope list \<Rightarrow> (event_body \<times> ms) list" where
  "own_bodies t xs = map (\<lambda>e. (env_body e, env_ts e)) (filter (\<lambda>e. env_turn e = Some t) xs)"

fun text_of_body :: "event_body \<Rightarrow> string" where
  "text_of_body (SessionUpdate p) =
     (if js_str (fld p ''sessionUpdate'') = Some ''agent_message_chunk''
      then option_or '''' (chunk_text p) else '''')"
| "text_of_body _ = ''''"

fun row_of_body :: "event_body \<times> ms \<Rightarrow> interaction_record list" where
  "row_of_body (PolicyDecision p, ts) = [interaction_row p ts]"
| "row_of_body _ = []"

fun denied_of_body :: "event_body \<Rightarrow> string list" where
  "denied_of_body (PolicyDecision p) = (case denied_call p of None \<Rightarrow> [] | Some i \<Rightarrow> [i])"
| "denied_of_body _ = []"

fun interaction_of_body :: "event_body \<Rightarrow> interaction_payload list" where
  "interaction_of_body (Interaction p) = [p]"
| "interaction_of_body _ = []"

definition still_pending :: "string \<Rightarrow> interaction_payload list \<Rightarrow> bool" where
  "still_pending r ps =
     (case filter (\<lambda>p. ia_request_id p = r) ps of
        [] \<Rightarrow> False
      | q # qs \<Rightarrow> ia_status (last (q # qs)) = Pending)"

section \<open>One round\<close>

text \<open>What a started, unfinished turn of worker \<open>w\<close> does with an envelope.\<close>

definition absorb :: "string \<Rightarrow> string \<Rightarrow> turn_fold \<Rightarrow> envelope \<Rightarrow> turn_fold" where
  "absorb t w f e =
     (case is_restart (env_body e) of
        Some p \<Rightarrow> if env_worker e = w then end_by_close f e (restart_error p) else f
      | None \<Rightarrow>
         (case is_closed (env_body e) of
            Some p \<Rightarrow> if env_worker e = w then end_by_close f e (close_error p) else f
          | None \<Rightarrow> if env_turn e = Some t then apply_body f e else f))"

definition live_fold :: "string \<Rightarrow> turn_fold \<Rightarrow> bool" where
  "live_fold w f \<longleftrightarrow>
     fo_worker f = Some w \<and> fo_start_seq f \<noteq> None \<and> fo_terminal f = None"

lemma is_restart_Some: "is_restart b = Some p \<Longrightarrow> b = WorkerStateEv p"
  by (cases b) (auto simp: is_restart_def split: if_splits)

lemma is_closed_Some: "is_closed b = Some p \<Longrightarrow> b = WorkerStateEv p"
  by (cases b) (auto simp: is_closed_def split: if_splits)

lemma or_else_None_iff [simp]: "or_else a b = None \<longleftrightarrow> a = None \<and> b = None"
  by (cases a) auto

lemma or_else_same [simp]: "a \<noteq> None \<Longrightarrow> or_else a b = a"
  by (cases a) auto

lemma or_else_None_right [simp]: "or_else a None = a"
  by (cases a) auto

lemma or_else_assoc [simp]: "or_else (or_else a b) c = or_else a (or_else b c)"
  by (cases a) auto

lemma apply_idle_meta_fields [simp]:
  "fo_worker (apply_idle_meta f m) = fo_worker f"
  "fo_start_seq (apply_idle_meta f m) = fo_start_seq f"
  "fo_end_seq (apply_idle_meta f m) = fo_end_seq f"
  "fo_terminal (apply_idle_meta f m) = fo_terminal f"
  "fo_stop_reason (apply_idle_meta f m) = fo_stop_reason f"
  "fo_text (apply_idle_meta f m) = fo_text f"
  "fo_interactions (apply_idle_meta f m) = fo_interactions f"
  "fo_denied (apply_idle_meta f m) = fo_denied f"
  "fo_pending (apply_idle_meta f m) = fo_pending f"
  "fo_error (apply_idle_meta f m) = fo_error f"
  "fo_calls (apply_idle_meta f m) = fo_calls f"
  "fo_order (apply_idle_meta f m) = fo_order f"
  by (auto simp: apply_idle_meta_def Let_def)

lemma apply_idle_fields [simp]:
  "fo_worker (apply_idle f s p) = fo_worker f"
  "fo_start_seq (apply_idle f s p) = fo_start_seq f"
  "fo_end_seq (apply_idle f s p) = Some s"
  "fo_terminal (apply_idle f s p) = Some ByIdle"
  "fo_stop_reason (apply_idle f s p) = js_str (fld p ''stopReason'')"
  "fo_text (apply_idle f s p) = fo_text f"
  "fo_interactions (apply_idle f s p) = fo_interactions f"
  "fo_denied (apply_idle f s p) = fo_denied f"
  "fo_pending (apply_idle f s p) = fo_pending f"
  "fo_error (apply_idle f s p) = fo_error f"
  "fo_calls (apply_idle f s p) = fo_calls f"
  "fo_order (apply_idle f s p) = fo_order f"
  by (auto simp: apply_idle_def Let_def split: option.splits)

lemma upsert_fields [simp]:
  "fo_worker (upsert_tool_call f p) = fo_worker f"
  "fo_start_seq (upsert_tool_call f p) = fo_start_seq f"
  "fo_end_seq (upsert_tool_call f p) = fo_end_seq f"
  "fo_terminal (upsert_tool_call f p) = fo_terminal f"
  "fo_stop_reason (upsert_tool_call f p) = fo_stop_reason f"
  "fo_text (upsert_tool_call f p) = fo_text f"
  "fo_interactions (upsert_tool_call f p) = fo_interactions f"
  "fo_denied (upsert_tool_call f p) = fo_denied f"
  "fo_pending (upsert_tool_call f p) = fo_pending f"
  "fo_error (upsert_tool_call f p) = fo_error f"
  by (auto simp: upsert_tool_call_def split: option.splits)

text \<open>What one own body does to each field.\<close>

lemma session_update_fields [simp]:
  "fo_worker (apply_session_update f s p) = fo_worker f"
  "fo_start_seq (apply_session_update f s p) = fo_start_seq f"
  "fo_interactions (apply_session_update f s p) = fo_interactions f"
  "fo_denied (apply_session_update f s p) = fo_denied f"
  "fo_pending (apply_session_update f s p) = fo_pending f"
  "fo_error (apply_session_update f s p) = fo_error f"
  by (auto simp: apply_session_update_def Let_def split: option.splits)

lemma session_update_text:
  "fo_text (apply_session_update f s p) = fo_text f @ text_of_body (SessionUpdate p)"
  by (auto simp: apply_session_update_def Let_def split: option.splits)

lemma session_update_terminal:
  "fo_terminal (apply_session_update f s p) =
     (if idle_body (SessionUpdate p) then Some ByIdle else fo_terminal f)"
  "fo_end_seq (apply_session_update f s p) =
     (if idle_body (SessionUpdate p) then Some s else fo_end_seq f)"
  by (auto simp: apply_session_update_def Let_def idle_body_def split: option.splits)

lemma decision_fields [simp]:
  "fo_worker (apply_decision f ts p) = fo_worker f"
  "fo_start_seq (apply_decision f ts p) = fo_start_seq f"
  "fo_end_seq (apply_decision f ts p) = fo_end_seq f"
  "fo_terminal (apply_decision f ts p) = fo_terminal f"
  "fo_text (apply_decision f ts p) = fo_text f"
  "fo_interactions (apply_decision f ts p) = fo_interactions f @ [interaction_row p ts]"
  "fo_pending (apply_decision f ts p) = fo_pending f"
  "fo_error (apply_decision f ts p) = fo_error f"
  "fo_calls (apply_decision f ts p) = fo_calls f"
  "fo_order (apply_decision f ts p) = fo_order f"
  by (auto simp: apply_decision_def)

lemma interaction_fields [simp]:
  "fo_worker (apply_interaction f q) = fo_worker f"
  "fo_start_seq (apply_interaction f q) = fo_start_seq f"
  "fo_end_seq (apply_interaction f q) = fo_end_seq f"
  "fo_terminal (apply_interaction f q) = fo_terminal f"
  "fo_text (apply_interaction f q) = fo_text f"
  "fo_interactions (apply_interaction f q) = fo_interactions f"
  "fo_denied (apply_interaction f q) = fo_denied f"
  "fo_error (apply_interaction f q) = fo_error f"
  "fo_calls (apply_interaction f q) = fo_calls f"
  "fo_order (apply_interaction f q) = fo_order f"
  by (auto simp: apply_interaction_def)

lemma end_by_close_fields [simp]:
  "fo_worker (end_by_close f e err) = fo_worker f"
  "fo_start_seq (end_by_close f e err) = fo_start_seq f"
  "fo_end_seq (end_by_close f e err) = Some (env_seq e)"
  "fo_terminal (end_by_close f e err) = Some ByClose"
  "fo_text (end_by_close f e err) = fo_text f"
  "fo_interactions (end_by_close f e err) = fo_interactions f"
  "fo_denied (end_by_close f e err) = fo_denied f"
  "fo_pending (end_by_close f e err) = fo_pending f"
  "fo_calls (end_by_close f e err) = fo_calls f"
  "fo_order (end_by_close f e err) = fo_order f"
  "fo_error (end_by_close f e err) = or_else (fo_error f) (Some err)"
  by (auto simp: end_by_close_def)

lemma apply_body_same [simp]:
  "fo_worker (apply_body f e) = fo_worker f"
  "fo_start_seq (apply_body f e) = fo_start_seq f"
  by (auto simp: apply_body_def split: event_body.splits)

lemma apply_body_terminal:
  "fo_terminal (apply_body f e) =
     (if idle_body (env_body e) then Some ByIdle else fo_terminal f)"
  by (cases "env_body e") (auto simp: apply_body_def session_update_terminal idle_body_def)

lemma note_mine_same: "live_fold w f \<Longrightarrow> note_mine f e = f"
  by (auto simp: live_fold_def note_mine_def)

lemma idle_body_state_event [simp]: "\<not> idle_body (WorkerStateEv p)"
  by (simp add: idle_body_def)

lemma shuts_down_not_idle: "shuts_down b \<Longrightarrow> \<not> idle_body b"
  by (cases b) (auto simp: shuts_down_def is_restart_def is_closed_def idle_body_def)

lemma fold_step_live:
  assumes "live_fold w f"
  shows "fold_step t f e = (absorb t w f e, turn_ends t w e)"
proof -
  have noted: "note_mine f e = f" using note_mine_same [OF assms] .
  have started: "fo_start_seq f \<noteq> None" and own: "fo_worker f = Some w"
    using assms by (simp_all add: live_fold_def)
  have worker: "(end_by_close f e err)\<lparr>fo_worker := or_else (fo_worker f) x\<rparr> = end_by_close f e err"
    for err x using own by (simp add: end_by_close_def)
  consider (restart) p where "is_restart (env_body e) = Some p"
    | (shut) p where "is_restart (env_body e) = None" "is_closed (env_body e) = Some p"
    | (other) "is_restart (env_body e) = None" "is_closed (env_body e) = None"
    by (cases "is_restart (env_body e)"; cases "is_closed (env_body e)") auto
  then show ?thesis
  proof cases
    case restart
    then have "shuts_down (env_body e)" by (simp add: shuts_down_def)
    with restart show ?thesis
      using shuts_down_not_idle [of "env_body e"]
      by (simp add: fold_step_def noted started own absorb_def turn_ends_def)
  next
    case shut
    then have "shuts_down (env_body e)" by (simp add: shuts_down_def)
    with shut show ?thesis
      using shuts_down_not_idle [of "env_body e"]
      by (simp add: fold_step_def noted started own worker absorb_def turn_ends_def)
  next
    case other
    then have "\<not> shuts_down (env_body e)" by (simp add: shuts_down_def)
    moreover have "fo_terminal f = None" using assms by (simp add: live_fold_def)
    ultimately show ?thesis
      using other
      by (simp add: fold_step_def noted absorb_def turn_ends_def apply_body_terminal Let_def)
  qed
qed

lemma absorb_keeps [simp]:
  "fo_worker (absorb t w f e) = fo_worker f"
  "fo_start_seq (absorb t w f e) = fo_start_seq f"
  by (auto simp: absorb_def split: option.splits)

lemma absorb_terminal:
  "fo_terminal f = None \<Longrightarrow> fo_terminal (absorb t w f e) = None \<longleftrightarrow> \<not> turn_ends t w e"
  by (auto simp: absorb_def turn_ends_def shuts_down_def apply_body_terminal
      dest!: is_restart_Some is_closed_Some split: option.splits)

lemma fold_loop_live:
  "live_fold w f \<Longrightarrow> fold_loop t f xs = foldl (absorb t w) f (upto_first (turn_ends t w) xs)"
proof (induction xs arbitrary: f)
  case Nil
  then show ?case by simp
next
  case (Cons e xs)
  show ?case
  proof (cases "turn_ends t w e")
    case True
    then show ?thesis using fold_step_live [OF Cons.prems] by simp
  next
    case False
    then have "live_fold w (absorb t w f e)"
      using Cons.prems by (simp add: live_fold_def absorb_terminal)
    from Cons.IH [OF this] show ?thesis
      using False fold_step_live [OF Cons.prems] by simp
  qed
qed

section \<open>From the first envelope of the turn\<close>

lemma fold_loop_before_start:
  assumes "env_turn e \<noteq> Some t"
  shows "fold_loop t fold_start (e # es) = fold_loop t fold_start es"
proof -
  have "fo_start_seq fold_start = None" by (simp add: fold_start_def)
  with assms show ?thesis by (simp add: fold_step_def Let_def split: option.split)
qed

lemma note_mine_start:
  "fo_start_seq (note_mine fold_start e) = Some (env_seq e)"
  "fo_worker (note_mine fold_start e) = Some (env_worker e)"
  "live_fold (env_worker e) (note_mine fold_start e)"
  by (simp_all add: note_mine_def fold_start_def live_fold_def)

lemma fold_step_first:
  "env_turn e = Some t \<Longrightarrow> fold_step t fold_start e = fold_step t (note_mine fold_start e) e"
  by (simp add: fold_step_def note_mine_same [OF note_mine_start(3)])

lemma fold_loop_first:
  assumes "env_turn e = Some t"
  shows "fold_loop t fold_start (e # es) =
    foldl (absorb t (env_worker e)) (note_mine fold_start e)
      (upto_first (turn_ends t (env_worker e)) (e # es))"
  using fold_step_first [OF assms] fold_loop_live [OF note_mine_start(3), of t e "e # es"] by simp

lemma fold_loop_span:
  "fold_loop t fold_start xs =
     (case dropWhile (\<lambda>e. env_turn e \<noteq> Some t) xs of
        [] \<Rightarrow> fold_start
      | e # rest \<Rightarrow> foldl (absorb t (env_worker e)) (note_mine fold_start e)
                     (upto_first (turn_ends t (env_worker e)) (e # rest)))"
proof (induction xs)
  case Nil
  then show ?case by simp
next
  case (Cons e xs)
  then show ?case
    by (cases "env_turn e = Some t")
       (simp_all del: fold_loop.simps upto_first.simps
         add: fold_loop_first fold_loop_before_start)
qed

lemma upto_first_not_Nil [simp]: "upto_first P (x # xs) \<noteq> []"
  by simp

lemma hd_upto_first [simp]: "hd (upto_first P (x # xs)) = x"
  by simp

lemma fold_turn_span:
  "fold_turn t es =
     (case turn_span t es of
        [] \<Rightarrow> fold_start
      | e # _ \<Rightarrow> foldl (absorb t (env_worker e)) (note_mine fold_start e) (turn_span t es))"
proof (cases "dropWhile (\<lambda>e. env_turn e \<noteq> Some t) (ordered_envelopes es)")
  case Nil
  then show ?thesis
    by (simp add: fold_turn_def fold_loop_span turn_span_def del: dropWhile_eq_Nil_conv)
next
  case (Cons e rest)
  obtain r where "upto_first (turn_ends t (env_worker e)) (e # rest) = e # r"
    by (cases "turn_ends t (env_worker e) e") auto
  with Cons show ?thesis
    by (simp del: upto_first.simps add: fold_turn_def fold_loop_span turn_span_def)
qed

section \<open>Fields that only grow\<close>

lemma foldl_append_field:
  assumes "\<And>s x. field (step s x) = field s @ grow x"
  shows "field (foldl step s xs) = field s @ concat (map grow xs)"
  by (induction xs arbitrary: s) (simp_all add: assms)

lemma own_bodies_Cons:
  "own_bodies t (e # es) =
     (if env_turn e = Some t then [(env_body e, env_ts e)] else []) @ own_bodies t es"
  by (simp add: own_bodies_def)

lemma concat_own_bodies:
  "concat (map (\<lambda>e. if env_turn e = Some t then g (env_body e, env_ts e) else []) es) =
     concat (map g (own_bodies t es))"
  by (induction es) (simp_all add: own_bodies_Cons own_bodies_def)

lemma apply_body_text: "fo_text (apply_body f e) = fo_text f @ text_of_body (env_body e)"
  by (cases "env_body e") (simp_all add: apply_body_def session_update_text)

lemma apply_body_rows:
  "fo_interactions (apply_body f e) = fo_interactions f @ row_of_body (env_body e, env_ts e)"
  by (cases "env_body e") (simp_all add: apply_body_def)

lemma apply_body_denied:
  "fo_denied (apply_body f e) = foldl (\<lambda>d i. set_add i d) (fo_denied f) (denied_of_body (env_body e))"
  by (cases "env_body e") (auto simp: apply_body_def apply_decision_def split: option.split)

text \<open>The step of a state-changing body, whatever it is, on the fields a shutdown leaves alone.\<close>

lemma absorb_text:
  "fo_text (absorb t w f e) =
     fo_text f @ (if env_turn e = Some t then text_of_body (env_body e) else [])"
  by (auto simp: absorb_def apply_body_text dest!: is_restart_Some is_closed_Some
      split: option.splits)

lemma absorb_rows:
  "fo_interactions (absorb t w f e) =
     fo_interactions f @ (if env_turn e = Some t then row_of_body (env_body e, env_ts e) else [])"
  by (auto simp: absorb_def apply_body_rows dest!: is_restart_Some is_closed_Some
      split: option.splits)

lemma absorb_denied:
  "fo_denied (absorb t w f e) =
     foldl (\<lambda>d i. set_add i d) (fo_denied f)
       (if env_turn e = Some t then denied_of_body (env_body e) else [])"
  by (auto simp: absorb_def apply_body_denied dest!: is_restart_Some is_closed_Some
      split: option.splits)

lemma span_text:
  "fo_text (foldl (absorb t w) f xs) =
     fo_text f @ concat (map (\<lambda>b. text_of_body (fst b)) (own_bodies t xs))"
  using foldl_append_field [of fo_text "absorb t w", OF absorb_text]
    concat_own_bodies [of t "\<lambda>b. text_of_body (fst b)" xs] by (simp cong: if_cong)

lemma span_rows:
  "fo_interactions (foldl (absorb t w) f xs) =
     fo_interactions f @ concat (map row_of_body (own_bodies t xs))"
  using foldl_append_field [of fo_interactions "absorb t w", OF absorb_rows]
    concat_own_bodies [of t row_of_body xs] by simp

lemma span_denied:
  "fo_denied (foldl (absorb t w) f xs) =
     foldl (\<lambda>d i. set_add i d) (fo_denied f)
       (concat (map (\<lambda>b. denied_of_body (fst b)) (own_bodies t xs)))"
  by (induction xs arbitrary: f) (simp_all add: own_bodies_Cons own_bodies_def absorb_denied)

lemma set_foldl_set_add: "set (foldl (\<lambda>d i. set_add i d) ds is) = set ds \<union> set is"
  by (induction "is" arbitrary: ds) auto

lemma distinct_foldl_set_add: "distinct (foldl (\<lambda>d i. set_add i d) ds is) = distinct ds"
  by (induction "is" arbitrary: ds) auto

section \<open>The pending set\<close>

lemma still_pending_snoc:
  "still_pending r (ps @ [p]) =
     (if ia_request_id p = r then ia_status p = Pending else still_pending r ps)"
  by (cases "filter (\<lambda>p. ia_request_id p = r) ps") (auto simp: still_pending_def)

lemma absorb_pending:
  "set (fo_pending (absorb t w f e)) =
     (case (if env_turn e = Some t then interaction_of_body (env_body e) else []) of
        [] \<Rightarrow> set (fo_pending f)
      | p # _ \<Rightarrow> (if ia_status p = Pending then insert (ia_request_id p) (set (fo_pending f))
                 else set (fo_pending f) - {ia_request_id p}))"
  by (cases "env_body e")
     (auto simp: absorb_def apply_body_def apply_interaction_def is_restart_def is_closed_def)

lemma span_pending:
  assumes "fo_pending f = []"
  shows "r \<in> set (fo_pending (foldl (absorb t w) f xs)) \<longleftrightarrow>
    still_pending r (concat (map (\<lambda>b. interaction_of_body (fst b)) (own_bodies t xs)))"
proof (induction xs rule: rev_induct)
  case Nil
  then show ?case using assms by (simp add: own_bodies_def still_pending_def)
next
  case (snoc e xs)
  let ?b = "if env_turn e = Some t then interaction_of_body (env_body e) else []"
  have "concat (map (\<lambda>b. interaction_of_body (fst b)) (own_bodies t (xs @ [e]))) =
      concat (map (\<lambda>b. interaction_of_body (fst b)) (own_bodies t xs)) @ ?b"
    by (simp add: own_bodies_def)
  moreover have "?b = [] \<or> (\<exists>p. ?b = [p])" by (cases "env_body e") auto
  ultimately show ?case using snoc.IH
    by (auto simp: absorb_pending still_pending_snoc simp del: if_split split: if_splits)
qed

section \<open>Terminality\<close>

lemma last_upto_first:
  "x \<in> set (upto_first P xs) \<Longrightarrow> P x \<Longrightarrow> x = last (upto_first P xs)"
  by (induction xs) (auto split: if_splits)

lemma upto_first_snoc:
  "upto_first P xs = xs \<and> (\<forall>x\<in>set xs. \<not> P x) \<or>
   (\<exists>ys y zs. xs = ys @ y # zs \<and> upto_first P xs = ys @ [y] \<and> P y \<and> (\<forall>x\<in>set ys. \<not> P x))"
proof (induction xs)
  case Nil
  then show ?case by simp
next
  case (Cons x xs)
  show ?case
  proof (cases "P x")
    case True
    then show ?thesis by (intro disjI2 exI [of _ "[]"] exI [of _ x] exI [of _ xs]) simp
  next
    case False
    with Cons.IH show ?thesis
    proof (elim disjE exE conjE)
      fix ys y zs
      assume "xs = ys @ y # zs" "upto_first P xs = ys @ [y]" "P y" "\<forall>x\<in>set ys. \<not> P x"
      with False show ?thesis
        by (intro disjI2 exI [of _ "x # ys"] exI [of _ y] exI [of _ zs]) simp
    qed simp
  qed
qed

lemma live_foldl:
  "live_fold w f \<Longrightarrow> \<forall>x\<in>set xs. \<not> turn_ends t w x \<Longrightarrow> live_fold w (foldl (absorb t w) f xs)"
  by (induction xs arbitrary: f) (simp_all add: live_fold_def absorb_terminal)

lemma span_terminal:
  assumes "live_fold w f"
  shows "fo_terminal (foldl (absorb t w) f (upto_first (turn_ends t w) xs)) = None \<longleftrightarrow>
    (\<forall>x\<in>set xs. \<not> turn_ends t w x)"
  using upto_first_snoc [of "turn_ends t w" xs]
proof (elim disjE exE conjE)
  assume "upto_first (turn_ends t w) xs = xs" "\<forall>x\<in>set xs. \<not> turn_ends t w x"
  then show ?thesis using live_foldl [OF assms] by (simp add: live_fold_def)
next
  fix ys y zs
  assume "xs = ys @ y # zs" "upto_first (turn_ends t w) xs = ys @ [y]" "turn_ends t w y"
    "\<forall>x\<in>set ys. \<not> turn_ends t w x"
  then show ?thesis using live_foldl [OF assms, of ys t]
    by (simp add: live_fold_def absorb_terminal)
qed

section \<open>Tool calls\<close>

text \<open>The tool-call updates of a span: the call and the status the update carries, if any.\<close>

fun update_of_body :: "event_body \<Rightarrow> (string \<times> string option) list" where
  "update_of_body (SessionUpdate p) =
     (if js_str (fld p ''sessionUpdate'') = Some ''tool_call'' \<or>
         js_str (fld p ''sessionUpdate'') = Some ''tool_call_update''
      then (case js_str (fld p ''toolCallId'') of None \<Rightarrow> []
            | Some i \<Rightarrow> [(i, js_str (fld p ''status''))])
      else [])"
| "update_of_body _ = []"

definition call_updates :: "string \<Rightarrow> envelope list \<Rightarrow> (string \<times> string option) list" where
  "call_updates t xs = concat (map (\<lambda>b. update_of_body (fst b)) (own_bodies t xs))"

definition last_status :: "string \<Rightarrow> (string \<times> string option) list \<Rightarrow> string option" where
  "last_status i us = foldl (\<lambda>st u. if fst u = i then or_else (snd u) st else st) None us"

definition calls_ok :: "turn_fold \<Rightarrow> bool" where
  "calls_ok f \<longleftrightarrow> distinct (fo_order f) \<and> (\<forall>i\<in>set (fo_order f). \<exists>c. fo_calls f i = Some c) \<and>
     (\<forall>i c. fo_calls f i = Some c \<longrightarrow> tc_id c = i \<and> i \<in> set (fo_order f))"

definition status_in :: "turn_fold \<Rightarrow> string \<Rightarrow> string option" where
  "status_in f i = Option.bind (fo_calls f i) tc_status"

fun tool_payload :: "event_body \<Rightarrow> json option" where
  "tool_payload (SessionUpdate p) =
     (if js_str (fld p ''sessionUpdate'') = Some ''tool_call'' \<or>
         js_str (fld p ''sessionUpdate'') = Some ''tool_call_update''
      then Some p else None)"
| "tool_payload _ = None"

lemma merge_fields [simp]:
  "tc_id (merge_tool_call p c) = tc_id c"
  "tc_status (merge_tool_call p c) = or_else (js_str (fld p ''status'')) (tc_status c)"
  "tc_id (new_tool_call i) = i" "tc_status (new_tool_call i) = None"
  by (simp_all add: merge_tool_call_def new_tool_call_def)

lemma session_update_calls:
  "fo_order (apply_session_update f s p) =
     (case tool_payload (SessionUpdate p) of None \<Rightarrow> fo_order f
      | Some q \<Rightarrow> fo_order (upsert_tool_call f q))"
  "fo_calls (apply_session_update f s p) =
     (case tool_payload (SessionUpdate p) of None \<Rightarrow> fo_calls f
      | Some q \<Rightarrow> fo_calls (upsert_tool_call f q))"
  by (auto simp: apply_session_update_def Let_def split: option.split)

text \<open>An envelope changes the tool calls exactly when it is a tool-call update of the turn.\<close>

lemma absorb_calls:
  "fo_order (absorb t w f e) =
     (case (if env_turn e = Some t then tool_payload (env_body e) else None) of
        None \<Rightarrow> fo_order f | Some q \<Rightarrow> fo_order (upsert_tool_call f q))"
  "fo_calls (absorb t w f e) =
     (case (if env_turn e = Some t then tool_payload (env_body e) else None) of
        None \<Rightarrow> fo_calls f | Some q \<Rightarrow> fo_calls (upsert_tool_call f q))"
  by (cases "env_body e";
      simp add: absorb_def apply_body_def is_restart_def is_closed_def session_update_calls)+

lemma update_of_tool_payload:
  "update_of_body b =
     (case tool_payload b of None \<Rightarrow> []
      | Some p \<Rightarrow> (case js_str (fld p ''toolCallId'') of None \<Rightarrow> []
                  | Some i \<Rightarrow> [(i, js_str (fld p ''status''))]))"
  by (cases b) auto

lemma calls_ok_upsert:
  assumes "calls_ok f"
  shows "calls_ok (upsert_tool_call f p)"
proof (cases "js_str (fld p ''toolCallId'')")
  case None
  with assms show ?thesis by (simp add: upsert_tool_call_def)
next
  case (Some i)
  with assms show ?thesis
    by (cases "fo_calls f i") (auto simp: upsert_tool_call_def calls_ok_def)
qed

lemma calls_ok_absorb:
  assumes "calls_ok f"
  shows "calls_ok (absorb t w f e)"
proof (cases "if env_turn e = Some t then tool_payload (env_body e) else None")
  case None
  with assms show ?thesis by (simp add: calls_ok_def absorb_calls)
next
  case (Some q)
  with calls_ok_upsert [OF assms, of q] show ?thesis by (simp add: calls_ok_def absorb_calls)
qed

lemma calls_ok_known: "calls_ok f \<Longrightarrow> fo_calls f i = Some c \<Longrightarrow> i \<in> set (fo_order f)"
  by (simp add: calls_ok_def)

lemma calls_ok_unknown: "calls_ok f \<Longrightarrow> fo_calls f i = None \<Longrightarrow> i \<notin> set (fo_order f)"
  by (auto simp: calls_ok_def)

lemma order_upsert:
  "calls_ok f \<Longrightarrow> fo_order (upsert_tool_call f p) =
     foldl (\<lambda>d u. set_add (fst u) d) (fo_order f)
       (case js_str (fld p ''toolCallId'') of None \<Rightarrow> [] | Some i \<Rightarrow> [(i, js_str (fld p ''status''))])"
  by (auto simp: upsert_tool_call_def set_add_def split: option.split
      dest: calls_ok_known calls_ok_unknown)

lemma status_upsert:
  "status_in (upsert_tool_call f p) i =
     foldl (\<lambda>st u. if fst u = i then or_else (snd u) st else st) (status_in f i)
       (case js_str (fld p ''toolCallId'') of None \<Rightarrow> [] | Some i \<Rightarrow> [(i, js_str (fld p ''status''))])"
  by (auto simp: upsert_tool_call_def status_in_def split: option.split)

lemma absorb_order:
  "calls_ok f \<Longrightarrow> fo_order (absorb t w f e) =
     foldl (\<lambda>d u. set_add (fst u) d) (fo_order f)
       (if env_turn e = Some t then update_of_body (env_body e) else [])"
  by (auto simp: absorb_calls order_upsert update_of_tool_payload split: option.split)

lemma absorb_status:
  "status_in (absorb t w f e) i =
     foldl (\<lambda>st u. if fst u = i then or_else (snd u) st else st) (status_in f i)
       (if env_turn e = Some t then update_of_body (env_body e) else [])"
proof (cases "if env_turn e = Some t then tool_payload (env_body e) else None")
  case None
  then show ?thesis
    by (auto simp: status_in_def absorb_calls update_of_tool_payload split: if_splits)
next
  case (Some q)
  then have "status_in (absorb t w f e) i = status_in (upsert_tool_call f q) i"
    by (simp add: status_in_def absorb_calls)
  with Some show ?thesis
    by (auto simp: status_upsert update_of_tool_payload split: if_splits)
qed

lemma call_updates_Cons:
  "call_updates t (e # es) =
     (if env_turn e = Some t then update_of_body (env_body e) else []) @ call_updates t es"
  by (simp add: call_updates_def own_bodies_def)

lemma span_calls:
  assumes "calls_ok f"
  shows "calls_ok (foldl (absorb t w) f xs) \<and>
    fo_order (foldl (absorb t w) f xs) =
      foldl (\<lambda>d u. set_add (fst u) d) (fo_order f) (call_updates t xs)"
  using assms
  by (induction xs arbitrary: f)
     (simp_all add: call_updates_Cons absorb_order calls_ok_absorb,
      simp add: call_updates_def own_bodies_def)

lemma span_status:
  "status_in (foldl (absorb t w) f xs) i =
     foldl (\<lambda>st u. if fst u = i then or_else (snd u) st else st) (status_in f i) (call_updates t xs)"
  by (induction xs arbitrary: f)
     (simp_all add: call_updates_Cons absorb_status,
      simp add: call_updates_def own_bodies_def)

lemma set_order_foldl:
  "set (foldl (\<lambda>d u. set_add (fst u) d) ds us) = set ds \<union> fst ` set us"
  by (induction us arbitrary: ds) auto

lemma fold_calls_ids:
  assumes "calls_ok f"
  shows "map tc_id (fold_calls f) = fo_order f"
proof -
  have known: "\<exists>c. fo_calls f i = Some c \<and> tc_id c = i" if "i \<in> set (fo_order f)" for i
    using assms that unfolding calls_ok_def by blast
  have "set ids \<subseteq> set (fo_order f) \<Longrightarrow> map tc_id (List.map_filter (fo_calls f) ids) = ids" for ids
  proof (induction ids)
    case Nil
    then show ?case by (simp add: map_filter_simps)
  next
    case (Cons i ids)
    then obtain c where "fo_calls f i = Some c" "tc_id c = i" using known [of i] by auto
    with Cons show ?case by (simp add: map_filter_simps)
  qed
  then show ?thesis by (simp add: fold_calls_def)
qed

lemma fold_calls_set:
  assumes "calls_ok f"
  shows "c \<in> set (fold_calls f) \<longleftrightarrow> fo_calls f (tc_id c) = Some c"
proof
  assume "c \<in> set (fold_calls f)"
  then obtain i where "fo_calls f i = Some c" by (auto simp: fold_calls_def map_filter_def)
  moreover from this assms have "tc_id c = i" unfolding calls_ok_def by blast
  ultimately show "fo_calls f (tc_id c) = Some c" by simp
next
  assume c: "fo_calls f (tc_id c) = Some c"
  with assms have "tc_id c \<in> set (fo_order f)" by (rule calls_ok_known)
  with c show "c \<in> set (fold_calls f)" by (force simp: fold_calls_def map_filter_def)
qed

end
