(* ===== verification/TurnClaims.thy ===== *)
theory TurnClaims
  imports TurnSpec "HOL-Library.Multiset"
begin

text \<open>
  The properties of the turn aggregate: it depends only on the set of envelopes, a finished turn is
  final, its fields are the declarative functions of \<open>TurnSpec\<close>, and what its verdict promises.
\<close>

section \<open>Identity and order\<close>

definition ident :: "envelope \<Rightarrow> string \<times> seq" where
  "ident e = (env_worker e, env_seq e)"

definition live_set :: "envelope list \<Rightarrow> envelope set" where
  "live_set es = {e \<in> set es. \<not> env_replay e}"

lemma unique_from_subset:
  "set (unique_from seen es) \<subseteq> live_set es"
  by (induction es arbitrary: seen) (auto simp: live_set_def)

lemma unique_from_distinct:
  "distinct (map ident (unique_from seen es)) \<and>
   ident ` set (unique_from seen es) \<inter> set seen = {}"
proof (induction es arbitrary: seen)
  case Nil
  then show ?case by simp
next
  case (Cons e es)
  show ?case using Cons.IH [of seen] Cons.IH [of "ident e # seen"] by (auto simp: ident_def)
qed

lemma unique_from_complete:
  assumes "inj_on ident (live_set es)"
  shows "set (unique_from seen es) = {e \<in> live_set es. ident e \<notin> set seen}"
  using assms
proof (induction es arbitrary: seen)
  case Nil
  then show ?case by (simp add: live_set_def)
next
  case (Cons e es)
  have inj: "inj_on ident (live_set es)"
    by (rule inj_on_subset [OF Cons.prems]) (auto simp: live_set_def)
  have same: "x = e" if "x \<in> live_set es" "\<not> env_replay e" "ident x = ident e" for x
    using inj_onD [OF Cons.prems that(3)] that by (auto simp: live_set_def)
  have "live_set (e # es) = (if env_replay e then {} else {e}) \<union> live_set es"
    by (auto simp: live_set_def)
  then show ?case
    using Cons.IH [OF inj, of seen] Cons.IH [OF inj, of "ident e # seen"] same
    by (auto simp: ident_def)
qed

lemma sorted_key_unique:
  fixes f :: "'a \<Rightarrow> 'b::linorder"
  assumes "sorted (map f xs)" "distinct (map f xs)" "sorted (map f ys)" "distinct (map f ys)"
    and "set xs = set ys"
  shows "xs = ys"
proof (rule map_inj_on [of f])
  show "map f xs = map f ys"
    using assms by (intro sorted_distinct_set_unique) auto
  show "inj_on f (set xs \<union> set ys)" using assms by (simp add: distinct_map)
qed

text \<open>The ordered log of one worker depends only on the set of its envelopes.\<close>

definition own_log :: "string \<Rightarrow> envelope list \<Rightarrow> envelope list" where
  "own_log w es = filter (\<lambda>e. env_worker e = w) (ordered_envelopes es)"

lemma own_log_sorted: "sorted (map env_seq (own_log w es))"
  by (simp add: own_log_def ordered_envelopes_def sorted_filter)

lemma own_log_distinct: "distinct (map env_seq (own_log w es))"
proof -
  have "distinct (map ident (ordered_envelopes es))"
    using unique_from_distinct [of "[]" es] by (simp add: ordered_envelopes_def distinct_map)
  then have inj: "inj_on ident (set (ordered_envelopes es))" and "distinct (ordered_envelopes es)"
    by (auto simp: distinct_map)
  then show ?thesis
    by (auto simp: own_log_def distinct_map inj_on_def ident_def)
qed

lemma own_log_set:
  "inj_on ident (live_set es) \<Longrightarrow> set (own_log w es) = {e \<in> live_set es. env_worker e = w}"
  by (auto simp: own_log_def ordered_envelopes_def unique_from_complete)

lemma own_log_unique:
  assumes "inj_on ident (live_set es)" "live_set es = live_set fs"
  shows "own_log w es = own_log w fs"
  using assms
  by (intro sorted_key_unique [of env_seq] own_log_sorted own_log_distinct) (simp add: own_log_set)

section \<open>Other workers' envelopes\<close>

lemma dropWhile_filter:
  "\<forall>x\<in>set xs. \<not> Q x \<longrightarrow> P x \<Longrightarrow> dropWhile Q (filter P xs) = filter P (dropWhile Q xs)"
  by (induction xs) auto

lemma upto_first_filter:
  "\<forall>x\<in>set xs. Q x \<longrightarrow> P x \<Longrightarrow> upto_first Q (filter P xs) = filter P (upto_first Q xs)"
  by (induction xs) auto

lemma set_upto_first: "set (upto_first P xs) \<subseteq> set xs"
  by (induction xs) auto

lemma absorb_foreign: "env_worker e \<noteq> w \<Longrightarrow> env_turn e \<noteq> Some t \<Longrightarrow> absorb t w f e = f"
  by (simp add: absorb_def split: option.split)

lemma foldl_absorb_filter:
  "\<forall>e\<in>set xs. env_turn e = Some t \<longrightarrow> env_worker e = w \<Longrightarrow>
     foldl (absorb t w) f (filter (\<lambda>e. env_worker e = w) xs) = foldl (absorb t w) f xs"
  by (induction xs arbitrary: f) (auto simp: absorb_foreign)

lemma fold_loop_own:
  assumes "\<forall>e\<in>set xs. env_turn e = Some t \<longrightarrow> env_worker e = w"
  shows "fold_loop t fold_start (filter (\<lambda>e. env_worker e = w) xs) = fold_loop t fold_start xs"
proof -
  let ?own = "\<lambda>e. env_worker e = w" and ?pre = "\<lambda>e. env_turn e \<noteq> Some t"
  have drop: "dropWhile ?pre (filter ?own xs) = filter ?own (dropWhile ?pre xs)"
    using assms by (intro dropWhile_filter) auto
  show ?thesis
  proof (cases "dropWhile ?pre xs")
    case Nil
    then show ?thesis by (simp add: fold_loop_span drop del: dropWhile_eq_Nil_conv)
  next
    case (Cons e rest)
    have "e \<in> set xs" and rest: "set (e # rest) \<subseteq> set xs"
      using Cons set_dropWhileD [of _ ?pre xs] by auto
    moreover have "env_turn e = Some t" using Cons by (auto simp: dropWhile_eq_Cons_conv)
    ultimately have w: "env_worker e = w" using assms by blast
    have "\<forall>x\<in>set (e # rest). turn_ends t w x \<longrightarrow> ?own x"
      using rest assms by (auto simp: turn_ends_def)
    then have "upto_first (turn_ends t w) (filter ?own (e # rest)) =
        filter ?own (upto_first (turn_ends t w) (e # rest))"
      by (rule upto_first_filter)
    then have span: "upto_first (turn_ends t w) (e # filter ?own rest) =
        filter ?own (upto_first (turn_ends t w) (e # rest))"
      using w by (simp del: upto_first.simps)
    have "\<forall>x\<in>set (upto_first (turn_ends t w) (e # rest)).
        env_turn x = Some t \<longrightarrow> env_worker x = w"
    proof
      fix x assume "x \<in> set (upto_first (turn_ends t w) (e # rest))"
      then have "x \<in> set xs" using set_upto_first [of "turn_ends t w" "e # rest"] rest by blast
      with assms show "env_turn x = Some t \<longrightarrow> env_worker x = w" by blast
    qed
    note same = foldl_absorb_filter [OF this]
    have "dropWhile ?pre (filter ?own xs) = e # filter ?own rest" using drop Cons w by simp
    then show ?thesis
      by (simp only: fold_loop_span Cons list.case w span same)
  qed
qed

lemma fold_turn_own:
  assumes "\<forall>e\<in>live_set es. env_turn e = Some t \<longrightarrow> env_worker e = w"
  shows "fold_turn t es = fold_loop t fold_start (own_log w es)"
  unfolding fold_turn_def own_log_def
proof (rule fold_loop_own [symmetric])
  show "\<forall>e\<in>set (ordered_envelopes es). env_turn e = Some t \<longrightarrow> env_worker e = w"
    using unique_from_subset [of "[]" es] assms by (auto simp: ordered_envelopes_def)
qed

text \<open>
  C5: The daemon's \<open>GET /turns/{id}\<close> and the client's \<open>prompt()\<close> cannot disagree: two buffers holding
  the same live envelopes, however re-delivered, interleaved with replays or ordered, give the same
  aggregate and the same status.
\<close>

theorem same_envelopes_same_turn:
  assumes "live_set es = live_set fs"
    and "inj_on ident (live_set es)"
    and "\<forall>e\<in>live_set es. env_turn e = Some t \<longrightarrow> env_worker e = w"
  shows "reduce_turn t es = reduce_turn t fs \<and> turn_status_of t es = turn_status_of t fs"
proof -
  have "own_log w es = own_log w fs" using assms(2,1) by (rule own_log_unique)
  moreover have "\<forall>e\<in>live_set fs. env_turn e = Some t \<longrightarrow> env_worker e = w"
    using assms(1,3) by simp
  ultimately have "fold_turn t es = fold_turn t fs"
    using fold_turn_own [OF assms(3)] fold_turn_own [of fs t w] by simp
  then show ?thesis by (simp add: reduce_turn_def turn_status_of_def)
qed

definition sample_envelope :: "seq \<Rightarrow> bool \<Rightarrow> string option \<Rightarrow> event_body \<Rightarrow> envelope" where
  "sample_envelope s replay turn body =
     \<lparr>env_body = body, env_version = 2, env_turn = turn, env_replay = replay, env_seq = s,
      env_ts = 0, env_daemon = ''d'', env_worker = ''w'', env_session = None\<rparr>"

definition sample_update :: "(string \<times> json) list \<Rightarrow> event_body" where
  "sample_update ps = SessionUpdate (JObj ps)"

definition sample_chunk :: "string \<Rightarrow> event_body" where
  "sample_chunk s = sample_update [(''sessionUpdate'', JStr ''agent_message_chunk''),
     (''content'', JObj [(''type'', JStr ''text''), (''text'', JStr s)])]"

definition sample_idle :: event_body where
  "sample_idle = sample_update [(''sessionUpdate'', JStr ''state_update''),
     (''state'', JStr ''idle''), (''stopReason'', JStr ''end_turn'')]"

theorem same_envelopes_same_turn_witness:
  "reduce_turn ''t''
     [sample_envelope 3 False (Some ''t'') sample_idle,
      sample_envelope 1 False (Some ''t'') (sample_chunk ''a''),
      sample_envelope 2 True (Some ''t'') (sample_chunk ''old''),
      sample_envelope 1 False (Some ''t'') (sample_chunk ''a'')] =
   reduce_turn ''t''
     [sample_envelope 1 False (Some ''t'') (sample_chunk ''a''),
      sample_envelope 3 False (Some ''t'') sample_idle]"
  by (rule same_envelopes_same_turn [of _ _ "''t''" "''w''", THEN conjunct1])
     (auto simp: live_set_def ident_def inj_on_def sample_envelope_def)

section \<open>A finished turn is final\<close>

lemma unique_from_append:
  assumes "\<forall>x\<in>set es. \<forall>y\<in>set fs. env_seq x < env_seq y"
    and "\<forall>i\<in>set seen. \<forall>y\<in>set fs. snd i < env_seq y"
  shows "unique_from seen (es @ fs) = unique_from seen es @ unique_from [] fs"
  using assms
proof (induction es arbitrary: seen)
  case Nil
  have "unique_from (s1 @ seen) fs = unique_from s1 fs" for s1
    using Nil.prems(2) by (induction fs arbitrary: s1) (fastforce simp flip: append_Cons)+
  from this [of "[]"] show ?case by simp
qed auto

lemma sort_key_append:
  fixes f :: "'a \<Rightarrow> 'b::linorder"
  assumes "\<forall>x\<in>set xs. \<forall>y\<in>set ys. f x < f y"
  shows "sort_key f (xs @ ys) = sort_key f xs @ sort_key f ys"
proof (rule properties_for_sort_key)
  show "filter (\<lambda>x. f k = f x) (sort_key f xs @ sort_key f ys) = filter (\<lambda>x. f k = f x) (xs @ ys)"
    for k using sort_key_stable [of f "f k"] by (simp add: eq_commute [of "f k"])
qed (use assms in \<open>auto simp: sorted_append less_imp_le\<close>)

lemma upto_first_append:
  "\<exists>x\<in>set xs. P x \<Longrightarrow> upto_first P (xs @ ys) = upto_first P xs"
  by (induction xs) auto

lemma fold_loop_append:
  assumes "fo_terminal (fold_loop t fold_start xs) \<noteq> None"
  shows "fold_loop t fold_start (xs @ ys) = fold_loop t fold_start xs"
proof (cases "dropWhile (\<lambda>e. env_turn e \<noteq> Some t) xs")
  case Nil
  then have "fo_terminal (fold_loop t fold_start xs) = None"
    by (simp add: fold_loop_span fold_start_def [THEN arg_cong, of fo_terminal]
        del: dropWhile_eq_Nil_conv)
  with assms show ?thesis by simp
next
  case (Cons e rest)
  then have app: "dropWhile (\<lambda>e. env_turn e \<noteq> Some t) (xs @ ys) = (e # rest) @ ys"
    by (metis dropWhile_append3 dropWhile_eq_Cons_conv dropWhile_append1 hd_dropWhile list.sel(1)
        set_dropWhileD list.set_intros(1) list.distinct(1))
  have "\<exists>x\<in>set (e # rest). turn_ends t (env_worker e) x"
    using assms Cons span_terminal [OF note_mine_start(3), where e1 = e and t = t and xs = "e # rest"]
    by (auto simp del: upto_first.simps simp: fold_loop_span)
  from upto_first_append [OF this, of ys] show ?thesis
    using Cons app by (simp del: upto_first.simps add: fold_loop_span)
qed

text \<open>
  C30: Once a turn has ended, in the log or by its worker's close or restart, nothing that happens
  later changes what the daemon and the client report of it.
\<close>

theorem finished_turn_is_final:
  assumes "turn_status_of t es = Some s" "st_state s \<in> {TsCompleted, TsFailed}"
    and "\<forall>x\<in>set es. \<forall>y\<in>set later. env_seq x < env_seq y"
  shows "turn_status_of t (es @ later) = Some s \<and>
    reduce_turn t (es @ later) = reduce_turn t es"
proof -
  have "unique_from [] (es @ later) = unique_from [] es @ unique_from [] later"
    using assms(3) by (intro unique_from_append) auto
  moreover have "\<forall>x\<in>set (unique_from [] es). \<forall>y\<in>set (unique_from [] later). env_seq x < env_seq y"
    using assms(3) unique_from_subset by (force simp: live_set_def)
  ultimately have "ordered_envelopes (es @ later) = ordered_envelopes es @ ordered_envelopes later"
    by (simp add: ordered_envelopes_def sort_key_append)
  moreover have "fo_terminal (fold_turn t es) \<noteq> None"
    using assms(1,2) by (auto simp: turn_status_of_def Let_def split: option.splits if_splits)
  ultimately have "fold_turn t (es @ later) = fold_turn t es"
    by (simp add: fold_turn_def fold_loop_append)
  with assms(1) show ?thesis by (simp add: turn_status_of_def reduce_turn_def)
qed

definition sample_tool :: "string \<Rightarrow> string \<Rightarrow> json list \<Rightarrow> event_body" where
  "sample_tool i status content = sample_update [(''sessionUpdate'', JStr ''tool_call_update''),
     (''toolCallId'', JStr i), (''status'', JStr status), (''content'', JArr content)]"

definition sample_turn :: "envelope list" where
  "sample_turn = [sample_envelope 1 False (Some ''t'') (sample_chunk ''a''),
     sample_envelope 2 False (Some ''t'') (sample_tool ''c'' ''completed'' []),
     sample_envelope 3 False (Some ''t'') sample_idle]"

lemmas sample_defs = sample_turn_def sample_envelope_def sample_update_def sample_chunk_def
  sample_idle_def sample_tool_def

lemma sample_turn_status:
  "case turn_status_of ''t'' sample_turn of None \<Rightarrow> False
   | Some s \<Rightarrow> st_state s = TsCompleted \<and> st_result s = reduce_turn ''t'' sample_turn \<and>
       map_option tr_verdict (st_result s) = Some VOk"
  by code_simp

lemma sample_turn_reduces: "\<exists>r. reduce_turn ''t'' sample_turn = Some r \<and> tr_verdict r = VOk"
  using sample_turn_status
  by (cases "reduce_turn ''t'' sample_turn") (auto split: option.splits)

theorem finished_turn_is_final_witness:
  "reduce_turn ''t'' (sample_turn @ [sample_envelope 4 False (Some ''t'') (sample_chunk ''late'')]) =
   reduce_turn ''t'' sample_turn"
proof -
  obtain s where s: "turn_status_of ''t'' sample_turn = Some s" "st_state s = TsCompleted"
    using sample_turn_status by (cases "turn_status_of ''t'' sample_turn") auto
  have "\<forall>x\<in>set sample_turn.
      \<forall>y\<in>set [sample_envelope 4 False (Some ''t'') (sample_chunk ''late'')]. env_seq x < env_seq y"
    by (simp add: sample_turn_def sample_envelope_def)
  then show ?thesis using finished_turn_is_final [OF s(1)] s(2) by simp
qed

section \<open>The aggregate\<close>

lemma reduce_turn_Some:
  assumes "reduce_turn t es = Some r"
  shows "tr_text r = fo_text (fold_turn t es)"
    and "tr_interactions r = fo_interactions (fold_turn t es)"
    and "tr_denied r = fo_denied (fold_turn t es)"
    and "tr_pending r = fo_pending (fold_turn t es)"
    and "tr_tool_calls r = fold_calls (fold_turn t es)"
    and "tr_failed r = failed_calls (fold_turn t es)"
    and "tr_stranded r = stranded_calls (fold_turn t es)"
    and "tr_verdict r = verdict_of (fold_turn t es)"
    and "tr_error r = fo_error (fold_turn t es)"
    and "tr_stop_reason r = fo_stop_reason (fold_turn t es)"
  using assms by (auto simp: reduce_turn_def materialize_def)

lemma fold_start_fields [simp]:
  "fo_text (note_mine fold_start e) = ''''" "fo_interactions (note_mine fold_start e) = []"
  "fo_denied (note_mine fold_start e) = []" "fo_pending (note_mine fold_start e) = []"
  "fo_order (note_mine fold_start e) = []" "fo_calls (note_mine fold_start e) = Map.empty"
  "fo_terminal (note_mine fold_start e) = None" "fo_error (note_mine fold_start e) = None"
  "fo_text fold_start = ''''" "fo_interactions fold_start = []"
  "fo_denied fold_start = []" "fo_pending fold_start = []"
  "fo_order fold_start = []" "fo_calls fold_start = Map.empty"
  "fo_terminal fold_start = None" "fo_error fold_start = None" "fo_start_seq fold_start = None"
  by (simp_all add: note_mine_def fold_start_def)

lemma own_bodies_Nil [simp]: "own_bodies t [] = []" "call_updates t [] = []"
  by (simp_all add: own_bodies_def call_updates_def)

text \<open>
  C31: The aggregate is the declarative reading of the turn's span: the text is the concatenation of
  its message chunks, the interactions its policy decisions in order, the denied calls those of its
  permission denials, each once, and an interaction is pending when its last record says so.
\<close>

theorem aggregate_reads_span:
  assumes "reduce_turn t es = Some r" and "bs = own_bodies t (turn_span t es)"
  shows "tr_text r = concat (map (\<lambda>b. text_of_body (fst b)) bs) \<and>
    tr_interactions r = concat (map row_of_body bs) \<and>
    tr_denied r = foldl (\<lambda>d i. set_add i d) [] (concat (map (\<lambda>b. denied_of_body (fst b)) bs)) \<and>
    set (tr_pending r) =
      {i. still_pending i (concat (map (\<lambda>b. interaction_of_body (fst b)) bs))}"
proof (cases "turn_span t es")
  case Nil
  then have "fold_turn t es = fold_start" by (simp add: fold_turn_span)
  then show ?thesis using assms(2) Nil
    by (simp add: reduce_turn_Some [OF assms(1)] still_pending_def)
next
  case (Cons e rest)
  then have f: "fold_turn t es =
      foldl (absorb t (env_worker e)) (note_mine fold_start e) (turn_span t es)"
    by (simp add: fold_turn_span)
  show ?thesis
    by (simp add: reduce_turn_Some [OF assms(1)] f assms(2) span_text span_rows span_denied
        set_eq_iff span_pending)
qed

theorem aggregate_reads_span_witness:
  "\<exists>r. reduce_turn ''t'' sample_turn = Some r \<and> tr_text r = ''a'' \<and> tr_pending r = []"
proof -
  obtain r where r: "reduce_turn ''t'' sample_turn = Some r"
    using sample_turn_reduces by blast
  have "concat (map (\<lambda>b. text_of_body (fst b)) (own_bodies ''t'' (turn_span ''t'' sample_turn))) = ''a''"
    by code_simp
  moreover have "concat (map (\<lambda>b. interaction_of_body (fst b))
      (own_bodies ''t'' (turn_span ''t'' sample_turn))) = []"
    by code_simp
  moreover have "still_pending i [] = False" for i by (simp add: still_pending_def)
  ultimately show ?thesis
    using aggregate_reads_span [OF r refl] r by (simp del: concat_eq_Nil_conv)
qed

lemma fold_turn_calls:
  "calls_ok (fold_turn t es) \<and>
   fo_order (fold_turn t es) =
     foldl (\<lambda>d u. set_add (fst u) d) [] (call_updates t (turn_span t es)) \<and>
   status_in (fold_turn t es) i = last_status i (call_updates t (turn_span t es))"
proof (cases "turn_span t es")
  case Nil
  then show ?thesis
    by (simp add: fold_turn_span calls_ok_def status_in_def last_status_def)
next
  case (Cons e rest)
  then have f: "fold_turn t es =
      foldl (absorb t (env_worker e)) (note_mine fold_start e) (turn_span t es)"
    by (simp add: fold_turn_span)
  have "calls_ok (note_mine fold_start e)" by (simp add: calls_ok_def)
  from span_calls [OF this, of t "env_worker e" "turn_span t es"]
  have "calls_ok (fold_turn t es) \<and> fo_order (fold_turn t es) =
      foldl (\<lambda>d u. set_add (fst u) d) [] (call_updates t (turn_span t es))"
    by (simp add: f)
  moreover have "status_in (note_mine fold_start e) i = None" by (simp add: status_in_def)
  ultimately show ?thesis by (simp add: f span_status last_status_def)
qed

lemma ex_upto_first: "(\<exists>x\<in>set (upto_first P xs). P x) \<longleftrightarrow> (\<exists>x\<in>set xs. P x)"
  by (induction xs) auto

lemma fold_turn_terminal:
  "fo_terminal (fold_turn t es) \<noteq> None \<longleftrightarrow>
     (case turn_span t es of [] \<Rightarrow> False
      | e # _ \<Rightarrow> \<exists>x\<in>set (turn_span t es). turn_ends t (env_worker e) x)"
proof (cases "dropWhile (\<lambda>e. env_turn e \<noteq> Some t) (ordered_envelopes es)")
  case Nil
  then have "turn_span t es = []" by (simp add: turn_span_def del: dropWhile_eq_Nil_conv)
  then show ?thesis by (simp add: fold_turn_span)
next
  case (Cons e rest)
  let ?P = "turn_ends t (env_worker e)"
  have span: "turn_span t es = upto_first ?P (e # rest)" using Cons by (simp add: turn_span_def)
  obtain r where r: "upto_first ?P (e # rest) = e # r" by (cases "?P e") auto
  show ?thesis
    using ex_upto_first [of ?P "e # rest"] span_terminal [OF note_mine_start(3), of t e "e # rest"] r
    by (simp del: upto_first.simps add: fold_turn_span span)
qed

text \<open>A call of the aggregate is a call of the fold, with the status last reported for it.\<close>

lemma fold_calls_status:
  "calls_ok f \<Longrightarrow> c \<in> set (fold_calls f) \<Longrightarrow> tc_status c = status_in f (tc_id c)"
  by (simp add: fold_calls_set status_in_def)

lemma ids_of_calls:
  assumes "calls_ok f"
  shows "tc_id ` {c \<in> set (fold_calls f). P (tc_status c)} =
    {i \<in> set (fo_order f). P (status_in f i)}"
proof -
  have "set (fo_order f) = tc_id ` set (fold_calls f)"
    using fold_calls_ids [OF assms] by (metis set_map)
  then show ?thesis using fold_calls_status [OF assms] by auto
qed

text \<open>
  The outcome lists of the aggregate are decided by the last status reported for each call: it
  names each tool call of the span once, in the order of first mention, failed are those last
  reported failed, and a running turn strands nothing while an ended one strands exactly the calls
  whose last status is neither completed nor failed.
\<close>

theorem tool_call_outcomes:
  assumes "reduce_turn t es = Some r" and "us = call_updates t (turn_span t es)"
  shows "map tc_id (tr_tool_calls r) = foldl (\<lambda>d u. set_add (fst u) d) [] us \<and>
    set (tr_failed r) = {i. last_status i us = Some ''failed''} \<and>
    set (tr_stranded r) =
      (if fo_terminal (fold_turn t es) = None then {}
       else {i \<in> fst ` set us. last_status i us \<notin> {Some ''completed'', Some ''failed''}})"
proof -
  let ?f = "fold_turn t es"
  have ok: "calls_ok ?f" and order: "fo_order ?f = foldl (\<lambda>d u. set_add (fst u) d) [] us"
    and status: "status_in ?f i = last_status i us" for i
    using fold_turn_calls [of t es i] fold_turn_calls [of t es] assms(2) by auto
  have ids: "set (fo_order ?f) = fst ` set us" by (simp add: order set_order_foldl)
  have known: "i \<in> set (fo_order ?f)" if "status_in ?f i = Some s" for i s
    using that calls_ok_known [OF ok] by (auto simp: status_in_def split: Option.bind_splits)
  have failed: "set (failed_calls ?f) = {i \<in> set (fo_order ?f). status_in ?f i = Some ''failed''}"
    using ids_of_calls [OF ok, of "\<lambda>s. s = Some ''failed''"] by (simp add: failed_calls_def)
  have stranded: "set (stranded_calls ?f) = (if fo_terminal ?f = None then {}
      else {i \<in> set (fo_order ?f). status_in ?f i \<notin> {Some ''completed'', Some ''failed''}})"
    using ids_of_calls [OF ok, of "\<lambda>s. case s of None \<Rightarrow> True | Some s \<Rightarrow> \<not> terminal_tool_status s"]
    by (auto simp: stranded_calls_def terminal_tool_status_def split: option.splits)
  have "set (failed_calls ?f) = {i. last_status i us = Some ''failed''}"
    unfolding failed using known status by auto
  moreover have "map tc_id (fold_calls ?f) = foldl (\<lambda>d u. set_add (fst u) d) [] us"
    using fold_calls_ids [OF ok] order by simp
  ultimately show ?thesis
    using stranded ids status by (simp add: reduce_turn_Some [OF assms(1)])
qed

theorem tool_call_outcomes_witness:
  "\<exists>r. reduce_turn ''t'' sample_turn = Some r \<and> set (tr_failed r) = {} \<and>
     map tc_id (tr_tool_calls r) = [''c'']"
proof -
  obtain r where r: "reduce_turn ''t'' sample_turn = Some r" using sample_turn_reduces by blast
  have us: "call_updates ''t'' (turn_span ''t'' sample_turn) = [(''c'', Some ''completed'')]"
    by code_simp
  have "last_status i [(''c'', Some ''completed'')] \<noteq> Some ''failed''" for i
    by (simp add: last_status_def)
  then show ?thesis using tool_call_outcomes [OF r us [symmetric]] r
    by (auto simp: set_add_def)
qed

section \<open>What an ok verdict promises\<close>

definition close_explained :: "turn_fold \<Rightarrow> bool" where
  "close_explained f \<longleftrightarrow> (fo_terminal f = Some ByClose \<longrightarrow> fo_error f \<noteq> None)"

lemma apply_body_error: "fo_error f \<noteq> None \<Longrightarrow> fo_error (apply_body f e) \<noteq> None"
  by (cases "env_body e") (simp_all add: apply_body_def)

lemma close_explained_absorb: "close_explained f \<Longrightarrow> close_explained (absorb t w f e)"
  using apply_body_error [of f e]
  by (auto simp: close_explained_def absorb_def apply_body_terminal simp del: not_None_eq
      split: option.split if_splits)

lemma close_explained_foldl: "close_explained f \<Longrightarrow> close_explained (foldl (absorb t w) f xs)"
  by (induction xs arbitrary: f) (simp_all add: close_explained_absorb)

lemma close_explained_turn: "close_explained (fold_turn t es)"
proof (cases "turn_span t es")
  case Nil
  then show ?thesis by (simp add: fold_turn_span close_explained_def)
next
  case (Cons e rest)
  then have "fold_turn t es =
      foldl (absorb t (env_worker e)) (note_mine fold_start e) (turn_span t es)"
    by (simp add: fold_turn_span)
  moreover have "close_explained (note_mine fold_start e)" by (simp add: close_explained_def)
  ultimately show ?thesis by (simp only: close_explained_foldl)
qed

lemma absorb_by_idle:
  "fo_terminal (absorb t w f e) = Some ByIdle \<Longrightarrow>
     fo_terminal f = Some ByIdle \<or> (env_turn e = Some t \<and> idle_body (env_body e))"
  by (auto simp: absorb_def apply_body_terminal split: option.splits if_splits)

lemma foldl_by_idle:
  "fo_terminal (foldl (absorb t w) f xs) = Some ByIdle \<Longrightarrow>
     fo_terminal f = Some ByIdle \<or> (\<exists>e\<in>set xs. env_turn e = Some t \<and> idle_body (env_body e))"
  by (induction xs arbitrary: f) (auto dest: absorb_by_idle)

lemma set_turn_span: "set (turn_span t es) \<subseteq> live_set es"
proof -
  have "set (turn_span t es) \<subseteq> set (ordered_envelopes es)"
    using set_upto_first set_dropWhileD
    by (fastforce simp: turn_span_def simp del: upto_first.simps split: list.split)
  then show ?thesis using unique_from_subset [of "[]" es] by (auto simp: ordered_envelopes_def)
qed

lemma fold_turn_by_idle:
  assumes "fo_terminal (fold_turn t es) = Some ByIdle"
  shows "\<exists>e\<in>live_set es. env_turn e = Some t \<and> idle_body (env_body e)"
proof (cases "turn_span t es")
  case Nil
  with assms show ?thesis by (simp add: fold_turn_span)
next
  case (Cons e rest)
  then have "fold_turn t es =
      foldl (absorb t (env_worker e)) (note_mine fold_start e) (turn_span t es)"
    by (simp add: fold_turn_span)
  with assms foldl_by_idle [of t "env_worker e" "note_mine fold_start e" "turn_span t es"]
  show ?thesis using set_turn_span [of t es] by auto
qed

text \<open>The rows and the denied calls come from the same policy decisions.\<close>

lemma fold_turn_rows:
  "fo_interactions (fold_turn t es) = concat (map row_of_body (own_bodies t (turn_span t es))) \<and>
   set (fo_denied (fold_turn t es)) =
     set (concat (map (\<lambda>b. denied_of_body (fst b)) (own_bodies t (turn_span t es))))"
proof (cases "turn_span t es")
  case Nil
  then show ?thesis by (simp add: fold_turn_span)
next
  case (Cons e rest)
  then have f: "fold_turn t es =
      foldl (absorb t (env_worker e)) (note_mine fold_start e) (turn_span t es)"
    by (simp add: fold_turn_span)
  show ?thesis by (simp add: f span_rows span_denied set_foldl_set_add)
qed

lemma row_denied:
  assumes "row \<in> set (fo_interactions (fold_turn t es))"
    and "ir_method row = RequestPermission" "ir_decision row = DDeny" "ir_tool_call_id row = Some i"
  shows "i \<in> set (fo_denied (fold_turn t es))"
proof -
  obtain b where b: "b \<in> set (own_bodies t (turn_span t es))" "row \<in> set (row_of_body b)"
    using assms(1) fold_turn_rows [of t es] by auto
  obtain p ts where "b = (PolicyDecision p, ts)" "row = interaction_row p ts"
    using b(2) by (cases b rule: row_of_body.cases) auto
  then have "denied_of_body (fst b) = [i]"
    using assms(2-4) by (simp add: interaction_row_def denied_call_def)
  then show ?thesis using b(1) fold_turn_rows [of t es] by force
qed

text \<open>
  C6: \<open>end_turn\<close> is not success, and the verdict is: when a turn that is over reports \<open>ok\<close>, the agent
  ended it itself, every tool call completed, the daemon denied none of them, and nobody is waited for.
\<close>

theorem ok_turn_is_clean:
  assumes "turn_status_of t es = Some s" "st_state s \<noteq> TsRunning"
    and "st_result s = Some r" "tr_verdict r = VOk"
  shows "st_state s = TsCompleted \<and> tr_pending r = [] \<and>
    (\<forall>c\<in>set (tr_tool_calls r). tc_status c = Some ''completed'') \<and>
    (\<forall>row\<in>set (tr_interactions r). ir_method row = RequestPermission \<and> ir_decision row = DDeny \<longrightarrow>
       ir_tool_call_id row = None) \<and>
    (\<exists>e\<in>live_set es. env_turn e = Some t \<and> idle_body (env_body e))"
proof -
  let ?f = "fold_turn t es"
  from assms(1,3) have r: "reduce_turn t es = Some r"
    by (auto simp: turn_status_of_def reduce_turn_def Let_def split: option.splits)
  from assms(1-3) have ended: "fo_terminal ?f \<noteq> None"
    by (auto simp: turn_status_of_def Let_def split: option.splits if_splits)
  from assms(4) have "verdict_of ?f = VOk" by (simp add: reduce_turn_Some [OF r])
  then have clean: "fo_error ?f = None" "failed_calls ?f = []" "fo_denied ?f = []"
      "stranded_calls ?f = []" "fo_pending ?f = []"
    by (auto simp: verdict_of_def simp del: not_None_eq split: if_splits)
  have "st_state s = TsCompleted"
    using assms(1,3) ended clean(1) r
    by (auto simp: turn_status_of_def Let_def reduce_turn_Some [OF r] reduce_turn_def
        split: option.splits)
  moreover have "tc_status c = Some ''completed''" if "c \<in> set (fold_calls ?f)" for c
    using that clean(2,4) ended
    by (auto simp: failed_calls_def stranded_calls_def filter_empty_conv terminal_tool_status_def
        split: option.splits)
  moreover have "ir_tool_call_id row = None"
    if "row \<in> set (fo_interactions ?f)" "ir_method row = RequestPermission" "ir_decision row = DDeny"
    for row using row_denied [OF that] clean(3) by (cases "ir_tool_call_id row") auto
  moreover have "fo_terminal ?f = Some ByIdle"
    using close_explained_turn [of t es] ended clean(1)
    by (cases "fo_terminal ?f"; cases "the (fo_terminal ?f)") (auto simp: close_explained_def)
  ultimately show ?thesis
    using fold_turn_by_idle [of t es] clean(5) by (simp add: reduce_turn_Some [OF r])
qed

theorem ok_turn_is_clean_witness:
  "\<exists>r. reduce_turn ''t'' sample_turn = Some r \<and> tr_verdict r = VOk \<and>
     (\<forall>c\<in>set (tr_tool_calls r). tc_status c = Some ''completed'')"
proof -
  obtain s r where "turn_status_of ''t'' sample_turn = Some s" "st_state s = TsCompleted"
    "st_result s = Some r" "tr_verdict r = VOk" "reduce_turn ''t'' sample_turn = Some r"
    using sample_turn_status sample_turn_reduces by (auto split: option.splits)
  with ok_turn_is_clean [of "''t''" sample_turn s r] show ?thesis by auto
qed

section \<open>When the aggregate cannot be computed\<close>

lemma changes_of_items_None: "changes_of_items items = None \<longleftrightarrow> JNull \<in> set items"
  by (induction items) auto

text \<open>
  Computing the aggregate raises a \<open>TypeError\<close> exactly when the last content list an agent sent
  for one of the turn's tool calls holds a \<open>null\<close>.
\<close>

theorem aggregate_throws_iff:
  "reduce_turn t es = None \<longleftrightarrow>
     (\<exists>c\<in>set (fold_calls (fold_turn t es)). JNull \<in> set (tc_content c))"
  by (auto simp: reduce_turn_def materialize_def changes_of_items_None)

text \<open>The two instances: one null content item, and the misspelt advisory of a cancelled form.\<close>

lemma null_content_item_throws:
  "reduce_turn ''t'' [sample_envelope 1 False (Some ''t'') (sample_tool ''c'' ''completed'' [JNull])]
     = None"
  by code_simp

lemma cancelled_advisory_is_misspelt:
  "tw_message (declined_warning p CancelAnswer) = ''interaction '' @ ia_request_id p @ '' was canceld''"
  by (simp add: declined_warning_def)

end
