(* ===== verification/Watchdog.thy ===== *)
theory Watchdog
  imports TurnClaims
begin

text \<open>
  The idle watchdog: the pure fold of \<open>core/src/worker/watchdog-state.ts\<close> and the one timer
  \<open>core/src/worker/watchdog.ts\<close> wraps around it. A timer is the instant it is due; the runtime may
  run its callback at any later instant, which is the operation \<open>WdFire\<close>. What \<open>onFire\<close> does is the
  worker's and comes back as further operations, so the calls it receives are recorded as a trace.
\<close>

section \<open>The fold\<close>

datatype watchdog_signal =
    TurnStart ms
  | EnvelopeSeen ms envelope
  | ParkedSignal ms
  | UnparkedSignal ms
  | CancelSent ms
  | TurnEnd ms

datatype budget = SilentBudget | ToolBudget

datatype phase = PhIdle | PhBudget budget | PhCancelling | PhPaused | PhSpent

record watchdog_config =
  wc_enabled :: bool
  wc_silent_ms :: ms
  wc_tool_ms :: ms
  wc_cancel_timeout_ms :: ms

record watchdog_state =
  wd_last_at :: ms
  wd_open :: "string list"
  wd_parked :: bool
  wd_running :: bool
  wd_cancel_sent_at :: "ms option"

record wd_verdict =
  wv_deadline_at :: "ms option"
  wv_budget :: "budget option"
  wv_phase :: phase
  wv_open_calls :: "string list"

definition initial_watchdog_state :: watchdog_state where
  "initial_watchdog_state =
     \<lparr>wd_last_at = 0, wd_open = [], wd_parked = False, wd_running = False, wd_cancel_sent_at = None\<rparr>"

definition budget_ms :: "watchdog_config \<Rightarrow> budget \<Rightarrow> ms" where
  "budget_ms cfg b = (case b of SilentBudget \<Rightarrow> wc_silent_ms cfg | ToolBudget \<Rightarrow> wc_tool_ms cfg)"

definition budget_of :: "watchdog_state \<Rightarrow> budget" where
  "budget_of s = (if wd_open s \<noteq> [] then ToolBudget else SilentBudget)"

definition watchdog_verdict :: "watchdog_state \<Rightarrow> watchdog_config \<Rightarrow> wd_verdict" where
  "watchdog_verdict s cfg =
     (let verdict = (\<lambda>d b p. \<lparr>wv_deadline_at = d, wv_budget = b, wv_phase = p,
                              wv_open_calls = wd_open s\<rparr>) in
      if \<not> wc_enabled cfg \<or> \<not> wd_running s then verdict None None PhIdle
      else if wd_parked s then verdict None None PhPaused
      else case wd_cancel_sent_at s of
             Some sent \<Rightarrow>
               verdict (if wc_cancel_timeout_ms cfg > 0 then Some (sent + wc_cancel_timeout_ms cfg)
                        else None) None PhCancelling
           | None \<Rightarrow>
               (let b = budget_of s in
                if budget_ms cfg b \<le> 0 then verdict None None PhIdle
                else verdict (Some (wd_last_at s + budget_ms cfg b)) (Some b) (PhBudget b)))"

definition apply_tool_call :: "string list \<Rightarrow> json \<Rightarrow> string list" where
  "apply_tool_call open_calls payload =
     (let kind = js_str (fld payload ''sessionUpdate'') in
      if kind \<noteq> Some ''tool_call'' \<and> kind \<noteq> Some ''tool_call_update'' then open_calls
      else case js_str (fld payload ''toolCallId'') of
             None \<Rightarrow> open_calls
           | Some i \<Rightarrow>
               if kind = Some ''tool_call'' then set_add i open_calls
               else (case js_str (fld payload ''status'') of
                       None \<Rightarrow> open_calls
                     | Some status \<Rightarrow>
                         if terminal_tool_status status then set_delete i open_calls
                         else set_add i open_calls))"

definition apply_envelope :: "watchdog_state \<Rightarrow> ms \<Rightarrow> envelope \<Rightarrow> watchdog_state" where
  "apply_envelope s now e =
     (if env_replay e then s
      else s\<lparr>wd_last_at := now,
             wd_open := (case env_body e of
                           SessionUpdate payload \<Rightarrow> apply_tool_call (wd_open s) payload
                         | _ \<Rightarrow> wd_open s)\<rparr>)"

fun watchdog_next :: "watchdog_state \<Rightarrow> watchdog_signal \<Rightarrow> watchdog_state" where
  "watchdog_next s (TurnStart t) =
     \<lparr>wd_last_at = t, wd_open = [], wd_parked = False, wd_running = True, wd_cancel_sent_at = None\<rparr>"
| "watchdog_next s (EnvelopeSeen t e) = apply_envelope s t e"
| "watchdog_next s (ParkedSignal t) = s\<lparr>wd_parked := True\<rparr>"
| "watchdog_next s (UnparkedSignal t) = s\<lparr>wd_parked := False, wd_last_at := t\<rparr>"
| "watchdog_next s (CancelSent t) = s\<lparr>wd_cancel_sent_at := Some t, wd_last_at := t\<rparr>"
| "watchdog_next s (TurnEnd t) =
     \<lparr>wd_last_at = t, wd_open = [], wd_parked = False, wd_running = False, wd_cancel_sent_at = None\<rparr>"

definition watchdog_step ::
  "watchdog_state \<Rightarrow> watchdog_signal \<Rightarrow> watchdog_config \<Rightarrow> watchdog_state \<times> wd_verdict" where
  "watchdog_step s sig cfg = (let n = watchdog_next s sig in (n, watchdog_verdict n cfg))"

section \<open>The timer\<close>

record watchdog =
  wg_config :: watchdog_config
  wg_state :: watchdog_state
  wg_current :: wd_verdict
  wg_timer :: "ms option"
  wg_fired :: "budget option"
  wg_cancel_spent :: bool
  wg_calls :: "(budget \<times> ms) list"

definition create_watchdog :: "watchdog_config \<Rightarrow> watchdog" where
  "create_watchdog cfg =
     \<lparr>wg_config = cfg, wg_state = initial_watchdog_state,
      wg_current = watchdog_verdict initial_watchdog_state cfg, wg_timer = None, wg_fired = None,
      wg_cancel_spent = False, wg_calls = []\<rparr>"

definition spent_verdict :: "wd_verdict \<Rightarrow> budget option \<Rightarrow> wd_verdict" where
  "spent_verdict v b =
     \<lparr>wv_deadline_at = None, wv_budget = b, wv_phase = PhSpent, wv_open_calls = wv_open_calls v\<rparr>"

text \<open>\<open>onDeadline\<close>: the callback, at the instant \<open>now\<close> the clock runs it.\<close>

definition on_deadline :: "ms \<Rightarrow> watchdog \<Rightarrow> watchdog" where
  "on_deadline now w =
     (let w1 = w\<lparr>wg_timer := None\<rparr> in
      case wv_phase (wg_current w) of
        PhBudget b \<Rightarrow>
          w1\<lparr>wg_fired := Some b, wg_current := spent_verdict (wg_current w) (Some b),
             wg_calls := wg_calls w @ [(b, now)]\<rparr>
      | PhCancelling \<Rightarrow>
          w1\<lparr>wg_cancel_spent := True, wg_current := spent_verdict (wg_current w) None\<rparr>
      | _ \<Rightarrow> w1)"

fun budget_phase :: "phase \<Rightarrow> bool" where
  "budget_phase (PhBudget b) = True"
| "budget_phase _ = False"

definition publish :: "ms \<Rightarrow> wd_verdict \<Rightarrow> watchdog \<Rightarrow> watchdog" where
  "publish now v w =
     (let w1 = w\<lparr>wg_timer := None\<rparr> in
      if wg_fired w \<noteq> None \<and> budget_phase (wv_phase v)
      then w1\<lparr>wg_current := spent_verdict v (wg_fired w)\<rparr>
      else if wg_cancel_spent w \<and> wv_phase v = PhCancelling
      then w1\<lparr>wg_current := spent_verdict v None\<rparr>
      else w1\<lparr>wg_current := v, wg_timer := map_option (\<lambda>d. now + max 0 (d - now)) (wv_deadline_at v)\<rparr>)"

fun turn_boundary :: "watchdog_signal \<Rightarrow> bool" where
  "turn_boundary (TurnStart t) = True"
| "turn_boundary (TurnEnd t) = True"
| "turn_boundary _ = False"

definition observe :: "ms \<Rightarrow> watchdog_signal \<Rightarrow> watchdog \<Rightarrow> watchdog" where
  "observe now sig w =
     (let w1 = (if turn_boundary sig then w\<lparr>wg_fired := None, wg_cancel_spent := False\<rparr> else w);
          (s, v) = watchdog_step (wg_state w1) sig (wg_config w1)
      in publish now v (w1\<lparr>wg_state := s\<rparr>))"

definition cancel_watchdog :: "watchdog \<Rightarrow> watchdog" where
  "cancel_watchdog w =
     w\<lparr>wg_timer := None, wg_state := initial_watchdog_state, wg_fired := None,
       wg_cancel_spent := False,
       wg_current := watchdog_verdict initial_watchdog_state (wg_config w)\<rparr>"

text \<open>The clock runs a callback only when a timer is set and due.\<close>

datatype watchdog_op = WdObserve ms watchdog_signal | WdFire ms | WdCancel

fun wd_step :: "watchdog \<Rightarrow> watchdog_op \<Rightarrow> watchdog" where
  "wd_step w (WdObserve now sig) = observe now sig w"
| "wd_step w (WdFire now) =
     (case wg_timer w of None \<Rightarrow> w | Some due \<Rightarrow> if due \<le> now then on_deadline now w else w)"
| "wd_step w WdCancel = cancel_watchdog w"

section \<open>The invariant\<close>

text \<open>
  An armed timer belongs to the verdict of the state as it is; a spent budget leaves nothing armed
  but the backstop of a cancel.
\<close>

definition in_force :: "watchdog \<Rightarrow> bool" where
  "in_force w \<longleftrightarrow>
     (wg_current w = watchdog_verdict (wg_state w) (wg_config w) \<or> wv_phase (wg_current w) = PhSpent)"

definition wd_inv :: "watchdog \<Rightarrow> bool" where
  "wd_inv w \<longleftrightarrow> in_force w \<and>
     (case wg_timer w of
        None \<Rightarrow> True
      | Some due \<Rightarrow>
          wg_current w = watchdog_verdict (wg_state w) (wg_config w) \<and>
          (\<exists>d. wv_deadline_at (wg_current w) = Some d \<and> d \<le> due) \<and>
          (wg_fired w \<noteq> None \<longrightarrow> wv_phase (wg_current w) = PhCancelling))"

lemma verdict_phases:
  "wv_phase (watchdog_verdict s cfg) = PhBudget b \<longleftrightarrow>
     wc_enabled cfg \<and> wd_running s \<and> \<not> wd_parked s \<and> wd_cancel_sent_at s = None \<and>
     b = budget_of s \<and> budget_ms cfg b > 0"
  by (auto simp: watchdog_verdict_def Let_def split: option.splits)

lemma verdict_deadline:
  "wv_phase (watchdog_verdict s cfg) = PhBudget b \<Longrightarrow>
     wv_deadline_at (watchdog_verdict s cfg) = Some (wd_last_at s + budget_ms cfg b)"
  by (auto simp: watchdog_verdict_def Let_def split: option.splits if_splits)

lemma verdict_deadline_phase:
  "wv_deadline_at (watchdog_verdict s cfg) = Some d \<Longrightarrow>
     wv_phase (watchdog_verdict s cfg) = PhCancelling \<or>
     budget_phase (wv_phase (watchdog_verdict s cfg))"
  by (auto simp: watchdog_verdict_def Let_def split: option.splits if_splits)



lemma publish_inv:
  assumes "v = watchdog_verdict (wg_state w) (wg_config w)"
  shows "wd_inv (publish now v w)"
proof (cases "wg_fired w \<noteq> None \<and> budget_phase (wv_phase v)")
  case True
  then show ?thesis
    by (simp add: publish_def wd_inv_def in_force_def spent_verdict_def)
next
  case False
  show ?thesis
  proof (cases "wg_cancel_spent w \<and> wv_phase v = PhCancelling")
    case True
    then show ?thesis using False
      by (auto simp: publish_def wd_inv_def in_force_def spent_verdict_def)
  next
    case spent: False
    have "publish now v w = w\<lparr>wg_timer := map_option (\<lambda>d. now + max 0 (d - now)) (wv_deadline_at v),
        wg_current := v\<rparr>"
      using False spent by (simp only: publish_def Let_def if_False) simp
    with False show ?thesis
      using verdict_deadline_phase [of "wg_state w" "wg_config w"] assms
      by (cases "wv_deadline_at v") (auto simp: wd_inv_def in_force_def)
  qed
qed

lemma wd_step_inv: "wd_inv w \<Longrightarrow> wd_inv (wd_step w op)"
proof (cases op)
  case (WdObserve now sig)
  then show ?thesis
    by (auto simp: observe_def watchdog_step_def Let_def intro!: publish_inv)
next
  case (WdFire now)
  assume "wd_inv w"
  with WdFire show ?thesis
    by (auto simp: on_deadline_def Let_def wd_inv_def in_force_def spent_verdict_def
        split: option.splits phase.splits)
next
  case WdCancel
  then show ?thesis by (simp add: cancel_watchdog_def wd_inv_def in_force_def)
qed

lemma create_watchdog_inv: "wd_inv (create_watchdog cfg)"
  by (simp add: create_watchdog_def wd_inv_def in_force_def)

interpretation wd: machine wd_step wd_inv
  by unfold_locales (rule wd_step_inv)

lemma wd_config [simp]:
  "wg_config (wd_step w op) = wg_config w" "wg_config (foldl wd_step w ops) = wg_config w"
proof -
  show step: "wg_config (wd_step w op) = wg_config w" for w op
    by (cases op) (auto simp: observe_def publish_def watchdog_step_def on_deadline_def
        cancel_watchdog_def Let_def split: option.splits phase.splits)
  show "wg_config (foldl wd_step w ops) = wg_config w"
    by (induction ops arbitrary: w) (simp_all add: step)
qed

end
