(* ===== verification/WatchdogClaims.thy ===== *)
theory WatchdogClaims
  imports Watchdog
begin

text \<open>
  The properties of the idle watchdog: when it fires, how often, that it does fire, and how its set
  of open tool calls relates to the calls the turn aggregate reports as stranded.
\<close>

section \<open>When it fires\<close>

text \<open>The signals that count as activity of a turn, and the instants they carry.\<close>

fun activity_at :: "watchdog_op \<Rightarrow> ms list" where
  "activity_at (WdObserve now (TurnStart t)) = [t]"
| "activity_at (WdObserve now (EnvelopeSeen t e)) = (if env_replay e then [] else [t])"
| "activity_at (WdObserve now (UnparkedSignal t)) = [t]"
| "activity_at (WdObserve now (CancelSent t)) = [t]"
| "activity_at _ = []"

definition activity :: "watchdog_op list \<Rightarrow> ms list" where
  "activity ops = concat (map activity_at ops)"

definition anchored :: "watchdog \<Rightarrow> ms list \<Rightarrow> bool" where
  "anchored w ts \<longleftrightarrow> wd_running (wg_state w) \<longrightarrow> (\<forall>t\<in>set ts. t \<le> wd_last_at (wg_state w))"

lemma observe_state: "wg_state (observe now sig w) = watchdog_next (wg_state w) sig"
  by (simp add: observe_def publish_def watchdog_step_def Let_def)

lemma on_deadline_state [simp]: "wg_state (on_deadline now w) = wg_state w"
  by (auto simp: on_deadline_def Let_def split: phase.split)

lemma anchored_step:
  assumes "anchored w ts" and "\<forall>t\<in>set ts. \<forall>u\<in>set (activity_at op). t \<le> u"
  shows "anchored (wd_step w op) (ts @ activity_at op)"
proof (cases op)
  case (WdObserve now sig)
  with assms show ?thesis
    by (cases sig) (auto simp: observe_state anchored_def apply_envelope_def)
next
  case (WdFire now)
  with assms show ?thesis by (auto simp: anchored_def split: option.split)
next
  case WdCancel
  then show ?thesis by (simp add: anchored_def cancel_watchdog_def initial_watchdog_state_def)
qed

lemma anchored_run:
  "sorted (activity ops) \<Longrightarrow> anchored (foldl wd_step (create_watchdog cfg) ops) (activity ops)"
proof (induction ops rule: rev_induct)
  case Nil
  then show ?case
    by (simp add: anchored_def activity_def create_watchdog_def initial_watchdog_state_def)
next
  case (snoc op ops)
  have split: "activity (ops @ [op]) = activity ops @ activity_at op" by (simp add: activity_def)
  with snoc.prems have "sorted (activity ops)"
    and "\<forall>t\<in>set (activity ops). \<forall>u\<in>set (activity_at op). t \<le> u"
    by (auto simp: sorted_append)
  with snoc.IH anchored_step show ?case by (simp add: split)
qed

text \<open>A call of \<open>onFire\<close> is the callback of a timer that belongs to the budget in force.\<close>

lemma step_calls:
  assumes "wd_inv w" "wg_calls (wd_step w op) \<noteq> wg_calls w"
  shows "\<exists>now b. op = WdFire now \<and> wg_calls (wd_step w op) = wg_calls w @ [(b, now)] \<and>
    wv_phase (watchdog_verdict (wg_state w) (wg_config w)) = PhBudget b \<and>
    wd_last_at (wg_state w) + budget_ms (wg_config w) b \<le> now \<and> wg_fired w = None \<and>
    wg_fired (wd_step w op) = Some b"
proof (cases op)
  case (WdObserve now sig)
  then have "wg_calls (wd_step w op) = wg_calls w"
    by (simp add: observe_def publish_def watchdog_step_def Let_def)
  with assms(2) show ?thesis by simp
next
  case WdCancel
  with assms(2) show ?thesis by (simp add: cancel_watchdog_def)
next
  case (WdFire now)
  with assms(2) obtain due where due: "wg_timer w = Some due" "due \<le> now"
    by (auto split: option.splits if_splits)
  with assms(1) obtain d where
    current: "wg_current w = watchdog_verdict (wg_state w) (wg_config w)"
    and d: "wv_deadline_at (wg_current w) = Some d" "d \<le> due"
    and fired: "wg_fired w \<noteq> None \<longrightarrow> wv_phase (wg_current w) = PhCancelling"
    by (auto simp: wd_inv_def)
  from assms(2) WdFire due obtain b where b: "wv_phase (wg_current w) = PhBudget b"
    by (auto simp: on_deadline_def Let_def split: phase.splits)
  with d current verdict_deadline [of "wg_state w" "wg_config w" b] due
  have "wd_last_at (wg_state w) + budget_ms (wg_config w) b \<le> now" by simp
  then show ?thesis using WdFire due b current fired by (simp add: on_deadline_def Let_def)
qed

text \<open>
  C34: The watchdog accuses an agent only after a full quiet budget: when it calls \<open>onFire\<close> a turn is
  running, nobody is asked for an answer, no cancel is out, and every activity seen so far is at
  least the budget's length in the past; the budget is the larger one while a tool call is open.
\<close>

theorem watchdog_fires_only_after_quiet:
  assumes "wg_calls (wd_step w op) \<noteq> wg_calls w"
    and "w = foldl wd_step (create_watchdog cfg) ops" and "sorted (activity ops)"
  shows "\<exists>now b. op = WdFire now \<and> wg_calls (wd_step w op) = wg_calls w @ [(b, now)] \<and>
    wc_enabled cfg \<and> wd_running (wg_state w) \<and> \<not> wd_parked (wg_state w) \<and>
    wd_cancel_sent_at (wg_state w) = None \<and>
    b = (if wd_open (wg_state w) = [] then SilentBudget else ToolBudget) \<and> budget_ms cfg b > 0 \<and>
    (\<forall>t\<in>set (activity ops). t + budget_ms cfg b \<le> now)"
proof -
  have "wd_inv w" unfolding assms(2) by (intro wd.run_inv create_watchdog_inv)
  from step_calls [OF this assms(1)] obtain now b where
    op: "op = WdFire now" "wg_calls (wd_step w op) = wg_calls w @ [(b, now)]"
    and b: "wv_phase (watchdog_verdict (wg_state w) (wg_config w)) = PhBudget b"
    and quiet: "wd_last_at (wg_state w) + budget_ms (wg_config w) b \<le> now" by blast
  have cfg: "wg_config w = cfg" using assms(2) by (simp add: create_watchdog_def)
  from b have force: "wc_enabled cfg" "wd_running (wg_state w)" "\<not> wd_parked (wg_state w)"
    "wd_cancel_sent_at (wg_state w) = None" "b = budget_of (wg_state w)" "budget_ms cfg b > 0"
    by (auto simp: verdict_phases cfg)
  have "\<forall>t\<in>set (activity ops). t \<le> wd_last_at (wg_state w)"
    using anchored_run [OF assms(3)] force(2) by (simp add: anchored_def assms(2))
  with quiet have "\<forall>t\<in>set (activity ops). t + budget_ms cfg b \<le> now" by (auto simp: cfg)
  with op force show ?thesis by (auto simp: budget_of_def)
qed

definition sample_config :: watchdog_config where
  "sample_config = \<lparr>wc_enabled = True, wc_silent_ms = 100, wc_tool_ms = 1000,
     wc_cancel_timeout_ms = 60\<rparr>"

theorem watchdog_fires_only_after_quiet_witness:
  "let w = foldl wd_step (create_watchdog sample_config) [WdObserve 5 (TurnStart 5)]
   in \<exists>now b. WdFire 105 = WdFire now \<and> b = SilentBudget \<and> 5 + budget_ms sample_config b \<le> now"
proof -
  let ?ops = "[WdObserve 5 (TurnStart 5)]"
  let ?w = "foldl wd_step (create_watchdog sample_config) ?ops"
  have calls: "wg_calls (wd_step ?w (WdFire 105)) \<noteq> wg_calls ?w" by code_simp
  have act: "activity ?ops = [5]" and no_open: "wd_open (wg_state ?w) = []" by code_simp+
  show ?thesis
    using watchdog_fires_only_after_quiet [OF calls refl] act no_open by auto
qed

section \<open>How often\<close>

fun resets_turn :: "watchdog_op \<Rightarrow> bool" where
  "resets_turn (WdObserve now sig) = turn_boundary sig"
| "resets_turn (WdFire now) = False"
| "resets_turn WdCancel = True"

lemma fired_stays:
  "wg_fired w \<noteq> None \<Longrightarrow> \<not> resets_turn op \<Longrightarrow> wg_fired (wd_step w op) \<noteq> None"
  by (cases op)
     (auto simp: observe_def publish_def watchdog_step_def on_deadline_def Let_def
       split: option.splits phase.splits)

lemma fired_no_more_calls:
  "wd_inv w \<Longrightarrow> wg_fired w \<noteq> None \<Longrightarrow> \<forall>op\<in>set ops. \<not> resets_turn op \<Longrightarrow>
     wg_calls (foldl wd_step w ops) = wg_calls w"
proof (induction ops arbitrary: w)
  case Nil
  then show ?case by simp
next
  case (Cons op ops)
  have "wg_calls (wd_step w op) = wg_calls w"
  proof (rule ccontr)
    assume "wg_calls (wd_step w op) \<noteq> wg_calls w"
    from step_calls [OF Cons.prems(1) this] Cons.prems(2) show False by auto
  qed
  moreover have "wg_calls (foldl wd_step (wd_step w op) ops) = wg_calls (wd_step w op)"
    using Cons.prems by (intro Cons.IH wd_step_inv fired_stays) auto
  ultimately show ?case by simp
qed

text \<open>
  The watchdog acts at most once per turn: between two turn boundaries (and without a
  teardown) it calls \<open>onFire\<close> at most once, whatever arrives in between.
\<close>

theorem at_most_one_call_per_turn:
  assumes "w = foldl wd_step (create_watchdog cfg) before" and "\<forall>op\<in>set ops. \<not> resets_turn op"
  shows "length (wg_calls (foldl wd_step w ops)) \<le> length (wg_calls w) + 1"
proof -
  have "wd_inv w" unfolding assms(1) by (intro wd.run_inv create_watchdog_inv)
  then show ?thesis using assms(2)
  proof (induction ops arbitrary: w)
    case Nil
    then show ?case by simp
  next
    case (Cons op ops)
    have inv: "wd_inv (wd_step w op)" using Cons.prems(1) by (rule wd_step_inv)
    show ?case
    proof (cases "wg_calls (wd_step w op) = wg_calls w")
      case True
      with Cons.IH [OF inv] Cons.prems(2) show ?thesis by simp
    next
      case False
      from step_calls [OF Cons.prems(1) False]
      have "length (wg_calls (wd_step w op)) = length (wg_calls w) + 1"
        and "wg_fired (wd_step w op) \<noteq> None" by auto
      with fired_no_more_calls [OF inv] Cons.prems(2) show ?thesis by simp
    qed
  qed
qed

theorem at_most_one_call_per_turn_witness:
  "length (wg_calls (foldl wd_step
     (foldl wd_step (create_watchdog sample_config) [WdObserve 5 (TurnStart 5)])
     [WdFire 105, WdObserve 106 (UnparkedSignal 106), WdFire 300])) \<le>
   length (wg_calls (foldl wd_step (create_watchdog sample_config) [WdObserve 5 (TurnStart 5)])) + 1"
  by (rule at_most_one_call_per_turn [OF refl]) simp

section \<open>That it fires\<close>

definition armed_when_due :: "watchdog \<Rightarrow> bool" where
  "armed_when_due w \<longleftrightarrow>
     (budget_phase (wv_phase (watchdog_verdict (wg_state w) (wg_config w))) \<and> wg_fired w = None \<longrightarrow>
        wg_timer w \<noteq> None)"

lemma publish_armed:
  assumes "v = watchdog_verdict (wg_state w) (wg_config w)"
  shows "armed_when_due (publish now v w)"
proof (cases "wv_phase v")
  case (PhBudget b)
  with assms verdict_deadline [of "wg_state w" "wg_config w" b] show ?thesis
    by (auto simp: armed_when_due_def publish_def Let_def)
qed (auto simp: armed_when_due_def publish_def Let_def assms)

lemma armed_step:
  assumes "wd_inv w" "armed_when_due w"
  shows "armed_when_due (wd_step w op)"
proof (cases op)
  case (WdObserve now sig)
  then show ?thesis
    by (auto simp: observe_def watchdog_step_def Let_def intro!: publish_armed)
next
  case (WdFire now)
  show ?thesis
  proof (cases "wg_timer w")
    case None
    with WdFire assms(2) show ?thesis by simp
  next
    case (Some due)
    with assms(1) have "wg_current w = watchdog_verdict (wg_state w) (wg_config w)"
      by (simp add: wd_inv_def)
    with WdFire Some assms(2) show ?thesis
      by (auto simp: armed_when_due_def on_deadline_def Let_def split: phase.split)
  qed
next
  case WdCancel
  then show ?thesis
    by (simp add: armed_when_due_def cancel_watchdog_def watchdog_verdict_def
        initial_watchdog_state_def)
qed

interpretation armed_wd: machine wd_step "\<lambda>w. wd_inv w \<and> armed_when_due w"
  by unfold_locales (simp add: wd_step_inv armed_step)

text \<open>
  A hung turn is always noticed: whenever a turn runs, nothing is parked, no cancel is out, the
  budget in force is enabled and has not been spent, a timer is armed, and running its callback at
  any instant from its due time on calls \<open>onFire\<close> with that budget.
\<close>

theorem hung_turn_is_noticed:
  assumes "w = foldl wd_step (create_watchdog cfg) ops"
    and "wv_phase (watchdog_verdict (wg_state w) cfg) = PhBudget b" and "wg_fired w = None"
  shows "\<exists>due. wg_timer w = Some due \<and> wd_last_at (wg_state w) + budget_ms cfg b \<le> due \<and>
    (due \<le> now \<longrightarrow> wg_calls (wd_step w (WdFire now)) = wg_calls w @ [(b, now)])"
proof -
  have start: "armed_when_due (create_watchdog cfg)"
    by (simp add: armed_when_due_def create_watchdog_def watchdog_verdict_def
        initial_watchdog_state_def)
  have inv: "wd_inv w \<and> armed_when_due w"
    unfolding assms(1) by (rule armed_wd.run_inv) (simp add: start create_watchdog_inv)
  have cfg: "wg_config w = cfg" using assms(1) by (simp add: create_watchdog_def)
  obtain due where due: "wg_timer w = Some due"
    using inv assms(2,3) by (auto simp: armed_when_due_def cfg)
  with inv obtain d where current: "wg_current w = watchdog_verdict (wg_state w) cfg"
    and d: "wv_deadline_at (wg_current w) = Some d" "d \<le> due"
    by (auto simp: wd_inv_def cfg)
  then have "wd_last_at (wg_state w) + budget_ms cfg b \<le> due"
    using verdict_deadline [OF assms(2)] by simp
  then show ?thesis using due assms(2) current by (simp add: on_deadline_def Let_def)
qed

theorem hung_turn_is_noticed_witness:
  "\<exists>due. wg_timer (foldl wd_step (create_watchdog sample_config) [WdObserve 5 (TurnStart 5)])
     = Some due \<and> 105 \<le> due"
proof -
  let ?w = "foldl wd_step (create_watchdog sample_config) [WdObserve 5 (TurnStart 5)]"
  have phase: "wv_phase (watchdog_verdict (wg_state ?w) sample_config) = PhBudget SilentBudget"
    and fired: "wg_fired ?w = None"
    and base: "wd_last_at (wg_state ?w) + budget_ms sample_config SilentBudget = 105"
    by code_simp+
  from hung_turn_is_noticed [OF refl phase fired, of 105] show ?thesis
    by (auto simp only: base)
qed

section \<open>Open and stranded calls\<close>

definition renamed :: "envelope \<Rightarrow> bool" where
  "renamed e \<longleftrightarrow>
     (case env_body e of SessionUpdate p \<Rightarrow> js_str (fld p ''sessionUpdate'') \<noteq> Some ''tool_call''
      | _ \<Rightarrow> True)"

definition seen_by_watchdog :: "(ms \<times> envelope) list \<Rightarrow> watchdog_state" where
  "seen_by_watchdog xs =
     foldl watchdog_next initial_watchdog_state
       (TurnStart 0 # map (\<lambda>x. EnvelopeSeen (fst x) (snd x)) xs)"

definition unfinished :: "string \<Rightarrow> (string \<times> string option) list \<Rightarrow> bool" where
  "unfinished i us \<longleftrightarrow> (\<exists>s. last_status i us = Some s \<and> \<not> terminal_tool_status s)"

lemma last_status_snoc:
  "last_status i (us @ [u]) =
     (if fst u = i then or_else (snd u) (last_status i us) else last_status i us)"
  by (simp add: last_status_def)

lemma call_updates_snoc:
  "call_updates t (xs @ [e]) =
     call_updates t xs @ (if env_turn e = Some t then update_of_body (env_body e) else [])"
  by (simp add: call_updates_def own_bodies_def)

lemma open_after_envelope:
  assumes "\<not> env_replay e" "renamed e"
  shows "set (wd_open (watchdog_next s (EnvelopeSeen t e))) =
    (case update_of_body (env_body e) of
       [] \<Rightarrow> set (wd_open s)
     | (i, None) # _ \<Rightarrow> set (wd_open s)
     | (i, Some st) # _ \<Rightarrow> (if terminal_tool_status st then set (wd_open s) - {i}
                           else insert i (set (wd_open s))))"
  using assms
  by (cases "env_body e")
     (auto simp: apply_envelope_def apply_tool_call_def renamed_def Let_def split: option.split)

text \<open>
  The tool budget and the stranded list look at the same calls: over the envelopes of a turn as
  the mapper spells them, the watchdog's open set is the calls whose last reported status is not
  terminal, so an open call is one the aggregate will report as stranded.
\<close>

theorem open_calls_are_stranded:
  assumes "\<forall>x\<in>set xs. \<not> env_replay (snd x) \<and> renamed (snd x) \<and> env_turn (snd x) = Some t"
  shows "set (wd_open (seen_by_watchdog xs)) =
    {i. \<exists>s. last_status i (call_updates t (map snd xs)) = Some s \<and> s \<noteq> ''completed'' \<and>
       s \<noteq> ''failed''}"
proof -
  have "set (wd_open (seen_by_watchdog xs)) = {i. unfinished i (call_updates t (map snd xs))}"
    using assms
  proof (induction xs rule: rev_induct)
    case Nil
    then show ?case
      by (simp add: seen_by_watchdog_def unfinished_def last_status_def call_updates_def own_bodies_def)
  next
    case (snoc x xs)
    let ?us = "call_updates t (map snd xs)" and ?u = "update_of_body (env_body (snd x))"
    have us: "call_updates t (map snd xs @ [snd x]) = ?us @ ?u"
      using snoc.prems by (simp add: call_updates_snoc)
    have step: "set (wd_open (seen_by_watchdog (xs @ [x]))) = (case ?u of
         [] \<Rightarrow> set (wd_open (seen_by_watchdog xs))
       | (i, None) # _ \<Rightarrow> set (wd_open (seen_by_watchdog xs))
       | (i, Some st) # _ \<Rightarrow> (if terminal_tool_status st
             then set (wd_open (seen_by_watchdog xs)) - {i}
             else insert i (set (wd_open (seen_by_watchdog xs)))))"
      using open_after_envelope [of "snd x" "seen_by_watchdog xs" "fst x"] snoc.prems
      by (simp add: seen_by_watchdog_def del: watchdog_next.simps)
    have old: "set (wd_open (seen_by_watchdog xs)) = {i. unfinished i ?us}"
      using snoc by simp
    have "?u = [] \<or> (\<exists>i st. ?u = [(i, st)])"
      by (cases "env_body (snd x)") (auto split: option.splits)
    then show ?case
      by (elim disjE exE; cases "snd (hd ?u)")
         (auto simp: us step old unfinished_def last_status_snoc split: if_splits)
  qed
  then show ?thesis by (auto simp: unfinished_def terminal_tool_status_def)
qed

definition sample_call :: "seq \<Rightarrow> string \<Rightarrow> (ms \<times> envelope)" where
  "sample_call s status = (s, sample_envelope s False (Some ''t'') (sample_tool ''c'' status []))"

theorem open_calls_are_stranded_witness:
  "set (wd_open (seen_by_watchdog [sample_call 1 ''pending'', sample_call 2 ''completed''])) = {}"
proof -
  let ?xs = "[sample_call 1 ''pending'', sample_call 2 ''completed'']"
  have ok: "\<forall>x\<in>set ?xs. \<not> env_replay (snd x) \<and> renamed (snd x) \<and> env_turn (snd x) = Some ''t''"
    by code_simp
  have us: "call_updates ''t'' (map snd ?xs) = [(''c'', Some ''pending''), (''c'', Some ''completed'')]"
    by code_simp
  have "last_status i [(''c'', Some ''pending''), (''c'', Some ''completed'')] =
      (if i = ''c'' then Some ''completed'' else None)" for i
    by (simp add: last_status_def)
  then show ?thesis using open_calls_are_stranded [OF ok, unfolded us] by simp
qed

text \<open>
  The two do differ on a call whose status was never reported: an update without a status for an
  unknown call is stranded at the end of the turn and never open to the watchdog.
\<close>

lemma unreported_call_is_stranded_not_open:
  "let sparse = sample_update [(''sessionUpdate'', JStr ''tool_call_update''),
                               (''toolCallId'', JStr ''c'')]
   in wd_open (seen_by_watchdog [(1, sample_envelope 1 False (Some ''t'') sparse)]) = [] \<and>
      map_option tr_stranded (reduce_turn ''t'' [sample_envelope 1 False (Some ''t'') sparse,
        sample_envelope 2 False (Some ''t'') sample_idle]) = Some [''c'']"
  by code_simp

end
