(* ===== verification/Hibernate.thy ===== *)
theory Hibernate
  imports Prelude
begin

text \<open>
  The idle timer of \<open>core/src/worker/hibernate.ts\<close>. As for the watchdog, a set timer is the instant
  it is due and its callback is an operation of its own; what it calls is recorded as a trace. The
  answer \<open>resumable()\<close> gives at fire time is an argument of that operation.
\<close>

record hibernate_options =
  ho_idle_ms :: ms
  ho_close_unresumable :: bool
  ho_on_not_resumable :: bool

datatype hibernate_effect = FireHibernate | FireNotResumable | LogRefusal

record hibernate_timer =
  ht_timer :: "ms option"
  ht_stopped :: bool
  ht_refusal_logged :: bool
  ht_effects :: "hibernate_effect list"

definition create_hibernate_timer :: hibernate_timer where
  "create_hibernate_timer =
     \<lparr>ht_timer = None, ht_stopped = False, ht_refusal_logged = False, ht_effects = []\<rparr>"

definition hib_fire :: "hibernate_options \<Rightarrow> bool \<Rightarrow> hibernate_timer \<Rightarrow> hibernate_timer" where
  "hib_fire opts resumable h =
     (let h1 = h\<lparr>ht_timer := None\<rparr> in
      if ht_stopped h then h1
      else if \<not> resumable then
        (if ho_close_unresumable opts \<and> ho_on_not_resumable opts
         then h1\<lparr>ht_effects := ht_effects h @ [FireNotResumable]\<rparr>
         else if ht_refusal_logged h then h1
         else h1\<lparr>ht_refusal_logged := True, ht_effects := ht_effects h @ [LogRefusal]\<rparr>)
      else h1\<lparr>ht_effects := ht_effects h @ [FireHibernate]\<rparr>)"

definition hib_touch :: "hibernate_options \<Rightarrow> ms \<Rightarrow> hibernate_timer \<Rightarrow> hibernate_timer" where
  "hib_touch opts now h =
     (if ht_stopped h then h
      else if ho_idle_ms opts \<le> 0 then h\<lparr>ht_timer := None\<rparr>
      else h\<lparr>ht_timer := Some (now + ho_idle_ms opts)\<rparr>)"

definition hib_pause :: "hibernate_timer \<Rightarrow> hibernate_timer" where
  "hib_pause h = h\<lparr>ht_timer := None\<rparr>"

definition hib_cancel :: "hibernate_timer \<Rightarrow> hibernate_timer" where
  "hib_cancel h = h\<lparr>ht_stopped := True, ht_timer := None\<rparr>"

definition hib_armed :: "hibernate_timer \<Rightarrow> bool" where
  "hib_armed h \<longleftrightarrow> ht_timer h \<noteq> None"

datatype hibernate_op = HTouch ms | HPause | HCancel | HFire ms bool

fun hib_step :: "hibernate_options \<Rightarrow> hibernate_timer \<Rightarrow> hibernate_op \<Rightarrow> hibernate_timer" where
  "hib_step opts h (HTouch now) = hib_touch opts now h"
| "hib_step opts h HPause = hib_pause h"
| "hib_step opts h HCancel = hib_cancel h"
| "hib_step opts h (HFire now resumable) =
     (case ht_timer h of None \<Rightarrow> h | Some due \<Rightarrow> if due \<le> now then hib_fire opts resumable h else h)"

section \<open>The contract\<close>

text \<open>
  The abstract state: the last turn boundary still counting down. A pause, a teardown and the
  countdown's own end take it away.
\<close>

fun counting :: "hibernate_options \<Rightarrow> ms option \<times> bool \<Rightarrow> hibernate_op \<Rightarrow> ms option \<times> bool" where
  "counting opts (c, dead) (HTouch now) = (if dead then c else if ho_idle_ms opts > 0 then Some now else None, dead)"
| "counting opts (c, dead) HPause = (None, dead)"
| "counting opts (c, dead) HCancel = (None, True)"
| "counting opts (c, dead) (HFire now r) =
     (case c of None \<Rightarrow> None | Some t \<Rightarrow> if t + ho_idle_ms opts \<le> now then None else c, dead)"

definition abs_timer :: "hibernate_options \<Rightarrow> hibernate_timer \<Rightarrow> ms option \<times> bool" where
  "abs_timer opts h = (map_option (\<lambda>d. d - ho_idle_ms opts) (ht_timer h), ht_stopped h)"

definition hib_inv :: "hibernate_timer \<Rightarrow> bool" where
  "hib_inv h \<longleftrightarrow> (ht_stopped h \<longrightarrow> ht_timer h = None)"

lemmas hib_defs = hib_touch_def hib_pause_def hib_cancel_def hib_fire_def Let_def

lemma hib_step_inv: "hib_inv h \<Longrightarrow> hib_inv (hib_step opts h op)"
  by (cases op) (auto simp: hib_inv_def hib_defs split: option.split)

interpretation hib: machine "hib_step opts" hib_inv for opts
  by unfold_locales (rule hib_step_inv)

lemma abs_step: "abs_timer opts (hib_step opts h op) = counting opts (abs_timer opts h) op"
  by (cases op) (auto simp: abs_timer_def hib_defs split: option.split)

lemma abs_run:
  "abs_timer opts (foldl (hib_step opts) create_hibernate_timer ops) = foldl (counting opts) (None, False) ops"
proof (induction ops rule: rev_induct)
  case Nil
  then show ?case by (simp add: abs_timer_def create_hibernate_timer_def)
next
  case (snoc op ops)
  then show ?case by (simp add: abs_step)
qed

lemma step_effects:
  "ht_effects (hib_step opts h op) \<noteq> ht_effects h \<Longrightarrow>
     \<exists>now r due. op = HFire now r \<and> ht_timer h = Some due \<and> due \<le> now \<and> \<not> ht_stopped h \<and>
       ht_effects (hib_step opts h op) = ht_effects h @
         [if r then FireHibernate
          else if ho_close_unresumable opts \<and> ho_on_not_resumable opts then FireNotResumable
          else LogRefusal]"
  by (cases op) (auto simp: hib_defs split: option.splits if_splits)

text \<open>
  The idle timer acts only on a worker that has been idle: something happens only when the
  countdown of the last turn boundary, not paused, not cancelled and not already spent, has run out;
  and a worker whose agent cannot resume is never hibernated.
\<close>

theorem hibernates_only_when_idle:
  assumes "h = foldl (hib_step opts) create_hibernate_timer ops"
    and "ht_effects (hib_step opts h op) \<noteq> ht_effects h"
  shows "\<exists>now r t. op = HFire now r \<and> foldl (counting opts) (None, False) ops = (Some t, False) \<and>
    t + ho_idle_ms opts \<le> now \<and>
    (last (ht_effects (hib_step opts h op)) = FireHibernate \<longleftrightarrow> r)"
proof -
  from step_effects [OF assms(2)] obtain now r due where
    op: "op = HFire now r" and due: "ht_timer h = Some due" "due \<le> now" "\<not> ht_stopped h"
    and eff: "ht_effects (hib_step opts h op) = ht_effects h @
         [if r then FireHibernate
          else if ho_close_unresumable opts \<and> ho_on_not_resumable opts then FireNotResumable
          else LogRefusal]" by blast
  have "foldl (counting opts) (None, False) ops = (Some (due - ho_idle_ms opts), False)"
    using abs_run [of opts ops] assms(1) due by (simp add: abs_timer_def)
  with op due eff show ?thesis by auto
qed

theorem hibernates_only_when_idle_witness:
  "\<exists>t. foldl (counting \<lparr>ho_idle_ms = 10, ho_close_unresumable = False, ho_on_not_resumable = False\<rparr>)
     (None, False) [HTouch 5] = (Some t, False) \<and> t + 10 \<le> 15"
proof -
  let ?opts = "\<lparr>ho_idle_ms = 10, ho_close_unresumable = False, ho_on_not_resumable = False\<rparr>"
  let ?h = "foldl (hib_step ?opts) create_hibernate_timer [HTouch 5]"
  have "ht_effects (hib_step ?opts ?h (HFire 15 True)) \<noteq> ht_effects ?h" by code_simp
  from hibernates_only_when_idle [OF refl this] show ?thesis by auto
qed

text \<open>
  With hibernation disabled the timer never arms, and a cancelled timer stays silent for good.
\<close>

lemma disabled_never_fires:
  "ho_idle_ms opts \<le> 0 \<Longrightarrow>
     ht_timer (foldl (hib_step opts) create_hibernate_timer ops) = None"
proof (induction ops rule: rev_induct)
  case (snoc op ops)
  then show ?case by (cases op) (auto simp: hib_defs)
qed (simp add: create_hibernate_timer_def)

lemma cancelled_stays_silent:
  assumes "hib_inv h" "ht_stopped h"
  shows "ht_effects (foldl (hib_step opts) h ops) = ht_effects h"
  using assms
proof (induction ops arbitrary: h)
  case (Cons op ops)
  have "ht_stopped (hib_step opts h op)" "ht_effects (hib_step opts h op) = ht_effects h"
    using Cons.prems by (cases op; auto simp: hib_inv_def hib_defs)+
  with Cons.IH [of "hib_step opts h op"] hib_step_inv [OF Cons.prems(1)] show ?case by simp
qed simp

end
