(* ===== verification/UpdateShape.thy ===== *)
theory UpdateShape
  imports WireJson
begin

text \<open>
  The predicates of \<open>core/src/normalizer/map/v2-shape.ts\<close>: which payloads really are instances of the
  v2 update arm their tag names. An object is the list of its own properties; a property of value
  \<open>undefined\<close> does not occur in JSON, so absent and null are the two empty cases.
\<close>

type_synonym obj = "(string \<times> json) list"

section \<open>Accessors\<close>

definition has_str :: "obj \<Rightarrow> string \<Rightarrow> bool" where
  "has_str p k \<longleftrightarrow> js_str (map_of p k) \<noteq> None"

definition has_num :: "obj \<Rightarrow> string \<Rightarrow> bool" where
  "has_num p k \<longleftrightarrow> num_of (map_of p k) \<noteq> None"

definition has_obj :: "obj \<Rightarrow> string \<Rightarrow> bool" where
  "has_obj p k \<longleftrightarrow> obj_of (map_of p k) \<noteq> None"

text \<open>Absent or null.\<close>

definition empty_prop :: "obj \<Rightarrow> string \<Rightarrow> bool" where
  "empty_prop p k \<longleftrightarrow> map_of p k = None \<or> map_of p k = Some JNull"

definition optional_string :: "obj \<Rightarrow> string \<Rightarrow> bool" where
  "optional_string p k \<longleftrightarrow> empty_prop p k \<or> has_str p k"

definition optional_array :: "obj \<Rightarrow> string \<Rightarrow> (json \<Rightarrow> bool) \<Rightarrow> bool" where
  "optional_array p k item \<longleftrightarrow>
     empty_prop p k \<or>
     (case js_arr (map_of p k) of None \<Rightarrow> False | Some xs \<Rightarrow> list_all item xs)"

section \<open>Blocks\<close>

definition is_content_block :: "json option \<Rightarrow> bool" where
  "is_content_block v =
     (case obj_of v of None \<Rightarrow> False
      | Some b \<Rightarrow>
         (case js_str (map_of b ''type'') of None \<Rightarrow> False
          | Some ty \<Rightarrow>
              if ty = ''text'' then has_str b ''text''
              else if ty = ''image'' \<or> ty = ''audio'' then has_str b ''data''
              else if ty = ''resource_link'' then has_str b ''uri''
              else if ty = ''resource'' then has_obj b ''resource''
              else True))"

definition is_diff_change :: "json \<Rightarrow> bool" where
  "is_diff_change v =
     (case obj_of (Some v) of None \<Rightarrow> False
      | Some c \<Rightarrow>
         (case js_str (map_of c ''operation'') of None \<Rightarrow> False
          | Some op \<Rightarrow>
              if op = ''move'' \<or> op = ''copy'' then has_str c ''path'' \<and> has_str c ''oldPath''
              else if op = ''add'' \<or> op = ''delete'' \<or> op = ''modify'' then has_str c ''path''
              else True))"

definition is_v2_diff :: "obj \<Rightarrow> bool" where
  "is_v2_diff d \<longleftrightarrow>
     map_of d ''type'' = Some (JStr ''diff'') \<and>
     (case js_arr (map_of d ''changes'') of None \<Rightarrow> False | Some cs \<Rightarrow> list_all is_diff_change cs) \<and>
     (empty_prop d ''patch'' \<or>
      (case obj_of (map_of d ''patch'') of None \<Rightarrow> False
       | Some p \<Rightarrow> has_str p ''format'' \<and> has_str p ''text''))"

definition is_tool_call_content :: "json \<Rightarrow> bool" where
  "is_tool_call_content v =
     (case obj_of (Some v) of None \<Rightarrow> False
      | Some c \<Rightarrow>
         (case js_str (map_of c ''type'') of None \<Rightarrow> False
          | Some ty \<Rightarrow>
              if ty = ''content'' then is_content_block (map_of c ''content'')
              else if ty = ''diff'' then is_v2_diff c
              else if ty = ''terminal'' then has_str c ''terminalId''
              else True))"

definition is_tool_call_location :: "json \<Rightarrow> bool" where
  "is_tool_call_location v =
     (case obj_of (Some v) of None \<Rightarrow> False
      | Some l \<Rightarrow> has_str l ''path'' \<and> (empty_prop l ''line'' \<or> has_num l ''line''))"

definition is_plan_entry :: "json \<Rightarrow> bool" where
  "is_plan_entry v =
     (case obj_of (Some v) of None \<Rightarrow> False
      | Some e \<Rightarrow> has_str e ''content'' \<and> has_str e ''priority'' \<and> has_str e ''status'')"

definition is_available_command :: "json \<Rightarrow> bool" where
  "is_available_command v =
     (case obj_of (Some v) of None \<Rightarrow> False
      | Some c \<Rightarrow> has_str c ''name'' \<and> has_str c ''description'')"

definition is_session_config_option :: "json \<Rightarrow> bool" where
  "is_session_config_option v =
     (case obj_of (Some v) of None \<Rightarrow> False
      | Some c \<Rightarrow>
         (has_str c ''configId'' \<or> has_str c ''id'') \<and> has_str c ''name'' \<and>
         (case js_str (map_of c ''type'') of None \<Rightarrow> True
          | Some ty \<Rightarrow>
              if ty = ''select''
              then has_str c ''currentValue'' \<and> js_arr (map_of c ''options'') \<noteq> None
              else if ty = ''boolean''
              then (case map_of c ''currentValue'' of Some (JBool b) \<Rightarrow> True | _ \<Rightarrow> False)
              else True))"

section \<open>Arms\<close>

definition is_content_chunk :: "obj \<Rightarrow> bool" where
  "is_content_chunk p \<longleftrightarrow> has_str p ''messageId'' \<and> is_content_block (map_of p ''content'')"

definition is_tool_call_update :: "obj \<Rightarrow> bool" where
  "is_tool_call_update p \<longleftrightarrow>
     has_str p ''toolCallId'' \<and> optional_string p ''title'' \<and> optional_string p ''kind'' \<and>
     optional_string p ''status'' \<and> optional_string p ''name'' \<and>
     optional_array p ''content'' is_tool_call_content \<and>
     optional_array p ''locations'' is_tool_call_location"

definition is_plan_update :: "obj \<Rightarrow> bool" where
  "is_plan_update p =
     (case obj_of (map_of p ''plan'') of None \<Rightarrow> False
      | Some plan \<Rightarrow>
         (case js_str (map_of plan ''type'') of None \<Rightarrow> False
          | Some ty \<Rightarrow>
              has_str plan ''planId'' \<and>
              (if ty = ''items'' then
                 (case js_arr (map_of plan ''entries'') of None \<Rightarrow> False
                  | Some es \<Rightarrow> list_all is_plan_entry es)
               else if ty = ''file'' then has_str plan ''uri''
               else if ty = ''markdown'' then has_str plan ''content''
               else True)))"

definition is_state_update :: "obj \<Rightarrow> bool" where
  "is_state_update p =
     (case js_str (map_of p ''state'') of None \<Rightarrow> False
      | Some state \<Rightarrow>
          state \<noteq> ''idle'' \<or>
          (optional_string p ''stopReason'' \<and>
           (empty_prop p ''usage'' \<or>
            (case obj_of (map_of p ''usage'') of None \<Rightarrow> False
             | Some u \<Rightarrow> has_num u ''totalTokens'' \<and> has_num u ''inputTokens'' \<and>
                         has_num u ''outputTokens''))))"

definition array_of :: "obj \<Rightarrow> string \<Rightarrow> (json \<Rightarrow> bool) \<Rightarrow> bool" where
  "array_of p k item =
     (case js_arr (map_of p k) of None \<Rightarrow> False | Some xs \<Rightarrow> list_all item xs)"

text \<open>\<open>ARMS\<close>, as the alternatives the tag selects.\<close>

definition arm_of :: "string \<Rightarrow> (obj \<Rightarrow> bool) option" where
  "arm_of kind =
     (if kind \<in> {''user_message_chunk'', ''agent_message_chunk'', ''agent_thought_chunk''}
      then Some is_content_chunk
      else if kind \<in> {''user_message'', ''agent_message'', ''agent_thought''}
      then Some (\<lambda>p. has_str p ''messageId'')
      else if kind = ''state_update'' then Some is_state_update
      else if kind = ''tool_call_update'' then Some is_tool_call_update
      else if kind = ''tool_call_content_chunk''
      then Some (\<lambda>p. has_str p ''toolCallId'' \<and> is_content_block (map_of p ''content''))
      else if kind = ''terminal_update'' then Some (\<lambda>p. has_str p ''terminalId'')
      else if kind = ''terminal_output_chunk''
      then Some (\<lambda>p. has_str p ''terminalId'' \<and> has_str p ''output'')
      else if kind = ''plan_update'' then Some is_plan_update
      else if kind = ''plan_removed'' then Some (\<lambda>p. has_str p ''planId'')
      else if kind = ''available_commands_update''
      then Some (\<lambda>p. array_of p ''availableCommands'' is_available_command)
      else if kind = ''config_option_update''
      then Some (\<lambda>p. array_of p ''configOptions'' is_session_config_option)
      else if kind = ''session_info_update''
      then Some (\<lambda>p. optional_string p ''title'' \<and> optional_string p ''updatedAt'')
      else if kind = ''usage_update'' then Some (\<lambda>p. has_num p ''used'' \<and> has_num p ''size'')
      else if kind = ''compaction_update''
      then Some (\<lambda>p. has_str p ''compactionId'' \<and> has_str p ''status'')
      else if kind = ''compaction_summary_chunk''
      then Some (\<lambda>p. has_str p ''compactionId'' \<and> is_content_block (map_of p ''content''))
      else None)"

definition is_known_v2_kind :: "string \<Rightarrow> bool" where
  "is_known_v2_kind kind \<longleftrightarrow> arm_of kind \<noteq> None"

text \<open>
  \<open>ARMS\<close> is an ordinary object, so a tag that names a member of \<open>Object.prototype\<close> finds that member.
  Called as a plain function on the payload, \<open>constructor\<close> and \<open>toString\<close> answer a truthy value; the
  others convert an undefined receiver, or are not functions, and raise a \<open>TypeError\<close> (\<open>None\<close>).
\<close>

definition inherited_members :: "string list" where
  "inherited_members =
     [''constructor'', ''toString'', ''toLocaleString'', ''valueOf'', ''hasOwnProperty'',
      ''isPrototypeOf'', ''propertyIsEnumerable'', ''__proto__'', ''__defineGetter__'',
      ''__defineSetter__'', ''__lookupGetter__'', ''__lookupSetter__'']"

definition call_inherited :: "string \<Rightarrow> bool option" where
  "call_inherited kind =
     (if kind = ''constructor'' \<or> kind = ''toString'' then Some True else None)"

definition bad_meta :: "obj \<Rightarrow> bool" where
  "bad_meta p \<longleftrightarrow> \<not> empty_prop p ''_meta'' \<and> obj_of (map_of p ''_meta'') = None"

definition is_v2_session_update :: "json \<Rightarrow> bool option" where
  "is_v2_session_update v =
     (case obj_of (Some v) of None \<Rightarrow> Some False
      | Some p \<Rightarrow>
         (case js_str (map_of p ''sessionUpdate'') of None \<Rightarrow> Some False
          | Some kind \<Rightarrow>
             (case arm_of kind of
                Some arm \<Rightarrow> Some (\<not> bad_meta p \<and> arm p)
              | None \<Rightarrow>
                  if kind \<notin> set inherited_members then Some False
                  else if bad_meta p then Some False
                  else call_inherited kind)))"

end
