(* ===== verification/UpdateMap.thy ===== *)
theory UpdateMap
  imports UpdateShape
begin

text \<open>
  The map of one agent update to the v2 spelling: \<open>core/src/normalizer/map/update.ts\<close> with
  \<open>tool-call.ts\<close>, \<open>diff.ts\<close> and \<open>message-id.ts\<close>. The generator of synthesized message ids is carried
  state; what the map may branch on is the descriptor's update rules and its diff quirk. A
  \<open>TypeError\<close> is \<open>None\<close>. Property names are assumed not to be \<open>__proto__\<close> (assigning to it in a
  rebuilt object sets the prototype).
\<close>

section \<open>Objects rebuilt by copy\<close>

text \<open>\<open>{...ps, [k]: v}\<close>: an existing property keeps its place, a new one is appended.\<close>

fun set_prop :: "string \<Rightarrow> json \<Rightarrow> obj \<Rightarrow> obj" where
  "set_prop k v [] = [(k, v)]"
| "set_prop k v ((k', v') # ps) = (if k' = k then (k, v) # ps else (k', v') # set_prop k v ps)"

lemma map_of_set_prop: "map_of (set_prop k v ps) j = (if j = k then Some v else map_of ps j)"
  by (induction ps) auto

lemma map_of_set_prop_same [simp]: "map_of (set_prop k v ps) k = Some v"
  by (simp add: map_of_set_prop)

lemma map_of_set_prop_other [simp]: "j \<noteq> k \<Longrightarrow> map_of (set_prop k v ps) j = map_of ps j"
  by (simp add: map_of_set_prop)

text \<open>\<open>String(n)\<close> of a natural number.\<close>

fun decimal :: "nat \<Rightarrow> string" where
  "decimal n =
     (if n < 10 then [char_of (48 + n)] else decimal (n div 10) @ [char_of (48 + n mod 10)])"

declare decimal.simps [simp del]

section \<open>Descriptor and context\<close>

record update_rule =
  ur_stream :: bool
  ur_store :: bool
  ur_digest :: bool

record map_descriptor =
  md_updates :: "(string \<times> update_rule) list"
  md_diff_is_fragment :: bool

record map_context =
  mc_plan_id :: string
  mc_modes :: "obj option"

record mapped_update =
  mu_payload :: json
  mu_version :: nat
  mu_rule :: string
  mu_message_id :: "string option"
  mu_keep :: bool

section \<open>Message ids\<close>

record id_generator =
  ig_last_prefix :: "string option"
  ig_ordinal :: nat

definition fresh_ids :: id_generator where
  "fresh_ids = \<lparr>ig_last_prefix = None, ig_ordinal = 0\<rparr>"

definition synth_id :: "string option \<Rightarrow> id_generator \<Rightarrow> string \<Rightarrow> id_generator \<times> string" where
  "synth_id turn g prefix =
     (let g' = (if ig_last_prefix g = Some prefix then g
                else \<lparr>ig_last_prefix = Some prefix, ig_ordinal = ig_ordinal g + 1\<rparr>)
      in (g', ''omni:'' @ (case turn of None \<Rightarrow> ''no-turn'' | Some t \<Rightarrow> t) @ '':'' @ prefix @ '':'' @
              decimal (ig_ordinal g')))"

definition chunk_kinds :: "string list" where
  "chunk_kinds = [''user_message_chunk'', ''agent_message_chunk'', ''agent_thought_chunk'']"

text \<open>The id in force and whether it was invented.\<close>

definition message_id_for ::
  "string option \<Rightarrow> id_generator \<Rightarrow> obj \<Rightarrow> id_generator \<times> string option \<times> bool" where
  "message_id_for turn g payload =
     (case js_str (map_of payload ''sessionUpdate'') of
        None \<Rightarrow> (g, None, False)
      | Some kind \<Rightarrow>
          if kind \<notin> set chunk_kinds then (g, None, False)
          else (case js_str (map_of payload ''messageId'') of
                  Some i \<Rightarrow> (g, Some i, False)
                | None \<Rightarrow> (let (g', i) = synth_id turn g kind in (g', Some i, True))))"

definition apply_message_id :: "obj \<Rightarrow> string option \<Rightarrow> obj" where
  "apply_message_id payload i =
     (case i of None \<Rightarrow> payload
      | Some s \<Rightarrow> if js_str (map_of payload ''messageId'') = Some s then payload
                  else set_prop ''messageId'' (JStr s) payload)"

section \<open>Rows\<close>

text \<open>\<open>mapToolCall\<close>: the discriminant is renamed in place.\<close>

definition map_tool_call :: "obj \<Rightarrow> obj" where
  "map_tool_call payload = set_prop ''sessionUpdate'' (JStr ''tool_call_update'') payload"

definition map_diff_block :: "map_descriptor \<Rightarrow> obj \<Rightarrow> obj" where
  "map_diff_block d block =
     (if is_v2_diff block then block
      else case (js_str (map_of block ''path''), js_str (map_of block ''newText'')) of
             (Some path, Some new_text) \<Rightarrow>
               (let old_text = js_str (map_of block ''oldText'');
                    old_json = (case old_text of None \<Rightarrow> JNull | Some s \<Rightarrow> JStr s);
                    meta = as_record (map_of block ''_meta'')
                in [(''type'', JStr ''diff''),
                    (''changes'', JArr [JObj
                       [(''operation'', JStr (if old_text = None then ''add'' else ''modify'')),
                        (''path'', JStr path)]]),
                    (''_meta'', JObj (set_prop ''omni/v1Diff''
                       (JObj [(''oldText'', old_json), (''newText'', JStr new_text),
                              (''fragment'', JBool (md_diff_is_fragment d))]) meta))])
           | _ \<Rightarrow> block)"

definition map_content_item :: "map_descriptor \<Rightarrow> json \<Rightarrow> json" where
  "map_content_item d raw =
     (case obj_of (Some raw) of None \<Rightarrow> raw
      | Some block \<Rightarrow>
          if map_of block ''type'' = Some (JStr ''diff'') then JObj (map_diff_block d block) else raw)"

text \<open>The payload is rebuilt only when a block changed; the flag says whether one did.\<close>

definition map_content_blocks :: "map_descriptor \<Rightarrow> obj \<Rightarrow> obj \<times> bool" where
  "map_content_blocks d payload =
     (case js_arr (map_of payload ''content'') of
        None \<Rightarrow> (payload, False)
      | Some content \<Rightarrow>
          (let mapped = map (map_content_item d) content in
           if mapped = content then (payload, False)
           else (set_prop ''content'' (JArr mapped) payload, True)))"

definition kept_beside_plan :: "string \<Rightarrow> bool" where
  "kept_beside_plan k \<longleftrightarrow> k \<noteq> ''entries'' \<and> k \<noteq> ''sessionUpdate'' \<and> k \<noteq> ''plan''"

definition map_plan :: "map_context \<Rightarrow> obj \<Rightarrow> obj" where
  "map_plan ctx payload =
     (case js_arr (map_of payload ''entries'') of
        None \<Rightarrow> payload
      | Some entries \<Rightarrow>
          filter (\<lambda>p. kept_beside_plan (fst p)) payload @
          [(''sessionUpdate'', JStr ''plan_update''),
           (''plan'', JObj [(''type'', JStr ''items''), (''planId'', JStr (mc_plan_id ctx)),
                            (''entries'', JArr entries)])])"

definition mode_option :: "json \<Rightarrow> json list" where
  "mode_option raw =
     (case obj_of (Some raw) of None \<Rightarrow> []
      | Some m \<Rightarrow>
         (case js_str (map_of m ''id'') of None \<Rightarrow> []
          | Some value \<Rightarrow>
              (let name = (case js_str (map_of m ''name'') of None \<Rightarrow> value | Some n \<Rightarrow> n) in
               [JObj ([(''value'', JStr value), (''name'', JStr name)] @
                      (case js_str (map_of m ''description'') of None \<Rightarrow> []
                       | Some s \<Rightarrow> [(''description'', JStr s)]))])))"

definition map_current_mode :: "map_context \<Rightarrow> obj \<Rightarrow> obj" where
  "map_current_mode ctx payload =
     (case js_str (map_of payload ''currentModeId'') of
        None \<Rightarrow> payload
      | Some current \<Rightarrow>
          (let available = (case mc_modes ctx of None \<Rightarrow> []
                            | Some m \<Rightarrow> (case js_arr (map_of m ''availableModes'') of
                                           None \<Rightarrow> [] | Some xs \<Rightarrow> xs))
           in [(''sessionUpdate'', JStr ''config_option_update''),
               (''configOptions'', JArr [JObj
                  [(''id'', JStr ''mode''), (''name'', JStr ''Mode''), (''category'', JStr ''mode''),
                   (''type'', JStr ''select''), (''currentValue'', JStr current),
                   (''options'', JArr (List.maps mode_option available))]]),
               (''_meta'', JObj (set_prop ''omni/derivedFrom'' (JStr ''current_mode_update'')
                  (as_record (map_of payload ''_meta''))))]))"

text \<open>The payload of \<open>Rewritten\<close>, its rule and the message id in force.\<close>

definition apply_row ::
  "map_descriptor \<Rightarrow> map_context \<Rightarrow> string option \<Rightarrow> id_generator \<Rightarrow> string \<Rightarrow> obj \<Rightarrow>
     id_generator \<times> obj \<times> string \<times> string option" where
  "apply_row d ctx turn g kind payload =
     (if kind \<in> set chunk_kinds then
        (let (g', i, synthesized) = message_id_for turn g payload in
         (g', apply_message_id payload i,
          if synthesized then ''messageId->synthesized'' else '''', i))
      else if kind = ''tool_call'' then
        (let (p, changed) = map_content_blocks d (map_tool_call payload) in
         (g, p, if changed then ''tool_call->tool_call_update+diff->changes''
                else ''tool_call->tool_call_update'', None))
      else if kind = ''tool_call_update'' then
        (let (p, changed) = map_content_blocks d payload in
         (g, p, if changed then ''diff->changes'' else '''', None))
      else if kind = ''plan'' then (g, map_plan ctx payload, ''plan->plan_update'', None)
      else if kind = ''plan_update'' then
        (case obj_of (map_of payload ''plan'') of
           Some plan \<Rightarrow> if has_str plan ''type'' then (g, payload, '''', None)
                        else (g, map_plan ctx payload, ''plan->plan_update'', None)
         | None \<Rightarrow> (g, map_plan ctx payload, ''plan->plan_update'', None))
      else if kind = ''current_mode_update'' then
        (g, map_current_mode ctx payload, ''current_mode_update->config_option_update'', None)
      else (g, payload, '''', None))"

section \<open>The map\<close>

definition passthrough :: "json \<Rightarrow> mapped_update" where
  "passthrough u = \<lparr>mu_payload = u, mu_version = 1, mu_rule = '''', mu_message_id = None, mu_keep = True\<rparr>"

text \<open>
  \<open>descriptor.updates[kind]\<close> drops the update when its rule neither streams nor stores. An inherited
  member found under the tag has no \<open>stream\<close> and no \<open>store\<close>, which drops the update too.
\<close>

definition dropped_kind :: "map_descriptor \<Rightarrow> string \<Rightarrow> bool" where
  "dropped_kind d kind =
     (case map_of (md_updates d) kind of
        Some r \<Rightarrow> \<not> ur_stream r \<and> \<not> ur_store r
      | None \<Rightarrow> kind \<in> set inherited_members)"

definition wants_digest :: "string \<Rightarrow> map_descriptor \<Rightarrow> bool" where
  "wants_digest kind d = (case map_of (md_updates d) kind of None \<Rightarrow> False | Some r \<Rightarrow> ur_digest r)"

definition map_update ::
  "map_descriptor \<Rightarrow> map_context \<Rightarrow> string option \<Rightarrow> id_generator \<Rightarrow> json \<Rightarrow>
     (id_generator \<times> mapped_update) option" where
  "map_update d ctx turn g update =
     (case obj_of (Some update) of None \<Rightarrow> Some (g, passthrough update)
      | Some payload \<Rightarrow>
         (case js_str (map_of payload ''sessionUpdate'') of None \<Rightarrow> Some (g, passthrough update)
          | Some kind \<Rightarrow>
             (let (g', p, rule, i) = apply_row d ctx turn g kind payload in
              map_option
                (\<lambda>landed.
                   (g', (if landed
                         then \<lparr>mu_payload = JObj p, mu_version = 2, mu_rule = rule,
                               mu_message_id = i, mu_keep = True\<rparr>
                         else passthrough update)\<lparr>mu_keep := \<not> dropped_kind d kind\<rparr>))
                (is_v2_session_update (JObj p)))))"

end
