(* ===== verification/UpdateProps.thy ===== *)
theory UpdateProps
  imports UpdateMap TurnClaims
begin

text \<open>
  The properties of the update map: it is idempotent, honest about what it could map, total except on
  inherited tags, and it carries the text of a v1 diff through to the turn aggregate.
\<close>

section \<open>Rows land independently of ids, plan names and modes\<close>

definition row_payload ::
  "map_descriptor \<Rightarrow> map_context \<Rightarrow> string option \<Rightarrow> id_generator \<Rightarrow> string \<Rightarrow> obj \<Rightarrow> obj" where
  "row_payload d ctx turn g kind p = fst (snd (apply_row d ctx turn g kind p))"

lemmas row_defs = row_payload_def apply_row_def Let_def

lemma row_kinds:
  obtains (1) "kind \<in> set chunk_kinds" | (2) "kind = ''tool_call''" | (3) "kind = ''tool_call_update''"
    | (4) "kind = ''plan'' \<or> kind = ''plan_update''" | (5) "kind = ''current_mode_update''"
    | (other) "kind \<notin> set chunk_kinds"
      "kind \<notin> {''tool_call'', ''tool_call_update'', ''plan'', ''plan_update'', ''current_mode_update''}"
proof (cases "kind \<in> {''tool_call'', ''tool_call_update'', ''plan'', ''plan_update'', ''current_mode_update''}")
  case True
  then show thesis using 2 3 4 5 by (elim insertE emptyE) auto
next
  case False
  then show thesis using 1 other by (cases "kind \<in> set chunk_kinds") auto
qed

lemma row_chunk:
  assumes "kind \<in> set chunk_kinds" "js_str (map_of p ''sessionUpdate'') = Some kind"
  shows "\<exists>i. row_payload d ctx turn g kind p = apply_message_id p (Some i) \<and>
    (\<forall>s. js_str (map_of p ''messageId'') = Some s \<longrightarrow> i = s)"
  using assms
  by (auto simp: row_defs message_id_for_def synth_id_def split: option.split prod.split)

lemma row_tool_call:
  "row_payload d ctx turn g ''tool_call'' p = fst (map_content_blocks d (map_tool_call p))"
  by (simp add: row_defs chunk_kinds_def split: prod.split)

lemma row_tool_call_update:
  "row_payload d ctx turn g ''tool_call_update'' p = fst (map_content_blocks d p)"
  by (simp add: row_defs chunk_kinds_def split: prod.split)

lemma row_plan: "row_payload d ctx turn g ''plan'' p = map_plan ctx p"
  by (simp add: row_defs chunk_kinds_def)

definition plan_typed :: "obj \<Rightarrow> bool" where
  "plan_typed p = (case obj_of (map_of p ''plan'') of None \<Rightarrow> False | Some q \<Rightarrow> has_str q ''type'')"

lemma row_plan_update:
  "row_payload d ctx turn g ''plan_update'' p = (if plan_typed p then p else map_plan ctx p)"
  by (simp add: row_defs chunk_kinds_def plan_typed_def split: option.split)

lemma row_current_mode: "row_payload d ctx turn g ''current_mode_update'' p = map_current_mode ctx p"
  by (simp add: row_defs chunk_kinds_def)

lemma row_other:
  "kind \<notin> set chunk_kinds \<Longrightarrow>
   kind \<notin> {''tool_call'', ''tool_call_update'', ''plan'', ''plan_update'', ''current_mode_update''} \<Longrightarrow>
     row_payload d ctx turn g kind p = p"
  by (simp add: row_defs)

text \<open>The test a rewritten object has to pass, by the tag it carries.\<close>

definition lands :: "obj \<Rightarrow> bool option" where
  "lands p = is_v2_session_update (JObj p)"

lemma lands_arm:
  "map_of p ''sessionUpdate'' = Some (JStr kind) \<Longrightarrow> arm_of kind = Some arm \<Longrightarrow>
     lands p = Some (\<not> bad_meta p \<and> arm p)"
  by (simp add: lands_def is_v2_session_update_def)

lemma map_plan_None: "js_arr (map_of p ''entries'') = None \<Longrightarrow> map_plan ctx p = p"
  by (simp add: map_plan_def)

lemma map_of_kept:
  "map_of (filter (\<lambda>p. kept_beside_plan (fst p)) ps) k =
     (if kept_beside_plan k then map_of ps k else None)"
  by (induction ps) auto

lemma map_plan_fields:
  assumes "js_arr (map_of p ''entries'') = Some es"
  shows "map_of (map_plan ctx p) ''sessionUpdate'' = Some (JStr ''plan_update'')"
    and "map_of (map_plan ctx p) ''plan'' =
      Some (JObj [(''type'', JStr ''items''), (''planId'', JStr (mc_plan_id ctx)),
                  (''entries'', JArr es)])"
    and "map_of (map_plan ctx p) ''_meta'' = map_of p ''_meta''"
proof -
  have kept: "\<not> kept_beside_plan ''sessionUpdate''" "\<not> kept_beside_plan ''plan''"
    "kept_beside_plan ''_meta''" by (simp_all add: kept_beside_plan_def)
  show "map_of (map_plan ctx p) ''sessionUpdate'' = Some (JStr ''plan_update'')"
    and "map_of (map_plan ctx p) ''plan'' =
      Some (JObj [(''type'', JStr ''items''), (''planId'', JStr (mc_plan_id ctx)),
                  (''entries'', JArr es)])"
    and "map_of (map_plan ctx p) ''_meta'' = map_of p ''_meta''"
    using assms by (simp_all add: map_plan_def map_of_kept map_add_def kept split: option.split)
qed

lemma bad_meta_cong: "map_of p ''_meta'' = map_of q ''_meta'' \<Longrightarrow> bad_meta p = bad_meta q"
  by (simp add: bad_meta_def empty_prop_def)

lemma arm_plan_update: "arm_of ''plan_update'' = Some is_plan_update"
  by (simp add: arm_of_def)

lemma lands_map_plan:
  assumes "js_arr (map_of p ''entries'') = Some es"
  shows "lands (map_plan ctx p) = Some (\<not> bad_meta p \<and> list_all is_plan_entry es)"
  using lands_arm [OF map_plan_fields(1) [OF assms] arm_plan_update]
    bad_meta_cong [of "map_plan ctx p" p] map_plan_fields(3) [OF assms]
  by (simp add: is_plan_update_def map_plan_fields(2) [OF assms] has_str_def)

lemma lands_map_current_mode:
  assumes "js_str (map_of p ''currentModeId'') = Some c"
  shows "lands (map_current_mode ctx p) = Some True"
proof -
  have tag: "map_of (map_current_mode ctx p) ''sessionUpdate'' = Some (JStr ''config_option_update'')"
    using assms by (simp add: map_current_mode_def Let_def)
  have arm: "arm_of ''config_option_update'' =
      Some (\<lambda>p. array_of p ''configOptions'' is_session_config_option)"
    by (simp add: arm_of_def)
  show ?thesis
    using lands_arm [OF tag arm] assms
    by (simp add: map_current_mode_def Let_def bad_meta_def empty_prop_def array_of_def
        is_session_config_option_def has_str_def)
qed

lemma chunk_arm: "kind \<in> set chunk_kinds \<Longrightarrow> arm_of kind = Some is_content_chunk"
  by (auto simp: chunk_kinds_def arm_of_def)

lemma lands_apply_message_id:
  assumes "kind \<in> set chunk_kinds" "js_str (map_of p ''sessionUpdate'') = Some kind"
  shows "lands (apply_message_id p (Some i)) =
    Some (\<not> bad_meta p \<and> is_content_block (map_of p ''content''))"
proof -
  let ?q = "apply_message_id p (Some i)"
  have "map_of ?q ''sessionUpdate'' = Some (JStr kind)" "map_of ?q ''content'' = map_of p ''content''"
    "map_of ?q ''_meta'' = map_of p ''_meta''" "has_str ?q ''messageId''"
    using assms(2) by (auto simp: apply_message_id_def has_str_def js_str_Some_iff)
  then show ?thesis
    using lands_arm [OF _ chunk_arm [OF assms(1)], of ?q] bad_meta_cong [of ?q p]
    by (simp add: is_content_chunk_def)
qed

text \<open>Whether a row lands does not depend on the turn, the generator or the context.\<close>

lemma lands_row_independent:
  assumes "js_str (map_of p ''sessionUpdate'') = Some kind"
  shows "lands (row_payload d ctx turn g kind p) = lands (row_payload d ctx' turn' h kind p)"
proof -
  show ?thesis
  proof (cases rule: row_kinds [of kind])
    case 1
    obtain i j where "row_payload d ctx turn g kind p = apply_message_id p (Some i)"
      "row_payload d ctx' turn' h kind p = apply_message_id p (Some j)"
      using row_chunk [OF 1 assms] by meson
    then show ?thesis by (simp add: lands_apply_message_id [OF 1 assms])
  next
    case 2
    then show ?thesis by (simp add: row_tool_call)
  next
    case 3
    then show ?thesis by (simp add: row_tool_call_update)
  next
    case 4
    then show ?thesis
      by (cases "js_arr (map_of p ''entries'')")
         (auto simp: row_plan row_plan_update map_plan_None lands_map_plan)
  next
    case 5
    then show ?thesis
      by (cases "js_str (map_of p ''currentModeId'')")
         (auto simp: row_current_mode lands_map_current_mode, simp add: map_current_mode_def)
  next
    case other
    then show ?thesis by (simp add: row_other)
  qed
qed

section \<open>A landed payload is a fixed point\<close>

lemma map_content_item_v2: "is_tool_call_content c \<Longrightarrow> map_content_item d c = c"
  by (cases "obj_of (Some c)")
     (auto simp: map_content_item_def is_tool_call_content_def map_diff_block_def obj_of_Some_iff
       split: option.splits if_splits)

lemma map_content_blocks_v2:
  "is_tool_call_update p \<Longrightarrow> fst (map_content_blocks d p) = p"
proof -
  assume "is_tool_call_update p"
  then have "optional_array p ''content'' is_tool_call_content" by (simp add: is_tool_call_update_def)
  then have "list_all is_tool_call_content xs" if "js_arr (map_of p ''content'') = Some xs" for xs
    using that by (auto simp: optional_array_def empty_prop_def js_arr_Some_iff)
  then have "map (map_content_item d) xs = xs" if "js_arr (map_of p ''content'') = Some xs" for xs
    using that by (intro map_idI map_content_item_v2) (auto simp: list_all_iff)
  then show ?thesis by (auto simp: map_content_blocks_def Let_def split: option.split)
qed

lemma map_content_blocks_tag:
  "map_of (fst (map_content_blocks d p)) ''sessionUpdate'' = map_of p ''sessionUpdate''"
  by (auto simp: map_content_blocks_def Let_def split: option.split)

lemma arm_tool_call_update: "arm_of ''tool_call_update'' = Some is_tool_call_update"
  by (simp add: arm_of_def)

lemma tool_call_lands:
  assumes "map_of p ''sessionUpdate'' = Some (JStr ''tool_call_update'')" "lands p = Some True"
  shows "fst (map_content_blocks d p) = p"
  using lands_arm [OF assms(1) arm_tool_call_update] assms(2) map_content_blocks_v2 by simp

lemma row_fixed:
  assumes tag: "js_str (map_of p ''sessionUpdate'') = Some kind"
    and q: "q = row_payload d ctx turn g kind p" and landed: "lands q = Some True"
  shows "\<exists>k. js_str (map_of q ''sessionUpdate'') = Some k \<and> row_payload d ctx' turn' h k q = q"
proof -
  show ?thesis
  proof (cases rule: row_kinds [of kind])
    case 1
    obtain i where i: "q = apply_message_id p (Some i)" using row_chunk [OF 1 tag] q by meson
    then have id: "js_str (map_of q ''messageId'') = Some i"
      and k: "js_str (map_of q ''sessionUpdate'') = Some kind"
      using tag by (auto simp: apply_message_id_def)
    obtain j where "row_payload d ctx' turn' h kind q = apply_message_id q (Some j)" "j = i"
      using row_chunk [OF 1 k] id by meson
    then show ?thesis using id k by (simp add: apply_message_id_def)
  next
    case 2
    then have "q = fst (map_content_blocks d (map_tool_call p))" using q by (simp add: row_tool_call)
    then have k: "map_of q ''sessionUpdate'' = Some (JStr ''tool_call_update'')"
      by (simp add: map_content_blocks_tag map_tool_call_def)
    then show ?thesis
      using tool_call_lands [OF k landed] by (simp add: row_tool_call_update)
  next
    case 3
    then have k: "map_of q ''sessionUpdate'' = Some (JStr ''tool_call_update'')"
      using q tag by (simp add: row_tool_call_update map_content_blocks_tag js_str_Some_iff)
    then show ?thesis
      using tool_call_lands [OF k landed] by (simp add: row_tool_call_update)
  next
    case 4
    show ?thesis
    proof (cases "js_arr (map_of p ''entries'')")
      case None
      then have "q = p" using 4 q by (auto simp: row_plan row_plan_update map_plan_None)
      then show ?thesis using 4 tag None
        by (auto simp: row_plan row_plan_update map_plan_None)
    next
      case (Some es)
      consider "q = map_plan ctx p" | "q = p" "plan_typed p" "kind = ''plan_update''"
        using 4 q by (auto simp: row_plan row_plan_update split: if_splits)
      then show ?thesis
      proof cases
        case 1
        then have "plan_typed q" "map_of q ''sessionUpdate'' = Some (JStr ''plan_update'')"
          using map_plan_fields [OF Some, of ctx] by (simp_all add: plan_typed_def has_str_def)
        then show ?thesis by (simp add: row_plan_update)
      next
        case 2
        then show ?thesis using tag by (simp add: row_plan_update)
      qed
    qed
  next
    case 5
    show ?thesis
    proof (cases "js_str (map_of p ''currentModeId'')")
      case None
      then have "q = p" using 5 q by (simp add: row_current_mode map_current_mode_def)
      then show ?thesis using 5 tag None by (simp add: row_current_mode map_current_mode_def)
    next
      case (Some c)
      then have "map_of q ''sessionUpdate'' = Some (JStr ''config_option_update'')"
        using 5 q by (simp add: row_current_mode map_current_mode_def Let_def)
      then show ?thesis by (simp add: row_other chunk_kinds_def)
    qed
  next
    case other
    then show ?thesis using q tag by (simp add: row_other)
  qed
qed

section \<open>The map on payloads\<close>

text \<open>The three outcomes of mapping an update.\<close>

lemma map_update_cases:
  assumes "map_update d ctx turn g u = Some (g', m)"
  obtains (opaque) "mu_payload m = u" "mu_version m = 1"
      "\<And>ctx' turn' h. map_update d ctx' turn' h u = Some (h, passthrough u)"
    | (refused) p kind where "u = JObj p" "js_str (map_of p ''sessionUpdate'') = Some kind"
      "lands (row_payload d ctx turn g kind p) = Some False" "mu_payload m = u" "mu_version m = 1"
    | (landed) p kind where "u = JObj p" "js_str (map_of p ''sessionUpdate'') = Some kind"
      "lands (row_payload d ctx turn g kind p) = Some True"
      "mu_payload m = JObj (row_payload d ctx turn g kind p)" "mu_version m = 2"
proof (cases "obj_of (Some u)")
  case None
  then show thesis using assms opaque by (auto simp: map_update_def passthrough_def)
next
  case (Some p)
  then have u: "u = JObj p" by (simp add: obj_of_Some_iff)
  show thesis
  proof (cases "js_str (map_of p ''sessionUpdate'')")
    case None
    then show thesis using assms opaque u by (auto simp: map_update_def passthrough_def)
  next
    case (Some kind)
    obtain h q r i where row: "apply_row d ctx turn g kind p = (h, q, r, i)" by (metis prod.exhaust)
    then have q: "row_payload d ctx turn g kind p = q" by (simp add: row_payload_def)
    from assms obtain l where "lands q = Some l"
      by (auto simp: map_update_def u Some row lands_def)
    then show thesis
      using assms u Some refused [of p kind] landed [of p kind]
      by (cases l) (auto simp: map_update_def row q passthrough_def lands_def)
  qed
qed

lemma map_update_row:
  assumes "js_str (map_of p ''sessionUpdate'') = Some kind"
    and "lands (row_payload d ctx turn g kind p) = Some l"
  shows "\<exists>g' m. map_update d ctx turn g (JObj p) = Some (g', m) \<and>
    mu_payload m = (if l then JObj (row_payload d ctx turn g kind p) else JObj p) \<and>
    mu_version m = (if l then 2 else 1)"
proof -
  obtain h q r i where row: "apply_row d ctx turn g kind p = (h, q, r, i)" by (metis prod.exhaust)
  with assms show ?thesis
    by (auto simp: map_update_def row_payload_def lands_def passthrough_def)
qed

text \<open>
  C35: Mapping is idempotent: mapping an already mapped update, in any later turn and with any state
  of the id generator, gives the same payload and the same version.
\<close>

theorem update_map_idempotent:
  assumes "map_update d ctx turn g u = Some (g', m)"
  shows "\<exists>h' m'. map_update d ctx' turn' h (mu_payload m) = Some (h', m') \<and>
    mu_payload m' = mu_payload m \<and> mu_version m' = mu_version m"
  using assms
proof (cases rule: map_update_cases)
  case opaque
  then show ?thesis by (simp add: passthrough_def)
next
  case (refused p kind)
  then have "lands (row_payload d ctx' turn' h kind p) = Some False"
    using lands_row_independent [OF refused(2)] by metis
  from map_update_row [OF refused(2) this] refused show ?thesis by auto
next
  case (landed p kind)
  let ?q = "row_payload d ctx turn g kind p"
  obtain k where k: "js_str (map_of ?q ''sessionUpdate'') = Some k"
    and fixed: "row_payload d ctx' turn' h k ?q = ?q"
    using row_fixed [OF landed(2) refl landed(3)] by blast
  from map_update_row [OF k, of d ctx' turn' h True] fixed landed show ?thesis by auto
qed

definition sample_descriptor :: map_descriptor where
  "sample_descriptor = \<lparr>md_updates = [], md_diff_is_fragment = True\<rparr>"

definition sample_context :: map_context where
  "sample_context = \<lparr>mc_plan_id = ''plan_t'', mc_modes = None\<rparr>"

definition v1_diff_call :: json where
  "v1_diff_call = JObj
     [(''sessionUpdate'', JStr ''tool_call''), (''toolCallId'', JStr ''c''),
      (''content'', JArr [JObj [(''type'', JStr ''diff''), (''path'', JStr ''f''),
         (''oldText'', JNull), (''newText'', JStr ''x'')]])]"

lemma v1_diff_call_maps:
  "case map_update sample_descriptor sample_context (Some ''t'') fresh_ids v1_diff_call of
     None \<Rightarrow> False
   | Some (g, m) \<Rightarrow> mu_version m = 2 \<and> mu_rule m = ''tool_call->tool_call_update+diff->changes''"
  by code_simp

theorem update_map_idempotent_witness:
  "\<exists>g m h m'. map_update sample_descriptor sample_context (Some ''t'') fresh_ids v1_diff_call =
       Some (g, m) \<and> mu_version m = 2 \<and>
     map_update sample_descriptor sample_context None g (mu_payload m) = Some (h, m') \<and>
     mu_payload m' = mu_payload m"
proof -
  obtain g m where m: "map_update sample_descriptor sample_context (Some ''t'') fresh_ids v1_diff_call
      = Some (g, m)" "mu_version m = 2"
    using v1_diff_call_maps by (auto split: option.splits)
  from update_map_idempotent [OF m(1), of sample_context None g] m show ?thesis by blast
qed

text \<open>
  C36: The version is honest: a payload reported at version 2 is an instance of the arm its tag names
  (or its tag is an inherited member's name), and one reported at version 1 is the agent's own,
  untouched.
\<close>

theorem version_is_honest:
  assumes "map_update d ctx turn g u = Some (g', m)"
  shows "(mu_version m = 1 \<and> mu_payload m = u) \<or>
    (mu_version m = 2 \<and> (\<exists>q kind. mu_payload m = JObj q \<and> \<not> bad_meta q \<and>
       js_str (map_of q ''sessionUpdate'') = Some kind \<and>
       (case arm_of kind of Some arm \<Rightarrow> arm q | None \<Rightarrow> kind \<in> {''constructor'', ''toString''})))"
  using assms
proof (cases rule: map_update_cases)
  case (landed p kind)
  let ?q = "row_payload d ctx turn g kind p"
  obtain k where k: "js_str (map_of ?q ''sessionUpdate'') = Some k"
    using row_fixed [OF landed(2) refl landed(3)] by blast
  with landed(3) have "\<not> bad_meta ?q \<and>
      (case arm_of k of Some arm \<Rightarrow> arm ?q | None \<Rightarrow> k \<in> {''constructor'', ''toString''})"
    by (auto simp: lands_def is_v2_session_update_def call_inherited_def split: option.splits
        if_splits)
  with k landed show ?thesis by blast
qed auto

theorem version_is_honest_witness:
  "\<exists>g m. map_update sample_descriptor sample_context (Some ''t'') fresh_ids v1_diff_call = Some (g, m) \<and>
     (\<exists>q. mu_payload m = JObj q \<and> \<not> bad_meta q)"
proof -
  obtain g m where m: "map_update sample_descriptor sample_context (Some ''t'') fresh_ids v1_diff_call
      = Some (g, m)" "mu_version m = 2"
    using v1_diff_call_maps by (auto split: option.splits)
  from version_is_honest [OF m(1)] m show ?thesis by auto
qed

lemma inherited_tags:
  "list_all (\<lambda>k. arm_of k = None \<and> k \<notin> set chunk_kinds \<and>
     k \<notin> set [''tool_call'', ''tool_call_update'', ''plan'', ''plan_update'', ''current_mode_update'',
               ''config_option_update'']) inherited_members"
  by code_simp

lemma inherited_no_arm: "k \<in> set inherited_members \<Longrightarrow> arm_of k = None"
  using inherited_tags by (simp add: list_all_iff)

lemma inherited_not_row:
  assumes "k \<in> set inherited_members"
  shows "k \<notin> set chunk_kinds"
    "k \<notin> {''tool_call'', ''tool_call_update'', ''plan'', ''plan_update'', ''current_mode_update''}"
    "k \<notin> {''tool_call_update'', ''plan_update'', ''config_option_update''}"
  using inherited_tags assms by (fastforce simp: list_all_iff)+

lemma row_target:
  assumes "js_str (map_of p ''sessionUpdate'') = Some kind"
  shows "\<exists>k. js_str (map_of (row_payload d ctx turn g kind p) ''sessionUpdate'') = Some k \<and>
    (k = kind \<or> k \<in> {''tool_call_update'', ''plan_update'', ''config_option_update''})"
proof (cases rule: row_kinds [of kind])
  case 1
  obtain i where "row_payload d ctx turn g kind p = apply_message_id p (Some i)"
    using row_chunk [OF 1 assms] by meson
  then show ?thesis using assms by (simp add: apply_message_id_def)
next
  case 2
  then show ?thesis by (simp add: row_tool_call map_content_blocks_tag map_tool_call_def)
next
  case 3
  then show ?thesis using assms by (simp add: row_tool_call_update map_content_blocks_tag)
next
  case 4
  then show ?thesis using assms
    by (cases "js_arr (map_of p ''entries'')")
       (auto simp: row_plan row_plan_update map_plan_None map_plan_fields)
next
  case 5
  then show ?thesis using assms
    by (cases "js_str (map_of p ''currentModeId'')")
       (simp_all add: row_current_mode map_current_mode_def Let_def)
next
  case other
  then show ?thesis using assms by (simp add: row_other)
qed

lemma lands_None:
  "lands q = None \<Longrightarrow> js_str (map_of q ''sessionUpdate'') = Some k \<Longrightarrow> k \<in> set inherited_members"
  by (auto simp: lands_def is_v2_session_update_def split: option.splits if_splits)

text \<open>
  The map raises a \<open>TypeError\<close> exactly on an update whose tag is the name of a member that every
  JavaScript object inherits, other than the two that can be called without a receiver.
\<close>

theorem map_throws_iff:
  "map_update d ctx turn g u = None \<longleftrightarrow>
     (\<exists>p kind. u = JObj p \<and> map_of p ''sessionUpdate'' = Some (JStr kind) \<and> \<not> bad_meta p \<and>
        kind \<in> set inherited_members \<and> kind \<noteq> ''constructor'' \<and> kind \<noteq> ''toString'')"
proof (cases "\<exists>p kind. u = JObj p \<and> map_of p ''sessionUpdate'' = Some (JStr kind)")
  case False
  then have "map_update d ctx turn g u \<noteq> None"
    by (auto simp: map_update_def js_str_Some_iff obj_of_Some_iff split: option.splits)
  with False show ?thesis by auto
next
  case True
  then obtain p kind where u: "u = JObj p" and tag: "map_of p ''sessionUpdate'' = Some (JStr kind)"
    by blast
  have none: "map_update d ctx turn g u = None \<longleftrightarrow> lands (row_payload d ctx turn g kind p) = None"
    by (auto simp: map_update_def u tag lands_def row_payload_def split: prod.split)
  show ?thesis
  proof (cases "kind \<in> set inherited_members")
    case True
    then have "row_payload d ctx turn g kind p = p"
      by (intro row_other inherited_not_row)
    moreover have "arm_of kind = None" using True by (rule inherited_no_arm)
    ultimately show ?thesis using u tag True none
      by (auto simp: lands_def is_v2_session_update_def call_inherited_def)
  next
    case False
    show ?thesis
    proof (cases "lands (row_payload d ctx turn g kind p)")
      case None
      obtain k where k: "js_str (map_of (row_payload d ctx turn g kind p) ''sessionUpdate'') = Some k"
        "k = kind \<or> k \<in> {''tool_call_update'', ''plan_update'', ''config_option_update''}"
        using row_target [of p kind d ctx turn g] tag by (metis js_str.simps(1))
      with lands_None [OF None k(1)] False inherited_not_row(3) [of k] show ?thesis by blast
    next
      case (Some l)
      with none u tag False show ?thesis by auto
    qed
  qed
qed

lemma hostile_tag_throws:
  "map_update d ctx turn g (JObj [(''sessionUpdate'', JStr ''valueOf'')]) = None"
  by (simp add: map_throws_iff bad_meta_def empty_prop_def inherited_members_def)

section \<open>What the aggregate reads back\<close>

text \<open>A v1 diff block as the aggregate would have read it, with the descriptor's fragment quirk.\<close>

definition v1_change :: "map_descriptor \<Rightarrow> obj \<Rightarrow> string \<Rightarrow> string \<Rightarrow> file_change" where
  "v1_change d b path new_text =
     \<lparr>fc_path = path,
      fc_operation = (if js_str (map_of b ''oldText'') = None then ''add'' else ''modify''),
      fc_old_text = js_str (map_of b ''oldText''), fc_new_text = new_text,
      fc_fragment = md_diff_is_fragment d\<rparr>"

text \<open>
  The diff map loses nothing the aggregate needs: a v1 diff block, once mapped, is read back by
  the turn aggregate as the very change it described, path, both texts and operation included, with
  the descriptor's word on whether the text is a fragment.
\<close>

theorem mapped_diff_reads_back:
  assumes "\<not> is_v2_diff b" "js_str (map_of b ''path'') = Some path"
    and "js_str (map_of b ''newText'') = Some new_text"
  shows "read_diff_block (JObj (map_diff_block d b)) = Some (v1_change d b path new_text)"
proof -
  let ?meta = "set_prop ''omni/v1Diff'' (JObj [(''oldText'',
      case js_str (map_of b ''oldText'') of None \<Rightarrow> JNull | Some s \<Rightarrow> JStr s),
      (''newText'', JStr new_text), (''fragment'', JBool (md_diff_is_fragment d))])
      (as_record (map_of b ''_meta''))"
  have "map_of ?meta ''omni/v1Diff'' = Some (JObj [(''oldText'',
      case js_str (map_of b ''oldText'') of None \<Rightarrow> JNull | Some s \<Rightarrow> JStr s),
      (''newText'', JStr new_text), (''fragment'', JBool (md_diff_is_fragment d))])"
    by simp
  then show ?thesis using assms
    by (cases "js_str (map_of b ''oldText'')")
       (simp_all add: read_diff_block_def map_diff_block_def v1_change_def obj_field_def Let_def)
qed

theorem mapped_diff_reads_back_witness:
  "read_diff_block (JObj (map_diff_block sample_descriptor
      [(''type'', JStr ''diff''), (''path'', JStr ''f''), (''newText'', JStr ''x'')])) =
   Some (v1_change sample_descriptor
      [(''type'', JStr ''diff''), (''path'', JStr ''f''), (''newText'', JStr ''x'')] ''f'' ''x'')"
  by (rule mapped_diff_reads_back) (simp_all add: is_v2_diff_def)

text \<open>
  An agent's own \<open>state_update\<close> is carried as it is, at version 2; the aggregate takes it for the
  daemon's and reports the turn complete, with whatever patch the agent wrote under \<open>_meta\<close>.
\<close>

definition forged_idle :: json where
  "forged_idle = JObj
     [(''sessionUpdate'', JStr ''state_update''), (''state'', JStr ''idle''),
      (''stopReason'', JStr ''end_turn''),
      (''_meta'', JObj [(''omni/patch'', JObj [(''quality'', JStr ''exact''),
         (''source'', JStr ''git''), (''text'', JStr ''forged'')])])]"

lemma agent_idle_ends_turn:
  "map_option (\<lambda>r. (mu_payload (snd r), mu_version (snd r)))
     (map_update d ctx turn g forged_idle) = Some (forged_idle, 2) \<and>
   map_option (\<lambda>r. (tr_verdict r, tr_stop_reason r, tr_patch r))
     (reduce_turn ''t'' [sample_envelope 1 False (Some ''t'') (SessionUpdate forged_idle)]) =
   Some (VOk, Some ''end_turn'', Some ''forged'')"
proof
  show "map_option (\<lambda>r. (mu_payload (snd r), mu_version (snd r)))
      (map_update d ctx turn g forged_idle) = Some (forged_idle, 2)"
    by (simp add: map_update_def forged_idle_def apply_row_def chunk_kinds_def
        is_v2_session_update_def arm_of_def is_state_update_def bad_meta_def empty_prop_def
        optional_string_def has_str_def)
  show "map_option (\<lambda>r. (tr_verdict r, tr_stop_reason r, tr_patch r))
      (reduce_turn ''t'' [sample_envelope 1 False (Some ''t'') (SessionUpdate forged_idle)]) =
      Some (VOk, Some ''end_turn'', Some ''forged'')"
    by code_simp
qed

end
