(* ===== verification/Dialects.thy ===== *)
theory Dialects
  imports UpdateMap TurnFold
begin

text \<open>
  The two vendor dialects of \<open>core/src/normalizer/vendor/dialects.ts\<close>: the rate-limit block and the
  structured patch, rebuilt as a unified git patch. The printing of a fractional number is a parameter.
\<close>

section \<open>The rate limit\<close>

text \<open>\<open>readRateLimit\<close>: the status, whether it is one of the enumerated terminal ones, and the block.\<close>

record rate_signal =
  rs_status :: string
  rs_terminal :: bool
  rs_utilization :: "rat option"
  rs_resets_at :: "rat option"
  rs_raw :: obj

definition terminal_rate_statuses :: "string list" where
  "terminal_rate_statuses = [''rejected'', ''blocked'', ''exhausted'', ''over_limit'']"

definition read_rate_limit :: "json \<Rightarrow> rate_signal option" where
  "read_rate_limit value =
     (case obj_of (Some value) of
        None \<Rightarrow> None
      | Some raw \<Rightarrow>
         (case js_str (map_of raw ''status'') of
            None \<Rightarrow> None
          | Some status \<Rightarrow>
              Some \<lparr>rs_status = status, rs_terminal = (status \<in> set terminal_rate_statuses),
                    rs_utilization = num_of (map_of raw ''utilization''),
                    rs_resets_at = num_of (map_of raw ''resetsAt''), rs_raw = raw\<rparr>))"

section \<open>The structured patch\<close>

text \<open>A vendor patch: its format is the constant \<open>git_patch\<close>; the text and the source vary.\<close>

type_synonym vendor_patch = "string \<times> string"

record hunk =
  hk_old_start :: rat
  hk_old_lines :: rat
  hk_new_start :: rat
  hk_new_lines :: rat
  hk_lines :: "string list"

fun all_strings :: "json list \<Rightarrow> string list option" where
  "all_strings [] = Some []"
| "all_strings (JStr s # vs) = map_option (\<lambda>ss. s # ss) (all_strings vs)"
| "all_strings (_ # vs) = None"

definition read_hunk :: "json \<Rightarrow> hunk option" where
  "read_hunk raw =
     (case obj_of (Some raw) of
        None \<Rightarrow> None
      | Some h \<Rightarrow>
         (case (num_of (map_of h ''oldStart''), num_of (map_of h ''oldLines''),
                num_of (map_of h ''newStart''), num_of (map_of h ''newLines''),
                Option.bind (js_arr (map_of h ''lines'')) all_strings) of
            (Some os, Some ol, Some ns, Some nl, Some ls) \<Rightarrow>
              Some \<lparr>hk_old_start = os, hk_old_lines = ol, hk_new_start = ns, hk_new_lines = nl,
                    hk_lines = ls\<rparr>
          | _ \<Rightarrow> None))"

fun read_hunk_list :: "json list \<Rightarrow> hunk list option" where
  "read_hunk_list [] = Some []"
| "read_hunk_list (v # vs) =
     (case read_hunk v of None \<Rightarrow> None | Some h \<Rightarrow> map_option (\<lambda>hs. h # hs) (read_hunk_list vs))"

definition read_hunks :: "json option \<Rightarrow> hunk list option" where
  "read_hunks value = Option.bind (js_arr value) read_hunk_list"

text \<open>\<open>countHunk\<close>: the old and the new line count of a hunk's body, or nothing on an unknown marker.\<close>

fun count_hunk :: "string list \<Rightarrow> nat \<Rightarrow> nat \<Rightarrow> (nat \<times> nat) option" where
  "count_hunk [] old new = Some (old, new)"
| "count_hunk ([] # ls) old new = count_hunk ls (old + 1) (new + 1)"
| "count_hunk ((c # cs) # ls) old new =
     (if c = CHR 0x5C then count_hunk ls old new
      else if c = CHR ''-'' then count_hunk ls (old + 1) new
      else if c = CHR ''+'' then count_hunk ls old (new + 1)
      else if c = CHR '' '' then count_hunk ls (old + 1) (new + 1)
      else None)"

definition slashes :: "string \<Rightarrow> string" where
  "slashes p = map (\<lambda>c. if c = CHR 0x5C then CHR ''/'' else c) p"

definition is_letter :: "char \<Rightarrow> bool" where
  "is_letter c \<longleftrightarrow>
     (65 \<le> (of_char c :: nat) \<and> (of_char c :: nat) \<le> 90) \<or>
     (97 \<le> (of_char c :: nat) \<and> (of_char c :: nat) \<le> 122)"

text \<open>The drive prefix \<open>C:/\<close> loses its colon.\<close>

fun drop_drive_colon :: "string \<Rightarrow> string" where
  "drop_drive_colon (c # d # e # rest) =
     (if is_letter c \<and> d = CHR '':'' \<and> e = CHR ''/'' then c # e # rest else c # d # e # rest)"
| "drop_drive_colon p = p"

fun starts_with :: "string \<Rightarrow> string \<Rightarrow> bool" where
  "starts_with [] s = True"
| "starts_with (p # ps) [] = False"
| "starts_with (p # ps) (c # cs) = (p = c \<and> starts_with ps cs)"

definition strip_trailing_slashes :: "string \<Rightarrow> string" where
  "strip_trailing_slashes p = rev (dropWhile (\<lambda>c. c = CHR ''/'') (rev p))"

definition relativize :: "string \<Rightarrow> string option \<Rightarrow> string" where
  "relativize file_path base_dir =
     (let normalized = slashes file_path;
          base = strip_trailing_slashes (slashes (option_or '''' base_dir)) @ ''/''
      in if base_dir \<noteq> None \<and> base_dir \<noteq> Some '''' \<and> starts_with base normalized
         then drop (length base) normalized
         else drop_drive_colon (dropWhile (\<lambda>c. c = CHR ''/'') normalized))"

abbreviation newline :: char where "newline \<equiv> CHR 0x0A"

fun join_lines :: "string list \<Rightarrow> string" where
  "join_lines [] = []"
| "join_lines [l] = l"
| "join_lines (l # m # ls) = l @ newline # join_lines (m # ls)"

text \<open>\<open>String(n)\<close>: a whole number below 1e21 prints its digits; \<open>frac_text\<close> prints the others.\<close>

definition num_text :: "(rat \<Rightarrow> string) \<Rightarrow> rat \<Rightarrow> string" where
  "num_text frac_text q =
     (let n = \<lfloor>q\<rfloor> in
      if of_int n = q \<and> \<bar>n\<bar> < 10 ^ 21
      then (if n < 0 then ''-'' else '''') @ decimal (nat \<bar>n\<bar>)
      else frac_text q)"

definition creation_lines :: "string \<Rightarrow> string list" where
  "creation_lines content =
     (let trailing = (content \<noteq> [] \<and> last content = newline);
          body = (if trailing then butlast content else content);
          ls = (if body = [] then [] else split_on newline body)
      in map (\<lambda>l. CHR ''+'' # l) ls @
         (if \<not> trailing \<and> ls \<noteq> [] then [CHR 0x5C # '' No newline at end of file''] else []))"

definition content_line_count :: "string \<Rightarrow> nat" where
  "content_line_count content =
     (let body = (if content \<noteq> [] \<and> last content = newline then butlast content else content)
      in if body = [] then 0 else length (split_on newline body))"

definition creation_patch :: "string \<Rightarrow> string \<Rightarrow> string" where
  "creation_patch rel content =
     join_lines
       ([''diff --git a/'' @ rel @ '' b/'' @ rel, ''new file mode 100644'', ''--- /dev/null'',
         ''+++ b/'' @ rel,
         ''@@ -0,0 +1,'' @ decimal (content_line_count content) @ '' @@''] @
        creation_lines content @ [''''])"

definition hunk_header :: "(rat \<Rightarrow> string) \<Rightarrow> hunk \<Rightarrow> string" where
  "hunk_header frac_text h =
     ''@@ -'' @ num_text frac_text (hk_old_start h) @ '','' @ num_text frac_text (hk_old_lines h) @
     '' +'' @ num_text frac_text (hk_new_start h) @ '','' @ num_text frac_text (hk_new_lines h) @
     '' @@''"

text \<open>The loop over the hunks, abandoned at the first whose header disagrees with its body.\<close>

fun hunk_body :: "(rat \<Rightarrow> string) \<Rightarrow> hunk list \<Rightarrow> string list option" where
  "hunk_body frac_text [] = Some []"
| "hunk_body frac_text (h # hs) =
     (case count_hunk (hk_lines h) 0 0 of
        None \<Rightarrow> None
      | Some (old, new) \<Rightarrow>
          if of_nat old \<noteq> hk_old_lines h \<or> of_nat new \<noteq> hk_new_lines h then None
          else map_option (\<lambda>rest. hunk_header frac_text h # hk_lines h @ rest)
                 (hunk_body frac_text hs))"

definition read_structured_patch ::
  "(rat \<Rightarrow> string) \<Rightarrow> json \<Rightarrow> string option \<Rightarrow> vendor_patch option" where
  "read_structured_patch frac_text value base_dir =
     (case obj_of (Some value) of
        None \<Rightarrow> None
      | Some response \<Rightarrow>
         (case (js_str (map_of response ''filePath''), read_hunks (map_of response ''structuredPatch'')) of
            (Some file_path, Some hunks) \<Rightarrow>
             (let rel = relativize file_path base_dir in
              if hunks = [] then
                (case js_str (map_of response ''content'') of
                   None \<Rightarrow> None
                 | Some content \<Rightarrow>
                     if map_of response ''originalFile'' \<noteq> Some JNull then None
                     else Some (creation_patch rel content, ''vendor''))
              else if js_str (map_of response ''originalFile'') = None then None
              else map_option
                     (\<lambda>body. (join_lines ([''diff --git a/'' @ rel @ '' b/'' @ rel,
                                ''--- a/'' @ rel, ''+++ b/'' @ rel] @ body) @ [newline], ''vendor''))
                     (hunk_body frac_text hunks))
          | _ \<Rightarrow> None))"

end
