(* ===== verification/TurnLifecycle.thy ===== *)
theory TurnLifecycle
  imports Dialects
begin

text \<open>
  The turn boundary and the forced close-out ladder: \<open>core/src/normalizer/turn-lifecycle.ts\<close> and the
  mutable cell of \<open>normalizer/normalizer.ts\<close>. The reducer is pure: a state and an input give a state
  and an output (events to append, the next tick, the rung to perform). What it raises is the left of a
  sum. The regular-expression test of the descriptor's error rules is a parameter of the configuration;
  message ids come from \<open>synthesizedIds\<close>, the default of \<open>createNormalizer\<close>.
\<close>

section \<open>State, inputs, outputs\<close>

datatype phase = PhIdle | PhRunning | PhSettling | PhClosing

datatype settle_reason = SQuiet | SHard | SError | SGone | SDrained | SCancelled

datatype close_out_action = ActCloseStdin | ActDrain | ActCancel | ActTerminate

record lifecycle =
  tl_phase :: phase
  tl_turn :: "string option"
  tl_deadline :: "ms option"
  tl_cutoff :: "ms option"
  tl_stop :: "string option"
  tl_usage :: "json option"
  tl_warnings :: "turn_warning list"
  tl_patch :: "vendor_patch option"
  tl_meta :: "obj option"
  tl_rung :: nat
  tl_reason :: "settle_reason option"

definition idle_state :: lifecycle where
  "idle_state = \<lparr>tl_phase = PhIdle, tl_turn = None, tl_deadline = None, tl_cutoff = None,
     tl_stop = None, tl_usage = None, tl_warnings = [], tl_patch = None, tl_meta = None,
     tl_rung = 0, tl_reason = None\<rparr>"

datatype extension_role = AsPatch | AsRateLimit | AsProvenance | AsOpaque
datatype dialect = StructuredPatch | RateLimit

record extension =
  ex_pointer :: string
  ex_role :: extension_role
  ex_dialect :: "dialect option"

record stderr_rule =
  sr_id :: string
  sr_message_matches :: "string option"

text \<open>
  \<open>lc_regex pattern line\<close> is \<open>new RegExp(pattern).test(line)\<close>, \<open>None\<close> when the pattern does not
  compile. \<open>lc_extensions\<close> lists the values of the descriptor's object in order.
\<close>

record lifecycle_config =
  lc_quiet :: ms
  lc_hard :: ms
  lc_drain_grace :: ms
  lc_cancel_grace :: ms
  lc_descriptor :: map_descriptor
  lc_extensions :: "extension list"
  lc_error_rules :: "stderr_rule list"
  lc_base_dir :: "string option"
  lc_modes :: "obj option"
  lc_regex :: "string \<Rightarrow> string \<Rightarrow> bool option"
  lc_frac_text :: "rat \<Rightarrow> string"

text \<open>\<open>createNormalizer\<close>'s checks of the four durations.\<close>

definition config_ok :: "lifecycle_config \<Rightarrow> bool" where
  "config_ok c \<longleftrightarrow> 0 \<le> lc_quiet c \<and> 1 \<le> lc_hard c \<and> 0 \<le> lc_drain_grace c \<and> 1 \<le> lc_cancel_grace c"

datatype turn_input =
    PromptSent string ms
  | AgentUpdate json ms bool
  | PromptResult string "json option" ms "obj option"
  | PromptError error_body ms
  | ProcessGone error_body string ms
  | CloseRequested ms
  | Drained ms
  | StderrLine string ms
  | ParkedInput string ms
  | ResolvedInput string ms
  | Tick ms

record turn_output =
  out_emit :: "event_input list"
  out_tick :: "ms option"
  out_phase :: phase
  out_turn :: "string option"
  out_settled :: "settle_reason option"
  out_action :: "close_out_action option"

definition turn_out ::
  "event_input list \<Rightarrow> lifecycle \<Rightarrow> ms option \<Rightarrow> settle_reason option \<Rightarrow> close_out_action option \<Rightarrow>
     turn_output" where
  "turn_out emit s tick settled action =
     \<lparr>out_emit = emit, out_tick = tick, out_phase = tl_phase s, out_turn = tl_turn s,
      out_settled = settled, out_action = action\<rparr>"

text \<open>What a step raises: the map's \<open>TypeError\<close>, or \<open>OmniError("internal", "unknown turn input")\<close>.\<close>

datatype step_error = MapRaised | UnknownInput

section \<open>The synthesized events\<close>

definition update_event :: "string option \<Rightarrow> nat \<Rightarrow> json \<Rightarrow> event_input" where
  "update_event turn version payload =
     \<lparr>in_body = SessionUpdate payload, in_version = int version, in_turn = turn, in_replay = False\<rparr>"

definition running_event :: "string \<Rightarrow> event_input" where
  "running_event turn = update_event (Some turn) 2
     (JObj [(''sessionUpdate'', JStr ''state_update''), (''state'', JStr ''running'')])"

fun source_text :: "warning_source \<Rightarrow> string" where
  "source_text WUsageMeta = ''usage_meta''"
| "source_text WStderr = ''stderr''"
| "source_text WPolicy = ''policy''"
| "source_text WToolStatus = ''tool_status''"
| "source_text WPatch = ''patch''"
| "source_text WWatchdog = ''watchdog''"

definition warning_json :: "turn_warning \<Rightarrow> json" where
  "warning_json w =
     JObj ([(''code'', JStr (tw_code w)), (''message'', JStr (tw_message w)),
            (''source'', JStr (source_text (tw_source w)))] @
           (case tw_detail w of None \<Rightarrow> [] | Some d \<Rightarrow> [(''detail'', d)]))"

definition vendor_patch_json :: "vendor_patch \<Rightarrow> json" where
  "vendor_patch_json p =
     JObj [(''format'', JStr ''git_patch''), (''text'', JStr (fst p)), (''source'', JStr (snd p))]"

definition v2_usage :: "json option \<Rightarrow> obj option" where
  "v2_usage raw =
     (case obj_of raw of
        None \<Rightarrow> None
      | Some u \<Rightarrow>
          if has_num u ''totalTokens'' \<and> has_num u ''inputTokens'' \<and> has_num u ''outputTokens''
          then Some u else None)"

text \<open>The provider's keys first, the two keys the reducer owns after them.\<close>

definition idle_meta :: "lifecycle \<Rightarrow> obj" where
  "idle_meta s =
     (let m0 = option_or [] (tl_meta s);
          m1 = (if tl_warnings s \<noteq> []
                then set_prop ''omni/warnings'' (JArr (map warning_json (tl_warnings s))) m0 else m0)
      in case tl_patch s of
           None \<Rightarrow> m1
         | Some p \<Rightarrow> set_prop ''omni/vendorPatch'' (vendor_patch_json p) m1)"

definition idle_payload :: "lifecycle \<Rightarrow> json" where
  "idle_payload s =
     JObj ([(''sessionUpdate'', JStr ''state_update''), (''state'', JStr ''idle''),
            (''stopReason'', str_json (tl_stop s))] @
           (case v2_usage (tl_usage s) of None \<Rightarrow> [] | Some u \<Rightarrow> [(''usage'', JObj u)]) @
           (if idle_meta s = [] then [] else [(''_meta'', JObj (idle_meta s))]))"

definition idle_event :: "lifecycle \<Rightarrow> string \<Rightarrow> event_input" where
  "idle_event s turn = update_event (Some turn) 2 (idle_payload s)"

definition error_event :: "string option \<Rightarrow> error_body \<Rightarrow> string option \<Rightarrow> event_input" where
  "error_event turn body stderr_tail =
     \<lparr>in_body = ErrorEv (case stderr_tail of None \<Rightarrow> body | Some t \<Rightarrow> body\<lparr>err_stderr_tail := Some t\<rparr>),
      in_version = 2, in_turn = turn, in_replay = False\<rparr>"

definition mark_replay :: "event_input list \<Rightarrow> bool \<Rightarrow> event_input list" where
  "mark_replay es replay = (if replay then map (\<lambda>e. e\<lparr>in_replay := True\<rparr>) es else es)"

definition agent_error :: "string \<Rightarrow> error_body" where
  "agent_error message =
     \<lparr>err_code = AgentError, err_message = message, err_acp = None, err_stderr_tail = None\<rparr>"

definition next_deadline :: "ms \<Rightarrow> lifecycle_config \<Rightarrow> ms \<Rightarrow> ms" where
  "next_deadline now c cutoff = min (now + lc_quiet c) cutoff"

section \<open>Accumulating\<close>

text \<open>The identity of an advisory, \<open>`${code}\u0000${message}`\<close>.\<close>

definition warning_key :: "turn_warning \<Rightarrow> string" where
  "warning_key w = tw_code w @ CHR 0x00 # tw_message w"

fun unseen_warnings :: "string list \<Rightarrow> turn_warning list \<Rightarrow> turn_warning list" where
  "unseen_warnings seen [] = []"
| "unseen_warnings seen (w # ws) =
     (if warning_key w \<in> set seen then unseen_warnings seen ws
      else w # unseen_warnings (warning_key w # seen) ws)"

definition add_warnings :: "turn_warning list \<Rightarrow> turn_warning list \<Rightarrow> turn_warning list" where
  "add_warnings existing incoming =
     existing @ unseen_warnings (map warning_key existing) incoming"

text \<open>\<open>mergePatch\<close>: a reconstruction already contained in the text is not appended again.\<close>

fun contains :: "string \<Rightarrow> string \<Rightarrow> bool" where
  "contains [] sub = (sub = [])"
| "contains (c # cs) sub = (starts_with sub (c # cs) \<or> contains cs sub)"

fun merge_patch :: "vendor_patch option \<Rightarrow> vendor_patch option \<Rightarrow> vendor_patch option" where
  "merge_patch existing None = existing"
| "merge_patch None (Some n) = Some n"
| "merge_patch (Some e) (Some n) =
     (if contains (fst e) (fst n) then Some e else Some (fst e @ fst n, snd e))"

text \<open>\<open>readExtensions\<close>: the readout, one extension of the descriptor after another.\<close>

record readout =
  ro_warnings :: "turn_warning list"
  ro_patch :: "vendor_patch option"
  ro_error :: "error_body option"

definition no_extensions :: readout where
  "no_extensions = \<lparr>ro_warnings = [], ro_patch = None, ro_error = None\<rparr>"

definition rate_warning :: "rate_signal \<Rightarrow> turn_warning" where
  "rate_warning g =
     \<lparr>tw_code = ''rate_limit'', tw_message = ''rate-limit status '' @ rs_status g,
      tw_source = WUsageMeta, tw_detail = Some (JObj (rs_raw g))\<rparr>"

definition read_extension :: "lifecycle_config \<Rightarrow> obj \<Rightarrow> readout \<Rightarrow> extension \<Rightarrow> readout" where
  "read_extension c meta r e =
     (case resolve_pointer (JObj meta) (ex_pointer e) of
        None \<Rightarrow> r
      | Some value \<Rightarrow>
          if ex_role e = AsPatch \<and> ex_dialect e = Some StructuredPatch then
            r\<lparr>ro_patch := merge_patch (ro_patch r)
                 (read_structured_patch (lc_frac_text c) value (lc_base_dir c))\<rparr>
          else if ex_role e = AsRateLimit \<and> ex_dialect e = Some RateLimit then
            (case read_rate_limit value of
               None \<Rightarrow> r
             | Some g \<Rightarrow>
                 if rs_terminal g then
                   r\<lparr>ro_error := Some (agent_error
                        (''the agent reported rate-limit status '' @ rs_status g))\<rparr>
                 else if rs_status g \<noteq> ''allowed'' then
                   r\<lparr>ro_warnings := ro_warnings r @ [rate_warning g]\<rparr>
                 else r)
          else r)"

definition read_extensions :: "lifecycle_config \<Rightarrow> json \<Rightarrow> readout" where
  "read_extensions c payload =
     (case obj_of (Option.bind (obj_of (Some payload)) (\<lambda>p. map_of p ''_meta'')) of
        None \<Rightarrow> no_extensions
      | Some meta \<Rightarrow> foldl (read_extension c meta) no_extensions (lc_extensions c))"

section \<open>One agent update\<close>

definition plan_context :: "lifecycle_config \<Rightarrow> lifecycle \<Rightarrow> map_context" where
  "plan_context c s =
     \<lparr>mc_plan_id = ''plan_'' @ option_or ''no-turn'' (tl_turn s), mc_modes = lc_modes c\<rparr>"

definition update_events :: "lifecycle \<Rightarrow> mapped_update \<Rightarrow> readout \<Rightarrow> event_input list" where
  "update_events s m r =
     (case ro_error r of None \<Rightarrow> [] | Some b \<Rightarrow> [error_event (tl_turn s) b None]) @
     (if mu_keep m then [update_event (tl_turn s) (mu_version m) (mu_payload m)] else [])"

definition absorb :: "lifecycle \<Rightarrow> readout \<Rightarrow> lifecycle" where
  "absorb s r = s\<lparr>tl_warnings := add_warnings (tl_warnings s) (ro_warnings r),
                  tl_patch := or_else (ro_patch r) (tl_patch s)\<rparr>"

text \<open>The quiet window moves while settling and on the first rung of the ladder.\<close>

definition push_deadline :: "lifecycle_config \<Rightarrow> ms \<Rightarrow> lifecycle \<Rightarrow> lifecycle" where
  "push_deadline c now s =
     (case tl_cutoff s of
        None \<Rightarrow> s
      | Some cutoff \<Rightarrow>
          if (tl_rung s = 1 \<and> tl_deadline s \<noteq> None) \<or> tl_phase s = PhSettling
          then s\<lparr>tl_deadline := Some (next_deadline now c cutoff)\<rparr> else s)"

definition agent_update ::
  "lifecycle_config \<Rightarrow> id_generator \<Rightarrow> lifecycle \<Rightarrow> json \<Rightarrow> ms \<Rightarrow> bool \<Rightarrow>
     (id_generator \<times> lifecycle \<times> turn_output) option" where
  "agent_update c g s update now replay =
     (case map_update (lc_descriptor c) (plan_context c s) (tl_turn s) g update of
        None \<Rightarrow> None
      | Some (g', m) \<Rightarrow>
          (let r = read_extensions c (mu_payload m);
               next = push_deadline c now (absorb s r)
           in Some (g', next,
                turn_out (mark_replay (update_events s m r) replay) next (tl_deadline next) None None)))"

section \<open>Standard error\<close>

definition fatal_prefix :: string where
  "fatal_prefix = ''fatalStderr''"

definition rule_matches :: "lifecycle_config \<Rightarrow> string \<Rightarrow> stderr_rule \<Rightarrow> bool" where
  "rule_matches c line r \<longleftrightarrow>
     starts_with fatal_prefix (sr_id r) \<and>
     (case sr_message_matches r of None \<Rightarrow> False | Some p \<Rightarrow> lc_regex c p line = Some True)"

definition stderr_line ::
  "lifecycle_config \<Rightarrow> lifecycle \<Rightarrow> string \<Rightarrow> lifecycle \<times> turn_output" where
  "stderr_line c s line =
     (case List.find (rule_matches c line) (lc_error_rules c) of
        None \<Rightarrow> (s, turn_out [] s (tl_deadline s) None None)
      | Some r \<Rightarrow>
          (let next = s\<lparr>tl_warnings := add_warnings (tl_warnings s)
                 [\<lparr>tw_code = ''fatal_stderr'', tw_message = ''stderr matched '' @ sr_id r,
                   tw_source = WStderr, tw_detail = None\<rparr>]\<rparr>
           in (next, turn_out [error_event (tl_turn s)
                   (agent_error (''the agent'' @ [CHR 0x27] @ ''s stderr matched '' @ sr_id r)) None]
                 next (tl_deadline next) None None)))"

section \<open>The close-out ladder\<close>

definition ladder_deadline :: "lifecycle \<Rightarrow> ms option" where
  "ladder_deadline s = (if 0 < tl_rung s then tl_deadline s else None)"

definition carry_ladder :: "lifecycle \<Rightarrow> lifecycle" where
  "carry_ladder s =
     (if tl_rung s = 0 then idle_state
      else idle_state\<lparr>tl_phase := PhClosing, tl_rung := tl_rung s, tl_reason := tl_reason s,
                      tl_deadline := tl_deadline s\<rparr>)"

text \<open>The last rung: an \<open>idle\<close> exactly when the agent's answer is there to carry.\<close>

definition pending_idle :: "lifecycle \<Rightarrow> event_input list" where
  "pending_idle s =
     (case (tl_turn s, tl_stop s) of (Some t, Some _) \<Rightarrow> [idle_event s t] | _ \<Rightarrow> [])"

definition terminate :: "lifecycle \<Rightarrow> lifecycle \<times> turn_output" where
  "terminate s =
     (let settled = option_or SCancelled (tl_reason s);
          next = idle_state\<lparr>tl_phase := PhClosing, tl_rung := 5, tl_reason := Some settled\<rparr>
      in (next, turn_out (pending_idle s) next None (Some settled) None))"

text \<open>The first rung's end: a turn that has its stop reason settles, whatever rung comes next.\<close>

definition settle_rung1 :: "lifecycle \<Rightarrow> lifecycle" where
  "settle_rung1 s =
     (if tl_stop s \<noteq> None \<and> tl_turn s \<noteq> None
      then s\<lparr>tl_turn := None, tl_stop := None, tl_usage := None, tl_warnings := [], tl_patch := None\<rparr>
      else s)"

definition advance :: "lifecycle_config \<Rightarrow> lifecycle \<Rightarrow> ms \<Rightarrow> lifecycle \<times> turn_output" where
  "advance c s now =
     (if tl_rung s = 1 then
        (let next = (settle_rung1 s)\<lparr>tl_rung := 2, tl_deadline := Some (now + lc_cancel_grace c)\<rparr>
         in (next, turn_out (pending_idle s) next (tl_deadline next) None (Some ActCancel)))
      else if tl_rung s = 2 then
        (let next = s\<lparr>tl_rung := 3, tl_deadline := Some now\<rparr>
         in (next, turn_out [] next (tl_deadline next) None (Some ActCloseStdin)))
      else if tl_rung s = 3 then
        (let next = s\<lparr>tl_rung := 4, tl_deadline := Some (now + lc_drain_grace c)\<rparr>
         in (next, turn_out [] next (tl_deadline next) None (Some ActDrain)))
      else terminate s)"

definition close_requested :: "lifecycle_config \<Rightarrow> lifecycle \<Rightarrow> ms \<Rightarrow> lifecycle \<times> turn_output" where
  "close_requested c s now =
     (if 0 < tl_rung s then (s, turn_out [] s (tl_deadline s) None None)
      else if tl_turn s = None then (s, turn_out [] s None None None)
      else
        (let cutoff = now + lc_hard c;
             deadline = min (max (now + lc_quiet c) (option_or now (tl_deadline s))) cutoff;
             entered = s\<lparr>tl_phase := PhClosing, tl_rung := 1, tl_reason := Some SCancelled,
                         tl_deadline := Some deadline, tl_cutoff := Some cutoff\<rparr>
         in if deadline \<le> now then advance c entered now
            else (entered, turn_out [] entered (Some deadline) None None)))"

definition ladder_tick :: "lifecycle_config \<Rightarrow> lifecycle \<Rightarrow> ms \<Rightarrow> lifecycle \<times> turn_output" where
  "ladder_tick c s now =
     (case tl_deadline s of
        Some d \<Rightarrow> if now < d then (s, turn_out [] s (Some d) None None) else advance c s now
      | None \<Rightarrow> advance c s now)"

section \<open>The transition\<close>

definition prompt_sent :: "lifecycle \<Rightarrow> string \<Rightarrow> lifecycle \<times> turn_output" where
  "prompt_sent s turn =
     (let flushed = (case tl_turn s of
            Some t \<Rightarrow> if tl_phase s = PhSettling then [idle_event s t] else [] | None \<Rightarrow> []);
          next = idle_state\<lparr>tl_phase := PhRunning, tl_turn := Some turn, tl_rung := tl_rung s,
                            tl_reason := tl_reason s\<rparr>
      in (next, turn_out (flushed @ [running_event turn]) next (ladder_deadline next) None None))"

text \<open>\<open>input.usage ?? state.usage\<close>: \<open>null\<close> and \<open>undefined\<close> fall through.\<close>

fun or_nullish :: "json option \<Rightarrow> json option \<Rightarrow> json option" where
  "or_nullish None d = d"
| "or_nullish (Some JNull) d = d"
| "or_nullish (Some v) d = Some v"

definition prompt_result ::
  "lifecycle_config \<Rightarrow> lifecycle \<Rightarrow> string \<Rightarrow> json option \<Rightarrow> ms \<Rightarrow> obj option \<Rightarrow>
     lifecycle \<times> turn_output" where
  "prompt_result c s stop usage now meta =
     (case tl_turn s of
        None \<Rightarrow> (s, turn_out [] s (tl_deadline s) None None)
      | Some t \<Rightarrow>
          (let answered = s\<lparr>tl_usage := or_nullish usage (tl_usage s),
                            tl_meta := or_else meta (tl_meta s), tl_stop := Some stop\<rparr>;
               cutoff = (case tl_cutoff s of
                   Some h \<Rightarrow> if tl_phase s = PhSettling then h else now + lc_hard c
                 | None \<Rightarrow> now + lc_hard c);
               deadline = next_deadline now c cutoff
           in if 0 < tl_rung s then (answered, turn_out [] answered (tl_deadline s) None None)
              else if deadline \<le> now then
                (idle_state, turn_out [idle_event answered t] idle_state None
                   (Some (if cutoff \<le> deadline then SHard else SQuiet)) None)
              else
                (let next = answered\<lparr>tl_phase := PhSettling, tl_deadline := Some deadline,
                                     tl_cutoff := Some cutoff\<rparr>
                 in (next, turn_out [] next (Some deadline) None None))))"

definition prompt_error :: "lifecycle \<Rightarrow> error_body \<Rightarrow> lifecycle \<times> turn_output" where
  "prompt_error s err =
     (let next = carry_ladder s;
          idles = (case tl_turn s of None \<Rightarrow> [] | Some t \<Rightarrow> [idle_event (s\<lparr>tl_stop := None\<rparr>) t])
      in (next, turn_out (error_event (tl_turn s) err None # idles) next (ladder_deadline next)
            (if tl_turn s = None then None else Some SError) None))"

definition process_gone :: "lifecycle \<Rightarrow> error_body \<Rightarrow> string \<Rightarrow> lifecycle \<times> turn_output" where
  "process_gone s err stderr_tail =
     (let next = carry_ladder s
      in (next, turn_out [error_event (tl_turn s) err (Some stderr_tail)] next (ladder_deadline next)
            (if tl_turn s = None then None else Some SGone) None))"

definition drained :: "lifecycle \<Rightarrow> lifecycle \<times> turn_output" where
  "drained s =
     (if tl_rung s = 0 \<or> 5 \<le> tl_rung s then (s, turn_out [] s (tl_deadline s) None None)
      else terminate (s\<lparr>tl_reason := Some SDrained\<rparr>))"

definition tick :: "lifecycle_config \<Rightarrow> lifecycle \<Rightarrow> ms \<Rightarrow> lifecycle \<times> turn_output" where
  "tick c s now =
     (if 0 < tl_rung s then ladder_tick c s now
      else (case (tl_turn s, tl_deadline s) of
              (Some t, Some d) \<Rightarrow>
                (if tl_phase s \<noteq> PhSettling then (s, turn_out [] s None None None)
                 else if now < d then (s, turn_out [] s (Some d) None None)
                 else (idle_state, turn_out [idle_event s t] idle_state None
                        (Some (case tl_cutoff s of Some h \<Rightarrow> if h \<le> d then SHard else SQuiet
                               | None \<Rightarrow> SQuiet)) None))
            | _ \<Rightarrow> (s, turn_out [] s None None None)))"

text \<open>\<open>createNormalizer\<close>'s mutable cell: the reducer's state and the id generator in its closure.\<close>

record normalizer =
  nz_state :: lifecycle
  nz_ids :: id_generator

definition new_normalizer :: normalizer where
  "new_normalizer = \<lparr>nz_state = idle_state, nz_ids = fresh_ids\<rparr>"

definition keep_ids :: "id_generator \<Rightarrow> lifecycle \<times> turn_output \<Rightarrow> normalizer \<times> turn_output" where
  "keep_ids g r = (\<lparr>nz_state = fst r, nz_ids = g\<rparr>, snd r)"

definition step_turn_lifecycle ::
  "lifecycle_config \<Rightarrow> normalizer \<Rightarrow> turn_input \<Rightarrow> step_error + (normalizer \<times> turn_output)" where
  "step_turn_lifecycle c n input =
     (let s = nz_state n; g = nz_ids n in
      case input of
        PromptSent turn _ \<Rightarrow> Inr (keep_ids g (prompt_sent s turn))
      | AgentUpdate update now replay \<Rightarrow>
          (case agent_update c g s update now replay of
             None \<Rightarrow> Inl MapRaised
           | Some (g', r) \<Rightarrow> Inr (keep_ids g' r))
      | PromptResult stop usage now meta \<Rightarrow> Inr (keep_ids g (prompt_result c s stop usage now meta))
      | PromptError err _ \<Rightarrow> Inr (keep_ids g (prompt_error s err))
      | ProcessGone err stderr_tail _ \<Rightarrow> Inr (keep_ids g (process_gone s err stderr_tail))
      | CloseRequested now \<Rightarrow> Inr (keep_ids g (close_requested c s now))
      | Drained _ \<Rightarrow> Inr (keep_ids g (drained s))
      | StderrLine line _ \<Rightarrow> Inr (keep_ids g (stderr_line c s line))
      | Tick now \<Rightarrow> Inr (keep_ids g (tick c s now))
      | ParkedInput _ _ \<Rightarrow> Inl UnknownInput
      | ResolvedInput _ _ \<Rightarrow> Inl UnknownInput)"

text \<open>
  The worker's \<open>#feed\<close>: a step that raises is logged, and since the assignment to the cell comes after
  the call, it leaves the cell as it was.
\<close>

definition feed :: "lifecycle_config \<Rightarrow> normalizer \<Rightarrow> turn_input \<Rightarrow> normalizer \<times> turn_output option" where
  "feed c n input =
     (case step_turn_lifecycle c n input of Inl _ \<Rightarrow> (n, None) | Inr (n', out) \<Rightarrow> (n', Some out))"

fun feed_all ::
  "lifecycle_config \<Rightarrow> normalizer \<Rightarrow> turn_input list \<Rightarrow> normalizer \<times> (turn_input \<times> turn_output option) list" where
  "feed_all c n [] = (n, [])"
| "feed_all c n (i # is) =
     (let (n', out) = feed c n i; (n'', outs) = feed_all c n' is in (n'', (i, out) # outs))"

end
