(* ===== verification/TurnLifecycleInv.thy ===== *)
theory TurnLifecycleInv
  imports TurnLifecycle
begin

text \<open>
  The states the reducer can reach, and what one step does to the live turn: lemmas over one input,
  lifted to runs.
\<close>

section \<open>Well-formed states\<close>

definition turn_ok :: "lifecycle \<Rightarrow> bool" where
  "turn_ok s \<longleftrightarrow>
     (case tl_phase s of
        PhIdle \<Rightarrow> tl_rung s = 0 \<and> tl_turn s = None \<and> tl_deadline s = None \<and> tl_cutoff s = None
      | PhRunning \<Rightarrow> tl_rung s = 0 \<longrightarrow>
          tl_turn s \<noteq> None \<and> tl_deadline s = None \<and> tl_cutoff s = None \<and> tl_stop s = None
      | PhSettling \<Rightarrow> tl_rung s = 0 \<and> tl_turn s \<noteq> None \<and> tl_stop s \<noteq> None \<and>
          (\<exists>d h. tl_deadline s = Some d \<and> tl_cutoff s = Some h \<and> d \<le> h)
      | PhClosing \<Rightarrow> 0 < tl_rung s \<and> (tl_rung s = 5 \<longrightarrow> tl_turn s = None))"

definition ladder_ok :: "lifecycle \<Rightarrow> bool" where
  "ladder_ok s \<longleftrightarrow>
     tl_rung s \<le> 5 \<and> (tl_rung s = 0 \<longleftrightarrow> tl_reason s = None) \<and>
     (tl_stop s \<noteq> None \<longrightarrow> tl_turn s \<noteq> None) \<and>
     (tl_rung s = 1 \<longrightarrow> (\<forall>d h. tl_deadline s = Some d \<longrightarrow> tl_cutoff s = Some h \<longrightarrow> d \<le> h))"

definition warnings_ok :: "lifecycle \<Rightarrow> bool" where
  "warnings_ok s \<longleftrightarrow> distinct (map warning_key (tl_warnings s))"

definition lifecycle_ok :: "lifecycle \<Rightarrow> bool" where
  "lifecycle_ok s \<longleftrightarrow> turn_ok s \<and> ladder_ok s \<and> warnings_ok s"

lemmas lifecycle_ok_defs = lifecycle_ok_def turn_ok_def ladder_ok_def warnings_ok_def

lemma idle_state_ok [simp]: "lifecycle_ok idle_state"
  by (simp add: lifecycle_ok_defs idle_state_def)

lemma unseen_warnings_distinct:
  "distinct (map warning_key (unseen_warnings seen ws)) \<and>
   set (map warning_key (unseen_warnings seen ws)) \<inter> set seen = {}"
  by (induction seen ws rule: unseen_warnings.induct) auto

lemma add_warnings_distinct:
  "distinct (map warning_key ws) \<Longrightarrow> distinct (map warning_key (add_warnings ws vs))"
  using unseen_warnings_distinct [of "map warning_key ws" vs]
  by (auto simp: add_warnings_def)

lemma add_warnings_keys:
  "set (map warning_key (add_warnings ws vs)) = set (map warning_key ws) \<union> set (map warning_key vs)"
proof -
  have "set seen \<union> set (map warning_key (unseen_warnings seen vs)) = set seen \<union> set (map warning_key vs)"
    for seen
    by (induction seen vs rule: unseen_warnings.induct) auto
  from this [of "map warning_key ws"] show ?thesis by (simp add: add_warnings_def)
qed

text \<open>An absorbed readout and a moved deadline keep the state well formed.\<close>

lemma absorb_ok: "lifecycle_ok s \<Longrightarrow> lifecycle_ok (absorb s r)"
  by (auto simp: lifecycle_ok_defs absorb_def add_warnings_distinct split: phase.splits)

lemma push_deadline_ok: "lifecycle_ok s \<Longrightarrow> lifecycle_ok (push_deadline c now s)"
  by (auto simp: lifecycle_ok_defs push_deadline_def next_deadline_def split: option.splits phase.splits)

lemma terminate_ok: "lifecycle_ok (fst (terminate s))"
  by (simp add: lifecycle_ok_defs terminate_def idle_state_def Let_def)

lemma settle_rung1_simps [simp]:
  "tl_rung (settle_rung1 s) = tl_rung s" "tl_phase (settle_rung1 s) = tl_phase s"
  "tl_deadline (settle_rung1 s) = tl_deadline s" "tl_cutoff (settle_rung1 s) = tl_cutoff s"
  "tl_reason (settle_rung1 s) = tl_reason s"
  by (simp_all add: settle_rung1_def)

text \<open>The ladder is only ever climbed by a closing state, or by one whose rung was carried over.\<close>

lemma advance_ok:
  assumes "lifecycle_ok s" "0 < tl_rung s"
  shows "lifecycle_ok (fst (advance c s now))"
proof (cases "tl_rung s \<in> {1, 2, 3}")
  case True
  then consider "tl_rung s = 1" | "tl_rung s = 2" | "tl_rung s = 3" by auto
  then show ?thesis
    using assms(1)
    by cases (cases "tl_phase s"; simp add: advance_def lifecycle_ok_defs settle_rung1_def Let_def)+
next
  case False
  then show ?thesis using terminate_ok [of s] assms(2) by (simp add: advance_def)
qed

lemma ladder_tick_ok:
  "lifecycle_ok s \<Longrightarrow> 0 < tl_rung s \<Longrightarrow> lifecycle_ok (fst (ladder_tick c s now))"
  by (simp add: ladder_tick_def advance_ok split: option.split)

lemma close_requested_ok:
  assumes "lifecycle_ok s"
  shows "lifecycle_ok (fst (close_requested c s now))"
proof -
  have "lifecycle_ok (s\<lparr>tl_phase := PhClosing, tl_rung := 1, tl_reason := Some SCancelled,
      tl_deadline := Some (min x h), tl_cutoff := Some h\<rparr>)"
    if "tl_rung s = 0" "tl_turn s \<noteq> None" for x h
    using assms that by (auto simp: lifecycle_ok_defs)
  with assms show ?thesis
    by (auto simp: close_requested_def Let_def intro!: advance_ok)
qed

lemma carry_ladder_ok: "lifecycle_ok s \<Longrightarrow> lifecycle_ok (carry_ladder s)"
  by (auto simp: carry_ladder_def lifecycle_ok_defs idle_state_def)

lemma prompt_sent_ok: "lifecycle_ok s \<Longrightarrow> lifecycle_ok (fst (prompt_sent s t))"
  by (auto simp: prompt_sent_def lifecycle_ok_defs idle_state_def Let_def)

lemma prompt_result_ok:
  assumes "lifecycle_ok s"
  shows "lifecycle_ok (fst (prompt_result c s stop usage now meta))"
proof (cases "tl_turn s = None \<or> 0 < tl_rung s")
  case True
  then show ?thesis
    using assms
    by (cases "tl_phase s"; cases "tl_turn s") (simp_all add: prompt_result_def lifecycle_ok_defs Let_def)
next
  case False
  then obtain t where t: "tl_turn s = Some t" "tl_rung s = 0" by auto
  have "lifecycle_ok (s\<lparr>tl_usage := u, tl_meta := m, tl_stop := Some stop, tl_phase := PhSettling,
      tl_deadline := Some (next_deadline now c h), tl_cutoff := Some h\<rparr>)" for u m h
    using assms t by (simp add: lifecycle_ok_defs next_deadline_def cong: conj_cong)
  with t show ?thesis by (simp add: prompt_result_def Let_def)
qed

lemma tick_ok: "lifecycle_ok s \<Longrightarrow> lifecycle_ok (fst (tick c s now))"
  by (auto simp: tick_def ladder_tick_ok split: option.split)

lemma stderr_line_ok: "lifecycle_ok s \<Longrightarrow> lifecycle_ok (fst (stderr_line c s line))"
  by (auto simp: stderr_line_def lifecycle_ok_defs add_warnings_distinct Let_def
      split: option.split phase.splits)

lemma drained_ok: "lifecycle_ok s \<Longrightarrow> lifecycle_ok (fst (drained s))"
  by (simp add: drained_def terminate_ok)

text \<open>The state after one input, and what it emitted.\<close>

lemma feed_cases [consumes 1, case_names raised prompt update result error gone close drained stderr tick]:
  assumes "feed c n i = (n', out)"
  obtains
    "out = None" "n' = n"
      "(\<exists>u x r. i = AgentUpdate u x r) \<or> (\<exists>j x. i = ParkedInput j x) \<or> (\<exists>j x. i = ResolvedInput j x)"
  | t x where "i = PromptSent t x" "nz_state n' = fst (prompt_sent (nz_state n) t)"
      "out = Some (snd (prompt_sent (nz_state n) t))"
  | u x r g s y where "i = AgentUpdate u x r" "agent_update c (nz_ids n) (nz_state n) u x r = Some (g, s, y)"
      "nz_state n' = s" "out = Some y"
  | p u x m where "i = PromptResult p u x m" "nz_state n' = fst (prompt_result c (nz_state n) p u x m)"
      "out = Some (snd (prompt_result c (nz_state n) p u x m))"
  | b x where "i = PromptError b x" "nz_state n' = fst (prompt_error (nz_state n) b)"
      "out = Some (snd (prompt_error (nz_state n) b))"
  | b l x where "i = ProcessGone b l x" "nz_state n' = fst (process_gone (nz_state n) b l)"
      "out = Some (snd (process_gone (nz_state n) b l))"
  | x where "i = CloseRequested x" "nz_state n' = fst (close_requested c (nz_state n) x)"
      "out = Some (snd (close_requested c (nz_state n) x))"
  | x where "i = Drained x" "nz_state n' = fst (drained (nz_state n))"
      "out = Some (snd (drained (nz_state n)))"
  | l x where "i = StderrLine l x" "nz_state n' = fst (stderr_line c (nz_state n) l)"
      "out = Some (snd (stderr_line c (nz_state n) l))"
  | x where "i = Tick x" "nz_state n' = fst (tick c (nz_state n) x)"
      "out = Some (snd (tick c (nz_state n) x))"
  using assms
  by (cases i) (auto simp: feed_def step_turn_lifecycle_def keep_ids_def Let_def
      split: option.splits prod.splits)

lemma agent_update_state:
  "agent_update c g s u now r = Some (g', s', out) \<Longrightarrow>
   \<exists>q. s' = push_deadline c now (absorb s q)"
  by (auto simp: agent_update_def Let_def split: option.splits prod.splits)

lemma prompt_error_state [simp]: "fst (prompt_error s b) = carry_ladder s"
  by (simp add: prompt_error_def Let_def)

lemma process_gone_state [simp]: "fst (process_gone s b l) = carry_ladder s"
  by (simp add: process_gone_def Let_def)

lemma feed_ok:
  assumes "lifecycle_ok (nz_state n)"
  shows "lifecycle_ok (nz_state (fst (feed c n i)))"
proof -
  obtain n' out where f: "feed c n i = (n', out)" by (cases "feed c n i")
  from f have "lifecycle_ok (nz_state n')"
    by (cases rule: feed_cases)
      (use assms in \<open>auto simp: prompt_sent_ok prompt_result_ok carry_ladder_ok close_requested_ok
         drained_ok stderr_line_ok tick_ok absorb_ok push_deadline_ok dest: agent_update_state\<close>)
  with f show ?thesis by simp
qed

text \<open>The reducer is a machine of the prelude: its invariant holds after any sequence of inputs.\<close>

definition normalizer_step :: "lifecycle_config \<Rightarrow> normalizer \<Rightarrow> turn_input \<Rightarrow> normalizer" where
  "normalizer_step c n i = fst (feed c n i)"

interpretation reducer: machine "normalizer_step c" "\<lambda>n. lifecycle_ok (nz_state n)"
  by unfold_locales (simp add: normalizer_step_def feed_ok)

lemma feed_all_state: "fst (feed_all c n is) = foldl (normalizer_step c) n is"
proof (induction "is" arbitrary: n)
  case (Cons i "is")
  from Cons [of "fst (feed c n i)"] show ?case
    by (simp add: normalizer_step_def Let_def split_beta)
qed simp

lemma reachable_ok: "lifecycle_ok (nz_state (fst (feed_all c new_normalizer is)))"
  by (simp add: feed_all_state new_normalizer_def reducer.run_inv)

lemma feed_all_append:
  "feed_all c n (is @ js) =
     (let (n', l) = feed_all c n is; (n'', l') = feed_all c n' js in (n'', l @ l'))"
  by (induction "is" arbitrary: n) (auto simp: Let_def split: prod.split)

end
