(* ===== verification/TurnLifecycleClaims.thy ===== *)
theory TurnLifecycleClaims
  imports TurnLifecycleInv
begin

text \<open>
  What the turn reducer promises: a turn ends in the log at most once and with the agent's own answer,
  it ends within the hard cutoff of that answer, the close-out ladder finishes in bounded time, and
  what \<open>idle\<close> carries is what the turn aggregate reads.
\<close>

section \<open>The synthesized idle events of a run\<close>

definition idle_of :: "event_input \<Rightarrow> (string \<times> string option) option" where
  "idle_of e =
     (case (in_body e, in_turn e) of
        (SessionUpdate p, Some t) \<Rightarrow>
          if fld p ''sessionUpdate'' = Some (JStr ''state_update'') \<and> fld p ''state'' = Some (JStr ''idle'')
          then Some (t, js_str (fld p ''stopReason'')) else None
      | _ \<Rightarrow> None)"

text \<open>What the reducer itself synthesized: an update of the agent is forwarded, never synthesized.\<close>

definition idles_of :: "turn_input \<Rightarrow> turn_output option \<Rightarrow> (string \<times> string option) list" where
  "idles_of i out =
     (case i of AgentUpdate _ _ _ \<Rightarrow> []
      | _ \<Rightarrow> (case out of None \<Rightarrow> [] | Some x \<Rightarrow> List.map_filter idle_of (out_emit x)))"

definition run_idles :: "(turn_input \<times> turn_output option) list \<Rightarrow> (string \<times> string option) list" where
  "run_idles outs = List.maps (\<lambda>(i, out). idles_of i out) outs"

text \<open>What the agent was asked last and what it answered, read off the inputs alone.\<close>

definition note_input :: "(string \<times> string option) option \<Rightarrow> turn_input \<Rightarrow> (string \<times> string option) option" where
  "note_input a i =
     (case i of
        PromptSent t _ \<Rightarrow> Some (t, None)
      | PromptResult r _ _ _ \<Rightarrow> map_option (\<lambda>(t, _). (t, Some r)) a
      | _ \<Rightarrow> a)"

definition asked :: "turn_input list \<Rightarrow> (string \<times> string option) option" where
  "asked is = foldl note_input None is"

definition answer_at :: "turn_input \<Rightarrow> string option \<Rightarrow> string option" where
  "answer_at i a =
     (case i of PromptResult r _ _ _ \<Rightarrow> Some r | PromptError _ _ \<Rightarrow> None | _ \<Rightarrow> a)"

definition is_prompt_error :: "turn_input \<Rightarrow> bool" where
  "is_prompt_error i = (case i of PromptError _ _ \<Rightarrow> True | _ \<Rightarrow> False)"

lemma idle_payload_fields [simp]:
  "fld (idle_payload s) ''sessionUpdate'' = Some (JStr ''state_update'')"
  "fld (idle_payload s) ''state'' = Some (JStr ''idle'')"
  "fld (idle_payload s) ''stopReason'' = Some (str_json (tl_stop s))"
  by (simp_all add: idle_payload_def)

lemma js_str_json [simp]: "js_str (Some (str_json x)) = x"
  by (cases x) simp_all

lemma idle_of_idle [simp]: "idle_of (idle_event s t) = Some (t, tl_stop s)"
  by (simp add: idle_of_def idle_event_def update_event_def)

lemma idle_of_running [simp]: "idle_of (running_event t) = None"
  by (simp add: idle_of_def running_event_def update_event_def)

lemma idle_of_error [simp]: "idle_of (error_event t b l) = None"
  by (simp add: idle_of_def error_event_def)

lemma turn_out_sel [simp]:
  "out_emit (turn_out es s x r a) = es" "out_tick (turn_out es s x r a) = x"
  "out_phase (turn_out es s x r a) = tl_phase s" "out_turn (turn_out es s x r a) = tl_turn s"
  "out_settled (turn_out es s x r a) = r" "out_action (turn_out es s x r a) = a"
  by (simp_all add: turn_out_def)

lemma map_filter_simps' [simp]:
  "List.map_filter f [] = []"
  "List.map_filter f (x # xs) =
     (case f x of None \<Rightarrow> List.map_filter f xs | Some y \<Rightarrow> y # List.map_filter f xs)"
  by (simp_all add: List.map_filter_def split: option.split)

text \<open>One outcome of a function of the reducer: no idle and the turn kept or lost, or one idle and the turn ended,
  with a stop reason unless the agent failed.\<close>

definition outcome :: "lifecycle \<Rightarrow> lifecycle \<times> turn_output \<Rightarrow> string option \<Rightarrow> bool \<Rightarrow> bool" where
  "outcome s r stop err \<longleftrightarrow>
     (let idles = List.map_filter idle_of (out_emit (snd r)) in
      (idles = [] \<and> tl_turn (fst r) = tl_turn s \<and> tl_stop (fst r) = stop) \<or>
      (idles = [] \<and> tl_turn (fst r) = None) \<or>
      (\<exists>t. tl_turn s = Some t \<and> idles = [(t, stop)] \<and> tl_turn (fst r) = None \<and>
           (stop = None \<longrightarrow> err)))"

lemma pending_idle_idles:
  "List.map_filter idle_of (pending_idle s) =
     (case (tl_turn s, tl_stop s) of (Some t, Some r) \<Rightarrow> [(t, Some r)] | _ \<Rightarrow> [])"
  by (simp add: pending_idle_def split: option.split)

lemma terminate_outcome: "outcome s (terminate s) (tl_stop s) False"
  by (auto simp: outcome_def terminate_def pending_idle_idles idle_state_def Let_def split: option.split)

lemma advance_outcome: "outcome s (advance c s now) (tl_stop s) False"
proof (cases "tl_rung s = 1 \<or> tl_rung s = 2 \<or> tl_rung s = 3")
  case True
  then show ?thesis
    by (cases "tl_turn s"; cases "tl_stop s")
      (auto simp: outcome_def advance_def pending_idle_idles settle_rung1_def Let_def)
next
  case False
  then show ?thesis using terminate_outcome [of s] by (simp add: advance_def)
qed

lemma tick_outcome:
  assumes "lifecycle_ok s"
  shows "outcome s (tick c s now) (tl_stop s) False"
proof (cases "0 < tl_rung s")
  case True
  then show ?thesis using advance_outcome [of s c now]
    by (auto simp: tick_def ladder_tick_def outcome_def split: option.split)
next
  case False
  have "tl_phase s = PhSettling \<Longrightarrow> tl_stop s \<noteq> None"
    using assms by (simp add: lifecycle_ok_defs)
  with False show ?thesis
    by (auto simp: tick_def outcome_def idle_state_def split: option.split)
qed

lemma close_requested_outcome: "outcome s (close_requested c s now) (tl_stop s) False"
proof -
  have "outcome s (advance c (s\<lparr>tl_phase := PhClosing, tl_rung := 1, tl_reason := Some SCancelled,
      tl_deadline := Some d, tl_cutoff := Some h\<rparr>) now) (tl_stop s) False" for d h
    using advance_outcome [of "s\<lparr>tl_phase := PhClosing, tl_rung := 1, tl_reason := Some SCancelled,
      tl_deadline := Some d, tl_cutoff := Some h\<rparr>" c now]
    by (simp add: outcome_def)
  then show ?thesis by (simp add: close_requested_def Let_def) (simp add: outcome_def)
qed

lemma drained_outcome: "outcome s (drained s) (tl_stop s) False"
  using terminate_outcome [of "s\<lparr>tl_reason := Some SDrained\<rparr>"]
  by (simp add: drained_def) (simp add: outcome_def)

lemma stderr_outcome: "outcome s (stderr_line c s line) (tl_stop s) False"
  by (simp add: stderr_line_def outcome_def Let_def split: option.split)

lemma prompt_result_outcome:
  "outcome s (prompt_result c s r u now m) (if tl_turn s = None then tl_stop s else Some r) False"
  by (simp add: prompt_result_def outcome_def idle_state_def Let_def split: option.split)

lemma carry_turn [simp]: "tl_turn (carry_ladder s) = None"
  by (simp add: carry_ladder_def idle_state_def)

lemma prompt_error_outcome: "outcome s (prompt_error s b) None True"
  by (simp add: prompt_error_def outcome_def Let_def split: option.split)

lemma process_gone_outcome: "outcome s (process_gone s b l) (tl_stop s) False"
  by (simp add: process_gone_def outcome_def Let_def)


text \<open>What one input does to the live turn and to its answer.\<close>

lemma feed_idles:
  fixes c n i
  assumes "lifecycle_ok (nz_state n)"
  defines "s \<equiv> nz_state n" and "s' \<equiv> nz_state (fst (feed c n i))"
    and "idles \<equiv> idles_of i (snd (feed c n i))"
  obtains
    (prompted) t x where "i = PromptSent t x" "tl_turn s' = Some t" "tl_stop s' = None"
      "idles = [] \<or> (\<exists>u r. tl_turn s = Some u \<and> tl_stop s = Some r \<and> idles = [(u, Some r)])"
  | (kept) "\<forall>t x. i \<noteq> PromptSent t x" "idles = []" "tl_turn s' = tl_turn s"
      "tl_turn s \<noteq> None \<longrightarrow> tl_stop s' = answer_at i (tl_stop s)"
  | (lost) "\<forall>t x. i \<noteq> PromptSent t x" "idles = []" "tl_turn s' = None"
  | (ended) t where "\<forall>t x. i \<noteq> PromptSent t x" "tl_turn s = Some t" "tl_turn s' = None"
      "idles = [(t, answer_at i (tl_stop s))]" "answer_at i (tl_stop s) = None \<longrightarrow> is_prompt_error i"
proof -
  obtain n' out where f: "feed c n i = (n', out)" by (cases "feed c n i")
  have by_outcome: thesis
    if "\<forall>t x. i \<noteq> PromptSent t x" "\<forall>u x r. i \<noteq> AgentUpdate u x r"
      "nz_state n' = fst r" "out = Some (snd r)"
      "outcome s r (if tl_turn s = None then a else answer_at i (tl_stop s)) (is_prompt_error i)" for r a
  proof -
    have "idles = List.map_filter idle_of (out_emit (snd r))"
      using that(2,4) f by (cases i) (auto simp: idles_def idles_of_def)
    then show thesis
      using that(1,3,5) f kept lost ended
      by (auto simp: outcome_def s'_def Let_def split: if_splits)
  qed
  from f show thesis
  proof (cases rule: feed_cases)
    case raised
    then show thesis using f kept
      by (auto simp: s_def s'_def idles_def idles_of_def answer_at_def)
  next
    case (prompt t x)
    have "tl_phase s = PhSettling \<Longrightarrow> tl_stop s \<noteq> None"
      using assms(1) by (simp add: lifecycle_ok_defs s_def)
    then show thesis
      using prompted [of t x] prompt f
      by (auto simp: s_def [symmetric] s'_def idles_def idles_of_def prompt_sent_def idle_state_def Let_def
          split: option.splits if_splits)
  next
    case (update u x r g st y)
    then obtain q where "nz_state n' = push_deadline c x (absorb s q)"
      using agent_update_state s_def by blast
    then show thesis using kept update(1) f
      by (auto simp: s'_def idles_def idles_of_def answer_at_def push_deadline_def absorb_def
          split: option.split)
  next
    case (result p u x m)
    with prompt_result_outcome [of s c p u x m] show thesis
      by (intro by_outcome) (auto simp: answer_at_def is_prompt_error_def s_def)
  next
    case (error b x)
    with prompt_error_outcome [of s b] show thesis
      by (intro by_outcome) (auto simp: answer_at_def is_prompt_error_def s_def outcome_def)
  next
    case (gone b l x)
    with process_gone_outcome [of s b l] show thesis
      by (intro by_outcome) (auto simp: answer_at_def is_prompt_error_def s_def)
  next
    case (close x)
    with close_requested_outcome [of s c x] show thesis
      by (intro by_outcome) (auto simp: answer_at_def is_prompt_error_def s_def)
  next
    case (drained x)
    with drained_outcome [of s] show thesis
      by (intro by_outcome) (auto simp: answer_at_def is_prompt_error_def s_def)
  next
    case (stderr l x)
    with stderr_outcome [of s c l] show thesis
      by (intro by_outcome) (auto simp: answer_at_def is_prompt_error_def s_def)
  next
    case (tick x)
    with tick_outcome [of s c x] assms(1) show thesis
      by (intro by_outcome) (auto simp: answer_at_def is_prompt_error_def s_def)
  qed
qed

section \<open>A turn ends once, with the agent's answer\<close>

lemma asked_snoc [simp]: "asked (is @ [i]) = note_input (asked is) i"
  by (simp add: asked_def)

lemma run_idles_snoc:
  "run_idles (snd (feed_all c n (is @ [i]))) =
     run_idles (snd (feed_all c n is)) @ idles_of i (snd (feed c (fst (feed_all c n is)) i))"
  by (simp add: feed_all_append run_idles_def Let_def split_beta)

lemma feed_all_snoc [simp]:
  "fst (feed_all c n (is @ [i])) = fst (feed c (fst (feed_all c n is)) i)"
  by (simp add: feed_all_append Let_def split_beta)

lemma feed_prompt_error [simp]: "tl_turn (nz_state (fst (feed c n (PromptError b x)))) = None"
  by (simp add: feed_def step_turn_lifecycle_def keep_ids_def Let_def)

lemma live_turn_was_asked:
  "tl_turn (nz_state (fst (feed_all c new_normalizer is))) = Some t \<Longrightarrow>
   asked is = Some (t, tl_stop (nz_state (fst (feed_all c new_normalizer is))))"
proof (induction "is" arbitrary: t rule: rev_induct)
  case Nil
  then show ?case by (simp add: new_normalizer_def idle_state_def)
next
  case (snoc i "is")
  let ?n = "fst (feed_all c new_normalizer is)"
  from reachable_ok [of c "is"] snoc.prems show ?case
  proof (cases rule: feed_idles [where n = ?n and c = c and i = i])
    case (kept)
    with snoc.IH [of t] snoc.prems show ?thesis
      by (cases i) (auto simp: note_input_def answer_at_def)
  qed (auto simp: note_input_def)
qed

text \<open>
  C7: The turn boundary is honest: over any sequence of inputs, an \<open>idle\<close> the reducer synthesizes names
  the turn that was prompted last and carries the last stop reason the agent gave for that prompt. It is
  \<open>null\<close> only when this very input is the agent's error. Nothing else ever ends a turn with a stop reason,
  so a dead agent, a timeout or a forced close never produces an invented one.
\<close>

theorem idle_carries_the_agents_answer:
  assumes "(t, stop) \<in> set (idles_of i (snd (feed c (fst (feed_all c new_normalizer pre)) i)))"
  shows "\<exists>answer. asked pre = Some (t, answer) \<and> stop = answer_at i answer \<and>
    (stop = None \<longrightarrow> is_prompt_error i)"
proof -
  let ?n = "fst (feed_all c new_normalizer pre)"
  from reachable_ok [of c pre] show ?thesis
  proof (cases rule: feed_idles [where n = ?n and c = c and i = i])
    case (prompted u x)
    with assms show ?thesis
      using live_turn_was_asked [of c pre t] by (auto simp: answer_at_def)
  next
    case (ended u)
    with assms show ?thesis using live_turn_was_asked [of c pre t] by auto
  qed (use assms in auto)
qed

definition prompts_of :: "string \<Rightarrow> turn_input list \<Rightarrow> nat" where
  "prompts_of t is = length (filter (\<lambda>i. case i of PromptSent u _ \<Rightarrow> u = t | _ \<Rightarrow> False) is)"

definition idle_count :: "string \<Rightarrow> (string \<times> string option) list \<Rightarrow> nat" where
  "idle_count t idles = length (filter (\<lambda>(u, _). u = t) idles)"

lemma idle_count_simps [simp]:
  "idle_count t [] = 0" "idle_count t (xs @ ys) = idle_count t xs + idle_count t ys"
  "idle_count t [(u, r)] = (if u = t then 1 else 0)"
  by (simp_all add: idle_count_def)

lemma idles_paid_by_prompts:
  "idle_count t (run_idles (snd (feed_all c new_normalizer is))) +
     (if tl_turn (nz_state (fst (feed_all c new_normalizer is))) = Some t then 1 else 0) \<le> prompts_of t is"
proof (induction "is" rule: rev_induct)
  case Nil
  then show ?case by (simp add: run_idles_def new_normalizer_def idle_state_def)
next
  case (snoc i "is")
  let ?n = "fst (feed_all c new_normalizer is)"
  note rest = snoc.IH run_idles_snoc [of c new_normalizer "is" i]
  from reachable_ok [of c "is"] show ?case
  proof (cases rule: feed_idles [where n = ?n and c = c and i = i])
    case (prompted u x)
    with rest show ?thesis by (auto simp: prompts_of_def)
  next
    case kept
    with rest show ?thesis by (auto simp: prompts_of_def split: turn_input.splits)
  next
    case lost
    with rest show ?thesis by (auto simp: prompts_of_def split: turn_input.splits if_splits)
  next
    case (ended u)
    with rest show ?thesis by (auto simp: prompts_of_def split: turn_input.splits if_splits)
  qed
qed

text \<open>
  C8: A turn ends at most once: whatever the inputs and their order, the reducer synthesizes at most as many
  \<open>idle\<close> events for a turn id as prompts were sent under it.
\<close>

theorem one_idle_per_prompt:
  "idle_count t (run_idles (snd (feed_all c new_normalizer is))) \<le> prompts_of t is"
  using idles_paid_by_prompts [of t c "is"] by (rule add_leD1)

section \<open>The hard cutoff\<close>

text \<open>Inputs that leave the turn to its quiet window: no new prompt, no death, no close.\<close>

definition quiet_input :: "turn_input \<Rightarrow> bool" where
  "quiet_input i =
     (case i of PromptSent _ _ \<Rightarrow> False | ProcessGone _ _ _ \<Rightarrow> False | CloseRequested _ \<Rightarrow> False | _ \<Rightarrow> True)"

definition settling :: "string \<Rightarrow> ms \<Rightarrow> lifecycle \<Rightarrow> bool" where
  "settling t h s \<longleftrightarrow>
     tl_turn s = Some t \<and> tl_rung s = 0 \<and> tl_phase s = PhSettling \<and> tl_cutoff s = Some h \<and>
     (\<exists>d. tl_deadline s = Some d \<and> d \<le> h)"

definition ended_once :: "string \<Rightarrow> lifecycle \<Rightarrow> (string \<times> string option) list \<Rightarrow> bool" where
  "ended_once t s idles \<longleftrightarrow> tl_turn s = None \<and> idle_count t idles = 1"

lemma settling_tick:
  "settling t h s \<Longrightarrow> h \<le> now \<Longrightarrow>
   ended_once t (fst (tick c s now)) (List.map_filter idle_of (out_emit (snd (tick c s now))))"
  by (auto simp: settling_def tick_def ended_once_def idle_state_def)

lemma settling_push: "settling t h s \<Longrightarrow> settling t h (push_deadline c now (absorb s q))"
  by (auto simp: settling_def push_deadline_def absorb_def next_deadline_def)

lemma settling_step:
  assumes "settling t h (nz_state n)" "quiet_input i"
  shows "(settling t h (nz_state (fst (feed c n i))) \<and> idles_of i (snd (feed c n i)) = []) \<or>
    ended_once t (nz_state (fst (feed c n i))) (idles_of i (snd (feed c n i)))"
proof -
  let ?s = "nz_state n"
  obtain n' out where f: "feed c n i = (n', out)" by (cases "feed c n i")
  from f show ?thesis
  proof (cases rule: feed_cases)
    case raised
    then show ?thesis using assms f by (auto simp: idles_of_def)
  next
    case (update u x r g st y)
    then show ?thesis using assms(1) f agent_update_state [of c "nz_ids n" ?s u x r g st y]
      by (auto simp: idles_of_def settling_push)
  next
    case (result p u x m)
    then show ?thesis using assms(1) f
      by (auto simp: settling_def prompt_result_def idles_of_def ended_once_def idle_state_def
          next_deadline_def Let_def)
  next
    case (error b x)
    then show ?thesis using assms(1) f
      by (auto simp: settling_def idles_of_def ended_once_def prompt_error_def Let_def)
  next
    case (drained x)
    then show ?thesis using assms(1) f by (auto simp: settling_def idles_of_def drained_def)
  next
    case (stderr l x)
    then show ?thesis using assms(1) f
      by (auto simp: settling_def idles_of_def stderr_line_def Let_def split: option.split)
  next
    case (tick x)
    then show ?thesis using assms(1) f
      by (cases "x < h") (auto simp: settling_def idles_of_def tick_def ended_once_def idle_state_def
          split: if_splits)
  qed (use assms(2) in \<open>auto simp: quiet_input_def\<close>)
qed

lemma no_turn_no_idle:
  assumes "lifecycle_ok (nz_state n)" "tl_turn (nz_state n) = None" "quiet_input i"
  shows "idles_of i (snd (feed c n i)) = [] \<and> tl_turn (nz_state (fst (feed c n i))) = None"
  using assms(1)
proof (cases rule: feed_idles [where n = n and c = c and i = i])
  case (prompted t x)
  with assms(3) show ?thesis by (simp add: quiet_input_def)
qed (use assms(2) in auto)

lemma run_idles_Cons:
  "run_idles (snd (feed_all c n (i # is))) =
     idles_of i (snd (feed c n i)) @ run_idles (snd (feed_all c (fst (feed c n i)) is))"
  by (simp add: run_idles_def Let_def split_beta)

lemma feed_all_Cons [simp]:
  "fst (feed_all c n (i # is)) = fst (feed_all c (fst (feed c n i)) is)"
  by (simp add: Let_def split_beta)

lemma no_turn_run:
  "lifecycle_ok (nz_state n) \<Longrightarrow> tl_turn (nz_state n) = None \<Longrightarrow> list_all quiet_input is \<Longrightarrow>
   run_idles (snd (feed_all c n is)) = [] \<and> tl_turn (nz_state (fst (feed_all c n is))) = None"
proof (induction "is" arbitrary: n)
  case (Cons i "is")
  with no_turn_no_idle [of n i c] Cons.IH [of "fst (feed c n i)"] show ?case
    by (simp add: run_idles_Cons feed_ok del: feed_all.simps)
qed (simp add: run_idles_def)

lemma settling_run:
  "settling t h (nz_state n) \<Longrightarrow> lifecycle_ok (nz_state n) \<Longrightarrow> list_all quiet_input is \<Longrightarrow> h \<le> now \<Longrightarrow>
   ended_once t (nz_state (fst (feed_all c n (is @ [Tick now]))))
     (run_idles (snd (feed_all c n (is @ [Tick now]))))"
proof (induction "is" arbitrary: n)
  case Nil
  from settling_tick [OF Nil(1,4), of c] show ?case
    by (simp add: run_idles_def feed_def step_turn_lifecycle_def keep_ids_def idles_of_def Let_def)
next
  case (Cons i "is")
  let ?n = "fst (feed c n i)"
  have ok: "lifecycle_ok (nz_state ?n)" using Cons.prems(2) by (rule feed_ok)
  have i: "quiet_input i" and rest: "list_all quiet_input (is @ [Tick now])"
    using Cons.prems(3) by (simp_all, simp add: quiet_input_def)
  from settling_step [OF Cons.prems(1) i, of c] show ?case
  proof
    assume "settling t h (nz_state ?n) \<and> idles_of i (snd (feed c n i)) = []"
    with Cons.IH [of ?n] ok Cons.prems(3,4) show ?thesis
      by (simp add: run_idles_Cons del: feed_all.simps)
  next
    assume e: "ended_once t (nz_state ?n) (idles_of i (snd (feed c n i)))"
    with no_turn_run [OF ok _ rest, of c] show ?thesis
      by (simp add: run_idles_Cons ended_once_def del: feed_all.simps)
  qed
qed

lemma result_settles:
  assumes "lifecycle_ok (nz_state n)" "tl_turn (nz_state n) = Some t" "tl_phase (nz_state n) = PhRunning"
    "tl_rung (nz_state n) = 0"
  shows "settling t (now + lc_hard c) (nz_state (fst (feed c n (PromptResult r u now m)))) \<and>
      idles_of (PromptResult r u now m) (snd (feed c n (PromptResult r u now m))) = [] \<or>
    ended_once t (nz_state (fst (feed c n (PromptResult r u now m))))
      (idles_of (PromptResult r u now m) (snd (feed c n (PromptResult r u now m))))"
  using assms
  by (auto simp: feed_def step_turn_lifecycle_def keep_ids_def prompt_result_def settling_def ended_once_def
      idles_of_def idle_state_def next_deadline_def Let_def split: option.splits)

text \<open>
  C9: The quiet window never outlives the hard cutoff. Take any reachable reducer with a running turn whose
  close-out ladder has not started (rung 0), and let the agent answer at time \<open>a\<close>. Then whatever arrives next
  short of a new prompt, a death of the process or a close request (further updates that push the window,
  repeated answers, early or late ticks, errors), a tick at or after \<open>a + hardMs\<close> leaves the turn ended, by
  exactly one \<open>idle\<close>. Rung 0 is needed: a turn prompted after a ladder has run is never ended
  (\<open>finished_ladder_hangs_next_turn\<close>).
\<close>

theorem answered_turn_ends_by_cutoff:
  fixes c pre r u a m "is" now t
  defines "n \<equiv> fst (feed_all c new_normalizer pre)"
    and "run \<equiv> feed_all c (fst (feed_all c new_normalizer pre)) (PromptResult r u a m # is @ [Tick now])"
  assumes live: "tl_turn (nz_state n) = Some t" "tl_phase (nz_state n) = PhRunning" "tl_rung (nz_state n) = 0"
    and quiet: "list_all quiet_input is" and late: "a + lc_hard c \<le> now"
  shows "tl_turn (nz_state (fst run)) = None \<and> idle_count t (run_idles (snd run)) = 1"
proof -
  let ?i = "PromptResult r u a m"
  have ok: "lifecycle_ok (nz_state n)" unfolding n_def by (rule reachable_ok)
  have ok': "lifecycle_ok (nz_state (fst (feed c n ?i)))" using ok by (rule feed_ok)
  have rest: "list_all quiet_input (is @ [Tick now])" using quiet by (simp add: quiet_input_def)
  have "ended_once t (nz_state (fst run)) (run_idles (snd run))"
    using result_settles [OF ok live, of a c r u m] settling_run [OF _ ok' quiet late, of t c]
      no_turn_run [OF ok' _ rest, of c]
    by (auto simp: run_def n_def [symmetric] run_idles_Cons ended_once_def simp del: feed_all.simps)
  then show ?thesis by (simp add: ended_once_def)
qed

section \<open>Witnesses\<close>

definition plain_config :: lifecycle_config where
  "plain_config = \<lparr>lc_quiet = 100, lc_hard = 1000, lc_drain_grace = 20, lc_cancel_grace = 30,
     lc_descriptor = \<lparr>md_updates = [], md_diff_is_fragment = False\<rparr>, lc_extensions = [],
     lc_error_rules = [], lc_base_dir = None, lc_modes = None,
     lc_regex = (\<lambda>p l. Some (contains l p)), lc_frac_text = (\<lambda>q. ''?'')\<rparr>"

definition asked_once :: "turn_input list" where
  "asked_once = [PromptSent ''t1'' 0]"

theorem idle_carries_the_agents_answer_witness:
  "asked [PromptSent ''t1'' 0, PromptResult ''end_turn'' None 10 None] = Some (''t1'', Some ''end_turn'')"
proof -
  have fact: "(''t1'', Some ''end_turn'') \<in> set (idles_of (Tick 200) (snd (feed plain_config
      (fst (feed_all plain_config new_normalizer
        [PromptSent ''t1'' 0, PromptResult ''end_turn'' None 10 None])) (Tick 200))))"
    by code_simp
  from idle_carries_the_agents_answer [OF fact] show ?thesis by (auto simp: answer_at_def)
qed

theorem answered_turn_ends_by_cutoff_witness:
  "idle_count ''t1'' (run_idles (snd (feed_all plain_config
     (fst (feed_all plain_config new_normalizer asked_once))
     (PromptResult ''end_turn'' None 10 None # [Tick 50] @ [Tick 1010])))) = 1"
proof -
  have facts: "tl_turn (nz_state (fst (feed_all plain_config new_normalizer asked_once))) = Some ''t1''"
    "tl_phase (nz_state (fst (feed_all plain_config new_normalizer asked_once))) = PhRunning"
    "tl_rung (nz_state (fst (feed_all plain_config new_normalizer asked_once))) = 0"
    "list_all quiet_input [Tick 50]" "10 + lc_hard plain_config \<le> 1010"
    by code_simp+
  from answered_turn_ends_by_cutoff [OF facts] show ?thesis by blast
qed

end
