(* ===== verification/TurnLadder.thy ===== *)
theory TurnLadder
  imports TurnLifecycleClaims
begin

text \<open>
  The close-out ladder: bounded, monotone and finished after at most four due ticks; what a ladder that
  has run leaves behind for the next turn; and the round trip from the reducer's \<open>idle\<close> to the
  turn aggregate.
\<close>

section \<open>The ladder is bounded\<close>

text \<open>The latest instant at which the ladder can still be waiting, seen from a state.\<close>

definition ladder_end :: "lifecycle_config \<Rightarrow> lifecycle \<Rightarrow> ms \<Rightarrow> ms" where
  "ladder_end c s d =
     (if tl_rung s = 1 then option_or d (tl_cutoff s) + lc_cancel_grace c + lc_drain_grace c
      else if tl_rung s = 4 then d else d + lc_drain_grace c)"

definition climbing :: "lifecycle_config \<Rightarrow> ms \<Rightarrow> lifecycle \<Rightarrow> bool" where
  "climbing c e s \<longleftrightarrow>
     1 \<le> tl_rung s \<and> tl_rung s \<le> 4 \<and> tl_phase s \<noteq> PhSettling \<and>
     (\<exists>d. tl_deadline s = Some d \<and> ladder_end c s d \<le> e \<and>
       (tl_rung s = 1 \<longrightarrow> (\<forall>h. tl_cutoff s = Some h \<longrightarrow> d \<le> h)))"

text \<open>A tick on time: no later than the deadline in force; it is due when it comes exactly then.\<close>

definition timely :: "normalizer \<Rightarrow> turn_input \<Rightarrow> bool" where
  "timely n i =
     (case i of
        PromptSent _ _ \<Rightarrow> False
      | Tick x \<Rightarrow> (case tl_deadline (nz_state n) of None \<Rightarrow> True | Some d \<Rightarrow> x \<le> d)
      | _ \<Rightarrow> True)"

definition due :: "normalizer \<Rightarrow> turn_input \<Rightarrow> nat" where
  "due n i = (case i of Tick x \<Rightarrow> if tl_deadline (nz_state n) = Some x then 1 else 0 | _ \<Rightarrow> 0)"

fun on_time :: "lifecycle_config \<Rightarrow> normalizer \<Rightarrow> turn_input list \<Rightarrow> bool" where
  "on_time c n [] = True"
| "on_time c n (i # is) = (timely n i \<and> on_time c (fst (feed c n i)) is)"

fun due_ticks :: "lifecycle_config \<Rightarrow> normalizer \<Rightarrow> turn_input list \<Rightarrow> nat" where
  "due_ticks c n [] = 0"
| "due_ticks c n (i # is) = due n i + due_ticks c (fst (feed c n i)) is"

lemma climbing_rung: "climbing c e s \<Longrightarrow> tl_rung s \<le> 4 \<and> 1 \<le> tl_rung s"
  by (simp add: climbing_def)

lemma climbing_advance:
  assumes "climbing c e s" "config_ok c" "tl_deadline s = Some d" "x \<le> d"
  shows "tl_rung (fst (advance c s x)) = 5 \<or>
    climbing c e (fst (advance c s x)) \<and> tl_rung (fst (advance c s x)) = tl_rung s + 1"
proof -
  have "1 \<le> tl_rung s" "tl_rung s \<le> 4" using assms(1) by (simp_all add: climbing_def)
  then consider "tl_rung s = 1" | "tl_rung s = 2" | "tl_rung s = 3" | "tl_rung s = 4" by linarith
  then show ?thesis
  proof cases
    case 1
    then have "d \<le> option_or d (tl_cutoff s)" "ladder_end c s d \<le> e"
      using assms(1,3) by (auto simp: climbing_def split: option.split) (cases "tl_cutoff s"; simp)
    with 1 assms show ?thesis
      by (simp add: advance_def climbing_def ladder_end_def settle_rung1_def config_ok_def Let_def)
  qed (use assms in \<open>auto simp: advance_def climbing_def ladder_end_def config_ok_def terminate_def Let_def\<close>)
qed

lemma climbing_carry:
  assumes "climbing c e s"
  shows "climbing c e (carry_ladder s) \<and> tl_rung (carry_ladder s) = tl_rung s"
proof -
  obtain d where d: "tl_deadline s = Some d" "ladder_end c s d \<le> e" "1 \<le> tl_rung s" "tl_rung s \<le> 4"
    "tl_rung s = 1 \<Longrightarrow> \<forall>h. tl_cutoff s = Some h \<longrightarrow> d \<le> h"
    using assms by (auto simp: climbing_def)
  let ?k = "carry_ladder s"
  have k: "tl_rung ?k = tl_rung s" "tl_deadline ?k = Some d" "tl_cutoff ?k = None" "tl_phase ?k = PhClosing"
    using d by (simp_all add: carry_ladder_def idle_state_def)
  have "ladder_end c ?k d \<le> ladder_end c s d"
    using d(5) by (cases "tl_cutoff s") (simp_all add: ladder_end_def k)
  with d have "ladder_end c ?k d \<le> e" by simp
  with k d show ?thesis by (simp add: climbing_def)
qed

lemma climbing_push:
  assumes "climbing c e s"
  shows "climbing c e (push_deadline c now (absorb s q)) \<and>
    tl_rung (push_deadline c now (absorb s q)) = tl_rung s"
  using assms
  by (auto simp: climbing_def push_deadline_def absorb_def ladder_end_def next_deadline_def
      split: option.splits)

lemma climbing_step:
  assumes "climbing c e (nz_state n)" "config_ok c" "timely n i"
  shows "tl_rung (nz_state (fst (feed c n i))) = 5 \<or>
    climbing c e (nz_state (fst (feed c n i))) \<and>
    tl_rung (nz_state n) + due n i \<le> tl_rung (nz_state (fst (feed c n i)))"
proof -
  let ?s = "nz_state n"
  obtain d where d: "tl_deadline ?s = Some d" and pos: "0 < tl_rung ?s"
    using assms(1) by (auto simp: climbing_def)
  obtain n' out where f: "feed c n i = (n', out)" by (cases "feed c n i")
  from f show ?thesis
  proof (cases rule: feed_cases)
    case raised
    then show ?thesis using assms(1) f by (auto simp: due_def)
  next
    case (update u x r g st y)
    then obtain q where "nz_state n' = push_deadline c x (absorb ?s q)"
      using agent_update_state by blast
    with climbing_push [OF assms(1), of x q] update(1) f show ?thesis by (simp add: due_def)
  next
    case (result p u x m)
    then show ?thesis using assms(1) f pos
      by (auto simp: prompt_result_def due_def climbing_def ladder_end_def Let_def split: option.split)
  next
    case (stderr l x)
    then show ?thesis using assms(1) f
      by (auto simp: stderr_line_def due_def climbing_def ladder_end_def Let_def split: option.split)
  next
    case (tick x)
    then have "x \<le> d" using assms(3) d by (simp add: timely_def)
    then show ?thesis
      using tick f d pos assms(1) climbing_advance [OF assms(1,2) d, of x]
      by (auto simp: tick_def ladder_tick_def due_def)
  qed (use assms f pos climbing_carry [OF assms(1)] in
      \<open>auto simp: timely_def due_def close_requested_def drained_def terminate_def Let_def\<close>)
qed

lemma last_rung_stays:
  assumes "tl_rung (nz_state n) = 5" "\<forall>t x. i \<noteq> PromptSent t x"
  shows "tl_rung (nz_state (fst (feed c n i))) = 5"
proof -
  obtain n' out where f: "feed c n i = (n', out)" by (cases "feed c n i")
  from f show ?thesis
  proof (cases rule: feed_cases)
    case (update u x r g st y)
    then obtain q where "nz_state n' = push_deadline c x (absorb (nz_state n) q)"
      using agent_update_state by blast
    with assms(1) f show ?thesis by (simp add: push_deadline_def absorb_def split: option.split)
  qed (use assms f in \<open>auto simp: prompt_result_def carry_ladder_def close_requested_def drained_def
      stderr_line_def tick_def ladder_tick_def advance_def terminate_def Let_def split: option.splits\<close>)
qed

lemma climbing_run:
  "climbing c e (nz_state n) \<or> tl_rung (nz_state n) = 5 \<Longrightarrow> config_ok c \<Longrightarrow> on_time c n is \<Longrightarrow>
   tl_rung (nz_state (fst (feed_all c n is))) = 5 \<or>
   climbing c e (nz_state (fst (feed_all c n is))) \<and>
   tl_rung (nz_state n) + due_ticks c n is \<le> tl_rung (nz_state (fst (feed_all c n is)))"
proof (induction "is" arbitrary: n)
  case (Cons i "is")
  let ?n = "fst (feed c n i)"
  have t: "timely n i" "on_time c ?n is" using Cons.prems(3) by simp_all
  then have p: "\<forall>t x. i \<noteq> PromptSent t x" by (auto simp: timely_def)
  have "tl_rung (nz_state ?n) = 5 \<or>
      climbing c e (nz_state ?n) \<and> tl_rung (nz_state n) + due n i \<le> tl_rung (nz_state ?n)"
    using Cons.prems(1) climbing_step [OF _ Cons.prems(2) t(1), of e] last_rung_stays [OF _ p, of n c]
    by blast
  with Cons.IH [of ?n] Cons.prems(2) t(2) climbing_rung [of c e "nz_state (fst (feed_all c ?n is))"]
  show ?case by (auto simp del: feed_all.simps)
qed auto

lemma close_starts_climbing:
  assumes "lifecycle_ok s" "tl_turn s \<noteq> None" "tl_rung s = 0" "config_ok c"
  shows "climbing c (now + lc_hard c + lc_cancel_grace c + lc_drain_grace c)
    (fst (close_requested c s now))"
proof -
  let ?d = "min (max (now + lc_quiet c) (option_or now (tl_deadline s))) (now + lc_hard c)"
  let ?s = "s\<lparr>tl_phase := PhClosing, tl_rung := 1, tl_reason := Some SCancelled,
      tl_deadline := Some ?d, tl_cutoff := Some (now + lc_hard c)\<rparr>"
  let ?e = "now + lc_hard c + lc_cancel_grace c + lc_drain_grace c"
  have c: "climbing c ?e ?s" by (simp add: climbing_def ladder_end_def)
  show ?thesis
  proof (cases "?d \<le> now")
    case True
    have "tl_rung (fst (advance c ?s now)) = 2" by (simp add: advance_def Let_def)
    moreover have "?d = now" using True assms(4) by (auto simp: config_ok_def min_def max_def split: if_splits)
    ultimately have "climbing c ?e (fst (advance c ?s now))"
      using climbing_advance [OF c assms(4), of ?d now] by simp
    with True assms(2,3) show ?thesis by (auto simp: close_requested_def Let_def)
  next
    case False
    with c assms(2,3) show ?thesis by (auto simp: close_requested_def Let_def)
  qed
qed

text \<open>
  C10: The close-out ladder terminates. Take a reachable reducer with a live turn whose ladder has not
  started (rung 0), under a configuration with sensible delays, and request the close-out at \<open>now\<close>. Then, under
  any further inputs (updates, answers, errors, a death, further close requests) but a new prompt, with ticks
  that are never later than the deadline in force: either the ladder has reached its last rung, or it is still
  armed with a deadline no later than \<open>now + hardMs + cancelGraceMs + drainGraceMs\<close> and fewer than four due
  ticks have come. So the last rung is reached after at most four due ticks. Late ticks and prompts sent
  during the ladder are not covered.
\<close>

theorem close_out_terminates:
  fixes c pre now "is"
  defines "n \<equiv> fst (feed_all c new_normalizer pre)"
    and "n1 \<equiv> fst (feed c (fst (feed_all c new_normalizer pre)) (CloseRequested now))"
    and "done \<equiv> nz_state (fst (feed_all c
           (fst (feed c (fst (feed_all c new_normalizer pre)) (CloseRequested now))) is))"
  assumes cfg: "config_ok c" and live: "tl_turn (nz_state n) \<noteq> None" "tl_rung (nz_state n) = 0"
    and clock: "on_time c n1 is"
  shows "tl_rung done = 5 \<or>
    due_ticks c n1 is < 4 \<and> tl_rung done \<le> 4 \<and> due_ticks c n1 is < tl_rung done \<and>
    (\<exists>d. tl_deadline done = Some d \<and>
       d \<le> now + lc_hard c + lc_cancel_grace c + lc_drain_grace c)"
proof -
  let ?e = "now + lc_hard c + lc_cancel_grace c + lc_drain_grace c"
  have n1: "nz_state n1 = fst (close_requested c (nz_state n) now)"
    by (simp add: n1_def n_def feed_def step_turn_lifecycle_def keep_ids_def Let_def)
  have start: "climbing c ?e (nz_state n1)"
    unfolding n1 by (rule close_starts_climbing [OF _ live cfg]) (simp add: n_def reachable_ok)
  from climbing_run [OF disjI1 [OF start] cfg clock] show ?thesis
  proof
    assume "climbing c ?e (nz_state (fst (feed_all c n1 is))) \<and>
      tl_rung (nz_state n1) + due_ticks c n1 is \<le> tl_rung (nz_state (fst (feed_all c n1 is)))"
    then have cl: "climbing c ?e done" and r: "tl_rung (nz_state n1) + due_ticks c n1 is \<le> tl_rung done"
      by (simp_all add: done_def n1_def)
    obtain d where d: "tl_deadline done = Some d" "ladder_end c done d \<le> ?e"
      "tl_rung done = 1 \<Longrightarrow> \<forall>h. tl_cutoff done = Some h \<longrightarrow> d \<le> h"
      using cl by (auto simp: climbing_def)
    have "d \<le> ladder_end c done d"
      using d(3) cfg by (cases "tl_cutoff done") (auto simp: ladder_end_def config_ok_def)
    with d r climbing_rung [OF cl] climbing_rung [OF start] show ?thesis by auto
  qed (simp add: done_def n1_def)
qed

section \<open>What a finished ladder leaves behind\<close>

definition agent_input :: "turn_input \<Rightarrow> bool" where
  "agent_input i =
     (case i of AgentUpdate _ _ _ \<Rightarrow> True | PromptResult _ _ _ _ \<Rightarrow> True | StderrLine _ _ \<Rightarrow> True
      | CloseRequested _ \<Rightarrow> True | _ \<Rightarrow> False)"

definition unarmed :: "turn_output option \<Rightarrow> bool" where
  "unarmed out = (case out of None \<Rightarrow> True
     | Some x \<Rightarrow> out_tick x = None \<and> out_settled x = None \<and> out_action x = None)"

lemma agent_update_out:
  "agent_update c g s u now r = Some (g', s', out) \<Longrightarrow>
   (\<exists>q. s' = push_deadline c now (absorb s q)) \<and> out_tick out = tl_deadline s' \<and>
   out_settled out = None \<and> out_action out = None"
  by (auto simp: agent_update_def Let_def split: option.splits prod.splits)

definition stuck :: "string \<Rightarrow> lifecycle \<Rightarrow> bool" where
  "stuck t s \<longleftrightarrow> tl_rung s = 5 \<and> tl_phase s = PhRunning \<and> tl_turn s = Some t \<and> tl_deadline s = None \<and>
     tl_cutoff s = None"

lemma stuck_step:
  assumes "stuck t (nz_state n)" "agent_input i"
  shows "stuck t (nz_state (fst (feed c n i))) \<and> unarmed (snd (feed c n i)) \<and>
    idles_of i (snd (feed c n i)) = []"
proof -
  obtain n' out where f: "feed c n i = (n', out)" by (cases "feed c n i")
  from f show ?thesis
  proof (cases rule: feed_cases)
    case raised
    then show ?thesis using assms f by (auto simp: unarmed_def idles_of_def)
  next
    case (update u x r g st y)
    from agent_update_out [OF this(2)] obtain q where
      "st = push_deadline c x (absorb (nz_state n) q)"
      "out_tick y = tl_deadline st" "out_settled y = None" "out_action y = None" by blast
    with update assms(1) f show ?thesis
      by (auto simp: stuck_def push_deadline_def absorb_def unarmed_def idles_of_def)
  next
    case (result p u x m)
    then show ?thesis using assms(1) f
      by (auto simp: stuck_def prompt_result_def unarmed_def idles_of_def Let_def)
  next
    case (close x)
    then show ?thesis using assms(1) f
      by (auto simp: stuck_def close_requested_def unarmed_def idles_of_def)
  next
    case (stderr l x)
    then show ?thesis using assms(1) f
      by (auto simp: stuck_def stderr_line_def unarmed_def idles_of_def Let_def split: option.split)
  qed (use assms(2) in \<open>auto simp: agent_input_def\<close>)
qed

lemma stuck_run:
  "stuck t (nz_state n) \<Longrightarrow> list_all agent_input is \<Longrightarrow>
   tl_turn (nz_state (fst (feed_all c n is))) = Some t \<and> run_idles (snd (feed_all c n is)) = [] \<and>
   list_all (\<lambda>(i, out). unarmed out) (snd (feed_all c n is))"
proof (induction "is" arbitrary: n)
  case Nil
  then show ?case by (simp add: stuck_def run_idles_def)
next
  case (Cons i "is")
  with stuck_step [of t n i c] Cons.IH [of "fst (feed c n i)"] show ?case
    by (auto simp: run_idles_def Let_def split_beta)
qed

text \<open>
  A ladder that has run is never reset. After the last rung a further prompt is started in the log but
  never settles: the agent's updates and its answer synthesize no \<open>idle\<close>, no tick is ever armed, no action
  is requested, and a new close request is ignored.
\<close>

theorem finished_ladder_hangs_next_turn:
  assumes "tl_rung (nz_state n) = 5" "list_all agent_input is"
  shows "tl_turn (nz_state (fst (feed_all c n (PromptSent t a # is)))) = Some t \<and>
    run_idles (snd (feed_all c (fst (feed c n (PromptSent t a))) is)) = [] \<and>
    list_all (\<lambda>(i, out). unarmed out) (snd (feed_all c n (PromptSent t a # is)))"
proof -
  let ?n = "fst (feed c n (PromptSent t a))"
  have "stuck t (nz_state ?n)" "unarmed (snd (feed c n (PromptSent t a)))"
    using assms(1)
    by (simp_all add: feed_def step_turn_lifecycle_def keep_ids_def prompt_sent_def stuck_def unarmed_def
        ladder_deadline_def idle_state_def Let_def)
  with stuck_run [OF _ assms(2), of t ?n c] show ?thesis by (simp add: Let_def split_beta)
qed

section \<open>What idle carries is what the aggregate reads\<close>

definition readable :: "turn_warning \<Rightarrow> bool" where
  "readable w = (case tw_detail w of None \<Rightarrow> True | Some d \<Rightarrow> js_record (Some d) = Some d)"

lemma warning_source_text [simp]: "warning_source_of (source_text x) = Some x"
  by (cases x) (simp_all add: warning_source_of_def)

lemma read_warning_json: "readable w \<Longrightarrow> read_warning (warning_json w) = [w]"
  by (cases w) (auto simp: read_warning_def warning_json_def readable_def split: option.split)

lemma read_warnings_json:
  "list_all readable ws \<Longrightarrow> read_warnings (Some (JArr (map warning_json ws))) = ws"
proof -
  assume "list_all readable ws"
  then have "List.maps read_warning (map warning_json ws) = ws"
    by (induction ws) (simp_all add: read_warning_json)
  then show ?thesis by (simp add: read_warnings_def)
qed

lemma read_vendor_patch_json: "read_vendor_patch (Some (vendor_patch_json p)) = Some p"
  by (simp add: read_vendor_patch_def vendor_patch_json_def)

lemma unseen_warnings_subset: "set (unseen_warnings seen ws) \<subseteq> set ws"
  by (induction seen ws rule: unseen_warnings.induct) auto

lemma add_warnings_readable:
  "list_all readable ws \<Longrightarrow> list_all readable vs \<Longrightarrow> list_all readable (add_warnings ws vs)"
  using unseen_warnings_subset [of "map warning_key ws" vs]
  by (auto simp: add_warnings_def list_all_iff)

lemma read_extension_readable:
  "list_all readable (ro_warnings r) \<Longrightarrow> list_all readable (ro_warnings (read_extension c m r e))"
  by (auto simp: read_extension_def rate_warning_def readable_def list_all_iff split: option.split)

lemma read_extensions_readable: "list_all readable (ro_warnings (read_extensions c p))"
proof -
  have "list_all readable (ro_warnings r) \<Longrightarrow>
      list_all readable (ro_warnings (foldl (read_extension c m) r es))" for m r es
    by (induction es arbitrary: r) (simp_all add: read_extension_readable)
  then show ?thesis by (simp add: read_extensions_def no_extensions_def split: option.split)
qed

lemma advance_warnings: "list_all readable (tl_warnings s) \<Longrightarrow> list_all readable (tl_warnings (fst (advance c s x)))"
  by (simp add: advance_def settle_rung1_def terminate_def idle_state_def Let_def)

lemma agent_update_warnings:
  "agent_update c g s u now r = Some (g', s', out) \<Longrightarrow>
   \<exists>p. tl_warnings s' = add_warnings (tl_warnings s) (ro_warnings (read_extensions c p))"
  by (auto simp: agent_update_def push_deadline_def absorb_def Let_def split: option.splits prod.splits)

lemma stderr_warnings:
  "list_all readable (tl_warnings s) \<Longrightarrow> list_all readable (tl_warnings (fst (stderr_line c s l)))"
  by (simp add: stderr_line_def Let_def add_warnings_readable readable_def split: option.split)

lemma feed_readable:
  assumes "list_all readable (tl_warnings (nz_state n))"
  shows "list_all readable (tl_warnings (nz_state (fst (feed c n i))))"
proof -
  obtain n' out where f: "feed c n i = (n', out)" by (cases "feed c n i")
  from f show ?thesis
  proof (cases rule: feed_cases)
    case (update u x r g st y)
    from agent_update_warnings [OF this(2)] obtain p where
      "tl_warnings st = add_warnings (tl_warnings (nz_state n)) (ro_warnings (read_extensions c p))" by blast
    with update assms f show ?thesis by (simp add: add_warnings_readable read_extensions_readable)
  next
    case (stderr l x)
    with stderr_warnings [OF assms, of c l] f show ?thesis by simp
  next
    case (close x)
    with assms f show ?thesis
      by (auto simp: close_requested_def Let_def intro!: advance_warnings)
  next
    case (tick x)
    with assms f show ?thesis
      by (auto simp: tick_def ladder_tick_def idle_state_def advance_warnings split: option.split)
  qed (use assms f in \<open>auto simp: prompt_sent_def prompt_result_def carry_ladder_def drained_def terminate_def
      idle_state_def Let_def split: option.split\<close>)
qed

lemma reachable_readable:
  "list_all readable (tl_warnings (nz_state (fst (feed_all c new_normalizer is))))"
proof (induction "is" rule: rev_induct)
  case Nil
  then show ?case by (simp add: new_normalizer_def idle_state_def)
qed (simp add: feed_readable)

definition patch_warnings :: "json option \<Rightarrow> turn_warning list" where
  "patch_warnings block =
     (case js_record block of None \<Rightarrow> [] | Some b \<Rightarrow> read_warnings (fld b ''warnings''))"

text \<open>
  What the reducer stamps on \<open>idle\<close> is what the turn aggregate reads off it. In any reachable state,
  when the provider's block does not use the reducer's own two keys, folding the payload ends the turn with
  the agent's stop reason and its token usage, appends exactly the accumulated advisories, and restores the
  vendor patch and the provider's patch block.
\<close>

theorem idle_reads_back:
  fixes c pre f s
  defines "st \<equiv> nz_state (fst (feed_all c new_normalizer pre))"
  defines "meta \<equiv> option_or [] (tl_meta (nz_state (fst (feed_all c new_normalizer pre))))"
  assumes "map_of meta ''omni/warnings'' = None" "map_of meta ''omni/vendorPatch'' = None"
  shows "fo_terminal (apply_session_update f s (idle_payload st)) = Some ByIdle \<and>
    fo_stop_reason (apply_session_update f s (idle_payload st)) = tl_stop st \<and>
    fo_tokens (apply_session_update f s (idle_payload st)) =
      or_else (read_tokens (map_option JObj (v2_usage (tl_usage st)))) (fo_tokens f) \<and>
    fo_vendor_patch (apply_session_update f s (idle_payload st)) =
      or_else (tl_patch st) (fo_vendor_patch f) \<and>
    fo_stream_warnings (apply_session_update f s (idle_payload st)) =
      fo_stream_warnings f @ tl_warnings st @ patch_warnings (map_of meta ''omni/patch'') \<and>
    fo_patch (apply_session_update f s (idle_payload st)) =
      (case map_of meta ''omni/patch'' of None \<Rightarrow> fo_patch f | Some b \<Rightarrow> read_patch (Some b))"
proof -
  have ws: "list_all readable (tl_warnings st)" unfolding st_def by (rule reachable_readable)
  have usage: "fld (idle_payload st) ''usage'' = map_option JObj (v2_usage (tl_usage st))"
    by (simp add: idle_payload_def split: option.split)
  have m: "fld (idle_payload st) ''_meta'' = (if idle_meta st = [] then None else Some (JObj (idle_meta st)))"
    by (simp add: idle_payload_def split: option.split)
  have keys: "map_of (idle_meta st) ''omni/warnings'' =
      (if tl_warnings st = [] then None else Some (JArr (map warning_json (tl_warnings st))))"
    "map_of (idle_meta st) ''omni/vendorPatch'' = map_option vendor_patch_json (tl_patch st)"
    "map_of (idle_meta st) ''omni/patch'' = map_of meta ''omni/patch''"
    using assms by (auto simp: idle_meta_def Let_def split: option.split)
  have wr: "read_warnings (map_of (idle_meta st) ''omni/warnings'') = tl_warnings st"
    by (simp add: keys(1) read_warnings_json [OF ws]) (simp add: read_warnings_def)
  have vp: "read_vendor_patch (map_of (idle_meta st) ''omni/vendorPatch'') = tl_patch st"
    by (cases "tl_patch st") (simp_all add: keys(2) read_vendor_patch_json, simp add: read_vendor_patch_def)
  show ?thesis
  proof (cases "idle_meta st = []")
    case True
    with wr vp keys(3) show ?thesis
      by (auto simp: apply_session_update_def apply_idle_def usage m read_warnings_def read_vendor_patch_def
          patch_warnings_def split: if_splits)
  next
    case False
    show ?thesis
      by (auto simp: apply_session_update_def apply_idle_def apply_idle_meta_def usage m False wr vp keys(3)
          patch_warnings_def Let_def split: option.split)
  qed
qed

section \<open>Witnesses\<close>

definition closing_inputs :: "turn_input list" where
  "closing_inputs = [Tick 100, Tick 130, Tick 130, Tick 150]"

theorem close_out_terminates_witness:
  "tl_rung (nz_state (fst (feed_all plain_config
     (fst (feed plain_config (fst (feed_all plain_config new_normalizer asked_once)) (CloseRequested 0)))
     closing_inputs))) = 5"
proof -
  let ?n1 = "fst (feed plain_config (fst (feed_all plain_config new_normalizer asked_once)) (CloseRequested 0))"
  have facts: "config_ok plain_config"
    "tl_turn (nz_state (fst (feed_all plain_config new_normalizer asked_once))) \<noteq> None"
    "tl_rung (nz_state (fst (feed_all plain_config new_normalizer asked_once))) = 0"
    "on_time plain_config ?n1 closing_inputs"
    by code_simp+
  have "due_ticks plain_config ?n1 closing_inputs = 4" by code_simp
  with close_out_terminates [OF facts] show ?thesis by linarith
qed

text \<open>A turn abandoned mid-flight, a close-out run to its end, and then a prompt the agent answers.\<close>

theorem finished_ladder_hangs_next_turn_witness:
  "tl_turn (nz_state (fst (feed_all plain_config
     (fst (feed_all plain_config new_normalizer (asked_once @ CloseRequested 0 # closing_inputs)))
     (PromptSent ''t2'' 500 # [PromptResult ''end_turn'' None 600 None])))) = Some ''t2''"
proof -
  have facts: "tl_rung (nz_state (fst (feed_all plain_config new_normalizer
      (asked_once @ CloseRequested 0 # closing_inputs)))) = 5"
    "list_all agent_input [PromptResult ''end_turn'' None 600 None]"
    by code_simp+
  from finished_ladder_hangs_next_turn [OF facts, of plain_config "''t2''" 500] show ?thesis by blast
qed

theorem idle_reads_back_witness:
  "fo_stop_reason (apply_session_update fold_start 7 (idle_payload (nz_state (fst (feed_all plain_config
     new_normalizer [PromptSent ''t1'' 0, PromptResult ''end_turn'' None 10 None]))))) =
   tl_stop (nz_state (fst (feed_all plain_config
     new_normalizer [PromptSent ''t1'' 0, PromptResult ''end_turn'' None 10 None])))"
proof -
  let ?pre = "[PromptSent ''t1'' 0, PromptResult ''end_turn'' None 10 None]"
  have facts: "map_of (option_or [] (tl_meta (nz_state (fst (feed_all plain_config new_normalizer ?pre)))))
      ''omni/warnings'' = None"
    "map_of (option_or [] (tl_meta (nz_state (fst (feed_all plain_config new_normalizer ?pre)))))
      ''omni/vendorPatch'' = None"
    by code_simp+
  from idle_reads_back [OF facts] show ?thesis by blast
qed

section \<open>A patch that is wrong rather than null\<close>

text \<open>
  A hunk line that contains a line break counts as one line and prints as two, so the reconstructed
  patch has a body longer than its header says.
\<close>

definition broken_hunk_response :: json where
  "broken_hunk_response = JObj
     [(''filePath'', JStr ''a.txt''), (''originalFile'', JStr ''x''),
      (''structuredPatch'', JArr [JObj
        [(''oldStart'', JNum (Fin 1)), (''oldLines'', JNum (Fin 0)),
         (''newStart'', JNum (Fin 1)), (''newLines'', JNum (Fin 1)),
         (''lines'', JArr [JStr (''+a'' @ [CHR 0x0A] @ ''+b'')])]])]"

definition broken_hunk_text :: string where
  "broken_hunk_text = join_lines [''diff --git a/a.txt b/a.txt'', ''--- a/a.txt'', ''+++ b/a.txt'',
     ''@@ -1,0 +1,1 @@'', ''+a'', ''+b'', '''']"

lemma line_break_in_hunk_line_misnumbers_patch:
  "read_structured_patch (\<lambda>q. ''?'') broken_hunk_response None = Some (broken_hunk_text, ''vendor'')"
  by code_simp

end
