(* ===== verification/WebhookGuard.thy ===== *)
theory WebhookGuard
  imports WireJson "HOL-Library.Word"
begin

text \<open>
  The address gate in front of the daemon's outbound deliveries: \<open>core/src/webhook/guard.ts\<close>. Node's
  \<open>isIP\<close>, the WHATWG \<open>URL\<close> parser and the DNS resolver are parameters. What is modelled is the
  file's own arithmetic: addresses to bytes, the comparison of the first bits, and the order of the
  refusals.
\<close>

unbundle bit_operations_syntax

section \<open>Addresses as bytes\<close>

definition digit_value :: "char \<Rightarrow> int option" where
  "digit_value c =
     (let n = (of_char c :: int) in if 48 \<le> n \<and> n \<le> 57 then Some (n - 48) else None)"

definition hex_value :: "char \<Rightarrow> int option" where
  "hex_value c =
     (let n = (of_char c :: int) in
      if 48 \<le> n \<and> n \<le> 57 then Some (n - 48)
      else if 97 \<le> n \<and> n \<le> 102 then Some (n - 87)
      else if 65 \<le> n \<and> n \<le> 70 then Some (n - 55) else None)"

definition is_digit :: "char \<Rightarrow> bool" where
  "is_digit c \<longleftrightarrow> digit_value c \<noteq> None"

text \<open>\<open>/^\d+$/\<close> and the value \<open>Number\<close> gives such a string.\<close>

definition all_digits :: "string \<Rightarrow> bool" where
  "all_digits s \<longleftrightarrow> s \<noteq> [] \<and> list_all is_digit s"

definition digits_value :: "string \<Rightarrow> int" where
  "digits_value s =
     foldl (\<lambda>n c. 10 * n + (case digit_value c of None \<Rightarrow> 0 | Some d \<Rightarrow> d)) 0 s"

text \<open>\<open>Number.parseInt(g, 16)\<close>: the leading hexadecimal digits; without any it is \<open>NaN\<close>, whose bits are 0.\<close>

fun hex_prefix :: "int \<Rightarrow> string \<Rightarrow> int" where
  "hex_prefix n [] = n"
| "hex_prefix n (c # cs) = (case hex_value c of None \<Rightarrow> n | Some d \<Rightarrow> hex_prefix (16 * n + d) cs)"

text \<open>The surrounding brackets and the zone index go.\<close>

definition strip_brackets :: "string \<Rightarrow> string" where
  "strip_brackets s =
     (let t = (case s of c # cs \<Rightarrow> if c = CHR ''['' then cs else s | [] \<Rightarrow> [])
      in if t \<noteq> [] \<and> last t = CHR '']'' then butlast t else t)"

fun strip_zone :: "string \<Rightarrow> string" where
  "strip_zone [] = []"
| "strip_zone (c # cs) =
     (if c = CHR ''%'' \<and> CHR 0x0A \<notin> set cs then [] else c # strip_zone cs)"

text \<open>Only digit strings reach \<open>v4\<close>: \<open>isIP\<close> answered 4, or the mapped pattern matched.\<close>

definition v4_bytes :: "string \<Rightarrow> int list option" where
  "v4_bytes text =
     (let parts = split_on CHR ''.'' text in
      if length parts = 4 \<and> list_all (\<lambda>p. all_digits p \<and> digits_value p \<le> 255) parts
      then Some (map digits_value parts) else None)"

text \<open>\<open>/^::ffff:(\d+\.\d+\.\d+\.\d+)$/i\<close>: the dotted quad of a mapped address.\<close>

definition mapped_quad :: "string \<Rightarrow> string option" where
  "mapped_quad text =
     (if take 2 text = ''::'' \<and> list_all (\<lambda>c. c = CHR ''f'' \<or> c = CHR ''F'') (take 4 (drop 2 text)) \<and>
         take 1 (drop 6 text) = '':'' \<and> length (split_on CHR ''.'' (drop 7 text)) = 4 \<and>
         list_all all_digits (split_on CHR ''.'' (drop 7 text))
      then Some (drop 7 text) else None)"

text \<open>\<open>text.split("::")\<close>, as far as the first two parts.\<close>

fun until_double :: "string \<Rightarrow> string \<times> string option" where
  "until_double [] = ([], None)"
| "until_double [c] = ([c], None)"
| "until_double (c # d # cs) =
     (if c = CHR '':'' \<and> d = CHR '':'' then ([], Some cs)
      else (let (a, b) = until_double (d # cs) in (c # a, b)))"

definition group_bytes :: "string \<Rightarrow> int list" where
  "group_bytes s =
     (if s = [] then []
      else List.maps (\<lambda>g. let v = hex_prefix 0 g in [drop_bit 8 v, v AND 255]) (split_on CHR '':'' s))"

definition is_mapped_v4 :: "int list \<Rightarrow> bool" where
  "is_mapped_v4 bs \<longleftrightarrow> list_all (\<lambda>b. b = 0) (take 10 bs) \<and> drop 10 bs \<noteq> [] \<and>
     bs ! 10 = 255 \<and> bs ! 11 = 255"

definition v6_bytes :: "string \<Rightarrow> int list option" where
  "v6_bytes text =
     (let (head_part, rest) = until_double text;
          left = group_bytes head_part;
          bytes = (case rest of
              None \<Rightarrow> left
            | Some r \<Rightarrow> (let right = group_bytes (fst (until_double r))
                        in left @ replicate (16 - length left - length right) 0 @ right))
      in if length bytes \<noteq> 16 then None
         else if is_mapped_v4 bytes then Some (drop 12 bytes) else Some bytes)"

text \<open>\<open>is_ip\<close> answers 4, 6 or 0.\<close>

definition to_bytes :: "(string \<Rightarrow> nat) \<Rightarrow> string \<Rightarrow> int list option" where
  "to_bytes is_ip raw =
     (let text = strip_zone (strip_brackets raw) in
      if is_ip text = 4 then v4_bytes text
      else if is_ip text \<noteq> 6 then None
      else (case mapped_quad text of Some q \<Rightarrow> v4_bytes q | None \<Rightarrow> v6_bytes text))"

section \<open>CIDR blocks\<close>

text \<open>\<open>lastIndexOf("/")\<close>: the part before the last slash and the part after it.\<close>

definition split_last_slash :: "string \<Rightarrow> (string \<times> string) option" where
  "split_last_slash s =
     (if CHR ''/'' \<notin> set s then None
      else Some (rev (tl (dropWhile (\<lambda>c. c \<noteq> CHR ''/'') (rev s))),
                 rev (takeWhile (\<lambda>c. c \<noteq> CHR ''/'') (rev s))))"

text \<open>The comparison of the first \<open>prefix\<close> bits, whole bytes first, then the masked rest.\<close>

definition nth_or_zero :: "int list \<Rightarrow> nat \<Rightarrow> int" where
  "nth_or_zero bs i = (if i < length bs then bs ! i else 0)"

definition prefix_equal :: "nat \<Rightarrow> int list \<Rightarrow> int list \<Rightarrow> bool" where
  "prefix_equal prefix net addr \<longleftrightarrow>
     (let whole = prefix div 8; bits = prefix mod 8; mask = push_bit (8 - bits) 255 AND 255 in
      take whole net = take whole addr \<and>
      (bits = 0 \<or> nth_or_zero net whole AND mask = nth_or_zero addr whole AND mask))"

definition cidr_contains :: "(string \<Rightarrow> nat) \<Rightarrow> string \<Rightarrow> string \<Rightarrow> bool" where
  "cidr_contains is_ip cidr address =
     (case split_last_slash cidr of
        None \<Rightarrow> False
      | Some (net, width) \<Rightarrow>
          if \<not> all_digits width then False
          else (case (to_bytes is_ip net, to_bytes is_ip address) of
                  (Some n, Some a) \<Rightarrow>
                    length n = length a \<and> digits_value width \<le> int (length n) * 8 \<and>
                    prefix_equal (nat (digits_value width)) n a
                | _ \<Rightarrow> False))"

definition first_denying :: "(string \<Rightarrow> nat) \<Rightarrow> string \<Rightarrow> string list \<Rightarrow> string option" where
  "first_denying is_ip address cidrs = List.find (\<lambda>c. cidr_contains is_ip c address) cidrs"

section \<open>The gate\<close>

record url =
  url_protocol :: string
  url_username :: string
  url_password :: string
  url_origin :: string
  url_hostname :: string

record webhook_config =
  wc_enabled :: bool
  wc_allowlist :: bool
  wc_allow :: "string list"
  wc_deny_cidrs :: "string list"
  wc_secrets :: "(string \<times> string) list"
  wc_backoff :: "ms list"
  wc_jitter :: rat
  wc_max_concurrent :: int
  wc_max_body_bytes :: int

record net_host =
  nh_is_ip :: "string \<Rightarrow> nat"
  nh_parse_url :: "string \<Rightarrow> url option"
  nh_resolve :: "string \<Rightarrow> string list option"

definition same_origin :: "net_host \<Rightarrow> string \<Rightarrow> url \<Rightarrow> bool" where
  "same_origin h entry u =
     (case nh_parse_url h entry of None \<Rightarrow> False | Some e \<Rightarrow> url_origin e = url_origin u)"

definition url_addresses :: "net_host \<Rightarrow> url \<Rightarrow> string list option" where
  "url_addresses h u =
     (let host = strip_brackets (url_hostname u) in
      if nh_is_ip h host \<noteq> 0 then Some [host] else nh_resolve h host)"

text \<open>\<open>assertWebhookUrl\<close>: the URL, or the code of the refusal.\<close>

definition assert_webhook_url :: "net_host \<Rightarrow> webhook_config \<Rightarrow> string \<Rightarrow> omni_code + url" where
  "assert_webhook_url h cfg raw =
     (case nh_parse_url h raw of
        None \<Rightarrow> Inl BadRequest
      | Some u \<Rightarrow>
          if url_protocol u \<noteq> ''http:'' \<and> url_protocol u \<noteq> ''https:'' then Inl Forbidden
          else if url_username u \<noteq> '''' \<or> url_password u \<noteq> '''' then Inl Forbidden
          else if wc_allowlist cfg \<and> \<not> list_ex (\<lambda>e. same_origin h e u) (wc_allow cfg) then Inl Forbidden
          else (case url_addresses h u of
                  None \<Rightarrow> Inl Forbidden
                | Some addresses \<Rightarrow>
                    if addresses = [] then Inl Forbidden
                    else if list_ex (\<lambda>a. first_denying (nh_is_ip h) a (wc_deny_cidrs cfg) \<noteq> None) addresses
                    then Inl Forbidden else Inr u))"

end
