(* ===== verification/Deliveries.thy ===== *)
theory Deliveries
  imports WebhookGuard "HOL-Library.List_Lexorder" "HOL-Library.Char_ord" "HOL-Library.Product_Lexorder"
begin

text \<open>
  Webhook deliveries: the retry ladder (\<open>core/src/webhook/ladder.ts\<close>), the delivery store with its SQL
  statements as functions on rows (\<open>core/src/persist/delivery-store.ts\<close>) and the delivery loop
  (\<open>core/src/webhook/dispatcher.ts\<close>). A request on the wire is an in-flight task; its answer is an
  operation. Instants stored as ISO text are milliseconds. The signing key and the size of a body are
  parameters, and so is the generator of random numbers, indexed by the number of its calls.
\<close>

section \<open>The ladder\<close>

definition d9_backoff :: "ms list" where
  "d9_backoff = [0, 30000, 120000, 600000, 1800000, 7200000]"

definition plan_next_attempt :: "int \<Rightarrow> ms \<Rightarrow> rat \<Rightarrow> rat \<Rightarrow> ms list \<Rightarrow> ms option" where
  "plan_next_attempt attempt now jitter roll ladder =
     (let rung = nat (max 0 attempt) in
      if length ladder \<le> rung then None
      else (let base = ladder ! rung;
                spread = max 0 (min 1 jitter) * of_int base;
                r = min 1 (max 0 roll)
            in Some (now + base + \<lfloor>r * spread\<rfloor>)))"

section \<open>The store\<close>

datatype delivery_state = DPending | DDelivering | DDelivered | DFailed

record delivery =
  dl_id :: string
  dl_run :: string
  dl_token :: string
  dl_event :: string
  dl_url :: string
  dl_state :: delivery_state
  dl_attempt :: nat
  dl_next :: "ms option"
  dl_lease :: "string option"
  dl_last_status :: "int option"
  dl_last_error :: "string option"
  dl_response :: "ms option"
  dl_created :: ms
  dl_updated :: ms

definition new_delivery :: "string \<Rightarrow> string \<Rightarrow> string \<Rightarrow> string \<Rightarrow> string \<Rightarrow> ms \<Rightarrow> delivery" where
  "new_delivery i run token event url now =
     \<lparr>dl_id = i, dl_run = run, dl_token = token, dl_event = event, dl_url = url, dl_state = DPending,
      dl_attempt = 0, dl_next = Some now, dl_lease = None, dl_last_status = None, dl_last_error = None,
      dl_response = None, dl_created = now, dl_updated = now\<rparr>"

definition update_where :: "(delivery \<Rightarrow> bool) \<Rightarrow> (delivery \<Rightarrow> delivery) \<Rightarrow> delivery list \<Rightarrow> delivery list" where
  "update_where p f rows = map (\<lambda>r. if p r then f r else r) rows"

definition is_due :: "ms \<Rightarrow> delivery \<Rightarrow> bool" where
  "is_due now r \<longleftrightarrow> dl_state r = DPending \<and> (case dl_next r of None \<Rightarrow> False | Some n \<Rightarrow> n \<le> now)"

definition due_rows :: "delivery list \<Rightarrow> ms \<Rightarrow> int \<Rightarrow> delivery list" where
  "due_rows rows now n =
     take (nat (max 1 (min 500 n)))
       (sort_key (\<lambda>r. ((case dl_next r of None \<Rightarrow> 0 | Some t \<Rightarrow> t), dl_created r, dl_id r))
         (filter (is_due now) rows))"

definition claimable :: "string \<Rightarrow> delivery \<Rightarrow> bool" where
  "claimable i r \<longleftrightarrow> dl_id r = i \<and> dl_state r = DPending"

text \<open>\<open>changes === 1\<close>: the ids are a primary key, so at most one row changes.\<close>

definition claim_row :: "delivery list \<Rightarrow> string \<Rightarrow> string \<Rightarrow> ms \<Rightarrow> delivery list \<times> bool" where
  "claim_row rows i boot now =
     (update_where (claimable i)
        (\<lambda>r. r\<lparr>dl_state := DDelivering, dl_lease := Some boot, dl_updated := now\<rparr>) rows,
      length (filter (claimable i) rows) = 1)"

definition settle_row ::
  "delivery list \<Rightarrow> string \<Rightarrow> delivery_state \<Rightarrow> ms option \<Rightarrow> int option \<Rightarrow> string option \<Rightarrow> ms \<Rightarrow> ms \<Rightarrow>
     delivery list" where
  "settle_row rows i state next status error response now =
     update_where (\<lambda>r. dl_id r = i)
       (\<lambda>r. r\<lparr>dl_state := state, dl_attempt := dl_attempt r + 1, dl_next := next, dl_lease := None,
              dl_last_status := status, dl_last_error := error, dl_response := Some response,
              dl_updated := now\<rparr>) rows"

definition stale_for :: "string \<Rightarrow> delivery \<Rightarrow> bool" where
  "stale_for boot r \<longleftrightarrow> dl_state r = DDelivering \<and> dl_lease r \<noteq> Some boot"

definition requeue_stale :: "delivery list \<Rightarrow> string \<Rightarrow> ms \<Rightarrow> delivery list \<times> nat" where
  "requeue_stale rows boot now =
     (update_where (stale_for boot)
        (\<lambda>r. r\<lparr>dl_state := DPending, dl_lease := None, dl_next := Some now, dl_updated := now\<rparr>) rows,
      length (filter (stale_for boot) rows))"

definition owned :: "string \<Rightarrow> string option \<Rightarrow> delivery \<Rightarrow> bool" where
  "owned i token r \<longleftrightarrow> dl_id r = i \<and> (token = None \<or> token = Some (dl_token r))"

definition redeliver_row :: "delivery list \<Rightarrow> string \<Rightarrow> string option \<Rightarrow> ms \<Rightarrow> omni_code + delivery list" where
  "redeliver_row rows i token now =
     (if length (filter (owned i token) rows) \<noteq> 1 then Inl WorkerNotFound
      else Inr (update_where (owned i token)
        (\<lambda>r. r\<lparr>dl_state := DPending, dl_attempt := 0, dl_next := Some now, dl_lease := None,
               dl_last_status := None, dl_last_error := None, dl_response := None, dl_updated := now\<rparr>) rows))"

definition sweep_rows :: "delivery list \<Rightarrow> ms \<Rightarrow> delivery list" where
  "sweep_rows rows older_than = filter (\<lambda>r. \<not> dl_created r < older_than) rows"

section \<open>The dispatcher\<close>

text \<open>
  A task of \<open>inFlight\<close>: the row as \<open>due\<close> returned it and the attempt's start. A task whose attempt
  settled before its first \<open>await\<close> waits only for the microtask that removes it.
\<close>

record task =
  tk_row :: delivery
  tk_started :: ms
  tk_waiting :: bool

record dispatcher_config =
  dc_webhooks :: webhook_config
  dc_secret :: "string \<Rightarrow> string \<Rightarrow> string option"
  dc_body_bytes :: "delivery \<Rightarrow> int"
  dc_random :: "nat \<Rightarrow> rat"
  dc_host :: net_host

record dispatcher =
  dp_rows :: "delivery list"
  dp_tasks :: "task list"
  dp_boot :: string
  dp_started :: bool
  dp_stopped :: bool
  dp_rolls :: nat
  dp_sent :: "(string \<times> nat) list"

definition new_dispatcher :: "string \<Rightarrow> dispatcher" where
  "new_dispatcher boot = \<lparr>dp_rows = [], dp_tasks = [], dp_boot = boot, dp_started = False,
     dp_stopped = False, dp_rolls = 0, dp_sent = []\<rparr>"

datatype answer = Status int | NetworkError string

text \<open>\<open>statusError\<close>, as whether the status is a success; the sentence is not kept.\<close>

definition status_ok :: "int \<Rightarrow> bool" where
  "status_ok s \<longleftrightarrow> 200 \<le> s \<and> s < 300"

text \<open>\<open>settle\<close>: success, the terminal 410, or the next rung.\<close>

definition settle_attempt ::
  "dispatcher_config \<Rightarrow> dispatcher \<Rightarrow> delivery \<Rightarrow> ms \<Rightarrow> ms \<Rightarrow> int option \<Rightarrow> string option \<Rightarrow> dispatcher" where
  "settle_attempt c d row started now status error =
     (case error of
        None \<Rightarrow>
          d\<lparr>dp_rows := settle_row (dp_rows d) (dl_id row) DDelivered None status None (now - started) now\<rparr>
      | Some e \<Rightarrow>
          (let gone = (status = Some 410);
               rung = int (dl_attempt row) + 1;
               plan = (if gone then None
                       else plan_next_attempt rung now (wc_jitter (dc_webhooks c))
                              (dc_random c (dp_rolls d)) (wc_backoff (dc_webhooks c)))
           in d\<lparr>dp_rows := settle_row (dp_rows d) (dl_id row) (if plan = None then DFailed else DPending)
                    plan status (Some (take 500 e)) (now - started) now,
                dp_rolls := (if plan = None then dp_rolls d else dp_rolls d + 1)\<rparr>))"

definition start_attempt :: "dispatcher_config \<Rightarrow> dispatcher \<Rightarrow> delivery \<Rightarrow> ms \<Rightarrow> dispatcher" where
  "start_attempt c d row now =
     (let settled = (\<lambda>why. (settle_attempt c d row now now None (Some why))
            \<lparr>dp_tasks := dp_tasks d @ [\<lparr>tk_row = row, tk_started = now, tk_waiting = False\<rparr>]\<rparr>)
      in if dc_secret c (dl_token row) (dl_run row) = None
         then settled ''no signing secret is configured for this token''
         else if wc_max_body_bytes (dc_webhooks c) < dc_body_bytes c row
         then settled ''delivery body is too large''
         else d\<lparr>dp_tasks := dp_tasks d @ [\<lparr>tk_row = row, tk_started = now, tk_waiting = True\<rparr>],
                dp_sent := dp_sent d @ [(dl_id row, dl_attempt row + 1)]\<rparr>)"

text \<open>The inner loop over a page of due rows: claim, and start what was won.\<close>

fun claim_page ::
  "dispatcher_config \<Rightarrow> ms \<Rightarrow> dispatcher \<Rightarrow> delivery list \<Rightarrow> nat \<Rightarrow> dispatcher \<times> nat" where
  "claim_page c now d [] claimed = (d, claimed)"
| "claim_page c now d (row # rows) claimed =
     (if wc_max_concurrent (dc_webhooks c) \<le> int (length (dp_tasks d)) then (d, claimed)
      else (case claim_row (dp_rows d) (dl_id row) (dp_boot d) now of
              (rs, False) \<Rightarrow> claim_page c now d rows claimed
            | (rs, True) \<Rightarrow>
                claim_page c now (start_attempt c (d\<lparr>dp_rows := rs\<rparr>) row now) rows (claimed + 1)))"

definition capacity :: "dispatcher_config \<Rightarrow> dispatcher \<Rightarrow> int" where
  "capacity c d = wc_max_concurrent (dc_webhooks c) - int (length (dp_tasks d))"

lemma settle_attempt_tasks [simp]: "dp_tasks (settle_attempt c d row a b s e) = dp_tasks d"
  by (simp add: settle_attempt_def Let_def split: option.split)

lemma start_attempt_tasks: "length (dp_tasks (start_attempt c d row now)) = Suc (length (dp_tasks d))"
  by (simp add: start_attempt_def Let_def)

lemma claim_page_tasks:
  "claim_page c now d rows n = (d', m) \<Longrightarrow>
   length (dp_tasks d') + n = length (dp_tasks d) + m \<and> n \<le> m"
proof (induction rows arbitrary: d n)
  case (Cons row rows)
  obtain rs won where claim: "claim_row (dp_rows d) (dl_id row) (dp_boot d) now = (rs, won)" by fastforce
  from Cons.prems claim Cons.IH [of d n]
    Cons.IH [of "start_attempt c (d\<lparr>dp_rows := rs\<rparr>) row now" "Suc n"]
  show ?case by (cases won) (auto simp: start_attempt_tasks split: if_splits)
qed simp

text \<open>\<open>pump\<close>: page after page, until there is no capacity, nothing due, or a page without a claim.\<close>

function pump_loop :: "dispatcher_config \<Rightarrow> ms \<Rightarrow> dispatcher \<Rightarrow> dispatcher" where
  "pump_loop c now d =
     (if capacity c d \<le> 0 then d
      else (let rows = due_rows (dp_rows d) now (capacity c d) in
            if rows = [] then d
            else (case claim_page c now d rows 0 of
                    (d', claimed) \<Rightarrow> if claimed = 0 then d' else pump_loop c now d')))"
  by pat_completeness auto
termination
proof (relation "measure (\<lambda>(c, now, d). nat (capacity c d))", goal_cases)
  case 1
  show ?case by simp
next
  case (2 c now d x d' claimed)
  then have "claim_page c now d (due_rows (dp_rows d) now (capacity c d)) 0 = (d', claimed)" by simp
  from claim_page_tasks [OF this] 2 show ?case by (simp add: capacity_def)
qed

declare pump_loop.simps [simp del]

definition pump :: "dispatcher_config \<Rightarrow> ms \<Rightarrow> dispatcher \<Rightarrow> dispatcher" where
  "pump c now d = (if dp_stopped d then d else pump_loop c now d)"

text \<open>
  The operations: enqueueing (a pump follows as a microtask, an operation of its own), a pump (that
  microtask, or the poll timer), the answer to the request at a position of the in-flight list, the
  microtask that removes finished tasks, a replay of a delivery, stopping, a new boot with its recovery,
  and retention.
\<close>

datatype delivery_op =
    Dispatch string string string string string ms
  | StartLoop ms
  | Pump ms
  | Answered nat answer ms
  | Reap
  | Redeliver string "string option" ms
  | StopLoop
  | Reboot string ms
  | Sweep ms

definition answer_task :: "dispatcher_config \<Rightarrow> dispatcher \<Rightarrow> nat \<Rightarrow> answer \<Rightarrow> ms \<Rightarrow> dispatcher" where
  "answer_task c d k a now =
     (if k < length (dp_tasks d) \<and> tk_waiting (dp_tasks d ! k) then
        (let t = dp_tasks d ! k;
             d' = (case a of
                 Status s \<Rightarrow> settle_attempt c d (tk_row t) (tk_started t) now (Some s)
                   (if status_ok s then None else Some ''receiver refused'')
               | NetworkError e \<Rightarrow> settle_attempt c d (tk_row t) (tk_started t) now None (Some e))
         in d'\<lparr>dp_tasks := (dp_tasks d')[k := t\<lparr>tk_waiting := False\<rparr>]\<rparr>)
      else d)"

definition redeliver :: "dispatcher_config \<Rightarrow> dispatcher \<Rightarrow> string \<Rightarrow> string option \<Rightarrow> ms \<Rightarrow>
    omni_code + dispatcher" where
  "redeliver c d i token now =
     (case List.find (owned i token) (dp_rows d) of
        None \<Rightarrow> Inl WorkerNotFound
      | Some row \<Rightarrow>
         (case assert_webhook_url (dc_host c) (dc_webhooks c) (dl_url row) of
            Inl code \<Rightarrow> Inl code
          | Inr _ \<Rightarrow>
             (case redeliver_row (dp_rows d) i token now of
                Inl code \<Rightarrow> Inl code
              | Inr rows \<Rightarrow> Inr (pump c now (d\<lparr>dp_rows := rows\<rparr>)))))"

definition reboot :: "dispatcher \<Rightarrow> string \<Rightarrow> ms \<Rightarrow> dispatcher" where
  "reboot d boot now =
     (new_dispatcher boot)\<lparr>dp_rows := fst (requeue_stale (dp_rows d) boot now),
                           dp_rolls := dp_rolls d, dp_sent := dp_sent d\<rparr>"

definition enqueue :: "dispatcher \<Rightarrow> delivery \<Rightarrow> dispatcher" where
  "enqueue d r = (if dl_id r \<in> dl_id ` set (dp_rows d) then d else d\<lparr>dp_rows := dp_rows d @ [r]\<rparr>)"

fun delivery_step :: "dispatcher_config \<Rightarrow> dispatcher \<Rightarrow> delivery_op \<Rightarrow> dispatcher" where
  "delivery_step c d (Dispatch i run token event url now) = enqueue d (new_delivery i run token event url now)"
| "delivery_step c d (StartLoop now) =
     (if dp_stopped d then d else pump c now (d\<lparr>dp_started := True\<rparr>))"
| "delivery_step c d (Pump now) = pump c now d"
| "delivery_step c d (Answered k a now) = answer_task c d k a now"
| "delivery_step c d Reap = d\<lparr>dp_tasks := filter tk_waiting (dp_tasks d)\<rparr>"
| "delivery_step c d (Redeliver i token now) =
     (case redeliver c d i token now of Inl _ \<Rightarrow> d | Inr d' \<Rightarrow> d')"
| "delivery_step c d StopLoop = d\<lparr>dp_stopped := True, dp_started := False\<rparr>"
| "delivery_step c d (Reboot boot now) = reboot d boot now"
| "delivery_step c d (Sweep older_than) = d\<lparr>dp_rows := sweep_rows (dp_rows d) older_than\<rparr>"

end
