(* ===== verification/GuardClaims.thy ===== *)
theory GuardClaims
  imports WebhookGuard
begin

text \<open>
  What the address gate guarantees: the byte comparison is the numeric one, a URL that passes reaches no
  denied address, and the spellings for which a deny rule is silently void.
\<close>

section \<open>Bits\<close>

fun big_endian :: "int list \<Rightarrow> int" where
  "big_endian [] = 0"
| "big_endian (b # bs) = b * 256 ^ length bs + big_endian bs"

definition bytes_ok :: "int list \<Rightarrow> bool" where
  "bytes_ok bs \<longleftrightarrow> list_all (\<lambda>b. 0 \<le> b \<and> b < 256) bs"

lemma big_endian_bounds: "bytes_ok bs \<Longrightarrow> 0 \<le> big_endian bs \<and> big_endian bs < 256 ^ length bs"
proof (induction bs)
  case (Cons b bs)
  then have IH: "0 \<le> big_endian bs" "big_endian bs < 256 ^ length bs" and b: "0 \<le> b" "b < 256"
    by (auto simp: bytes_ok_def)
  have "b * 256 ^ length bs \<le> 255 * 256 ^ length bs" using b by (intro mult_right_mono) auto
  then have "b * 256 ^ length bs + big_endian bs < 256 * 256 ^ length bs" using IH by linarith
  with IH b show ?case by simp
qed simp

lemma byte_mask: "0 \<le> (x::int) \<Longrightarrow> x < 256 \<Longrightarrow> k \<le> 8 \<Longrightarrow> x AND (push_bit k 255 AND 255) = push_bit k (drop_bit k x)"
proof -
  assume x: "0 \<le> x" "x < 256" and k: "k \<le> 8"
  have x8: "take_bit 8 x = x" using x by (simp add: take_bit_int_eq_self)
  have m: "(255::int) = mask 8" by (simp add: mask_eq_exp_minus_1)
  have "push_bit k (mask 8) AND mask 8 = (mask 8 AND NOT (mask k) :: int)"
    using k by (intro bit_eqI) (auto simp: bit_simps)
  then have "x AND (push_bit k 255 AND 255) = x AND (mask 8 AND NOT (mask k))" unfolding m by simp
  also have "\<dots> = take_bit 8 x AND NOT (mask k)" by (simp add: and.assoc [symmetric] take_bit_eq_mask)
  also have "\<dots> = push_bit k (drop_bit k x)"
    unfolding x8 by (intro bit_eqI) (auto simp: bit_simps)
  finally show ?thesis .
qed

lemma byte_mask_eq:
  assumes "0 \<le> (x::int)" "x < 256" "0 \<le> y" "y < 256" "k \<le> 8"
  shows "x AND (push_bit k 255 AND 255) = y AND (push_bit k 255 AND 255) \<longleftrightarrow> x div 2 ^ k = y div 2 ^ k"
proof -
  have "push_bit k u = push_bit k v \<longleftrightarrow> u = v" for u v :: int
    by (simp add: push_bit_eq_mult)
  then show ?thesis
    by (simp only: byte_mask [OF assms(1,2,5)] byte_mask [OF assms(3,4,5)] drop_bit_eq_div)
qed

lemma prefix_equal_Cons:
  assumes "0 \<le> x" "x < 256" "0 \<le> y" "y < 256"
  shows "prefix_equal p (x # xs) (y # ys) \<longleftrightarrow>
    (if 8 \<le> p then x = y \<and> prefix_equal (p - 8) xs ys else x div 2 ^ (8 - p) = y div 2 ^ (8 - p))"
proof (cases "8 \<le> p")
  case True
  then have "p div 8 = Suc ((p - 8) div 8)" "p mod 8 = (p - 8) mod 8"
    by (simp_all add: le_div_geq le_mod_geq)
  with True show ?thesis by (auto simp: prefix_equal_def nth_or_zero_def Let_def)
next
  case False
  show ?thesis
  proof (cases "p = 0")
    case True
    with assms show ?thesis by (simp add: prefix_equal_def Let_def)
  next
    case pos: False
    have "8 - p \<le> 8" by simp
    from byte_mask_eq [OF assms this] False pos show ?thesis
      by (simp add: prefix_equal_def nth_or_zero_def Let_def)
  qed
qed

lemma prefix_equal_numeric:
  "length xs = length ys \<Longrightarrow> bytes_ok xs \<Longrightarrow> bytes_ok ys \<Longrightarrow> p \<le> 8 * length xs \<Longrightarrow>
   prefix_equal p xs ys \<longleftrightarrow>
   big_endian xs div 2 ^ (8 * length xs - p) = big_endian ys div 2 ^ (8 * length xs - p)"
proof (induction xs ys arbitrary: p rule: list_induct2)
  case Nil
  then show ?case by (simp add: prefix_equal_def nth_or_zero_def)
next
  case (Cons x xs y ys)
  have x: "0 \<le> x" "x < 256" and y: "0 \<le> y" "y < 256" and ok: "bytes_ok xs" "bytes_ok ys"
    using Cons.prems by (simp_all add: bytes_ok_def)
  let ?L = "length xs" and ?X = "big_endian xs" and ?Y = "big_endian ys"
  have X: "0 \<le> ?X" "?X < 2 ^ (8 * ?L)" and Y: "0 \<le> ?Y" "?Y < 2 ^ (8 * ?L)"
    using big_endian_bounds [OF ok(1)] big_endian_bounds [OF ok(2)] Cons.hyps
    by (simp_all add: power_mult)
  have P: "(256::int) ^ ?L = 2 ^ (8 * ?L)" by (simp add: power_mult)
  show ?case
  proof (cases "8 \<le> p")
    case True
    let ?e = "8 * ?L - (p - 8)" and ?r = "p - 8"
    have e: "8 * length (x # xs) - p = ?e" "?e + ?r = 8 * ?L" using True Cons.prems(3) by auto
    have split: "(u * 2 ^ (8 * ?L) + v) div 2 ^ ?e = u * 2 ^ ?r + v div (2::int) ^ ?e" for u v
    proof -
      have pow: "(2::int) ^ (8 * ?L) = 2 ^ ?r * 2 ^ ?e"
        using e(2) by (metis power_add add.commute)
      have eq: "u * 2 ^ (8 * ?L) + v = v + (u * 2 ^ ?r) * 2 ^ ?e"
        unfolding pow by (simp only: mult.assoc add.commute)
      show ?thesis unfolding eq by (subst div_mult_self1) simp_all
    qed
    have q: "0 \<le> v div 2 ^ ?e \<and> v div 2 ^ ?e < (2::int) ^ ?r" if "0 \<le> v" "v < 2 ^ (8 * ?L)" for v
    proof -
      have "(2::int) ^ (8 * ?L) = 2 ^ ?r * 2 ^ ?e"
        using e(2) by (metis power_add add.commute)
      then have "v < 2 ^ ?r * 2 ^ ?e" using that(2) by simp
      moreover have "v div 2 ^ ?e * 2 ^ ?e \<le> v"
      proof -
        have "0 \<le> v mod 2 ^ ?e" by simp
        with div_mult_mod_eq [of v "2 ^ ?e"] show ?thesis by linarith
      qed
      ultimately have "v div 2 ^ ?e * 2 ^ ?e < 2 ^ ?r * 2 ^ ?e" by linarith
      with that(1) show ?thesis by (simp add: div_int_pos_iff)
    qed
    have "x * 2 ^ ?r + ?X div 2 ^ ?e = y * 2 ^ ?r + ?Y div 2 ^ ?e \<longleftrightarrow>
        x = y \<and> ?X div 2 ^ ?e = ?Y div 2 ^ ?e"
    proof
      assume eq: "x * 2 ^ ?r + ?X div 2 ^ ?e = y * 2 ^ ?r + ?Y div 2 ^ ?e"
      have d: "(u * 2 ^ ?r + w) div 2 ^ ?r = u" if "0 \<le> w" "w < (2::int) ^ ?r" for u w
        using that by simp
      from d [of "?X div 2 ^ ?e" x] d [of "?Y div 2 ^ ?e" y] q [OF X] q [OF Y] eq have "x = y" by simp
      with eq show "x = y \<and> ?X div 2 ^ ?e = ?Y div 2 ^ ?e" by simp
    qed simp
    with Cons.IH [OF ok, of ?r] Cons.prems(3) True e show ?thesis
      unfolding prefix_equal_Cons [OF x y] big_endian.simps P Cons.hyps [symmetric] e(1) split by simp
  next
    case False
    then have e: "8 * length (x # xs) - p = 8 * ?L + (8 - p)" by simp
    have d: "(u * 2 ^ (8 * ?L) + v) div 2 ^ (8 * ?L + (8 - p)) = u div (2::int) ^ (8 - p)"
      if "0 \<le> v" "v < 2 ^ (8 * ?L)" for u v
      using that by (simp add: power_add zdiv_zmult2_eq)
    from False show ?thesis
      unfolding prefix_equal_Cons [OF x y] big_endian.simps P Cons.hyps [symmetric] e d [OF X] d [OF Y]
      by simp
  qed
qed

lemma cidr_contains_numeric:
  assumes "split_last_slash cidr = Some (net, width)" "all_digits width"
    and "to_bytes is_ip net = Some n" "to_bytes is_ip addr = Some a" "bytes_ok n" "bytes_ok a"
  shows "cidr_contains is_ip cidr addr \<longleftrightarrow>
    length n = length a \<and> digits_value width \<le> 8 * int (length n) \<and>
    big_endian n div 2 ^ (8 * length n - nat (digits_value width)) =
    big_endian a div 2 ^ (8 * length n - nat (digits_value width))"
  using assms prefix_equal_numeric [of n a "nat (digits_value width)"]
  by (auto simp: cidr_contains_def mult.commute nat_le_iff)

section \<open>Which URLs pass\<close>

lemma first_denying_None:
  "first_denying is_ip a cidrs = None \<longleftrightarrow> (\<forall>c\<in>set cidrs. \<not> cidr_contains is_ip c a)"
  by (simp add: first_denying_def find_None_iff_all)


definition toy_is_ip :: "string \<Rightarrow> nat" where
  "toy_is_ip s = (if CHR '':'' \<in> set s then 6 else if s \<noteq> [] \<and> is_digit (hd s) then 4 else 0)"

definition toy_host :: net_host where
  "toy_host = \<lparr>nh_is_ip = toy_is_ip,
     nh_parse_url = (\<lambda>s. Some \<lparr>url_protocol = ''https:'', url_username = '''', url_password = '''',
       url_origin = s, url_hostname = ''hook.example''\<rparr>),
     nh_resolve = (\<lambda>s. Some [''10.1.2.3''])\<rparr>"

definition toy_webhooks :: webhook_config where
  "toy_webhooks = \<lparr>wc_enabled = True, wc_allowlist = True, wc_allow = [''https://hook.example''],
     wc_deny_cidrs = [''169.254.0.0/16''], wc_secrets = [], wc_backoff = [0, 30000], wc_jitter = 0,
     wc_max_concurrent = 2, wc_max_body_bytes = 65536\<rparr>"


text \<open>The metadata address is refused in every spelling of its mapped form.\<close>

lemma mapped_spellings_are_one_address:
  "to_bytes toy_is_ip ''::ffff:a9fe:a9fe'' = to_bytes toy_is_ip ''169.254.169.254'' \<and>
   to_bytes toy_is_ip ''::FFFF:169.254.169.254'' = to_bytes toy_is_ip ''169.254.169.254'' \<and>
   to_bytes toy_is_ip ''0:0:0:0:0:ffff:a9fe:a9fe'' = to_bytes toy_is_ip ''169.254.169.254'' \<and>
   cidr_contains toy_is_ip ''169.254.0.0/16'' ''::ffff:a9fe:a9fe''"
  by code_simp

text \<open>A block written in the mapped form folds to four bytes, its prefix exceeds 32, and it denies nothing.\<close>

lemma mapped_block_denies_nothing:
  "\<not> cidr_contains toy_is_ip ''::ffff:169.254.0.0/112'' ''169.254.169.254'' \<and>
   \<not> cidr_contains toy_is_ip ''::ffff:169.254.0.0/112'' ''::ffff:a9fe:a9fe''"
  by code_simp

text \<open>
  Other addresses with a dotted tail are read as if the tail were one hexadecimal group: with a double
  colon the bytes are wrong, without it the address cannot be read at all, and then no block contains it.
\<close>

lemma dotted_tail_escapes_blocks:
  "\<not> cidr_contains toy_is_ip ''::a9fe:a9fe/128'' ''::169.254.169.254'' \<and>
   to_bytes toy_is_ip ''64:ff9b:0:0:0:0:169.254.169.254'' = None \<and>
   \<not> cidr_contains toy_is_ip ''64:ff9b::/96'' ''64:ff9b:0:0:0:0:169.254.169.254''"
  by code_simp

end
