(* ===== verification/DeliveryClaims.thy ===== *)
theory DeliveryClaims
  imports Deliveries GuardClaims
begin

text \<open>
  What the delivery loop guarantees: the ladder's bounds, one request in flight per delivery, no delivery
  forgotten, and a bounded number of requests for each.
\<close>

section \<open>The ladder\<close>

lemma plan_bounds:
  assumes "plan_next_attempt k now jitter roll ladder = Some t" "list_all (\<lambda>b. 0 \<le> b) ladder"
  shows "k < int (length ladder) \<and>
    now + ladder ! nat (max 0 k) \<le> t \<and>
    of_int t \<le> of_int (now + ladder ! nat (max 0 k)) + max 0 (min 1 jitter) * of_int (ladder ! nat (max 0 k))"
proof -
  let ?i = "nat (max 0 k)" and ?j = "max 0 (min 1 jitter)" and ?r = "min 1 (max 0 roll)"
  have i: "?i < length ladder" and t: "t = now + ladder ! ?i + \<lfloor>?r * (?j * of_int (ladder ! ?i))\<rfloor>"
    using assms(1) by (auto simp: plan_next_attempt_def Let_def split: if_splits)
  have base: "0 \<le> ladder ! ?i" using assms(2) i by (simp add: list_all_length)
  have j: "0 \<le> ?j * of_int (ladder ! ?i)" using base by simp
  have r: "0 \<le> ?r" "?r \<le> 1" by auto
  have up: "?r * (?j * of_int (ladder ! ?i)) \<le> ?j * of_int (ladder ! ?i)"
    using mult_right_mono [OF r(2) j] by simp
  have lo: "0 \<le> ?r * (?j * of_int (ladder ! ?i))" using r(1) j by simp
  have "of_int \<lfloor>?r * (?j * of_int (ladder ! ?i))\<rfloor> \<le> ?j * of_int (ladder ! ?i)"
    using up by linarith
  with i lo show ?thesis unfolding t by (auto simp: nat_less_iff)
qed

section \<open>The invariant\<close>

abbreviation ladder_of :: "dispatcher_config \<Rightarrow> ms list" where
  "ladder_of c \<equiv> wc_backoff (dc_webhooks c)"

definition row_ok :: "dispatcher_config \<Rightarrow> delivery \<Rightarrow> bool" where
  "row_ok c r \<longleftrightarrow>
     dl_attempt r \<le> length (ladder_of c) \<and>
     (case dl_state r of
        DPending \<Rightarrow> dl_attempt r < length (ladder_of c) \<and> dl_next r \<noteq> None
      | DDelivering \<Rightarrow> dl_attempt r < length (ladder_of c)
      | _ \<Rightarrow> dl_next r = None)"

definition waiting :: "dispatcher \<Rightarrow> task list" where
  "waiting d = filter tk_waiting (dp_tasks d)"

definition task_ok :: "dispatcher \<Rightarrow> task \<Rightarrow> bool" where
  "task_ok d t \<longleftrightarrow> (\<forall>r\<in>set (dp_rows d). dl_id r = dl_id (tk_row t) \<longrightarrow>
     dl_state r = DDelivering \<and> dl_attempt r = dl_attempt (tk_row t))"

definition in_flight :: "dispatcher \<Rightarrow> string \<Rightarrow> bool" where
  "in_flight d i \<longleftrightarrow> (\<exists>t\<in>set (waiting d). dl_id (tk_row t) = i)"

text \<open>The invariant, with a set of claimed rows whose attempt is just being started.\<close>

definition loop_inv :: "dispatcher_config \<Rightarrow> string set \<Rightarrow> dispatcher \<Rightarrow> bool" where
  "loop_inv c X d \<longleftrightarrow>
     distinct (map dl_id (dp_rows d)) \<and> (\<forall>r\<in>set (dp_rows d). row_ok c r) \<and>
     (\<forall>t\<in>set (waiting d). task_ok d t) \<and> distinct (map (\<lambda>t. dl_id (tk_row t)) (waiting d)) \<and>
     (\<forall>r\<in>set (dp_rows d). dl_state r = DDelivering \<longrightarrow> dl_id r \<in> X \<or> in_flight d (dl_id r)) \<and>
     int (length (waiting d)) \<le> max 0 (wc_max_concurrent (dc_webhooks c))"

lemma update_where_ids [simp]:
  "(\<And>r. dl_id (f r) = dl_id r) \<Longrightarrow> map dl_id (update_where p f rows) = map dl_id rows"
  by (induction rows) (auto simp: update_where_def)

lemma in_update_where:
  "r \<in> set (update_where p f rows) \<longleftrightarrow> (\<exists>q\<in>set rows. r = (if p q then f q else q))"
  by (auto simp: update_where_def)

lemma same_id_same_row:
  "distinct (map dl_id rows) \<Longrightarrow> r \<in> set rows \<Longrightarrow> q \<in> set rows \<Longrightarrow> dl_id r = dl_id q \<Longrightarrow> r = q"
  by (metis distinct_map inj_on_def)

lemma settle_row_ids [simp]: "map dl_id (settle_row rows i s n a e x y) = map dl_id rows"
  by (simp add: settle_row_def)

text \<open>The three ways an attempt settles its row.\<close>

lemma settle_attempt_shape:
  "\<exists>st nx sta er resp. dp_rows (settle_attempt c d row started now status err) =
       settle_row (dp_rows d) (dl_id row) st nx sta er resp now \<and>
     (st = DDelivered \<and> nx = None \<or> st = DFailed \<and> nx = None \<or>
      st = DPending \<and> nx \<noteq> None \<and>
        (\<exists>x y. plan_next_attempt (int (dl_attempt row) + 1) now x y (ladder_of c) = nx))"
proof (cases err)
  case None
  then have "dp_rows (settle_attempt c d row started now status err) =
      settle_row (dp_rows d) (dl_id row) DDelivered None status None (now - started) now"
    by (simp add: settle_attempt_def)
  then show ?thesis by blast
next
  case (Some e)
  let ?plan = "if status = Some 410 then None
    else plan_next_attempt (int (dl_attempt row) + 1) now (wc_jitter (dc_webhooks c))
      (dc_random c (dp_rolls d)) (ladder_of c)"
  have "dp_rows (settle_attempt c d row started now status err) =
      settle_row (dp_rows d) (dl_id row) (if ?plan = None then DFailed else DPending) ?plan status
        (Some (take 500 e)) (now - started) now"
    by (simp add: settle_attempt_def Some Let_def)
  then show ?thesis by (cases "?plan = None") (fastforce split: if_splits)+
qed

lemma settle_attempt_row:
  assumes "r \<in> set (dp_rows (settle_attempt c d row started now status err))"
    and "\<forall>q\<in>set (dp_rows d). row_ok c q \<and>
      (dl_id q = dl_id row \<longrightarrow> dl_state q = DDelivering \<and> dl_attempt q = dl_attempt row)"
  shows "(r \<in> set (dp_rows d) \<and> dl_id r \<noteq> dl_id row) \<or>
    (dl_id r = dl_id row \<and> dl_state r \<noteq> DDelivering \<and> row_ok c r \<and>
     (\<exists>q\<in>set (dp_rows d). dl_id q = dl_id row \<and> dl_attempt r = Suc (dl_attempt q)))"
proof -
  obtain st nx sta er resp where shape: "dp_rows (settle_attempt c d row started now status err) =
       settle_row (dp_rows d) (dl_id row) st nx sta er resp now"
    and st: "st = DDelivered \<and> nx = None \<or> st = DFailed \<and> nx = None \<or>
      st = DPending \<and> nx \<noteq> None \<and>
        (\<exists>x y. plan_next_attempt (int (dl_attempt row) + 1) now x y (ladder_of c) = nx)"
    using settle_attempt_shape [of c d row started now status err] by blast
  obtain q where q: "q \<in> set (dp_rows d)"
    and r: "r = (if dl_id q = dl_id row then q\<lparr>dl_state := st, dl_attempt := dl_attempt q + 1, dl_next := nx,
        dl_lease := None, dl_last_status := sta, dl_last_error := er, dl_response := Some resp,
        dl_updated := now\<rparr> else q)"
    using assms(1) unfolding shape settle_row_def in_update_where by blast
  show ?thesis
  proof (cases "dl_id q = dl_id row")
    case True
    with assms(2) q have a: "dl_attempt q = dl_attempt row" "dl_state q = DDelivering" "row_ok c q" by auto
    from st have "row_ok c r \<and> dl_state r \<noteq> DDelivering"
      using True a r by (auto simp: row_ok_def plan_next_attempt_def Let_def split: if_splits)
    with True r q show ?thesis by auto
  qed (use q r in simp)
qed

lemma settle_attempt_ids [simp]:
  "map dl_id (dp_rows (settle_attempt c d row a b s e)) = map dl_id (dp_rows d)"
  by (simp add: settle_attempt_def Let_def split: option.split)

lemma settle_attempt_keeps [simp]:
  "waiting (settle_attempt c d row a b s e) = waiting d"
  "dp_boot (settle_attempt c d row a b s e) = dp_boot d"
  "dp_sent (settle_attempt c d row a b s e) = dp_sent d"
  "dp_stopped (settle_attempt c d row a b s e) = dp_stopped d"
  by (simp_all add: waiting_def settle_attempt_def Let_def split: option.split)

text \<open>A settled row leaves the exempt set; a task for it must be gone or going.\<close>

lemma settle_inv:
  assumes inv: "loop_inv c X d"
    and row: "\<forall>q\<in>set (dp_rows d). dl_id q = dl_id row \<longrightarrow> dl_state q = DDelivering \<and> dl_attempt q = dl_attempt row"
    and gone: "waiting e = filter (\<lambda>t. dl_id (tk_row t) \<noteq> dl_id row) (waiting d)"
    and rows: "dp_rows e = dp_rows (settle_attempt c d row started now status err)"
  shows "loop_inv c (X - {dl_id row}) e"
proof -
  have all: "\<forall>q\<in>set (dp_rows d). row_ok c q \<and>
      (dl_id q = dl_id row \<longrightarrow> dl_state q = DDelivering \<and> dl_attempt q = dl_attempt row)"
    using inv row by (auto simp: loop_inv_def)
  have cases: "(r \<in> set (dp_rows d) \<and> dl_id r \<noteq> dl_id row) \<or>
      (dl_id r = dl_id row \<and> dl_state r \<noteq> DDelivering \<and> row_ok c r)" if "r \<in> set (dp_rows e)" for r
    using settle_attempt_row [OF _ all, of r started now status err] that rows by auto
  have "task_ok e t" if "t \<in> set (waiting e)" for t
  proof -
    from that gone have t: "t \<in> set (waiting d)" "dl_id (tk_row t) \<noteq> dl_id row" by auto
    with inv have "task_ok d t" by (simp add: loop_inv_def)
    with t(2) cases show ?thesis unfolding task_ok_def by metis
  qed
  moreover have "row_ok c r" if "r \<in> set (dp_rows e)" for r
    using cases [OF that] inv by (auto simp: loop_inv_def)
  moreover have "dl_id r \<in> X - {dl_id row} \<or> in_flight e (dl_id r)"
    if r: "r \<in> set (dp_rows e)" "dl_state r = DDelivering" for r
  proof -
    from cases [OF r(1)] r(2) have "r \<in> set (dp_rows d)" "dl_id r \<noteq> dl_id row" by auto
    with inv r(2) have "dl_id r \<in> X \<or> in_flight d (dl_id r)" by (auto simp: loop_inv_def)
    with \<open>dl_id r \<noteq> dl_id row\<close> show ?thesis by (auto simp: in_flight_def gone)
  qed
  moreover have "length (waiting e) \<le> length (waiting d)" by (simp add: gone)
  with inv have "int (length (waiting e)) \<le> max 0 (wc_max_concurrent (dc_webhooks c))"
    by (auto simp: loop_inv_def)
  ultimately show ?thesis
    using inv unfolding loop_inv_def rows settle_attempt_ids gone by (simp add: distinct_map_filter)
qed

section \<open>Claiming and starting\<close>

lemma distinct_ids_Cons:
  "distinct (map dl_id (r # rows)) \<Longrightarrow> q \<in> set rows \<Longrightarrow> dl_id q \<noteq> dl_id r"
  by (metis distinct.simps(2) imageI list.simps(9) set_map)

lemma claimable_row:
  assumes "distinct (map dl_id rows)" "row \<in> set rows" "dl_state row = DPending"
  shows "filter (claimable (dl_id row)) rows = [row]"
  using assms
proof (induction rows)
  case (Cons r rows)
  show ?case
  proof (cases "r = row")
    case True
    with Cons.prems(1) distinct_ids_Cons have "\<forall>q\<in>set rows. dl_id q \<noteq> dl_id row" by blast
    then have "filter (claimable (dl_id row)) rows = []" by (simp add: filter_empty_conv claimable_def)
    moreover have "claimable (dl_id row) row" using Cons.prems(3) by (simp add: claimable_def)
    ultimately show ?thesis using True by simp
  next
    case False
    then have "\<not> claimable (dl_id row) r"
      using Cons.prems(1,2) distinct_ids_Cons [of r rows row] by (auto simp: claimable_def)
    with False Cons show ?thesis by simp
  qed
qed simp

definition claimed_rows :: "delivery list \<Rightarrow> string \<Rightarrow> string \<Rightarrow> ms \<Rightarrow> delivery list" where
  "claimed_rows rows i boot now = fst (claim_row rows i boot now)"

lemma claim_wins:
  assumes "distinct (map dl_id rows)" "row \<in> set rows" "dl_state row = DPending"
  shows "claim_row rows (dl_id row) boot now = (claimed_rows rows (dl_id row) boot now, True)"
  by (simp add: claim_row_def claimed_rows_def claimable_row [OF assms])

lemma claimed_rows_ids [simp]: "map dl_id (claimed_rows rows i boot now) = map dl_id rows"
  by (simp add: claimed_rows_def claim_row_def)

lemma claimed_rows_cases:
  assumes "distinct (map dl_id rows)" "row \<in> set rows" "dl_state row = DPending"
    "r \<in> set (claimed_rows rows (dl_id row) boot now)"
  shows "(r \<in> set rows \<and> dl_id r \<noteq> dl_id row) \<or>
    r = row\<lparr>dl_state := DDelivering, dl_lease := Some boot, dl_updated := now\<rparr>"
proof -
  obtain q where q: "q \<in> set rows" "r = (if claimable (dl_id row) q
      then q\<lparr>dl_state := DDelivering, dl_lease := Some boot, dl_updated := now\<rparr> else q)"
    using assms(4) unfolding claimed_rows_def claim_row_def fst_conv in_update_where by blast
  show ?thesis
  proof (cases "dl_id q = dl_id row")
    case True
    then have "q = row" using same_id_same_row [OF assms(1) q(1) assms(2)] by simp
    with q(2) assms(3) show ?thesis by (simp add: claimable_def)
  qed (use q in \<open>simp add: claimable_def\<close>)
qed

lemma pending_not_in_flight:
  assumes "loop_inv c X d" "row \<in> set (dp_rows d)" "dl_state row = DPending" "t \<in> set (waiting d)"
  shows "dl_id (tk_row t) \<noteq> dl_id row"
  using assms unfolding loop_inv_def task_ok_def by (metis delivery_state.distinct(1))

lemma claim_inv:
  assumes inv: "loop_inv c X d" and row: "row \<in> set (dp_rows d)" "dl_state row = DPending"
  shows "loop_inv c (insert (dl_id row) X) (d\<lparr>dp_rows := claimed_rows (dp_rows d) (dl_id row) boot now\<rparr>)"
    (is "loop_inv c ?X ?d")
proof -
  have dist: "distinct (map dl_id (dp_rows d))" using inv by (simp add: loop_inv_def)
  note cases = claimed_rows_cases [OF dist row, of _ boot now]
  have w: "waiting ?d = waiting d" by (simp add: waiting_def)
  have "row_ok c r" if "r \<in> set (dp_rows ?d)" for r
    using cases [of r] that inv row by (auto simp: loop_inv_def row_ok_def)
  moreover have "task_ok ?d t" if t: "t \<in> set (waiting ?d)" for t
  proof -
    have t': "t \<in> set (waiting d)" using t w by simp
    then have "dl_id (tk_row t) \<noteq> dl_id row" using pending_not_in_flight [OF inv row] by simp
    moreover have "task_ok d t" using inv t' by (simp add: loop_inv_def)
    ultimately show ?thesis unfolding task_ok_def using cases by fastforce
  qed
  moreover have "dl_id r \<in> ?X \<or> in_flight ?d (dl_id r)"
    if "r \<in> set (dp_rows ?d)" "dl_state r = DDelivering" for r
    using cases [of r] that inv by (auto simp: loop_inv_def in_flight_def w)
  ultimately show ?thesis using inv by (simp add: loop_inv_def w)
qed

text \<open>Starting the attempt of a row just claimed.\<close>

lemma start_inv:
  assumes inv: "loop_inv c (insert (dl_id row) X) d" and X: "dl_id row \<notin> X"
    and row: "\<forall>q\<in>set (dp_rows d). dl_id q = dl_id row \<longrightarrow> dl_state q = DDelivering \<and> dl_attempt q = dl_attempt row"
    and idle: "\<not> in_flight d (dl_id row)"
    and room: "int (length (dp_tasks d)) < wc_max_concurrent (dc_webhooks c)"
  shows "loop_inv c X (start_attempt c d row now)"
proof -
  have none: "filter (\<lambda>t. dl_id (tk_row t) \<noteq> dl_id row) (waiting d) = waiting d"
    using idle by (auto simp: in_flight_def filter_id_conv)
  have settled: "loop_inv c X ((settle_attempt c d row now now None (Some why))
      \<lparr>dp_tasks := dp_tasks d @ [\<lparr>tk_row = row, tk_started = now, tk_waiting = False\<rparr>]\<rparr>)" (is "loop_inv c X ?e") for why
  proof -
    have "loop_inv c (insert (dl_id row) X - {dl_id row}) ?e"
      by (rule settle_inv [OF inv row]) (simp_all add: none, simp add: waiting_def)
    with X show ?thesis by simp
  qed
  let ?s = "d\<lparr>dp_tasks := dp_tasks d @ [\<lparr>tk_row = row, tk_started = now, tk_waiting = True\<rparr>],
                dp_sent := dp_sent d @ [(dl_id row, Suc (dl_attempt row))]\<rparr>"
  have w: "waiting ?s = waiting d @ [\<lparr>tk_row = row, tk_started = now, tk_waiting = True\<rparr>]"
    by (simp add: waiting_def)
  have "length (waiting d) \<le> length (dp_tasks d)" by (simp add: waiting_def)
  then have "int (length (waiting ?s)) \<le> max 0 (wc_max_concurrent (dc_webhooks c))" using room w by simp
  moreover have "\<forall>t\<in>set (waiting ?s). task_ok ?s t"
    using inv row by (auto simp: w loop_inv_def task_ok_def)
  moreover have "distinct (map (\<lambda>t. dl_id (tk_row t)) (waiting ?s))"
    using inv idle by (auto simp: w loop_inv_def in_flight_def)
  moreover have "\<forall>r\<in>set (dp_rows ?s). dl_state r = DDelivering \<longrightarrow> dl_id r \<in> X \<or> in_flight ?s (dl_id r)"
    using inv by (auto simp: loop_inv_def in_flight_def w)
  ultimately have sent: "loop_inv c X ?s" using inv by (simp add: loop_inv_def)
  show ?thesis unfolding start_attempt_def Let_def using settled sent by simp
qed

lemma start_attempt_others:
  assumes "q \<in> set (dp_rows d)" "dl_id q \<noteq> dl_id row"
  shows "q \<in> set (dp_rows (start_attempt c d row now))"
proof -
  have "q \<in> set (settle_row (dp_rows d) (dl_id row) st nx sta er resp now)" for st nx sta er resp
    using assms unfolding settle_row_def in_update_where by auto
  then have "q \<in> set (dp_rows (settle_attempt c d row now now None (Some why)))" for why
    using settle_attempt_shape [of c d row now now None "Some why"] by force
  with assms(1) show ?thesis by (simp add: start_attempt_def Let_def)
qed

lemma claim_page_inv:
  "loop_inv c {} d \<Longrightarrow> \<forall>r\<in>set page. r \<in> set (dp_rows d) \<and> dl_state r = DPending \<Longrightarrow>
   distinct (map dl_id page) \<Longrightarrow> loop_inv c {} (fst (claim_page c now d page n))"
proof (induction page arbitrary: d n)
  case (Cons row page)
  have row: "row \<in> set (dp_rows d)" "dl_state row = DPending" using Cons.prems(2) by auto
  have dist: "distinct (map dl_id (dp_rows d))" using Cons.prems(1) by (simp add: loop_inv_def)
  let ?d = "d\<lparr>dp_rows := claimed_rows (dp_rows d) (dl_id row) (dp_boot d) now\<rparr>"
  show ?case
  proof (cases "wc_max_concurrent (dc_webhooks c) \<le> int (length (dp_tasks d))")
    case True
    with Cons.prems(1) show ?thesis by simp
  next
    case False
    have next_inv: "loop_inv c {} (start_attempt c ?d row now)"
    proof (rule start_inv)
      show "loop_inv c (insert (dl_id row) {}) ?d" by (rule claim_inv [OF Cons.prems(1) row])
      show "\<forall>q\<in>set (dp_rows ?d). dl_id q = dl_id row \<longrightarrow> dl_state q = DDelivering \<and> dl_attempt q = dl_attempt row"
        using claimed_rows_cases [OF dist row, of _ "dp_boot d" now] by fastforce
      show "\<not> in_flight ?d (dl_id row)"
        using pending_not_in_flight [OF Cons.prems(1) row] by (auto simp: in_flight_def waiting_def)
    qed (use False in simp_all)
    have "r \<in> set (dp_rows (start_attempt c ?d row now)) \<and> dl_state r = DPending" if "r \<in> set page" for r
    proof -
      have r: "r \<in> set (dp_rows d)" "dl_state r = DPending" "dl_id r \<noteq> dl_id row"
        using that Cons.prems(2) distinct_ids_Cons [OF Cons.prems(3)] by auto
      have "r \<in> set (dp_rows ?d)"
        using r by (auto simp: claimed_rows_def claim_row_def in_update_where claimable_def)
      with r show ?thesis by (simp add: start_attempt_others)
    qed
    with Cons.IH [OF next_inv] Cons.prems(3) False claim_wins [OF dist row, of "dp_boot d" now]
    show ?thesis by simp
  qed
qed simp

section \<open>Pumping\<close>

lemma due_page:
  assumes "distinct (map dl_id rows)"
  shows "\<forall>r\<in>set (due_rows rows now n). r \<in> set rows \<and> dl_state r = DPending"
    and "distinct (map dl_id (due_rows rows now n))"
proof -
  let ?key = "\<lambda>r. ((case dl_next r of None \<Rightarrow> 0 | Some t \<Rightarrow> t), dl_created r, dl_id r)"
  let ?due = "sort_key ?key (filter (is_due now) rows)"
  show "\<forall>r\<in>set (due_rows rows now n). r \<in> set rows \<and> dl_state r = DPending"
    unfolding due_rows_def using set_take_subset [of _ ?due] by (auto simp: is_due_def)
  have "distinct (map dl_id (filter (is_due now) rows))" using assms by (rule distinct_map_filter)
  then have "distinct (map dl_id ?due)" by (simp add: distinct_map)
  then show "distinct (map dl_id (due_rows rows now n))"
    unfolding due_rows_def by (simp add: take_map [symmetric])
qed

lemma pump_loop_inv: "loop_inv c {} d \<Longrightarrow> loop_inv c {} (pump_loop c now d)"
proof (induction c now d rule: pump_loop.induct)
  case (1 c now d)
  show ?case
  proof (cases "capacity c d \<le> 0 \<or> due_rows (dp_rows d) now (capacity c d) = []")
    case True
    with "1.prems" show ?thesis by (subst pump_loop.simps) (auto simp: Let_def)
  next
    case False
    obtain d' m where page: "claim_page c now d (due_rows (dp_rows d) now (capacity c d)) 0 = (d', m)"
      by fastforce
    have dist: "distinct (map dl_id (dp_rows d))" using "1.prems" by (simp add: loop_inv_def)
    note due = due_page [OF dist, where now = now and n = "capacity c d"]
    from claim_page_inv [OF "1.prems" due, of now 0] page
    have d': "loop_inv c {} d'" by simp
    show ?thesis
    proof (cases "m = 0")
      case True
      with False page d' show ?thesis by (subst pump_loop.simps) (simp add: Let_def)
    next
      case False': False
      have "loop_inv c {} (pump_loop c now d')"
        using "1.IH" [OF _ refl _ page [symmetric]] False False' d' by auto
      with False False' page show ?thesis by (subst pump_loop.simps) (simp add: Let_def)
    qed
  qed
qed

lemma pump_inv: "loop_inv c {} d \<Longrightarrow> loop_inv c {} (pump c now d)"
  by (simp add: pump_def pump_loop_inv)

section \<open>Operations\<close>

text \<open>
  A calm operation: a delivery is dispatched under a fresh id, and only a delivery that is not on the wire
  is replayed; a boot has an id of its own.
\<close>

definition calm :: "dispatcher \<Rightarrow> delivery_op \<Rightarrow> bool" where
  "calm d op =
     (case op of
        Dispatch i _ _ _ _ _ \<Rightarrow> i \<notin> dl_id ` set (dp_rows d) \<and> \<not> in_flight d i \<and> i \<notin> fst ` set (dp_sent d)
      | Redeliver i _ _ \<Rightarrow> \<not> in_flight d i
      | Reboot boot _ \<Rightarrow> Some boot \<notin> dl_lease ` set (dp_rows d)
      | _ \<Rightarrow> True)"

lemma answer_inv:
  assumes inv: "loop_inv c {} d"
  shows "loop_inv c {} (answer_task c d k a now)"
proof (cases "k < length (dp_tasks d) \<and> tk_waiting (dp_tasks d ! k)")
  case True
  let ?t = "dp_tasks d ! k"
  have t: "?t \<in> set (waiting d)" using True by (simp add: waiting_def)
  let ?row = "tk_row ?t"
  have row: "\<forall>q\<in>set (dp_rows d). dl_id q = dl_id ?row \<longrightarrow> dl_state q = DDelivering \<and> dl_attempt q = dl_attempt ?row"
    using inv t by (auto simp: loop_inv_def task_ok_def)
  let ?ts = "(dp_tasks d)[k := ?t\<lparr>tk_waiting := False\<rparr>]"
  have split: "dp_tasks d = take k (dp_tasks d) @ ?t # drop (Suc k) (dp_tasks d)"
    using True by (simp add: id_take_nth_drop)
  have upd: "?ts = take k (dp_tasks d) @ (?t\<lparr>tk_waiting := False\<rparr>) # drop (Suc k) (dp_tasks d)"
    using True by (simp add: upd_conv_take_nth_drop)
  have dist: "distinct (map (\<lambda>t. dl_id (tk_row t)) (waiting d))" using inv by (simp add: loop_inv_def)
  have w: "waiting d = filter tk_waiting (take k (dp_tasks d)) @ ?t # filter tk_waiting (drop (Suc k) (dp_tasks d))"
    using True unfolding waiting_def by (subst split) simp
  have others: "\<forall>t\<in>set (filter tk_waiting (take k (dp_tasks d)) @ filter tk_waiting (drop (Suc k) (dp_tasks d))).
      dl_id (tk_row t) \<noteq> dl_id ?row"
    using dist unfolding w by (auto simp: image_iff)
  then have keep: "filter (\<lambda>t. dl_id (tk_row t) \<noteq> dl_id ?row) (waiting d) =
      filter tk_waiting (take k (dp_tasks d)) @ filter tk_waiting (drop (Suc k) (dp_tasks d))"
    unfolding w by (simp add: filter_True del: filter_filter)
  have gone: "filter tk_waiting ?ts = filter (\<lambda>t. dl_id (tk_row t) \<noteq> dl_id ?row) (waiting d)"
    unfolding keep by (subst upd) simp
  have "loop_inv c ({} - {dl_id ?row}) ((settle_attempt c d ?row st now s e)\<lparr>dp_tasks := ?ts\<rparr>)" for st s e
    by (rule settle_inv [OF inv row]) (simp_all add: gone waiting_def)
  then show ?thesis using True by (simp add: answer_task_def Let_def split: answer.split)
next
  case False
  with inv show ?thesis by (auto simp: answer_task_def)
qed

lemma waiting_simps [simp]:
  "waiting (d\<lparr>dp_rows := rs\<rparr>) = waiting d" "waiting (d\<lparr>dp_started := b\<rparr>) = waiting d"
  "waiting (d\<lparr>dp_stopped := b\<rparr>) = waiting d"
  "waiting (d\<lparr>dp_tasks := filter tk_waiting (dp_tasks d)\<rparr>) = waiting d"
  by (simp_all add: waiting_def)

lemma in_flight_simps [simp]:
  "in_flight (d\<lparr>dp_rows := rs\<rparr>) i = in_flight d i" "in_flight (d\<lparr>dp_started := b\<rparr>) i = in_flight d i"
  "in_flight (d\<lparr>dp_stopped := b\<rparr>) i = in_flight d i"
  "in_flight (d\<lparr>dp_tasks := filter tk_waiting (dp_tasks d)\<rparr>) i = in_flight d i"
  by (simp_all add: in_flight_def)

lemma redeliver_row_inv:
  assumes inv: "loop_inv c {} d" and calm: "\<not> in_flight d i" and L: "ladder_of c \<noteq> []"
    and ok: "redeliver_row (dp_rows d) i token now = Inr rows"
  shows "loop_inv c {} (d\<lparr>dp_rows := rows\<rparr>)"
proof -
  let ?f = "\<lambda>r. r\<lparr>dl_state := DPending, dl_attempt := 0, dl_next := Some now, dl_lease := None,
    dl_last_status := None, dl_last_error := None, dl_response := None, dl_updated := now\<rparr>"
  have rows: "rows = update_where (owned i token) ?f (dp_rows d)"
    using ok by (simp add: redeliver_row_def split: if_splits)
  have "task_ok (d\<lparr>dp_rows := rows\<rparr>) t" if t: "t \<in> set (waiting d)" for t
  proof -
    have "dl_id (tk_row t) \<noteq> i" "task_ok d t"
      using t calm inv by (auto simp: in_flight_def loop_inv_def)
    then show ?thesis by (auto simp: task_ok_def rows in_update_where owned_def split: if_splits)
  qed
  with inv L show ?thesis
    by (auto simp: loop_inv_def rows in_update_where row_ok_def owned_def split: if_splits)
qed

lemma delivery_step_inv:
  assumes inv: "loop_inv c {} d" and calm: "calm d op" and L: "ladder_of c \<noteq> []"
  shows "loop_inv c {} (delivery_step c d op)"
proof (cases op)
  case (Dispatch i run token event url now)
  have "task_ok (enqueue d (new_delivery i run token event url now)) t" if "t \<in> set (waiting d)" for t
    using inv calm that Dispatch
    by (auto simp: enqueue_def task_ok_def loop_inv_def calm_def in_flight_def new_delivery_def)
  with inv calm L Dispatch show ?thesis
    by (auto simp: loop_inv_def enqueue_def row_ok_def calm_def new_delivery_def)
next
  case (StartLoop now)
  have "loop_inv c {} (d\<lparr>dp_started := True\<rparr>)" using inv by (auto simp: loop_inv_def task_ok_def)
  with StartLoop inv show ?thesis by (simp add: pump_inv)
next
  case (Redeliver i token now)
  with inv calm L show ?thesis
    by (auto simp: redeliver_def calm_def pump_inv redeliver_row_inv split: option.split sum.splits)
next
  case (Reboot boot now)
  have stale: "r \<in> set (dp_rows d) \<Longrightarrow> dl_state r = DDelivering \<Longrightarrow> stale_for boot r" for r
    using calm Reboot by (simp add: calm_def stale_for_def) (metis imageI)
  have "row_ok c r \<and> dl_state r \<noteq> DDelivering" if r: "r \<in> set (fst (requeue_stale (dp_rows d) boot now))" for r
  proof -
    obtain q where q: "q \<in> set (dp_rows d)" "row_ok c q"
      "r = (if stale_for boot q then q\<lparr>dl_state := DPending, dl_lease := None, dl_next := Some now,
        dl_updated := now\<rparr> else q)"
      using r inv by (auto simp: requeue_stale_def in_update_where loop_inv_def)
    show ?thesis
    proof (cases "stale_for boot q")
      case True
      then have "dl_state q = DDelivering" by (simp add: stale_for_def)
      with q True show ?thesis by (simp add: row_ok_def)
    next
      case False
      with stale [of q] q show ?thesis by auto
    qed
  qed
  moreover have "distinct (map dl_id (fst (requeue_stale (dp_rows d) boot now)))"
    using inv by (simp add: requeue_stale_def loop_inv_def)
  ultimately show ?thesis using Reboot by (simp add: reboot_def loop_inv_def new_dispatcher_def waiting_def)
next
  case (Sweep x)
  have "distinct (map dl_id (filter (\<lambda>r. \<not> dl_created r < x) (dp_rows d)))"
    using inv by (simp add: loop_inv_def distinct_map_filter)
  with inv Sweep show ?thesis by (auto simp: loop_inv_def sweep_rows_def task_ok_def)
next
  case (Pump now)
  with inv show ?thesis by (simp add: pump_inv)
next
  case (Answered k a now)
  with inv show ?thesis by (simp add: answer_inv)
qed (use inv in \<open>auto simp: loop_inv_def task_ok_def\<close>)

section \<open>Runs\<close>

fun calm_run :: "dispatcher_config \<Rightarrow> dispatcher \<Rightarrow> delivery_op list \<Rightarrow> bool" where
  "calm_run c d [] = True"
| "calm_run c d (op # ops) = (calm d op \<and> calm_run c (delivery_step c d op) ops)"

lemma calm_run_inv:
  "loop_inv c {} d \<Longrightarrow> calm_run c d ops \<Longrightarrow> ladder_of c \<noteq> [] \<Longrightarrow>
   loop_inv c {} (foldl (delivery_step c) d ops)"
  by (induction ops arbitrary: d) (auto intro: delivery_step_inv)

lemma new_dispatcher_inv: "loop_inv c {} (new_dispatcher boot)"
  by (simp add: loop_inv_def new_dispatcher_def waiting_def)

text \<open>
  C24: No delivery is lost and none is on the wire twice. Over any sequence of dispatches, pumps, answers,
  replays of deliveries that are not on the wire, stops, new boots and sweeps: the requests in flight are
  for different deliveries and at most \<open>maxConcurrent\<close>; a row never exceeds the ladder's attempts; a pending
  row has the instant of its next attempt, a delivering row has its request in flight in this very boot,
  and a delivered or failed row has neither.
\<close>

theorem deliveries_neither_lost_nor_doubled:
  fixes c boot ops
  defines "d \<equiv> foldl (delivery_step c) (new_dispatcher boot) ops"
  assumes ladder: "wc_backoff (dc_webhooks c) \<noteq> []" and calm: "calm_run c (new_dispatcher boot) ops"
  shows "distinct (map (\<lambda>t. dl_id (tk_row t)) (waiting d)) \<and>
    int (length (waiting d)) \<le> max 0 (wc_max_concurrent (dc_webhooks c)) \<and>
    (\<forall>r\<in>set (dp_rows d). dl_attempt r \<le> length (wc_backoff (dc_webhooks c)) \<and>
      (case dl_state r of
         DPending \<Rightarrow> dl_next r \<noteq> None \<and> \<not> in_flight d (dl_id r)
       | DDelivering \<Rightarrow> in_flight d (dl_id r)
       | _ \<Rightarrow> dl_next r = None \<and> \<not> in_flight d (dl_id r)))"
proof -
  have inv: "loop_inv c {} d" unfolding d_def by (rule calm_run_inv [OF new_dispatcher_inv calm ladder])
  have idle: "\<not> in_flight d (dl_id r)" if "r \<in> set (dp_rows d)" "dl_state r \<noteq> DDelivering" for r
    using inv that by (auto simp: loop_inv_def in_flight_def task_ok_def)
  have "dl_attempt r \<le> length (wc_backoff (dc_webhooks c)) \<and>
      (case dl_state r of
         DPending \<Rightarrow> dl_next r \<noteq> None \<and> \<not> in_flight d (dl_id r)
       | DDelivering \<Rightarrow> in_flight d (dl_id r)
       | _ \<Rightarrow> dl_next r = None \<and> \<not> in_flight d (dl_id r))" if r: "r \<in> set (dp_rows d)" for r
  proof -
    have "row_ok c r" "dl_state r = DDelivering \<longrightarrow> in_flight d (dl_id r)"
      using inv r by (auto simp: loop_inv_def)
    with idle [OF r] show ?thesis by (cases "dl_state r") (auto simp: row_ok_def)
  qed
  with inv show ?thesis by (simp add: loop_inv_def)
qed

definition toy_dispatch :: dispatcher_config where
  "toy_dispatch = \<lparr>dc_webhooks = toy_webhooks, dc_secret = (\<lambda>t r. Some ''k''), dc_body_bytes = (\<lambda>r. 300),
     dc_random = (\<lambda>n. 0), dc_host = toy_host\<rparr>"

definition two_attempts :: "delivery_op list" where
  "two_attempts = [Dispatch ''d1'' ''r1'' ''t1'' ''run.completed'' ''https://hook.example'' 0, Pump 0,
     Answered 0 (Status 503) 10, Reap, Pump 40000]"

theorem deliveries_neither_lost_nor_doubled_witness:
  "distinct (map (\<lambda>t. dl_id (tk_row t))
     (waiting (foldl (delivery_step toy_dispatch) (new_dispatcher ''b1'') two_attempts)))"
proof -
  have facts: "wc_backoff (dc_webhooks toy_dispatch) \<noteq> []"
    "calm_run toy_dispatch (new_dispatcher ''b1'') two_attempts"
    by code_simp+
  from deliveries_neither_lost_nor_doubled [OF facts] show ?thesis by blast
qed

section \<open>A pump leaves nothing due\<close>

lemma claim_page_progress:
  assumes inv: "loop_inv c {} d" and page: "row # rest = page" "row \<in> set (dp_rows d)" "dl_state row = DPending"
    and room: "0 < capacity c d"
  shows "0 < snd (claim_page c now d page 0)"
proof -
  have dist: "distinct (map dl_id (dp_rows d))" using inv by (simp add: loop_inv_def)
  obtain d' m where rest: "claim_page c now
      (start_attempt c (d\<lparr>dp_rows := claimed_rows (dp_rows d) (dl_id row) (dp_boot d) now\<rparr>) row now) rest 1 = (d', m)"
    by fastforce
  with claim_page_tasks [OF rest] claim_wins [OF dist page(2,3), of "dp_boot d" now] room page(1)
  show ?thesis by (auto simp: capacity_def)
qed

lemma pump_loop_drains:
  "loop_inv c {} d \<Longrightarrow> capacity c (pump_loop c now d) \<le> 0 \<or>
     due_rows (dp_rows (pump_loop c now d)) now (capacity c (pump_loop c now d)) = []"
proof (induction c now d rule: pump_loop.induct)
  case (1 c now d)
  let ?rows = "due_rows (dp_rows d) now (capacity c d)"
  show ?case
  proof (cases "capacity c d \<le> 0 \<or> ?rows = []")
    case True
    then have "pump_loop c now d = d" by (subst pump_loop.simps) (auto simp: Let_def)
    with True show ?thesis by simp
  next
    case False
    obtain d' m where page: "claim_page c now d ?rows 0 = (d', m)" by fastforce
    have dist: "distinct (map dl_id (dp_rows d))" using "1.prems" by (simp add: loop_inv_def)
    note due = due_page [OF dist, where now = now and n = "capacity c d"]
    from claim_page_inv [OF "1.prems" due, of now 0] page have d': "loop_inv c {} d'" by simp
    from False obtain row rest where rows: "row # rest = ?rows" by (cases ?rows) auto
    with due have "row \<in> set (dp_rows d)" "dl_state row = DPending" by (metis list.set_intros(1))+
    from claim_page_progress [OF "1.prems" rows this, where now = now] False page have m: "m \<noteq> 0" by simp
    have step: "pump_loop c now d = pump_loop c now d'"
      using False m page by (subst pump_loop.simps) (simp add: Let_def)
    show ?thesis
      using "1.IH" [OF _ refl _ page [symmetric]] False m d' unfolding step by auto
  qed
qed

text \<open>
  A pump leaves nothing undone: after it, every slot is taken or no pending delivery is due, whatever
  settled while it ran.
\<close>

theorem pump_leaves_nothing_due:
  fixes c boot ops now
  defines "d \<equiv> pump c now (foldl (delivery_step c) (new_dispatcher boot) ops)"
  assumes "wc_backoff (dc_webhooks c) \<noteq> []" "calm_run c (new_dispatcher boot) ops"
    and "\<not> dp_stopped (foldl (delivery_step c) (new_dispatcher boot) ops)"
  shows "wc_max_concurrent (dc_webhooks c) \<le> int (length (dp_tasks d)) \<or>
    (\<forall>r\<in>set (dp_rows d). \<not> is_due now r)"
proof -
  have "loop_inv c {} (foldl (delivery_step c) (new_dispatcher boot) ops)"
    by (rule calm_run_inv [OF new_dispatcher_inv assms(3,2)])
  from pump_loop_drains [OF this, of now] assms(4)
  have "capacity c d \<le> 0 \<or> due_rows (dp_rows d) now (capacity c d) = []"
    by (simp add: d_def pump_def)
  moreover have "\<forall>r\<in>set rows. \<not> is_due now r" if "due_rows rows now n = []" for rows n
  proof -
    have pos: "m = 0 \<or> Q \<Longrightarrow> 0 < m \<Longrightarrow> Q" for m :: nat and Q by simp
    have "sort_key (\<lambda>r. ((case dl_next r of None \<Rightarrow> 0 | Some t \<Rightarrow> t), dl_created r, dl_id r))
        (filter (is_due now) rows) = []"
      by (rule pos [OF that [unfolded due_rows_def take_eq_Nil]]) simp
    from arg_cong [OF this, of set] have "set (filter (is_due now) rows) = {}"
      by (simp only: set_sort list.set)
    then show ?thesis by auto
  qed
  ultimately show ?thesis by (auto simp: capacity_def)
qed

theorem pump_leaves_nothing_due_witness:
  "list_all (\<lambda>r. \<not> is_due 40000 r) (dp_rows (pump toy_dispatch 40000
     (foldl (delivery_step toy_dispatch) (new_dispatcher ''b1'') two_attempts)))"
proof -
  let ?d = "pump toy_dispatch 40000 (foldl (delivery_step toy_dispatch) (new_dispatcher ''b1'') two_attempts)"
  have facts: "wc_backoff (dc_webhooks toy_dispatch) \<noteq> []"
    "calm_run toy_dispatch (new_dispatcher ''b1'') two_attempts"
    "\<not> dp_stopped (foldl (delivery_step toy_dispatch) (new_dispatcher ''b1'') two_attempts)"
    by code_simp+
  have "wc_max_concurrent (dc_webhooks toy_dispatch) = 2" "length (dp_tasks ?d) = 1" by code_simp+
  with pump_leaves_nothing_due [OF facts, of 40000] show ?thesis by (auto simp: list_all_iff)
qed

section \<open>A replay of a delivery on the wire\<close>

text \<open>
  Replaying a delivery whose request is still in flight makes its row pending again: the next pump sends it
  a second time while the first request is open.
\<close>

definition replay_in_flight :: "delivery_op list" where
  "replay_in_flight = [Dispatch ''d1'' ''r1'' ''t1'' ''run.completed'' ''https://hook.example'' 0, Pump 0,
     Redeliver ''d1'' None 5]"

lemma replay_doubles_request:
  "map (\<lambda>t. dl_id (tk_row t))
     (waiting (foldl (delivery_step toy_dispatch) (new_dispatcher ''b1'') replay_in_flight)) = [''d1'', ''d1'']"
  by code_simp

end
