(* ===== verification/Runs.thy ===== *)
theory Runs
  imports WebhookGuard TurnFold "HOL-Library.List_Lexorder" "HOL-Library.Char_ord" "HOL-Library.Product_Lexorder"
begin

text \<open>
  The run registry: \<open>core/src/run/registry.ts\<close> over the rows of \<open>core/src/persist/run-store.ts\<close>, with the
  boot recovery of \<open>core/src/run/recovery.ts\<close>. The code between two \<open>await\<close>s is one operation; what an
  \<open>await\<close> waits for (the worker, the accepted prompt, the end of the turn, a cancelled worker) arrives as
  a later operation, and a continuation keeps the variables the code captured before it. A sequence number
  the worker's event log assigns is an argument of the operation that appends.
\<close>

section \<open>Rows\<close>

datatype run_state = RQueued | RStarting | RRunning | RRequiresAction | RSucceeded | RFailed | RCancelled | RAbandoned

definition terminal_run :: "run_state \<Rightarrow> bool" where
  "terminal_run s \<longleftrightarrow> s = RSucceeded \<or> s = RFailed \<or> s = RCancelled \<or> s = RAbandoned"

datatype webhook_event = RunCompleted | RunFailed | RunRequiresAction | WorkerRequiresAction | WorkerClosedEvent

record webhook_target =
  wt_url :: string
  wt_events :: "webhook_event list option"
  wt_secret :: "string option"

record run_row =
  rn_id :: string
  rn_state :: run_state
  rn_agent :: string
  rn_cwd :: string
  rn_worker :: "string option"
  rn_turn :: "string option"
  rn_created :: ms
  rn_updated :: ms
  rn_result :: "turn_result option"
  rn_error :: "error_body option"
  rn_deliveries :: nat
  rn_token :: string
  rn_boot :: string
  rn_key :: "string option"
  rn_target :: "webhook_target option"
  rn_seq :: "seq option"

text \<open>The statements of the run table: the upsert, the two lookups, the live rows of other boots.\<close>

fun put_row :: "run_row list \<Rightarrow> run_row \<Rightarrow> run_row list" where
  "put_row [] r = [r]"
| "put_row (q # qs) r = (if rn_id q = rn_id r then r # qs else q # put_row qs r)"

definition get_row :: "run_row list \<Rightarrow> string \<Rightarrow> run_row option" where
  "get_row rows i = List.find (\<lambda>r. rn_id r = i) rows"

definition by_key :: "run_row list \<Rightarrow> string \<Rightarrow> string \<Rightarrow> run_row option" where
  "by_key rows token key = List.find (\<lambda>r. rn_token r = token \<and> rn_key r = Some key) rows"

definition live_elsewhere :: "string \<Rightarrow> run_row \<Rightarrow> bool" where
  "live_elsewhere boot r \<longleftrightarrow> rn_boot r \<noteq> boot \<and> \<not> terminal_run (rn_state r)"

definition live_from_other_boots :: "run_row list \<Rightarrow> string \<Rightarrow> run_row list" where
  "live_from_other_boots rows boot =
     sort_key (\<lambda>r. (rn_created r, rn_id r)) (filter (live_elsewhere boot) rows)"

text \<open>Retention: only finished rows have a \<open>finished_at_ms\<close>, their last update.\<close>

definition sweep_runs :: "run_row list \<Rightarrow> ms \<Rightarrow> run_row list" where
  "sweep_runs rows older_than =
     filter (\<lambda>r. \<not> (terminal_run (rn_state r) \<and> rn_updated r < older_than)) rows"

text \<open>The memory driver's retention (\<open>daemon/src/runs.ts\<close>) looks at the result and the error instead.\<close>

definition sweep_runs_memory :: "run_row list \<Rightarrow> ms \<Rightarrow> run_row list" where
  "sweep_runs_memory rows older_than =
     filter (\<lambda>r. (rn_result r = None \<and> rn_error r = None) \<or> \<not> rn_updated r < older_than) rows"

section \<open>Requests and configuration\<close>

record auth =
  au_admin :: bool
  au_token :: string

record run_request =
  rq_agent :: string
  rq_cwd :: string
  rq_key :: "string option"
  rq_keep_worker :: bool
  rq_target :: "webhook_target option"

record run_config =
  rc_max_concurrent :: int
  rc_max_duration :: ms
  rc_webhooks :: webhook_config
  rc_dispatcher :: bool
  rc_token_secrets :: "(string \<times> string) list"
  rc_host :: net_host

definition visible :: "auth \<Rightarrow> run_row \<Rightarrow> bool" where
  "visible a r \<longleftrightarrow> au_admin a \<or> rn_token r = au_token a"

definition row_of :: "run_row list \<Rightarrow> string \<Rightarrow> auth \<Rightarrow> omni_code + run_row" where
  "row_of rows i a =
     (case get_row rows i of None \<Rightarrow> Inl WorkerNotFound
      | Some r \<Rightarrow> if visible a r then Inr r else Inl WorkerNotFound)"

definition default_events :: "webhook_event list" where
  "default_events = [RunCompleted, RunFailed, RunRequiresAction]"

definition subscribed :: "run_config \<Rightarrow> webhook_target option \<Rightarrow> webhook_event \<Rightarrow> bool" where
  "subscribed c target e \<longleftrightarrow>
     (case target of None \<Rightarrow> False
      | Some t \<Rightarrow> rc_dispatcher c \<and> e \<in> set (option_or default_events (wt_events t)))"

text \<open>\<open>checkWebhook\<close>: the refusals, in order.\<close>

definition check_webhook :: "run_config \<Rightarrow> webhook_target option \<Rightarrow> string \<Rightarrow> omni_code option" where
  "check_webhook c target token =
     (case target of None \<Rightarrow> None
      | Some t \<Rightarrow>
          if \<not> wc_enabled (rc_webhooks c) \<or> \<not> rc_dispatcher c then Some Forbidden
          else (case assert_webhook_url (rc_host c) (rc_webhooks c) (wt_url t) of
                  Inl code \<Rightarrow> Some code
                | Inr _ \<Rightarrow>
                    (case wt_secret t of
                       Some name \<Rightarrow> if map_of (wc_secrets (rc_webhooks c)) name = None then Some BadRequest else None
                     | None \<Rightarrow> if map_of (rc_token_secrets c) token = None then Some BadRequest else None)))"

section \<open>The registry\<close>

text \<open>An envelope \<open>omni.run\<close> on a worker's log, and a delivery handed to the dispatcher.\<close>

record run_event =
  re_worker :: string
  re_run :: string
  re_state :: run_state
  re_previous :: run_state
  re_reason :: string
  re_error :: "error_body option"

record dispatch =
  di_event :: webhook_event
  di_run :: string
  di_worker :: string
  di_seq :: seq
  di_token :: string
  di_url :: string

text \<open>
  Where a run's background half stands: the worker is being created (with the row captured before), the
  prompt is on its way, or the turn is being collected. The worker's state changes are watched in the last
  two.
\<close>

datatype driver = Creating run_row bool | Prompting string bool | Collecting string string bool

record registry =
  rg_rows :: "run_row list"
  rg_live :: "string list"
  rg_deadlines :: "(string \<times> string) list"
  rg_drivers :: "string \<rightharpoonup> driver"
  rg_cancelling :: "run_row list"
  rg_events :: "run_event list"
  rg_dispatched :: "dispatch list"
  rg_boot :: string

definition new_registry :: "string \<Rightarrow> registry" where
  "new_registry boot = \<lparr>rg_rows = [], rg_live = [], rg_deadlines = [], rg_drivers = Map.empty,
     rg_cancelling = [], rg_events = [], rg_dispatched = [], rg_boot = boot\<rparr>"

text \<open>\<open>fire\<close>: the thin payload needs the worker and the position of an envelope.\<close>

definition fire :: "run_config \<Rightarrow> run_row \<Rightarrow> webhook_target \<Rightarrow> webhook_event \<Rightarrow> dispatch list" where
  "fire c r t e =
     (case (rn_worker r, rn_seq r) of
        (Some w, Some s) \<Rightarrow>
          if rc_dispatcher c
          then [\<lparr>di_event = e, di_run = rn_id r, di_worker = w, di_seq = s, di_token = rn_token r,
                 di_url = wt_url t\<rparr>]
          else []
      | _ \<Rightarrow> [])"

definition commit :: "run_config \<Rightarrow> registry \<Rightarrow> run_row \<Rightarrow> webhook_event list \<Rightarrow> registry" where
  "commit c g r events =
     (case rn_target r of
        None \<Rightarrow> g\<lparr>rg_rows := put_row (rg_rows g) r\<rparr>
      | Some t \<Rightarrow>
          (let wanted = filter (subscribed c (Some t)) events;
               counted = r\<lparr>rn_deliveries := rn_deliveries r + length wanted\<rparr>
           in g\<lparr>rg_rows := put_row (rg_rows g) counted,
                rg_dispatched := rg_dispatched g @ List.maps (fire c counted t) wanted\<rparr>))"

text \<open>What \<open>transition\<close> is told beside the row and the next state.\<close>

record change =
  ch_log :: "(string \<times> seq) option"
  ch_worker :: "string option"
  ch_turn :: "string option"
  ch_error :: "error_body option option"
  ch_result :: "turn_result option"
  ch_events :: "webhook_event list"

definition no_change :: change where
  "no_change = \<lparr>ch_log = None, ch_worker = None, ch_turn = None, ch_error = None, ch_result = None,
     ch_events = []\<rparr>"

definition transition ::
  "run_config \<Rightarrow> registry \<Rightarrow> run_row \<Rightarrow> run_state \<Rightarrow> string \<Rightarrow> change \<Rightarrow> ms \<Rightarrow> registry" where
  "transition c g row next reason x now =
     (let appended = (case ch_log x of None \<Rightarrow> []
            | Some (w, s) \<Rightarrow> [\<lparr>re_worker = w, re_run = rn_id row, re_state = next,
                re_previous = rn_state row, re_reason = reason, re_error = Option.bind (ch_error x) (\<lambda>e. e)\<rparr>]);
          updated = row\<lparr>rn_seq := (case ch_log x of None \<Rightarrow> rn_seq row | Some (w, s) \<Rightarrow> Some s),
                        rn_updated := now, rn_state := next,
                        rn_worker := or_else (ch_worker x) (rn_worker row),
                        rn_turn := or_else (ch_turn x) (rn_turn row),
                        rn_error := option_or (rn_error row) (ch_error x),
                        rn_result := or_else (ch_result x) (rn_result row)\<rparr>;
          g' = commit c (g\<lparr>rg_events := rg_events g @ appended\<rparr>) updated (ch_events x)
      in if terminal_run next
         then g'\<lparr>rg_live := set_delete (rn_id row) (rg_live g'),
                 rg_deadlines := filter (\<lambda>(i, w). i \<noteq> rn_id row) (rg_deadlines g')\<rparr>
         else g')"

section \<open>Creating\<close>

definition seed_row :: "registry \<Rightarrow> string \<Rightarrow> run_request \<Rightarrow> string \<Rightarrow> ms \<Rightarrow> run_row" where
  "seed_row g i req token now =
     \<lparr>rn_id = i, rn_state = RQueued, rn_agent = rq_agent req, rn_cwd = rq_cwd req, rn_worker = None,
      rn_turn = None, rn_created = now, rn_updated = now, rn_result = None, rn_error = None,
      rn_deliveries = 0, rn_token = token, rn_boot = rg_boot g, rn_key = rq_key req,
      rn_target = rq_target req, rn_seq = None\<rparr>"

definition find_original :: "registry \<Rightarrow> run_request \<Rightarrow> string \<Rightarrow> run_row option" where
  "find_original g req token =
     (case rq_key req of None \<Rightarrow> None | Some k \<Rightarrow> by_key (rg_rows g) token k)"

text \<open>
  \<open>create\<close> up to its second \<open>await\<close>: the answer is a refusal, the original run, or nothing yet, in which
  case the row is written and the worker is being created.
\<close>

definition create_run ::
  "run_config \<Rightarrow> registry \<Rightarrow> string \<Rightarrow> run_request \<Rightarrow> auth \<Rightarrow> ms \<Rightarrow> registry \<times> (omni_code + run_row) option" where
  "create_run c g i req a now =
     (case check_webhook c (rq_target req) (au_token a) of
        Some code \<Rightarrow> (g, Some (Inl code))
      | None \<Rightarrow>
         (case find_original g req (au_token a) of
            Some r \<Rightarrow> (g, Some (Inr r))
          | None \<Rightarrow>
              if rc_max_concurrent c \<le> int (length (rg_live g)) then (g, Some (Inl WorkerLimit))
              else (let seeded = seed_row g i req (au_token a) now in
                    (g\<lparr>rg_rows := put_row (rg_rows g) seeded, rg_live := set_add i (rg_live g),
                       rg_drivers := (rg_drivers g)(i \<mapsto> Creating seeded (rq_keep_worker req))\<rparr>, None))))"

text \<open>The continuations of the captured row: the worker exists, or it could not be created.\<close>

definition worker_created :: "run_config \<Rightarrow> registry \<Rightarrow> string \<Rightarrow> string \<Rightarrow> seq \<Rightarrow> ms \<Rightarrow> registry" where
  "worker_created c g i w s now =
     (case rg_drivers g i of
        Some (Creating seeded keep) \<Rightarrow>
          (let g1 = transition c g seeded RStarting ''worker created''
                      (no_change\<lparr>ch_worker := Some w, ch_log := Some (w, s)\<rparr>) now
           in g1\<lparr>rg_deadlines := (if rc_max_duration c \<le> 0 then rg_deadlines g1
                                  else filter (\<lambda>(j, _). j \<noteq> i) (rg_deadlines g1) @ [(i, w)]),
                 rg_drivers := (rg_drivers g1)(i \<mapsto> Prompting w keep)\<rparr>)
      | _ \<Rightarrow> g)"

definition worker_failed :: "run_config \<Rightarrow> registry \<Rightarrow> string \<Rightarrow> error_body \<Rightarrow> ms \<Rightarrow> registry" where
  "worker_failed c g i err now =
     (case rg_drivers g i of
        Some (Creating seeded keep) \<Rightarrow>
          (transition c g seeded RFailed (''the run'' @ [CHR 0x27] @ ''s worker could not be created'')
             (no_change\<lparr>ch_error := Some (Some err)\<rparr>) now)\<lparr>rg_drivers := (rg_drivers g)(i := None)\<rparr>
      | _ \<Rightarrow> g)"

section \<open>Driving\<close>

text \<open>The \<open>finally\<close>: stop watching and close the worker unless it is kept.\<close>

definition finish_driver :: "run_config \<Rightarrow> registry \<Rightarrow> string \<Rightarrow> bool \<Rightarrow> registry" where
  "finish_driver c g i keep =
     (let g1 = g\<lparr>rg_drivers := (rg_drivers g)(i := None)\<rparr> in
      if keep then g1
      else (case get_row (rg_rows g1) i of None \<Rightarrow> g1 | Some r \<Rightarrow> commit c g1 r [WorkerClosedEvent]))"

definition fail_run :: "run_config \<Rightarrow> registry \<Rightarrow> string \<Rightarrow> string \<Rightarrow> seq \<Rightarrow> error_body \<Rightarrow> ms \<Rightarrow> registry" where
  "fail_run c g i w s err now =
     (case get_row (rg_rows g) i of
        None \<Rightarrow> g
      | Some r \<Rightarrow>
          if terminal_run (rn_state r) then g
          else transition c g r RFailed (''the run'' @ [CHR 0x27] @ ''s turn could not be completed'')
                 (no_change\<lparr>ch_log := Some (w, s), ch_error := Some (Some err), ch_events := [RunFailed]\<rparr>) now)"

definition prompt_accepted :: "run_config \<Rightarrow> registry \<Rightarrow> string \<Rightarrow> string \<Rightarrow> seq \<Rightarrow> ms \<Rightarrow> registry" where
  "prompt_accepted c g i turn s now =
     (case rg_drivers g i of
        Some (Prompting w keep) \<Rightarrow>
          (case get_row (rg_rows g) i of
             None \<Rightarrow> finish_driver c g i keep
           | Some r \<Rightarrow>
               (let g1 = transition c g r RRunning ''prompt accepted''
                           (no_change\<lparr>ch_log := Some (w, s), ch_turn := Some turn\<rparr>) now
                in g1\<lparr>rg_drivers := (rg_drivers g1)(i \<mapsto> Collecting w turn keep)\<rparr>))
      | _ \<Rightarrow> g)"

definition driver_failed :: "run_config \<Rightarrow> registry \<Rightarrow> string \<Rightarrow> seq \<Rightarrow> error_body \<Rightarrow> ms \<Rightarrow> registry" where
  "driver_failed c g i s err now =
     (case rg_drivers g i of
        Some (Prompting w keep) \<Rightarrow> finish_driver c (fail_run c g i w s err now) i keep
      | Some (Collecting w _ keep) \<Rightarrow> finish_driver c (fail_run c g i w s err now) i keep
      | _ \<Rightarrow> g)"

fun verdict_text :: "turn_verdict \<Rightarrow> string" where
  "verdict_text VOk = ''ok''"
| "verdict_text VPartial = ''partial''"
| "verdict_text VFailed = ''failed''"

definition wire_body :: "wire_error \<Rightarrow> error_body" where
  "wire_body e = \<lparr>err_code = fst e, err_message = fst (snd e), err_acp = snd (snd e), err_stderr_tail = None\<rparr>"

text \<open>The collected envelopes are folded; a \<open>TypeError\<close> of the fold is caught like any failure.\<close>

definition turn_ended ::
  "run_config \<Rightarrow> registry \<Rightarrow> string \<Rightarrow> envelope list \<Rightarrow> seq \<Rightarrow> error_body \<Rightarrow> ms \<Rightarrow> registry" where
  "turn_ended c g i envelopes s fold_error now =
     (case rg_drivers g i of
        Some (Collecting w turn keep) \<Rightarrow>
          (case reduce_turn turn envelopes of
             None \<Rightarrow> finish_driver c (fail_run c g i w s fold_error now) i keep
           | Some result \<Rightarrow>
               (case get_row (rg_rows g) i of
                  None \<Rightarrow> finish_driver c g i keep
                | Some r \<Rightarrow>
                    if terminal_run (rn_state r) then finish_driver c g i keep
                    else (let bad = (tr_verdict result = VFailed) in
                      finish_driver c
                        (transition c g r (if bad then RFailed else RSucceeded)
                           (''turn '' @ verdict_text (tr_verdict result))
                           (no_change\<lparr>ch_log := Some (w, s), ch_result := Some result,
                              ch_error := Some (map_option wire_body (tr_error result)),
                              ch_events := [if bad then RunFailed else RunCompleted]\<rparr>) now) i keep)))
      | _ \<Rightarrow> g)"

definition watched_worker :: "registry \<Rightarrow> string \<Rightarrow> string option" where
  "watched_worker g i =
     (case rg_drivers g i of Some (Prompting w _) \<Rightarrow> Some w | Some (Collecting w _ _) \<Rightarrow> Some w | _ \<Rightarrow> None)"

definition state_changed :: "run_config \<Rightarrow> registry \<Rightarrow> string \<Rightarrow> worker_state \<Rightarrow> seq \<Rightarrow> ms \<Rightarrow> registry" where
  "state_changed c g i ws s now =
     (case (watched_worker g i, get_row (rg_rows g) i) of
        (Some w, Some r) \<Rightarrow>
          if terminal_run (rn_state r) then g
          else if ws = RequiresAction \<and> rn_state r \<noteq> RRequiresAction then
            transition c g r RRequiresAction ''interaction_parked''
              (no_change\<lparr>ch_log := Some (w, s), ch_events := [RunRequiresAction, WorkerRequiresAction]\<rparr>) now
          else if ws = Running \<and> rn_state r = RRequiresAction then
            transition c g r RRunning ''interaction_resolved'' (no_change\<lparr>ch_log := Some (w, s)\<rparr>) now
          else g
      | _ \<Rightarrow> g)"

definition timeout_body :: error_body where
  "timeout_body = \<lparr>err_code = AgentTimeout, err_message = ''the run exceeded run.maxDurationMs'',
     err_acp = None, err_stderr_tail = None\<rparr>"

definition deadline_fired :: "run_config \<Rightarrow> registry \<Rightarrow> string \<Rightarrow> seq \<Rightarrow> ms \<Rightarrow> registry" where
  "deadline_fired c g i s now =
     (case map_of (rg_deadlines g) i of
        None \<Rightarrow> g
      | Some w \<Rightarrow>
          (let g1 = g\<lparr>rg_deadlines := filter (\<lambda>(j, _). j \<noteq> i) (rg_deadlines g)\<rparr> in
           case get_row (rg_rows g1) i of
             None \<Rightarrow> g1
           | Some r \<Rightarrow>
               if terminal_run (rn_state r) then g1
               else transition c g1 r RFailed ''run.maxDurationMs elapsed''
                      (no_change\<lparr>ch_log := Some (w, s), ch_error := Some (Some timeout_body),
                         ch_events := [RunFailed]\<rparr>) now))"

section \<open>Cancelling\<close>

text \<open>The second half of \<open>cancel\<close>; the log may already be gone.\<close>

definition cancel_row :: "run_config \<Rightarrow> registry \<Rightarrow> run_row \<Rightarrow> seq option \<Rightarrow> ms \<Rightarrow> registry" where
  "cancel_row c g captured s now =
     (let current = option_or captured (get_row (rg_rows g) (rn_id captured)) in
      if terminal_run (rn_state current) then g
      else transition c g current RCancelled ''cancelled by a client''
             (no_change\<lparr>ch_log := (case (rn_worker captured, s) of (Some w, Some n) \<Rightarrow> Some (w, n) | _ \<Rightarrow> None),
                        ch_events := [RunFailed]\<rparr>) now)"

text \<open>The first half: without a worker there is nothing to wait for.\<close>

definition cancel_run :: "run_config \<Rightarrow> registry \<Rightarrow> string \<Rightarrow> auth \<Rightarrow> ms \<Rightarrow> registry \<times> (omni_code + run_row) option" where
  "cancel_run c g i a now =
     (case row_of (rg_rows g) i a of
        Inl code \<Rightarrow> (g, Some (Inl code))
      | Inr r \<Rightarrow>
          if terminal_run (rn_state r) then (g, Some (Inr r))
          else if rn_worker r = None then
            (let g' = cancel_row c g r None now
             in (g', map_option Inr (get_row (rg_rows g') i)))
          else (g\<lparr>rg_cancelling := rg_cancelling g @ [r]\<rparr>, None))"

definition cancel_continues :: "run_config \<Rightarrow> registry \<Rightarrow> nat \<Rightarrow> seq option \<Rightarrow> ms \<Rightarrow> registry" where
  "cancel_continues c g k s now =
     (if k < length (rg_cancelling g)
      then (cancel_row c g (rg_cancelling g ! k) s now)
             \<lparr>rg_cancelling := take k (rg_cancelling g) @ drop (Suc k) (rg_cancelling g)\<rparr>
      else g)"

section \<open>Boot recovery\<close>

definition abandoned_body :: error_body where
  "abandoned_body = \<lparr>err_code = Internal,
     err_message = ''the boot that owned this run is gone; its worker died with it'',
     err_acp = None, err_stderr_tail = None\<rparr>"

definition abandon :: "string \<Rightarrow> ms \<Rightarrow> run_row \<Rightarrow> run_row" where
  "abandon boot now r = r\<lparr>rn_boot := boot, rn_updated := now, rn_state := RAbandoned,
     rn_error := Some abandoned_body\<rparr>"

definition enqueue_abandoned :: "run_config \<Rightarrow> run_row \<Rightarrow> dispatch list" where
  "enqueue_abandoned c r =
     (case rn_target r of None \<Rightarrow> []
      | Some t \<Rightarrow> if subscribed c (Some t) RunFailed then fire c r t RunFailed else [])"

definition recover_one :: "run_config \<Rightarrow> ms \<Rightarrow> registry \<Rightarrow> run_row \<Rightarrow> registry" where
  "recover_one c now g r =
     (let next = abandon (rg_boot g) now r in
      g\<lparr>rg_rows := put_row (rg_rows g) next,
        rg_dispatched := rg_dispatched g @ enqueue_abandoned c next\<rparr>)"

definition recover_runs :: "run_config \<Rightarrow> registry \<Rightarrow> ms \<Rightarrow> registry \<times> nat" where
  "recover_runs c g now =
     (let stale = live_from_other_boots (rg_rows g) (rg_boot g)
      in (foldl (recover_one c now) g stale, length stale))"

text \<open>A new process: the rows survive, everything in memory is gone.\<close>

definition reboot_registry :: "registry \<Rightarrow> string \<Rightarrow> registry" where
  "reboot_registry g boot =
     (new_registry boot)\<lparr>rg_rows := rg_rows g, rg_events := rg_events g, rg_dispatched := rg_dispatched g\<rparr>"

section \<open>Operations\<close>

datatype run_op =
    CreateRun string run_request auth ms
  | WorkerCreated string string seq ms
  | WorkerFailed string error_body ms
  | PromptAccepted string string seq ms
  | DriverFailed string seq error_body ms
  | TurnEnded string "envelope list" seq error_body ms
  | StateChanged string worker_state seq ms
  | DeadlineFired string seq ms
  | CancelRun string auth ms
  | CancelContinues nat "seq option" ms
  | RebootRuns string ms
  | SweepRuns ms

fun run_step :: "run_config \<Rightarrow> registry \<Rightarrow> run_op \<Rightarrow> registry" where
  "run_step c g (CreateRun i req a now) = fst (create_run c g i req a now)"
| "run_step c g (WorkerCreated i w s now) = worker_created c g i w s now"
| "run_step c g (WorkerFailed i err now) = worker_failed c g i err now"
| "run_step c g (PromptAccepted i turn s now) = prompt_accepted c g i turn s now"
| "run_step c g (DriverFailed i s err now) = driver_failed c g i s err now"
| "run_step c g (TurnEnded i es s err now) = turn_ended c g i es s err now"
| "run_step c g (StateChanged i ws s now) = state_changed c g i ws s now"
| "run_step c g (DeadlineFired i s now) = deadline_fired c g i s now"
| "run_step c g (CancelRun i a now) = fst (cancel_run c g i a now)"
| "run_step c g (CancelContinues k s now) = cancel_continues c g k s now"
| "run_step c g (RebootRuns boot now) = fst (recover_runs c (reboot_registry g boot) now)"
| "run_step c g (SweepRuns older_than) = g\<lparr>rg_rows := sweep_runs (rg_rows g) older_than\<rparr>"

end
