(* ===== verification/RunClaims.thy ===== *)
theory RunClaims
  imports Runs GuardClaims TurnClaims
begin

text \<open>
  What the run registry keeps: every operation moves at most one row and never its identity, the set of
  live runs respects the limit, a retried request finds the original run, a settled run stays settled, and
  a boot converges what the previous one left.
\<close>

section \<open>Rows and their identities\<close>

definition ident :: "run_row \<Rightarrow> string \<times> string \<times> string option" where
  "ident r = (rn_id r, rn_token r, rn_key r)"

definition idents :: "registry \<Rightarrow> (string \<times> string \<times> string option) list" where
  "idents g = map ident (rg_rows g)"

lemma get_put_row [simp]: "get_row (put_row rows r) i = (if rn_id r = i then Some r else get_row rows i)"
  by (induction rows) (auto simp: get_row_def)

lemma get_row_id: "get_row rows i = Some r \<Longrightarrow> rn_id r = i \<and> r \<in> set rows"
  by (auto simp: get_row_def find_Some_iff)

lemma get_row_None: "get_row rows i = None \<longleftrightarrow> i \<notin> set (map rn_id rows)"
  by (auto simp: get_row_def find_None_iff)

lemma map_fst_ident: "map fst (map ident rows) = map rn_id rows"
  by (simp add: ident_def)

lemma put_row_ident:
  assumes "distinct (map rn_id rows)" "ident r \<in> set (map ident rows)"
  shows "map ident (put_row rows r) = map ident rows"
  using assms
proof (induction rows)
  case (Cons q rows)
  show ?case
  proof (cases "rn_id q = rn_id r")
    case True
    have "ident r \<notin> set (map ident rows)"
      using Cons.prems(1) True by (auto simp: ident_def)
    with Cons.prems(2) True show ?thesis by (simp add: ident_def)
  next
    case False
    then have "ident q \<noteq> ident r" by (simp add: ident_def)
    with False Cons show ?thesis by auto
  qed
qed simp

lemma put_row_new: "rn_id r \<notin> set (map rn_id rows) \<Longrightarrow> put_row rows r = rows @ [r]"
  by (induction rows) auto

section \<open>Commits and transitions\<close>

lemma commit_rows:
  "\<exists>n. rg_rows (commit c g r es) = put_row (rg_rows g) (r\<lparr>rn_deliveries := n\<rparr>)"
  by (auto simp: commit_def Let_def split: option.split)
    (metis (full_types) run_row.surjective run_row.update_convs(11))

lemma commit_keeps [simp]:
  "rg_live (commit c g r es) = rg_live g" "rg_drivers (commit c g r es) = rg_drivers g"
  "rg_cancelling (commit c g r es) = rg_cancelling g" "rg_boot (commit c g r es) = rg_boot g"
  "rg_deadlines (commit c g r es) = rg_deadlines g" "rg_events (commit c g r es) = rg_events g"
  by (simp_all add: commit_def Let_def split: option.split)

text \<open>The row a transition writes, up to its delivery count.\<close>

lemma transition_rows:
  "\<exists>q. rg_rows (transition c g r nxt why x now) = put_row (rg_rows g) q \<and>
     rn_state q = nxt \<and> ident q = ident r \<and> rn_boot q = rn_boot r"
proof -
  define a where "a = (case ch_log x of None \<Rightarrow> []
    | Some (w, s) \<Rightarrow> [\<lparr>re_worker = w, re_run = rn_id r, re_state = nxt, re_previous = rn_state r,
        re_reason = why, re_error = Option.bind (ch_error x) (\<lambda>e. e)\<rparr>])"
  define u where "u = r\<lparr>rn_seq := (case ch_log x of None \<Rightarrow> rn_seq r | Some (w, s) \<Rightarrow> Some s),
    rn_updated := now, rn_state := nxt, rn_worker := or_else (ch_worker x) (rn_worker r),
    rn_turn := or_else (ch_turn x) (rn_turn r), rn_error := option_or (rn_error r) (ch_error x),
    rn_result := or_else (ch_result x) (rn_result r)\<rparr>"
  have rows: "rg_rows (transition c g r nxt why x now) =
      rg_rows (commit c (g\<lparr>rg_events := rg_events g @ a\<rparr>) u (ch_events x))"
    unfolding transition_def a_def [symmetric] u_def [symmetric] Let_def by simp
  obtain n where "rg_rows (transition c g r nxt why x now) = put_row (rg_rows g) (u\<lparr>rn_deliveries := n\<rparr>)"
    using commit_rows [of c "g\<lparr>rg_events := rg_events g @ a\<rparr>" u "ch_events x"] rows by auto
  then show ?thesis by (intro exI [of _ "u\<lparr>rn_deliveries := n\<rparr>"]) (simp add: u_def ident_def)
qed

lemma transition_keeps [simp]:
  "rg_drivers (transition c g r nxt why x now) = rg_drivers g"
  "rg_cancelling (transition c g r nxt why x now) = rg_cancelling g"
  "rg_boot (transition c g r nxt why x now) = rg_boot g"
  by (simp_all add: transition_def Let_def)

lemma transition_live [simp]:
  "rg_live (transition c g r nxt why x now) =
     (if terminal_run nxt then set_delete (rn_id r) (rg_live g) else rg_live g)"
  by (simp add: transition_def Let_def)

lemma transition_other [simp]:
  "rn_id r \<noteq> i \<Longrightarrow> get_row (rg_rows (transition c g r nxt why x now)) i = get_row (rg_rows g) i"
  using transition_rows [of c g r nxt why x now] by (auto simp: ident_def)

lemma commit_other [simp]:
  "rn_id r \<noteq> i \<Longrightarrow> get_row (rg_rows (commit c g r es)) i = get_row (rg_rows g) i"
  using commit_rows [of c g r es] by auto

lemma commit_same: "\<exists>n. get_row (rg_rows (commit c g r es)) (rn_id r) = Some (r\<lparr>rn_deliveries := n\<rparr>)"
  using commit_rows [of c g r es] by auto

lemma transition_state:
  "\<exists>q. get_row (rg_rows (transition c g r nxt why x now)) (rn_id r) = Some q \<and> rn_state q = nxt"
  using transition_rows [of c g r nxt why x now] by (auto simp: ident_def)

lemma commit_idents:
  assumes "distinct (map rn_id (rg_rows g))" "ident r \<in> set (idents g)"
  shows "idents (commit c g r es) = idents g"
  using commit_rows [of c g r es] put_row_ident [OF assms(1)] assms(2)
  by (auto simp: idents_def ident_def)

lemma transition_idents:
  assumes "distinct (map rn_id (rg_rows g))" "ident r \<in> set (idents g)"
  shows "idents (transition c g r nxt why x now) = idents g"
  using transition_rows [of c g r nxt why x now] put_row_ident [OF assms(1)] assms(2)
  by (auto simp: idents_def)

lemma get_row_ident: "get_row (rg_rows g) i = Some r \<Longrightarrow> ident r \<in> set (idents g)"
  using get_row_id by (fastforce simp: idents_def)

text \<open>What is handed to the dispatcher for one run, the closing of its worker aside.\<close>

definition run_dispatches :: "registry \<Rightarrow> string \<Rightarrow> dispatch list" where
  "run_dispatches g i = filter (\<lambda>d. di_run d = i \<and> di_event d \<noteq> WorkerClosedEvent) (rg_dispatched g)"

lemma set_fire: "d \<in> set (fire c r t e) \<Longrightarrow> di_run d = rn_id r \<and> di_event d = e"
  by (auto simp: fire_def split: option.splits if_splits)

lemma commit_dispatches:
  "rn_id r \<noteq> i \<or> es = [WorkerClosedEvent] \<Longrightarrow> run_dispatches (commit c g r es) i = run_dispatches g i"
  by (auto simp: commit_def Let_def run_dispatches_def filter_empty_conv
      dest!: set_fire split: option.split if_splits)

lemma transition_dispatches:
  "rn_id r \<noteq> i \<Longrightarrow> run_dispatches (transition c g r nxt why x now) i = run_dispatches g i"
  using commit_dispatches [of r i]
  by (auto simp: transition_def Let_def run_dispatches_def commit_def filter_empty_conv
      dest!: set_fire split: option.split)

section \<open>Histories\<close>

text \<open>
  Histories in which run ids are fresh and retention removes nothing: the model's \<open>ids.run()\<close> is a
  parameter of \<open>CreateRun\<close>.
\<close>

fun run_ops :: "run_config \<Rightarrow> registry \<Rightarrow> run_op list \<Rightarrow> registry" where
  "run_ops c g [] = g"
| "run_ops c g (x # xs) = run_ops c (run_step c g x) xs"

fun fresh_op :: "registry \<Rightarrow> run_op \<Rightarrow> bool" where
  "fresh_op g (CreateRun i req a now) \<longleftrightarrow> i \<notin> set (map rn_id (rg_rows g))"
| "fresh_op g (SweepRuns t) \<longleftrightarrow> False"
| "fresh_op g x \<longleftrightarrow> True"

fun fresh_ops :: "run_config \<Rightarrow> registry \<Rightarrow> run_op list \<Rightarrow> bool" where
  "fresh_ops c g [] \<longleftrightarrow> True"
| "fresh_ops c g (x # xs) \<longleftrightarrow> fresh_op g x \<and> fresh_ops c (run_step c g x) xs"

lemma run_ops_append: "run_ops c g (xs @ ys) = run_ops c (run_ops c g xs) ys"
  by (induction xs arbitrary: g) simp_all

lemma fresh_ops_append: "fresh_ops c g (xs @ ys) \<longleftrightarrow> fresh_ops c g xs \<and> fresh_ops c (run_ops c g xs) ys"
  by (induction xs arbitrary: g) auto

text \<open>The rows the code captured before an \<open>await\<close> still have their place in the table.\<close>

definition captured :: "registry \<Rightarrow> run_row \<Rightarrow> bool" where
  "captured g r \<longleftrightarrow> r \<in> set (rg_cancelling g) \<or> (\<exists>i keep. rg_drivers g i = Some (Creating r keep))"

definition runs_ok :: "registry \<Rightarrow> bool" where
  "runs_ok g \<longleftrightarrow> distinct (map rn_id (rg_rows g)) \<and>
     (\<forall>r. captured g r \<longrightarrow> ident r \<in> set (idents g)) \<and>
     (\<forall>i r keep. rg_drivers g i = Some (Creating r keep) \<longrightarrow> rn_id r = i)"

lemma distinct_idents: "distinct (map rn_id (rg_rows g)) \<longleftrightarrow> distinct (map fst (idents g))"
  by (simp only: idents_def map_fst_ident)

text \<open>An operation that neither adds a row nor captures a new one.\<close>

lemma runs_ok_step:
  assumes "runs_ok g" "idents g' = idents g"
    and "\<And>r. captured g' r \<Longrightarrow> captured g r \<or> ident r \<in> set (idents g)"
    and "\<And>i r keep. rg_drivers g' i = Some (Creating r keep) \<Longrightarrow> rg_drivers g i = Some (Creating r keep)"
  shows "runs_ok g' \<and> (\<exists>ys. idents g' = idents g @ ys)"
  using assms unfolding runs_ok_def distinct_idents by (metis append_Nil2)

lemma finish_driver_idents:
  assumes "distinct (map rn_id (rg_rows g))"
  shows "idents (finish_driver c g i keep) = idents g"
proof -
  let ?g = "g\<lparr>rg_drivers := (rg_drivers g)(i := None)\<rparr>"
  have eq: "idents ?g = idents g" by (simp add: idents_def)
  have "idents (commit c ?g r [WorkerClosedEvent]) = idents g" if "get_row (rg_rows ?g) i = Some r" for r
    using commit_idents [of ?g r] get_row_ident [OF that] assms eq by simp
  then show ?thesis by (auto simp: finish_driver_def Let_def eq split: option.split)
qed

lemma finish_driver_keeps [simp]:
  "rg_drivers (finish_driver c g i keep) = (rg_drivers g)(i := None)"
  "rg_cancelling (finish_driver c g i keep) = rg_cancelling g"
  "rg_live (finish_driver c g i keep) = rg_live g"
  "rg_boot (finish_driver c g i keep) = rg_boot g"
  by (auto simp: finish_driver_def Let_def split: option.split)

lemma fail_run_idents:
  assumes "distinct (map rn_id (rg_rows g))"
  shows "idents (fail_run c g i w s err now) = idents g"
  using transition_idents [OF assms get_row_ident]
  by (auto simp: fail_run_def split: option.split)

lemma fail_run_keeps [simp]:
  "rg_drivers (fail_run c g i w s err now) = rg_drivers g"
  "rg_cancelling (fail_run c g i w s err now) = rg_cancelling g"
  by (auto simp: fail_run_def split: option.split)

lemma idents_fields [simp]:
  "idents (g\<lparr>rg_drivers := d\<rparr>) = idents g" "idents (g\<lparr>rg_deadlines := x\<rparr>) = idents g"
  "idents (g\<lparr>rg_cancelling := y\<rparr>) = idents g" "idents (g\<lparr>rg_live := z\<rparr>) = idents g"
  by (simp_all add: idents_def)

lemma same_distinct: "idents g = idents h \<Longrightarrow> distinct (map rn_id (rg_rows g)) = distinct (map rn_id (rg_rows h))"
  by (simp add: distinct_idents)

section \<open>Every operation keeps the table\<close>

lemma creating_ident:
  "runs_ok g \<Longrightarrow> rg_drivers g i = Some (Creating r keep) \<Longrightarrow> ident r \<in> set (idents g)"
  by (auto simp: runs_ok_def captured_def)

lemma worker_created_ok:
  assumes "runs_ok g"
  shows "idents (worker_created c g i w s now) = idents g"
  using transition_idents [of g, OF _ creating_ident [OF assms]] assms
  by (auto simp: worker_created_def runs_ok_def Let_def split: option.split driver.split)

lemma worker_failed_ok:
  assumes "runs_ok g"
  shows "idents (worker_failed c g i err now) = idents g"
  using transition_idents [of g, OF _ creating_ident [OF assms]] assms
  by (auto simp: worker_failed_def runs_ok_def Let_def split: option.split driver.split)

lemma prompt_accepted_ok:
  assumes "runs_ok g"
  shows "idents (prompt_accepted c g i turn s now) = idents g"
  using assms transition_idents [of g, OF _ get_row_ident] finish_driver_idents [of g]
  by (auto simp: prompt_accepted_def runs_ok_def Let_def split: option.split driver.split)

lemma driver_failed_ok:
  assumes "runs_ok g"
  shows "idents (driver_failed c g i s err now) = idents g"
proof -
  have d: "distinct (map rn_id (rg_rows g))" using assms by (simp add: runs_ok_def)
  have f: "idents (fail_run c g i w s err now) = idents g" for w by (rule fail_run_idents [OF d])
  have "idents (finish_driver c (fail_run c g i w s err now) i keep) = idents g" for w keep
    using finish_driver_idents same_distinct [OF f] d f by simp
  then show ?thesis by (auto simp: driver_failed_def split: option.split driver.split)
qed

lemma turn_ended_ok:
  assumes "runs_ok g"
  shows "idents (turn_ended c g i es s err now) = idents g"
proof -
  have d: "distinct (map rn_id (rg_rows g))" using assms by (simp add: runs_ok_def)
  have f: "idents (fail_run c g i w s err now) = idents g" for w by (rule fail_run_idents [OF d])
  have t: "idents (transition c g r nxt why x now) = idents g" if "get_row (rg_rows g) i = Some r" for r nxt why x
    by (rule transition_idents [OF d get_row_ident [OF that]])
  have fin: "idents (finish_driver c h i keep) = idents g" if "idents h = idents g" for h keep
    using finish_driver_idents same_distinct [OF that] d that by simp
  show ?thesis
    unfolding turn_ended_def Let_def
    by (auto simp: fin f t intro!: fin t split: option.split driver.split)
qed

lemma state_changed_ok:
  assumes "runs_ok g"
  shows "idents (state_changed c g i ws s now) = idents g"
  using assms transition_idents [of g, OF _ get_row_ident]
  by (auto simp: state_changed_def runs_ok_def split: option.split)

lemma deadline_fired_ok:
  assumes "runs_ok g"
  shows "idents (deadline_fired c g i s now) = idents g"
proof -
  let ?g = "g\<lparr>rg_deadlines := filter (\<lambda>(j, _). j \<noteq> i) (rg_deadlines g)\<rparr>"
  have "idents (transition c ?g r nxt why x now) = idents g" if "get_row (rg_rows g) i = Some r" for r nxt why x
    using transition_idents [of ?g r] get_row_ident [OF that] assms by (simp add: runs_ok_def)
  then show ?thesis by (auto simp: deadline_fired_def Let_def split: option.split)
qed

lemma cancel_row_ok:
  assumes "runs_ok g" "ident r \<in> set (idents g)"
  shows "idents (cancel_row c g r s now) = idents g"
proof -
  have "ident (option_or r (get_row (rg_rows g) (rn_id r))) \<in> set (idents g)"
    using get_row_ident assms(2) by (cases "get_row (rg_rows g) (rn_id r)") auto
  with transition_idents [of g] assms(1) show ?thesis
    by (simp add: cancel_row_def runs_ok_def Let_def)
qed

lemma cancel_row_keeps [simp]:
  "rg_drivers (cancel_row c g r s now) = rg_drivers g"
  "rg_cancelling (cancel_row c g r s now) = rg_cancelling g"
  by (simp_all add: cancel_row_def Let_def)

lemma recover_fold_keeps [simp]:
  "rg_drivers (foldl (recover_one c now) g rs) = rg_drivers g"
  "rg_cancelling (foldl (recover_one c now) g rs) = rg_cancelling g"
  "rg_live (foldl (recover_one c now) g rs) = rg_live g"
  "rg_boot (foldl (recover_one c now) g rs) = rg_boot g"
  by (induction rs arbitrary: g) (simp_all add: recover_one_def Let_def)

lemma ident_abandon [simp]: "ident (abandon boot now r) = ident r" "rn_id (abandon boot now r) = rn_id r"
  by (simp_all add: abandon_def ident_def)

lemma recover_fold_idents:
  "distinct (map rn_id (rg_rows g)) \<Longrightarrow> \<forall>r\<in>set rs. ident r \<in> set (idents g) \<Longrightarrow>
   idents (foldl (recover_one c now) g rs) = idents g"
proof (induction rs arbitrary: g)
  case (Cons r rs)
  have "map ident (rg_rows (recover_one c now g r)) = map ident (rg_rows g)"
    using Cons.prems put_row_ident [of "rg_rows g" "abandon (rg_boot g) now r"]
    by (simp add: recover_one_def Let_def idents_def)
  then have eq: "idents (recover_one c now g r) = idents g" by (simp add: idents_def)
  with Cons.IH [of "recover_one c now g r"] Cons.prems same_distinct [OF eq] show ?case by simp
qed simp

lemma recover_runs_idents:
  assumes "distinct (map rn_id (rg_rows g))"
  shows "idents (fst (recover_runs c g now)) = idents g"
  using recover_fold_idents [OF assms, of "live_from_other_boots (rg_rows g) (rg_boot g)"]
  by (auto simp: recover_runs_def Let_def idents_def live_from_other_boots_def)

lemma create_run_ok:
  assumes ok: "runs_ok g" and new: "i \<notin> set (map rn_id (rg_rows g))"
  shows "runs_ok (fst (create_run c g i req a now)) \<and>
    (\<exists>ys. idents (fst (create_run c g i req a now)) = idents g @ ys)"
proof (cases "fst (create_run c g i req a now) = g")
  case False
  let ?r = "seed_row g i req (au_token a) now"
  let ?g = "g\<lparr>rg_rows := put_row (rg_rows g) ?r, rg_live := set_add i (rg_live g),
    rg_drivers := (rg_drivers g)(i \<mapsto> Creating ?r (rq_keep_worker req))\<rparr>"
  have g: "fst (create_run c g i req a now) = ?g"
    using False by (auto simp: create_run_def Let_def split: option.splits if_splits)
  have id: "rn_id ?r = i" by (simp add: seed_row_def)
  have rows: "rg_rows ?g = rg_rows g @ [?r]" using put_row_new [of ?r] new by (simp add: id)
  then have idents: "idents ?g = idents g @ [ident ?r]" by (simp add: idents_def)
  have "distinct (map rn_id (rg_rows ?g))" using ok new by (simp add: rows runs_ok_def id)
  moreover have "ident r \<in> set (idents ?g)" if "captured ?g r" for r
  proof -
    from that have "captured g r \<or> r = ?r" by (auto simp: captured_def split: if_splits)
    with ok idents show ?thesis by (auto simp: runs_ok_def)
  qed
  moreover have "rn_id r = j" if "rg_drivers ?g j = Some (Creating r keep)" for j r keep
    using that ok id by (auto simp: runs_ok_def split: if_splits)
  ultimately show ?thesis using idents unfolding g runs_ok_def by blast
qed (use ok in simp)

lemma idents_cancelling_append [simp]: "idents (g\<lparr>rg_cancelling := xs\<rparr>) = idents g"
  by (simp add: idents_def)

lemma row_of_get: "row_of rows i a = Inr r \<Longrightarrow> get_row rows i = Some r"
  by (auto simp: row_of_def split: option.splits if_splits)

lemma cancel_run_idents:
  assumes "runs_ok g"
  shows "idents (fst (cancel_run c g i a now)) = idents g"
proof -
  have "idents (cancel_row c g r None now) = idents g" if "row_of (rg_rows g) i a = Inr r" for r
    using cancel_row_ok [OF assms get_row_ident [OF row_of_get [OF that]]] .
  then show ?thesis by (auto simp: cancel_run_def Let_def split: sum.split)
qed

lemma cancel_continues_idents:
  assumes "runs_ok g"
  shows "idents (cancel_continues c g k s now) = idents g"
proof (cases "k < length (rg_cancelling g)")
  case True
  then have "ident (rg_cancelling g ! k) \<in> set (idents g)"
    using assms by (auto simp: runs_ok_def captured_def)
  from cancel_row_ok [OF assms this] True show ?thesis by (simp add: cancel_continues_def)
qed (simp add: cancel_continues_def)

text \<open>Who captures a row: only a cancel of a row of the table, and \<open>create\<close>.\<close>

lemma captured_step:
  assumes "captured (run_step c g x) r" "\<And>i req a now. x \<noteq> CreateRun i req a now"
  shows "captured g r \<or> ident r \<in> set (idents g)"
proof (cases x)
  case (CancelRun i a now)
  with assms(1) have "captured g r \<or> row_of (rg_rows g) i a = Inr r"
    by (auto simp: cancel_run_def captured_def Let_def split: sum.splits if_splits)
  then show ?thesis using get_row_ident [OF row_of_get] by auto
next
  case (CancelContinues k s now)
  with assms(1) show ?thesis
    by (auto simp: cancel_continues_def captured_def split: if_splits dest: in_set_takeD in_set_dropD)
qed (use assms in \<open>auto simp: captured_def worker_created_def worker_failed_def prompt_accepted_def
    driver_failed_def turn_ended_def state_changed_def deadline_fired_def recover_runs_def reboot_registry_def
    new_registry_def Let_def split: option.splits driver.splits if_splits\<close>)

lemma creating_step:
  assumes "rg_drivers (run_step c g x) i = Some (Creating r keep)" "\<And>i req a now. x \<noteq> CreateRun i req a now"
  shows "rg_drivers g i = Some (Creating r keep)"
proof (cases x)
  case (CancelRun j a now)
  with assms(1) show ?thesis by (auto simp: cancel_run_def Let_def split: sum.splits if_splits)
qed (use assms in \<open>auto simp: worker_created_def worker_failed_def prompt_accepted_def cancel_continues_def
    driver_failed_def turn_ended_def state_changed_def deadline_fired_def recover_runs_def reboot_registry_def
    new_registry_def Let_def split: option.splits driver.splits if_splits\<close>)

lemma step_idents:
  assumes "runs_ok g" "fresh_op g x" "\<And>i req a now. x \<noteq> CreateRun i req a now"
  shows "idents (run_step c g x) = idents g"
proof (cases x)
  case (RebootRuns boot now)
  have "idents (reboot_registry g boot) = idents g" by (simp add: idents_def reboot_registry_def)
  with RebootRuns recover_runs_idents [of "reboot_registry g boot"] assms(1) show ?thesis
    by (simp add: runs_ok_def reboot_registry_def)
qed (use assms in \<open>simp_all add: worker_created_ok worker_failed_ok prompt_accepted_ok driver_failed_ok
    turn_ended_ok state_changed_ok deadline_fired_ok cancel_run_idents cancel_continues_idents\<close>)

lemma run_step_ok:
  assumes "runs_ok g" "fresh_op g x"
  shows "runs_ok (run_step c g x) \<and> (\<exists>ys. idents (run_step c g x) = idents g @ ys)"
proof (cases "\<exists>i req a now. x = CreateRun i req a now")
  case True
  with assms create_run_ok show ?thesis by auto
next
  case False
  then have "\<And>i req a now. x \<noteq> CreateRun i req a now" by blast
  from runs_ok_step [OF assms(1) step_idents [OF assms this] captured_step [OF _ this] creating_step [OF _ this]]
  show ?thesis .
qed

lemma run_ops_ok:
  "runs_ok g \<Longrightarrow> fresh_ops c g xs \<Longrightarrow>
   runs_ok (run_ops c g xs) \<and> (\<exists>ys. idents (run_ops c g xs) = idents g @ ys)"
proof (induction xs arbitrary: g)
  case (Cons x xs)
  then have x: "runs_ok (run_step c g x)" "\<exists>ys. idents (run_step c g x) = idents g @ ys"
    using run_step_ok by simp_all
  from Cons.IH [OF x(1)] Cons.prems(2) x(2) show ?case by auto
qed simp

lemma new_registry_ok [simp]: "runs_ok (new_registry boot)"
  by (simp add: runs_ok_def new_registry_def captured_def)

section \<open>A retried request\<close>

lemma by_key_idents:
  "map_option ident (by_key (rg_rows g) token key) = List.find (\<lambda>(i, t, k). t = token \<and> k = Some key) (idents g)"
proof -
  have "map_option ident (List.find (\<lambda>r. rn_token r = token \<and> rn_key r = Some key) rows) =
      List.find (\<lambda>(i, t, k). t = token \<and> k = Some key) (map ident rows)" for rows
    by (induction rows) (simp_all add: ident_def)
  then show ?thesis by (simp add: by_key_def idents_def)
qed

lemma find_append: "List.find P (xs @ ys) = (case List.find P xs of None \<Rightarrow> List.find P ys | Some x \<Rightarrow> Some x)"
  by (induction xs) auto

text \<open>
  A request with an idempotency key starts one run. When the first request was accepted, a later one
  of the same token with the same key, after any history, restarts included, returns the run the first one
  created and changes nothing: no row, no worker, no event.
\<close>

theorem retried_request_finds_the_run:
  assumes before: "fresh_ops c (new_registry boot) ops0" "g = run_ops c (new_registry boot) ops0"
    and created: "create_run c g i req a now = (g1, None)" "rq_key req = Some key"
      "i \<notin> set (map rn_id (rg_rows g))"
    and later: "fresh_ops c g1 ops" "g2 = run_ops c g1 ops"
    and retry: "rq_key req' = Some key" "au_token a' = au_token a"
      "check_webhook c (rq_target req') (au_token a') = None"
  shows "\<exists>r. create_run c g2 j req' a' later_ms = (g2, Some (Inr r)) \<and> rn_id r = i"
proof -
  have ok: "runs_ok g" using run_ops_ok [OF new_registry_ok before(1)] before(2) by simp
  have none: "by_key (rg_rows g) (au_token a) key = None"
    and rows: "rg_rows g1 = rg_rows g @ [seed_row g i req (au_token a) now]"
    using created put_row_new [of "seed_row g i req (au_token a) now" "rg_rows g"]
    by (auto simp: create_run_def find_original_def seed_row_def Let_def split: option.splits if_splits)
  have ok1: "runs_ok g1" using create_run_ok [OF ok created(3), of c req a now] created(1) by simp
  obtain ys where ys: "idents g2 = idents g1 @ ys" using run_ops_ok [OF ok1 later(1)] later(2) by blast
  have id1: "idents g1 = idents g @ [(i, au_token a, Some key)]"
    using created(2) by (simp add: idents_def rows ident_def seed_row_def)
  have "List.find (\<lambda>(i, t, k). t = au_token a \<and> k = Some key) (idents g) = None"
    using by_key_idents [of g "au_token a" key] none by simp
  then have "map_option ident (by_key (rg_rows g2) (au_token a) key) = Some (i, au_token a, Some key)"
    unfolding by_key_idents ys id1 by (simp add: find_append)
  then obtain r where "by_key (rg_rows g2) (au_token a) key = Some r" "rn_id r = i"
    by (auto simp: ident_def)
  with retry show ?thesis by (simp add: create_run_def find_original_def)
qed

section \<open>The limit on runs in flight\<close>

definition live_row :: "registry \<Rightarrow> string \<Rightarrow> bool" where
  "live_row g i \<longleftrightarrow> (\<exists>r. get_row (rg_rows g) i = Some r \<and> \<not> terminal_run (rn_state r))"

definition live_ok :: "run_config \<Rightarrow> registry \<Rightarrow> bool" where
  "live_ok c g \<longleftrightarrow> distinct (rg_live g) \<and> int (length (rg_live g)) \<le> max 0 (rc_max_concurrent c) \<and>
     (\<forall>i\<in>set (rg_live g). live_row g i)"

lemma transition_live_ok:
  assumes "live_ok c g"
  shows "live_ok c (transition c g r nxt why x now)"
proof -
  have "live_row (transition c g r nxt why x now) i"
    if "i \<in> set (rg_live (transition c g r nxt why x now))" for i
  proof (cases "i = rn_id r")
    case True
    with that have "\<not> terminal_run nxt" by auto
    with True transition_state [of c g r nxt why x now] show ?thesis by (auto simp: live_row_def)
  next
    case False
    from that have "i \<in> set (rg_live g)" by (auto split: if_splits)
    with False assms transition_other [of r i] show ?thesis by (auto simp: live_ok_def live_row_def)
  qed
  moreover have "length (set_delete (rn_id r) (rg_live g)) \<le> length (rg_live g)"
    by (simp add: set_delete_def)
  ultimately show ?thesis using assms by (auto simp: live_ok_def)
qed

lemma commit_live_ok:
  assumes "live_ok c g" "get_row (rg_rows g) (rn_id r) = Some r"
  shows "live_ok c (commit c g r es)"
proof -
  have "live_row (commit c g r es) i = live_row g i" for i
    using commit_same [of c g r es] commit_other [of r i] assms(2)
    by (cases "i = rn_id r") (auto simp: live_row_def)
  with assms(1) show ?thesis by (simp add: live_ok_def)
qed

lemma live_ok_fields [simp]:
  "live_ok c (g\<lparr>rg_drivers := d\<rparr>) = live_ok c g" "live_ok c (g\<lparr>rg_deadlines := x\<rparr>) = live_ok c g"
  "live_ok c (g\<lparr>rg_cancelling := y\<rparr>) = live_ok c g"
  by (simp_all add: live_ok_def live_row_def)

lemma finish_driver_live_ok: "live_ok c g \<Longrightarrow> live_ok c (finish_driver c g i keep)"
proof -
  assume ok: "live_ok c g"
  have "live_ok c (commit c (g\<lparr>rg_drivers := d\<rparr>) r es)" if "get_row (rg_rows g) i = Some r" for d r es
    using commit_live_ok [of c "g\<lparr>rg_drivers := d\<rparr>" r] ok that get_row_id [OF that] by simp
  with ok show ?thesis by (auto simp: finish_driver_def Let_def split: option.split)
qed

lemma fail_run_live_ok: "live_ok c g \<Longrightarrow> live_ok c (fail_run c g i w s err now)"
  by (auto simp: fail_run_def transition_live_ok split: option.split)

lemma cancel_row_live_ok: "live_ok c g \<Longrightarrow> live_ok c (cancel_row c g r s now)"
  by (simp add: cancel_row_def Let_def transition_live_ok)

lemmas live_ok_parts = transition_live_ok finish_driver_live_ok fail_run_live_ok cancel_row_live_ok

lemma create_run_live_ok:
  assumes "live_ok c g"
  shows "live_ok c (fst (create_run c g i req a now))"
proof (cases "fst (create_run c g i req a now) = g")
  case False
  let ?r = "seed_row g i req (au_token a) now"
  let ?g = "g\<lparr>rg_rows := put_row (rg_rows g) ?r, rg_live := set_add i (rg_live g),
    rg_drivers := (rg_drivers g)(i \<mapsto> Creating ?r (rq_keep_worker req))\<rparr>"
  have g: "fst (create_run c g i req a now) = ?g" and room: "int (length (rg_live g)) < rc_max_concurrent c"
    using False by (auto simp: create_run_def Let_def split: option.splits if_splits)
  have "length (set_add i (rg_live g)) \<le> Suc (length (rg_live g))" by (simp add: set_add_def)
  then have "int (length (rg_live ?g)) \<le> max 0 (rc_max_concurrent c)" using room by simp
  moreover have "live_row ?g j" if "j \<in> set (rg_live ?g)" for j
    using that assms by (auto simp: live_ok_def live_row_def seed_row_def terminal_run_def)
  ultimately show ?thesis using assms unfolding g live_ok_def by simp
qed (use assms in simp)

lemma run_step_live_ok:
  assumes "live_ok c g"
  shows "live_ok c (run_step c g x)"
proof (cases x)
  case (CancelRun i a now)
  with assms show ?thesis
    by (auto simp: cancel_run_def Let_def live_ok_parts split: sum.split)
next
  case (RebootRuns boot now)
  then show ?thesis by (simp add: recover_runs_def Let_def live_ok_def reboot_registry_def new_registry_def)
next
  case (SweepRuns t)
  have "get_row (sweep_runs rows t) i = Some r" if "get_row rows i = Some r" "\<not> terminal_run (rn_state r)" for rows i r
    using that by (induction rows) (auto simp: get_row_def sweep_runs_def)
  with SweepRuns assms show ?thesis by (fastforce simp: live_ok_def live_row_def)
qed (use assms in \<open>auto simp: worker_created_def worker_failed_def prompt_accepted_def driver_failed_def
    turn_ended_def state_changed_def deadline_fired_def cancel_continues_def live_ok_parts create_run_live_ok
    Let_def split: option.split driver.split\<close>)

text \<open>
  At most \<open>run.maxConcurrent\<close> runs are in flight at any moment of any history, restarts and retention
  included, and every run that counts against the limit is in the table and has not ended: no place is
  leaked to a finished run.
\<close>

theorem runs_in_flight_bounded:
  "int (length (rg_live (run_ops c (new_registry boot) ops))) \<le> max 0 (rc_max_concurrent c) \<and>
   (\<forall>i\<in>set (rg_live (run_ops c (new_registry boot) ops)).
      \<exists>r. get_row (rg_rows (run_ops c (new_registry boot) ops)) i = Some r \<and> \<not> terminal_run (rn_state r))"
proof -
  have "live_ok c (run_ops c g ops)" if "live_ok c g" for g
    using that by (induction ops arbitrary: g) (simp_all add: run_step_live_ok)
  moreover have "live_ok c (new_registry boot)" by (simp add: live_ok_def new_registry_def)
  ultimately show ?thesis unfolding live_ok_def live_row_def by blast
qed

section \<open>A settled run\<close>

text \<open>The background half of a settled run only waits for the turn, or has ended.\<close>

definition settled_driver :: "driver option \<Rightarrow> bool" where
  "settled_driver d \<longleftrightarrow> (case d of None \<Rightarrow> True | Some (Collecting w turn keep) \<Rightarrow> True | _ \<Rightarrow> False)"

definition settled_as :: "run_row \<Rightarrow> dispatch list \<Rightarrow> registry \<Rightarrow> bool" where
  "settled_as r ds g \<longleftrightarrow> settled_driver (rg_drivers g (rn_id r)) \<and> run_dispatches g (rn_id r) = ds \<and>
     (\<exists>n. get_row (rg_rows g) (rn_id r) = Some (r\<lparr>rn_deliveries := n\<rparr>))"

lemma settled_transition:
  "rn_id q \<noteq> rn_id r \<Longrightarrow> settled_as r ds (transition c g q nxt why x now) = settled_as r ds g"
  by (simp add: settled_as_def transition_dispatches)

lemma settled_fields [simp]:
  "settled_as r ds (g\<lparr>rg_deadlines := x\<rparr>) = settled_as r ds g"
  "settled_as r ds (g\<lparr>rg_cancelling := y\<rparr>) = settled_as r ds g"
  by (simp_all add: settled_as_def run_dispatches_def)

lemma settled_drivers:
  "settled_as r ds g \<Longrightarrow> j \<noteq> rn_id r \<or> settled_driver d \<Longrightarrow>
   settled_as r ds (g\<lparr>rg_drivers := (rg_drivers g)(j := d)\<rparr>)"
  by (auto simp: settled_as_def run_dispatches_def)

lemma settled_commit:
  assumes "settled_as r ds g" "get_row (rg_rows g) j = Some q"
  shows "settled_as r ds (commit c g q [WorkerClosedEvent])"
proof (cases "j = rn_id r")
  case True
  with assms obtain n where q: "q = r\<lparr>rn_deliveries := n\<rparr>" by (auto simp: settled_as_def)
  obtain m where "get_row (rg_rows (commit c g q [WorkerClosedEvent])) (rn_id q) = Some (q\<lparr>rn_deliveries := m\<rparr>)"
    using commit_same by blast
  then have "\<exists>m. get_row (rg_rows (commit c g q [WorkerClosedEvent])) (rn_id r) = Some (r\<lparr>rn_deliveries := m\<rparr>)"
    by (intro exI [of _ m]) (simp add: q)
  with assms(1) show ?thesis by (simp add: settled_as_def commit_dispatches)
next
  case False
  with get_row_id [OF assms(2)] assms(1) show ?thesis
    by (simp add: settled_as_def commit_dispatches)
qed

lemma settled_finish:
  assumes "settled_as r ds g"
  shows "settled_as r ds (finish_driver c g j keep)"
proof -
  let ?g = "g\<lparr>rg_drivers := (rg_drivers g)(j := None)\<rparr>"
  have ok: "settled_as r ds ?g" using settled_drivers [OF assms] by (simp add: settled_driver_def)
  from settled_commit [OF ok, of j] ok show ?thesis
    by (auto simp: finish_driver_def Let_def split: option.split)
qed

text \<open>A transition from the table's own row: for the settled run there is none.\<close>

lemma settled_row:
  assumes "settled_as r ds g" "terminal_run (rn_state r)" "get_row (rg_rows g) j = Some q"
    "\<not> terminal_run (rn_state q)"
  shows "settled_as r ds (transition c g q nxt why x now)"
proof -
  have "rn_id q \<noteq> rn_id r" using assms get_row_id [OF assms(3)] by (auto simp: settled_as_def)
  with assms(1) show ?thesis by (simp add: settled_transition)
qed

lemma settled_fail_run:
  "settled_as r ds g \<Longrightarrow> terminal_run (rn_state r) \<Longrightarrow> settled_as r ds (fail_run c g j w s err now)"
  using settled_row [of r ds g j] by (auto simp: fail_run_def split: option.split)

lemma settled_cancel_row:
  assumes "settled_as r ds g" "terminal_run (rn_state r)"
  shows "settled_as r ds (cancel_row c g q s now)"
proof (cases "rn_id q = rn_id r")
  case True
  with assms have "terminal_run (rn_state (option_or q (get_row (rg_rows g) (rn_id q))))"
    by (auto simp: settled_as_def)
  with assms(1) show ?thesis by (simp add: cancel_row_def Let_def)
next
  case False
  then have "rn_id (option_or q (get_row (rg_rows g) (rn_id q))) \<noteq> rn_id r"
    using get_row_id by (cases "get_row (rg_rows g) (rn_id q)") auto
  with assms(1) show ?thesis by (simp add: cancel_row_def Let_def settled_transition)
qed

lemma settled_creating:
  assumes "settled_as r ds g" "runs_ok g" "rg_drivers g j = Some (Creating q keep)"
  shows "j \<noteq> rn_id r \<and> rn_id q \<noteq> rn_id r"
proof -
  have "j \<noteq> rn_id r" using assms(1,3) by (auto simp: settled_as_def settled_driver_def)
  moreover have "rn_id q = j" using assms(2,3) unfolding runs_ok_def by blast
  ultimately show ?thesis by simp
qed

lemma settled_prompting:
  "settled_as r ds g \<Longrightarrow> rg_drivers g j = Some (Prompting w keep) \<Longrightarrow> j \<noteq> rn_id r"
  by (auto simp: settled_as_def settled_driver_def)

lemma settled_create:
  assumes "settled_as r ds g" "i \<notin> set (map rn_id (rg_rows g))"
  shows "settled_as r ds (fst (create_run c g i req a now))"
proof -
  have "rn_id r \<noteq> i" using assms get_row_None [of "rg_rows g" i] by (auto simp: settled_as_def)
  with assms(1) show ?thesis
    by (auto simp: create_run_def settled_as_def run_dispatches_def seed_row_def Let_def split: option.split)
qed

lemma settled_recover:
  assumes "distinct (map rn_id (rg_rows g))" "settled_as r ds g" "terminal_run (rn_state r)"
  shows "settled_as r ds (fst (recover_runs c g now))"
proof -
  have stale: "rn_id q \<noteq> rn_id r" if "q \<in> set (rg_rows g)" "live_elsewhere (rg_boot g) q" for q
  proof
    assume "rn_id q = rn_id r"
    moreover obtain p where "get_row (rg_rows g) (rn_id r) = Some p" "terminal_run (rn_state p)"
      using assms(2,3) by (auto simp: settled_as_def)
    ultimately have "q = p" using that(1) assms(1) get_row_id by (metis distinct_map inj_on_def)
    with \<open>terminal_run (rn_state p)\<close> that(2) show False by (simp add: live_elsewhere_def)
  qed
  have one: "settled_as r ds (recover_one c now h q)" if "rn_id q \<noteq> rn_id r" "settled_as r ds h" for h q
    using that by (auto simp: recover_one_def Let_def settled_as_def run_dispatches_def filter_empty_conv
      enqueue_abandoned_def dest!: set_fire split: option.splits if_splits)
  have "settled_as r ds (foldl (recover_one c now) h qs)"
    if "\<forall>q\<in>set qs. rn_id q \<noteq> rn_id r" "settled_as r ds h" for h qs
    using that by (induction qs arbitrary: h) (simp_all add: one)
  with stale assms(2) show ?thesis by (simp add: recover_runs_def Let_def live_from_other_boots_def)
qed

lemma settled_collecting: "settled_driver (Some (Collecting w turn keep))" "settled_driver None"
  by (simp_all add: settled_driver_def)

lemma settled_turn_ended:
  assumes ok: "settled_as r ds g" "terminal_run (rn_state r)"
  shows "settled_as r ds (turn_ended c g i es s err now)"
proof -
  have "settled_as r ds (finish_driver c (transition c g q nxt why x now) i keep)"
    if "get_row (rg_rows g) i = Some q" "\<not> terminal_run (rn_state q)" for q nxt why x keep
    by (rule settled_finish [OF settled_row [OF ok that]])
  with ok(1) settled_finish [OF ok(1)] settled_finish [OF settled_fail_run [OF ok]] show ?thesis
    unfolding turn_ended_def Let_def by (auto split: option.split driver.split)
qed

lemma settled_prompt_accepted:
  assumes ok: "settled_as r ds g" "terminal_run (rn_state r)"
  shows "settled_as r ds (prompt_accepted c g i turn s now)"
proof -
  have "settled_as r ds ((transition c g q nxt why x now)\<lparr>rg_drivers :=
      (rg_drivers g)(i \<mapsto> Collecting w turn keep)\<rparr>)"
    if "rg_drivers g i = Some (Prompting w keep)" "get_row (rg_rows g) i = Some q" for q nxt why x w keep
  proof -
    have "rn_id q \<noteq> rn_id r" using settled_prompting [OF ok(1) that(1)] get_row_id [OF that(2)] by simp
    then have "settled_as r ds (transition c g q nxt why x now)" using ok(1) by (simp add: settled_transition)
    from settled_drivers [OF this, of i "Some (Collecting w turn keep)"] settled_collecting show ?thesis by simp
  qed
  with settled_finish [OF ok(1)] ok(1) show ?thesis
    unfolding prompt_accepted_def Let_def by (auto split: option.split driver.split)
qed

lemma settled_worker_created:
  assumes ok: "settled_as r ds g" "runs_ok g"
  shows "settled_as r ds (worker_created c g i w s now)"
proof -
  have "settled_as r ds ((transition c g q nxt why x now)
      \<lparr>rg_deadlines := dl, rg_drivers := (rg_drivers g)(i := d)\<rparr>)"
    if "rg_drivers g i = Some (Creating q keep)" for q keep nxt why x dl d
  proof -
    note j = settled_creating [OF ok that]
    then have "settled_as r ds ((transition c g q nxt why x now)\<lparr>rg_deadlines := dl\<rparr>)"
      using ok(1) by (simp add: settled_transition)
    from settled_drivers [OF this, of i d] j show ?thesis by simp
  qed
  with ok(1) show ?thesis unfolding worker_created_def Let_def by (auto split: option.split driver.split)
qed

lemma settled_worker_failed:
  assumes ok: "settled_as r ds g" "runs_ok g"
  shows "settled_as r ds (worker_failed c g i err now)"
proof -
  have "settled_as r ds ((transition c g q nxt why x now)\<lparr>rg_drivers := (rg_drivers g)(i := None)\<rparr>)"
    if "rg_drivers g i = Some (Creating q keep)" for q keep nxt why x
  proof -
    note j = settled_creating [OF ok that]
    then have "settled_as r ds (transition c g q nxt why x now)"
      using ok(1) by (simp add: settled_transition)
    from settled_drivers [OF this, of i None] j show ?thesis by simp
  qed
  with ok(1) show ?thesis unfolding worker_failed_def Let_def by (auto split: option.split driver.split)
qed

lemma settled_deadline:
  assumes ok: "settled_as r ds g" "terminal_run (rn_state r)"
  shows "settled_as r ds (deadline_fired c g i s now)"
  using ok settled_row [of r ds "g\<lparr>rg_deadlines := filter (\<lambda>(j, _). j \<noteq> i) (rg_deadlines g)\<rparr>" i]
  by (auto simp: deadline_fired_def Let_def split: option.split)

lemma settled_step:
  assumes ok: "settled_as r ds g" "terminal_run (rn_state r)" "runs_ok g" "fresh_op g x"
  shows "settled_as r ds (run_step c g x)"
proof (cases x)
  case (DriverFailed i s err now)
  with settled_finish [OF settled_fail_run [OF ok(1,2)]] ok(1) show ?thesis
    by (auto simp: driver_failed_def split: option.split driver.split)
next
  case (StateChanged i ws s now)
  with settled_row [OF ok(1,2)] ok(1) show ?thesis by (auto simp: state_changed_def split: option.split)
next
  case (CancelRun i a now)
  with settled_cancel_row [OF ok(1,2)] ok(1) show ?thesis
    by (auto simp: cancel_run_def Let_def split: sum.split)
next
  case (RebootRuns boot now)
  have "settled_as r ds (reboot_registry g boot)"
    using ok(1) by (simp add: settled_as_def run_dispatches_def reboot_registry_def new_registry_def settled_collecting)
  moreover have "distinct (map rn_id (rg_rows (reboot_registry g boot)))"
    using ok(3) by (simp add: runs_ok_def reboot_registry_def)
  ultimately show ?thesis using settled_recover ok(2) RebootRuns by simp
qed (use ok in \<open>simp_all add: settled_worker_created settled_worker_failed settled_prompt_accepted
    settled_turn_ended settled_deadline settled_create settled_cancel_row cancel_continues_def\<close>)

lemma settled_ops:
  "settled_as r ds g \<Longrightarrow> terminal_run (rn_state r) \<Longrightarrow> runs_ok g \<Longrightarrow> fresh_ops c g ops \<Longrightarrow>
   settled_as r ds (run_ops c g ops)"
proof (induction ops arbitrary: g)
  case (Cons x xs)
  have "settled_as r ds (run_step c g x)" "runs_ok (run_step c g x)"
    using settled_step [OF Cons.prems(1,2,3)] run_step_ok Cons.prems by simp_all
  then show ?case using Cons.IH Cons.prems by simp
qed simp

text \<open>
  C25: A run that ended stays as it ended. Once the row is terminal and the background half is past its
  prompt, no further operation, of whatever client, worker or boot, changes the row's state, result or
  error (only its delivery count can grow, for the closing of its worker), and no second terminal or
  requires-action delivery is handed out for it.
\<close>

theorem settled_run_is_final:
  assumes "fresh_ops c (new_registry boot) ops0" "g = run_ops c (new_registry boot) ops0"
    and row: "get_row (rg_rows g) i = Some r" "terminal_run (rn_state r)" "settled_driver (rg_drivers g i)"
    and later: "fresh_ops c g ops"
  shows "(\<exists>n. get_row (rg_rows (run_ops c g ops)) i = Some (r\<lparr>rn_deliveries := n\<rparr>)) \<and>
    run_dispatches (run_ops c g ops) i = run_dispatches g i"
proof -
  have ok: "runs_ok g" using run_ops_ok [OF new_registry_ok assms(1)] assms(2) by simp
  have id: "rn_id r = i" using get_row_id [OF row(1)] by simp
  have "\<exists>n. r = r\<lparr>rn_deliveries := n\<rparr>" by (intro exI [of _ "rn_deliveries r"]) simp
  then have "settled_as r (run_dispatches g i) g" using row by (auto simp: settled_as_def id)
  from settled_ops [OF this row(2) ok later] show ?thesis by (auto simp: settled_as_def id)
qed

section \<open>Boot recovery\<close>

definition converge :: "string \<Rightarrow> ms \<Rightarrow> run_row \<Rightarrow> run_row" where
  "converge boot now r = (if live_elsewhere boot r then abandon boot now r else r)"

lemma put_row_map:
  "distinct (map rn_id rows) \<Longrightarrow> r \<in> set rows \<Longrightarrow> rn_id (f r) = rn_id r \<Longrightarrow>
   put_row rows (f r) = map (\<lambda>q. if rn_id q = rn_id r then f q else q) rows"
proof (induction rows)
  case (Cons q rows)
  show ?case
  proof (cases "rn_id q = rn_id r")
    case True
    then have "q = r" using Cons.prems(1,2) by (auto simp: image_iff)
    moreover have "map (\<lambda>q. if rn_id q = rn_id r then f q else q) rows = rows"
    proof (rule map_idI)
      fix x assume "x \<in> set rows"
      then have "rn_id x \<noteq> rn_id q" using Cons.prems(1) by (metis distinct.simps(2) image_eqI list.simps(9) set_map)
      with True show "(if rn_id x = rn_id r then f x else x) = x" by simp
    qed
    ultimately show ?thesis using Cons.prems(3) by simp
  next
    case False
    with Cons.prems have "r \<in> set rows" by auto
    with False Cons show ?thesis by simp
  qed
qed simp

lemma recover_fold_rows:
  assumes "distinct (map rn_id (rg_rows g))" "\<forall>r\<in>set rs. r \<in> set (rg_rows g)" "distinct (map rn_id rs)"
  shows "rg_rows (foldl (recover_one c now) g rs) =
      map (\<lambda>q. if rn_id q \<in> set (map rn_id rs) then abandon (rg_boot g) now q else q) (rg_rows g)"
    "rg_dispatched (foldl (recover_one c now) g rs) =
      rg_dispatched g @ List.maps (\<lambda>r. enqueue_abandoned c (abandon (rg_boot g) now r)) rs"
proof -
  have "rg_rows (foldl (recover_one c now) g rs) =
      map (\<lambda>q. if rn_id q \<in> set (map rn_id rs) then abandon (rg_boot g) now q else q) (rg_rows g) \<and>
    rg_dispatched (foldl (recover_one c now) g rs) =
      rg_dispatched g @ List.maps (\<lambda>r. enqueue_abandoned c (abandon (rg_boot g) now r)) rs"
    using assms
  proof (induction rs arbitrary: g)
    case (Cons r rs)
    let ?f = "abandon (rg_boot g) now" and ?h = "recover_one c now g r"
    have rows: "rg_rows ?h = map (\<lambda>q. if rn_id q = rn_id r then ?f q else q) (rg_rows g)"
      using put_row_map [of "rg_rows g" r ?f] Cons.prems by (simp add: recover_one_def Let_def)
    have h: "rg_boot ?h = rg_boot g" "rg_dispatched ?h = rg_dispatched g @ enqueue_abandoned c (?f r)"
      by (simp_all add: recover_one_def Let_def)
    have "map rn_id (rg_rows ?h) = map rn_id (rg_rows g)" unfolding rows by simp
    moreover have "\<forall>q\<in>set rs. q \<in> set (rg_rows ?h)"
      using Cons.prems(2,3) by (auto simp: rows image_iff)
    ultimately have "rg_rows (foldl (recover_one c now) ?h rs) =
        map (\<lambda>q. if rn_id q \<in> set (map rn_id rs) then ?f q else q) (rg_rows ?h) \<and>
      rg_dispatched (foldl (recover_one c now) ?h rs) =
        rg_dispatched ?h @ List.maps (\<lambda>r. enqueue_abandoned c (?f r)) rs"
      using Cons.IH [of ?h] Cons.prems(1,3) h(1) by simp
    moreover have "map (\<lambda>q. if rn_id q \<in> set (map rn_id rs) then ?f q else q) (rg_rows ?h) =
        map (\<lambda>q. if rn_id q \<in> set (map rn_id (r # rs)) then ?f q else q) (rg_rows g)"
      using Cons.prems(3) by (auto simp: rows)
    ultimately show ?case by (simp add: h)
  qed simp
  then show "rg_rows (foldl (recover_one c now) g rs) =
      map (\<lambda>q. if rn_id q \<in> set (map rn_id rs) then abandon (rg_boot g) now q else q) (rg_rows g)"
    "rg_dispatched (foldl (recover_one c now) g rs) =
      rg_dispatched g @ List.maps (\<lambda>r. enqueue_abandoned c (abandon (rg_boot g) now r)) rs" by blast+
qed

text \<open>
  A boot converges every run a dead boot left: exactly the live rows of other boots become abandoned
  and every other row is untouched, each of those runs hands out its one \<open>run.failed\<close> delivery where its
  target asked for it and there is an event to point at, nothing live of another boot remains, and running
  the recovery again abandons and sends nothing.
\<close>

theorem recovery_converges:
  assumes "distinct (map rn_id (rg_rows g))" "recover_runs c g now = (g', n)"
  shows "rg_rows g' = map (converge (rg_boot g) now) (rg_rows g) \<and>
    n = length (filter (live_elsewhere (rg_boot g)) (rg_rows g)) \<and>
    rg_dispatched g' = rg_dispatched g @ concat (map (\<lambda>r. enqueue_abandoned c (abandon (rg_boot g) now r))
      (sort_key (\<lambda>r. (rn_created r, rn_id r)) (filter (live_elsewhere (rg_boot g)) (rg_rows g)))) \<and>
    (\<forall>r\<in>set (rg_rows g'). \<not> live_elsewhere (rg_boot g') r) \<and>
    recover_runs c g' later = (g', 0)"
proof -
  let ?b = "rg_boot g" and ?stale = "live_from_other_boots (rg_rows g) (rg_boot g)"
  have g': "g' = foldl (recover_one c now) g ?stale" "n = length ?stale"
    using assms(2) by (simp_all add: recover_runs_def Let_def)
  have len: "length ?stale = length (filter (live_elsewhere (rg_boot g)) (rg_rows g))"
    by (simp add: live_from_other_boots_def)
  have "distinct (map rn_id (filter (live_elsewhere ?b) (rg_rows g)))"
    using assms(1) by (simp add: distinct_map_filter)
  then have d: "distinct (map rn_id ?stale)"
    by (simp add: live_from_other_boots_def distinct_map)
  note fold = recover_fold_rows [OF assms(1) _ d, of c now]
  have mem: "rn_id q \<in> set (map rn_id ?stale) \<longleftrightarrow> live_elsewhere ?b q" if "q \<in> set (rg_rows g)" for q
    using that assms(1) by (auto simp: live_from_other_boots_def distinct_map inj_on_def)
  have rows: "rg_rows g' = map (converge ?b now) (rg_rows g)"
    unfolding g' using fold(1) mem by (simp add: live_from_other_boots_def converge_def cong: map_cong)
  have boot: "rg_boot g' = ?b" by (simp add: g')
  have none: "\<forall>r\<in>set (rg_rows g'). \<not> live_elsewhere (rg_boot g') r"
    unfolding boot rows by (auto simp: converge_def live_elsewhere_def abandon_def)
  then have "filter (live_elsewhere (rg_boot g')) (rg_rows g') = []" by (simp add: filter_empty_conv)
  then have "recover_runs c g' later = (g', 0)" by (simp add: recover_runs_def live_from_other_boots_def)
  with rows none fold(2) g' len show ?thesis by (simp add: live_from_other_boots_def)
qed

section \<open>A worked configuration\<close>

definition toy_run_config :: run_config where
  "toy_run_config = \<lparr>rc_max_concurrent = 1, rc_max_duration = 60000, rc_webhooks = toy_webhooks,
     rc_dispatcher = True, rc_token_secrets = [(''tok'', ''k'')], rc_host = toy_host\<rparr>"

definition toy_auth :: auth where
  "toy_auth = \<lparr>au_admin = False, au_token = ''tok''\<rparr>"

definition toy_request :: run_request where
  "toy_request = \<lparr>rq_agent = ''claude'', rq_cwd = ''/w'', rq_key = Some ''once'', rq_keep_worker = True,
     rq_target = Some \<lparr>wt_url = ''https://hook.example'', wt_events = None, wt_secret = None\<rparr>\<rparr>"

abbreviation toy_start :: registry where
  "toy_start \<equiv> new_registry ''b1''"

definition toy_created :: registry where
  "toy_created = fst (create_run toy_run_config toy_start ''r1'' toy_request toy_auth 0)"

theorem retried_request_finds_the_run_witness:
  "\<exists>r. create_run toy_run_config (run_ops toy_run_config toy_created
     [WorkerCreated ''r1'' ''w1'' 4 1, RebootRuns ''b2'' 9]) ''r2'' toy_request toy_auth 10 =
   (run_ops toy_run_config toy_created [WorkerCreated ''r1'' ''w1'' 4 1, RebootRuns ''b2'' 9], Some (Inr r)) \<and>
   rn_id r = ''r1''"
proof (rule retried_request_finds_the_run [OF _ refl _ _ _ _ refl, of toy_run_config "''b1''" "[]" "''r1''"
      toy_request toy_auth 0 toy_created "''once''"])
  show "create_run toy_run_config (run_ops toy_run_config toy_start []) ''r1'' toy_request toy_auth 0 =
      (toy_created, None)"
  proof -
    have "snd (create_run toy_run_config toy_start ''r1'' toy_request toy_auth 0) = None" by code_simp
    then show ?thesis by (simp add: toy_created_def prod_eq_iff)
  qed
  show "rq_key toy_request = Some ''once''" by code_simp
  show "''r1'' \<notin> set (map rn_id (rg_rows (run_ops toy_run_config toy_start [])))" by code_simp
  show "fresh_ops toy_run_config toy_created [WorkerCreated ''r1'' ''w1'' 4 1, RebootRuns ''b2'' 9]" by code_simp
  show "check_webhook toy_run_config (rq_target toy_request) (au_token toy_auth) = None" by code_simp
qed (simp_all add: toy_request_def)

definition toy_failed :: "run_op list" where
  "toy_failed = [CreateRun ''r1'' toy_request toy_auth 0, WorkerCreated ''r1'' ''w1'' 4 1,
     PromptAccepted ''r1'' ''t'' 5 2, DriverFailed ''r1'' 6 timeout_body 3]"

definition toy_later :: "run_op list" where
  "toy_later = [CancelRun ''r1'' toy_auth 4, DeadlineFired ''r1'' 7 60000, RebootRuns ''b2'' 70000]"

theorem runs_in_flight_bounded_witness:
  "int (length (rg_live (run_ops toy_run_config toy_start [CreateRun ''r1'' toy_request toy_auth 0,
     CreateRun ''r2'' (toy_request\<lparr>rq_key := None\<rparr>) toy_auth 1]))) \<le> 1"
  using runs_in_flight_bounded [of toy_run_config "''b1''" "[CreateRun ''r1'' toy_request toy_auth 0,
     CreateRun ''r2'' (toy_request\<lparr>rq_key := None\<rparr>) toy_auth 1]"]
  by (simp add: toy_run_config_def)

theorem settled_run_is_final_witness:
  "\<exists>r. get_row (rg_rows (run_ops toy_run_config toy_start toy_failed)) ''r1'' = Some r \<and>
     (\<exists>n. get_row (rg_rows (run_ops toy_run_config (run_ops toy_run_config toy_start toy_failed) toy_later))
        ''r1'' = Some (r\<lparr>rn_deliveries := n\<rparr>))"
proof -
  let ?g = "run_ops toy_run_config toy_start toy_failed"
  have r: "case get_row (rg_rows ?g) ''r1'' of None \<Rightarrow> False | Some r \<Rightarrow> terminal_run (rn_state r)" by code_simp
  then obtain r where r: "get_row (rg_rows ?g) ''r1'' = Some r" "terminal_run (rn_state r)"
    by (auto split: option.splits)
  have d: "settled_driver (rg_drivers ?g ''r1'')" by code_simp
  have f: "fresh_ops toy_run_config toy_start toy_failed" "fresh_ops toy_run_config ?g toy_later" by code_simp+
  from settled_run_is_final [OF f(1) refl r d f(2)] r(1) show ?thesis by blast
qed

theorem recovery_converges_witness:
  "recover_runs toy_run_config (fst (recover_runs toy_run_config (reboot_registry toy_created ''b2'') 9)) 10 =
     (fst (recover_runs toy_run_config (reboot_registry toy_created ''b2'') 9), 0) \<and>
   snd (recover_runs toy_run_config (reboot_registry toy_created ''b2'') 9) = 1"
proof -
  let ?g = "reboot_registry toy_created ''b2''"
  have d: "distinct (map rn_id (rg_rows ?g))" by code_simp
  have n: "snd (recover_runs toy_run_config ?g 9) = 1" by code_simp
  from recovery_converges [OF d prod.collapse [symmetric], of toy_run_config 9 10] n show ?thesis by blast
qed

section \<open>Where the code departs from its intent\<close>

text \<open>
  A run cancelled while its prompt is on its way comes back: \<open>drive\<close> does not look at the state after the
  accepted prompt, so the run is \<open>running\<close> again, does not count against the limit, succeeds, and both a
  \<open>run.failed\<close> and a \<open>run.completed\<close> delivery are handed out.
\<close>

definition cancelled_early :: "run_op list" where
  "cancelled_early = [CreateRun ''r1'' toy_request toy_auth 0, WorkerCreated ''r1'' ''w1'' 4 1,
     CancelRun ''r1'' toy_auth 2, CancelContinues 0 (Some 5) 3]"

definition row_state :: "registry \<Rightarrow> string \<Rightarrow> run_state option" where
  "row_state g i = map_option rn_state (get_row (rg_rows g) i)"

lemma cancelled_run_comes_back:
  "row_state (run_ops toy_run_config toy_start cancelled_early) ''r1'' = Some RCancelled \<and>
   row_state (run_ops toy_run_config toy_start (cancelled_early @ [PromptAccepted ''r1'' ''t'' 6 4])) ''r1'' =
     Some RRunning \<and>
   rg_live (run_ops toy_run_config toy_start (cancelled_early @ [PromptAccepted ''r1'' ''t'' 6 4])) = [] \<and>
   row_state (run_ops toy_run_config toy_start (cancelled_early @
     [PromptAccepted ''r1'' ''t'' 6 4, TurnEnded ''r1'' sample_turn 7 timeout_body 9])) ''r1'' = Some RSucceeded \<and>
   map di_event (rg_dispatched (run_ops toy_run_config toy_start (cancelled_early @
     [PromptAccepted ''r1'' ''t'' 6 4, TurnEnded ''r1'' sample_turn 7 timeout_body 9]))) = [RunFailed, RunCompleted]"
  by code_simp

text \<open>A cancel that arrives while the worker is being created is overwritten by the captured row.\<close>

lemma cancel_while_creating_is_lost:
  "row_state (run_ops toy_run_config toy_start
     [CreateRun ''r1'' toy_request toy_auth 0, CancelRun ''r1'' toy_auth 1]) ''r1'' = Some RCancelled \<and>
   row_state (run_ops toy_run_config toy_start
     [CreateRun ''r1'' toy_request toy_auth 0, CancelRun ''r1'' toy_auth 1, WorkerCreated ''r1'' ''w1'' 4 2])
     ''r1'' = Some RStarting"
  by code_simp

text \<open>
  The cancel of a run without a worker counts a delivery that is never handed out: \<open>commit\<close> counts the
  wanted events, \<open>fire\<close> sends nothing without a worker and a position.
\<close>

lemma counted_but_not_sent:
  "(let g = run_ops toy_run_config toy_start [CreateRun ''r1'' toy_request toy_auth 0, CancelRun ''r1'' toy_auth 1]
    in map_option rn_deliveries (get_row (rg_rows g) ''r1'') = Some 1 \<and> rg_dispatched g = [])"
  by code_simp

text \<open>The memory driver keeps a cancelled run for ever: it has neither a result nor an error.\<close>

lemma cancelled_run_outlives_retention:
  "(let rows = rg_rows (run_ops toy_run_config toy_start cancelled_early)
    in sweep_runs rows 1000 = [] \<and> length (sweep_runs_memory rows 1000) = 1)"
  by code_simp

end
