(* ===== verification/Resume.thy ===== *)
theory Resume
  imports Dialects
begin

text \<open>
  Resuming an agent's session: the classifier and its deferred promotion
  (\<open>core/src/worker/resume-classify.ts\<close>) and the walk over the resume spellings
  (\<open>core/src/worker/session-open.ts\<close>, \<open>reopen\<close>). The classifier's regular expressions have no repetition,
  so they are modelled as terms with an exact matcher. The text of a fractional number in the error's data
  is a parameter.
\<close>

section \<open>Regular expressions without repetition\<close>

text \<open>All of them carry the flag \<open>i\<close>, which folds the ASCII letters; \<open>\b\<close> is a boundary of \<open>[A-Za-z0-9_]\<close>.\<close>

datatype rx = Lit string | OneOf string | Digit | Opt rx | Seq rx rx | Alt rx rx | Boundary

definition fold_case :: "char \<Rightarrow> char" where
  "fold_case c = (let n = (of_char c :: nat) in if 65 \<le> n \<and> n \<le> 90 then char_of (n + 32) else c)"

definition same_letter :: "char \<Rightarrow> char \<Rightarrow> bool" where
  "same_letter a b \<longleftrightarrow> fold_case a = fold_case b"

definition digit_char :: "char \<Rightarrow> bool" where
  "digit_char c \<longleftrightarrow> (let n = (of_char c :: nat) in 48 \<le> n \<and> n \<le> 57)"

definition word_char :: "char \<Rightarrow> bool" where
  "word_char c \<longleftrightarrow> (let n = (of_char c :: nat) in
     digit_char c \<or> 65 \<le> n \<and> n \<le> 90 \<or> 97 \<le> n \<and> n \<le> 122 \<or> n = 95)"

text \<open>A position is the character before it and the rest of the subject.\<close>

type_synonym pos = "char option \<times> string"

fun eat :: "string \<Rightarrow> pos \<Rightarrow> pos list" where
  "eat [] p = [p]"
| "eat (a # as) (prev, []) = []"
| "eat (a # as) (prev, c # cs) = (if same_letter a c then eat as (Some c, cs) else [])"

fun eat_one :: "(char \<Rightarrow> bool) \<Rightarrow> pos \<Rightarrow> pos list" where
  "eat_one P (prev, []) = []"
| "eat_one P (prev, c # cs) = (if P c then [(Some c, cs)] else [])"

definition at_boundary :: "pos \<Rightarrow> bool" where
  "at_boundary p =
     ((case fst p of None \<Rightarrow> False | Some c \<Rightarrow> word_char c) \<noteq>
      (case snd p of [] \<Rightarrow> False | c # _ \<Rightarrow> word_char c))"

fun rx_match :: "rx \<Rightarrow> pos \<Rightarrow> pos list" where
  "rx_match (Lit s) p = eat s p"
| "rx_match (OneOf cs) p = eat_one (\<lambda>c. list_ex (\<lambda>a. same_letter a c) cs) p"
| "rx_match Digit p = eat_one digit_char p"
| "rx_match (Opt r) p = rx_match r p @ [p]"
| "rx_match (Seq r s) p = concat (map (rx_match s) (rx_match r p))"
| "rx_match (Alt r s) p = rx_match r p @ rx_match s p"
| "rx_match Boundary p = (if at_boundary p then [p] else [])"

text \<open>\<open>re.test(text)\<close>: a match at some position.\<close>

fun rx_from :: "rx \<Rightarrow> char option \<Rightarrow> string \<Rightarrow> bool" where
  "rx_from r prev [] = (rx_match r (prev, []) \<noteq> [])"
| "rx_from r prev (c # cs) = (rx_match r (prev, c # cs) \<noteq> [] \<or> rx_from r (Some c) cs)"

definition rx_test :: "rx \<Rightarrow> string \<Rightarrow> bool" where
  "rx_test r s = rx_from r None s"

fun alts :: "rx list \<Rightarrow> rx" where
  "alts [] = OneOf []"
| "alts [r] = r"
| "alts (r # rs) = Alt r (alts rs)"

definition seqs :: "rx list \<Rightarrow> rx" where
  "seqs rs = foldr Seq rs (Lit [])"

section \<open>The classifier's expressions\<close>

definition permanent_codes :: "int list" where
  "permanent_codes = [-32603, -32602, -32002, -32000]"

definition permanent_text :: rx where
  "permanent_text = alts [Lit ''session not found'', Lit ''no session found'', Lit ''unknown session'']"

definition whole_word :: "rx \<Rightarrow> rx" where
  "whole_word r = seqs [Boundary, r, Boundary]"

definition rate_limited_text :: rx where
  "rate_limited_text = alts [seqs [Lit ''rate'', Opt (OneOf '' _-''), Lit ''limit''], Lit ''too many requests'',
     whole_word (Lit ''429''), Lit ''quota'', Lit ''overloaded'', Lit ''over capacity'', Lit ''throttl'']"

definition auth_text :: rx where
  "auth_text = alts [Lit ''unauthorized'', Lit ''unauthenticated'', Lit ''authentication'',
     Lit ''invalid api key'', Lit ''api key'', Lit ''credential'',
     seqs [Lit ''token '', Opt (Lit ''has ''), Lit ''expired''], Lit ''session expired'', Lit ''expired token'',
     whole_word (Lit ''401''), whole_word (Lit ''403''), Lit ''permission denied'']"

definition server_error_text :: rx where
  "server_error_text = alts [Lit ''internal server error'', Lit ''bad gateway'', Lit ''service unavailable'',
     seqs [Lit ''gateway time'', Opt (Lit ''-''), Lit ''out''], Lit ''upstream'',
     whole_word (seqs [Lit ''5'', Digit, Digit])]"

definition network_text :: rx where
  "network_text = alts [Lit ''ECONNRESET'', Lit ''ECONNREFUSED'', Lit ''ECONNABORTED'', Lit ''ETIMEDOUT'',
     Lit ''ENETUNREACH'', Lit ''EHOSTUNREACH'', Lit ''EAI_AGAIN'', Lit ''EPIPE'',
     seqs [Lit ''socket hang'', Opt (Lit '' ''), Lit ''up''],
     seqs [Lit ''network '', alts [Lit ''error'', Lit ''failure'']], Lit ''fetch failed'']"

definition transient_classes :: "(string \<times> rx) list" where
  "transient_classes = [(''rate_limited'', rate_limited_text), (''auth'', auth_text),
     (''server_error'', server_error_text), (''network'', network_text)]"

definition resource_not_found_text :: rx where
  "resource_not_found_text = Lit ''resource not found''"

section \<open>The error's text\<close>

record acp_detail =
  ad_code :: int
  ad_message :: string
  ad_data :: "json option"

text \<open>\<open>JSON.stringify\<close> of a value that came off the wire.\<close>

definition hex_digit :: "nat \<Rightarrow> char" where
  "hex_digit n = (if n < 10 then char_of (48 + n) else char_of (87 + n))"

definition quote_char :: "char \<Rightarrow> string" where
  "quote_char c =
     (let n = (of_char c :: nat) in
      if n = 34 then [CHR 0x5C, CHR 0x22]
      else if n = 92 then [CHR 0x5C, CHR 0x5C]
      else if n = 8 then CHR 0x5C # ''b''
      else if n = 9 then CHR 0x5C # ''t''
      else if n = 10 then CHR 0x5C # ''n''
      else if n = 12 then CHR 0x5C # ''f''
      else if n = 13 then CHR 0x5C # ''r''
      else if n < 32 then CHR 0x5C # ''u00'' @ [hex_digit (n div 16), hex_digit (n mod 16)]
      else [c])"

definition quote_text :: "string \<Rightarrow> string" where
  "quote_text s = CHR 0x22 # concat (map quote_char s) @ [CHR 0x22]"

fun comma_list :: "string list \<Rightarrow> string" where
  "comma_list [] = []"
| "comma_list [x] = x"
| "comma_list (x # y # xs) = x @ '','' @ comma_list (y # xs)"

fun json_text :: "(rat \<Rightarrow> string) \<Rightarrow> json \<Rightarrow> string" where
  "json_text ft JNull = ''null''"
| "json_text ft (JBool b) = (if b then ''true'' else ''false'')"
| "json_text ft (JNum n) = (case n of Fin q \<Rightarrow> num_text ft q | _ \<Rightarrow> ''null'')"
| "json_text ft (JStr s) = quote_text s"
| "json_text ft (JArr xs) = ''['' @ comma_list (map (json_text ft) xs) @ '']''"
| "json_text ft (JObj ps) = ''{'' @ comma_list (map (\<lambda>(k, v). quote_text k @ '':'' @ json_text ft v) ps) @ ''}''"

definition text_of_error :: "(rat \<Rightarrow> string) \<Rightarrow> acp_detail \<Rightarrow> string" where
  "text_of_error ft e =
     (case ad_data e of
        None \<Rightarrow> ad_message e
      | Some JNull \<Rightarrow> ad_message e
      | Some d \<Rightarrow> ad_message e @ '' '' @ json_text ft d)"

definition resource_not_found_shape :: "acp_detail \<Rightarrow> bool" where
  "resource_not_found_shape e \<longleftrightarrow>
     rx_test resource_not_found_text (ad_message e) \<or>
     (case js_record (ad_data e) of
        None \<Rightarrow> False
      | Some d \<Rightarrow> js_str (fld d ''uri'') \<noteq> None \<and> ad_code e = -32002)"

section \<open>The verdict\<close>

datatype resume_method = LoadSession | ResumeSession

datatype resume_outcome = Landed | RejectedPermanent | RejectedTransient | UnknownOutcome

datatype resume_hint =
    HintOk | CwdMismatch | HintNotFound | SilentlyCreated | RefusalNoActivity | CapabilityAbsent
  | MethodNotFound | HintTransport | HintTimeout | HintRateLimited | Unclassified

record resume_attempt =
  at_method :: "resume_method option"
  at_requested :: "string option"
  at_returned :: "string option"
  at_acp :: "acp_detail option"
  at_transport_failed :: bool
  at_timed_out :: bool
  at_replayed :: int
  at_dropped :: int
  at_advertised :: bool
  at_same_cwd :: bool
  at_silently_creates :: bool
  at_cwd_changed :: bool
  at_duration :: ms
  at_time :: ms

record verdict =
  vd_outcome :: resume_outcome
  vd_hint :: resume_hint
  vd_rule :: string
  vd_landed_on :: "string option"
  vd_history_lost :: bool

definition verdict ::
  "resume_outcome \<Rightarrow> resume_hint \<Rightarrow> string \<Rightarrow> string option \<Rightarrow> bool \<Rightarrow> verdict" where
  "verdict out hint rule landed lost = \<lparr>vd_outcome = out, vd_hint = hint, vd_rule = rule,
     vd_landed_on = landed, vd_history_lost = lost\<rparr>"

definition transient_class :: "string \<Rightarrow> string option" where
  "transient_class text = map_option fst (List.find (\<lambda>(i, r). rx_test r text) transient_classes)"

text \<open>Rules 1 to 4, for an agent that answered with an error.\<close>

definition decide_error :: "(rat \<Rightarrow> string) \<Rightarrow> bool \<Rightarrow> string \<Rightarrow> acp_detail \<Rightarrow> verdict" where
  "decide_error ft same_cwd requested e =
     (let text = text_of_error ft e in
      case transient_class text of
        Some k \<Rightarrow> verdict RejectedTransient HintRateLimited (''rule1:'' @ k) (Some requested) False
      | None \<Rightarrow>
          if ad_code e \<in> set permanent_codes \<and> rx_test permanent_text text
          then verdict RejectedPermanent HintNotFound ''rule2:session-not-found'' None True
          else if ad_code e = -32601
          then verdict UnknownOutcome MethodNotFound ''rule3:method-not-found'' (Some requested) False
          else (let mismatch = (same_cwd \<and> resource_not_found_shape e) in
                verdict UnknownOutcome (if mismatch then CwdMismatch else Unclassified)
                  (if mismatch then ''rule4:cwd-mismatch'' else ''rule4:unclassified-jsonrpc'')
                  (Some requested) False))"

definition decide_resume :: "(rat \<Rightarrow> string) \<Rightarrow> resume_attempt \<Rightarrow> verdict" where
  "decide_resume ft a =
     (if \<not> at_advertised a \<or> at_method a = None
      then verdict RejectedPermanent CapabilityAbsent ''pre0:capability-absent'' None False
      else (case at_requested a of
        None \<Rightarrow> verdict RejectedPermanent HintNotFound ''pre1:no-session-pointer'' None False
      | Some requested \<Rightarrow>
          if at_timed_out a
          then verdict UnknownOutcome HintTimeout ''rule0:timeout'' (Some requested) False
          else if at_transport_failed a
          then verdict UnknownOutcome HintTransport ''rule0:transport'' (Some requested) False
          else (case at_acp a of
            Some e \<Rightarrow> decide_error ft (at_same_cwd a) requested e
          | None \<Rightarrow>
              if at_returned a \<noteq> None \<and> at_returned a \<noteq> Some requested
              then verdict RejectedPermanent SilentlyCreated ''rule5:silently-created'' (at_returned a) True
              else if at_silently_creates a
              then verdict UnknownOutcome Unclassified ''rule6:silent-create-inconclusive'' (Some requested) False
              else verdict Landed HintOk ''rule7:landed''
                     (case at_returned a of None \<Rightarrow> Some requested | Some r \<Rightarrow> Some r) False)))"

record resume_report =
  rr_outcome :: resume_outcome
  rr_hint :: resume_hint
  rr_rule :: string
  rr_method :: "resume_method option"
  rr_requested :: "string option"
  rr_landed_on :: "string option"
  rr_history_lost :: bool
  rr_acp :: "acp_detail option"
  rr_replayed :: int
  rr_dropped :: int
  rr_duration :: ms
  rr_time :: ms

definition classify_resume :: "(rat \<Rightarrow> string) \<Rightarrow> resume_attempt \<Rightarrow> resume_report" where
  "classify_resume ft a =
     (let v = decide_resume ft a in
      \<lparr>rr_outcome = vd_outcome v, rr_hint = vd_hint v, rr_rule = vd_rule v, rr_method = at_method a,
       rr_requested = at_requested a, rr_landed_on = vd_landed_on v, rr_history_lost = vd_history_lost v,
       rr_acp = at_acp a, rr_replayed = at_replayed a, rr_dropped = at_dropped a,
       rr_duration = at_duration a, rr_time = at_time a\<rparr>)"

section \<open>The deferred promotion\<close>

record first_turn =
  ft_stop_reason :: "string option"
  ft_activity :: bool

definition promote_on_first_turn :: "resume_report \<Rightarrow> first_turn \<Rightarrow> resume_report option" where
  "promote_on_first_turn r t =
     (if rr_outcome r \<noteq> UnknownOutcome then None
      else if ft_stop_reason t \<noteq> Some ''refusal'' then None
      else if ft_activity t then None
      else Some (r\<lparr>rr_outcome := RejectedPermanent, rr_hint := RefusalNoActivity,
             rr_rule := ''rule8:refusal-no-activity'', rr_landed_on := None, rr_history_lost := True\<rparr>))"

record promotion =
  pr_report :: resume_report
  pr_spent :: bool

definition create_deferred_promotion :: "resume_report \<Rightarrow> promotion" where
  "create_deferred_promotion r = \<lparr>pr_report = r, pr_spent = False\<rparr>"

definition offer :: "promotion \<Rightarrow> first_turn \<Rightarrow> promotion \<times> resume_report option" where
  "offer p t =
     (if pr_spent p then (p, None)
      else (let p' = p\<lparr>pr_spent := True\<rparr> in
            case promote_on_first_turn (pr_report p) t of
              None \<Rightarrow> (p', None)
            | Some r \<Rightarrow> (p'\<lparr>pr_report := r\<rparr>, Some r)))"

section \<open>Reopening\<close>

text \<open>
  One spelling's raw result (\<open>sendOne\<close>), and the walk over the spellings of \<open>reopen\<close> after \<open>initialize\<close>
  succeeded: the body that answered, or the error thrown with its report.
\<close>

record raw_attempt =
  ra_session :: "string option"
  ra_acp :: "acp_detail option"
  ra_transport_failed :: bool
  ra_timed_out :: bool

record reopen_call =
  ro_session :: string
  ro_same_cwd :: bool
  ro_silently_creates :: bool
  ro_started :: ms

record answer_info =
  ai_raw :: raw_attempt
  ai_counts :: "int \<times> int"
  ai_now :: ms

definition report_for ::
  "(rat \<Rightarrow> string) \<Rightarrow> reopen_call \<Rightarrow> (resume_method \<times> raw_attempt) option \<Rightarrow> bool \<Rightarrow> int \<times> int \<Rightarrow> ms \<Rightarrow>
     resume_report" where
  "report_for ft c a advertised counts now =
     classify_resume ft
       \<lparr>at_method = map_option fst a, at_requested = Some (ro_session c),
        at_returned = Option.bind a (\<lambda>x. ra_session (snd x)),
        at_acp = Option.bind a (\<lambda>x. ra_acp (snd x)),
        at_transport_failed = (case a of None \<Rightarrow> False | Some x \<Rightarrow> ra_transport_failed (snd x)),
        at_timed_out = (case a of None \<Rightarrow> False | Some x \<Rightarrow> ra_timed_out (snd x)),
        at_replayed = fst counts, at_dropped = snd counts,
        at_advertised = advertised, at_same_cwd = ro_same_cwd c,
        at_silently_creates = ro_silently_creates c, at_cwd_changed = False,
        at_duration = now - ro_started c, at_time = now\<rparr>"

definition candidate_spellings :: "resume_method list \<Rightarrow> resume_method option \<Rightarrow> resume_method list" where
  "candidate_spellings advertised remembered =
     (case remembered of
        Some m \<Rightarrow> if m \<in> set advertised then advertised else advertised @ [m]
      | None \<Rightarrow> advertised)"

text \<open>The loop: the last report, and the spelling that answered.\<close>

fun try_spellings ::
  "(rat \<Rightarrow> string) \<Rightarrow> reopen_call \<Rightarrow> (resume_method \<Rightarrow> answer_info) \<Rightarrow> resume_method list \<Rightarrow>
     resume_report option \<Rightarrow> resume_report option \<times> resume_method option" where
  "try_spellings ft c send [] prev = (prev, None)"
| "try_spellings ft c send (m # ms) prev =
     (let r = report_for ft c (Some (m, ai_raw (send m))) True (ai_counts (send m)) (ai_now (send m)) in
      if rr_hint r = MethodNotFound then try_spellings ft c send ms (Some r)
      else (Some r, Some m))"

record reopen_error =
  re_code :: omni_code
  re_report :: "resume_report option"

record reopened =
  ok_session :: string
  ok_method :: resume_method
  ok_report :: resume_report

definition answered :: "resume_report \<Rightarrow> bool" where
  "answered r \<longleftrightarrow> rr_hint r \<noteq> HintTransport \<and> rr_hint r \<noteq> HintTimeout"

definition reopen ::
  "(rat \<Rightarrow> string) \<Rightarrow> reopen_call \<Rightarrow> resume_method list \<Rightarrow> resume_method option \<Rightarrow>
     (resume_method \<Rightarrow> answer_info) \<Rightarrow> int \<times> int \<Rightarrow> ms \<Rightarrow> reopen_error + reopened" where
  "reopen ft c advertised remembered send counts now =
     (let fail = (\<lambda>code r. Inl \<lparr>re_code = code, re_report = Some r\<rparr>);
          spellings = candidate_spellings advertised remembered
      in if spellings = [] then fail NotResumable (report_for ft c None False counts now)
         else (case try_spellings ft c send spellings None of
                 (None, _) \<Rightarrow> Inl \<lparr>re_code = Internal, re_report = None\<rparr>
               | (Some r, None) \<Rightarrow> fail NotResumable r
               | (Some r, Some m) \<Rightarrow>
                   if rr_outcome r = RejectedPermanent then fail NotResumable r
                   else if rr_outcome r = RejectedTransient then fail AgentError r
                   else if rr_outcome r = UnknownOutcome \<and> \<not> answered r
                   then fail (if rr_hint r = HintTimeout then AgentTimeout else AgentError) r
                   else Inr \<lparr>ok_session = option_or (ro_session c) (rr_landed_on r), ok_method = m,
                             ok_report = r\<rparr>))"

end
