(* ===== verification/ResumeClaims.thy ===== *)
theory ResumeClaims
  imports Resume
begin

text \<open>
  What resuming promises: a resume attempt is classified as a rejection only on evidence about the session, the recorded
  shape of a mere working-directory mismatch is never such evidence, a worker that wakes does so on its own
  session, and the deferred promotion acts at most once.
\<close>

section \<open>What a literal expression finds\<close>

definition occurs :: "string \<Rightarrow> string \<Rightarrow> bool" where
  "occurs w s \<longleftrightarrow> (\<exists>pre mid post. s = pre @ mid @ post \<and> map fold_case mid = map fold_case w)"

lemma eat_iff: "eat w (prev, s) \<noteq> [] \<longleftrightarrow> (\<exists>mid post. s = mid @ post \<and> map fold_case mid = map fold_case w)"
proof (induction w arbitrary: prev s)
  case (Cons a w)
  show ?case
  proof (cases s)
    case Nil
    then show ?thesis by simp
  next
    case s: (Cons c cs)
    have "(\<exists>mid post. s = mid @ post \<and> map fold_case mid = map fold_case (a # w)) \<longleftrightarrow>
        fold_case c = fold_case a \<and> (\<exists>mid post. cs = mid @ post \<and> map fold_case mid = map fold_case w)"
    proof
      assume "\<exists>mid post. s = mid @ post \<and> map fold_case mid = map fold_case (a # w)"
      then obtain mid post where m: "s = mid @ post" "map fold_case mid = map fold_case (a # w)" by blast
      then obtain x xs where "mid = x # xs" by (cases mid) auto
      with m s show "fold_case c = fold_case a \<and> (\<exists>mid post. cs = mid @ post \<and> map fold_case mid = map fold_case w)"
        by auto
    next
      assume "fold_case c = fold_case a \<and> (\<exists>mid post. cs = mid @ post \<and> map fold_case mid = map fold_case w)"
      then obtain mid post where "cs = mid @ post" "map fold_case mid = map fold_case w"
        "fold_case c = fold_case a" by blast
      then show "\<exists>mid post. s = mid @ post \<and> map fold_case mid = map fold_case (a # w)"
        using s by (intro exI [of _ "c # mid"] exI [of _ post]) simp
    qed
    with Cons.IH [of "Some c" cs] s show ?thesis by (auto simp: same_letter_def)
  qed
qed simp

lemma rx_from_drop: "rx_from r prev s \<longleftrightarrow> (\<exists>pre post p. s = pre @ post \<and> rx_match r (p, post) \<noteq> [] \<and>
    p = (if pre = [] then prev else Some (last pre)))"
proof (induction s arbitrary: prev)
  case (Cons c cs)
  have "(\<exists>pre post p. c # cs = pre @ post \<and> rx_match r (p, post) \<noteq> [] \<and>
      p = (if pre = [] then prev else Some (last pre))) \<longleftrightarrow>
    rx_match r (prev, c # cs) \<noteq> [] \<or>
    (\<exists>pre post p. cs = pre @ post \<and> rx_match r (p, post) \<noteq> [] \<and>
      p = (if pre = [] then Some c else Some (last pre)))" (is "?l \<longleftrightarrow> ?r")
  proof
    assume ?l
    then obtain pre post where p: "c # cs = pre @ post"
      "rx_match r (if pre = [] then prev else Some (last pre), post) \<noteq> []" by blast
    show ?r
    proof (cases pre)
      case Nil
      with p show ?thesis by simp
    next
      case (Cons x xs)
      with p show ?thesis by (intro disjI2 exI [of _ xs] exI [of _ post]) (simp split: if_splits)
    qed
  next
    assume ?r
    then show ?l
    proof (elim disjE exE conjE)
      assume "rx_match r (prev, c # cs) \<noteq> []"
      then show ?l by (intro exI [of _ "[]"] exI [of _ "c # cs"]) simp
    next
      fix pre post p
      assume "cs = pre @ post" "rx_match r (p, post) \<noteq> []" "p = (if pre = [] then Some c else Some (last pre))"
      then show ?l by (intro exI [of _ "c # pre"] exI [of _ post]) (simp split: if_splits)
    qed
  qed
  with Cons.IH [of "Some c"] show ?case by simp
qed auto

lemma rx_test_Lit: "rx_test (Lit w) s \<longleftrightarrow> occurs w s"
proof -
  have "rx_test (Lit w) s \<longleftrightarrow> (\<exists>pre post. s = pre @ post \<and>
      (\<exists>mid rest. post = mid @ rest \<and> map fold_case mid = map fold_case w))"
    unfolding rx_test_def rx_from_drop by (simp add: eat_iff)
  then show ?thesis unfolding occurs_def by auto
qed

lemma rx_test_Alt: "rx_test (Alt r q) s \<longleftrightarrow> rx_test r s \<or> rx_test q s"
  unfolding rx_test_def rx_from_drop by (simp, blast)

lemma permanent_text_occurs:
  "rx_test permanent_text s \<longleftrightarrow>
     occurs ''session not found'' s \<or> occurs ''no session found'' s \<or> occurs ''unknown session'' s"
  by (simp add: permanent_text_def rx_test_Alt rx_test_Lit)

section \<open>When an attempt is a rejection\<close>

text \<open>An error of a throttled, unauthorised, broken or unreachable agent.\<close>

definition never_rejected :: "(rat \<Rightarrow> string) \<Rightarrow> acp_detail \<Rightarrow> bool" where
  "never_rejected ft e \<longleftrightarrow> transient_class (text_of_error ft e) \<noteq> None"

definition session_is_gone :: "(rat \<Rightarrow> string) \<Rightarrow> acp_detail \<Rightarrow> bool" where
  "session_is_gone ft e \<longleftrightarrow>
     ad_code e \<in> {-32603, -32602, -32002, -32000} \<and>
     (\<exists>w\<in>{''session not found'', ''no session found'', ''unknown session''}. occurs w (text_of_error ft e)) \<and>
     \<not> never_rejected ft e"

lemma verdict_sel [simp]:
  "vd_outcome (verdict a b c d e) = a" "vd_hint (verdict a b c d e) = b" "vd_rule (verdict a b c d e) = c"
  "vd_landed_on (verdict a b c d e) = d" "vd_history_lost (verdict a b c d e) = e"
  by (simp_all add: verdict_def)

lemma decide_error_landed:
  "vd_landed_on (decide_error ft k s e) = (if session_is_gone ft e then None else Some s)"
  "vd_outcome (decide_error ft k s e) = RejectedPermanent \<longleftrightarrow> session_is_gone ft e"
  "vd_outcome (decide_error ft k s e) \<noteq> Landed"
  "vd_history_lost (decide_error ft k s e) \<longleftrightarrow> session_is_gone ft e"
  by (auto simp: decide_error_def session_is_gone_def never_rejected_def permanent_text_occurs
      permanent_codes_def Let_def split: option.splits)

text \<open>
  C27: The classification of a resume attempt rejects a session only on evidence about the session. For an
  agent that advertises resuming and a method for it, asked for a stored session \<open>s\<close>: \<open>classifyResume\<close> reports a
  permanent rejection exactly when it reports another landing place than \<open>s\<close>, and it does so exactly when there
  was neither a timeout nor a dead transport and the agent answered with another session id, or with an error
  whose code is one of four and whose text says that the session is not found, and which is not the error of a
  throttled, unauthorised, broken or unreachable agent. This is about the one function: an absent capability
  is rejected before, a first turn that is refused without activity promotes the report later (rule 8), and
  the worker gives the pointer up after too many failed wakes whatever their classification.
\<close>

theorem session_given_up_only_on_evidence:
  assumes "at_advertised a" "at_method a \<noteq> None" "at_requested a = Some s"
  shows "(rr_landed_on (classify_resume ft a) \<noteq> Some s \<longleftrightarrow>
      rr_outcome (classify_resume ft a) = RejectedPermanent) \<and>
    (rr_outcome (classify_resume ft a) = RejectedPermanent \<longleftrightarrow>
      \<not> at_timed_out a \<and> \<not> at_transport_failed a \<and>
      (case at_acp a of
         Some e \<Rightarrow> session_is_gone ft e
       | None \<Rightarrow> \<exists>t. at_returned a = Some t \<and> t \<noteq> s))"
  using assms
  by (auto simp: classify_resume_def decide_resume_def decide_error_landed Let_def split: option.splits)

text \<open>
  The negative lock: the recorded answer of a healthy session to a moved working directory,
  \<open>Resource not found: <id>\<close>, for any id without a blank.
\<close>

lemma fold_case_blank: "fold_case c = CHR '' '' \<longleftrightarrow> c = CHR '' ''"
proof -
  have "of_char (char_of (of_char c + 32 :: nat) :: char) = (of_char c + 32 :: nat)"
    if "65 \<le> (of_char c :: nat)" "(of_char c :: nat) \<le> 90"
    using that by simp
  then have "char_of (of_char c + 32 :: nat) \<noteq> CHR '' ''"
    if "65 \<le> (of_char c :: nat)" "(of_char c :: nat) \<le> 90"
    using that by fastforce
  then show ?thesis by (auto simp: fold_case_def Let_def)
qed

lemma eat_no_blank: "CHR '' '' \<notin> set s \<Longrightarrow> CHR '' '' \<in> set w \<Longrightarrow> eat w (prev, s) = []"
proof (induction w arbitrary: prev s)
  case (Cons a w)
  show ?case
  proof (cases s)
    case s: (Cons c cs)
    show ?thesis
    proof (cases "a = CHR '' ''")
      case True
      with s Cons.prems(1) have "\<not> same_letter a c"
        using fold_case_blank [of c] fold_case_blank [of a] by (auto simp: same_letter_def)
      with s show ?thesis by simp
    next
      case False
      with Cons s show ?thesis by simp
    qed
  qed simp
qed simp

lemma from_no_blank: "CHR '' '' \<notin> set s \<Longrightarrow> CHR '' '' \<in> set w \<Longrightarrow> \<not> rx_from (Lit w) prev s"
proof (induction s arbitrary: prev)
  case Nil
  then show ?case using eat_no_blank [of "[]" w prev] by simp
next
  case (Cons c cs)
  then show ?case using eat_no_blank [of "c # cs" w prev] by simp
qed

lemma from_step:
  "rx_from (Lit (a # w)) prev (c # cs) \<longleftrightarrow>
     (same_letter a c \<and> eat w (Some c, cs) \<noteq> []) \<or> rx_from (Lit (a # w)) (Some c) cs"
  by simp

lemma resource_text_not_permanent:
  assumes "CHR '' '' \<notin> set t"
  shows "\<not> rx_test permanent_text (''Resource not found: '' @ t)"
proof -
  have fold: "same_letter a c \<longleftrightarrow> fold_case a = fold_case c" for a c by (simp add: same_letter_def)
  have no: "\<not> rx_from (Lit w) p t" "eat w (p, t) = []" if "CHR '' '' \<in> set w" for w p
    using from_no_blank [OF assms that] eat_no_blank [OF assms that] by simp_all
  have "\<not> rx_test (Lit ''session not found'') (''Resource not found: '' @ t)"
    "\<not> rx_test (Lit ''no session found'') (''Resource not found: '' @ t)"
    "\<not> rx_test (Lit ''unknown session'') (''Resource not found: '' @ t)"
    unfolding rx_test_def
    by (simp_all add: no fold fold_case_def Let_def del: rx_from.simps add: from_step)
  then show ?thesis by (simp add: permanent_text_def rx_test_Alt)
qed

lemma mentions_resource: "resource_not_found_shape \<lparr>ad_code = n, ad_message = ''Resource not found: '' @ t, ad_data = d\<rparr>"
proof -
  have "occurs ''resource not found'' (''Resource not found: '' @ t)"
    unfolding occurs_def
    by (rule exI [of _ "[]"], rule exI [of _ "''Resource not found''"], rule exI [of _ "'': '' @ t"])
      (simp, code_simp)
  then show ?thesis by (simp add: resource_not_found_shape_def resource_not_found_text_def rx_test_Lit)
qed

text \<open>
  An agent that answers \<open>Resource not found: <id>\<close>, as a healthy session does when the working directory
  differs, never costs the session its pointer, whatever the code and the id (without a blank). Unless the
  message is throttling or the like, or the code says that the method is missing, a runtime that needs the
  same directory is diagnosed as a directory mismatch.
\<close>

theorem resource_not_found_keeps_the_session:
  assumes "at_advertised a" "at_method a \<noteq> None" "at_requested a = Some s"
    and error: "at_acp a = Some e" "e = \<lparr>ad_code = n, ad_message = ''Resource not found: '' @ t, ad_data = None\<rparr>"
      "CHR '' '' \<notin> set t"
  shows "rr_landed_on (classify_resume ft a) = Some s \<and>
    rr_outcome (classify_resume ft a) \<in> {RejectedTransient, UnknownOutcome} \<and>
    (at_same_cwd a \<and> n \<noteq> -32601 \<and> \<not> never_rejected ft e \<and> \<not> at_timed_out a \<and> \<not> at_transport_failed a \<longrightarrow>
      rr_hint (classify_resume ft a) = CwdMismatch)"
proof -
  have shown: "text_of_error ft e = ''Resource not found: '' @ t" using error(2) by (simp add: text_of_error_def)
  have "\<not> rx_test permanent_text (text_of_error ft e)"
    unfolding shown by (rule resource_text_not_permanent [OF error(3)])
  moreover have "resource_not_found_shape e" unfolding error(2) by (rule mentions_resource)
  moreover have "ad_code e = n" by (simp add: error(2))
  ultimately show ?thesis
    using assms(1-3) error(1)
    by (auto simp: classify_resume_def decide_resume_def decide_error_def never_rejected_def Let_def
        split: option.splits)
qed

section \<open>Waking up\<close>

lemma report_for_requested [simp]: "rr_requested (report_for ft c a adv n now) = Some (ro_session c)"
  by (simp add: report_for_def classify_resume_def Let_def)

lemma report_for_method [simp]: "rr_method (report_for ft c a adv n now) = map_option fst a"
  by (simp add: report_for_def classify_resume_def Let_def)

lemma classify_landed:
  assumes "at_requested a = Some s" "rr_outcome (classify_resume ft a) \<noteq> RejectedPermanent"
  shows "rr_landed_on (classify_resume ft a) = Some s"
  using assms by (auto simp: classify_resume_def decide_resume_def decide_error_landed Let_def split: option.splits if_splits)

lemma report_landed:
  "rr_outcome (report_for ft c a adv n now) \<noteq> RejectedPermanent \<Longrightarrow>
   rr_landed_on (report_for ft c a adv n now) = Some (ro_session c)"
  unfolding report_for_def by (rule classify_landed) simp_all

definition report_of_spelling :: "(rat \<Rightarrow> string) \<Rightarrow> reopen_call \<Rightarrow> (resume_method \<Rightarrow> answer_info) \<Rightarrow> resume_method \<Rightarrow>
    resume_report" where
  "report_of_spelling ft c send m =
     report_for ft c (Some (m, ai_raw (send m))) True (ai_counts (send m)) (ai_now (send m))"

text \<open>The spellings left when those the agent does not implement are skipped.\<close>

definition implemented :: "(rat \<Rightarrow> string) \<Rightarrow> reopen_call \<Rightarrow> (resume_method \<Rightarrow> answer_info) \<Rightarrow> resume_method list \<Rightarrow>
    resume_method list" where
  "implemented ft c send = dropWhile (\<lambda>m. rr_hint (report_of_spelling ft c send m) = MethodNotFound)"

lemma try_spellings_first:
  "(case implemented ft c send ms of
      [] \<Rightarrow> snd (try_spellings ft c send ms prev) = None \<and>
        (ms \<noteq> [] \<or> prev \<noteq> None \<longrightarrow> fst (try_spellings ft c send ms prev) \<noteq> None)
    | m # _ \<Rightarrow> try_spellings ft c send ms prev = (Some (report_of_spelling ft c send m), Some m))"
proof (induction ms arbitrary: prev)
  case (Cons m ms)
  let ?r = "report_of_spelling ft c send m"
  show ?case
  proof (cases "rr_hint ?r = MethodNotFound")
    case True
    then have "try_spellings ft c send (m # ms) prev = try_spellings ft c send ms (Some ?r)"
      "implemented ft c send (m # ms) = implemented ft c send ms"
      by (simp_all add: report_of_spelling_def implemented_def Let_def)
    with Cons.IH [of "Some ?r"] show ?thesis by (simp split: list.splits)
  next
    case False
    then have "try_spellings ft c send (m # ms) prev = (Some ?r, Some m)"
      "implemented ft c send (m # ms) = m # ms"
      by (simp_all add: report_of_spelling_def implemented_def Let_def)
    then show ?thesis by simp
  qed
qed (simp add: implemented_def)

text \<open>
  A worker that wakes does so on the session it slept with, never on another one the agent made up, and
  with the first spelling the agent implements; its report keeps the pointer. A wake fails for good
  (\<open>not_resumable\<close>) exactly when the agent implements none of the candidate spellings or the first one it
  implements rejects the session for good; every other failure leaves the pointer in force.
\<close>

theorem wakes_on_its_own_session:
  "(\<forall>k. reopen ft c advertised remembered send counts now = Inr k \<longrightarrow>
      ok_session k = ro_session c \<and> rr_landed_on (ok_report k) = Some (ro_session c) \<and>
      rr_outcome (ok_report k) \<in> {Landed, UnknownOutcome} \<and>
      ok_report k = report_of_spelling ft c send (ok_method k) \<and>
      (\<exists>ms. implemented ft c send (candidate_spellings advertised remembered) = ok_method k # ms)) \<and>
   (\<forall>e. reopen ft c advertised remembered send counts now = Inl e \<longrightarrow>
      (re_code e = NotResumable \<longleftrightarrow>
        (case implemented ft c send (candidate_spellings advertised remembered) of
           [] \<Rightarrow> True
         | m # _ \<Rightarrow> rr_outcome (report_of_spelling ft c send m) = RejectedPermanent)) \<and>
      (re_code e \<noteq> NotResumable \<longrightarrow>
        (\<exists>r. re_report e = Some r \<and> rr_landed_on r = Some (ro_session c))))"
proof -
  let ?ms = "candidate_spellings advertised remembered"
  note first = try_spellings_first [where ms = ?ms and prev = None and ft = ft and c = c and send = send]
  show ?thesis
  proof (cases "implemented ft c send ?ms")
    case Nil
    then obtain r where "?ms = [] \<or> try_spellings ft c send ?ms None = (Some r, None)"
      using first by (cases "try_spellings ft c send ?ms None") auto
    with Nil show ?thesis by (auto simp: reopen_def Let_def)
  next
    case (Cons m rest)
    let ?r = "report_of_spelling ft c send m"
    have "?ms \<noteq> []" "try_spellings ft c send ?ms None = (Some ?r, Some m)"
      using first Cons by (auto simp: implemented_def)
    then have reopen: "reopen ft c advertised remembered send counts now =
        (if rr_outcome ?r = RejectedPermanent then Inl \<lparr>re_code = NotResumable, re_report = Some ?r\<rparr>
         else if rr_outcome ?r = RejectedTransient then Inl \<lparr>re_code = AgentError, re_report = Some ?r\<rparr>
         else if rr_outcome ?r = UnknownOutcome \<and> \<not> answered ?r
         then Inl \<lparr>re_code = (if rr_hint ?r = HintTimeout then AgentTimeout else AgentError), re_report = Some ?r\<rparr>
         else Inr \<lparr>ok_session = option_or (ro_session c) (rr_landed_on ?r), ok_method = m, ok_report = ?r\<rparr>)"
      by (simp add: reopen_def Let_def)
    have landed: "rr_outcome ?r \<noteq> RejectedPermanent \<Longrightarrow> rr_landed_on ?r = Some (ro_session c)"
      unfolding report_of_spelling_def by (rule report_landed)
    show ?thesis
      using landed by (cases "rr_outcome ?r") (auto simp: reopen Cons)
  qed
qed

section \<open>The deferred promotion\<close>

fun offers :: "promotion \<Rightarrow> first_turn list \<Rightarrow> promotion \<times> resume_report option list" where
  "offers p [] = (p, [])"
| "offers p (t # ts) = (let (p', out) = offer p t; (p'', outs) = offers p' ts in (p'', out # outs))"

lemma offers_spent: "pr_spent p \<Longrightarrow> offers p ts = (p, replicate (length ts) None)"
  by (induction ts) (auto simp: offer_def)

text \<open>
  The deferred promotion acts at most once, on the first turn after the wake and on no later one; it
  never overturns a verdict other than \<open>unknown\<close>, and it gives the pointer up only when that first turn was
  a refusal without any output.
\<close>

theorem promotion_acts_on_first_turn_only:
  assumes "offers (create_deferred_promotion r) (t # ts) = (p, outs)"
  shows "outs = promote_on_first_turn r t # replicate (length ts) None \<and>
    pr_report p = option_or r (promote_on_first_turn r t) \<and>
    (rr_outcome r \<noteq> UnknownOutcome \<longrightarrow> pr_report p = r) \<and>
    (rr_landed_on (pr_report p) \<noteq> rr_landed_on r \<longrightarrow> ft_stop_reason t = Some ''refusal'' \<and> \<not> ft_activity t)"
proof -
  obtain q out where step: "offer (create_deferred_promotion r) t = (q, out)" by fastforce
  then have q: "pr_spent q" "out = promote_on_first_turn r t" "pr_report q = option_or r (promote_on_first_turn r t)"
    by (auto simp: offer_def create_deferred_promotion_def Let_def split: option.splits dest: sym)
  with assms step have "p = q" "outs = out # replicate (length ts) None" by (auto simp: offers_spent)
  with q show ?thesis by (auto simp: promote_on_first_turn_def)
qed

section \<open>Sample wakes\<close>

definition refused :: "int \<Rightarrow> string \<Rightarrow> answer_info" where
  "refused n m = \<lparr>ai_raw = \<lparr>ra_session = None, ra_acp = Some \<lparr>ad_code = n, ad_message = m, ad_data = None\<rparr>,
     ra_transport_failed = False, ra_timed_out = False\<rparr>, ai_counts = (0, 0), ai_now = 5\<rparr>"

definition sample_call :: reopen_call where
  "sample_call = \<lparr>ro_session = ''s1'', ro_same_cwd = True, ro_silently_creates = False, ro_started = 0\<rparr>"

definition sample_agent :: "resume_method \<Rightarrow> answer_info" where
  "sample_agent m = (case m of LoadSession \<Rightarrow> refused (-32601) ''no such method''
     | ResumeSession \<Rightarrow> \<lparr>ai_raw = \<lparr>ra_session = Some ''s1'', ra_acp = None, ra_transport_failed = False,
         ra_timed_out = False\<rparr>, ai_counts = (3, 0), ai_now = 9\<rparr>)"

definition sample_attempt :: "acp_detail \<Rightarrow> resume_attempt" where
  "sample_attempt e = \<lparr>at_method = Some LoadSession, at_requested = Some ''s1'', at_returned = None,
     at_acp = Some e, at_transport_failed = False, at_timed_out = False, at_replayed = 0, at_dropped = 0,
     at_advertised = True, at_same_cwd = True, at_silently_creates = False, at_cwd_changed = False,
     at_duration = 5, at_time = 5\<rparr>"

theorem session_given_up_only_on_evidence_witness:
  "rr_landed_on (classify_resume (\<lambda>_. '''')
     (sample_attempt \<lparr>ad_code = -32603, ad_message = ''Session not found'', ad_data = None\<rparr>)) \<noteq> Some ''s1''"
proof -
  let ?e = "\<lparr>ad_code = -32603, ad_message = ''Session not found'', ad_data = None\<rparr> :: acp_detail"
  have "rr_outcome (classify_resume (\<lambda>_. '''') (sample_attempt ?e)) = RejectedPermanent" by code_simp
  with session_given_up_only_on_evidence [of "sample_attempt ?e" "''s1''" "\<lambda>_. ''''"] show ?thesis
    by (simp add: sample_attempt_def)
qed

theorem resource_not_found_keeps_the_session_witness:
  "rr_landed_on (classify_resume (\<lambda>_. '''')
     (sample_attempt \<lparr>ad_code = -32002, ad_message = ''Resource not found: s1'', ad_data = None\<rparr>)) = Some ''s1''"
  using resource_not_found_keeps_the_session [of "sample_attempt \<lparr>ad_code = -32002,
    ad_message = ''Resource not found: s1'', ad_data = None\<rparr>" "''s1''" _ "-32002" "''s1''" "\<lambda>_. ''''", OF _ _ _ _ refl]
  by (simp add: sample_attempt_def)

theorem wakes_on_its_own_session_witness:
  "\<exists>k. reopen (\<lambda>_. '''') sample_call [LoadSession, ResumeSession] None sample_agent (0, 0) 1 = Inr k \<and>
     ok_session k = ''s1''"
proof -
  have "case reopen (\<lambda>_. '''') sample_call [LoadSession, ResumeSession] None sample_agent (0, 0) 1 of
      Inl _ \<Rightarrow> False | Inr _ \<Rightarrow> True" by code_simp
  then obtain k where "reopen (\<lambda>_. '''') sample_call [LoadSession, ResumeSession] None sample_agent (0, 0) 1 = Inr k"
    by (auto split: sum.splits)
  with wakes_on_its_own_session [of "\<lambda>_. ''''" sample_call "[LoadSession, ResumeSession]" None sample_agent "(0, 0)" 1]
  show ?thesis by (auto simp: sample_call_def)
qed

theorem promotion_acts_on_first_turn_only_witness:
  "pr_report (fst (offers (create_deferred_promotion (report_for (\<lambda>_. '''') sample_call None False (0, 0) 1))
     [\<lparr>ft_stop_reason = Some ''refusal'', ft_activity = False\<rparr>, \<lparr>ft_stop_reason = None, ft_activity = True\<rparr>])) =
   report_for (\<lambda>_. '''') sample_call None False (0, 0) 1"
proof -
  let ?r = "report_for (\<lambda>_. '''') sample_call None False (0, 0) 1"
  let ?t = "\<lparr>ft_stop_reason = Some ''refusal'', ft_activity = False\<rparr> :: first_turn"
  let ?u = "\<lparr>ft_stop_reason = None, ft_activity = True\<rparr> :: first_turn"
  have "rr_outcome ?r \<noteq> UnknownOutcome" by code_simp
  with promotion_acts_on_first_turn_only [OF prod.collapse [symmetric], of ?r ?t "[?u]"] show ?thesis by blast
qed

end
