(* ===== verification/Worker.thy ===== *)
theory Worker
  imports TurnLifecycle Resume Watchdog
begin

text \<open>
  The worker's state machine: \<open>core/src/worker/worker.ts\<close>. The code is asynchronous: every operation
  runs without interruption up to an \<open>await\<close>, leaves the rest of itself behind, and goes on when the
  awaited promise settles. The model keeps the same shape. A worker is the record of the object's
  fields, the trace of everything it did to the outside (envelopes, requests to the agent, signals to
  its process, answers to callers) and the list of activities that wait; \<open>worker_step\<close> runs one
  uninterrupted stretch of code: a call, a timer, a signal of the process, or the continuation of one
  waiting activity with what it waited for. Every interleaving is a list of inputs. A chain of
  promises with nothing but already settled promises between two statements is one stretch.

  The turn reducer is the model of \<open>turn-lifecycle.ts\<close>; the lease, the session strategy, the
  interaction strategy, the supervisor, the diff provider and the credential store are injected and
  answer through the inputs.
\<close>

section \<open>State\<close>

type_synonym call = nat

record worker_error =
  we_body :: error_body
  we_report :: "resume_report option"

abbreviation we_code :: "worker_error \<Rightarrow> omni_code" where
  "we_code e \<equiv> err_code (we_body e)"

definition omni_error :: "omni_code \<Rightarrow> string \<Rightarrow> error_body" where
  "omni_error code message =
     \<lparr>err_code = code, err_message = message, err_acp = None, err_stderr_tail = None\<rparr>"

datatype credential_applied = Immediate | Deferred | OnNextStart | RestartedNow

datatype worker_reply =
    TurnAccepted string seq
  | CallDone
  | RestartedAs int "string option"
  | ClosedAs worker_reason bool bool bool
  | CredentialSet credential_applied int
  | CallFailed omni_code

text \<open>What the worker does to the outside, in order.\<close>

datatype act =
    Logged event_input
  | SentPrompt string
  | SentCancel string
  | SentSessionClose string
  | SpawnAsked
  | OpenAsked
  | ReopenAsked string
  | StdinClosed nat
  | TerminateAsked nat bool
  | LinkShut nat
  | LeasePinned
  | LeaseUnpinned
  | LeaseReleased
  | SettleAsked string
  | SeamsDisposed
  | Watched watchdog_signal
  | PatchBegun
  | PatchEndAsked bool
  | PatchAbandoned
  | RelinkAsked string
  | Replied call worker_reply

record restart_body =
  rb_force :: bool
  rb_fresh :: bool
  rb_resume :: bool
  rb_reason :: "string option"
  rb_credential :: "string option"

record restart_job =
  rj_body :: restart_body
  rj_live :: bool
  rj_fresh :: bool
  rj_slept :: bool
  rj_turn :: "string option"

record close_job =
  cj_reason :: worker_reason
  cj_error :: "error_body option"
  cj_tail :: string
  cj_exit :: "(int option \<times> string option) option"
  cj_force :: bool
  cj_session_closed :: bool

datatype apply_mode = ApplyAuto | ApplyRestart | ApplyDefer

record credential_job =
  cr_call :: call
  cr_name :: string
  cr_mode :: apply_mode
  cr_live :: bool

text \<open>The promises several callers share, and what follows when one of them settles.\<close>

datatype promise = PWake | PRestart | PHibernate | PClose

datatype cont =
    ReplyTo call
  | ThenPrompt call
  | ThenThrowWake omni_code
  | ThenThrowStart call omni_code
  | ThenCredential credential_job
  | ThenDrained
  | Forget

datatype ladder_user = LdHibernate | LdRestart restart_job | LdCancel | LdClose close_job
datatype reclaim_user =
    RcHibernate | RcRestart restart_job | RcWake worker_error | RcRestartFailed worker_error | RcCrash
datatype open_user = OpStart call | OpWake string | OpRestart restart_job

text \<open>Where an activity waits.\<close>

datatype pc =
    Awaiting promise cont
  | Continues cont worker_reply
  | LadderWait ladder_user
  | LadderOver ladder_user
  | LadderSkipped ladder_user
  | Reclaiming reclaim_user "nat option"
  | Spawning open_user
  | Opening open_user
  | Validating call string
  | DriveBegin string
  | DriveRequest string bool
  | DriveEnding string "json option" bool
  | CancelSettling cont "string option"
  | CancelNotifying cont "string option"
  | HibSettling
  | RestartSettling restart_job
  | RestartRelinking restart_job
  | CrashSettling error_body string
  | CredRelinking credential_job
  | CloseSettling close_job
  | ClosingSession close_job
  | CloseTerminating close_job

record worker_config =
  wc_lifecycle :: lifecycle_config
  wc_turn_id :: "nat \<Rightarrow> string"
  wc_strategy :: bool
  wc_interactions :: bool
  wc_diff :: bool
  wc_diff_timeout :: ms
  wc_watchdog :: bool
  wc_alert :: "string list"
  wc_reload_restart :: "bool option"
  wc_max_wake_failures :: int
  wc_cancel_grace :: ms
  wc_exit_grace :: ms
  wc_close_out :: ms
  wc_report_json :: "resume_report \<Rightarrow> json"
  wc_credential_json :: "string \<Rightarrow> credential_applied \<Rightarrow> int \<Rightarrow> json"

text \<open>
  \<open>wk_proc\<close> and \<open>wk_link\<close> name the process by its number; \<open>wk_method\<close> and \<open>wk_can_close\<close> are the two
  facts of the capability snapshot this file reads; a timer is the instant it is due.
\<close>

record worker =
  wk_now :: ms
  wk_state :: worker_state
  wk_emitted :: "worker_state option"
  wk_session :: "string option"
  wk_method :: "resume_method option"
  wk_can_close :: bool
  wk_turn :: "string option"
  wk_turns :: nat
  wk_close_reason :: "worker_reason option"
  wk_generation :: int
  wk_crashed :: bool
  wk_hibernated_at :: "ms option"
  wk_wake_count :: int
  wk_wake_failures :: int
  wk_report :: "resume_report option"
  wk_replay :: int
  wk_parked :: "string list"
  wk_blinded :: bool
  wk_wrote :: bool
  wk_norm :: normalizer
  wk_proc :: "nat option"
  wk_procs :: nat
  wk_link :: "nat option"
  wk_link_closed :: bool
  wk_agent_gone :: bool
  wk_ladder :: bool
  wk_pin :: bool
  wk_tick :: "ms option"
  wk_cancel :: "(ms \<times> string option) option"
  wk_exit_grace :: "ms option"
  wk_backstop :: "ms option"
  wk_closing :: bool
  wk_closed_as :: "worker_reply option"
  wk_hibernating :: bool
  wk_hib_promise :: bool
  wk_waking :: bool
  wk_restarting :: bool
  wk_stale :: bool
  wk_pending_restart :: bool
  wk_trace :: "act list"
  wk_pcs :: "pc list"

definition new_worker :: worker where
  "new_worker =
     \<lparr>wk_now = 0, wk_state = Starting, wk_emitted = None, wk_session = None, wk_method = None,
      wk_can_close = False, wk_turn = None, wk_turns = 0, wk_close_reason = None, wk_generation = 0,
      wk_crashed = False, wk_hibernated_at = None, wk_wake_count = 0, wk_wake_failures = 0,
      wk_report = None, wk_replay = 0, wk_parked = [], wk_blinded = False, wk_wrote = False,
      wk_norm = new_normalizer, wk_proc = None, wk_procs = 0, wk_link = None,
      wk_link_closed = False, wk_agent_gone = False, wk_ladder = False, wk_pin = False,
      wk_tick = None, wk_cancel = None, wk_exit_grace = None, wk_backstop = None,
      wk_closing = False, wk_closed_as = None, wk_hibernating = False, wk_hib_promise = False,
      wk_waking = False, wk_restarting = False, wk_stale = False, wk_pending_restart = False,
      wk_trace = [], wk_pcs = []\<rparr>"

text \<open>The second construction: a handle over a persisted row, with no process.\<close>

record worker_row =
  wr_state :: worker_state
  wr_session :: "string option"
  wr_method :: "resume_method option"
  wr_can_close :: bool
  wr_turn :: "string option"
  wr_close_reason :: "worker_reason option"
  wr_generation :: int
  wr_crashed :: bool
  wr_hibernated_at :: "ms option"
  wr_wake_count :: int
  wr_wake_failures :: int
  wr_report :: "resume_report option"
  wr_stale :: bool
  wr_closed_as :: "worker_reply option"

definition restored_state :: "worker_state \<Rightarrow> worker_state" where
  "restored_state s = (if s = RequiresAction then Ready else s)"

definition pessimistic_close :: "worker_reason option \<Rightarrow> worker_reply" where
  "pessimistic_close reason = ClosedAs (option_or Orphaned reason) False False False"

definition restored_worker :: "worker_row \<Rightarrow> worker" where
  "restored_worker r =
     (let w = new_worker\<lparr>wk_state := restored_state (wr_state r), wk_emitted := Some (wr_state r),
            wk_session := wr_session r, wk_method := wr_method r, wk_can_close := wr_can_close r,
            wk_turn := wr_turn r, wk_close_reason := wr_close_reason r,
            wk_generation := wr_generation r, wk_crashed := wr_crashed r,
            wk_hibernated_at := wr_hibernated_at r, wk_wake_count := wr_wake_count r,
            wk_wake_failures := wr_wake_failures r, wk_report := wr_report r, wk_stale := wr_stale r\<rparr>
      in if wk_state w \<noteq> Closed then w
         else w\<lparr>wk_closing := True,
                wk_closed_as := Some (option_or (pessimistic_close (wr_close_reason r)) (wr_closed_as r))\<rparr>)"

section \<open>Primitives\<close>

definition emit :: "act \<Rightarrow> worker \<Rightarrow> worker" where
  "emit a w = w\<lparr>wk_trace := wk_trace w @ [a]\<rparr>"

definition spawn :: "pc \<Rightarrow> worker \<Rightarrow> worker" where
  "spawn p w = w\<lparr>wk_pcs := wk_pcs w @ [p]\<rparr>"

fun logged :: "act \<Rightarrow> event_input option" where
  "logged (Logged e) = Some e"
| "logged _ = None"

definition worker_log :: "worker \<Rightarrow> event_input list" where
  "worker_log w = List.map_filter logged (wk_trace w)"

definition log_all :: "event_input list \<Rightarrow> worker \<Rightarrow> worker" where
  "log_all es w = w\<lparr>wk_trace := wk_trace w @ map Logged es\<rparr>"

definition log_head :: "worker \<Rightarrow> seq" where
  "log_head w = int (length (worker_log w))"

definition watch :: "worker_config \<Rightarrow> (ms \<Rightarrow> watchdog_signal) \<Rightarrow> worker \<Rightarrow> worker" where
  "watch c signal w = (if wc_watchdog c then emit (Watched (signal (wk_now w))) w else w)"

definition unpin_lease :: "worker \<Rightarrow> worker" where
  "unpin_lease w = (if wk_pin w then emit LeaseUnpinned (w\<lparr>wk_pin := False\<rparr>) else w)"

definition settle_interactions :: "worker_config \<Rightarrow> string \<Rightarrow> worker \<Rightarrow> worker" where
  "settle_interactions c reason w = (if wc_interactions c then emit (SettleAsked reason) w else w)"

text \<open>What \<open>#settleInteractions\<close> does once the strategy has settled everything.\<close>

definition settled_interactions :: "worker_config \<Rightarrow> worker \<Rightarrow> worker" where
  "settled_interactions c w = (if wc_interactions c then w\<lparr>wk_parked := []\<rparr> else w)"

definition clear_timers :: "worker \<Rightarrow> worker" where
  "clear_timers w = w\<lparr>wk_tick := None, wk_cancel := None, wk_exit_grace := None\<rparr>"

definition settle_promise :: "promise \<Rightarrow> worker_reply \<Rightarrow> worker \<Rightarrow> worker" where
  "settle_promise p r w =
     w\<lparr>wk_pcs := map (\<lambda>q. case q of Awaiting p' k \<Rightarrow> if p' = p then Continues k r else q | _ \<Rightarrow> q)
                   (wk_pcs w)\<rparr>"

text \<open>\<open>#closeWith\<close>: the first caller's reason wins and everyone shares its run.\<close>

definition close_for :: "worker_reason \<Rightarrow> error_body option \<Rightarrow> bool \<Rightarrow> close_job" where
  "close_for reason err force =
     \<lparr>cj_reason = reason, cj_error = err, cj_tail = '''', cj_exit = None, cj_force = force,
      cj_session_closed = False\<rparr>"

definition close_with :: "worker_config \<Rightarrow> close_job \<Rightarrow> cont \<Rightarrow> worker \<Rightarrow> worker" where
  "close_with c j k w =
     (case wk_closed_as w of
        Some r \<Rightarrow> spawn (Continues k r) w
      | None \<Rightarrow>
          spawn (Awaiting PClose k)
            (if wk_closing w then w
             else spawn (CloseSettling j) (settle_interactions c ''close'' (w\<lparr>wk_closing := True\<rparr>))))"

text \<open>\<open>#restartWith\<close> up to its first \<open>await\<close>: admission, then \<open>#doRestart\<close>'s first line.\<close>

definition live_turn :: "worker \<Rightarrow> bool" where
  "live_turn w \<longleftrightarrow> wk_state w = Running \<or> wk_state w = RequiresAction"

definition restart_refusal :: "restart_body \<Rightarrow> worker \<Rightarrow> omni_code option" where
  "restart_refusal b w =
     (if wk_state w = Closed then Some WorkerClosed
      else if wk_state w = Starting \<or> wk_hibernating w then Some WorkerBusy
      else if live_turn w \<and> \<not> rb_force b then Some WorkerBusy
      else if rb_resume b \<and> \<not> rb_fresh b \<and> (wk_method w = None \<or> wk_session w = None)
      then Some NotResumable else None)"

definition restart_with :: "worker_config \<Rightarrow> restart_body \<Rightarrow> cont \<Rightarrow> worker \<Rightarrow> worker" where
  "restart_with c b k w =
     (if wk_restarting w then spawn (Awaiting PRestart k) w
      else case restart_refusal b w of
        Some code \<Rightarrow> spawn (Continues k (CallFailed code)) w
      | None \<Rightarrow>
          spawn (Awaiting PRestart k)
            (spawn (RestartSettling
                \<lparr>rj_body = b, rj_live = live_turn w, rj_fresh = rb_fresh b,
                 rj_slept = (wk_state w = Hibernated),
                 rj_turn = (if live_turn w then wk_turn w else None)\<rparr>)
              (settle_interactions c ''cancel'' (w\<lparr>wk_restarting := True\<rparr>))))"

definition deferred_restart :: restart_body where
  "deferred_restart =
     \<lparr>rb_force = False, rb_fresh = False, rb_resume = True,
      rb_reason = Some ''deferred credential swap'', rb_credential = None\<rparr>"

definition drain_pending_restart :: "worker_config \<Rightarrow> worker \<Rightarrow> worker" where
  "drain_pending_restart c w =
     (if wk_pending_restart w
      then restart_with c deferred_restart ThenDrained (w\<lparr>wk_pending_restart := False\<rparr>) else w)"

section \<open>\<open>#setState\<close>\<close>

definition bare_payload :: "worker_state \<Rightarrow> worker_state option \<Rightarrow> worker_reason \<Rightarrow> worker_state_payload" where
  "bare_payload nxt prev reason =
     \<lparr>ws_state = nxt, ws_previous = prev, ws_reason = reason, ws_exit = None, ws_leader_exited = None,
      ws_tree_gone = None, ws_error = None, ws_resume = None, ws_orphan = None, ws_crashed = None,
      ws_generation = None, ws_watchdog = None, ws_interactions = None\<rparr>"

definition state_event ::
  "worker_state \<Rightarrow> worker_reason \<Rightarrow> string option \<Rightarrow> (worker_state_payload \<Rightarrow> worker_state_payload) \<Rightarrow>
     worker \<Rightarrow> event_input" where
  "state_event nxt reason turn extra w =
     \<lparr>in_body = WorkerStateEv (extra (bare_payload nxt (wk_emitted w) reason)), in_version = 2,
      in_turn = turn, in_replay = False\<rparr>"

definition set_state ::
  "worker_config \<Rightarrow> worker_state \<Rightarrow> worker_reason \<Rightarrow> string option \<Rightarrow>
     (worker_state_payload \<Rightarrow> worker_state_payload) \<Rightarrow> worker \<Rightarrow> worker" where
  "set_state c nxt reason turn extra w =
     (let w1 = emit (Logged (state_event nxt reason turn extra w))
                 (w\<lparr>wk_state := nxt, wk_emitted := Some nxt\<rparr>)
      in if nxt = Ready \<and> \<not> wk_restarting w1 then drain_pending_restart c w1 else w1)"

text \<open>The rows every M1 transition carries: the generation, and \<open>crashed\<close> only when it is true.\<close>

definition with_generation :: "worker \<Rightarrow> worker_state_payload \<Rightarrow> worker_state_payload" where
  "with_generation w p =
     p\<lparr>ws_generation := Some (wk_generation w),
       ws_crashed := (if wk_crashed w then Some True else None)\<rparr>"

definition with_report ::
  "worker_config \<Rightarrow> resume_report option \<Rightarrow> worker_state_payload \<Rightarrow> worker_state_payload" where
  "with_report c r p = p\<lparr>ws_resume := map_option (wc_report_json c) r\<rparr>"

section \<open>One step of the reducer\<close>

text \<open>\<open>isRunningStateUpdate\<close> and \<open>wroteFiles\<close>.\<close>

definition is_running_update :: "event_input \<Rightarrow> bool" where
  "is_running_update e =
     (case in_body e of
        SessionUpdate p \<Rightarrow>
          fld p ''sessionUpdate'' = Some (JStr ''state_update'') \<and> fld p ''state'' = Some (JStr ''running'')
      | _ \<Rightarrow> False)"

definition wrote_files :: "json \<Rightarrow> bool" where
  "wrote_files p =
     (let kind = js_str (fld p ''sessionUpdate'') in
      if kind \<noteq> Some ''tool_call'' \<and> kind \<noteq> Some ''tool_call_update'' then False
      else if list_ex (\<lambda>k. js_str (fld p ''kind'') = Some k) [''edit'', ''delete'', ''move''] then True
      else case js_arr (fld p ''content'') of
          None \<Rightarrow> False
        | Some cs \<Rightarrow> list_ex (\<lambda>c. fld c ''type'' = Some (JStr ''diff'')) cs)"

definition observe_event :: "worker \<Rightarrow> event_input \<Rightarrow> worker" where
  "observe_event w e =
     (case in_body e of
        PolicyDecision d \<Rightarrow> if pd_blinds_policy d then w\<lparr>wk_blinded := True\<rparr> else w
      | SessionUpdate p \<Rightarrow> if wrote_files p then w\<lparr>wk_wrote := True\<rparr> else w
      | _ \<Rightarrow> w)"

definition reschedule_tick :: "ms option \<Rightarrow> worker \<Rightarrow> worker" where
  "reschedule_tick due w = w\<lparr>wk_tick := map_option (max (wk_now w)) due\<rparr>"

text \<open>\<open>#perform\<close>: the rung the reducer hands out.\<close>

definition perform :: "worker_config \<Rightarrow> close_out_action option \<Rightarrow> worker \<Rightarrow> worker" where
  "perform c action w =
     (case action of
        None \<Rightarrow> w
      | Some ActDrain \<Rightarrow> w
      | Some ActCloseStdin \<Rightarrow> (case wk_proc w of None \<Rightarrow> w | Some p \<Rightarrow> emit (StdinClosed p) w)
      | Some ActCancel \<Rightarrow>
          (case wk_session w of
             Some s \<Rightarrow> if wk_link w \<noteq> None \<and> \<not> wk_link_closed w then emit (SentCancel s) w else w
           | None \<Rightarrow> w)
      | Some ActTerminate \<Rightarrow> close_with c (close_for CancelTimeout None True) Forget w)"

definition release_ladder :: "worker \<Rightarrow> worker" where
  "release_ladder w =
     w\<lparr>wk_pcs := map (\<lambda>q. case q of LadderWait u \<Rightarrow> LadderOver u | _ \<Rightarrow> q) (wk_pcs w)\<rparr>"

definition after_step :: "worker_config \<Rightarrow> turn_output \<Rightarrow> worker \<Rightarrow> worker" where
  "after_step c out w0 =
     (let w = perform c (out_action out) w0 in
      if out_settled out = None then w
      else
       (let w1 = watch c TurnEnd (unpin_lease
                   ((release_ladder w)\<lparr>wk_cancel := None, wk_turn := None\<rparr>))
        in if wk_state w1 = Running \<and> \<not> wk_closing w1 \<and> \<not> wk_hibernating w1
           then set_state c Ready TurnEndReason (wk_turn w) id w1 else w1))"

text \<open>\<open>#stepOut\<close>: step, append, observe, reschedule, settle. \<open>None\<close> is a step that raised.\<close>

definition norm_step ::
  "worker_config \<Rightarrow> turn_input \<Rightarrow> worker \<Rightarrow> (worker \<times> turn_output) option" where
  "norm_step c i w =
     (case step_turn_lifecycle (wc_lifecycle c) (wk_norm w) i of
        Inl _ \<Rightarrow> None
      | Inr (n, out) \<Rightarrow>
          (let w1 = foldl observe_event (log_all (out_emit out) (w\<lparr>wk_norm := n\<rparr>)) (out_emit out)
           in Some (after_step c out (reschedule_tick (out_tick out) w1), out)))"

definition feed_worker :: "worker_config \<Rightarrow> turn_input \<Rightarrow> worker \<Rightarrow> worker" where
  "feed_worker c i w = (case norm_step c i w of None \<Rightarrow> w | Some (w', _) \<Rightarrow> w')"

section \<open>The close-out ladder, and giving the process back\<close>

definition run_close_out :: "worker_config \<Rightarrow> ladder_user \<Rightarrow> worker \<Rightarrow> worker" where
  "run_close_out c u w =
     (if wk_ladder w \<or> wk_proc w = None \<or> wk_agent_gone w then spawn (LadderSkipped u) w
      else case norm_step c (CloseRequested (wk_now w)) (w\<lparr>wk_ladder := True\<rparr>) of
        None \<Rightarrow> spawn (LadderSkipped u) w
      | Some (w1, out) \<Rightarrow>
          if out_settled out \<noteq> None \<or> (out_action out = None \<and> out_tick out = None)
          then spawn (LadderSkipped u) (w1\<lparr>wk_ladder := False\<rparr>)
          else spawn (LadderWait u) (w1\<lparr>wk_backstop := Some (wk_now w + wc_close_out c)\<rparr>))"

definition reclaim_process :: "bool \<Rightarrow> reclaim_user \<Rightarrow> worker \<Rightarrow> worker" where
  "reclaim_process force u w =
     (let w1 = w\<lparr>wk_proc := None, wk_link := None, wk_link_closed := False, wk_agent_gone := False\<rparr>;
          w2 = (case wk_proc w of
             None \<Rightarrow> w1
           | Some p \<Rightarrow> emit (TerminateAsked p force) (if force then w1 else emit (StdinClosed p) w1))
      in spawn (Reclaiming u (wk_link w)) w2)"

definition shut_link :: "nat option \<Rightarrow> worker \<Rightarrow> worker" where
  "shut_link l w = (case l of None \<Rightarrow> w | Some n \<Rightarrow> emit (LinkShut n) w)"

definition open_process :: "open_user \<Rightarrow> worker \<Rightarrow> worker" where
  "open_process u w = spawn (Spawning u) (emit SpawnAsked w)"

section \<open>Close\<close>

definition death_reason :: "worker_reason \<Rightarrow> bool" where
  "death_reason r \<longleftrightarrow> r = AgentCrashed \<or> r = AgentExited \<or> r = ProtocolError"

definition is_error_event :: "event_input \<Rightarrow> bool" where
  "is_error_event e = (case in_body e of ErrorEv _ \<Rightarrow> True | _ \<Rightarrow> False)"

definition append_close_error ::
  "worker_config \<Rightarrow> error_body \<Rightarrow> string \<Rightarrow> worker_reason \<Rightarrow> worker \<Rightarrow> worker" where
  "append_close_error c body tail reason w =
     (let stepped = (if wk_turn w \<noteq> None \<and> death_reason reason
                     then norm_step c (ProcessGone body tail (wk_now w)) w else None);
          w1 = (case stepped of None \<Rightarrow> w | Some (w', _) \<Rightarrow> w');
          said = (case stepped of None \<Rightarrow> False | Some (_, out) \<Rightarrow> list_ex is_error_event (out_emit out))
      in if said then w1
         else emit (Logged (error_event (wk_turn w1) body (if tail = '''' then None else Some tail))) w1)"

definition close_terminate :: "close_job \<Rightarrow> bool \<Rightarrow> bool \<Rightarrow> (int option \<times> string option) option \<Rightarrow>
    worker_config \<Rightarrow> worker \<Rightarrow> worker" where
  "close_terminate j killed_leader killed_tree killed_exit c w =
     (let w1 = shut_link (wk_link w) w;
          ex = or_else (cj_exit j) killed_exit;
          leader = (wk_proc w = None \<or> killed_leader);
          tree = (wk_proc w = None \<or> killed_tree);
          w2 = set_state c Closed (cj_reason j) None
                 (\<lambda>p. p\<lparr>ws_exit := ex, ws_leader_exited := Some leader, ws_tree_gone := Some tree,
                        ws_error := cj_error j\<rparr>) (w1\<lparr>wk_turn := None\<rparr>);
          r = ClosedAs (cj_reason j) leader tree (cj_session_closed j)
      in settle_promise PClose r (w2\<lparr>wk_closed_as := Some r\<rparr>))"

definition close_kill :: "worker_config \<Rightarrow> close_job \<Rightarrow> worker \<Rightarrow> worker" where
  "close_kill c j w =
     (case wk_proc w of
        None \<Rightarrow> close_terminate j False False None c w
      | Some p \<Rightarrow> spawn (CloseTerminating j) (emit (TerminateAsked p (cj_force j)) w))"

definition close_ladder :: "worker_config \<Rightarrow> close_job \<Rightarrow> worker \<Rightarrow> worker" where
  "close_ladder c j w = (if cj_force j then close_kill c j w else run_close_out c (LdClose j) w)"

definition close_settled :: "worker_config \<Rightarrow> close_job \<Rightarrow> worker \<Rightarrow> worker" where
  "close_settled c j w0 =
     (let w1 = emit SeamsDisposed (clear_timers (unpin_lease
                 ((settled_interactions c w0)\<lparr>wk_close_reason := Some (cj_reason j)\<rparr>)));
          w2 = (case cj_error j of None \<Rightarrow> w1
                | Some b \<Rightarrow> append_close_error c b (cj_tail j) (cj_reason j) w1)
      in case wk_session w2 of
           Some s \<Rightarrow>
             if wk_can_close w2 \<and> wk_link w2 \<noteq> None \<and> \<not> wk_link_closed w2 \<and> \<not> death_reason (cj_reason j)
             then spawn (ClosingSession j) (emit (SentSessionClose s) w2)
             else close_ladder c j w2
         | None \<Rightarrow> close_ladder c j w2)"

section \<open>Park, cancel, prompt\<close>

definition park_worker :: "worker_config \<Rightarrow> string \<Rightarrow> worker \<Rightarrow> worker" where
  "park_worker c x w =
     (let w1 = w\<lparr>wk_parked := set_add x (wk_parked w)\<rparr>
      in if wk_parked w = [] \<and> wk_state w = Running
         then set_state c RequiresAction InteractionParked (wk_turn w)
                (\<lambda>p. p\<lparr>ws_interactions := Some (wk_parked w1)\<rparr>) (watch c ParkedSignal w1)
         else w1)"

definition unpark_worker :: "worker_config \<Rightarrow> string \<Rightarrow> worker \<Rightarrow> worker" where
  "unpark_worker c x w =
     (if x \<notin> set (wk_parked w) then w
      else
       (let w1 = w\<lparr>wk_parked := set_delete x (wk_parked w)\<rparr>
        in if wk_parked w1 \<noteq> [] \<or> wk_state w1 \<noteq> RequiresAction then w1
           else set_state c Running InteractionResolved (wk_turn w)
                  (\<lambda>p. p\<lparr>ws_interactions := Some []\<rparr>) (watch c UnparkedSignal w1)))"

definition answer_call :: "cont \<Rightarrow> worker_reply \<Rightarrow> worker \<Rightarrow> worker" where
  "answer_call k r w = (case k of ReplyTo x \<Rightarrow> emit (Replied x r) w | _ \<Rightarrow> spawn (Continues k r) w)"

definition cancel_worker :: "worker_config \<Rightarrow> cont \<Rightarrow> worker \<Rightarrow> worker" where
  "cancel_worker c k w =
     (if wk_state w = Closed then answer_call k (CallFailed WorkerClosed) w
      else if \<not> live_turn w \<or> wk_link w = None \<or> wk_session w = None then answer_call k CallDone w
      else spawn (CancelSettling k (wk_turn w)) (settle_interactions c ''cancel'' w))"

definition send_prompt :: "string \<Rightarrow> bool \<Rightarrow> worker \<Rightarrow> worker" where
  "send_prompt turn patch w = spawn (DriveRequest turn patch) (emit (SentPrompt turn) w)"

definition drive_prompt :: "worker_config \<Rightarrow> string \<Rightarrow> worker \<Rightarrow> worker" where
  "drive_prompt c turn w =
     (if wc_diff c then spawn (DriveBegin turn) (emit PatchBegun w) else send_prompt turn False w)"

text \<open>The check-and-set: nothing waits between reading \<open>ready\<close> and writing \<open>running\<close>.\<close>

definition admit_prompt :: "worker_config \<Rightarrow> call \<Rightarrow> worker \<Rightarrow> worker" where
  "admit_prompt c x w =
     (if wk_state w = Closed then emit (Replied x (CallFailed WorkerClosed)) w
      else if wk_state w \<noteq> Ready \<or> wk_hibernating w \<or> wk_restarting w
      then emit (Replied x (CallFailed WorkerBusy)) w
      else if wk_link w = None \<or> wk_session w = None then emit (Replied x (CallFailed Internal)) w
      else
       (let turn = wc_turn_id c (wk_turns w)
        in spawn (Validating x turn) (emit LeasePinned
             (w\<lparr>wk_turns := Suc (wk_turns w), wk_state := Running, wk_turn := Some turn,
                wk_wrote := False, wk_pin := True\<rparr>))))"

definition roll_back :: "call \<Rightarrow> omni_code \<Rightarrow> worker \<Rightarrow> worker" where
  "roll_back x code w =
     emit (Replied x (CallFailed code)) (unpin_lease (w\<lparr>wk_state := Ready, wk_turn := None\<rparr>))"

fun index_of :: "('a \<Rightarrow> bool) \<Rightarrow> 'a list \<Rightarrow> nat option" where
  "index_of P [] = None"
| "index_of P (x # xs) = (if P x then Some 0 else map_option Suc (index_of P xs))"

definition begin_turn :: "worker_config \<Rightarrow> call \<Rightarrow> string \<Rightarrow> worker \<Rightarrow> worker" where
  "begin_turn c x turn w =
     (case norm_step c (PromptSent turn (wk_now w)) w of
        None \<Rightarrow> roll_back x Internal w
      | Some (w1, out) \<Rightarrow>
          (case index_of is_running_update (out_emit out) of
             None \<Rightarrow> roll_back x Internal w1
           | Some i \<Rightarrow>
               emit (Replied x (TurnAccepted turn (log_head w + int i + 1)))
                 (drive_prompt c turn (watch c TurnStart
                   (set_state c Running PromptReason (Some turn) id w1)))))"

section \<open>Wake\<close>

definition do_wake :: "worker_config \<Rightarrow> worker \<Rightarrow> worker" where
  "do_wake c w =
     (case wk_session w of
        Some s \<Rightarrow>
          if wc_strategy c then
            open_process (OpWake s) (set_state c Starting Wake None
              (\<lambda>p. p\<lparr>ws_generation := Some (wk_generation w)\<rparr>)
              (w\<lparr>wk_wake_count := wk_wake_count w + 1\<rparr>))
          else close_with c (close_for NotResumableReason
                 (Some (omni_error NotResumable ''no session pointer to resume'')) True)
                 (ThenThrowWake NotResumable) w
      | None \<Rightarrow> close_with c (close_for NotResumableReason
                 (Some (omni_error NotResumable ''no session pointer to resume'')) True)
                 (ThenThrowWake NotResumable) w)"

definition wake_worker :: "worker_config \<Rightarrow> cont \<Rightarrow> worker \<Rightarrow> worker" where
  "wake_worker c k w =
     (if wk_waking w then spawn (Awaiting PWake k) w
      else if wk_state w = Closed then spawn (Continues k (CallFailed WorkerClosed)) w
      else if wk_state w = Ready \<or> wk_state w = Running then spawn (Continues k CallDone) w
      else if wk_state w \<noteq> Hibernated then spawn (Continues k (CallFailed WorkerBusy)) w
      else spawn (Awaiting PWake k) (do_wake c (w\<lparr>wk_state := Starting, wk_waking := True\<rparr>)))"

definition end_wake :: "worker_reply \<Rightarrow> worker \<Rightarrow> worker" where
  "end_wake r w = settle_promise PWake r (w\<lparr>wk_waking := False\<rparr>)"

definition note_report :: "resume_report option \<Rightarrow> worker \<Rightarrow> worker" where
  "note_report r w = (case r of None \<Rightarrow> w | Some x \<Rightarrow> w\<lparr>wk_report := Some x\<rparr>)"

text \<open>\<open>starting -> hibernated\<close>: the pointer is kept, the failure counted.\<close>

definition retry_later :: "worker_config \<Rightarrow> worker_error \<Rightarrow> worker \<Rightarrow> worker" where
  "retry_later c e w =
     set_state c Hibernated WakeRetry None
       (\<lambda>p. with_report c (we_report e) (with_generation w p)\<lparr>ws_error := Some (we_body e)\<rparr>)
       (w\<lparr>wk_hibernated_at := Some (wk_now w)\<rparr>)"

text \<open>\<open>#wakeFailed\<close> after the process is reclaimed.\<close>

definition wake_failed :: "worker_config \<Rightarrow> worker_error \<Rightarrow> worker \<Rightarrow> worker" where
  "wake_failed c e w0 =
     (let w = note_report (we_report e) w0 in
      if we_code e = NotResumable
      then close_with c (close_for NotResumableReason (Some (we_body e)) True)
             (ThenThrowWake NotResumable) (w\<lparr>wk_session := None\<rparr>)
      else
       (let w1 = w\<lparr>wk_wake_failures := wk_wake_failures w + 1\<rparr> in
        if wc_max_wake_failures c \<le> wk_wake_failures w1
        then close_with c (close_for WakeFailed
               (Some (omni_error NotResumable ''abandoned its session pointer after consecutive failed wakes''))
               True) (ThenThrowWake NotResumable) (w1\<lparr>wk_session := None\<rparr>)
        else end_wake (CallFailed (we_code e)) (retry_later c e w1)))"

section \<open>Hibernate, crash\<close>

definition hibernate_refusal :: "worker_config \<Rightarrow> worker \<Rightarrow> omni_code option" where
  "hibernate_refusal c w =
     (if wk_state w = Closed then Some WorkerClosed
      else if wk_closing w \<or> wk_state w \<noteq> Ready then Some WorkerBusy
      else if \<not> wc_strategy c \<or> wk_session w = None \<or> wk_method w = None then Some NotResumable
      else None)"

definition hibernate_worker :: "worker_config \<Rightarrow> cont \<Rightarrow> worker \<Rightarrow> worker" where
  "hibernate_worker c k w =
     (if wk_hib_promise w then spawn (Awaiting PHibernate k) w
      else if wk_state w = Hibernated then spawn (Continues k CallDone) w
      else case hibernate_refusal c w of
        Some code \<Rightarrow> spawn (Continues k (CallFailed code)) w
      | None \<Rightarrow> spawn (Awaiting PHibernate k) (spawn HibSettling
          (settle_interactions c ''hibernate'' (w\<lparr>wk_hibernating := True, wk_hib_promise := True\<rparr>))))"

definition hibernated :: "worker_config \<Rightarrow> worker \<Rightarrow> worker" where
  "hibernated c w =
     (let w1 = set_state c Hibernated HibernateReason None (with_generation w)
                 ((emit LeaseReleased w)\<lparr>wk_hibernated_at := Some (wk_now w)\<rparr>)
      in settle_promise PHibernate CallDone (w1\<lparr>wk_hib_promise := False, wk_hibernating := False\<rparr>))"

definition may_hibernate_after_crash :: "worker_config \<Rightarrow> worker \<Rightarrow> bool" where
  "may_hibernate_after_crash c w \<longleftrightarrow>
     \<not> wk_closing w \<and> \<not> wk_hibernating w \<and> (wk_state w = Ready \<or> wk_state w = Running) \<and>
     wk_session w \<noteq> None \<and> wc_strategy c \<and> wk_method w \<noteq> None"

text \<open>
  An exit is its code and its signal; \<open>requested\<close> says whether the daemon asked for it. \<open>None\<close> is the
  transport that ended while the process did not exit in time.
\<close>

definition exit_error :: "(int option \<times> string option) option \<Rightarrow> error_body" where
  "exit_error ex =
     omni_error AgentError
       (if ex = None then ''the agent transport ended and the process did not exit within exitGraceMs''
        else ''the agent process exited'')"

definition crashed_hibernation :: "worker_config \<Rightarrow> error_body \<Rightarrow> string \<Rightarrow> worker \<Rightarrow> worker" where
  "crashed_hibernation c err tail w =
     spawn (CrashSettling err tail)
       (settle_interactions c ''hibernate'' (clear_timers (w\<lparr>wk_hibernating := True\<rparr>)))"

definition classify_and_close ::
  "worker_config \<Rightarrow> (int option \<times> string option) option \<Rightarrow> bool \<Rightarrow> string \<Rightarrow> worker \<Rightarrow> worker" where
  "classify_and_close c ex requested tail w0 =
     (let clean = (requested \<and> (case ex of Some (Some code, _) \<Rightarrow> code = 0 | _ \<Rightarrow> False));
          reason = (if clean then AgentExited else AgentCrashed);
          w = (if clean then w0 else w0\<lparr>wk_crashed := True\<rparr>);
          err = exit_error ex
      in if \<not> clean \<and> may_hibernate_after_crash c w then crashed_hibernation c err tail w
         else close_with c ((close_for reason (Some err) True)\<lparr>cj_tail := tail, cj_exit := ex\<rparr>)
                Forget w)"

definition crash_settled :: "worker_config \<Rightarrow> error_body \<Rightarrow> string \<Rightarrow> worker \<Rightarrow> worker" where
  "crash_settled c err tail w0 =
     (let w1 = append_close_error c err tail AgentCrashed
                 (emit SeamsDisposed (settled_interactions c w0))
      in reclaim_process True RcCrash (unpin_lease (w1\<lparr>wk_turn := None\<rparr>)))"

definition crash_reclaimed :: "worker_config \<Rightarrow> worker \<Rightarrow> worker" where
  "crash_reclaimed c w =
     (let w1 = set_state c Hibernated AgentCrashed None
                 (\<lambda>p. p\<lparr>ws_generation := Some (wk_generation w), ws_crashed := Some True\<rparr>)
                 ((emit LeaseReleased w)\<lparr>wk_hibernated_at := Some (wk_now w)\<rparr>)
      in w1\<lparr>wk_hibernating := False\<rparr>)"

section \<open>Restart\<close>

definition restart_error :: "restart_body \<Rightarrow> error_body" where
  "restart_error b =
     omni_error Restarted
       (''the worker was restarted while this turn was running'' @
        (case rb_reason b of None \<Rightarrow> '''' | Some r \<Rightarrow> '': '' @ r))"

definition end_restart :: "worker_reply \<Rightarrow> worker \<Rightarrow> worker" where
  "end_restart r w = settle_promise PRestart r (w\<lparr>wk_restarting := False\<rparr>)"

definition after_reclaim :: "worker_config \<Rightarrow> restart_job \<Rightarrow> worker \<Rightarrow> worker" where
  "after_reclaim c j w =
     (case rb_credential (rj_body j) of
        Some name \<Rightarrow>
          if wc_reload_restart c = None then end_restart (CallFailed BadRequest) w
          else spawn (RestartRelinking j) (emit (RelinkAsked name) w)
      | None \<Rightarrow> open_process (OpRestart j) w)"

definition restart_settled :: "worker_config \<Rightarrow> restart_job \<Rightarrow> worker \<Rightarrow> worker" where
  "restart_settled c j w0 =
     (let w1 = unpin_lease ((emit SeamsDisposed (clear_timers (settled_interactions c w0)))\<lparr>wk_turn := None\<rparr>);
          w2 = set_state c Starting Restart (rj_turn j)
                 (\<lambda>p. (with_generation w1 p)\<lparr>ws_error :=
                        (if rj_turn j = None then None else Some (restart_error (rj_body j)))\<rparr>)
                 (w1\<lparr>wk_state := Starting\<rparr>)
      in if rj_slept j then after_reclaim c j w2
         else if rj_live j then reclaim_process True (RcRestart j) w2
         else run_close_out c (LdRestart j) w2)"

definition restart_failed :: "worker_config \<Rightarrow> worker_error \<Rightarrow> worker \<Rightarrow> worker" where
  "restart_failed c e w0 =
     (let w = note_report (we_report e) w0
      in end_restart (CallFailed (we_code e))
           (retry_later c e (w\<lparr>wk_wake_failures := wk_wake_failures w + 1\<rparr>)))"

definition no_pointer_error :: worker_error where
  "no_pointer_error =
     \<lparr>we_body = omni_error NotResumable ''no session pointer to resume'', we_report = None\<rparr>"

text \<open>\<open>#openFreshSession\<close> or \<open>#reopenSession\<close>, once the process is there.\<close>

definition restart_opened :: "restart_job \<Rightarrow> worker \<Rightarrow> worker" where
  "restart_opened j w =
     (if rj_fresh j then spawn (Opening (OpRestart j)) (emit OpenAsked w)
      else case wk_session w of
        Some s \<Rightarrow> spawn (Opening (OpRestart j)) (emit (ReopenAsked s) (w\<lparr>wk_replay := wk_replay w + 1\<rparr>))
      | None \<Rightarrow> reclaim_process True (RcRestartFailed no_pointer_error) w)"

section \<open>What a session opens with\<close>

record opened_session =
  os_session :: string
  os_method :: "resume_method option"
  os_can_close :: bool
  os_report :: "resume_report option"

definition adopt_session :: "opened_session \<Rightarrow> worker \<Rightarrow> worker" where
  "adopt_session s w =
     w\<lparr>wk_session := Some (os_session s), wk_method := os_method s, wk_can_close := os_can_close s\<rparr>"

definition restart_ready :: "worker_config \<Rightarrow> restart_job \<Rightarrow> opened_session \<Rightarrow> worker \<Rightarrow> worker" where
  "restart_ready c j s w0 =
     (let w = (adopt_session s w0)\<lparr>wk_report := (if rj_fresh j then None else os_report s),
                 wk_generation := wk_generation w0 + 1, wk_wake_failures := 0,
                 wk_hibernated_at := None, wk_stale := False\<rparr>;
          w1 = set_state c Ready (if rj_fresh j then HandshakeOk else Resumed) None
                 (\<lambda>p. with_report c (wk_report w) (with_generation w p)) w
      in end_restart (RestartedAs (wk_generation w1) (rj_turn j)) w1)"

definition wake_ready :: "worker_config \<Rightarrow> opened_session \<Rightarrow> worker \<Rightarrow> worker" where
  "wake_ready c s w0 =
     (let w = (adopt_session s w0)\<lparr>wk_report := os_report s, wk_generation := wk_generation w0 + 1,
                 wk_wake_failures := 0, wk_hibernated_at := None\<rparr>
      in end_wake CallDone (set_state c Ready Resumed None
           (\<lambda>p. with_report c (os_report s) (with_generation w p)) w))"

definition start_ready :: "worker_config \<Rightarrow> call \<Rightarrow> opened_session \<Rightarrow> worker \<Rightarrow> worker" where
  "start_ready c x s w =
     emit (Replied x CallDone)
       (set_state c Ready HandshakeOk None id
         ((adopt_session s w)\<lparr>wk_generation := wk_generation w + 1\<rparr>))"

definition start_failed :: "worker_config \<Rightarrow> call \<Rightarrow> worker_reason \<Rightarrow> bool \<Rightarrow> worker_error \<Rightarrow> worker \<Rightarrow> worker" where
  "start_failed c x reason force e w =
     close_with c (close_for reason (Some (we_body e)) force) (ThenThrowStart x (we_code e)) w"

definition handshake_reason :: "worker_error \<Rightarrow> worker_reason" where
  "handshake_reason e = (if we_code e = AgentTimeout then HandshakeTimeout else HandshakeError)"

section \<open>Credentials\<close>

definition credential_event :: "worker_config \<Rightarrow> string \<Rightarrow> credential_applied \<Rightarrow> worker \<Rightarrow> worker" where
  "credential_event c name applied w =
     emit (Logged \<lparr>in_body = CredentialEv (wc_credential_json c name applied (wk_generation w)),
                   in_version = 2, in_turn = wk_turn w, in_replay = False\<rparr>) w"

definition credential_done ::
  "worker_config \<Rightarrow> credential_job \<Rightarrow> credential_applied \<Rightarrow> worker \<Rightarrow> worker" where
  "credential_done c j applied w =
     emit (Replied (cr_call j) (CredentialSet applied (wk_generation w)))
       (credential_event c (cr_name j) applied w)"

definition set_credential ::
  "worker_config \<Rightarrow> call \<Rightarrow> string \<Rightarrow> apply_mode \<Rightarrow> worker \<Rightarrow> worker" where
  "set_credential c x name mode w =
     (if wk_state w = Closed then emit (Replied x (CallFailed WorkerClosed)) w
      else if wc_reload_restart c = None then emit (Replied x (CallFailed BadRequest)) w
      else if mode = ApplyRestart \<and> live_turn w then emit (Replied x (CallFailed WorkerBusy)) w
      else spawn (CredRelinking \<lparr>cr_call = x, cr_name = name, cr_mode = mode, cr_live = live_turn w\<rparr>)
             (emit (RelinkAsked name) w))"

definition credential_restart :: "string \<Rightarrow> restart_body" where
  "credential_restart name =
     \<lparr>rb_force = False, rb_fresh = False, rb_resume = True, rb_reason = Some (''credential '' @ name),
      rb_credential = None\<rparr>"

definition credential_linked :: "worker_config \<Rightarrow> credential_job \<Rightarrow> worker \<Rightarrow> worker" where
  "credential_linked c j w =
     (if cr_mode j = ApplyDefer
      then credential_done c j Deferred (w\<lparr>wk_stale := (wc_reload_restart c = Some True)\<rparr>)
      else if wc_reload_restart c = Some False \<and> cr_mode j = ApplyAuto
      then credential_done c j Immediate (w\<lparr>wk_stale := False\<rparr>)
      else if cr_live j
      then credential_done c j OnNextStart (w\<lparr>wk_stale := True, wk_pending_restart := True\<rparr>)
      else restart_with c (credential_restart (cr_name j)) (ThenCredential j) (w\<lparr>wk_stale := True\<rparr>))"

section \<open>The turn's own activity\<close>

definition policy_meta :: "worker_config \<Rightarrow> obj" where
  "policy_meta c =
     (if wc_alert c = [] then []
      else [(''omni/policy'', JObj [(''alertOnUnpoliced'', JArr (map JStr (wc_alert c)))])])"

text \<open>An answer that is not for the worker's current turn, or for a worker that closes, is dropped.\<close>

definition stale_turn :: "string \<Rightarrow> worker \<Rightarrow> bool" where
  "stale_turn turn w \<longleftrightarrow> wk_turn w \<noteq> Some turn \<or> wk_closing w"

definition abandon_patch :: "bool \<Rightarrow> worker \<Rightarrow> worker" where
  "abandon_patch patch w = (if patch then emit PatchAbandoned w else w)"

definition prompt_answered ::
  "worker_config \<Rightarrow> string \<Rightarrow> bool \<Rightarrow> string \<Rightarrow> json option \<Rightarrow> worker \<Rightarrow> worker" where
  "prompt_answered c turn patch stop usage w =
     (if stale_turn turn w then abandon_patch patch w
      else spawn (DriveEnding stop usage patch)
             (if patch then emit (PatchEndAsked (wk_wrote w)) w else w))"

text \<open>What \<open>#endPatch\<close> answers when the provider does not within \<open>diff.timeoutMs\<close>.\<close>

definition timed_out_patch :: "worker_config \<Rightarrow> json" where
  "timed_out_patch c =
     JObj [(''text'', JNull), (''source'', JNull), (''truncated'', JBool False),
       (''quality'', JStr ''unavailable''),
       (''warnings'', JArr [JObj [(''code'', JStr ''patch_timeout''),
          (''message'', JStr (''the diff provider did not answer within '' @
             decimal (nat (wc_diff_timeout c)) @ ''ms'')), (''source'', JStr ''patch'')]])]"

definition patch_ended :: "worker_config \<Rightarrow> string \<Rightarrow> json option \<Rightarrow> obj \<Rightarrow> worker \<Rightarrow> worker" where
  "patch_ended c stop usage patch w =
     (let meta = policy_meta c @ patch
      in feed_worker c (PromptResult stop usage (wk_now w) (if meta = [] then None else Some meta)) w)"

text \<open>
  A rejection with a JSON-RPC code ends the turn with that error. One without a code on a dead
  transport is left to the signals of the process.
\<close>

definition prompt_refused ::
  "worker_config \<Rightarrow> string \<Rightarrow> bool \<Rightarrow> bool \<Rightarrow> error_body \<Rightarrow> worker \<Rightarrow> worker" where
  "prompt_refused c turn patch rpc err w0 =
     (let w = abandon_patch patch w0 in
      if stale_turn turn w0 then w
      else if \<not> rpc \<and> (wk_link_closed w \<or> wk_agent_gone w) then w
      else feed_worker c (PromptError err (wk_now w)) w)"

section \<open>Continuations\<close>

text \<open>What a waiting activity is resumed with.\<close>

datatype outcome =
    Fine
  | GotSession opened_session
  | GotAnswer string "json option"
  | GotPatch json
  | GotKill "(int option \<times> string option) option" bool bool
  | Wrong bool worker_error

fun run_cont :: "worker_config \<Rightarrow> cont \<Rightarrow> worker_reply \<Rightarrow> worker \<Rightarrow> worker" where
  "run_cont c (ReplyTo x) r w = emit (Replied x r) w"
| "run_cont c (ThenPrompt x) r w =
     (case r of CallFailed code \<Rightarrow> emit (Replied x r) w | _ \<Rightarrow> admit_prompt c x w)"
| "run_cont c (ThenThrowWake code) r w = end_wake (CallFailed code) w"
| "run_cont c (ThenThrowStart x code) r w = emit (Replied x (CallFailed code)) w"
| "run_cont c (ThenCredential j) r w =
     (case r of CallFailed code \<Rightarrow> emit (Replied (cr_call j) r) w
      | _ \<Rightarrow> credential_done c j RestartedNow (w\<lparr>wk_stale := False\<rparr>))"
| "run_cont c ThenDrained r w = (case r of CallFailed code \<Rightarrow> w | _ \<Rightarrow> w\<lparr>wk_stale := False\<rparr>)"
| "run_cont c Forget r w = w"

fun run_ladder_user :: "worker_config \<Rightarrow> ladder_user \<Rightarrow> worker \<Rightarrow> worker" where
  "run_ladder_user c LdHibernate w = reclaim_process False RcHibernate w"
| "run_ladder_user c (LdRestart j) w = reclaim_process False (RcRestart j) w"
| "run_ladder_user c LdCancel w =
     close_with c (close_for CancelTimeout
       (Some (omni_error AgentTimeout ''the agent did not answer session/cancel'')) True) Forget w"
| "run_ladder_user c (LdClose j) w = close_kill c j w"

fun run_reclaimed :: "worker_config \<Rightarrow> reclaim_user \<Rightarrow> worker \<Rightarrow> worker" where
  "run_reclaimed c RcHibernate w = hibernated c w"
| "run_reclaimed c (RcRestart j) w = after_reclaim c j w"
| "run_reclaimed c (RcWake e) w = wake_failed c e w"
| "run_reclaimed c (RcRestartFailed e) w = restart_failed c e w"
| "run_reclaimed c RcCrash w = crash_reclaimed c w"

definition got_process :: "worker \<Rightarrow> worker" where
  "got_process w =
     w\<lparr>wk_proc := Some (wk_procs w), wk_link := Some (wk_procs w), wk_procs := Suc (wk_procs w),
       wk_link_closed := False, wk_agent_gone := False\<rparr>"

fun run_spawned :: "worker_config \<Rightarrow> open_user \<Rightarrow> worker \<Rightarrow> worker" where
  "run_spawned c (OpStart x) w = spawn (Opening (OpStart x)) (emit OpenAsked w)"
| "run_spawned c (OpWake s) w =
     spawn (Opening (OpWake s)) (emit (ReopenAsked s) (w\<lparr>wk_replay := wk_replay w + 1\<rparr>))"
| "run_spawned c (OpRestart j) w = restart_opened j w"

fun run_spawn_failed :: "worker_config \<Rightarrow> open_user \<Rightarrow> worker_error \<Rightarrow> worker \<Rightarrow> worker" where
  "run_spawn_failed c (OpStart x) e w = start_failed c x SpawnFailed False e w"
| "run_spawn_failed c (OpWake s) e w = reclaim_process True (RcWake e) w"
| "run_spawn_failed c (OpRestart j) e w = reclaim_process True (RcRestartFailed e) w"

definition close_replay :: "open_user \<Rightarrow> worker \<Rightarrow> worker" where
  "close_replay u w =
     (case u of OpStart _ \<Rightarrow> w
      | OpWake _ \<Rightarrow> w\<lparr>wk_replay := wk_replay w - 1\<rparr>
      | OpRestart j \<Rightarrow> if rj_fresh j then w else w\<lparr>wk_replay := wk_replay w - 1\<rparr>)"

fun run_opened :: "worker_config \<Rightarrow> open_user \<Rightarrow> opened_session \<Rightarrow> worker \<Rightarrow> worker" where
  "run_opened c (OpStart x) s w = start_ready c x s w"
| "run_opened c (OpWake _) s w = wake_ready c s w"
| "run_opened c (OpRestart j) s w = restart_ready c j s w"

fun run_open_failed :: "worker_config \<Rightarrow> open_user \<Rightarrow> worker_error \<Rightarrow> worker \<Rightarrow> worker" where
  "run_open_failed c (OpStart x) e w = start_failed c x (handshake_reason e) True e w"
| "run_open_failed c (OpWake _) e w = reclaim_process True (RcWake e) w"
| "run_open_failed c (OpRestart j) e w = reclaim_process True (RcRestartFailed e) w"

text \<open>
  One waiting activity goes on. A result of a kind the activity does not wait for, and a promise that
  has not settled, resume nothing.
\<close>

definition on_fine :: "outcome \<Rightarrow> worker \<Rightarrow> worker option" where
  "on_fine r w = (case r of Fine \<Rightarrow> Some w | _ \<Rightarrow> None)"

definition cancel_settled :: "worker_config \<Rightarrow> cont \<Rightarrow> string option \<Rightarrow> worker \<Rightarrow> worker" where
  "cancel_settled c k turn w =
     (let w1 = settled_interactions c w
      in spawn (CancelNotifying k turn)
           (case wk_session w1 of
              Some s \<Rightarrow> if wk_link w1 = None then w1 else emit (SentCancel s) w1
            | None \<Rightarrow> w1))"

definition cancel_notified :: "worker_config \<Rightarrow> cont \<Rightarrow> string option \<Rightarrow> worker \<Rightarrow> worker" where
  "cancel_notified c k turn w =
     answer_call k CallDone (w\<lparr>wk_cancel := Some (wk_now w + wc_cancel_grace c, turn)\<rparr>)"

definition hibernate_settled :: "worker_config \<Rightarrow> worker \<Rightarrow> worker" where
  "hibernate_settled c w =
     run_close_out c LdHibernate (emit SeamsDisposed (clear_timers (settled_interactions c w)))"

fun run_pc :: "worker_config \<Rightarrow> pc \<Rightarrow> outcome \<Rightarrow> worker \<Rightarrow> worker option" where
  "run_pc c (Awaiting p k) r w = None"
| "run_pc c (LadderWait u) r w = None"
| "run_pc c (Continues k a) r w = on_fine r (run_cont c k a w)"
| "run_pc c (LadderOver u) r w =
     on_fine r (run_ladder_user c u (w\<lparr>wk_ladder := False, wk_backstop := None\<rparr>))"
| "run_pc c (LadderSkipped u) r w = on_fine r (run_ladder_user c u w)"
| "run_pc c (Reclaiming u l) r w = on_fine r (run_reclaimed c u (shut_link l w))"
| "run_pc c (Spawning u) r w =
     (case r of Fine \<Rightarrow> Some (run_spawned c u (got_process w))
      | Wrong _ e \<Rightarrow> Some (run_spawn_failed c u e w) | _ \<Rightarrow> None)"
| "run_pc c (Opening u) r w =
     (case r of GotSession s \<Rightarrow> Some (run_opened c u s (close_replay u w))
      | Wrong _ e \<Rightarrow> Some (run_open_failed c u e (close_replay u w)) | _ \<Rightarrow> None)"
| "run_pc c (Validating x turn) r w =
     (case r of Fine \<Rightarrow> Some (begin_turn c x turn w)
      | Wrong _ e \<Rightarrow> Some (roll_back x (we_code e) w) | _ \<Rightarrow> None)"
| "run_pc c (DriveBegin turn) r w =
     (case r of Fine \<Rightarrow> Some (send_prompt turn False w)
      | Wrong _ _ \<Rightarrow> Some (send_prompt turn False w)
      | GotPatch _ \<Rightarrow> Some (send_prompt turn True w) | _ \<Rightarrow> None)"
| "run_pc c (DriveRequest turn patch) r w =
     (case r of GotAnswer stop usage \<Rightarrow> Some (prompt_answered c turn patch stop usage w)
      | Wrong rpc e \<Rightarrow> Some (prompt_refused c turn patch rpc (we_body e) w) | _ \<Rightarrow> None)"
| "run_pc c (DriveEnding stop usage patch) r w =
     (case r of
        GotPatch m \<Rightarrow> if patch then Some (patch_ended c stop usage [(''omni/patch'', m)] w) else None
      | Wrong _ e \<Rightarrow>
          if we_code e = AgentTimeout
          then Some (patch_ended c stop usage [(''omni/patch'', timed_out_patch c)] (abandon_patch True w))
          else Some (patch_ended c stop usage [] w)
      | Fine \<Rightarrow> Some (patch_ended c stop usage [] w) | _ \<Rightarrow> None)"
| "run_pc c (CancelSettling k turn) r w = on_fine r (cancel_settled c k turn w)"
| "run_pc c (CancelNotifying k turn) r w = on_fine r (cancel_notified c k turn w)"
| "run_pc c HibSettling r w = on_fine r (hibernate_settled c w)"
| "run_pc c (RestartSettling j) r w = on_fine r (restart_settled c j w)"
| "run_pc c (RestartRelinking j) r w =
     (case r of Fine \<Rightarrow> Some (open_process (OpRestart j) (w\<lparr>wk_stale := False\<rparr>))
      | Wrong _ e \<Rightarrow> Some (end_restart (CallFailed (we_code e)) w) | _ \<Rightarrow> None)"
| "run_pc c (CrashSettling e tail) r w = on_fine r (crash_settled c e tail w)"
| "run_pc c (CredRelinking j) r w =
     (case r of Fine \<Rightarrow> Some (credential_linked c j w)
      | Wrong _ e \<Rightarrow> Some (emit (Replied (cr_call j) (CallFailed (we_code e))) w) | _ \<Rightarrow> None)"
| "run_pc c (CloseSettling j) r w = on_fine r (close_settled c j w)"
| "run_pc c (ClosingSession j) r w =
     (case r of Fine \<Rightarrow> Some (close_ladder c (j\<lparr>cj_session_closed := True\<rparr>) w)
      | Wrong _ e \<Rightarrow> Some (close_ladder c j w) | _ \<Rightarrow> None)"
| "run_pc c (CloseTerminating j) r w =
     (case r of GotKill ex leader tree \<Rightarrow> Some (close_terminate j leader tree ex c w)
      | Wrong _ e \<Rightarrow> Some (close_terminate j False False None c w) | _ \<Rightarrow> None)"

definition drop_nth :: "nat \<Rightarrow> 'a list \<Rightarrow> 'a list" where
  "drop_nth i xs = take i xs @ drop (Suc i) xs"

definition resume_pc :: "worker_config \<Rightarrow> nat \<Rightarrow> outcome \<Rightarrow> worker \<Rightarrow> worker" where
  "resume_pc c i r w =
     (if i < length (wk_pcs w)
      then (case run_pc c (wk_pcs w ! i) r (w\<lparr>wk_pcs := drop_nth i (wk_pcs w)\<rparr>) of
              None \<Rightarrow> w | Some w' \<Rightarrow> w')
      else w)"

section \<open>Inputs\<close>

text \<open>
  A gated call carries whether its client holds the lease. Of the worker's log the interaction
  strategy writes two kinds of event, each with the turn its context was made for.
\<close>

datatype worker_input =
    CallStart call
  | CallPrompt call bool
  | CallCancel call bool
  | CancelInside
  | CallHibernate call
  | CallWake call bool
  | CallRestart call bool restart_body
  | CallCredential call bool string apply_mode
  | CallClose call worker_reason
  | Parked string
  | Unparked string
  | Emitted "(string option \<times> (interaction_payload + policy_decision)) list"
  | AgentSaid json
  | StderrSaid string
  | GoOn nat outcome
  | TickDue
  | CancelDue
  | ExitGraceDue string
  | BackstopDue
  | ProcessExited nat "int option \<times> string option" bool string
  | StdoutEnded nat
  | LinkLost

definition strategy_event ::
  "string option \<times> (interaction_payload + policy_decision) \<Rightarrow> event_input" where
  "strategy_event e =
     \<lparr>in_body = (case snd e of Inl p \<Rightarrow> Interaction p | Inr d \<Rightarrow> PolicyDecision d), in_version = 2,
      in_turn = fst e, in_replay = False\<rparr>"

definition emit_from_strategy :: "event_input list \<Rightarrow> worker \<Rightarrow> worker" where
  "emit_from_strategy es w = foldl observe_event (log_all es w) es"

definition gated :: "call \<Rightarrow> bool \<Rightarrow> (worker \<Rightarrow> worker) \<Rightarrow> worker \<Rightarrow> worker" where
  "gated x holder f w = (if holder then f w else emit (Replied x (CallFailed LeaseHeld)) w)"

definition prompt_worker :: "worker_config \<Rightarrow> call \<Rightarrow> worker \<Rightarrow> worker" where
  "prompt_worker c x w =
     (if wk_state w = Hibernated then wake_worker c (ThenPrompt x) w else admit_prompt c x w)"

definition start_worker :: "worker_config \<Rightarrow> call \<Rightarrow> worker \<Rightarrow> worker" where
  "start_worker c x w = open_process (OpStart x) (set_state c Starting Created None id w)"

text \<open>\<open>#cancelInternalFor\<close>: not gated; the cancel below it is made in the holder's name.\<close>

definition cancel_inside :: "worker_config \<Rightarrow> worker \<Rightarrow> worker" where
  "cancel_inside c w =
     (if wk_state w = Closed \<or> \<not> live_turn w \<or> wk_link w = None \<or> wk_session w = None then w
      else cancel_worker c Forget (watch c CancelSent w))"

definition cancel_due :: "worker_config \<Rightarrow> worker \<Rightarrow> worker" where
  "cancel_due c w =
     (case wk_cancel w of
        None \<Rightarrow> w
      | Some (due, turn) \<Rightarrow>
          if wk_now w < due then w
          else if wk_state w \<noteq> Running \<or> wk_turn w \<noteq> turn then w\<lparr>wk_cancel := None\<rparr>
          else run_close_out c LdCancel (w\<lparr>wk_cancel := None\<rparr>))"

definition tick_due :: "worker_config \<Rightarrow> worker \<Rightarrow> worker" where
  "tick_due c w =
     (case wk_tick w of
        None \<Rightarrow> w
      | Some due \<Rightarrow>
          if wk_now w < due then w
          else if wk_closing w \<and> \<not> wk_ladder w then w\<lparr>wk_tick := None\<rparr>
          else feed_worker c (Tick (wk_now w)) (w\<lparr>wk_tick := None\<rparr>))"

definition process_exited ::
  "worker_config \<Rightarrow> nat \<Rightarrow> int option \<times> string option \<Rightarrow> bool \<Rightarrow> string \<Rightarrow> worker \<Rightarrow> worker" where
  "process_exited c p ex requested tail w =
     (if wk_proc w \<noteq> Some p then w
      else (let w1 = w\<lparr>wk_agent_gone := True, wk_exit_grace := None\<rparr>
            in if wk_closing w1 then w1 else classify_and_close c (Some ex) requested tail w1))"

definition stdout_ended :: "worker_config \<Rightarrow> nat \<Rightarrow> worker \<Rightarrow> worker" where
  "stdout_ended c p w =
     (if wk_proc w \<noteq> Some p then w
      else (let w1 = feed_worker c (Drained (wk_now w)) (w\<lparr>wk_agent_gone := True\<rparr>)
            in if wk_closing w1 \<or> wk_exit_grace w1 \<noteq> None then w1
               else w1\<lparr>wk_exit_grace := Some (wk_now w + wc_exit_grace c)\<rparr>))"

definition exit_grace_due :: "worker_config \<Rightarrow> string \<Rightarrow> worker \<Rightarrow> worker" where
  "exit_grace_due c tail w =
     (case wk_exit_grace w of
        None \<Rightarrow> w
      | Some due \<Rightarrow>
          if wk_now w < due then w
          else if wk_closing w then w\<lparr>wk_exit_grace := None\<rparr>
          else classify_and_close c None False tail (w\<lparr>wk_exit_grace := None\<rparr>))"

definition backstop_due :: "worker \<Rightarrow> worker" where
  "backstop_due w =
     (case wk_backstop w of
        None \<Rightarrow> w
      | Some due \<Rightarrow> if wk_now w < due then w else release_ladder (w\<lparr>wk_backstop := None\<rparr>))"

fun on_input :: "worker_config \<Rightarrow> worker_input \<Rightarrow> worker \<Rightarrow> worker" where
  "on_input c (CallStart x) w = start_worker c x w"
| "on_input c (CallPrompt x h) w = gated x h (prompt_worker c x) w"
| "on_input c (CallCancel x h) w = gated x h (cancel_worker c (ReplyTo x)) w"
| "on_input c CancelInside w = cancel_inside c w"
| "on_input c (CallHibernate x) w = hibernate_worker c (ReplyTo x) w"
| "on_input c (CallWake x h) w = gated x h (wake_worker c (ReplyTo x)) w"
| "on_input c (CallRestart x h b) w = gated x h (restart_with c b (ReplyTo x)) w"
| "on_input c (CallCredential x h name mode) w = gated x h (set_credential c x name mode) w"
| "on_input c (CallClose x reason) w = close_with c (close_for reason None False) (ReplyTo x) w"
| "on_input c (Parked x) w = park_worker c x w"
| "on_input c (Unparked x) w = unpark_worker c x w"
| "on_input c (Emitted es) w = emit_from_strategy (map strategy_event es) w"
| "on_input c (AgentSaid u) w = feed_worker c (AgentUpdate u (wk_now w) (0 < wk_replay w)) w"
| "on_input c (StderrSaid l) w = feed_worker c (StderrLine l (wk_now w)) w"
| "on_input c (GoOn i r) w = resume_pc c i r w"
| "on_input c TickDue w = tick_due c w"
| "on_input c CancelDue w = cancel_due c w"
| "on_input c (ExitGraceDue tail) w = exit_grace_due c tail w"
| "on_input c BackstopDue w = backstop_due w"
| "on_input c (ProcessExited p ex requested tail) w = process_exited c p ex requested tail w"
| "on_input c (StdoutEnded p) w = stdout_ended c p w"
| "on_input c LinkLost w = w\<lparr>wk_link_closed := True\<rparr>"

definition worker_step :: "worker_config \<Rightarrow> worker \<Rightarrow> ms \<times> worker_input \<Rightarrow> worker" where
  "worker_step c w i = on_input c (snd i) (w\<lparr>wk_now := fst i\<rparr>)"

definition worker_run :: "worker_config \<Rightarrow> worker \<Rightarrow> (ms \<times> worker_input) list \<Rightarrow> worker" where
  "worker_run c w is = foldl (worker_step c) w is"

end
