(* ===== verification/WorkerInv.thy ===== *)
theory WorkerInv
  imports Worker
begin

text \<open>
  What holds of the worker under every interleaving. Each shared attempt (a wake, a restart, a
  hibernation, a close) is a chain of waiting activities; \<open>attempts\<close> counts its links in the list
  and \<open>balance\<close> compares the count with the promise's flag. Every operation keeps the balances,
  chains the state events, and only ever raises the sticky facts: \<open>keeps\<close> says so of one
  operation, and it composes.
\<close>

named_theorems worker_defs \<open>the one-line operations\<close>
named_theorems keeps_intros \<open>the operations that keep everything\<close>

section \<open>Counting\<close>

fun ladder_kind :: "ladder_user \<Rightarrow> promise option" where
  "ladder_kind LdHibernate = Some PHibernate"
| "ladder_kind (LdRestart j) = Some PRestart"
| "ladder_kind LdCancel = None"
| "ladder_kind (LdClose j) = Some PClose"

fun reclaim_kind :: "reclaim_user \<Rightarrow> promise option" where
  "reclaim_kind RcHibernate = Some PHibernate"
| "reclaim_kind (RcRestart j) = Some PRestart"
| "reclaim_kind (RcWake e) = Some PWake"
| "reclaim_kind (RcRestartFailed e) = Some PRestart"
| "reclaim_kind RcCrash = None"

fun open_kind :: "open_user \<Rightarrow> promise option" where
  "open_kind (OpStart x) = None"
| "open_kind (OpWake s) = Some PWake"
| "open_kind (OpRestart j) = Some PRestart"

fun cont_kind :: "cont \<Rightarrow> promise option" where
  "cont_kind (ThenThrowWake e) = Some PWake"
| "cont_kind _ = None"

fun pc_kind :: "pc \<Rightarrow> promise option" where
  "pc_kind (Awaiting p k) = cont_kind k"
| "pc_kind (Continues k r) = cont_kind k"
| "pc_kind (LadderWait u) = ladder_kind u"
| "pc_kind (LadderOver u) = ladder_kind u"
| "pc_kind (LadderSkipped u) = ladder_kind u"
| "pc_kind (Reclaiming u l) = reclaim_kind u"
| "pc_kind (Spawning u) = open_kind u"
| "pc_kind (Opening u) = open_kind u"
| "pc_kind (Validating x t) = None"
| "pc_kind (DriveBegin t) = None"
| "pc_kind (DriveRequest t b) = None"
| "pc_kind (DriveEnding s u b) = None"
| "pc_kind (CancelSettling k t) = cont_kind k"
| "pc_kind (CancelNotifying k t) = cont_kind k"
| "pc_kind HibSettling = Some PHibernate"
| "pc_kind (RestartSettling j) = Some PRestart"
| "pc_kind (RestartRelinking j) = Some PRestart"
| "pc_kind (CrashSettling e t) = None"
| "pc_kind (CredRelinking j) = None"
| "pc_kind (CloseSettling j) = Some PClose"
| "pc_kind (ClosingSession j) = Some PClose"
| "pc_kind (CloseTerminating j) = Some PClose"

definition pcs_of :: "promise \<Rightarrow> pc list \<Rightarrow> int" where
  "pcs_of p ps = int (length (filter (\<lambda>q. pc_kind q = Some p) ps))"

definition attempts :: "promise \<Rightarrow> worker \<Rightarrow> int" where
  "attempts p w = pcs_of p (wk_pcs w)"

fun in_flight :: "promise \<Rightarrow> worker \<Rightarrow> bool" where
  "in_flight PWake w = wk_waking w"
| "in_flight PRestart w = wk_restarting w"
| "in_flight PHibernate w = wk_hib_promise w"
| "in_flight PClose w = (wk_closing w \<and> wk_closed_as w = None)"

definition balance :: "promise \<Rightarrow> worker \<Rightarrow> int" where
  "balance p w = attempts p w - of_bool (in_flight p w)"

section \<open>The state events of the log\<close>

fun state_payload :: "act \<Rightarrow> worker_state_payload option" where
  "state_payload (Logged e) = (case in_body e of WorkerStateEv p \<Rightarrow> Some p | _ \<Rightarrow> None)"
| "state_payload _ = None"

definition payloads :: "act list \<Rightarrow> worker_state_payload list" where
  "payloads as = List.map_filter state_payload as"

fun last_state :: "worker_state option \<Rightarrow> worker_state_payload list \<Rightarrow> worker_state option" where
  "last_state s [] = s"
| "last_state s (p # ps) = last_state (Some (ws_state p)) ps"

fun chained :: "worker_state option \<Rightarrow> worker_state_payload list \<Rightarrow> bool" where
  "chained s [] = True"
| "chained s (p # ps) = (ws_previous p = s \<and> chained (Some (ws_state p)) ps)"

definition opened_event :: "worker_state_payload \<Rightarrow> bool" where
  "opened_event p \<longleftrightarrow> ws_state p = Ready \<and> (ws_reason p = HandshakeOk \<or> ws_reason p = Resumed)"

definition opens :: "act list \<Rightarrow> int" where
  "opens as = int (length (filter opened_event (payloads as)))"

definition closes :: "act list \<Rightarrow> int" where
  "closes as = int (length (filter (\<lambda>p. ws_state p = Closed) (payloads as)))"

lemma last_state_append [simp]: "last_state s (ps @ qs) = last_state (last_state s ps) qs"
  by (induction ps arbitrary: s) auto

lemma chained_append [simp]: "chained s (ps @ qs) \<longleftrightarrow> chained s ps \<and> chained (last_state s ps) qs"
  by (induction ps arbitrary: s) auto

lemma payloads_simps [simp]:
  "payloads [] = []"
  "payloads (as @ bs) = payloads as @ payloads bs"
  "payloads (a # as) = (case state_payload a of None \<Rightarrow> payloads as | Some p \<Rightarrow> p # payloads as)"
  by (simp_all add: payloads_def List.map_filter_def split: option.split)

text \<open>Only \<open>#setState\<close> writes a state event: the reducer and the strategy write other kinds.\<close>

definition plain :: "event_input list \<Rightarrow> bool" where
  "plain es \<longleftrightarrow> list_all (\<lambda>e. case in_body e of WorkerStateEv _ \<Rightarrow> False | _ \<Rightarrow> True) es"

lemma plain_simps [simp]:
  "plain []" "plain (es @ fs) \<longleftrightarrow> plain es \<and> plain fs"
  "plain (e # es) \<longleftrightarrow> (case in_body e of WorkerStateEv _ \<Rightarrow> False | _ \<Rightarrow> True) \<and> plain es"
  by (auto simp: plain_def)

lemma payloads_plain: "plain es \<Longrightarrow> payloads (map Logged es) = []"
  by (induction es) (auto split: event_body.splits)

section \<open>One operation keeps everything\<close>

definition told :: "worker \<Rightarrow> bool" where
  "told w \<longleftrightarrow> chained None (payloads (wk_trace w)) \<and>
     wk_emitted w = last_state None (payloads (wk_trace w))"

definition keeps :: "worker \<Rightarrow> worker \<Rightarrow> bool" where
  "keeps w w' \<longleftrightarrow>
     (\<forall>p. balance p w' = balance p w) \<and> (told w \<longrightarrow> told w') \<and>
     closes (wk_trace w') = closes (wk_trace w) \<and>
     wk_generation w' - opens (wk_trace w') = wk_generation w - opens (wk_trace w) \<and>
     wk_generation w \<le> wk_generation w' \<and>
     (wk_crashed w \<longrightarrow> wk_crashed w') \<and> wk_closed_as w' = wk_closed_as w \<and>
     (wk_closing w \<longrightarrow> wk_closing w') \<and>
     (wk_waking w \<longrightarrow> wk_waking w') \<and> (wk_restarting w \<longrightarrow> wk_restarting w') \<and>
     (wk_hib_promise w \<longrightarrow> wk_hib_promise w')"

lemma keeps_refl [simp, keeps_intros]: "keeps w w"
  by (simp add: keeps_def)

lemma keeps_trans: "keeps u v \<Longrightarrow> keeps v w \<Longrightarrow> keeps u w"
  by (auto simp: keeps_def)

text \<open>
  What an operation that touches neither the activities nor the log nor the promises keeps: the
  fields \<open>keeps\<close> looks at are the same.
\<close>

definition same_view :: "worker \<Rightarrow> worker \<Rightarrow> bool" where
  "same_view w w' \<longleftrightarrow>
     wk_pcs w' = wk_pcs w \<and> payloads (wk_trace w') = payloads (wk_trace w) \<and>
     wk_emitted w' = wk_emitted w \<and> wk_generation w' = wk_generation w \<and>
     (wk_crashed w \<longrightarrow> wk_crashed w') \<and> wk_closed_as w' = wk_closed_as w \<and>
     wk_closing w' = wk_closing w \<and> wk_waking w' = wk_waking w \<and>
     wk_restarting w' = wk_restarting w \<and> wk_hib_promise w' = wk_hib_promise w"

lemma in_flight_view: "same_view w w' \<Longrightarrow> in_flight p w' = in_flight p w"
  by (cases p) (simp_all add: same_view_def)

lemma keeps_view: "same_view w w' \<Longrightarrow> keeps w w'"
  using in_flight_view [of w w']
  by (simp add: keeps_def balance_def attempts_def same_view_def told_def opens_def closes_def)

lemma same_view_trans: "same_view u v \<Longrightarrow> same_view v w \<Longrightarrow> same_view u w"
  by (auto simp: same_view_def)

lemma same_view_refl [simp]: "same_view w w"
  by (simp add: same_view_def)

lemma pcs_of_simps [simp]:
  "pcs_of p [] = 0" "pcs_of p (q # qs) = of_bool (pc_kind q = Some p) + pcs_of p qs"
  "pcs_of p (qs @ rs) = pcs_of p qs + pcs_of p rs"
  by (simp_all add: pcs_of_def)

lemma pcs_of_map: "(\<And>q. pc_kind (f q) = pc_kind q) \<Longrightarrow> pcs_of p (map f ps) = pcs_of p ps"
  by (induction ps) auto

lemma view_emit: "state_payload a = None \<Longrightarrow> same_view w (emit a w)"
  by (simp add: same_view_def emit_def)

lemma view_log_all: "plain es \<Longrightarrow> same_view w (log_all es w)"
  by (simp add: same_view_def log_all_def payloads_plain)

lemma keeps_spawn: "pc_kind q = None \<Longrightarrow> keeps w (spawn q w)"
proof -
  assume "pc_kind q = None"
  moreover have "in_flight p (spawn q w) = in_flight p w" for p by (cases p) (simp_all add: spawn_def)
  ultimately show ?thesis
    by (simp add: keeps_def balance_def attempts_def told_def spawn_def)
qed

lemma keeps_settle_promise: "keeps w (settle_promise p r w)"
proof -
  have "in_flight q (settle_promise p r w) = in_flight q w" for q
    by (cases q) (simp_all add: settle_promise_def)
  moreover have "pcs_of q (wk_pcs (settle_promise p r w)) = pcs_of q (wk_pcs w)" for q
    unfolding settle_promise_def by (simp add: pcs_of_map split: pc.split)
  ultimately show ?thesis
    by (simp add: keeps_def balance_def attempts_def told_def)
      (simp add: settle_promise_def)
qed

lemma keeps_release_ladder: "keeps w (release_ladder w)"
proof -
  have "in_flight q (release_ladder w) = in_flight q w" for q
    by (cases q) (simp_all add: release_ladder_def)
  moreover have "pcs_of q (wk_pcs (release_ladder w)) = pcs_of q (wk_pcs w)" for q
    unfolding release_ladder_def by (simp add: pcs_of_map split: pc.split)
  ultimately show ?thesis
    by (simp add: keeps_def balance_def attempts_def told_def) (simp add: release_ladder_def)
qed

text \<open>The fields \<open>keeps\<close> does not look at.\<close>

lemma keeps_step_view: "keeps w v \<Longrightarrow> same_view v v' \<Longrightarrow> keeps w v'"
  by (rule keeps_trans [OF _ keeps_view])

lemma keeps_fields [keeps_intros]:
  assumes "keeps w v"
  shows "keeps w (v\<lparr>wk_now := x_now\<rparr>)"
    "keeps w (v\<lparr>wk_state := x_state\<rparr>)"
    "keeps w (v\<lparr>wk_session := x_session\<rparr>)"
    "keeps w (v\<lparr>wk_method := x_method\<rparr>)"
    "keeps w (v\<lparr>wk_can_close := x_can_close\<rparr>)"
    "keeps w (v\<lparr>wk_turn := x_turn\<rparr>)"
    "keeps w (v\<lparr>wk_turns := x_turns\<rparr>)"
    "keeps w (v\<lparr>wk_close_reason := x_close_reason\<rparr>)"
    "keeps w (v\<lparr>wk_hibernated_at := x_hibernated_at\<rparr>)"
    "keeps w (v\<lparr>wk_wake_count := x_wake_count\<rparr>)"
    "keeps w (v\<lparr>wk_wake_failures := x_wake_failures\<rparr>)"
    "keeps w (v\<lparr>wk_report := x_report\<rparr>)"
    "keeps w (v\<lparr>wk_replay := x_replay\<rparr>)"
    "keeps w (v\<lparr>wk_parked := x_parked\<rparr>)"
    "keeps w (v\<lparr>wk_blinded := x_blinded\<rparr>)"
    "keeps w (v\<lparr>wk_wrote := x_wrote\<rparr>)"
    "keeps w (v\<lparr>wk_norm := x_norm\<rparr>)"
    "keeps w (v\<lparr>wk_proc := x_proc\<rparr>)"
    "keeps w (v\<lparr>wk_procs := x_procs\<rparr>)"
    "keeps w (v\<lparr>wk_link := x_link\<rparr>)"
    "keeps w (v\<lparr>wk_link_closed := x_link_closed\<rparr>)"
    "keeps w (v\<lparr>wk_agent_gone := x_agent_gone\<rparr>)"
    "keeps w (v\<lparr>wk_ladder := x_ladder\<rparr>)"
    "keeps w (v\<lparr>wk_pin := x_pin\<rparr>)"
    "keeps w (v\<lparr>wk_tick := x_tick\<rparr>)"
    "keeps w (v\<lparr>wk_cancel := x_cancel\<rparr>)"
    "keeps w (v\<lparr>wk_exit_grace := x_exit_grace\<rparr>)"
    "keeps w (v\<lparr>wk_backstop := x_backstop\<rparr>)"
    "keeps w (v\<lparr>wk_hibernating := x_hibernating\<rparr>)"
    "keeps w (v\<lparr>wk_stale := x_stale\<rparr>)"
    "keeps w (v\<lparr>wk_pending_restart := x_pending_restart\<rparr>)"
    "keeps w (v\<lparr>wk_crashed := True\<rparr>)"
  by (rule keeps_step_view [OF assms], simp add: same_view_def)+

lemma keeps_emit [keeps_intros]: "keeps w v \<Longrightarrow> state_payload a = None \<Longrightarrow> keeps w (emit a v)"
  by (rule keeps_step_view [OF _ view_emit])

lemma keeps_log_all [keeps_intros]: "keeps w v \<Longrightarrow> plain es \<Longrightarrow> keeps w (log_all es v)"
  by (rule keeps_step_view [OF _ view_log_all])

lemma keeps_spawn' [keeps_intros]: "keeps w v \<Longrightarrow> pc_kind q = None \<Longrightarrow> keeps w (spawn q v)"
  by (rule keeps_trans [OF _ keeps_spawn])

lemma keeps_settle' [keeps_intros]: "keeps w v \<Longrightarrow> keeps w (settle_promise p r v)"
  by (rule keeps_trans [OF _ keeps_settle_promise])

lemma keeps_release' [keeps_intros]: "keeps w v \<Longrightarrow> keeps w (release_ladder v)"
  by (rule keeps_trans [OF _ keeps_release_ladder])

lemma keeps_small [keeps_intros]:
  assumes "keeps w v"
  shows "keeps w (watch c sig v)" "keeps w (unpin_lease v)" "keeps w (settle_interactions c why v)"
    "keeps w (settled_interactions c v)" "keeps w (clear_timers v)" "keeps w (reschedule_tick due v)"
    "keeps w (shut_link l v)" "keeps w (note_report rr v)" "keeps w (adopt_session s v)"
    "keeps w (got_process v)" "keeps w (close_replay u v)" "keeps w (abandon_patch b v)"
    "keeps w (observe_event v e)"
  using assms
  by (auto simp: watch_def unpin_lease_def settle_interactions_def settled_interactions_def
      clear_timers_def reschedule_tick_def shut_link_def note_report_def adopt_session_def
      got_process_def close_replay_def abandon_patch_def observe_event_def
      split: option.split open_user.split event_body.split intro!: keeps_intros)

lemma keeps_observe [keeps_intros]: "keeps w v \<Longrightarrow> keeps w (foldl observe_event v es)"
  by (induction es arbitrary: v) (auto intro: keeps_small)

text \<open>An attempt begins: its flag goes up and its first link joins the list.\<close>

lemma keeps_begin:
  assumes "\<not> in_flight p w" "pc_kind q = Some p"
    and "\<And>r. in_flight r v = (in_flight r w \<or> r = p)"
    and "wk_pcs v = wk_pcs w" "payloads (wk_trace v) = payloads (wk_trace w)"
    and "wk_emitted v = wk_emitted w" "wk_generation v = wk_generation w"
    and "wk_crashed v = wk_crashed w" "wk_closed_as v = wk_closed_as w"
    and "wk_closing w \<longrightarrow> wk_closing v"
  shows "keeps w (spawn q v)"
proof -
  have f: "in_flight r (spawn q v) = (in_flight r w \<or> r = p)" for r
    using assms(3) [of r] by (cases r) (simp_all add: spawn_def)
  have "balance r (spawn q v) = balance r w" for r
    using assms(1,2,4) f by (cases "r = p") (simp_all add: balance_def attempts_def spawn_def)
  moreover have "in_flight r w \<Longrightarrow> in_flight r v" for r
    using assms(3) by simp
  from this [of PWake] this [of PRestart] this [of PHibernate]
  have "(wk_waking w \<longrightarrow> wk_waking v) \<and> (wk_restarting w \<longrightarrow> wk_restarting v) \<and>
      (wk_hib_promise w \<longrightarrow> wk_hib_promise v)" by simp
  ultimately show ?thesis
    using assms(5-)
    by (simp add: keeps_def told_def opens_def closes_def) (simp add: spawn_def)
qed

lemma keeps_close_begins:
  assumes "keeps u w" "wk_closed_as w = None" "\<not> wk_closing w"
  shows "keeps u (spawn (CloseSettling j) (settle_interactions c ''close'' (w\<lparr>wk_closing := True\<rparr>)))"
proof (rule keeps_trans [OF assms(1) keeps_begin [of PClose]])
  show "in_flight r (settle_interactions c ''close'' (w\<lparr>wk_closing := True\<rparr>)) =
      (in_flight r w \<or> r = PClose)" for r
    using assms by (cases r) (simp_all add: settle_interactions_def emit_def)
qed (use assms in \<open>simp_all add: settle_interactions_def emit_def\<close>)

lemma keeps_close_with [keeps_intros]:
  assumes "keeps u w" and k: "cont_kind k = None"
  shows "keeps u (close_with c j k w)"
proof (cases "wk_closed_as w = None \<and> \<not> wk_closing w")
  case True
  then have "keeps u (spawn (Awaiting PClose k) (spawn (CloseSettling j)
      (settle_interactions c ''close'' (w\<lparr>wk_closing := True\<rparr>))))"
    by (intro keeps_spawn' keeps_close_begins) (simp_all add: assms)
  then show ?thesis using True by (simp add: close_with_def)
next
  case False
  then show ?thesis
    using assms by (auto simp: close_with_def split: option.split intro!: keeps_spawn')
qed

lemma keeps_restart_with [keeps_intros]:
  assumes "keeps u w" and k: "cont_kind k = None"
  shows "keeps u (restart_with c b k w)"
proof (cases "\<not> wk_restarting w \<and> restart_refusal b w = None")
  case True
  let ?v = "settle_interactions c ''cancel'' (w\<lparr>wk_restarting := True\<rparr>)"
  have "keeps w (spawn (RestartSettling j) ?v)" for j
  proof (rule keeps_begin [of PRestart])
    show "in_flight r ?v = (in_flight r w \<or> r = PRestart)" for r
      by (cases r) (simp_all add: settle_interactions_def emit_def)
  qed (use True in \<open>simp_all add: settle_interactions_def emit_def\<close>)
  then have "keeps u (spawn (RestartSettling j) ?v)" for j by (rule keeps_trans [OF assms(1)])
  then have "keeps u (spawn (Awaiting PRestart k) (spawn (RestartSettling j) ?v))" for j
    by (rule keeps_spawn') (simp add: k)
  then show ?thesis using True by (simp add: restart_with_def)
next
  case False
  then show ?thesis
    using assms by (auto simp: restart_with_def split: option.split intro!: keeps_spawn')
qed

lemma keeps_drain [keeps_intros]: "keeps u w \<Longrightarrow> keeps u (drain_pending_restart c w)"
  by (auto simp: drain_pending_restart_def intro!: keeps_intros)

section \<open>\<open>#setState\<close>\<close>

text \<open>What a transition adds never overwrites the three fields every row has.\<close>

definition rows_only :: "(worker_state_payload \<Rightarrow> worker_state_payload) \<Rightarrow> bool" where
  "rows_only f \<longleftrightarrow> (\<forall>p. ws_state (f p) = ws_state p \<and> ws_previous (f p) = ws_previous p \<and>
     ws_reason (f p) = ws_reason p)"

lemma rows_only_id [simp]: "rows_only id"
  by (simp add: rows_only_def)

lemma told_event:
  assumes "told w" "rows_only f"
  shows "told (emit (Logged (state_event nxt reason turn f w)) (w\<lparr>wk_state := nxt, wk_emitted := Some nxt\<rparr>))"
  using assms by (simp add: told_def emit_def state_event_def rows_only_def bare_payload_def)

lemma keeps_set_state [keeps_intros]:
  assumes "keeps u w" and f: "rows_only f" and "nxt \<noteq> Closed"
    and r: "nxt = Ready \<longrightarrow> reason \<noteq> HandshakeOk \<and> reason \<noteq> Resumed"
  shows "keeps u (set_state c nxt reason turn f w)"
proof -
  let ?v = "emit (Logged (state_event nxt reason turn f w)) (w\<lparr>wk_state := nxt, wk_emitted := Some nxt\<rparr>)"
  have "in_flight p ?v = in_flight p w" for p by (cases p) (simp_all add: emit_def)
  then have "keeps w ?v"
    using f r assms(3) told_event [OF _ f, of w]
    by (simp add: keeps_def balance_def attempts_def)
      (auto simp: emit_def state_event_def opens_def closes_def opened_event_def rows_only_def
        bare_payload_def)
  with assms(1) have "keeps u ?v" by (rule keeps_trans)
  then show ?thesis by (auto simp: set_state_def Let_def intro!: keeps_intros)
qed

text \<open>A transition into \<open>ready\<close> that announces one more process comes with its generation.\<close>

lemma keeps_open_state:
  assumes w: "same_view (w0\<lparr>wk_generation := wk_generation w0 + 1\<rparr>) w" and f: "rows_only f"
    and r: "reason = HandshakeOk \<or> reason = Resumed"
  shows "keeps w0 (set_state c Ready reason turn f w)"
proof -
  let ?v = "emit (Logged (state_event Ready reason turn f w)) (w\<lparr>wk_state := Ready, wk_emitted := Some Ready\<rparr>)"
  have "in_flight p ?v = in_flight p w0" for p
    using w by (cases p) (simp_all add: emit_def same_view_def)
  moreover have "told w0 \<Longrightarrow> told w" using w by (simp add: told_def same_view_def)
  ultimately have "keeps w0 ?v"
    using f r w told_event [OF _ f, of w]
    by (simp add: keeps_def balance_def attempts_def)
      (auto simp: emit_def state_event_def opens_def closes_def opened_event_def rows_only_def
        bare_payload_def same_view_def)
  then show ?thesis by (auto simp: set_state_def Let_def intro!: keeps_intros)
qed

section \<open>The reducer's step\<close>

lemma in_body_parts [simp]:
  "in_body (update_event t v p) = SessionUpdate p"
  "in_body (error_event t b m) = ErrorEv (case m of None \<Rightarrow> b | Some x \<Rightarrow> b\<lparr>err_stderr_tail := Some x\<rparr>)"
  by (simp_all add: update_event_def error_event_def)

lemma plain_replay: "plain es \<Longrightarrow> plain (mark_replay es r)"
  by (simp add: mark_replay_def plain_def list.pred_map comp_def)

lemma plain_agent_update:
  "agent_update c g s u now r = Some (g', s', out) \<Longrightarrow> plain (out_emit out)"
  by (auto simp: agent_update_def turn_out_def update_events_def Let_def plain_replay
      split: option.splits prod.splits)

lemma plain_step:
  assumes "step_turn_lifecycle c n i = Inr (n', out)"
  shows "plain (out_emit out)"
proof -
  note defs = keep_ids_def turn_out_def idle_event_def running_event_def pending_idle_def
    prompt_sent_def prompt_result_def prompt_error_def process_gone_def drained_def tick_def
    ladder_tick_def advance_def close_requested_def stderr_line_def terminate_def Let_def
  show ?thesis
    using assms
    by (cases i)
      (auto simp: step_turn_lifecycle_def defs plain_agent_update
        split: if_splits option.splits prod.splits)
qed

lemma keeps_perform [keeps_intros]: "keeps w v \<Longrightarrow> keeps w (perform c a v)"
  by (auto simp: perform_def split: option.split close_out_action.split intro!: keeps_intros)

lemma keeps_after_step [keeps_intros]: "keeps w v \<Longrightarrow> keeps w (after_step c out v)"
  by (auto simp: after_step_def Let_def intro!: keeps_intros)

lemma keeps_norm_step: "norm_step c i w = Some (w', out) \<Longrightarrow> keeps w w'"
  by (auto simp: norm_step_def Let_def plain_step split: sum.splits prod.splits intro!: keeps_intros)

lemma keeps_norm_step':
  "norm_step c i v = Some (w', out) \<Longrightarrow> keeps w v \<Longrightarrow> keeps w w'"
  by (rule keeps_trans [OF _ keeps_norm_step])

lemma keeps_feed [keeps_intros]: "keeps w v \<Longrightarrow> keeps w (feed_worker c i v)"
  by (auto simp: feed_worker_def split: option.split intro: keeps_norm_step')

lemma keeps_append_close_error [keeps_intros]:
  "keeps w v \<Longrightarrow> keeps w (append_close_error c b t r v)"
proof -
  assume v: "keeps w v"
  have "state_payload (Logged (error_event t b' m)) = None" for t b' m by simp
  then show ?thesis
    using v keeps_norm_step' [OF _ v]
    by (auto simp: append_close_error_def Let_def simp del: state_payload.simps
        split: option.split intro!: keeps_emit)
qed

lemmas rows = rows_only_def with_generation_def with_report_def

section \<open>A link of an attempt hands over\<close>

text \<open>
  A link leaves the list before its code runs. The code puts the next link of the same attempt back,
  or it ends the attempt and takes the flag down: the balance grows by one for that promise alone.
\<close>

definition pays :: "promise option \<Rightarrow> worker \<Rightarrow> worker \<Rightarrow> bool" where
  "pays k w w' \<longleftrightarrow>
     (\<forall>p. balance p w' = balance p w + of_bool (k = Some p)) \<and> (told w \<longrightarrow> told w') \<and>
     closes (wk_trace w') - of_bool (wk_closed_as w' \<noteq> None) =
       closes (wk_trace w) - of_bool (wk_closed_as w \<noteq> None) \<and>
     wk_generation w' - opens (wk_trace w') = wk_generation w - opens (wk_trace w) \<and>
     wk_generation w \<le> wk_generation w' \<and> (wk_crashed w \<longrightarrow> wk_crashed w') \<and>
     (wk_closing w \<longrightarrow> wk_closing w') \<and>
     (wk_closed_as w \<noteq> None \<longrightarrow> wk_closed_as w' = wk_closed_as w)"

lemma pays_keeps: "keeps w w' \<Longrightarrow> pays None w w'"
  by (simp add: keeps_def pays_def)

lemma keeps_pays: "keeps u w \<Longrightarrow> pays k w w' \<Longrightarrow> pays k u w'"
  by (auto simp: keeps_def pays_def)

lemma pays_then_keeps: "pays k u w \<Longrightarrow> keeps w w' \<Longrightarrow> pays k u w'"
  by (auto simp: keeps_def pays_def)

lemma keeps_in_flight: "keeps w v \<Longrightarrow> in_flight p w \<Longrightarrow> in_flight p v"
  by (cases p) (auto simp: keeps_def)

lemma pays_spawn: "keeps w v \<Longrightarrow> pays (pc_kind q) w (spawn q v)"
proof -
  have "in_flight p (spawn q v) = in_flight p v" for p by (cases p) (simp_all add: spawn_def)
  then have "pays (pc_kind q) v (spawn q v)"
    by (simp add: pays_def balance_def attempts_def told_def) (simp add: spawn_def)
  then show "keeps w v \<Longrightarrow> ?thesis" by (rule keeps_pays [rotated])
qed

lemma pays_spawn': "keeps w v \<Longrightarrow> pc_kind q = k \<Longrightarrow> pays k w (spawn q v)"
  using pays_spawn by blast

lemma pays_end_wake:
  assumes "keeps w v" "wk_waking w"
  shows "pays (Some PWake) w (end_wake r v)"
proof -
  let ?v = "v\<lparr>wk_waking := False\<rparr>"
  have "wk_waking v" using assms by (simp add: keeps_def)
  then have "balance p ?v = balance p v + of_bool (PWake = p)" for p
    by (cases p) (simp_all add: balance_def attempts_def)
  then have "pays (Some PWake) v ?v" by (auto simp: pays_def told_def)
  then show ?thesis
    unfolding end_wake_def
    by (rule keeps_pays [OF assms(1) pays_then_keeps [OF _ keeps_settle_promise]])
qed

lemma pays_end_restart:
  assumes "keeps w v" "wk_restarting w"
  shows "pays (Some PRestart) w (end_restart r v)"
proof -
  let ?v = "v\<lparr>wk_restarting := False\<rparr>"
  have "wk_restarting v" using assms by (simp add: keeps_def)
  then have "balance p ?v = balance p v + of_bool (PRestart = p)" for p
    by (cases p) (simp_all add: balance_def attempts_def)
  then have "pays (Some PRestart) v ?v" by (auto simp: pays_def told_def)
  then show ?thesis
    unfolding end_restart_def
    by (rule keeps_pays [OF assms(1) pays_then_keeps [OF _ keeps_settle_promise]])
qed

lemma pays_hibernated:
  assumes "wk_hib_promise w"
  shows "pays (Some PHibernate) w (hibernated c w)"
proof -
  define v where "v = set_state c Hibernated HibernateReason None (with_generation w)
                 ((emit LeaseReleased w)\<lparr>wk_hibernated_at := Some (wk_now w)\<rparr>)"
  have k: "keeps w v" unfolding v_def by (auto intro!: keeps_intros simp: rows)
  let ?v = "v\<lparr>wk_hib_promise := False, wk_hibernating := False\<rparr>"
  have "wk_hib_promise v" using k assms by (simp add: keeps_def)
  then have "balance p ?v = balance p v + of_bool (PHibernate = p)" for p
    by (cases p) (simp_all add: balance_def attempts_def)
  then have "pays (Some PHibernate) v ?v" by (auto simp: pays_def told_def)
  then show ?thesis
    unfolding hibernated_def Let_def v_def [symmetric]
    by (rule keeps_pays [OF k pays_then_keeps [OF _ keeps_settle_promise]])
qed

lemma pays_close_with:
  assumes "keeps u w" "cont_kind k = m"
  shows "pays m u (close_with c j k w)"
proof (cases "wk_closed_as w = None \<and> \<not> wk_closing w")
  case True
  then have "keeps u (spawn (CloseSettling j) (settle_interactions c ''close'' (w\<lparr>wk_closing := True\<rparr>)))"
    by (intro keeps_close_begins) (simp_all add: assms)
  then show ?thesis
    using True assms(2) by (auto simp: close_with_def intro!: pays_spawn')
next
  case False
  then show ?thesis
    using assms by (auto simp: close_with_def split: option.split intro!: pays_spawn')
qed

lemma pays_close_terminate:
  assumes w: "keeps u w" and f: "in_flight PClose u"
  shows "pays (Some PClose) u (close_terminate j l t x c w)"
proof -
  have fw: "wk_closed_as w = None" "wk_closing w" using keeps_in_flight [OF w f] by simp_all
  define rows_of where
    "rows_of = (\<lambda>p :: worker_state_payload. p\<lparr>ws_exit := or_else (cj_exit j) x, ws_leader_exited := Some (wk_proc w = None \<or> l),
       ws_tree_gone := Some (wk_proc w = None \<or> t), ws_error := cj_error j\<rparr>)"
  define w1 where "w1 = (shut_link (wk_link w) w)\<lparr>wk_turn := None\<rparr>"
  define w2 where "w2 = set_state c Closed (cj_reason j) None rows_of w1"
  have k1: "keeps w w1" unfolding w1_def by (auto intro!: keeps_intros)
  have r: "rows_only rows_of" by (simp add: rows_of_def rows_only_def)
  have f1: "wk_closed_as w1 = None" "wk_closing w1" using k1 fw by (simp_all add: keeps_def)
  have e: "w2 = emit (Logged (state_event Closed (cj_reason j) None rows_of w1))
      (w1\<lparr>wk_state := Closed, wk_emitted := Some Closed\<rparr>)"
    by (simp add: w2_def set_state_def Let_def)
  have flags: "in_flight p (w2\<lparr>wk_closed_as := Some a\<rparr>) = (in_flight p w1 \<and> p \<noteq> PClose)" for p a
    using f1 by (cases p) (simp_all add: e emit_def)
  have bal: "balance p (w2\<lparr>wk_closed_as := Some a\<rparr>) = balance p w1 + of_bool (Some PClose = Some p)" for p a
    using flags [of p a] f1
    by (cases "p = PClose") (simp_all add: balance_def attempts_def, simp_all add: e emit_def)
  have "told w1 \<Longrightarrow> told (w2\<lparr>wk_closed_as := Some a\<rparr>)" for a
    using told_event [OF _ r, of w1 Closed "cj_reason j" None] by (simp add: e told_def)
  then have "pays (Some PClose) w1 (w2\<lparr>wk_closed_as := Some a\<rparr>)" for a
    using bal f1 r
    by (simp add: pays_def) (simp add: e emit_def state_event_def closes_def opens_def
        opened_event_def rows_only_def bare_payload_def)
  then have "pays (Some PClose) w1 (settle_promise PClose a (w2\<lparr>wk_closed_as := Some b\<rparr>))" for a b
    by (rule pays_then_keeps [OF _ keeps_settle_promise])
  then show ?thesis
    unfolding close_terminate_def Let_def rows_of_def [symmetric] w1_def [symmetric]
      w2_def [symmetric]
    by (intro keeps_pays [OF keeps_trans [OF w k1]])
qed

section \<open>Every activity\<close>

lemma pays_run_close_out: "keeps w v \<Longrightarrow> ladder_kind u = k \<Longrightarrow> pays k w (run_close_out c u v)"
  by (auto simp: run_close_out_def split: option.split intro!: pays_spawn' keeps_intros
      elim!: keeps_norm_step')

lemma pays_reclaim: "keeps w v \<Longrightarrow> reclaim_kind u = k \<Longrightarrow> pays k w (reclaim_process f u v)"
  by (auto simp: reclaim_process_def Let_def split: option.split intro!: pays_spawn' keeps_intros)

lemma pays_open_process: "keeps w v \<Longrightarrow> open_kind u = k \<Longrightarrow> pays k w (open_process u v)"
  by (auto simp: open_process_def intro!: pays_spawn' keeps_intros)

lemma pays_close_kill:
  "keeps w v \<Longrightarrow> in_flight PClose w \<Longrightarrow> pays (Some PClose) w (close_kill c j v)"
  by (auto simp: close_kill_def split: option.split intro!: pays_spawn' keeps_intros
      pays_close_terminate)

lemma pays_close_ladder:
  "keeps w v \<Longrightarrow> in_flight PClose w \<Longrightarrow> pays (Some PClose) w (close_ladder c j v)"
  by (auto simp: close_ladder_def intro!: pays_run_close_out pays_close_kill)

lemma pays_close_settled:
  "keeps w v \<Longrightarrow> in_flight PClose w \<Longrightarrow> pays (Some PClose) w (close_settled c j v)"
  by (auto simp: close_settled_def Let_def split: option.split
      intro!: pays_spawn' pays_close_ladder keeps_intros)

lemma keeps_retry_later [keeps_intros]: "keeps w v \<Longrightarrow> keeps w (retry_later c e v)"
  by (auto simp: retry_later_def rows intro!: keeps_intros)

lemma pays_wake_failed:
  "keeps w v \<Longrightarrow> wk_waking w \<Longrightarrow> pays (Some PWake) w (wake_failed c e v)"
  by (auto simp: wake_failed_def Let_def intro!: pays_close_with pays_end_wake keeps_intros)

lemma pays_restart_failed:
  "keeps w v \<Longrightarrow> wk_restarting w \<Longrightarrow> pays (Some PRestart) w (restart_failed c e v)"
  by (auto simp: restart_failed_def Let_def intro!: pays_end_restart keeps_intros)

lemma pays_after_reclaim:
  "keeps w v \<Longrightarrow> wk_restarting w \<Longrightarrow> pays (Some PRestart) w (after_reclaim c j v)"
  by (auto simp: after_reclaim_def split: option.split
      intro!: pays_spawn' pays_open_process pays_end_restart keeps_intros)

lemma pays_restart_settled:
  "keeps w v \<Longrightarrow> wk_restarting w \<Longrightarrow> pays (Some PRestart) w (restart_settled c j v)"
  by (auto simp: restart_settled_def Let_def rows
      intro!: pays_after_reclaim pays_reclaim pays_run_close_out keeps_intros)

lemma pays_restart_opened: "keeps w v \<Longrightarrow> pays (Some PRestart) w (restart_opened j v)"
  by (auto simp: restart_opened_def split: option.split
      intro!: pays_spawn' pays_reclaim keeps_intros)

lemma keeps_opened:
  assumes "reason = HandshakeOk \<or> reason = Resumed" "rows_only f" "keeps u v"
    "same_view (v\<lparr>wk_generation := wk_generation v + 1\<rparr>) w"
  shows "keeps u (set_state c Ready reason turn f w)"
  by (rule keeps_trans [OF assms(3) keeps_open_state]) (use assms in auto)

lemma pays_restart_ready:
  "keeps w v \<Longrightarrow> wk_restarting w \<Longrightarrow> pays (Some PRestart) w (restart_ready c j s v)"
  unfolding restart_ready_def Let_def
  by (rule pays_end_restart [OF keeps_opened [where v = v]])
    (simp_all add: rows same_view_def adopt_session_def)

lemma pays_wake_ready:
  "keeps w v \<Longrightarrow> wk_waking w \<Longrightarrow> pays (Some PWake) w (wake_ready c s v)"
  unfolding wake_ready_def Let_def
  by (rule pays_end_wake [OF keeps_opened [where v = v]])
    (simp_all add: rows same_view_def adopt_session_def)

lemma keeps_start_ready: "keeps w v \<Longrightarrow> keeps w (start_ready c x s v)"
  unfolding start_ready_def
  by (rule keeps_emit [OF keeps_opened [where v = v]]) (simp_all add: same_view_def adopt_session_def)

lemma keeps_start_failed: "keeps w v \<Longrightarrow> keeps w (start_failed c x r f e v)"
  by (auto simp: start_failed_def intro!: keeps_intros)

lemma keeps_crash_reclaimed: "keeps w v \<Longrightarrow> keeps w (crash_reclaimed c v)"
  by (auto simp: crash_reclaimed_def Let_def rows intro!: keeps_intros)

lemma keeps_roll_back [keeps_intros]: "keeps w v \<Longrightarrow> keeps w (roll_back x e v)"
  by (auto simp: roll_back_def intro!: keeps_intros)

lemma keeps_send_prompt [keeps_intros]: "keeps w v \<Longrightarrow> keeps w (send_prompt t b v)"
  by (auto simp: send_prompt_def intro!: keeps_intros)

lemma keeps_drive [keeps_intros]: "keeps w v \<Longrightarrow> keeps w (drive_prompt c t v)"
  by (auto simp: drive_prompt_def intro!: keeps_intros)

lemma keeps_admit [keeps_intros]: "keeps w v \<Longrightarrow> keeps w (admit_prompt c x v)"
  by (auto simp: admit_prompt_def Let_def intro!: keeps_intros)

lemma keeps_begin_turn: "keeps w v \<Longrightarrow> keeps w (begin_turn c x t v)"
  by (auto simp: begin_turn_def split: option.split intro!: keeps_intros elim!: keeps_norm_step')

lemma keeps_credential [keeps_intros]: "keeps w v \<Longrightarrow> keeps w (credential_done c j a v)"
  by (auto simp: credential_done_def credential_event_def intro!: keeps_intros)

lemma keeps_linked: "keeps w v \<Longrightarrow> keeps w (credential_linked c j v)"
  by (auto simp: credential_linked_def intro!: keeps_intros)

lemma keeps_answer_call [keeps_intros]:
  "keeps w v \<Longrightarrow> cont_kind k = None \<Longrightarrow> keeps w (answer_call k r v)"
  by (auto simp: answer_call_def split: cont.split intro!: keeps_intros)

lemma keeps_hibernate_worker:
  assumes "keeps u w" "cont_kind k = None"
  shows "keeps u (hibernate_worker c k w)"
proof (cases "\<not> wk_hib_promise w \<and> wk_state w \<noteq> Hibernated \<and> hibernate_refusal c w = None")
  case True
  let ?v = "settle_interactions c ''hibernate'' (w\<lparr>wk_hibernating := True, wk_hib_promise := True\<rparr>)"
  have "keeps w (spawn HibSettling ?v)"
  proof (rule keeps_begin [of PHibernate])
    show "in_flight r ?v = (in_flight r w \<or> r = PHibernate)" for r
      by (cases r) (simp_all add: settle_interactions_def emit_def)
  qed (use True in \<open>simp_all add: settle_interactions_def emit_def\<close>)
  then have "keeps u (spawn HibSettling ?v)" by (rule keeps_trans [OF assms(1)])
  then have "keeps u (spawn (Awaiting PHibernate k) (spawn HibSettling ?v))"
    by (rule keeps_spawn') (simp add: assms)
  then show ?thesis using True by (simp add: hibernate_worker_def)
next
  case False
  then show ?thesis
    using assms by (auto simp: hibernate_worker_def split: option.split intro!: keeps_spawn')
qed

lemma pays_do_wake: "keeps w v \<Longrightarrow> pays (Some PWake) w (do_wake c v)"
  by (auto simp: do_wake_def rows split: option.split
      intro!: pays_close_with pays_open_process keeps_intros)

lemma pays_wake_begins:
  assumes "\<not> wk_waking w" and x: "pays (Some PWake) (w\<lparr>wk_state := s, wk_waking := True\<rparr>) x"
  shows "pays None w x"
proof -
  let ?v = "w\<lparr>wk_state := s, wk_waking := True\<rparr>"
  have v: "balance p ?v = balance p w - of_bool (p = PWake)" for p
    using assms(1) by (cases p) (simp_all add: balance_def attempts_def)
  have "balance p x = balance p ?v + of_bool (Some PWake = Some p)" for p
    using x unfolding pays_def by blast
  then have "balance p x = balance p w" for p
    unfolding v by (simp add: eq_commute [of PWake])
  then show ?thesis using x by (simp add: pays_def told_def)
qed

lemma pays_wake_worker:
  assumes "cont_kind k = None"
  shows "pays None w (wake_worker c k w)"
proof (cases "\<not> wk_waking w \<and> wk_state w = Hibernated")
  case True
  then have "pays None w (do_wake c (w\<lparr>wk_state := Starting, wk_waking := True\<rparr>))"
    by (intro pays_wake_begins [where s = Starting] pays_do_wake) simp_all
  then have "pays None w (spawn (Awaiting PWake k) (do_wake c (w\<lparr>wk_state := Starting, wk_waking := True\<rparr>)))"
    by (rule pays_then_keeps) (intro keeps_intros, simp_all add: assms)
  then show ?thesis using True by (simp add: wake_worker_def)
next
  case False
  then have "keeps w (wake_worker c k w)"
    using assms by (auto simp: wake_worker_def intro!: keeps_intros)
  then show ?thesis by (rule pays_keeps)
qed

lemma pays_answer_call: "keeps w v \<Longrightarrow> pays (cont_kind k) w (answer_call k r v)"
  by (auto simp: answer_call_def split: cont.split intro!: pays_spawn' pays_keeps keeps_intros)

lemma pays_crash_settled: "keeps w v \<Longrightarrow> pays None w (crash_settled c e t v)"
  by (auto simp: crash_settled_def Let_def intro!: pays_reclaim keeps_intros)

lemma pays_cancel_settled: "pays (cont_kind k) w (cancel_settled c k t w)"
  by (auto simp: cancel_settled_def Let_def split: option.split intro!: pays_spawn' keeps_intros)

lemma pays_run_cont:
  assumes "\<And>p. cont_kind k = Some p \<Longrightarrow> in_flight p w"
  shows "pays (cont_kind k) w (run_cont c k r w)"
  using assms
  by (cases k) (auto split: worker_reply.split intro!: pays_end_wake pays_keeps keeps_intros)

lemma pays_run_ladder:
  assumes "keeps u w" "\<And>p. ladder_kind x = Some p \<Longrightarrow> in_flight p u"
  shows "pays (ladder_kind x) u (run_ladder_user c x w)"
  using assms
  by (cases x) (auto intro!: pays_reclaim pays_close_kill pays_keeps keeps_intros)

lemma pays_run_reclaimed:
  assumes "keeps u w" "\<And>p. reclaim_kind x = Some p \<Longrightarrow> in_flight p u"
  shows "pays (reclaim_kind x) u (run_reclaimed c x w)"
proof (cases x)
  case RcHibernate
  with assms have "wk_hib_promise w" using keeps_in_flight [of u w PHibernate] by simp
  with RcHibernate show ?thesis using keeps_pays [OF assms(1) pays_hibernated] by simp
qed (use assms in \<open>auto intro!: pays_after_reclaim pays_wake_failed pays_restart_failed
      pays_keeps keeps_crash_reclaimed\<close>)

lemma pays_run_spawned: "keeps u w \<Longrightarrow> pays (open_kind x) u (run_spawned c x w)"
  by (cases x) (auto intro!: pays_spawn' pays_restart_opened keeps_intros)

lemma pays_run_spawn_failed: "keeps u w \<Longrightarrow> pays (open_kind x) u (run_spawn_failed c x e w)"
  by (cases x) (auto intro!: pays_reclaim pays_keeps keeps_start_failed)

lemma pays_run_opened:
  assumes "keeps u w" "\<And>p. open_kind x = Some p \<Longrightarrow> in_flight p u"
  shows "pays (open_kind x) u (run_opened c x s w)"
  using assms
  by (cases x) (auto intro!: pays_wake_ready pays_restart_ready pays_keeps keeps_start_ready)

lemma pays_run_open_failed: "keeps u w \<Longrightarrow> pays (open_kind x) u (run_open_failed c x e w)"
  by (cases x) (auto intro!: pays_reclaim pays_keeps keeps_start_failed)

lemmas pays_parts = pays_run_cont pays_run_ladder pays_run_reclaimed pays_run_spawned
  pays_run_spawn_failed pays_run_opened pays_run_open_failed pays_close_settled pays_close_ladder
  pays_close_terminate pays_restart_settled pays_run_close_out pays_reclaim pays_open_process

lemma pays_run_pc:
  assumes "run_pc c q r w = Some w'" and "\<And>p. pc_kind q = Some p \<Longrightarrow> in_flight p w"
  shows "pays (pc_kind q) w w'"
proof (cases q)
  case (CrashSettling e t)
  then show ?thesis
    using assms by (auto simp: on_fine_def split: outcome.splits intro: pays_crash_settled)
qed (use assms in \<open>auto simp: on_fine_def prompt_answered_def patch_ended_def prompt_refused_def
      Let_def cancel_notified_def hibernate_settled_def
      split: outcome.splits if_splits option.splits
      intro!: pays_parts pays_answer_call pays_cancel_settled pays_end_restart pays_keeps
        keeps_begin_turn keeps_linked keeps_intros\<close>)

section \<open>Every input\<close>

definition balanced :: "worker \<Rightarrow> bool" where
  "balanced w \<longleftrightarrow> (\<forall>p. balance p w = 0)"

lemma pcs_of_nonneg: "0 \<le> pcs_of p qs"
  by (simp add: pcs_of_def)

lemma pcs_of_drop_nth:
  "i < length qs \<Longrightarrow> pcs_of p (drop_nth i qs) = pcs_of p qs - of_bool (pc_kind (qs ! i) = Some p)"
  unfolding drop_nth_def by (subst (3) id_take_nth_drop [of i qs]) simp_all

lemma attempt_runs:
  assumes "balanced w" "i < length (wk_pcs w)" "pc_kind (wk_pcs w ! i) = Some p"
  shows "in_flight p w"
proof (rule ccontr)
  assume "\<not> in_flight p w"
  with assms(1) have "pcs_of p (wk_pcs w) = 0" by (simp add: balanced_def balance_def attempts_def)
  moreover have "0 \<le> pcs_of p (drop_nth i (wk_pcs w))" by (rule pcs_of_nonneg)
  ultimately show False using assms by (simp add: pcs_of_drop_nth)
qed

lemma pays_resume:
  assumes "balanced w"
  shows "pays None w (resume_pc c i r w)"
proof (cases "i < length (wk_pcs w)")
  case True
  let ?q = "wk_pcs w ! i" and ?v = "w\<lparr>wk_pcs := drop_nth i (wk_pcs w)\<rparr>"
  have fl: "in_flight p ?v = in_flight p w" for p by (cases p) simp_all
  have v: "balance p ?v = balance p w - of_bool (pc_kind ?q = Some p)" for p
    using True fl by (simp add: balance_def attempts_def pcs_of_drop_nth)
  show ?thesis
  proof (cases "run_pc c ?q r ?v")
    case None
    with True show ?thesis by (simp add: resume_pc_def pays_keeps)
  next
    case (Some w')
    have "pays (pc_kind ?q) ?v w'"
      using Some attempt_runs [OF assms True] fl by (intro pays_run_pc) auto
    then have "pays None w w'" using v by (simp add: pays_def told_def)
    with True Some show ?thesis by (simp add: resume_pc_def)
  qed
qed (simp add: resume_pc_def pays_keeps)

lemma plain_strategy: "plain (map strategy_event es)"
  by (induction es) (auto simp: strategy_event_def split: sum.split)

lemma keeps_park [keeps_intros]: "keeps w v \<Longrightarrow> keeps w (park_worker c x v)"
  by (auto simp: park_worker_def Let_def rows intro!: keeps_intros)

lemma keeps_unpark [keeps_intros]: "keeps w v \<Longrightarrow> keeps w (unpark_worker c x v)"
  by (auto simp: unpark_worker_def Let_def rows intro!: keeps_intros)

lemma keeps_cancel_worker [keeps_intros]:
  "keeps w v \<Longrightarrow> cont_kind k = None \<Longrightarrow> keeps w (cancel_worker c k v)"
  by (auto simp: cancel_worker_def intro!: keeps_intros)

lemma keeps_run_close_out [keeps_intros]:
  "keeps w v \<Longrightarrow> ladder_kind u = None \<Longrightarrow> keeps w (run_close_out c u v)"
  by (auto simp: run_close_out_def split: option.split intro!: keeps_intros elim!: keeps_norm_step')

lemma keeps_classify [keeps_intros]: "keeps w v \<Longrightarrow> keeps w (classify_and_close c ex rq t v)"
  by (auto simp: classify_and_close_def Let_def crashed_hibernation_def intro!: keeps_intros)

lemma keeps_open_start: "keeps w v \<Longrightarrow> keeps w (open_process (OpStart x) v)"
  by (auto simp: open_process_def intro!: keeps_intros)

lemma pays_prompt_worker: "pays None w (prompt_worker c x w)"
  by (cases "wk_state w = Hibernated")
    (simp_all add: prompt_worker_def pays_wake_worker pays_keeps [OF keeps_admit])

lemma pays_on_input:
  assumes "balanced w"
  shows "pays None w (on_input c i w)"
proof (cases i)
  case (CallPrompt x h)
  then show ?thesis
    by (auto simp: gated_def intro!: pays_prompt_worker pays_keeps [OF keeps_emit])
next
  case (CallWake x h)
  then show ?thesis
    by (auto simp: gated_def intro!: pays_wake_worker pays_keeps [OF keeps_emit])
next
  case (GoOn n r)
  then show ?thesis using assms by (simp add: pays_resume)
qed (auto simp: gated_def start_worker_def cancel_inside_def cancel_due_def tick_due_def
      process_exited_def stdout_ended_def exit_grace_due_def backstop_due_def Let_def
      set_credential_def emit_from_strategy_def plain_strategy
      split: option.split prod.split
      intro!: pays_keeps keeps_open_start keeps_hibernate_worker keeps_intros)

section \<open>Reachable workers\<close>

definition worker_inv :: "worker \<Rightarrow> bool" where
  "worker_inv w \<longleftrightarrow> balanced w \<and> told w \<and>
     closes (wk_trace w) = of_bool (wk_closed_as w \<noteq> None) \<and>
     wk_generation w = opens (wk_trace w)"

lemma pays_inv: "pays None w w' \<Longrightarrow> worker_inv w \<Longrightarrow> worker_inv w'"
  by (auto simp: pays_def worker_inv_def balanced_def)

lemma inv_now: "worker_inv (w\<lparr>wk_now := t\<rparr>) = worker_inv w"
proof -
  have "in_flight p (w\<lparr>wk_now := t\<rparr>) = in_flight p w" for p by (cases p) simp_all
  then show ?thesis by (simp add: worker_inv_def balanced_def balance_def attempts_def told_def)
qed

lemma pays_step: "worker_inv w \<Longrightarrow> pays None (w\<lparr>wk_now := fst i\<rparr>) (worker_step c w i)"
  using inv_now [where w = w and t = "fst i"] by (simp add: worker_step_def pays_on_input worker_inv_def)

interpretation workers: monotone_machine "worker_step c" worker_inv wk_generation for c
proof
  show "worker_inv (worker_step c s op)" if "worker_inv s" for s op
    using pays_inv [OF pays_step [OF that]] inv_now that by blast
  show "wk_generation s \<le> wk_generation (worker_step c s op)" if "worker_inv s" for s op
    using pays_step [OF that, of op c] by (simp add: pays_def)
qed

lemma new_worker_inv: "worker_inv new_worker"
proof -
  have "balance p new_worker = 0" for p
    by (cases p) (simp_all add: balance_def attempts_def new_worker_def)
  then show ?thesis
    by (simp add: worker_inv_def balanced_def told_def closes_def opens_def)
      (simp add: new_worker_def)
qed

lemma reachable_inv: "worker_inv (worker_run c new_worker is)"
  unfolding worker_run_def by (rule workers.run_inv [OF new_worker_inv])

lemma crashed_stays: "worker_inv w \<Longrightarrow> wk_crashed w \<Longrightarrow> wk_crashed (worker_run c w is)"
proof (induction "is" arbitrary: w)
  case (Cons i "is")
  from Cons.prems have "wk_crashed (worker_step c w i)" "worker_inv (worker_step c w i)"
    using pays_step [OF Cons.prems(1), where i = i and c = c] workers.step_inv [OF Cons.prems(1)]
    by (simp_all add: pays_def)
  with Cons.IH show ?case by (simp add: worker_run_def)
qed (simp add: worker_run_def)

lemma answer_stays:
  "worker_inv w \<Longrightarrow> wk_closed_as w = Some r \<Longrightarrow> wk_closed_as (worker_run c w is) = Some r"
proof (induction "is" arbitrary: w)
  case (Cons i "is")
  from Cons.prems have "wk_closed_as (worker_step c w i) = Some r" "worker_inv (worker_step c w i)"
    using pays_step [OF Cons.prems(1), where i = i and c = c] workers.step_inv [OF Cons.prems(1)]
    by (simp_all add: pays_def)
  with Cons.IH show ?case by (simp add: worker_run_def)
qed (simp add: worker_run_def)

end
