(* ===== verification/WorkerQuiet.thy ===== *)
theory WorkerQuiet
  imports WorkerInv
begin

text \<open>
  A closed worker none of whose waiting activities is about to open, reclaim, restart or admit
  anything stays closed. \<open>still\<close> says what an operation on it may change; it composes like \<open>keeps\<close>.
\<close>

fun calm_pc :: "pc \<Rightarrow> bool" where
  "calm_pc (LadderWait u) = (u = LdCancel)"
| "calm_pc (LadderOver u) = (u = LdCancel)"
| "calm_pc (LadderSkipped u) = (u = LdCancel)"
| "calm_pc (Reclaiming u l) = False"
| "calm_pc (Spawning u) = False"
| "calm_pc (Opening u) = False"
| "calm_pc (Validating x t) = False"
| "calm_pc HibSettling = False"
| "calm_pc (RestartSettling j) = False"
| "calm_pc (RestartRelinking j) = False"
| "calm_pc (CrashSettling e t) = False"
| "calm_pc (CloseSettling j) = False"
| "calm_pc (ClosingSession j) = False"
| "calm_pc (CloseTerminating j) = False"
| "calm_pc q = True"

definition at_rest :: "worker \<Rightarrow> bool" where
  "at_rest w \<longleftrightarrow> wk_state w = Closed \<and> wk_closing w \<and> wk_closed_as w \<noteq> None \<and>
     list_all calm_pc (wk_pcs w)"

definition still :: "worker \<Rightarrow> worker \<Rightarrow> bool" where
  "still w v \<longleftrightarrow> at_rest v \<and> payloads (wk_trace v) = payloads (wk_trace w) \<and>
     wk_close_reason v = wk_close_reason w \<and> wk_generation v = wk_generation w \<and>
     wk_closed_as v = wk_closed_as w"

named_theorems still_intros \<open>operations on a worker at rest\<close>

lemma still_refl: "at_rest w \<Longrightarrow> still w w"
  by (simp add: still_def)

lemma still_facts:
  assumes "still w v"
  shows "wk_state v = Closed" "wk_closing v" "\<exists>r. wk_closed_as v = Some r"
  using assms by (auto simp: still_def at_rest_def)

lemma still_fields [still_intros]:
  assumes "still w v"
  shows "still w (v\<lparr>wk_now := x_now\<rparr>)"
    "still w (v\<lparr>wk_session := x_session\<rparr>)"
    "still w (v\<lparr>wk_method := x_method\<rparr>)"
    "still w (v\<lparr>wk_can_close := x_can_close\<rparr>)"
    "still w (v\<lparr>wk_turn := x_turn\<rparr>)"
    "still w (v\<lparr>wk_turns := x_turns\<rparr>)"
    "still w (v\<lparr>wk_hibernated_at := x_hibernated_at\<rparr>)"
    "still w (v\<lparr>wk_wake_count := x_wake_count\<rparr>)"
    "still w (v\<lparr>wk_wake_failures := x_wake_failures\<rparr>)"
    "still w (v\<lparr>wk_report := x_report\<rparr>)"
    "still w (v\<lparr>wk_replay := x_replay\<rparr>)"
    "still w (v\<lparr>wk_parked := x_parked\<rparr>)"
    "still w (v\<lparr>wk_blinded := x_blinded\<rparr>)"
    "still w (v\<lparr>wk_wrote := x_wrote\<rparr>)"
    "still w (v\<lparr>wk_norm := x_norm\<rparr>)"
    "still w (v\<lparr>wk_proc := x_proc\<rparr>)"
    "still w (v\<lparr>wk_procs := x_procs\<rparr>)"
    "still w (v\<lparr>wk_link := x_link\<rparr>)"
    "still w (v\<lparr>wk_link_closed := x_link_closed\<rparr>)"
    "still w (v\<lparr>wk_agent_gone := x_agent_gone\<rparr>)"
    "still w (v\<lparr>wk_ladder := x_ladder\<rparr>)"
    "still w (v\<lparr>wk_pin := x_pin\<rparr>)"
    "still w (v\<lparr>wk_tick := x_tick\<rparr>)"
    "still w (v\<lparr>wk_cancel := x_cancel\<rparr>)"
    "still w (v\<lparr>wk_exit_grace := x_exit_grace\<rparr>)"
    "still w (v\<lparr>wk_backstop := x_backstop\<rparr>)"
    "still w (v\<lparr>wk_hibernating := x_hibernating\<rparr>)"
    "still w (v\<lparr>wk_hib_promise := x_hib_promise\<rparr>)"
    "still w (v\<lparr>wk_waking := x_waking\<rparr>)"
    "still w (v\<lparr>wk_restarting := x_restarting\<rparr>)"
    "still w (v\<lparr>wk_stale := x_stale\<rparr>)"
    "still w (v\<lparr>wk_pending_restart := x_pending_restart\<rparr>)"
    "still w (v\<lparr>wk_crashed := x_crashed\<rparr>)"
  using assms by (auto simp: still_def at_rest_def)

lemma still_emit [still_intros]: "still w v \<Longrightarrow> state_payload a = None \<Longrightarrow> still w (emit a v)"
  by (auto simp: still_def at_rest_def emit_def)

lemma still_log_all [still_intros]: "still w v \<Longrightarrow> plain es \<Longrightarrow> still w (log_all es v)"
  by (auto simp: still_def at_rest_def log_all_def payloads_plain)

lemma still_spawn [still_intros]: "still w v \<Longrightarrow> calm_pc q \<Longrightarrow> still w (spawn q v)"
  by (auto simp: still_def at_rest_def spawn_def)

lemma still_settle [still_intros]: "still w v \<Longrightarrow> still w (settle_promise p r v)"
  by (auto simp: still_def at_rest_def settle_promise_def list.pred_map comp_def
      elim!: list.pred_mono_strong split: pc.split)

lemma still_release [still_intros]: "still w v \<Longrightarrow> still w (release_ladder v)"
  by (auto simp: still_def at_rest_def release_ladder_def list.pred_map comp_def
      elim!: list.pred_mono_strong split: pc.split)

lemma still_small [still_intros]:
  assumes "still w v"
  shows "still w (watch c sig v)" "still w (unpin_lease v)" "still w (settle_interactions c why v)"
    "still w (settled_interactions c v)" "still w (clear_timers v)" "still w (reschedule_tick due v)"
    "still w (abandon_patch b v)" "still w (observe_event v e)" "still w (close_with c j k v)"
    "still w (answer_call k r v)" "still w (send_prompt t b v)"
  using assms still_facts(3) [OF assms]
  by (auto simp: watch_def unpin_lease_def settle_interactions_def settled_interactions_def
      clear_timers_def reschedule_tick_def abandon_patch_def observe_event_def close_with_def
      answer_call_def send_prompt_def
      split: event_body.split cont.split intro!: still_intros)

lemma still_observe [still_intros]: "still w v \<Longrightarrow> still w (foldl observe_event v es)"
  by (induction es arbitrary: v) (auto intro: still_small)

lemma still_perform [still_intros]: "still w v \<Longrightarrow> still w (perform c a v)"
  by (auto simp: perform_def split: option.split close_out_action.split intro!: still_intros)

lemma still_after_step [still_intros]:
  assumes "still w v" shows "still w (after_step c out v)"
proof -
  have "still w (perform c (out_action out) v)" using assms by (rule still_perform)
  then have "still w (watch c TurnEnd (unpin_lease
      ((release_ladder (perform c (out_action out) v))\<lparr>wk_cancel := None, wk_turn := None\<rparr>)))"
    by (auto intro!: still_intros)
  with assms show ?thesis
    by (auto simp: after_step_def Let_def still_facts intro!: still_intros)
qed

lemma still_norm_step: "norm_step c i v = Some (v', out) \<Longrightarrow> still w v \<Longrightarrow> still w v'"
  by (auto simp: norm_step_def Let_def plain_step split: sum.splits prod.splits intro!: still_intros)

lemma still_feed [still_intros]: "still w v \<Longrightarrow> still w (feed_worker c i v)"
  by (auto simp: feed_worker_def split: option.split intro: still_norm_step)

lemma still_restart [still_intros]: "still w v \<Longrightarrow> still w (restart_with c b k v)"
  by (auto simp: restart_with_def restart_refusal_def still_facts intro!: still_intros)

lemma still_close_out [still_intros]: "still w v \<Longrightarrow> still w (run_close_out c LdCancel v)"
  by (auto simp: run_close_out_def split: option.split intro!: still_intros elim!: still_norm_step)

lemma still_credential [still_intros]: "still w v \<Longrightarrow> still w (credential_done c j a v)"
  by (auto simp: credential_done_def credential_event_def intro!: still_intros)

lemma still_wake [still_intros]: "still w v \<Longrightarrow> still w (wake_worker c k v)"
  by (auto simp: wake_worker_def still_facts intro!: still_intros)

lemma still_admit [still_intros]: "still w v \<Longrightarrow> still w (admit_prompt c x v)"
  by (auto simp: admit_prompt_def still_facts intro!: still_intros)

lemma still_run_cont: "still w v \<Longrightarrow> still w (run_cont c k r v)"
  by (cases k) (auto simp: end_wake_def split: worker_reply.split intro!: still_intros)

lemma still_run_pc:
  assumes "run_pc c q r v = Some v'" "calm_pc q" "still w v"
  shows "still w v'"
  using assms
  by (cases q)
    (auto simp: on_fine_def prompt_answered_def patch_ended_def prompt_refused_def stale_turn_def
      cancel_settled_def cancel_notified_def credential_linked_def Let_def still_facts
      split: outcome.splits if_splits option.splits intro!: still_run_cont still_intros)

lemma still_resume:
  assumes "still w v" shows "still w (resume_pc c i r v)"
proof (cases "i < length (wk_pcs v)")
  case True
  let ?v = "v\<lparr>wk_pcs := drop_nth i (wk_pcs v)\<rparr>"
  have calm: "list_all calm_pc (wk_pcs v)" using assms by (auto simp: still_def at_rest_def)
  then have "list_all calm_pc (drop_nth i (wk_pcs v))"
    by (auto simp: drop_nth_def list_all_iff dest: in_set_takeD in_set_dropD)
  then have v: "still w ?v" using assms by (auto simp: still_def at_rest_def)
  have q: "calm_pc (wk_pcs v ! i)" using calm True by (simp add: list_all_length)
  show ?thesis
    using True assms still_run_pc [OF _ q v]
    by (auto simp: resume_pc_def split: option.split)
qed (simp add: resume_pc_def assms)

definition no_start :: "worker_input \<Rightarrow> bool" where
  "no_start i = (case i of CallStart x \<Rightarrow> False | _ \<Rightarrow> True)"

lemma still_on_input:
  assumes "still w v" "no_start i"
  shows "still w (on_input c i v)"
proof (cases i)
  case (GoOn n r)
  then show ?thesis using assms by (simp add: still_resume)
qed (use assms in \<open>auto simp: no_start_def gated_def prompt_worker_def cancel_worker_def
      cancel_inside_def cancel_due_def tick_due_def process_exited_def stdout_ended_def
      exit_grace_due_def backstop_due_def Let_def set_credential_def emit_from_strategy_def
      plain_strategy hibernate_worker_def hibernate_refusal_def park_worker_def unpark_worker_def
      still_facts
      split: option.split prod.split intro!: still_intros\<close>)

lemma still_step: "still w v \<Longrightarrow> no_start (snd i) \<Longrightarrow> still w (worker_step c v i)"
  unfolding worker_step_def by (intro still_on_input still_intros)

lemma still_run: "still w v \<Longrightarrow> list_all (\<lambda>i. no_start (snd i)) is \<Longrightarrow> still w (worker_run c v is)"
proof (induction "is" arbitrary: v)
  case (Cons i "is")
  then show ?case using still_step [of w v i c] by (simp add: worker_run_def)
qed (simp add: worker_run_def)

end
