(* ===== verification/WorkerWake.thy ===== *)
theory WorkerWake
  imports WorkerInv
begin

text \<open>
  The wake ladder: whole wakes of a sleeping worker, from the call to the answer, against the three
  places where the wake itself can leave it. \<open>wake_script\<close> is the sequence of inputs of one wake, nothing else
  coming in between, for each of its three outcomes: the session opened, the spawn failed, the reopening failed
  (an exit of the process during a wake is an input of the model, but of none of these scripts); where the
  worker has nothing left to do an input of a script changes nothing.
\<close>

datatype wake_result = WokeUp opened_session | NotSpawned worker_error | NotOpened worker_error

definition wake_script :: "call \<Rightarrow> ms \<Rightarrow> wake_result \<Rightarrow> (ms \<times> worker_input) list" where
  "wake_script x t res =
     map (\<lambda>i. (t, i))
      (case res of
         WokeUp s \<Rightarrow> [CallWake x True, GoOn 0 Fine, GoOn 1 (GotSession s), GoOn 0 Fine]
       | NotSpawned e \<Rightarrow>
           [CallWake x True, GoOn 0 (Wrong False e), GoOn 1 Fine, GoOn 1 Fine, GoOn 1 Fine, GoOn 0 Fine]
       | NotOpened e \<Rightarrow>
           [CallWake x True, GoOn 0 Fine, GoOn 1 (Wrong False e), GoOn 1 Fine, GoOn 1 Fine, GoOn 1 Fine,
            GoOn 0 Fine])"

datatype wake_place = Asleep int | Awake | Gone worker_reason

fun failed_rung :: "int \<Rightarrow> int \<Rightarrow> omni_code \<Rightarrow> wake_place" where
  "failed_rung mx n code =
     (if code = NotResumable then Gone NotResumableReason
      else if mx \<le> n + 1 then Gone WakeFailed else Asleep (n + 1))"

fun wake_rung :: "int \<Rightarrow> wake_place \<Rightarrow> wake_result \<Rightarrow> wake_place" where
  "wake_rung mx (Asleep n) (WokeUp s) = Awake"
| "wake_rung mx (Asleep n) (NotSpawned e) = failed_rung mx n (we_code e)"
| "wake_rung mx (Asleep n) (NotOpened e) = failed_rung mx n (we_code e)"
| "wake_rung mx p res = p"

definition sleeping :: "worker_config \<Rightarrow> worker \<Rightarrow> bool" where
  "sleeping c w \<longleftrightarrow> wk_state w = Hibernated \<and> wk_pcs w = [] \<and> wk_session w \<noteq> None \<and> wc_strategy c \<and>
     wk_proc w = None \<and> \<not> wk_waking w \<and> \<not> wk_restarting w \<and> \<not> wk_closing w \<and> wk_closed_as w = None \<and>
     \<not> wk_pending_restart w"

fun at_place :: "worker_config \<Rightarrow> wake_place \<Rightarrow> worker \<Rightarrow> bool" where
  "at_place c (Asleep n) w = (sleeping c w \<and> wk_wake_failures w = n)"
| "at_place c Awake w = (wk_state w = Ready \<and> wk_pcs w = [] \<and> \<not> wk_waking w)"
| "at_place c (Gone r) w = (wk_state w = Closed \<and> wk_pcs w = [] \<and> \<not> wk_waking w \<and>
     wk_session w = None \<and> wk_close_reason w = Some r \<and> wk_closed_as w \<noteq> None)"

section \<open>One wake, input by input\<close>

definition on_the_way :: "worker_config \<Rightarrow> int \<Rightarrow> pc list \<Rightarrow> worker \<Rightarrow> bool" where
  "on_the_way c n ps w \<longleftrightarrow> wk_state w = Starting \<and> wk_pcs w = ps \<and> wk_session w \<noteq> None \<and> wc_strategy c \<and>
     wk_waking w \<and> \<not> wk_restarting w \<and> \<not> wk_closing w \<and> wk_closed_as w = None \<and>
     \<not> wk_pending_restart w \<and> wk_wake_failures w = n"

lemmas on_defs = on_the_way_def sleeping_def worker_step_def spawn_def emit_def

lemma wake_called:
  assumes "sleeping c w" "wk_wake_failures w = n" "wk_session w = Some s"
  shows "on_the_way c n [Spawning (OpWake s), Awaiting PWake (ReplyTo x)]
    (worker_step c w (t, CallWake x True))"
  using assms
  by (simp add: on_defs gated_def wake_worker_def do_wake_def open_process_def set_state_def Let_def)

lemma wake_spawned:
  "on_the_way c n [Spawning (OpWake s), q] w \<Longrightarrow>
   on_the_way c n [q, Opening (OpWake s)] (worker_step c w (t, GoOn 0 Fine))"
  by (simp add: on_defs resume_pc_def drop_nth_def got_process_def)

lemma wake_not_spawned:
  "on_the_way c n [Spawning (OpWake s), q] w \<Longrightarrow>
   \<exists>l. on_the_way c n [q, Reclaiming (RcWake e) l] (worker_step c w (t, GoOn 0 (Wrong b e))) \<and>
       wk_proc (worker_step c w (t, GoOn 0 (Wrong b e))) = None"
  by (auto simp: on_defs resume_pc_def drop_nth_def reclaim_process_def Let_def split: option.splits)

lemma wake_not_opened:
  "on_the_way c n [q, Opening (OpWake s)] w \<Longrightarrow>
   \<exists>l. on_the_way c n [q, Reclaiming (RcWake e) l] (worker_step c w (t, GoOn 1 (Wrong b e))) \<and>
       wk_proc (worker_step c w (t, GoOn 1 (Wrong b e))) = None"
  by (auto simp: on_defs resume_pc_def drop_nth_def reclaim_process_def close_replay_def Let_def
      split: option.splits)

text \<open>A place with the answer of the call still to be given.\<close>

definition arrived :: "worker_config \<Rightarrow> wake_place \<Rightarrow> worker \<Rightarrow> bool" where
  "arrived c p w \<longleftrightarrow> (\<exists>k r. wk_pcs w = [Continues (ReplyTo k) r]) \<and> at_place c p (w\<lparr>wk_pcs := []\<rparr>)"

lemma wake_opened:
  "on_the_way c n [Awaiting PWake (ReplyTo x), Opening (OpWake s)] w \<Longrightarrow>
   arrived c Awake (worker_step c w (t, GoOn 1 (GotSession o')))"
  by (simp add: arrived_def on_defs resume_pc_def drop_nth_def close_replay_def wake_ready_def
      end_wake_def settle_promise_def set_state_def drain_pending_restart_def adopt_session_def Let_def)

lemma arrived_at:
  "arrived c p w \<Longrightarrow> at_place c p (worker_step c w (t, GoOn 0 Fine))"
  by (cases p)
    (auto simp: arrived_def on_defs resume_pc_def drop_nth_def on_fine_def)

lemma arrived_idle:
  "arrived c p w \<Longrightarrow> arrived c p (worker_step c w (t, GoOn 1 Fine))"
  by (cases p) (auto simp: arrived_def on_defs resume_pc_def)

text \<open>The failure half: the process is reclaimed, then the pointer is kept or given up.\<close>

lemma wake_retried:
  assumes "on_the_way c n [Awaiting PWake (ReplyTo x), Reclaiming (RcWake e) l] w" "wk_proc w = None"
    and "failed_rung (wc_max_wake_failures c) n (we_code e) = Asleep m"
  shows "arrived c (Asleep m) (worker_step c w (t, GoOn 1 Fine))"
  using assms
  by (auto simp: arrived_def on_defs resume_pc_def drop_nth_def on_fine_def shut_link_def
      wake_failed_def note_report_def end_wake_def settle_promise_def retry_later_def set_state_def
      Let_def split: if_splits option.splits)

definition giving_up :: "worker_config \<Rightarrow> call \<Rightarrow> worker_reason \<Rightarrow> pc list \<Rightarrow> worker \<Rightarrow> bool" where
  "giving_up c x r ps w \<longleftrightarrow> wk_pcs w = Awaiting PWake (ReplyTo x) # ps \<and> wk_session w = None \<and>
     wk_waking w \<and> wk_proc w = None \<and> wk_closing w \<and> \<not> death_reason r"

lemma wake_given_up:
  assumes "on_the_way c n [Awaiting PWake (ReplyTo x), Reclaiming (RcWake e) l] w" "wk_proc w = None"
    and "failed_rung (wc_max_wake_failures c) n (we_code e) = Gone r"
  shows "\<exists>j. giving_up c x r [CloseSettling j, Awaiting PClose (ThenThrowWake NotResumable)]
      (worker_step c w (t, GoOn 1 Fine)) \<and> cj_reason j = r \<and> cj_force j \<and>
    wk_closed_as (worker_step c w (t, GoOn 1 Fine)) = None"
  using assms
  by (auto simp: giving_up_def on_defs resume_pc_def drop_nth_def on_fine_def shut_link_def
      wake_failed_def note_report_def close_with_def settle_interactions_def close_for_def
      death_reason_def Let_def split: if_splits option.splits)

lemma closed_with_nothing:
  assumes "giving_up c x r [CloseSettling j, Awaiting PClose k] w" "cj_reason j = r" "cj_force j"
  shows "\<exists>a. giving_up c x r [Continues k a] (worker_step c w (t, GoOn 1 Fine)) \<and>
    wk_state (worker_step c w (t, GoOn 1 Fine)) = Closed \<and>
    wk_close_reason (worker_step c w (t, GoOn 1 Fine)) = Some r \<and>
    wk_closed_as (worker_step c w (t, GoOn 1 Fine)) \<noteq> None"
  using assms
  by (auto simp: giving_up_def worker_step_def emit_def resume_pc_def drop_nth_def on_fine_def
      close_settled_def settled_interactions_def unpin_lease_def clear_timers_def
      append_close_error_def close_ladder_def close_kill_def close_terminate_def shut_link_def
      set_state_def settle_promise_def Let_def split: option.splits)

lemma gave_up:
  assumes "giving_up c x r [Continues (ThenThrowWake code) a] w" "wk_state w = Closed"
    "wk_close_reason w = Some r" "wk_closed_as w \<noteq> None"
  shows "arrived c (Gone r) (worker_step c w (t, GoOn 1 Fine))"
  using assms
  by (auto simp: arrived_def giving_up_def worker_step_def resume_pc_def drop_nth_def on_fine_def
      end_wake_def settle_promise_def)

lemma wake_failure:
  assumes "on_the_way c n [Awaiting PWake (ReplyTo x), Reclaiming (RcWake e) l] w" "wk_proc w = None"
  shows "at_place c (failed_rung (wc_max_wake_failures c) n (we_code e))
    (worker_run c w [(t, GoOn 1 Fine), (t, GoOn 1 Fine), (t, GoOn 1 Fine), (t, GoOn 0 Fine)])"
proof (cases "failed_rung (wc_max_wake_failures c) n (we_code e)")
  case (Asleep m)
  from wake_retried [OF assms Asleep, of t] Asleep show ?thesis
    unfolding worker_run_def
    by (simp add: arrived_at arrived_idle [simplified] del: at_place.simps failed_rung.simps)
next
  case Awake
  then show ?thesis by (simp split: if_splits)
next
  case (Gone r)
  from wake_given_up [OF assms Gone, of t] obtain j where
    j: "giving_up c x r [CloseSettling j, Awaiting PClose (ThenThrowWake NotResumable)]
      (worker_step c w (t, GoOn 1 Fine))" "cj_reason j = r" "cj_force j" by blast
  from closed_with_nothing [OF j, of t] obtain a where
    "giving_up c x r [Continues (ThenThrowWake NotResumable) a]
      (worker_step c (worker_step c w (t, GoOn 1 Fine)) (t, GoOn 1 Fine))"
    "wk_state (worker_step c (worker_step c w (t, GoOn 1 Fine)) (t, GoOn 1 Fine)) = Closed"
    "wk_close_reason (worker_step c (worker_step c w (t, GoOn 1 Fine)) (t, GoOn 1 Fine)) = Some r"
    "wk_closed_as (worker_step c (worker_step c w (t, GoOn 1 Fine)) (t, GoOn 1 Fine)) \<noteq> None"
    by blast
  from gave_up [OF this, of t] Gone show ?thesis
    unfolding worker_run_def by (simp add: arrived_at del: at_place.simps failed_rung.simps)
qed

text \<open>A call on a worker that is awake or gone: the answer is ready at once.\<close>

lemma wake_called_elsewhere:
  assumes "at_place c p w" "p = Awake \<or> p = Gone r"
  shows "arrived c p (worker_step c w (t, CallWake x True))"
  using assms
  by (auto simp: arrived_def worker_step_def gated_def wake_worker_def spawn_def)

lemma arrived_ignores:
  assumes "arrived c p w" "out \<noteq> Fine"
  shows "arrived c p (worker_step c w (t, GoOn i out))"
  using assms
  by (cases p; cases out; cases i) (auto simp: arrived_def on_defs resume_pc_def on_fine_def)

lemma at_place_ignores: "at_place c p w \<Longrightarrow> at_place c p (worker_step c w (t, GoOn i out))"
  by (cases p) (auto simp: worker_step_def resume_pc_def sleeping_def)

lemma wake_elsewhere:
  assumes "at_place c p w" "p = Awake \<or> (\<exists>r. p = Gone r)"
  shows "at_place c p (worker_run c w (wake_script x t res))"
proof -
  have "arrived c p (worker_step c w (t, CallWake x True))"
    using assms wake_called_elsewhere by blast
  then show ?thesis
    unfolding worker_run_def wake_script_def
    by (cases res)
      (simp_all add: arrived_at at_place_ignores arrived_idle [simplified] arrived_ignores)
qed

lemma wake_climbs:
  assumes "at_place c p w"
  shows "at_place c (wake_rung (wc_max_wake_failures c) p res) (worker_run c w (wake_script x t res))"
proof (cases p)
  case (Asleep n)
  from assms Asleep obtain s where w: "sleeping c w" "wk_wake_failures w = n" "wk_session w = Some s"
    by (auto simp: sleeping_def)
  note called = wake_called [OF w, of x t]
  show ?thesis
  proof (cases res)
    case (WokeUp o')
    from wake_opened [OF wake_spawned [OF called]] Asleep WokeUp show ?thesis
      unfolding worker_run_def wake_script_def by (simp add: arrived_at del: at_place.simps)
  next
    case (NotSpawned e)
    from wake_not_spawned [OF called, where e = e and t = t] obtain l where
      l: "on_the_way c n [Awaiting PWake (ReplyTo x), Reclaiming (RcWake e) l]
        (worker_step c (worker_step c w (t, CallWake x True)) (t, GoOn 0 (Wrong False e)))"
      "wk_proc (worker_step c (worker_step c w (t, CallWake x True)) (t, GoOn 0 (Wrong False e))) = None"
      by blast
    from wake_failure [OF this, of t] Asleep NotSpawned show ?thesis
      unfolding worker_run_def wake_script_def by (simp del: at_place.simps failed_rung.simps)
  next
    case (NotOpened e)
    from wake_not_opened [OF wake_spawned [OF called, of t], where e = e and t = t] obtain l where
      l: "on_the_way c n [Awaiting PWake (ReplyTo x), Reclaiming (RcWake e) l]
        (worker_step c (worker_step c (worker_step c w (t, CallWake x True)) (t, GoOn 0 Fine))
          (t, GoOn 1 (Wrong False e)))"
      "wk_proc (worker_step c (worker_step c (worker_step c w (t, CallWake x True)) (t, GoOn 0 Fine))
          (t, GoOn 1 (Wrong False e))) = None"
      by blast
    from wake_failure [OF this, of t] Asleep NotOpened show ?thesis
      unfolding worker_run_def wake_script_def by (simp del: at_place.simps failed_rung.simps)
  qed
qed (use assms wake_elsewhere [of c p w x t res] in \<open>cases res; auto\<close>)+

text \<open>Any number of wakes, one after the other.\<close>

fun wakes :: "call \<Rightarrow> ms \<Rightarrow> wake_result list \<Rightarrow> (ms \<times> worker_input) list" where
  "wakes x t [] = []"
| "wakes x t (r # rs) = wake_script x t r @ wakes (Suc x) t rs"

lemma wakes_climb:
  "at_place c p w \<Longrightarrow>
   at_place c (foldl (wake_rung (wc_max_wake_failures c)) p rs) (worker_run c w (wakes x t rs))"
proof (induction rs arbitrary: p w x)
  case (Cons r rs)
  then show ?case
    using Cons.IH [OF wake_climbs [OF Cons.prems, of r x t]] by (simp add: worker_run_def)
qed (simp add: worker_run_def)

end
