(* ===== verification/WorkerPaths.thy ===== *)
theory WorkerPaths
  imports WorkerInv
begin

text \<open>
  Two whole paths of the worker, from the signal or the call to the last state event: the death of a
  resumable agent, and a restart forced through a live turn. \<open>ps\<close> are the activities that wait
  beside the path, and the path never resumes them.
\<close>

lemma resume_at:
  "wk_pcs w = ps @ q # qs \<Longrightarrow>
   resume_pc c (length ps) r w = (case run_pc c q r (w\<lparr>wk_pcs := ps @ qs\<rparr>) of None \<Rightarrow> w | Some w' \<Rightarrow> w')"
  by (simp add: resume_pc_def drop_nth_def)

lemma resume_after:
  "wk_pcs w = ps @ p # q # qs \<Longrightarrow>
   resume_pc c (Suc (length ps)) r w =
     (case run_pc c q r (w\<lparr>wk_pcs := ps @ p # qs\<rparr>) of None \<Rightarrow> w | Some w' \<Rightarrow> w')"
  using resume_at [of w "ps @ [p]" q qs c r] by simp

lemma worker_log_emit [simp]:
  "worker_log (emit a w) = (case logged a of None \<Rightarrow> worker_log w | Some e \<Rightarrow> worker_log w @ [e])"
  by (simp add: worker_log_def emit_def List.map_filter_def split: option.split)

lemma worker_log_log_all [simp]: "worker_log (log_all es w) = worker_log w @ es"
proof -
  have "List.map_filter logged (map Logged es) = es" by (induction es) (auto simp: List.map_filter_def)
  then show ?thesis by (simp add: worker_log_def log_all_def List.map_filter_def)
qed

lemma worker_log_view: "wk_trace w = wk_trace v \<Longrightarrow> worker_log w = worker_log v"
  by (simp add: worker_log_def)

section \<open>The agent dies\<close>

text \<open>The fields a path reads back after a stretch that writes the log and the timers.\<close>

definition carried :: "worker \<Rightarrow> worker \<Rightarrow> bool" where
  "carried w v \<longleftrightarrow> wk_state v = wk_state w \<and> wk_session v = wk_session w \<and> wk_method v = wk_method w \<and>
     wk_generation v = wk_generation w \<and> wk_crashed v = wk_crashed w \<and> wk_closing v = wk_closing w \<and>
     wk_closed_as v = wk_closed_as w \<and> wk_hibernating v = wk_hibernating w \<and>
     wk_proc v = wk_proc w \<and> wk_link v = wk_link w \<and> wk_emitted v = wk_emitted w \<and>
     wk_now v = wk_now w \<and> length (wk_pcs v) = length (wk_pcs w)"

lemma carried_trans: "carried u v \<Longrightarrow> carried v w \<Longrightarrow> carried u w"
  by (simp add: carried_def)

lemma carried_parts:
  "carried w (observe_event w e)" "carried w (reschedule_tick due w)" "carried w (log_all es w)"
  "carried w (unpin_lease w)" "carried w (watch c f w)" "carried w (release_ladder w)"
  "carried w (settled_interactions c w)" "carried w (emit a w)"
  by (auto simp: carried_def observe_event_def reschedule_tick_def log_all_def unpin_lease_def
      watch_def emit_def release_ladder_def settled_interactions_def split: event_body.splits)

lemma carried_observe: "carried w (foldl observe_event w es)"
proof (induction es arbitrary: w)
  case (Cons e es)
  from carried_trans [OF carried_parts(1) [of w e] Cons.IH] show ?case by simp
qed (simp add: carried_def)

lemma log_parts [simp]:
  "worker_log (observe_event w e) = worker_log w" "worker_log (reschedule_tick due w) = worker_log w"
  "worker_log (unpin_lease w) = worker_log w" "worker_log (watch c f w) = worker_log w"
  "worker_log (release_ladder w) = worker_log w" "worker_log (settled_interactions c w) = worker_log w"
  by (auto simp: observe_event_def reschedule_tick_def unpin_lease_def watch_def release_ladder_def
      settled_interactions_def worker_log_def emit_def List.map_filter_def split: event_body.splits)

lemma log_observe [simp]: "worker_log (foldl observe_event w es) = worker_log w"
  by (induction es arbitrary: w) simp_all

lemma crash_step:
  assumes "norm_step c (ProcessGone err tail t) w = Some (v, out)" "wk_hibernating w"
  shows "carried w v \<and> worker_log v = worker_log w @ out_emit out \<and>
    (\<exists>e. out_emit out = [e] \<and> is_error_event e)"
proof -
  let ?n = "nz_state (wk_norm w)"
  define v1 where "v1 = reschedule_tick (ladder_deadline (carry_ladder ?n))
    (foldl observe_event (log_all [error_event (tl_turn ?n) err (Some tail)]
      (w\<lparr>wk_norm := \<lparr>nz_state = carry_ladder ?n, nz_ids = nz_ids (wk_norm w)\<rparr>\<rparr>))
      [error_event (tl_turn ?n) err (Some tail)])"
  have v1: "carried w v1" "worker_log v1 = worker_log w @ [error_event (tl_turn ?n) err (Some tail)]"
  proof -
    have "carried w (log_all es (w\<lparr>wk_norm := n\<rparr>))" for es n by (simp add: carried_def log_all_def)
    then show "carried w v1"
      unfolding v1_def by (blast intro: carried_trans carried_observe carried_parts(2))
    show "worker_log v1 = worker_log w @ [error_event (tl_turn ?n) err (Some tail)]"
      unfolding v1_def by (simp, rule worker_log_view, simp)
  qed
  have out: "out_emit out = [error_event (tl_turn ?n) err (Some tail)]" "out_action out = None"
    and v: "v = after_step c out v1"
    using assms(1)
    by (auto simp: norm_step_def step_turn_lifecycle_def process_gone_def keep_ids_def turn_out_def
        v1_def Let_def)
  have h: "wk_hibernating v1" using v1(1) assms(2) by (simp add: carried_def)
  have "carried v1 v \<and> worker_log v = worker_log v1"
  proof -
    have r: "carried v1 ((release_ladder v1)\<lparr>wk_cancel := None, wk_turn := None\<rparr>)"
      by (simp add: carried_def release_ladder_def)
    have "carried v1 (watch c TurnEnd (unpin_lease ((release_ladder v1)\<lparr>wk_cancel := None, wk_turn := None\<rparr>)))"
      by (rule carried_trans [OF r carried_trans [OF carried_parts(4) carried_parts(5)]])
    moreover have "worker_log ((release_ladder v1)\<lparr>wk_cancel := None, wk_turn := None\<rparr>) = worker_log v1"
      by (simp add: worker_log_def release_ladder_def)
    ultimately show ?thesis
      using out(2) h v by (auto simp: after_step_def perform_def Let_def carried_def)
  qed
  moreover have "is_error_event (error_event (tl_turn ?n) err (Some tail))"
    by (simp add: is_error_event_def)
  ultimately show ?thesis using v1 out carried_trans by auto
qed

lemma crash_error:
  assumes "wk_hibernating w"
  shows "carried w (append_close_error c err tail AgentCrashed w) \<and>
    (\<exists>e. is_error_event e \<and> worker_log (append_close_error c err tail AgentCrashed w) = worker_log w @ [e])"
proof (cases "wk_turn w = None")
  case True
  then show ?thesis
    by (auto simp: append_close_error_def carried_def emit_def is_error_event_def worker_log_def
        List.map_filter_def)
next
  case False
  then obtain v out where s: "norm_step c (ProcessGone err tail (wk_now w)) w = Some (v, out)"
    by (auto simp: norm_step_def step_turn_lifecycle_def keep_ids_def Let_def)
  from crash_step [OF s assms] s False show ?thesis
    by (auto simp: append_close_error_def death_reason_def)
qed

definition crash_path :: "ms \<Rightarrow> nat \<Rightarrow> int option \<times> string option \<Rightarrow> bool \<Rightarrow> string \<Rightarrow> nat \<Rightarrow>
    (ms \<times> worker_input) list" where
  "crash_path t p ex rq tail n = [(t, ProcessExited p ex rq tail), (t, GoOn n Fine), (t, GoOn n Fine)]"

definition unclean :: "int option \<times> string option \<Rightarrow> bool \<Rightarrow> bool" where
  "unclean ex rq \<longleftrightarrow> \<not> (rq \<and> fst ex = Some 0)"

lemma crash_begins:
  assumes "wk_proc w = Some p" "may_hibernate_after_crash c w" "unclean ex rq"
  shows "\<exists>err v. worker_step c w (t, ProcessExited p ex rq tail) = spawn (CrashSettling err tail) v \<and>
    carried (w\<lparr>wk_now := t, wk_crashed := True, wk_hibernating := True\<rparr>) v \<and>
    worker_log v = worker_log w \<and> wk_pcs v = wk_pcs w"
proof -
  let ?v = "settle_interactions c ''hibernate'' (clear_timers
    (w\<lparr>wk_now := t, wk_agent_gone := True, wk_exit_grace := None, wk_crashed := True, wk_hibernating := True\<rparr>))"
  have "worker_step c w (t, ProcessExited p ex rq tail) = spawn (CrashSettling (exit_error (Some ex)) tail) ?v"
    using assms
    by (cases ex; cases "fst ex")
      (auto simp: worker_step_def process_exited_def classify_and_close_def unclean_def
        may_hibernate_after_crash_def crashed_hibernation_def Let_def)
  moreover have "carried (w\<lparr>wk_now := t, wk_crashed := True, wk_hibernating := True\<rparr>) ?v"
    "worker_log ?v = worker_log w" "wk_pcs ?v = wk_pcs w"
    by (simp_all add: carried_def settle_interactions_def clear_timers_def emit_def worker_log_def
        List.map_filter_def)
  ultimately show ?thesis by blast
qed

lemma crash_goes_on:
  assumes "wk_pcs w = ps @ [CrashSettling err tail]" "wk_hibernating w" "wk_proc w \<noteq> None"
  shows "\<exists>e l v. worker_step c w (t, GoOn (length ps) Fine) = spawn (Reclaiming RcCrash l) v \<and>
    carried (w\<lparr>wk_now := t, wk_proc := None, wk_link := None, wk_pcs := ps\<rparr>) v \<and> is_error_event e \<and>
    worker_log v = worker_log w @ [e] \<and> wk_turn v = None \<and> \<not> wk_pin v"
proof -
  let ?u = "emit SeamsDisposed (settled_interactions c (w\<lparr>wk_now := t, wk_pcs := ps\<rparr>))"
  let ?v = "append_close_error c err tail AgentCrashed ?u"
  let ?x = "unpin_lease (?v\<lparr>wk_turn := None\<rparr>)"
  have u: "carried (w\<lparr>wk_now := t, wk_pcs := ps\<rparr>) ?u"
    by (rule carried_trans [OF carried_parts(7) carried_parts(8)])
  then have h: "wk_hibernating ?u" using assms(2) by (simp add: carried_def)
  from crash_error [OF h] obtain e where
    v: "carried ?u ?v" "is_error_event e" "worker_log ?v = worker_log ?u @ [e]" by blast
  have x: "carried ?v ?x"
    by (rule carried_trans [OF _ carried_parts(4)]) (simp add: carried_def)
  have c: "carried (w\<lparr>wk_now := t, wk_pcs := ps\<rparr>) ?x" by (rule carried_trans [OF u carried_trans [OF v(1) x]])
  have "worker_log ?u = worker_log w" by (simp, rule worker_log_view, simp)
  moreover have "worker_log (?v\<lparr>wk_turn := None\<rparr>) = worker_log ?v" by (rule worker_log_view) simp
  ultimately have l: "worker_log ?x = worker_log w @ [e]" using v(3) by simp
  have pin: "\<not> wk_pin ?x" "wk_turn ?x = None" by (simp_all add: unpin_lease_def emit_def)
  obtain p where p: "wk_proc ?x = Some p" using c assms(3) by (auto simp: carried_def)
  let ?y = "emit (TerminateAsked p True)
    (?x\<lparr>wk_proc := None, wk_link := None, wk_link_closed := False, wk_agent_gone := False\<rparr>)"
  have "worker_step c w (t, GoOn (length ps) Fine) = spawn (Reclaiming RcCrash (wk_link ?x)) ?y"
    using resume_at [of "w\<lparr>wk_now := t\<rparr>" ps "CrashSettling err tail" "[]" c Fine] assms(1) p
    by (simp add: worker_step_def on_fine_def crash_settled_def reclaim_process_def Let_def)
  moreover have "carried (w\<lparr>wk_now := t, wk_proc := None, wk_link := None, wk_pcs := ps\<rparr>) ?y"
    using c by (simp add: carried_def emit_def)
  moreover have "worker_log ?y = worker_log w @ [e]"
    using l by (simp add: worker_log_def emit_def List.map_filter_def)
  moreover have "wk_turn ?y = None" "\<not> wk_pin ?y" using pin by (simp_all add: emit_def)
  ultimately show ?thesis using v(2) by blast
qed

lemma crash_ends:
  assumes "wk_pcs w = ps @ [Reclaiming RcCrash l]"
  shows "\<exists>p. ws_state p = Hibernated \<and> ws_reason p = AgentCrashed \<and> ws_crashed p = Some True \<and>
    worker_log (worker_step c w (t, GoOn (length ps) Fine)) = worker_log w @
      [\<lparr>in_body = WorkerStateEv p, in_version = 2, in_turn = None, in_replay = False\<rparr>] \<and>
    wk_state (worker_step c w (t, GoOn (length ps) Fine)) = Hibernated \<and>
    wk_session (worker_step c w (t, GoOn (length ps) Fine)) = wk_session w \<and>
    wk_method (worker_step c w (t, GoOn (length ps) Fine)) = wk_method w \<and>
    wk_crashed (worker_step c w (t, GoOn (length ps) Fine)) = wk_crashed w \<and>
    wk_generation (worker_step c w (t, GoOn (length ps) Fine)) = wk_generation w \<and>
    wk_proc (worker_step c w (t, GoOn (length ps) Fine)) = wk_proc w \<and>
    wk_turn (worker_step c w (t, GoOn (length ps) Fine)) = wk_turn w \<and>
    wk_pin (worker_step c w (t, GoOn (length ps) Fine)) = wk_pin w \<and>
    wk_closing (worker_step c w (t, GoOn (length ps) Fine)) = wk_closing w \<and>
    wk_hibernated_at (worker_step c w (t, GoOn (length ps) Fine)) = Some t \<and>
    \<not> wk_hibernating (worker_step c w (t, GoOn (length ps) Fine))"
  using resume_at [of "w\<lparr>wk_now := t\<rparr>" ps "Reclaiming RcCrash l" "[]" c Fine] assms
  by (cases l)
    (auto simp: worker_step_def on_fine_def crash_reclaimed_def shut_link_def set_state_def Let_def
      state_event_def bare_payload_def emit_def worker_log_def List.map_filter_def)

text \<open>What a resumable worker is after the death of its agent.\<close>

definition slept_after_crash :: "worker \<Rightarrow> ms \<Rightarrow> worker \<Rightarrow> bool" where
  "slept_after_crash w t v \<longleftrightarrow> wk_state v = Hibernated \<and> wk_crashed v \<and> wk_session v = wk_session w \<and>
     wk_method v = wk_method w \<and> wk_proc v = None \<and> wk_turn v = None \<and> \<not> wk_pin v \<and>
     wk_generation v = wk_generation w \<and> \<not> wk_closing v \<and> \<not> wk_hibernating v \<and>
     wk_hibernated_at v = Some t"

lemma crash_path_sleeps:
  assumes "wk_proc w = Some p" "may_hibernate_after_crash c w" "unclean ex rq"
  shows "slept_after_crash w t (worker_run c w (crash_path t p ex rq tail (length (wk_pcs w)))) \<and>
    (\<exists>e q. is_error_event e \<and> ws_state q = Hibernated \<and> ws_reason q = AgentCrashed \<and>
      ws_crashed q = Some True \<and>
      worker_log (worker_run c w (crash_path t p ex rq tail (length (wk_pcs w)))) = worker_log w @
        [e, \<lparr>in_body = WorkerStateEv q, in_version = 2, in_turn = None, in_replay = False\<rparr>])"
proof -
  let ?n = "length (wk_pcs w)"
  define w1 where "w1 = worker_step c w (t, ProcessExited p ex rq tail)"
  define w2 where "w2 = worker_step c w1 (t, GoOn ?n Fine)"
  have run: "worker_run c w (crash_path t p ex rq tail ?n) = worker_step c w2 (t, GoOn ?n Fine)"
    by (simp add: worker_run_def crash_path_def w1_def w2_def)
  from crash_begins [OF assms, of t tail] obtain err v where
    v: "w1 = spawn (CrashSettling err tail) v"
      "carried (w\<lparr>wk_now := t, wk_crashed := True, wk_hibernating := True\<rparr>) v"
      "worker_log v = worker_log w" "wk_pcs v = wk_pcs w"
    unfolding w1_def by blast
  have "wk_pcs w1 = wk_pcs v @ [CrashSettling err tail]" "wk_hibernating w1" "wk_proc w1 \<noteq> None"
    using v(1,2,4) assms(1) by (simp_all add: spawn_def carried_def)
  from crash_goes_on [OF this, of c t] obtain e l u where
    u: "w2 = spawn (Reclaiming RcCrash l) u"
      "carried (w1\<lparr>wk_now := t, wk_proc := None, wk_link := None, wk_pcs := wk_pcs v\<rparr>) u"
      "is_error_event e" "worker_log u = worker_log w1 @ [e]" "wk_turn u = None" "\<not> wk_pin u"
    unfolding w2_def by (auto simp: v(4))
  have pcs: "wk_pcs w2 = wk_pcs u @ [Reclaiming RcCrash l]" using u(1) by (simp add: spawn_def)
  have n: "length (wk_pcs u) = ?n" using u(2) v(4) by (simp add: carried_def)
  have logs: "worker_log w2 = worker_log w @ [e]"
    using u(1,4) v(1,3) by (simp add: worker_log_def spawn_def)
  have facts: "wk_session w2 = wk_session w" "wk_method w2 = wk_method w" "wk_crashed w2"
    "wk_generation w2 = wk_generation w" "wk_proc w2 = None" "wk_turn w2 = None" "\<not> wk_pin w2"
    "\<not> wk_closing w2"
    using u v assms(2) by (simp_all add: carried_def spawn_def may_hibernate_after_crash_def)
  from crash_ends [OF pcs, of c t] show ?thesis
    unfolding run n slept_after_crash_def using facts logs u(3) by auto
qed

section \<open>A restart through a live turn\<close>

definition restart_path :: "ms \<Rightarrow> call \<Rightarrow> restart_body \<Rightarrow> opened_session \<Rightarrow> nat \<Rightarrow>
    (ms \<times> worker_input) list" where
  "restart_path t x b s n =
     [(t, CallRestart x True b), (t, GoOn n Fine), (t, GoOn (Suc n) Fine), (t, GoOn (Suc n) Fine),
      (t, GoOn (Suc n) (GotSession s))]"

definition restartable :: "restart_body \<Rightarrow> worker \<Rightarrow> bool" where
  "restartable b w \<longleftrightarrow> live_turn w \<and> wk_turn w \<noteq> None \<and> rb_force b \<and> \<not> rb_fresh b \<and> rb_credential b = None \<and>
     \<not> wk_hibernating w \<and> \<not> wk_restarting w \<and> wk_method w \<noteq> None \<and> wk_session w \<noteq> None \<and>
     wk_proc w \<noteq> None"

definition restart_job_of :: "restart_body \<Rightarrow> worker \<Rightarrow> restart_job" where
  "restart_job_of b w =
     \<lparr>rj_body = b, rj_live = True, rj_fresh = False, rj_slept = False, rj_turn = wk_turn w\<rparr>"

text \<open>The fields the path reads back.\<close>

definition restarting :: "worker \<Rightarrow> pc list \<Rightarrow> worker \<Rightarrow> bool" where
  "restarting w qs v \<longleftrightarrow> wk_pcs v = wk_pcs w @ qs \<and> wk_restarting v \<and> wk_session v = wk_session w \<and>
     wk_generation v = wk_generation w"

lemma restart_begins:
  assumes "restartable b w"
  shows "restarting w [RestartSettling (restart_job_of b w), Awaiting PRestart (ReplyTo x)]
      (worker_step c w (t, CallRestart x True b)) \<and>
    wk_proc (worker_step c w (t, CallRestart x True b)) = wk_proc w \<and>
    wk_crashed (worker_step c w (t, CallRestart x True b)) = wk_crashed w \<and>
    worker_log (worker_step c w (t, CallRestart x True b)) = worker_log w"
  using assms
  by (auto simp: restartable_def restarting_def restart_job_of_def worker_step_def gated_def
      restart_with_def restart_refusal_def live_turn_def settle_interactions_def spawn_def emit_def
      worker_log_def List.map_filter_def)

lemma restart_terminates_turn:
  assumes "restarting w [RestartSettling j, q] v" "rj_turn j \<noteq> None" "rj_live j" "\<not> rj_slept j"
    "wk_proc v \<noteq> None"
  shows "\<exists>l p. restarting w [q, Reclaiming (RcRestart j) l] (worker_step c v (t, GoOn (length (wk_pcs w)) Fine)) \<and>
    ws_state p = Starting \<and> ws_reason p = Restart \<and> ws_error p = Some (restart_error (rj_body j)) \<and>
    worker_log (worker_step c v (t, GoOn (length (wk_pcs w)) Fine)) = worker_log v @
      [\<lparr>in_body = WorkerStateEv p, in_version = 2, in_turn = rj_turn j, in_replay = False\<rparr>] \<and>
    wk_turn (worker_step c v (t, GoOn (length (wk_pcs w)) Fine)) = None \<and>
    \<not> wk_pin (worker_step c v (t, GoOn (length (wk_pcs w)) Fine))"
  using resume_at [of "v\<lparr>wk_now := t\<rparr>" "wk_pcs w" "RestartSettling j" "[q]" c Fine] assms
  by (auto simp: restarting_def worker_step_def on_fine_def restart_settled_def
      settled_interactions_def clear_timers_def unpin_lease_def set_state_def state_event_def
      bare_payload_def with_generation_def reclaim_process_def spawn_def emit_def worker_log_def
      List.map_filter_def Let_def)

lemma restart_opens:
  assumes "restarting w [q, Reclaiming (RcRestart j) l] v" "rb_credential (rj_body j) = None"
  shows "restarting w [q, Spawning (OpRestart j)] (worker_step c v (t, GoOn (Suc (length (wk_pcs w))) Fine)) \<and>
    worker_log (worker_step c v (t, GoOn (Suc (length (wk_pcs w))) Fine)) = worker_log v \<and>
    wk_turn (worker_step c v (t, GoOn (Suc (length (wk_pcs w))) Fine)) = wk_turn v \<and>
    wk_pin (worker_step c v (t, GoOn (Suc (length (wk_pcs w))) Fine)) = wk_pin v"
  using resume_after [of "v\<lparr>wk_now := t\<rparr>" "wk_pcs w" q "Reclaiming (RcRestart j) l" "[]" c Fine] assms
  by (cases l)
    (auto simp: restarting_def worker_step_def on_fine_def shut_link_def after_reclaim_def
      open_process_def spawn_def emit_def worker_log_def List.map_filter_def)

lemma restart_reopens:
  assumes "restarting w [q, Spawning (OpRestart j)] v" "\<not> rj_fresh j" "wk_session w \<noteq> None"
  shows "restarting w [q, Opening (OpRestart j)] (worker_step c v (t, GoOn (Suc (length (wk_pcs w))) Fine)) \<and>
    worker_log (worker_step c v (t, GoOn (Suc (length (wk_pcs w))) Fine)) = worker_log v \<and>
    wk_turn (worker_step c v (t, GoOn (Suc (length (wk_pcs w))) Fine)) = wk_turn v \<and>
    wk_pin (worker_step c v (t, GoOn (Suc (length (wk_pcs w))) Fine)) = wk_pin v"
  using resume_after [of "v\<lparr>wk_now := t\<rparr>" "wk_pcs w" q "Spawning (OpRestart j)" "[]" c Fine] assms
  by (auto simp: restarting_def worker_step_def restart_opened_def got_process_def
      spawn_def emit_def worker_log_def List.map_filter_def)

lemma restart_lands:
  assumes "restarting w [Awaiting PRestart (ReplyTo x), Opening (OpRestart j)] v" "\<not> rj_fresh j"
  shows "\<exists>p. ws_state p = Ready \<and> ws_reason p = Resumed \<and> ws_generation p = Some (wk_generation w + 1) \<and>
    worker_log (worker_step c v (t, GoOn (Suc (length (wk_pcs w))) (GotSession s))) = worker_log v @
      [\<lparr>in_body = WorkerStateEv p, in_version = 2, in_turn = None, in_replay = False\<rparr>] \<and>
    wk_state (worker_step c v (t, GoOn (Suc (length (wk_pcs w))) (GotSession s))) = Ready \<and>
    wk_generation (worker_step c v (t, GoOn (Suc (length (wk_pcs w))) (GotSession s))) = wk_generation w + 1 \<and>
    wk_session (worker_step c v (t, GoOn (Suc (length (wk_pcs w))) (GotSession s))) = Some (os_session s) \<and>
    wk_turn (worker_step c v (t, GoOn (Suc (length (wk_pcs w))) (GotSession s))) = wk_turn v \<and>
    wk_pin (worker_step c v (t, GoOn (Suc (length (wk_pcs w))) (GotSession s))) = wk_pin v \<and>
    \<not> wk_restarting (worker_step c v (t, GoOn (Suc (length (wk_pcs w))) (GotSession s))) \<and>
    last (wk_pcs (worker_step c v (t, GoOn (Suc (length (wk_pcs w))) (GotSession s)))) =
      Continues (ReplyTo x) (RestartedAs (wk_generation w + 1) (rj_turn j))"
  using resume_after [of "v\<lparr>wk_now := t\<rparr>" "wk_pcs w" "Awaiting PRestart (ReplyTo x)"
      "Opening (OpRestart j)" "[]" c "GotSession s"] assms
  by (auto simp: restarting_def worker_step_def restart_ready_def close_replay_def
      end_restart_def settle_promise_def set_state_def state_event_def bare_payload_def
      with_generation_def with_report_def adopt_session_def emit_def worker_log_def
      List.map_filter_def Let_def)


text \<open>What a worker is after a restart forced through the turn it was running.\<close>

definition back_with_next_generation :: "worker \<Rightarrow> call \<Rightarrow> opened_session \<Rightarrow> worker \<Rightarrow> bool" where
  "back_with_next_generation w x s v \<longleftrightarrow> wk_state v = Ready \<and> wk_generation v = wk_generation w + 1 \<and>
     wk_session v = Some (os_session s) \<and> wk_turn v = None \<and> \<not> wk_pin v \<and> \<not> wk_restarting v \<and>
     last (wk_pcs v) = Continues (ReplyTo x) (RestartedAs (wk_generation w + 1) (wk_turn w))"

lemma restart_path_lands:
  assumes "restartable b w"
  shows "back_with_next_generation w x s (worker_run c w (restart_path t x b s (length (wk_pcs w)))) \<and>
    (\<exists>p q. ws_state p = Starting \<and> ws_reason p = Restart \<and> ws_error p = Some (restart_error b) \<and>
      ws_state q = Ready \<and> ws_reason q = Resumed \<and>
      worker_log (worker_run c w (restart_path t x b s (length (wk_pcs w)))) = worker_log w @
        [\<lparr>in_body = WorkerStateEv p, in_version = 2, in_turn = wk_turn w, in_replay = False\<rparr>,
         \<lparr>in_body = WorkerStateEv q, in_version = 2, in_turn = None, in_replay = False\<rparr>])"
proof -
  let ?n = "length (wk_pcs w)" and ?j = "restart_job_of b w"
  define w1 where "w1 = worker_step c w (t, CallRestart x True b)"
  define w2 where "w2 = worker_step c w1 (t, GoOn ?n Fine)"
  define w3 where "w3 = worker_step c w2 (t, GoOn (Suc ?n) Fine)"
  define w4 where "w4 = worker_step c w3 (t, GoOn (Suc ?n) Fine)"
  have run: "worker_run c w (restart_path t x b s ?n) = worker_step c w4 (t, GoOn (Suc ?n) (GotSession s))"
    by (simp add: worker_run_def restart_path_def w1_def w2_def w3_def w4_def)
  have j: "rj_turn ?j = wk_turn w" "rj_live ?j" "\<not> rj_slept ?j" "\<not> rj_fresh ?j" "rj_body ?j = b"
    by (simp_all add: restart_job_of_def)
  have r: "wk_turn w \<noteq> None" "rb_credential b = None" "wk_session w \<noteq> None" "wk_proc w \<noteq> None"
    using assms by (simp_all add: restartable_def)
  note one = restart_begins [OF assms, of x c t, folded w1_def]
  from restart_terminates_turn [of w ?j "Awaiting PRestart (ReplyTo x)" w1 c t, folded w2_def] one j r
  obtain l p where
    two: "restarting w [Awaiting PRestart (ReplyTo x), Reclaiming (RcRestart ?j) l] w2"
    and p: "ws_state p = Starting" "ws_reason p = Restart" "ws_error p = Some (restart_error b)"
      "worker_log w2 = worker_log w @
        [\<lparr>in_body = WorkerStateEv p, in_version = 2, in_turn = wk_turn w, in_replay = False\<rparr>]"
      "wk_turn w2 = None" "\<not> wk_pin w2"
    by auto
  from restart_opens [OF two, of c t, folded w3_def] j r
  have three: "restarting w [Awaiting PRestart (ReplyTo x), Spawning (OpRestart ?j)] w3"
    and k3: "worker_log w3 = worker_log w2" "wk_turn w3 = None" "\<not> wk_pin w3"
    using p by simp_all
  from restart_reopens [OF three j(4) r(3), of c t, folded w4_def]
  have four: "restarting w [Awaiting PRestart (ReplyTo x), Opening (OpRestart ?j)] w4"
    and k4: "worker_log w4 = worker_log w2" "wk_turn w4 = None" "\<not> wk_pin w4"
    using k3 by simp_all
  from restart_lands [OF four j(4), of c t s] p k4 j show ?thesis
    unfolding run back_with_next_generation_def by auto
qed

end
