(* ===== verification/WorkerClaims.thy ===== *)
theory WorkerClaims
  imports WorkerQuiet WorkerWake WorkerPaths
begin

text \<open>What the worker promises, and where concurrent operations break it.\<close>

section \<open>A worker to run\<close>

definition toy_lifecycle :: lifecycle_config where
  "toy_lifecycle =
     \<lparr>lc_quiet = 5, lc_hard = 50, lc_drain_grace = 5, lc_cancel_grace = 5,
      lc_descriptor = \<lparr>md_updates = [], md_diff_is_fragment = False\<rparr>, lc_extensions = [],
      lc_error_rules = [], lc_base_dir = None, lc_modes = None, lc_regex = (\<lambda>p l. None),
      lc_frac_text = (\<lambda>q. '''')\<rparr>"

definition toy_worker_config :: worker_config where
  "toy_worker_config =
     \<lparr>wc_lifecycle = toy_lifecycle, wc_turn_id = (\<lambda>n. if n = 0 then ''t0'' else ''t1''),
      wc_strategy = True, wc_interactions = True, wc_diff = False, wc_diff_timeout = 15000, wc_watchdog = False,
      wc_alert = [], wc_reload_restart = Some True, wc_max_wake_failures = 3, wc_cancel_grace = 10,
      wc_exit_grace = 10, wc_close_out = 100, wc_report_json = (\<lambda>r. JNull),
      wc_credential_json = (\<lambda>n a g. JNull)\<rparr>"

definition toy_session :: opened_session where
  "toy_session =
     \<lparr>os_session = ''s'', os_method = Some LoadSession, os_can_close = False, os_report = None\<rparr>"

definition toy_start :: "(ms \<times> worker_input) list" where
  "toy_start = [(1, CallStart 0), (2, GoOn 0 Fine), (3, GoOn 0 (GotSession toy_session))]"

definition toy_sleep :: "(ms \<times> worker_input) list" where
  "toy_sleep = toy_start @ [(14, CallHibernate 3), (15, GoOn 0 Fine), (16, GoOn 1 Fine),
     (17, GoOn 1 Fine), (18, GoOn 0 Fine)]"

definition toy_error :: worker_error where
  "toy_error = \<lparr>we_body = omni_error AgentError ''no'', we_report = None\<rparr>"

section \<open>The worker's history\<close>

text \<open>
  C11: Whatever the order in which calls, timers, signals of the process and the answers of awaited
  promises arrive, the log of a worker tells one story: the \<open>previous\<close> of every state event is the
  state the event before it announced, the generation is the number of events that announced a new
  process, and \<open>closed\<close> is announced at most once, exactly when the close has an answer.
\<close>

theorem worker_history_is_one_story:
  "chained None (payloads (wk_trace (worker_run c new_worker is))) \<and>
   wk_emitted (worker_run c new_worker is) =
     last_state None (payloads (wk_trace (worker_run c new_worker is))) \<and>
   wk_generation (worker_run c new_worker is) = opens (wk_trace (worker_run c new_worker is)) \<and>
   closes (wk_trace (worker_run c new_worker is)) =
     of_bool (wk_closed_as (worker_run c new_worker is) \<noteq> None)"
  using reachable_inv [of c "is"] by (simp add: worker_inv_def told_def)

text \<open>
  C12: Single flight. In every reachable state a wake, a restart, a hibernation and a close each have
  at most one attempt running, however many callers asked, and one is running exactly while the
  promise they share is unsettled.
\<close>

theorem attempts_are_shared:
  "attempts p (worker_run c new_worker is) = of_bool (in_flight p (worker_run c new_worker is))"
  using reachable_inv [of c "is"] by (simp add: worker_inv_def balanced_def balance_def)

text \<open>
  What a worker has said for good: once it crashed it stays marked crashed, the answer of its close
  never changes, and its generation never falls, whatever follows.
\<close>

theorem worker_facts_are_sticky:
  "of_bool (wk_crashed (worker_run c new_worker is)) \<le>
     (of_bool (wk_crashed (worker_run c new_worker (is @ js))) :: int) \<and>
   wk_generation (worker_run c new_worker is) \<le> wk_generation (worker_run c new_worker (is @ js)) \<and>
   set_option (wk_closed_as (worker_run c new_worker is)) \<subseteq>
     set_option (wk_closed_as (worker_run c new_worker (is @ js)))"
proof -
  let ?w = "worker_run c new_worker is"
  have w': "worker_run c new_worker (is @ js) = worker_run c ?w js" by (simp add: worker_run_def)
  have "wk_generation ?w \<le> wk_generation (worker_run c ?w js)"
    using workers.run_rank [OF reachable_inv] by (simp add: worker_run_def)
  moreover have "set_option (wk_closed_as ?w) \<subseteq> set_option (wk_closed_as (worker_run c ?w js))"
    using answer_stays [OF reachable_inv] by auto
  ultimately show ?thesis
    using crashed_stays [OF reachable_inv, of c "is" c js] by (simp add: w')
qed

section \<open>Admission\<close>

definition idle_worker :: "worker \<Rightarrow> bool" where
  "idle_worker w \<longleftrightarrow> wk_state w = Ready \<and> \<not> wk_hibernating w \<and> \<not> wk_restarting w \<and>
     wk_link w \<noteq> None \<and> wk_session w \<noteq> None"

lemma busy_prompts:
  assumes "wk_state w = Running"
  shows "worker_run c w (map (\<lambda>x. (t, CallPrompt x True)) xs) =
     w\<lparr>wk_now := (if xs = [] then wk_now w else t),
       wk_trace := wk_trace w @ map (\<lambda>x. Replied x (CallFailed WorkerBusy)) xs\<rparr>"
  using assms
proof (induction xs arbitrary: w)
  case (Cons x xs)
  let ?v = "w\<lparr>wk_now := t, wk_trace := wk_trace w @ [Replied x (CallFailed WorkerBusy)]\<rparr>"
  have "worker_step c w (t, CallPrompt x True) = ?v"
    using Cons.prems
    by (simp add: worker_step_def gated_def prompt_worker_def admit_prompt_def emit_def)
  moreover have "wk_state ?v = Running" using Cons.prems by simp
  ultimately show ?case
    using Cons.IH [of ?v] by (simp add: worker_run_def)
qed (simp add: worker_run_def)

text \<open>
  C13: One acceptance. Of any number of prompts that reach an idle worker together the first alone is
  admitted, with a new turn and the lease pinned for it; every other is answered \<open>worker_busy\<close>, in
  order, and nothing else happens: no envelope, nothing sent to the agent.
\<close>

theorem one_of_many_prompts_is_admitted:
  assumes "idle_worker w"
  shows "worker_run c w (map (\<lambda>y. (t, CallPrompt y True)) (x # xs)) =
     w\<lparr>wk_now := t, wk_state := Running, wk_turn := Some (wc_turn_id c (wk_turns w)),
       wk_turns := Suc (wk_turns w), wk_wrote := False, wk_pin := True,
       wk_trace := wk_trace w @ LeasePinned # map (\<lambda>y. Replied y (CallFailed WorkerBusy)) xs,
       wk_pcs := wk_pcs w @ [Validating x (wc_turn_id c (wk_turns w))]\<rparr>"
proof -
  have "worker_step c w (t, CallPrompt x True) =
      w\<lparr>wk_now := t, wk_state := Running, wk_turn := Some (wc_turn_id c (wk_turns w)),
       wk_turns := Suc (wk_turns w), wk_wrote := False, wk_pin := True,
       wk_trace := wk_trace w @ [LeasePinned],
       wk_pcs := wk_pcs w @ [Validating x (wc_turn_id c (wk_turns w))]\<rparr>"
    using assms
    by (auto simp: worker_step_def gated_def prompt_worker_def admit_prompt_def idle_worker_def
        Let_def emit_def spawn_def)
  then show ?thesis
    using busy_prompts [of "worker_step c w (t, CallPrompt x True)" c t xs]
    by (simp add: worker_run_def)
qed

definition toy_idle :: worker where
  "toy_idle = worker_run toy_worker_config new_worker toy_start"

theorem one_of_many_prompts_is_admitted_witness:
  "worker_run toy_worker_config toy_idle (map (\<lambda>y. (20, CallPrompt y True)) [5, 6, 7]) =
     toy_idle\<lparr>wk_now := 20, wk_state := Running, wk_turn := Some (wc_turn_id toy_worker_config (wk_turns toy_idle)),
       wk_turns := Suc (wk_turns toy_idle), wk_wrote := False, wk_pin := True,
       wk_trace := wk_trace toy_idle @ LeasePinned # map (\<lambda>y. Replied y (CallFailed WorkerBusy)) [6, 7],
       wk_pcs := wk_pcs toy_idle @ [Validating 5 (wc_turn_id toy_worker_config (wk_turns toy_idle))]\<rparr>"
proof (rule one_of_many_prompts_is_admitted)
  show "idle_worker toy_idle" by code_simp
qed

text \<open>
  C29: A refused content leaves no mark. When the content gate refuses the prompt just admitted, the
  worker is the idle worker it was, but for the lease pinned and released again, the turn number spent
  and the answer: no envelope was written and nothing was sent to the agent.
\<close>

theorem refused_content_is_rolled_back:
  assumes "idle_worker w" "\<not> wk_pin w" "wk_turn w = None"
  shows "worker_run c w [(t, CallPrompt x True), (u, GoOn (length (wk_pcs w)) (Wrong rpc e))] =
     w\<lparr>wk_now := u, wk_turns := Suc (wk_turns w), wk_wrote := False,
       wk_trace := wk_trace w @ [LeasePinned, LeaseUnpinned, Replied x (CallFailed (we_code e))]\<rparr>"
  using one_of_many_prompts_is_admitted [OF assms(1), of c t x "[]"] assms
  by (simp add: worker_run_def worker_step_def resume_pc_def drop_nth_def roll_back_def
      unpin_lease_def emit_def idle_worker_def)


theorem refused_content_is_rolled_back_witness:
  "worker_run toy_worker_config toy_idle
     [(20, CallPrompt 5 True), (21, GoOn (length (wk_pcs toy_idle)) (Wrong False toy_error))] =
   toy_idle\<lparr>wk_now := 21, wk_turns := Suc (wk_turns toy_idle), wk_wrote := False,
     wk_trace := wk_trace toy_idle @
       [LeasePinned, LeaseUnpinned, Replied 5 (CallFailed (we_code toy_error))]\<rparr>"
proof (rule refused_content_is_rolled_back)
  show "idle_worker toy_idle" by code_simp
  show "\<not> wk_pin toy_idle" by code_simp
  show "wk_turn toy_idle = None" by code_simp
qed

section \<open>Closed is final\<close>

text \<open>
  C14: A closed worker stays closed. Once the close is answered and no activity that opens, reclaims,
  restarts or admits is still waiting, no call, timer, signal or late answer moves it: the state stays
  \<open>closed\<close>, no further state event is written, and neither the reason, the generation nor the answer
  of the close changes.
\<close>

theorem closed_worker_is_final:
  assumes "at_rest w" "list_all (\<lambda>i. no_start (snd i)) is"
  shows "wk_state (worker_run c w is) = Closed \<and>
    payloads (wk_trace (worker_run c w is)) = payloads (wk_trace w) \<and>
    wk_close_reason (worker_run c w is) = wk_close_reason w \<and>
    wk_generation (worker_run c w is) = wk_generation w \<and>
    wk_closed_as (worker_run c w is) = wk_closed_as w"
  using still_run [OF still_refl [OF assms(1)] assms(2), of c]
  by (simp add: still_def at_rest_def)

definition toy_closed :: worker where
  "toy_closed = worker_run toy_worker_config new_worker
     (toy_start @ [(20, CallClose 5 ClientRequest), (21, GoOn 0 Fine), (22, GoOn 1 Fine),
       (23, GoOn 1 (GotKill None True True))])"

definition toy_afterlife :: "(ms \<times> worker_input) list" where
  "toy_afterlife = [(30, CallPrompt 6 True), (31, GoOn 0 Fine), (32, CallWake 7 True),
     (33, ProcessExited 0 (None, Some ''SIGKILL'') True ''''), (34, TickDue)]"

theorem closed_worker_is_final_witness:
  "wk_state (worker_run toy_worker_config toy_closed toy_afterlife) = Closed \<and>
    payloads (wk_trace (worker_run toy_worker_config toy_closed toy_afterlife)) =
      payloads (wk_trace toy_closed) \<and>
    wk_close_reason (worker_run toy_worker_config toy_closed toy_afterlife) = wk_close_reason toy_closed \<and>
    wk_generation (worker_run toy_worker_config toy_closed toy_afterlife) = wk_generation toy_closed \<and>
    wk_closed_as (worker_run toy_worker_config toy_closed toy_afterlife) = wk_closed_as toy_closed"
proof (rule closed_worker_is_final)
  show "at_rest toy_closed" by code_simp
  show "list_all (\<lambda>i. no_start (snd i)) toy_afterlife" by code_simp
qed

section \<open>The wake ladder\<close>

text \<open>
  C15: The wake ladder. Take a sleeping worker at rest and any number of explicit wakes, each run alone to
  its answer and ending in one of three ways: the session is opened, the spawn fails, or the reopening fails
  (with any error, the process itself staying up until it is reclaimed). Then the worker stands where the
  ladder says: a success brings it to \<open>ready\<close>; a transient failure puts it back to sleep with its session
  pointer and one more failure counted; an error that says the pointer is worthless, or the last failure the
  limit allows, clears the pointer and closes it, with the reason that tells the two apart; and no activity of
  the wake is left. What happens when the process exits on its own during a wake, or when another call
  overlaps it, is not claimed here: \<open>exit_during_wake_is_off_the_ladder\<close> and \<open>close_during_wake_is_undone\<close>.
\<close>

theorem wakes_follow_the_ladder:
  assumes "sleeping c w"
  shows "at_place c (foldl (wake_rung (wc_max_wake_failures c)) (Asleep (wk_wake_failures w)) rs)
    (worker_run c w (wakes x t rs))"
  by (rule wakes_climb) (simp add: assms)

definition toy_asleep :: worker where
  "toy_asleep = worker_run toy_worker_config new_worker toy_sleep"

theorem wakes_follow_the_ladder_witness:
  "at_place toy_worker_config
     (foldl (wake_rung (wc_max_wake_failures toy_worker_config)) (Asleep (wk_wake_failures toy_asleep))
       [NotSpawned toy_error, NotOpened toy_error, NotSpawned toy_error])
     (worker_run toy_worker_config toy_asleep
       (wakes 7 30 [NotSpawned toy_error, NotOpened toy_error, NotSpawned toy_error]))"
proof (rule wakes_follow_the_ladder)
  show "sleeping toy_worker_config toy_asleep" by code_simp
qed

lemma toy_wakes_end_closed:
  "foldl (wake_rung (wc_max_wake_failures toy_worker_config)) (Asleep (wk_wake_failures toy_asleep))
     [NotSpawned toy_error, NotOpened toy_error, NotSpawned toy_error] = Gone WakeFailed"
  by code_simp

section \<open>Parking\<close>

definition parks :: "ms \<Rightarrow> string list \<Rightarrow> (ms \<times> worker_input) list" where
  "parks t xs = map (\<lambda>x. (t, Parked x)) xs"

definition unparks :: "ms \<Rightarrow> string list \<Rightarrow> (ms \<times> worker_input) list" where
  "unparks t xs = map (\<lambda>x. (t, Unparked x)) xs"

text \<open>What parking may change: the set, the state, the log.\<close>

definition parked_as :: "worker \<Rightarrow> worker_state \<Rightarrow> string set \<Rightarrow> worker_state_payload list \<Rightarrow> worker \<Rightarrow> bool" where
  "parked_as w s ids ps v \<longleftrightarrow> wk_state v = s \<and> set (wk_parked v) = ids \<and> distinct (wk_parked v) \<and>
     payloads (wk_trace v) = payloads (wk_trace w) @ ps \<and>
     wk_turn v = wk_turn w \<and> wk_pin v = wk_pin w \<and> wk_pcs v = wk_pcs w"

lemma watch_payload [simp]: "payloads (wk_trace (watch c f w)) = payloads (wk_trace w)"
  by (simp add: watch_def emit_def)

lemma watch_fields [simp]:
  "wk_state (watch c f w) = wk_state w" "wk_parked (watch c f w) = wk_parked w"
  "wk_turn (watch c f w) = wk_turn w" "wk_pin (watch c f w) = wk_pin w"
  "wk_pcs (watch c f w) = wk_pcs w" "wk_emitted (watch c f w) = wk_emitted w"
  by (simp_all add: watch_def emit_def)

lemma first_park:
  assumes "wk_state w = Running" "wk_parked w = []"
  shows "\<exists>p. ws_state p = RequiresAction \<and> ws_reason p = InteractionParked \<and>
    ws_interactions p = Some [x] \<and> parked_as w RequiresAction {x} [p] (worker_step c w (t, Parked x))"
  using assms
  by (auto simp: parked_as_def worker_step_def park_worker_def set_state_def emit_def
      state_event_def bare_payload_def set_add_def Let_def)

lemma later_park:
  assumes "parked_as w RequiresAction ids ps v" "ids \<noteq> {}"
  shows "parked_as w RequiresAction (insert x ids) ps (worker_step c v (t, Parked x))"
  using assms by (auto simp: parked_as_def worker_step_def park_worker_def)

lemma later_parks:
  "parked_as w RequiresAction ids ps v \<Longrightarrow> ids \<noteq> {} \<Longrightarrow>
   parked_as w RequiresAction (set xs \<union> ids) ps (worker_run c v (parks t xs))"
proof (induction xs arbitrary: ids v)
  case (Cons x xs)
  from Cons.IH [OF later_park [OF Cons.prems, of x c t]] show ?case
    by (simp add: worker_run_def parks_def)
qed (simp add: worker_run_def parks_def)

lemma early_unpark:
  assumes "parked_as w RequiresAction ids ps v" "ids - {x} \<noteq> {}"
  shows "parked_as w RequiresAction (ids - {x}) ps (worker_step c v (t, Unparked x))"
proof (cases "x \<in> ids")
  case True
  have "set (set_delete x (wk_parked v)) = ids - {x}" using assms(1) by (simp add: parked_as_def)
  then have "set_delete x (wk_parked v) \<noteq> []" using assms(2) by fastforce
  with True assms(1) show ?thesis
    by (simp add: parked_as_def worker_step_def unpark_worker_def Let_def)
next
  case False
  with assms show ?thesis by (auto simp: parked_as_def worker_step_def unpark_worker_def)
qed

lemma last_unpark:
  assumes "parked_as w RequiresAction {x} ps v"
  shows "\<exists>p. ws_state p = Running \<and> ws_reason p = InteractionResolved \<and>
    parked_as w Running {} (ps @ [p]) (worker_step c v (t, Unparked x))"
proof -
  have "set_delete x (wk_parked v) = []"
    using assms by (auto simp: parked_as_def set_delete_def filter_empty_conv)
  with assms show ?thesis
    by (auto simp: parked_as_def worker_step_def unpark_worker_def set_state_def emit_def
        state_event_def bare_payload_def Let_def)
qed

lemma all_unparked:
  assumes "parked_as w RequiresAction (set ys) ps v" "distinct ys" "ys \<noteq> []"
  shows "\<exists>p. ws_state p = Running \<and> ws_reason p = InteractionResolved \<and>
    parked_as w Running {} (ps @ [p]) (worker_run c v (unparks t ys))"
  using assms
proof (induction ys arbitrary: v)
  case (Cons y ys)
  show ?case
  proof (cases "ys = []")
    case True
    with last_unpark [of w y ps v c t] Cons.prems show ?thesis
      by (simp add: worker_run_def unparks_def)
  next
    case False
    have s: "set (y # ys) - {y} = set ys" using Cons.prems by auto
    from early_unpark [OF Cons.prems(1), of y c t] False Cons.prems
    have "parked_as w RequiresAction (set ys) ps (worker_step c v (t, Unparked y))"
      unfolding s by auto
    from Cons.IH [OF this] False Cons.prems show ?thesis
      by (simp add: worker_run_def unparks_def)
  qed
qed simp

text \<open>
  C28: Parking is counted. Let a running turn with nothing parked park any number of distinct interactions,
  and then, all of them being parked before the first is resolved, let them be resolved in any order. In this
  round the worker announces \<open>requires_action\<close> once, with the first that parks, and \<open>running\<close> once, with the
  last that is resolved; in between and after, the turn, the lease's pin and every waiting activity are
  untouched. (A turn that parks again after the set has emptied starts another round, which is announced
  again.)
\<close>

theorem parks_are_counted:
  assumes "wk_state w = Running" "wk_parked w = []" "distinct (x # xs)" "mset ys = mset (x # xs)"
  shows "\<exists>p q. ws_state p = RequiresAction \<and> ws_reason p = InteractionParked \<and>
    ws_interactions p = Some [x] \<and> ws_state q = Running \<and> ws_reason q = InteractionResolved \<and>
    parked_as w RequiresAction (set (x # xs)) [p] (worker_run c w (parks t (x # xs))) \<and>
    parked_as w Running {} [p, q] (worker_run c w (parks t (x # xs) @ unparks u ys))"
proof -
  from first_park [OF assms(1,2), of x c t] obtain p where
    p: "ws_state p = RequiresAction" "ws_reason p = InteractionParked" "ws_interactions p = Some [x]"
    and v: "parked_as w RequiresAction {x} [p] (worker_step c w (t, Parked x))" by blast
  have all: "parked_as w RequiresAction (set (x # xs)) [p] (worker_run c w (parks t (x # xs)))"
    using later_parks [OF v, where xs = xs and c = c and t = t] by (simp add: worker_run_def parks_def)
  have ys: "set (x # xs) = set ys" "distinct ys" "ys \<noteq> []"
    using assms(3,4) mset_eq_setD [OF assms(4)] mset_eq_imp_distinct_iff [OF assms(4)] by auto
  from all_unparked [OF all [unfolded ys(1)] ys(2,3), of c u] obtain q where
    "ws_state q = Running" "ws_reason q = InteractionResolved"
    "parked_as w Running {} ([p] @ [q]) (worker_run c (worker_run c w (parks t (x # xs))) (unparks u ys))"
    by blast
  with p all show ?thesis by (auto simp: worker_run_def)
qed

definition toy_running :: worker where
  "toy_running = worker_run toy_worker_config new_worker (toy_start @ [(20, CallPrompt 5 True), (21, GoOn 0 Fine)])"

theorem parks_are_counted_witness:
  "\<exists>p q. ws_state p = RequiresAction \<and> ws_reason p = InteractionParked \<and>
    ws_interactions p = Some [''a''] \<and> ws_state q = Running \<and> ws_reason q = InteractionResolved \<and>
    parked_as toy_running RequiresAction (set [''a'', ''b'', ''c'']) [p]
      (worker_run toy_worker_config toy_running (parks 30 [''a'', ''b'', ''c''])) \<and>
    parked_as toy_running Running {} [p, q]
      (worker_run toy_worker_config toy_running
        (parks 30 [''a'', ''b'', ''c''] @ unparks 31 [''b'', ''c'', ''a'']))"
proof (rule parks_are_counted)
  show "wk_state toy_running = Running" by code_simp
  show "wk_parked toy_running = []" by code_simp
  show "distinct [''a'', ''b'', ''c'']" by code_simp
  show "mset [''b'', ''c'', ''a''] = mset [''a'', ''b'', ''c'']" by simp
qed


section \<open>Death and restart\<close>

text \<open>
  C16: A resumable worker survives its agent. When the process of an idle or running worker dies uncleanly
  and the session can be resumed, the worker ends asleep: marked crashed, with its session pointer and
  generation, no process, no turn and no pin on the lease, not closing; and the log gains exactly two
  events, the error first and then the transition that says it crashed.
\<close>

theorem resumable_worker_survives_a_crash:
  assumes "wk_proc w = Some p" "may_hibernate_after_crash c w" "unclean ex rq"
  shows "slept_after_crash w t (worker_run c w (crash_path t p ex rq tail (length (wk_pcs w)))) \<and>
    (\<exists>e q. is_error_event e \<and> ws_state q = Hibernated \<and> ws_reason q = AgentCrashed \<and>
      ws_crashed q = Some True \<and>
      worker_log (worker_run c w (crash_path t p ex rq tail (length (wk_pcs w)))) = worker_log w @
        [e, \<lparr>in_body = WorkerStateEv q, in_version = 2, in_turn = None, in_replay = False\<rparr>])"
  using assms by (rule crash_path_sleeps)

theorem resumable_worker_survives_a_crash_witness:
  "slept_after_crash toy_running 30 (worker_run toy_worker_config toy_running
      (crash_path 30 0 (Some 1, None) False ''bad'' (length (wk_pcs toy_running)))) \<and>
    (\<exists>e q. is_error_event e \<and> ws_state q = Hibernated \<and> ws_reason q = AgentCrashed \<and>
      ws_crashed q = Some True \<and>
      worker_log (worker_run toy_worker_config toy_running
        (crash_path 30 0 (Some 1, None) False ''bad'' (length (wk_pcs toy_running)))) =
        worker_log toy_running @
        [e, \<lparr>in_body = WorkerStateEv q, in_version = 2, in_turn = None, in_replay = False\<rparr>])"
proof (rule resumable_worker_survives_a_crash)
  show "wk_proc toy_running = Some 0" by code_simp
  show "may_hibernate_after_crash toy_worker_config toy_running" by code_simp
  show "unclean (Some 1, None) False" by code_simp
qed

text \<open>
  C17: A forced restart ends the turn as itself. Take a worker in a live turn, with a process, a session and
  a method to resume it by, no restart and no hibernation in flight, and a forced restart of it that is not
  fresh and changes no credential; and let the restart run through with nothing in between: the interactions
  settled, the old process reclaimed, the new one spawned, the session reopened. Then the worker is ready
  again, on the session the reopening returned, its generation one higher, without turn and without pin, and
  the caller is told the turn it cut short; the log gains exactly two events, a \<open>starting\<close> event under the
  turn's own id that carries the error \<open>restarted\<close>, and \<open>ready\<close>: no idle is made up for the turn. A spawn or
  a reopening that fails is not covered.
\<close>

theorem forced_restart_ends_the_turn_as_restarted:
  assumes "restartable b w"
  shows "back_with_next_generation w x s (worker_run c w (restart_path t x b s (length (wk_pcs w)))) \<and>
    (\<exists>p q. ws_state p = Starting \<and> ws_reason p = Restart \<and> ws_error p = Some (restart_error b) \<and>
      ws_state q = Ready \<and> ws_reason q = Resumed \<and>
      worker_log (worker_run c w (restart_path t x b s (length (wk_pcs w)))) = worker_log w @
        [\<lparr>in_body = WorkerStateEv p, in_version = 2, in_turn = wk_turn w, in_replay = False\<rparr>,
         \<lparr>in_body = WorkerStateEv q, in_version = 2, in_turn = None, in_replay = False\<rparr>])"
  using assms by (rule restart_path_lands)

definition toy_restart :: restart_body where
  "toy_restart = \<lparr>rb_force = True, rb_fresh = False, rb_resume = True, rb_reason = None, rb_credential = None\<rparr>"

theorem forced_restart_ends_the_turn_as_restarted_witness:
  "back_with_next_generation toy_running 9 toy_session (worker_run toy_worker_config toy_running
      (restart_path 30 9 toy_restart toy_session (length (wk_pcs toy_running)))) \<and>
    (\<exists>p q. ws_state p = Starting \<and> ws_reason p = Restart \<and> ws_error p = Some (restart_error toy_restart) \<and>
      ws_state q = Ready \<and> ws_reason q = Resumed \<and>
      worker_log (worker_run toy_worker_config toy_running
        (restart_path 30 9 toy_restart toy_session (length (wk_pcs toy_running)))) =
      worker_log toy_running @
        [\<lparr>in_body = WorkerStateEv p, in_version = 2, in_turn = wk_turn toy_running, in_replay = False\<rparr>,
         \<lparr>in_body = WorkerStateEv q, in_version = 2, in_turn = None, in_replay = False\<rparr>])"
proof (rule forced_restart_ends_the_turn_as_restarted)
  show "restartable toy_restart toy_running" by code_simp
qed

section \<open>Where operations overlap\<close>

definition said_closed :: "worker \<Rightarrow> bool" where
  "said_closed w \<longleftrightarrow> wk_closed_as w = Some (ClosedAs ClientRequest True True False)"

text \<open>
  A close that runs while a wake is opening the session is answered, and then the failed wake writes
  \<open>hibernated\<close> after \<open>closed\<close>.
\<close>

lemma close_during_wake_is_undone:
  "let w = worker_run toy_worker_config new_worker
     (toy_sleep @ [(20, CallWake 5 True), (21, GoOn 0 Fine), (22, CallClose 6 ClientRequest),
        (23, GoOn 2 Fine), (24, GoOn 3 Fine), (25, GoOn 3 (GotKill None True True)),
        (26, GoOn 1 (Wrong False toy_error)), (27, GoOn 2 Fine)])
   in said_closed w \<and> wk_state w = Hibernated"
  by code_simp

text \<open>
  The ladder of wakes is about wakes whose process lives until their answer. An agent that exits while its
  session is being reopened starts a close, because a starting worker may not sleep on a crash; the reopen
  fails on the dead process, and the failed wake puts the worker, which has said that it is closed, back to
  \<open>hibernated\<close>, with the close reason and the result of the close still set.
\<close>

lemma exit_during_wake_is_off_the_ladder:
  "let w = worker_run toy_worker_config new_worker
     (toy_sleep @ [(20, CallWake 5 True), (21, GoOn 0 Fine),
        (22, ProcessExited 1 (Some 1, None) False ''boom''), (23, GoOn 1 (Wrong False toy_error)),
        (24, GoOn 1 Fine), (25, GoOn 2 Fine)])
   in map ws_state (drop 3 (payloads (wk_trace w))) = [Starting, Closed, Hibernated] \<and>
      wk_state w = Hibernated \<and> wk_session w \<noteq> None \<and> wk_close_reason w = Some AgentCrashed \<and> wk_closed_as w = Some (ClosedAs AgentCrashed True True False)"
  by code_simp

text \<open>A prompt whose content gate answers after the close makes the closed worker run again.\<close>

lemma late_content_gate_revives_closed_worker:
  "let w = worker_run toy_worker_config new_worker
     (toy_start @ [(20, CallPrompt 5 True), (22, CallClose 6 ClientRequest), (23, GoOn 1 Fine),
        (24, GoOn 2 Fine), (25, GoOn 2 (GotKill None True True)), (26, GoOn 0 Fine)])
   in said_closed w \<and> wk_state w = Running \<and> wk_turn w = None"
  by code_simp

text \<open>
  A restart is admitted while a close runs, because only the state is read; it opens a process after
  the close has been answered, and the worker is ready.
\<close>

lemma restart_during_close_outlives_it:
  "let w = worker_run toy_worker_config new_worker
     (toy_start @ [(20, CallClose 5 ClientRequest), (21, CallRestart 6 True (toy_restart\<lparr>rb_force := False\<rparr>)),
        (22, GoOn 2 Fine), (23, GoOn 0 Fine), (24, GoOn 3 Fine), (25, GoOn 3 (GotKill None True True)),
        (26, GoOn 2 Fine), (27, GoOn 2 Fine), (28, GoOn 2 Fine), (29, GoOn 2 (GotSession toy_session))])
   in said_closed w \<and> wk_state w = Ready \<and> wk_proc w = Some 1"
  by code_simp

text \<open>
  A turn that settles while an interaction is parked leaves \<open>requires_action\<close>; resolving the
  interaction then announces \<open>running\<close> with no turn to end it.
\<close>

lemma turn_settled_while_parked_strands_worker:
  "let w = worker_run toy_worker_config new_worker
     (toy_start @ [(20, CallPrompt 5 True), (21, GoOn 0 Fine), (22, Parked ''i''),
        (23, GoOn 0 (GotAnswer ''end_turn'' None)), (24, GoOn 0 Fine), (30, TickDue), (31, Unparked ''i'')])
   in wk_state w = Running \<and> wk_turn w = None \<and> wk_pcs w = [] \<and> wk_tick w = None \<and> \<not> wk_pin w"
  by code_simp

text \<open>A resumable worker whose agent dies while an interaction is parked is closed instead of put to sleep.\<close>

lemma crash_while_parked_closes_resumable_worker:
  "let w = worker_run toy_worker_config new_worker
     (toy_start @ [(20, CallPrompt 5 True), (21, GoOn 0 Fine), (22, Parked ''i''),
        (23, ProcessExited 0 (Some 1, None) False ''''), (24, GoOn 1 Fine), (25, GoOn 2 (GotKill None True True))])
   in wk_state w = Closed \<and> wk_close_reason w = Some AgentCrashed \<and> wk_session w = Some ''s'' \<and>
      wk_method w = Some LoadSession"
  by code_simp

text \<open>
  A credential that cannot be linked in the middle of a restart leaves the worker in \<open>starting\<close> with no
  process and nothing waiting: prompts, wakes and restarts are refused as busy from then on.
\<close>

lemma failed_relink_strands_worker:
  "let w = worker_run toy_worker_config new_worker
     (toy_start @ [(20, CallRestart 5 True (toy_restart\<lparr>rb_credential := Some ''c''\<rparr>)), (21, GoOn 0 Fine),
        (22, GoOn 1 Fine), (23, GoOn 1 Fine), (24, GoOn 1 (Wrong False toy_error)), (25, GoOn 0 Fine),
        (26, CallPrompt 6 True), (27, CallWake 7 True), (28, CallRestart 8 True toy_restart)])
   in wk_state w = Starting \<and> wk_proc w = None \<and> \<not> wk_restarting w \<and>
      wk_pcs w = [Continues (ReplyTo 7) (CallFailed WorkerBusy), Continues (ReplyTo 8) (CallFailed WorkerBusy)]"
  by code_simp

text \<open>A restart that asks not to resume, without asking for a fresh session, resumes.\<close>

lemma restart_without_resume_resumes:
  "let w = worker_run toy_worker_config new_worker
     (toy_start @ [(20, CallRestart 5 True (toy_restart\<lparr>rb_resume := False\<rparr>)), (21, GoOn 0 Fine),
        (22, GoOn 1 Fine), (23, GoOn 1 Fine), (24, GoOn 1 Fine)])
   in last (wk_trace w) = ReopenAsked ''s''"
  by code_simp


text \<open>
  The answer of a turn waits for its patch without looking at the turn again: when a restart and a new
  prompt come in between, the answer of the old turn ends the new one, whose own request still waits.
\<close>

lemma late_patch_answers_the_next_turn:
  "let w = worker_run (toy_worker_config\<lparr>wc_diff := True\<rparr>) new_worker
     (toy_start @ [(20, CallPrompt 5 True), (21, GoOn 0 Fine), (22, GoOn 0 (GotPatch JNull)),
        (23, GoOn 0 (GotAnswer ''end_turn'' None)), (24, CallRestart 6 True toy_restart),
        (25, GoOn 1 Fine), (26, GoOn 2 Fine), (27, GoOn 2 Fine), (28, GoOn 2 (GotSession toy_session)),
        (29, GoOn 1 Fine), (30, CallPrompt 7 True), (31, GoOn 1 Fine), (32, GoOn 1 (GotPatch JNull)),
        (33, GoOn 0 (GotPatch JNull)), (40, TickDue)])
   in wk_state w = Ready \<and> wk_turn w = None \<and> wk_pcs w = [DriveRequest ''t1'' True] \<and>
      in_turn (last (butlast (worker_log w))) = Some ''t1''"
  by code_simp

end
