(* ===== verification/Fleet.thy ===== *)
theory Fleet
  imports Worker Hibernate LeasePolicy "HOL-Library.Multiset"
begin

text \<open>
  The daemon's worker registry: \<open>daemon/src/registry.ts\<close> over the rows of
  \<open>core/src/persist/worker-store.ts\<close>. As for the worker, an operation runs up to its \<open>await\<close>, leaves
  the rest of itself in a list of waiting activities and goes on when what it waits for has an answer;
  \<open>fleet_step\<close> runs one such stretch. The registry sees a worker through its handle: the snapshot the
  handle shows, the state changes it announces, the answers of its verbs and of its close. These arrive
  as inputs; a handle built over a persisted row starts as the worker \<open>restored_worker\<close> of that row.
\<close>

section \<open>Rows and views\<close>

datatype unresolved_choice = UnresolvedPark | UnresolvedDeny | UnresolvedFail
datatype patch_mode = PatchOff | PatchOnWrite | PatchAlways
datatype home_mode = Isolated | Shared

record mcp_report =
  mr_requested :: "string list"
  mr_applied :: "string list"
  mr_dropped :: "(string \<times> string) list"

record watchdog_row =
  wb_silent :: ms
  wb_tool :: ms
  wb_cancel :: ms

text \<open>\<open>WorkerViewRows\<close>: what the request asked for, which the worker itself does not hold.\<close>

record view_rows =
  vr_on_unresolved :: unresolved_choice
  vr_park_timeout :: "ms option"
  vr_park_action :: park_timeout_action
  vr_policy :: "json option"
  vr_policy_id :: "string option"
  vr_selection :: "json option"
  vr_alert :: "string list"
  vr_mcp :: mcp_report
  vr_env_keys :: "string list"
  vr_patch :: patch_mode
  vr_watchdog :: "watchdog_row option"
  vr_env :: "(string \<times> string) list option"
  vr_mcp_names :: "string list"
  vr_credential :: "string option"
  vr_home :: home_mode

text \<open>The half of a snapshot that \<open>decorate\<close> overwrites.\<close>

record snapshot_view =
  sv_on_unresolved :: unresolved_choice
  sv_park_timeout :: "ms option"
  sv_park_action :: park_timeout_action
  sv_policy :: "json option"
  sv_mcp :: mcp_report
  sv_env_keys :: "string list"
  sv_patch :: patch_mode

record process_info =
  pi_pid :: int
  pi_group :: "int option"
  pi_started :: ms
  pi_fingerprint :: "string option"

record orphan_record =
  or_process :: process_info
  or_reaped :: bool
  or_skipped :: "string option"

text \<open>
  \<open>sn_method\<close> is \<open>capabilities?.resume.method\<close>: absent before a handshake, \<open>null\<close> when the agent has no
  spelling.
\<close>

record worker_snapshot =
  sn_id :: string
  sn_owner :: string
  sn_state :: worker_state
  sn_cwd :: string
  sn_session :: "string option"
  sn_method :: "resume_method option option"
  sn_can_close :: bool
  sn_turn :: "string option"
  sn_close_reason :: "worker_reason option"
  sn_crashed :: bool
  sn_hibernated_at :: "ms option"
  sn_updated :: ms
  sn_lease :: lease_snapshot
  sn_process :: "process_info option"
  sn_orphan :: "orphan_record option"
  sn_head :: seq
  sn_generation :: int
  sn_wake_count :: int
  sn_wake_failures :: int
  sn_report :: "resume_report option"
  sn_credential_stale :: bool
  sn_view :: "snapshot_view option"

text \<open>\<open>WorkerRow\<close>. Every reader treats an absent field like \<open>null\<close>.\<close>

record worker_db_row =
  dr_snapshot :: worker_snapshot
  dr_agent :: string
  dr_boot :: string
  dr_close :: "worker_reply option"
  dr_last_active :: ms
  dr_closed_at :: "ms option"
  dr_idle :: "ms option"
  dr_on_unresolved :: "unresolved_choice option"
  dr_park_timeout :: "ms option"
  dr_park_action :: "park_timeout_action option"
  dr_mcp_names :: "string list option"
  dr_policy_ref :: "string option"
  dr_policy :: "json option"
  dr_env :: "(string \<times> string) list option"
  dr_watchdog :: "watchdog_row option"
  dr_patch :: "patch_mode option"
  dr_credential :: "string option"
  dr_home :: "home_mode option"

abbreviation dr_id :: "worker_db_row \<Rightarrow> string" where "dr_id r \<equiv> sn_id (dr_snapshot r)"

text \<open>The store's statements: one row by id, the upsert, every row in the order of the index.\<close>

definition db_get :: "worker_db_row list \<Rightarrow> string \<Rightarrow> worker_db_row option" where
  "db_get rows i = List.find (\<lambda>r. dr_id r = i) rows"

text \<open>The head of a row never falls: the column is raised to the greater of the two and read back.\<close>

definition raise_head :: "seq \<Rightarrow> worker_db_row \<Rightarrow> worker_db_row" where
  "raise_head h r =
     r\<lparr>dr_snapshot := (dr_snapshot r)\<lparr>sn_head := max h (sn_head (dr_snapshot r))\<rparr>\<rparr>"

fun db_upsert :: "worker_db_row list \<Rightarrow> worker_db_row \<Rightarrow> worker_db_row list" where
  "db_upsert [] r = [r]"
| "db_upsert (q # qs) r =
     (if dr_id q = dr_id r then raise_head (sn_head (dr_snapshot q)) r # qs else q # db_upsert qs r)"

definition decorate :: "worker_snapshot \<Rightarrow> view_rows \<Rightarrow> worker_snapshot" where
  "decorate s v =
     s\<lparr>sn_view := Some
         \<lparr>sv_on_unresolved = vr_on_unresolved v, sv_park_timeout = vr_park_timeout v,
          sv_park_action = vr_park_action v, sv_policy = vr_policy v, sv_mcp = vr_mcp v,
          sv_env_keys = vr_env_keys v, sv_patch = vr_patch v\<rparr>\<rparr>"

text \<open>\<open>viewRowsOf\<close>, with the behaviour of the boot that wrote a row for what the row does not have.\<close>

definition view_rows_of :: "worker_db_row \<Rightarrow> view_rows" where
  "view_rows_of r =
     \<lparr>vr_on_unresolved = option_or UnresolvedDeny (dr_on_unresolved r),
      vr_park_timeout = dr_park_timeout r,
      vr_park_action = option_or TimeoutDeny (dr_park_action r),
      vr_policy = Option.bind (sn_view (dr_snapshot r)) sv_policy,
      vr_policy_id = dr_policy_ref r, vr_selection = dr_policy r, vr_alert = [],
      vr_mcp = option_or \<lparr>mr_requested = option_or [] (dr_mcp_names r), mr_applied = [], mr_dropped = []\<rparr>
        (map_option sv_mcp (sn_view (dr_snapshot r))),
      vr_env_keys = option_or (map fst (option_or [] (dr_env r)))
        (map_option sv_env_keys (sn_view (dr_snapshot r))),
      vr_patch = option_or PatchOnWrite (dr_patch r),
      vr_watchdog = dr_watchdog r, vr_env = dr_env r, vr_mcp_names = option_or [] (dr_mcp_names r),
      vr_credential = dr_credential r, vr_home = option_or Shared (dr_home r)\<rparr>"

text \<open>What the worker's second construction reads of a row.\<close>

definition restored_row :: "worker_db_row \<Rightarrow> worker_row" where
  "restored_row r =
     (let s = dr_snapshot r in
      \<lparr>wr_state = sn_state s, wr_session = sn_session s, wr_method = Option.bind (sn_method s) id,
       wr_can_close = sn_can_close s, wr_turn = sn_turn s, wr_close_reason = sn_close_reason s,
       wr_generation = sn_generation s, wr_crashed = sn_crashed s,
       wr_hibernated_at = sn_hibernated_at s, wr_wake_count = sn_wake_count s,
       wr_wake_failures = sn_wake_failures s, wr_report = sn_report s,
       wr_stale = sn_credential_stale s, wr_closed_as = dr_close r\<rparr>)"

definition handle_over :: "worker_db_row \<Rightarrow> worker" where
  "handle_over r = restored_worker (restored_row r)"

section \<open>The registry's state\<close>

record fleet_auth =
  fa_admin :: bool
  fa_token :: string
  fa_agents :: "string list option"
  fa_max_workers :: int

record watchdog_budgets =
  bu_row :: watchdog_row
  bu_enabled :: bool

record watchdog_override =
  wo_silent :: "ms option"
  wo_tool :: "ms option"
  wo_cancel :: "ms option"
  wo_enabled :: "bool option"

record engine_view =
  ev_id :: string
  ev_snapshot :: json
  ev_alert :: "string list"

text \<open>
  A request, with what the checks before the reservation answer: the refusals of the catalog, the
  directory, the policy, the environment, the presets and the credential, in the order they are asked,
  and what each resolved to; \<open>cq_snapshot\<close> is what the handle shows when \<open>createWorker\<close> resolves.
\<close>

record create_request =
  cq_agent :: string
  cq_checks :: "omni_code option list"
  cq_snapshot :: worker_snapshot
  cq_idle :: "ms option"
  cq_on_unresolved :: unresolved_choice
  cq_park_timeout :: "ms option"
  cq_park_action :: "park_timeout_action option"
  cq_selection :: "json option"
  cq_engine :: "engine_view option"
  cq_mcp :: "string list option"
  cq_mcp_applied :: "string list"
  cq_mcp_dropped :: "(string \<times> string) list"
  cq_env :: "(string \<times> string) list"
  cq_env_persist :: bool
  cq_patch :: "patch_mode option"
  cq_watchdog :: "watchdog_override option"
  cq_home :: "home_mode option"

record credential_bound =
  cb_name :: "string option"
  cb_home :: "string option"

record fleet_config =
  fc_max_workers :: int
  fc_max_hibernated :: int
  fc_idle_ms :: ms
  fc_close_unresumable :: bool
  fc_cancel_grace :: ms
  fc_park_timeout :: ms
  fc_park_action :: park_timeout_action
  fc_patch :: patch_mode
  fc_watchdog :: watchdog_budgets
  fc_store :: bool
  fc_boot :: string
  fc_layer :: bool
  fc_worker_id :: "nat \<Rightarrow> string"
  fc_can_build :: "worker_db_row \<Rightarrow> bool"
  fc_revive :: "(view_rows \<Rightarrow> engine_view option + string) option"

record fleet_entry =
  fe_id :: string
  fe_snapshot :: worker_snapshot
  fe_owner :: string
  fe_agent :: string
  fe_subscribed :: bool
  fe_log_open :: bool
  fe_lease_open :: bool
  fe_closing :: bool
  fe_closed_as :: "worker_reply option"
  fe_live :: bool
  fe_idle :: "ms option"
  fe_timer :: "hibernate_timer option"
  fe_view :: view_rows
  fe_revoked :: "string option"

type_synonym fleet_call = nat

datatype verb = VPrompt | VConfig | VRestart | VWake | VHibernate | VCancel | VCredential

datatype fleet_reply =
    FRefused omni_code
  | FDone
  | FMade string
  | FDeleted worker_reply

datatype fleet_act =
    FAnswered fleet_call string fleet_reply
  | CreateAsked string
  | VerbAsked string verb
  | CloseAsked string worker_reason
  | IdleCloseAsked string
  | IdleLimitReached string

datatype fleet_pc =
    Binding fleet_call fleet_auth create_request string
  | Building fleet_call fleet_auth create_request string view_rows
  | Resuming fleet_call string verb fleet_auth
  | WakingUp fleet_call string bool
  | Verbing fleet_call string
  | Deleting fleet_call string
  | Revoking fleet_call string

text \<open>
  The last two fields are not the code's: \<open>fl_lost\<close> lists the tokens of the reservations a creation took
  and threw without giving back, \<open>fl_unchecked\<close> counts the slots taken without a look at the limit.
\<close>

record fleet =
  fl_now :: ms
  fl_entries :: "fleet_entry list"
  fl_per_token :: "string \<Rightarrow> int option"
  fl_total :: int
  fl_ids :: nat
  fl_rows :: "worker_db_row list"
  fl_pcs :: "fleet_pc list"
  fl_trace :: "fleet_act list"
  fl_lost :: "string list"
  fl_unchecked :: nat

definition new_fleet :: "worker_db_row list \<Rightarrow> fleet" where
  "new_fleet rows =
     \<lparr>fl_now = 0, fl_entries = [], fl_per_token = (\<lambda>_. None), fl_total = 0, fl_ids = 0,
      fl_rows = rows, fl_pcs = [], fl_trace = [], fl_lost = [], fl_unchecked = 0\<rparr>"

definition get_entry :: "fleet \<Rightarrow> string \<Rightarrow> fleet_entry option" where
  "get_entry f i = List.find (\<lambda>e. fe_id e = i) (fl_entries f)"

definition on_entry :: "string \<Rightarrow> (fleet_entry \<Rightarrow> fleet_entry) \<Rightarrow> fleet \<Rightarrow> fleet" where
  "on_entry i g f = f\<lparr>fl_entries := map (\<lambda>e. if fe_id e = i then g e else e) (fl_entries f)\<rparr>"

definition fleet_emit :: "fleet_act \<Rightarrow> fleet \<Rightarrow> fleet" where
  "fleet_emit a f = f\<lparr>fl_trace := fl_trace f @ [a]\<rparr>"

definition fleet_spawn :: "fleet_pc \<Rightarrow> fleet \<Rightarrow> fleet" where
  "fleet_spawn p f = f\<lparr>fl_pcs := fl_pcs f @ [p]\<rparr>"

definition fleet_answer :: "fleet_call \<Rightarrow> string \<Rightarrow> fleet_reply \<Rightarrow> fleet \<Rightarrow> fleet" where
  "fleet_answer x i r = fleet_emit (FAnswered x i r)"

section \<open>Slots\<close>

definition occupies_slot :: "worker_state \<Rightarrow> bool" where
  "occupies_slot s \<longleftrightarrow> s = Starting \<or> s = Ready \<or> s = Running \<or> s = RequiresAction"

definition slots_of :: "fleet \<Rightarrow> string \<Rightarrow> int" where
  "slots_of f token = option_or 0 (fl_per_token f token)"

definition take_slot :: "string \<Rightarrow> fleet \<Rightarrow> fleet" where
  "take_slot token f =
     f\<lparr>fl_total := fl_total f + 1,
       fl_per_token := (fl_per_token f)(token := Some (slots_of f token + 1))\<rparr>"

definition drop_slot :: "string \<Rightarrow> fleet \<Rightarrow> fleet" where
  "drop_slot token f =
     f\<lparr>fl_total := max 0 (fl_total f - 1),
       fl_per_token := (fl_per_token f)(token :=
         (if slots_of f token \<le> 1 then None else Some (slots_of f token - 1)))\<rparr>"

text \<open>\<open>reserve\<close>: the check and the reservation in one stretch.\<close>

definition create_refusal :: "fleet_config \<Rightarrow> fleet_auth \<Rightarrow> fleet \<Rightarrow> omni_code option" where
  "create_refusal c a f =
     (if fc_max_workers c \<le> fl_total f then Some WorkerLimit
      else if fa_max_workers a \<le> slots_of f (fa_token a) then Some WorkerLimit else None)"

definition release_entry :: "string \<Rightarrow> fleet \<Rightarrow> fleet" where
  "release_entry i f =
     (case get_entry f i of None \<Rightarrow> f
      | Some e \<Rightarrow>
          if \<not> fe_live e then f
          else drop_slot (fe_owner e) (on_entry i (\<lambda>e. e\<lparr>fe_live := False\<rparr>) f))"

definition reacquire :: "string \<Rightarrow> fleet \<Rightarrow> fleet" where
  "reacquire i f =
     (case get_entry f i of None \<Rightarrow> f
      | Some e \<Rightarrow>
          if fe_live e then f
          else (take_slot (fe_owner e) (on_entry i (\<lambda>e. e\<lparr>fe_live := True\<rparr>) f))
                 \<lparr>fl_unchecked := Suc (fl_unchecked f)\<rparr>)"

definition wake_refusal :: "fleet_config \<Rightarrow> fleet_auth \<Rightarrow> fleet_entry \<Rightarrow> fleet \<Rightarrow> omni_code option" where
  "wake_refusal c a e f =
     (if fe_live e then None
      else if fc_max_workers c \<le> fl_total f then Some WorkerLimit
      else if fa_token a = fe_owner e \<and> fa_max_workers a \<le> slots_of f (fe_owner e)
      then Some WorkerLimit else None)"

definition reserve_for_wake :: "fleet_entry \<Rightarrow> fleet \<Rightarrow> fleet" where
  "reserve_for_wake e f =
     (if fe_live e then f
      else take_slot (fe_owner e) (on_entry (fe_id e) (\<lambda>e. e\<lparr>fe_live := True\<rparr>) f))"

section \<open>The durable half\<close>

definition idle_budget :: "fleet_config \<Rightarrow> ms option \<Rightarrow> ms option" where
  "idle_budget c requested =
     (let m = option_or (fc_idle_ms c) requested in if m > 0 then Some m else None)"

definition row_of_entry :: "fleet_config \<Rightarrow> ms \<Rightarrow> fleet_entry \<Rightarrow> worker_db_row option \<Rightarrow> worker_db_row" where
  "row_of_entry c now e previous =
     (let s = decorate (fe_snapshot e) (fe_view e); v = fe_view e in
      \<lparr>dr_snapshot = s, dr_agent = fe_agent e, dr_boot = fc_boot c,
       dr_close = Option.bind previous dr_close, dr_last_active = now,
       dr_closed_at = (if sn_state s = Closed then Some (option_or now (Option.bind previous dr_closed_at)) else None),
       dr_idle = (case fe_idle e of Some m \<Rightarrow> Some m | None \<Rightarrow> Option.bind previous dr_idle),
       dr_on_unresolved = Some (vr_on_unresolved v), dr_park_timeout = vr_park_timeout v,
       dr_park_action = Some (vr_park_action v), dr_mcp_names = Some (vr_mcp_names v),
       dr_policy_ref = vr_policy_id v, dr_policy = vr_selection v, dr_env = vr_env v,
       dr_watchdog = vr_watchdog v, dr_patch = Some (vr_patch v), dr_credential = vr_credential v,
       dr_home = Some (vr_home v)\<rparr>)"

definition persist_row :: "fleet_config \<Rightarrow> string \<Rightarrow> fleet \<Rightarrow> fleet" where
  "persist_row c i f =
     (case get_entry f i of
        Some e \<Rightarrow>
          if fc_store c
          then f\<lparr>fl_rows := db_upsert (fl_rows f)
                   (row_of_entry c (fl_now f) e (db_get (fl_rows f) i))\<rparr>
          else f
      | None \<Rightarrow> f)"

definition persist_close :: "fleet_config \<Rightarrow> string \<Rightarrow> worker_reply \<Rightarrow> fleet \<Rightarrow> fleet" where
  "persist_close c i r f =
     (case get_entry f i of
        Some e \<Rightarrow>
          if fc_store c
          then f\<lparr>fl_rows := db_upsert (fl_rows f)
                   ((row_of_entry c (fl_now f) e (db_get (fl_rows f) i))\<lparr>dr_close := Some r\<rparr>)\<rparr>
          else f
      | None \<Rightarrow> f)"

section \<open>Watching a worker\<close>

definition timer_options :: "fleet_config \<Rightarrow> ms \<Rightarrow> hibernate_options" where
  "timer_options c idle =
     \<lparr>ho_idle_ms = idle, ho_close_unresumable = fc_close_unresumable c, ho_on_not_resumable = True\<rparr>"

definition move_timer ::
  "fleet_config \<Rightarrow> hibernate_op \<Rightarrow> fleet_entry \<Rightarrow> fleet_entry" where
  "move_timer c h e =
     (case (fe_idle e, fe_timer e) of
        (Some m, Some t) \<Rightarrow> e\<lparr>fe_timer := Some (hib_step (timer_options c m) t h)\<rparr>
      | _ \<Rightarrow> e)"

text \<open>\<open>armIdleTimer\<close>: the countdown starts at once.\<close>

definition arm_idle_timer :: "fleet_config \<Rightarrow> ms \<Rightarrow> fleet_entry \<Rightarrow> fleet_entry" where
  "arm_idle_timer c now e =
     (case fe_idle e of
        Some m \<Rightarrow>
          if m \<le> 0 then e
          else move_timer c (HTouch now) (e\<lparr>fe_timer := Some create_hibernate_timer\<rparr>)
      | None \<Rightarrow> e)"

text \<open>
  The listener \<open>watchEntry\<close> leaves on the handle. The handle shows the id and the owner it was built
  with, whatever else changed.
\<close>

definition same_worker :: "fleet_entry \<Rightarrow> worker_snapshot \<Rightarrow> worker_snapshot" where
  "same_worker e s = s\<lparr>sn_id := sn_id (fe_snapshot e), sn_owner := sn_owner (fe_snapshot e)\<rparr>"

definition state_op :: "ms \<Rightarrow> worker_state \<Rightarrow> hibernate_op" where
  "state_op now s = (if s = Ready then HTouch now else if s = Closed then HCancel else HPause)"

definition worker_changed :: "fleet_config \<Rightarrow> string \<Rightarrow> worker_snapshot \<Rightarrow> fleet \<Rightarrow> fleet" where
  "worker_changed c i s f =
     (let f1 = on_entry i (\<lambda>e. move_timer c (state_op (fl_now f) (sn_state s)) (e\<lparr>fe_snapshot := same_worker e s\<rparr>)) f;
          f2 = (if sn_state s = Hibernated then release_entry i f1
                else if occupies_slot (sn_state s) then reacquire i f1 else f1)
      in persist_row c i f2)"

text \<open>What \<open>handle.closed\<close> runs when it settles, the first time.\<close>

definition on_closed :: "fleet_config \<Rightarrow> string \<Rightarrow> worker_reply \<Rightarrow> fleet \<Rightarrow> fleet" where
  "on_closed c i r f =
     persist_close c i r
       (on_entry i (\<lambda>e. e\<lparr>fe_subscribed := False, fe_lease_open := False, fe_closed_as := Some r\<rparr>)
         (release_entry i f))"

definition closed_fired :: "fleet_config \<Rightarrow> string \<Rightarrow> worker_reply \<Rightarrow> fleet \<Rightarrow> fleet" where
  "closed_fired c i r f =
     (case get_entry f i of
        Some e \<Rightarrow> if fe_closed_as e = None then on_closed c i r f else f
      | None \<Rightarrow> f)"

definition count_hibernated :: "fleet_config \<Rightarrow> fleet \<Rightarrow> int" where
  "count_hibernated c f =
     int (length (filter (\<lambda>e. sn_state (fe_snapshot e) = Hibernated) (fl_entries f))) +
     (if fc_store c
      then int (length (filter (\<lambda>r. get_entry f (dr_id r) = None \<and> sn_state (dr_snapshot r) = Hibernated)
             (fl_rows f)))
      else 0)"

section \<open>Rehydration\<close>

definition revive :: "fleet_config \<Rightarrow> worker_db_row \<Rightarrow> engine_view option \<times> string option" where
  "revive c r =
     (if dr_on_unresolved r = None then (None, None)
      else case fc_revive c of None \<Rightarrow> (None, None)
        | Some build \<Rightarrow>
            (case build (view_rows_of r) of Inl e \<Rightarrow> (e, None) | Inr why \<Rightarrow> (None, Some why)))"

definition restored_snapshot :: "worker_db_row \<Rightarrow> worker_snapshot" where
  "restored_snapshot r =
     (dr_snapshot r)\<lparr>sn_state := wk_state (handle_over r), sn_process := None, sn_view := None,
        sn_lease := \<lparr>s_worker_id = dr_id r, s_holder = None, s_epoch = s_epoch (sn_lease (dr_snapshot r)),
          s_expires_at = None, s_acquired_at = None, s_pinned = False\<rparr>\<rparr>"

definition restored_entry :: "fleet_config \<Rightarrow> worker_db_row \<Rightarrow> fleet_entry" where
  "restored_entry c r =
     (let (engine, revoked) = revive c r; v = view_rows_of r in
      \<lparr>fe_id = dr_id r, fe_snapshot = restored_snapshot r, fe_owner = sn_owner (dr_snapshot r),
       fe_agent = dr_agent r, fe_subscribed = True, fe_log_open = True, fe_lease_open = True,
       fe_closing = False, fe_closed_as = None, fe_live = False,
       fe_idle = (case dr_idle r of Some m \<Rightarrow> Some m | None \<Rightarrow> idle_budget c None), fe_timer = None,
       fe_view = v\<lparr>vr_policy := map_option ev_snapshot engine,
         vr_policy_id := (case engine of Some e \<Rightarrow> Some (ev_id e) | None \<Rightarrow> vr_policy_id v),
         vr_alert := (case engine of Some e \<Rightarrow> ev_alert e | None \<Rightarrow> [])\<rparr>,
       fe_revoked = revoked\<rparr>)"

definition rehydrate :: "fleet_config \<Rightarrow> worker_db_row \<Rightarrow> fleet \<Rightarrow> fleet" where
  "rehydrate c r f =
     (if \<not> fc_can_build c r then f
      else
       (let f1 = f\<lparr>fl_entries := fl_entries f @ [restored_entry c r]\<rparr>;
            f2 = (if occupies_slot (sn_state (dr_snapshot r)) then reacquire (dr_id r) f1 else f1);
            f3 = on_entry (dr_id r) (arm_idle_timer c (fl_now f)) f2
        in case wk_closed_as (handle_over r) of
             None \<Rightarrow> f3 | Some a \<Rightarrow> on_closed c (dr_id r) a f3))"

section \<open>Visibility\<close>

definition can_see :: "fleet_auth \<Rightarrow> worker_snapshot \<Rightarrow> bool" where
  "can_see a s \<longleftrightarrow> fa_admin a \<or> sn_owner s = fa_token a"

text \<open>\<open>lookup\<close>: the visibility check comes before anything is built.\<close>

definition lookup_entry :: "fleet_config \<Rightarrow> fleet_auth \<Rightarrow> string \<Rightarrow> fleet \<Rightarrow> fleet \<times> fleet_entry option" where
  "lookup_entry c a i f =
     (case get_entry f i of
        Some e \<Rightarrow> (f, if can_see a (fe_snapshot e) then Some e else None)
      | None \<Rightarrow>
          if \<not> fc_store c then (f, None)
          else case db_get (fl_rows f) i of
            None \<Rightarrow> (f, None)
          | Some r \<Rightarrow>
              if \<not> can_see a (dr_snapshot r) then (f, None)
              else (let f' = rehydrate c r f in (f', get_entry f' i)))"

definition with_entry ::
  "fleet_config \<Rightarrow> fleet_call \<Rightarrow> fleet_auth \<Rightarrow> string \<Rightarrow> (fleet_entry \<Rightarrow> fleet \<Rightarrow> fleet) \<Rightarrow> fleet \<Rightarrow> fleet" where
  "with_entry c x a i k f =
     (case lookup_entry c a i f of
        (f', None) \<Rightarrow> fleet_answer x i (FRefused WorkerNotFound) f'
      | (f', Some e) \<Rightarrow> k e f')"

definition list_workers :: "fleet_config \<Rightarrow> fleet_auth \<Rightarrow> fleet \<Rightarrow> worker_snapshot list" where
  "list_workers c a f =
     filter (can_see a) (map (\<lambda>e. decorate (fe_snapshot e) (fe_view e)) (fl_entries f)) @
     (if fc_store c
      then filter (can_see a) (map dr_snapshot (filter (\<lambda>r. get_entry f (dr_id r) = None) (fl_rows f)))
      else [])"

section \<open>Create\<close>

text \<open>The daemon-wide budgets with the request's overrides, and the one combination that is refused.\<close>

definition resolve_budgets :: "fleet_config \<Rightarrow> watchdog_override option \<Rightarrow> omni_code + watchdog_budgets" where
  "resolve_budgets c over =
     (let b = fc_watchdog c; r = bu_row b;
          b' = (case over of None \<Rightarrow> b
            | Some v \<Rightarrow>
                \<lparr>bu_row = \<lparr>wb_silent = option_or (wb_silent r) (wo_silent v),
                   wb_tool = option_or (wb_tool r) (wo_tool v),
                   wb_cancel = option_or (wb_cancel r) (wo_cancel v)\<rparr>,
                 bu_enabled = option_or (bu_enabled b) (wo_enabled v)\<rparr>)
      in if wb_cancel (bu_row b') \<le> fc_cancel_grace c then Inl BadRequest else Inr b')"

definition view_of_request ::
  "fleet_config \<Rightarrow> create_request \<Rightarrow> credential_bound option \<Rightarrow> watchdog_budgets \<Rightarrow> view_rows" where
  "view_of_request c q bound budgets =
     (let park = option_or (fc_park_timeout c) (cq_park_timeout q) in
      \<lparr>vr_on_unresolved = cq_on_unresolved q,
       vr_park_timeout = (if park = 0 then None else Some park),
       vr_park_action = option_or (fc_park_action c) (cq_park_action q),
       vr_policy = map_option ev_snapshot (cq_engine q),
       vr_policy_id = map_option ev_id (cq_engine q),
       vr_selection = cq_selection q,
       vr_alert = (case cq_engine q of None \<Rightarrow> [] | Some e \<Rightarrow> ev_alert e),
       vr_mcp = \<lparr>mr_requested = option_or [] (cq_mcp q), mr_applied = cq_mcp_applied q,
         mr_dropped = cq_mcp_dropped q\<rparr>,
       vr_env_keys = map fst (cq_env q),
       vr_patch = option_or (fc_patch c) (cq_patch q),
       vr_watchdog = (if bu_enabled budgets then Some (bu_row budgets) else None),
       vr_env = (if cq_env_persist q then Some (cq_env q) else None),
       vr_mcp_names = option_or [] (cq_mcp q),
       vr_credential = Option.bind bound cb_name,
       vr_home = (if map_option cb_home bound = Some None then Shared
                  else option_or Isolated (cq_home q))\<rparr>)"

text \<open>
  From the reservation on, only a refusal of \<open>createWorker\<close> itself is caught; what throws before it
  leaves the reservation taken.
\<close>

definition lose_slot :: "string \<Rightarrow> fleet \<Rightarrow> fleet" where
  "lose_slot token f = f\<lparr>fl_lost := fl_lost f @ [token]\<rparr>"

definition build_worker ::
  "fleet_config \<Rightarrow> fleet_call \<Rightarrow> fleet_auth \<Rightarrow> create_request \<Rightarrow> string \<Rightarrow> credential_bound option \<Rightarrow> fleet \<Rightarrow> fleet" where
  "build_worker c x a q i bound f =
     (case resolve_budgets c (cq_watchdog q) of
        Inl code \<Rightarrow> fleet_answer x i (FRefused code) (lose_slot (fa_token a) f)
      | Inr budgets \<Rightarrow>
          fleet_spawn (Building x a q i (view_of_request c q bound budgets)) (fleet_emit (CreateAsked i) f))"

fun first_refusal :: "omni_code option list \<Rightarrow> omni_code option" where
  "first_refusal [] = None"
| "first_refusal (r # rs) = (case r of Some code \<Rightarrow> Some code | None \<Rightarrow> first_refusal rs)"

definition agent_allowed :: "fleet_auth \<Rightarrow> string \<Rightarrow> bool" where
  "agent_allowed a agent = (case fa_agents a of None \<Rightarrow> True | Some as \<Rightarrow> agent \<in> set as)"

definition create_worker_call :: "fleet_config \<Rightarrow> fleet_call \<Rightarrow> fleet_auth \<Rightarrow> create_request \<Rightarrow> fleet \<Rightarrow> fleet" where
  "create_worker_call c x a q f =
     (case first_refusal ((if agent_allowed a (cq_agent q) then None else Some Forbidden) # cq_checks q) of
        Some code \<Rightarrow> fleet_answer x '''' (FRefused code) f
      | None \<Rightarrow>
          (case create_refusal c a f of
             Some code \<Rightarrow> fleet_answer x '''' (FRefused code) f
           | None \<Rightarrow>
               (let i = fc_worker_id c (fl_ids f);
                    f1 = (take_slot (fa_token a) f)\<lparr>fl_ids := Suc (fl_ids f)\<rparr>
                in if fc_layer c then fleet_spawn (Binding x a q i) f1
                   else build_worker c x a q i None f1)))"

definition made_entry ::
  "fleet_config \<Rightarrow> fleet_auth \<Rightarrow> create_request \<Rightarrow> string \<Rightarrow> view_rows \<Rightarrow> fleet_entry" where
  "made_entry c a q i v =
     \<lparr>fe_id = i, fe_snapshot = (cq_snapshot q)\<lparr>sn_id := i, sn_owner := fa_token a\<rparr>, fe_owner = fa_token a, fe_agent = cq_agent q,
      fe_subscribed = True, fe_log_open = True, fe_lease_open = True, fe_closing = False,
      fe_closed_as = None, fe_live = True, fe_idle = idle_budget c (cq_idle q), fe_timer = None,
      fe_view = v, fe_revoked = None\<rparr>"

definition worker_made ::
  "fleet_config \<Rightarrow> fleet_call \<Rightarrow> fleet_auth \<Rightarrow> create_request \<Rightarrow> string \<Rightarrow> view_rows \<Rightarrow> fleet \<Rightarrow> fleet" where
  "worker_made c x a q i v f =
     fleet_answer x i (FMade i)
       (persist_row c i
         (f\<lparr>fl_entries := fl_entries f @ [arm_idle_timer c (fl_now f) (made_entry c a q i v)]\<rparr>))"

section \<open>Close, delete\<close>

definition close_entry :: "string \<Rightarrow> worker_reason \<Rightarrow> fleet \<Rightarrow> fleet" where
  "close_entry i reason f =
     (case get_entry f i of
        Some e \<Rightarrow>
          if fe_closing e then f
          else fleet_emit (CloseAsked i reason) (on_entry i (\<lambda>e. e\<lparr>fe_closing := True\<rparr>) f)
      | None \<Rightarrow> f)"

definition persisted_close :: "worker_db_row \<Rightarrow> worker_reply" where
  "persisted_close r =
     (case dr_close r of
        Some a \<Rightarrow> a
      | None \<Rightarrow> ClosedAs (option_or DaemonShutdown (sn_close_reason (dr_snapshot r))) False False False)"

text \<open>\<open>deleteAcrossRestart\<close>: \<open>None\<close> is the ordinary path.\<close>

definition delete_across_restart ::
  "fleet_config \<Rightarrow> fleet_auth \<Rightarrow> string \<Rightarrow> fleet \<Rightarrow> fleet_reply option" where
  "delete_across_restart c a i f =
     (if \<not> fc_store c \<or> get_entry f i \<noteq> None then None
      else case db_get (fl_rows f) i of
        None \<Rightarrow> None
      | Some r \<Rightarrow>
          if sn_state (dr_snapshot r) \<noteq> Closed then None
          else if \<not> can_see a (dr_snapshot r) then Some (FRefused WorkerNotFound)
          else Some (FDeleted (persisted_close r)))"

definition delete_worker :: "fleet_config \<Rightarrow> fleet_call \<Rightarrow> fleet_auth \<Rightarrow> bool \<Rightarrow> string \<Rightarrow> fleet \<Rightarrow> fleet" where
  "delete_worker c x a holder i f =
     (case delete_across_restart c a i f of
        Some r \<Rightarrow> fleet_answer x i r f
      | None \<Rightarrow>
          with_entry c x a i (\<lambda>e f.
            if \<not> fa_admin a \<and> \<not> holder then fleet_answer x i (FRefused LeaseHeld) f
            else fleet_spawn (Deleting x i) (close_entry i ClientRequest f)) f)"

definition reclaimable :: "fleet_entry \<Rightarrow> bool" where
  "reclaimable e \<longleftrightarrow> sn_state (fe_snapshot e) \<noteq> Hibernated \<and> sn_state (fe_snapshot e) \<noteq> Closed"

definition close_all :: "worker_reason \<Rightarrow> fleet \<Rightarrow> fleet" where
  "close_all reason f =
     foldl (\<lambda>f i. close_entry i reason f) f (map fe_id (filter reclaimable (fl_entries f)))"

text \<open>The sweep at the end of \<open>closeAll\<close>, when every close has settled or the budget is spent.\<close>

definition swept_entry :: "fleet_entry \<Rightarrow> fleet_entry" where
  "swept_entry e =
     e\<lparr>fe_subscribed := False, fe_log_open := False, fe_timer := None, fe_lease_open := False\<rparr>"

definition sweep_all :: "fleet \<Rightarrow> fleet" where
  "sweep_all f = f\<lparr>fl_entries := map swept_entry (fl_entries f)\<rparr>"

section \<open>Verbs that may resume a worker\<close>

definition ask_verb :: "fleet_call \<Rightarrow> string \<Rightarrow> verb \<Rightarrow> fleet \<Rightarrow> fleet" where
  "ask_verb x i v f = fleet_spawn (Verbing x i) (fleet_emit (VerbAsked i v) f)"

text \<open>\<open>assertMayResume\<close> up to its first \<open>await\<close>.\<close>

definition may_resume :: "fleet_call \<Rightarrow> verb \<Rightarrow> fleet_auth \<Rightarrow> fleet_entry \<Rightarrow> fleet \<Rightarrow> fleet" where
  "may_resume x v a e f =
     (if fe_revoked e \<noteq> None
      then fleet_spawn (Revoking x (fe_id e)) (close_entry (fe_id e) AclRevoked f)
      else if \<not> agent_allowed a (fe_agent e) then fleet_answer x (fe_id e) (FRefused Forbidden) f
      else fleet_spawn (Resuming x (fe_id e) v a) f)"

definition resuming_verb :: "verb \<Rightarrow> bool" where
  "resuming_verb v \<longleftrightarrow> v = VPrompt \<or> v = VConfig \<or> v = VRestart"

definition verb_call :: "fleet_config \<Rightarrow> fleet_call \<Rightarrow> fleet_auth \<Rightarrow> verb \<Rightarrow> string \<Rightarrow> fleet \<Rightarrow> fleet" where
  "verb_call c x a v i f =
     with_entry c x a i (\<lambda>e f.
       if v = VWake \<or> (resuming_verb v \<and> sn_state (fe_snapshot e) = Hibernated) then may_resume x v a e f
       else ask_verb x i v f) f"

definition wake_resumed :: "fleet_config \<Rightarrow> fleet_call \<Rightarrow> fleet_auth \<Rightarrow> fleet_entry \<Rightarrow> fleet \<Rightarrow> fleet" where
  "wake_resumed c x a e f =
     (if sn_state (fe_snapshot e) = Hibernated
      then (case wake_refusal c a e f of
              Some code \<Rightarrow> fleet_answer x (fe_id e) (FRefused code) f
            | None \<Rightarrow>
                fleet_spawn (WakingUp x (fe_id e) True)
                  (fleet_emit (VerbAsked (fe_id e) VWake) (reserve_for_wake e f)))
      else fleet_spawn (WakingUp x (fe_id e) False) (fleet_emit (VerbAsked (fe_id e) VWake) f))"

definition resumed :: "fleet_config \<Rightarrow> fleet_call \<Rightarrow> string \<Rightarrow> verb \<Rightarrow> fleet_auth \<Rightarrow> fleet \<Rightarrow> fleet" where
  "resumed c x i v a f =
     (case get_entry f i of
        None \<Rightarrow> f
      | Some e \<Rightarrow> if v = VWake then wake_resumed c x a e f else ask_verb x i v f)"

definition wake_failed_here :: "string \<Rightarrow> bool \<Rightarrow> fleet \<Rightarrow> fleet" where
  "wake_failed_here i reserved f =
     (case get_entry f i of
        None \<Rightarrow> f
      | Some e \<Rightarrow>
          if reserved \<and> sn_state (fe_snapshot e) = Hibernated then release_entry i f else f)"

definition hibernate_call :: "fleet_config \<Rightarrow> fleet_call \<Rightarrow> fleet_auth \<Rightarrow> bool \<Rightarrow> string \<Rightarrow> fleet \<Rightarrow> fleet" where
  "hibernate_call c x a holder i f =
     with_entry c x a i (\<lambda>e f.
       if \<not> holder then fleet_answer x i (FRefused LeaseHeld) f
       else if sn_state (fe_snapshot e) \<noteq> Hibernated \<and> fc_max_hibernated c \<le> count_hibernated c f
       then fleet_answer x i (FRefused WorkerLimit) f
       else ask_verb x i VHibernate f) f"

text \<open>The idle timer's callbacks.\<close>

definition resumable_now :: "fleet_entry \<Rightarrow> bool" where
  "resumable_now e \<longleftrightarrow> sn_method (fe_snapshot e) \<noteq> Some None"

definition idle_effect :: "fleet_config \<Rightarrow> string \<Rightarrow> hibernate_effect \<Rightarrow> fleet \<Rightarrow> fleet" where
  "idle_effect c i h f =
     (case h of
        FireNotResumable \<Rightarrow> fleet_emit (IdleCloseAsked i) f
      | LogRefusal \<Rightarrow> f
      | FireHibernate \<Rightarrow>
          if fc_max_hibernated c \<le> count_hibernated c f then fleet_emit (IdleLimitReached i) f
          else fleet_emit (VerbAsked i VHibernate) f)"

definition idle_due :: "fleet_config \<Rightarrow> string \<Rightarrow> fleet \<Rightarrow> fleet" where
  "idle_due c i f =
     (case get_entry f i of
        None \<Rightarrow> f
      | Some e \<Rightarrow>
          (case (fe_idle e, fe_timer e) of
             (Some m, Some t) \<Rightarrow>
               (let t' = hib_step (timer_options c m) t (HFire (fl_now f) (resumable_now e));
                    news = drop (length (ht_effects t)) (ht_effects t')
                in foldl (\<lambda>f h. idle_effect c i h f) (on_entry i (\<lambda>e. e\<lparr>fe_timer := Some t'\<rparr>) f) news)
           | _ \<Rightarrow> f))"

section \<open>The credential a worker is bound to\<close>

text \<open>\<open>bind\<close>, once the layer has answered: the row follows the name.\<close>

definition credential_rebound :: "fleet_config \<Rightarrow> string \<Rightarrow> string option \<Rightarrow> fleet \<Rightarrow> fleet" where
  "credential_rebound c i name f =
     (case get_entry f i of
        None \<Rightarrow> f
      | Some e \<Rightarrow>
          if vr_credential (fe_view e) = name then f
          else persist_row c i (on_entry i (\<lambda>e. e\<lparr>fe_view := (fe_view e)\<lparr>vr_credential := name\<rparr>\<rparr>) f))"

section \<open>Steps\<close>

datatype fleet_outcome =
    FFine
  | FWrong omni_code
  | FBound credential_bound

definition closed_answer :: "string \<Rightarrow> fleet \<Rightarrow> worker_reply option" where
  "closed_answer i f = Option.bind (get_entry f i) fe_closed_as"

fun run_fleet_pc :: "fleet_config \<Rightarrow> fleet_pc \<Rightarrow> fleet_outcome \<Rightarrow> fleet \<Rightarrow> fleet option" where
  "run_fleet_pc c (Binding x a q i) r f =
     (case r of
        FBound b \<Rightarrow> Some (build_worker c x a q i (Some b) f)
      | FWrong code \<Rightarrow> Some (fleet_answer x i (FRefused code) (lose_slot (fa_token a) f))
      | FFine \<Rightarrow> None)"
| "run_fleet_pc c (Building x a q i v) r f =
     (case r of
        FFine \<Rightarrow> Some (worker_made c x a q i v f)
      | FWrong code \<Rightarrow> Some (fleet_answer x i (FRefused code) (drop_slot (fa_token a) f))
      | FBound b \<Rightarrow> None)"
| "run_fleet_pc c (Resuming x i v a) r f =
     (case r of
        FFine \<Rightarrow> Some (resumed c x i v a f)
      | FWrong code \<Rightarrow> Some (fleet_answer x i (FRefused code) f)
      | FBound b \<Rightarrow> None)"
| "run_fleet_pc c (WakingUp x i reserved) r f =
     (case r of
        FFine \<Rightarrow> Some (fleet_answer x i FDone f)
      | FWrong code \<Rightarrow> Some (fleet_answer x i (FRefused code) (wake_failed_here i reserved f))
      | FBound b \<Rightarrow> None)"
| "run_fleet_pc c (Verbing x i) r f =
     (case r of
        FFine \<Rightarrow> Some (fleet_answer x i FDone f)
      | FWrong code \<Rightarrow> Some (fleet_answer x i (FRefused code) f)
      | FBound b \<Rightarrow> None)"
| "run_fleet_pc c (Deleting x i) r f =
     (case closed_answer i f of None \<Rightarrow> None | Some a \<Rightarrow> Some (fleet_answer x i (FDeleted a) f))"
| "run_fleet_pc c (Revoking x i) r f =
     (case closed_answer i f of None \<Rightarrow> None | Some a \<Rightarrow> Some (fleet_answer x i (FRefused Forbidden) f))"

definition resume_fleet_pc :: "fleet_config \<Rightarrow> nat \<Rightarrow> fleet_outcome \<Rightarrow> fleet \<Rightarrow> fleet" where
  "resume_fleet_pc c n r f =
     (if n < length (fl_pcs f)
      then (case run_fleet_pc c (fl_pcs f ! n) r (f\<lparr>fl_pcs := drop_nth n (fl_pcs f)\<rparr>) of
              None \<Rightarrow> f | Some f' \<Rightarrow> f')
      else f)"

datatype fleet_input =
    FCreate fleet_call fleet_auth create_request
  | FVerb fleet_call fleet_auth verb string
  | FHibernate fleet_call fleet_auth bool string
  | FDelete fleet_call fleet_auth bool string
  | FCloseAll worker_reason
  | FSweep
  | FIdleDue string
  | FState string worker_snapshot
  | FClosed string worker_reply
  | FRebound string "string option"
  | FGoOn nat fleet_outcome

fun on_fleet :: "fleet_config \<Rightarrow> fleet_input \<Rightarrow> fleet \<Rightarrow> fleet" where
  "on_fleet c (FCreate x a q) f = create_worker_call c x a q f"
| "on_fleet c (FVerb x a v i) f = verb_call c x a v i f"
| "on_fleet c (FHibernate x a holder i) f = hibernate_call c x a holder i f"
| "on_fleet c (FDelete x a holder i) f = delete_worker c x a holder i f"
| "on_fleet c (FCloseAll reason) f = close_all reason f"
| "on_fleet c FSweep f = sweep_all f"
| "on_fleet c (FIdleDue i) f = idle_due c i f"
| "on_fleet c (FState i s) f = worker_changed c i s f"
| "on_fleet c (FClosed i r) f = closed_fired c i r f"
| "on_fleet c (FRebound i name) f = credential_rebound c i name f"
| "on_fleet c (FGoOn n r) f = resume_fleet_pc c n r f"

definition fleet_step :: "fleet_config \<Rightarrow> fleet \<Rightarrow> ms \<times> fleet_input \<Rightarrow> fleet" where
  "fleet_step c f i = on_fleet c (snd i) (f\<lparr>fl_now := fst i\<rparr>)"

definition fleet_run :: "fleet_config \<Rightarrow> fleet \<Rightarrow> (ms \<times> fleet_input) list \<Rightarrow> fleet" where
  "fleet_run c f is = foldl (fleet_step c) f is"

end
