(* ===== verification/FleetInv.thy ===== *)
theory FleetInv
  imports Fleet
begin

text \<open>
  The books of the worker registry: what holds a slot, and that the two counters count it over every
  run. An operation is \<open>quiet_step\<close> when it neither takes nor gives a slot.
\<close>

section \<open>Who holds a slot\<close>

fun slot_pc :: "fleet_pc \<Rightarrow> (string \<times> string) option" where
  "slot_pc (Binding x a q i) = Some (i, fa_token a)"
| "slot_pc (Building x a q i v) = Some (i, fa_token a)"
| "slot_pc (Resuming x i v a) = None"
| "slot_pc (WakingUp x i r) = None"
| "slot_pc (Verbing x i) = None"
| "slot_pc (Deleting x i) = None"
| "slot_pc (Revoking x i) = None"

definition slot_list :: "fleet \<Rightarrow> (string \<times> string) list" where
  "slot_list f = List.map_filter slot_pc (fl_pcs f)"

definition live_owners :: "fleet_entry list \<Rightarrow> string list" where
  "live_owners es = map fe_owner (filter fe_live es)"

text \<open>The tokens of every slot taken: of live workers, of workers being made, of lost reservations.\<close>

definition held :: "fleet \<Rightarrow> string multiset" where
  "held f = mset (live_owners (fl_entries f)) + mset (map snd (slot_list f)) + mset (fl_lost f)"

abbreviation entry_ids :: "fleet \<Rightarrow> string list" where "entry_ids f \<equiv> map fe_id (fl_entries f)"
abbreviation row_ids :: "fleet \<Rightarrow> string list" where "row_ids f \<equiv> map dr_id (fl_rows f)"
abbreviation slot_ids :: "fleet \<Rightarrow> string list" where "slot_ids f \<equiv> map fst (slot_list f)"

definition well_named :: "fleet_entry list \<Rightarrow> bool" where
  "well_named es \<longleftrightarrow> (\<forall>e\<in>set es. sn_id (fe_snapshot e) = fe_id e)"

definition names_fresh :: "fleet_config \<Rightarrow> fleet \<Rightarrow> bool" where
  "names_fresh c f \<longleftrightarrow> well_named (fl_entries f) \<and> distinct (entry_ids f @ slot_ids f) \<and> set (row_ids f) \<inter> set (slot_ids f) = {} \<and>
     (\<forall>n\<ge>fl_ids f. fc_worker_id c n \<notin> set (entry_ids f) \<union> set (row_ids f) \<union> set (slot_ids f))"

definition books :: "fleet_config \<Rightarrow> fleet \<Rightarrow> bool" where
  "books c f \<longleftrightarrow> fl_total f = int (size (held f)) \<and> (\<forall>t. slots_of f t = int (count (held f) t)) \<and>
     fl_total f \<le> max 0 (fc_max_workers c) + int (fl_unchecked f)"

definition fleet_inv :: "fleet_config \<Rightarrow> fleet \<Rightarrow> bool" where
  "fleet_inv c f \<longleftrightarrow> names_fresh c f \<and> books c f"

section \<open>Entries by id\<close>

definition keeps_id :: "(fleet_entry \<Rightarrow> fleet_entry) \<Rightarrow> bool" where
  "keeps_id g \<longleftrightarrow> (\<forall>e. fe_id (g e) = fe_id e)"

lemma find_id:
  "List.find (\<lambda>e. h e = i) xs = Some e \<Longrightarrow> h e = i \<and> e \<in> set xs"
  by (induction xs) (auto split: if_splits)

lemma find_none: "List.find (\<lambda>e. h e = i) xs = None \<longleftrightarrow> i \<notin> set (map h xs)"
  by (induction xs) auto

lemma get_entry_id: "get_entry f i = Some e \<Longrightarrow> fe_id e = i"
  by (auto simp: get_entry_def dest: find_id)

lemma get_entry_in: "get_entry f i = Some e \<Longrightarrow> e \<in> set (fl_entries f)"
  by (auto simp: get_entry_def dest: find_id)

lemma get_entry_none: "get_entry f i = None \<longleftrightarrow> i \<notin> set (entry_ids f)"
  unfolding get_entry_def by (rule find_none)

lemma get_entry_cong: "fl_entries f = fl_entries g \<Longrightarrow> get_entry f i = get_entry g i"
  by (simp add: get_entry_def)

lemma find_map_id:
  assumes "\<And>e. h (g e) = h e"
  shows "List.find (\<lambda>e. h e = i) (map (\<lambda>e. if h e = j then g e else e) es) =
    (if i = j then map_option g (List.find (\<lambda>e. h e = i) es) else List.find (\<lambda>e. h e = i) es)"
  by (induction es) (auto simp: assms)

lemma get_on_entry:
  "keeps_id g \<Longrightarrow> get_entry (on_entry j g f) i =
     (if i = j then map_option g (get_entry f i) else get_entry f i)"
  unfolding get_entry_def on_entry_def keeps_id_def
  by (simp add: find_map_id [where h = fe_id])

lemma ids_on_entry [simp]: "keeps_id g \<Longrightarrow> entry_ids (on_entry i g f) = entry_ids f"
  by (simp add: on_entry_def keeps_id_def)

lemma rest_on_entry [simp]:
  "fl_now (on_entry i g f) = fl_now f" "fl_per_token (on_entry i g f) = fl_per_token f"
  "fl_total (on_entry i g f) = fl_total f" "fl_ids (on_entry i g f) = fl_ids f"
  "fl_rows (on_entry i g f) = fl_rows f" "fl_pcs (on_entry i g f) = fl_pcs f"
  "fl_trace (on_entry i g f) = fl_trace f" "fl_lost (on_entry i g f) = fl_lost f"
  "fl_unchecked (on_entry i g f) = fl_unchecked f" "slot_list (on_entry i g f) = slot_list f"
  "slots_of (on_entry i g f) t = slots_of f t"
  by (simp_all add: on_entry_def slot_list_def slots_of_def)

lemma upsert_ids: "set (map dr_id (db_upsert rows r)) = insert (dr_id r) (set (map dr_id rows))"
  by (induction rows) (auto simp: raise_head_def)

section \<open>Quiet operations\<close>

definition entry_key :: "fleet_entry \<Rightarrow> string \<times> string \<times> bool \<times> string" where
  "entry_key e = (fe_id e, fe_owner e, fe_live e, sn_id (fe_snapshot e))"


definition quiet_step :: "fleet \<Rightarrow> fleet \<Rightarrow> bool" where
  "quiet_step f f' \<longleftrightarrow> map entry_key (fl_entries f') = map entry_key (fl_entries f) \<and>
     fl_total f' = fl_total f \<and> fl_per_token f' = fl_per_token f \<and> fl_lost f' = fl_lost f \<and>
     fl_ids f' = fl_ids f \<and> fl_unchecked f' = fl_unchecked f \<and> slot_list f' = slot_list f \<and>
     set (row_ids f') \<subseteq> set (row_ids f) \<union> set (entry_ids f)"

lemma keys_ids: "map fe_id es = map fst (map entry_key es)"
  by (simp add: entry_key_def comp_def)

lemma keys_named: "well_named es \<longleftrightarrow> (\<forall>k\<in>set (map entry_key es). snd (snd (snd k)) = fst k)"
  by (simp add: well_named_def entry_key_def)

lemma keys_owners:
  "live_owners es = map (fst \<circ> snd) (filter (fst \<circ> snd \<circ> snd) (map entry_key es))"
  by (induction es) (auto simp: live_owners_def entry_key_def)

lemma quiet_ids: "quiet_step f f' \<Longrightarrow> entry_ids f' = entry_ids f"
  by (simp add: quiet_step_def keys_ids)

lemma quiet_held: "quiet_step f f' \<Longrightarrow> held f' = held f"
  by (simp add: quiet_step_def held_def keys_owners)

lemma quiet_inv:
  assumes "quiet_step f f'" "fleet_inv c f"
  shows "fleet_inv c f'"
proof -
  have b: "books c f'"
    using assms quiet_held [OF assms(1)]
    by (simp add: fleet_inv_def books_def quiet_step_def slots_of_def)
  have q1: "slot_list f' = slot_list f" and q2: "fl_ids f' = fl_ids f"
    and q4: "set (row_ids f') \<subseteq> set (row_ids f) \<union> set (entry_ids f)"
    and keys: "map entry_key (fl_entries f') = map entry_key (fl_entries f)"
    using assms(1) unfolding quiet_step_def by blast+
  have q5: "well_named (fl_entries f') = well_named (fl_entries f)"
    unfolding keys_named keys ..
  note q = q1 q2 quiet_ids [OF assms(1)] q4 q5
  have n: "names_fresh c f" using assms(2) by (simp add: fleet_inv_def)
  then have n1: "well_named (fl_entries f)" "distinct (entry_ids f @ slot_ids f)"
    and n2: "set (row_ids f) \<inter> set (slot_ids f) = {}"
    and n3: "\<forall>m\<ge>fl_ids f. fc_worker_id c m \<notin> set (entry_ids f) \<union> set (row_ids f) \<union> set (slot_ids f)"
    unfolding names_fresh_def by blast+
  have d: "set (entry_ids f) \<inter> set (slot_ids f) = {}" using n1(2) by simp
  have "set (row_ids f') \<inter> set (slot_ids f) = {}" using q(4) d n2 by blast
  moreover have "\<forall>m\<ge>fl_ids f. fc_worker_id c m \<notin> set (entry_ids f) \<union> set (row_ids f') \<union> set (slot_ids f)"
    using q(4) n3 by blast
  ultimately have "names_fresh c f'"
    using n1 unfolding names_fresh_def q(1,2,3,5) by blast
  with b show ?thesis by (simp add: fleet_inv_def)
qed

lemma quiet_refl [simp]: "quiet_step f f"
  by (simp add: quiet_step_def)

lemma quiet_trans: "quiet_step f g \<Longrightarrow> quiet_step g h \<Longrightarrow> quiet_step f h"
  using quiet_ids [of f g] unfolding quiet_step_def by (elim conjE, intro conjI) (simp_all, blast)

named_theorems quiet_intros \<open>operations that take and give no slot\<close>

lemma quiet_emit [quiet_intros]: "quiet_step f (fleet_emit a f)"
  by (simp add: quiet_step_def fleet_emit_def slot_list_def)

lemma quiet_answer [quiet_intros]: "quiet_step f (fleet_answer x i r f)"
  by (simp add: fleet_answer_def quiet_emit)

lemma quiet_spawn: "slot_pc p = None \<Longrightarrow> quiet_step f (fleet_spawn p f)"
  by (simp add: quiet_step_def fleet_spawn_def slot_list_def map_filter_def)

lemma quiet_on_entry: "(\<And>e. entry_key (g e) = entry_key e) \<Longrightarrow> quiet_step f (on_entry i g f)"
  by (simp add: quiet_step_def on_entry_def comp_def slot_list_def)

lemma key_timer [simp]: "entry_key (move_timer c h e) = entry_key e"
  by (simp add: entry_key_def move_timer_def split: option.split)

lemma row_of_entry_id [simp]: "dr_id (row_of_entry c t e p) = sn_id (fe_snapshot e)"
  by (simp add: row_of_entry_def Let_def decorate_def)

text \<open>Stacked: what an operation adds on top of a state that is already calm.\<close>

definition calm_step :: "fleet \<Rightarrow> fleet \<Rightarrow> bool" where
  "calm_step f f' \<longleftrightarrow> (well_named (fl_entries f) \<longrightarrow> quiet_step f f')"

lemma inv_named: "fleet_inv c f \<Longrightarrow> well_named (fl_entries f)"
  by (simp add: fleet_inv_def names_fresh_def)

lemma calm_inv: "calm_step f f' \<Longrightarrow> fleet_inv c f \<Longrightarrow> fleet_inv c f'"
  unfolding calm_step_def using inv_named quiet_inv by blast

lemma quiet_named: "quiet_step f g \<Longrightarrow> well_named (fl_entries g) = well_named (fl_entries f)"
  unfolding quiet_step_def keys_named by simp

lemma calm_refl [simp]: "calm_step f f"
  by (simp add: calm_step_def)

lemma calm_trans: "calm_step f g \<Longrightarrow> calm_step g h \<Longrightarrow> calm_step f h"
  by (auto simp: calm_step_def quiet_named intro: quiet_trans)

lemma calm_stack: "(\<And>x. calm_step x (op x)) \<Longrightarrow> calm_step f g \<Longrightarrow> calm_step f (op g)"
  by (blast intro: calm_trans)

lemma calm_on_entry [quiet_intros]:
  "(\<And>e. entry_key (g e) = entry_key e) \<Longrightarrow> calm_step f x \<Longrightarrow> calm_step f (on_entry i g x)"
  by (rule calm_stack) (auto simp: calm_step_def intro: quiet_on_entry)

lemma calm_emit [quiet_intros]: "calm_step f x \<Longrightarrow> calm_step f (fleet_emit a x)"
  by (rule calm_stack) (auto simp: calm_step_def intro: quiet_emit)

lemma calm_answer [quiet_intros]: "calm_step f x \<Longrightarrow> calm_step f (fleet_answer y i r x)"
  unfolding fleet_answer_def by (rule calm_emit)

lemma calm_spawn [quiet_intros]: "slot_pc p = None \<Longrightarrow> calm_step f x \<Longrightarrow> calm_step f (fleet_spawn p x)"
  by (rule calm_stack) (auto simp: calm_step_def intro: quiet_spawn)

lemma calm_upsert:
  assumes "get_entry f i = Some e" "dr_id r = sn_id (fe_snapshot e)"
  shows "calm_step f (f\<lparr>fl_rows := db_upsert (fl_rows f) r\<rparr>)"
proof -
  have "dr_id r \<in> set (entry_ids f)" if "well_named (fl_entries f)"
    using that assms get_entry_in [OF assms(1)] by (auto simp: well_named_def)
  then show ?thesis
    by (auto simp: calm_step_def quiet_step_def slot_list_def simp del: set_map
        dest!: eqset_imp_iff [OF upsert_ids, THEN iffD1])
qed

lemma calm_persist_row [quiet_intros]: "calm_step f x \<Longrightarrow> calm_step f (persist_row c i x)"
  by (rule calm_stack) (auto simp: persist_row_def split: option.split intro: calm_upsert)

lemma calm_persist_close [quiet_intros]: "calm_step f x \<Longrightarrow> calm_step f (persist_close c i r x)"
  by (rule calm_stack) (auto simp: persist_close_def split: option.split intro: calm_upsert)

lemma key_updates [simp]:
  "entry_key (e\<lparr>fe_closing := b\<rparr>) = entry_key e"
  "entry_key (e\<lparr>fe_timer := t\<rparr>) = entry_key e"
  "entry_key (e\<lparr>fe_view := v\<rparr>) = entry_key e"
  "entry_key (e\<lparr>fe_snapshot := same_worker e s\<rparr>) = entry_key e"
  "entry_key (e\<lparr>fe_subscribed := b, fe_lease_open := b2, fe_closed_as := r\<rparr>) = entry_key e"
  "entry_key (swept_entry e) = entry_key e"
  "entry_key (arm_idle_timer c now e) = entry_key e"
  by (simp_all add: entry_key_def same_worker_def swept_entry_def arm_idle_timer_def move_timer_def
      split: option.split)

lemma calm_close_entry [quiet_intros]: "calm_step f x \<Longrightarrow> calm_step f (close_entry i reason x)"
  by (rule calm_stack) (auto simp: close_entry_def split: option.split intro!: quiet_intros)

lemma calm_close_list: "calm_step f (foldl (\<lambda>f i. close_entry i reason f) f is)"
proof (induction "is" rule: rev_induct)
  case (snoc i "is")
  then show ?case by (simp add: calm_close_entry)
qed simp

lemma calm_sweep: "calm_step f (sweep_all f)"
  by (simp add: calm_step_def quiet_step_def sweep_all_def comp_def slot_list_def)

lemma calm_idle_effect: "calm_step f x \<Longrightarrow> calm_step f (idle_effect c i h x)"
  by (cases h) (auto simp: idle_effect_def intro!: quiet_intros)

lemma calm_idle_effects: "calm_step f x \<Longrightarrow> calm_step f (foldl (\<lambda>f h. idle_effect c i h f) x hs)"
  by (induction hs arbitrary: x) (auto intro: calm_idle_effect)

lemma calm_idle_due: "calm_step f (idle_due c i f)"
  by (auto simp: idle_due_def Let_def split: option.split intro!: calm_idle_effects quiet_intros)

lemma calm_rebound: "calm_step f (credential_rebound c i name f)"
  by (auto simp: credential_rebound_def split: option.split intro!: quiet_intros)

lemma calm_ask_verb [quiet_intros]: "calm_step f x \<Longrightarrow> calm_step f (ask_verb y i v x)"
  by (auto simp: ask_verb_def intro!: quiet_intros)

lemma calm_may_resume [quiet_intros]: "calm_step f x \<Longrightarrow> calm_step f (may_resume y v a e x)"
  by (auto simp: may_resume_def intro!: quiet_intros)

lemma calm_now: "calm_step f (f\<lparr>fl_now := t\<rparr>)"
  by (simp add: calm_step_def quiet_step_def slot_list_def)

section \<open>Slots on the move\<close>

text \<open>One slot of \<open>t\<close> is counted and nobody holds it.\<close>

definition owing :: "fleet_config \<Rightarrow> string \<Rightarrow> fleet \<Rightarrow> bool" where
  "owing c t f \<longleftrightarrow> fl_total f = int (size (held f)) + 1 \<and>
     (\<forall>u. slots_of f u = int (count (held f) u) + of_bool (u = t)) \<and>
     fl_total f \<le> max 0 (fc_max_workers c) + int (fl_unchecked f)"

lemma held_counters [simp]:
  "held (drop_slot t f) = held f" "held (take_slot t f) = held f"
  "held (f\<lparr>fl_unchecked := n\<rparr>) = held f" "held (f\<lparr>fl_ids := n\<rparr>) = held f"
  "held (fleet_emit a f) = held f" "slot_list (fleet_emit a f) = slot_list f"
  "slot_list (f\<lparr>fl_ids := n\<rparr>) = slot_list f" "slot_list (f\<lparr>fl_unchecked := n\<rparr>) = slot_list f"
  "slot_list (drop_slot t f) = slot_list f" "slot_list (take_slot t f) = slot_list f"
  "fl_entries (drop_slot t f) = fl_entries f" "fl_entries (take_slot t f) = fl_entries f"
  "fl_rows (drop_slot t f) = fl_rows f" "fl_rows (take_slot t f) = fl_rows f"
  "fl_ids (drop_slot t f) = fl_ids f" "fl_ids (take_slot t f) = fl_ids f"
  "fl_unchecked (drop_slot t f) = fl_unchecked f" "fl_unchecked (take_slot t f) = fl_unchecked f"
  by (simp_all add: held_def drop_slot_def take_slot_def slot_list_def fleet_emit_def)

lemma owing_drop: "owing c t f \<Longrightarrow> books c (drop_slot t f)"
  by (auto simp: owing_def books_def slots_of_def drop_slot_def held_def slot_list_def)

lemma books_take:
  "books c f \<Longrightarrow> fl_total f < fc_max_workers c \<Longrightarrow> owing c t (take_slot t f)"
  unfolding books_def owing_def held_counters
  by (auto simp: slots_of_def take_slot_def)

lemma books_take_unchecked:
  "books c f \<Longrightarrow> owing c t ((take_slot t f)\<lparr>fl_unchecked := Suc (fl_unchecked f)\<rparr>)"
  unfolding books_def owing_def held_counters
  by (auto simp: slots_of_def take_slot_def)

definition same_counters :: "fleet \<Rightarrow> fleet \<Rightarrow> bool" where
  "same_counters f g \<longleftrightarrow> fl_total g = fl_total f \<and> fl_per_token g = fl_per_token f \<and>
     fl_unchecked g = fl_unchecked f"

lemma owing_pay:
  "owing c t f \<Longrightarrow> held g = add_mset t (held f) \<Longrightarrow> same_counters f g \<Longrightarrow> books c g"
  by (auto simp: owing_def books_def slots_of_def same_counters_def)

lemma books_owe:
  "books c f \<Longrightarrow> held f = add_mset t (held g) \<Longrightarrow> same_counters f g \<Longrightarrow> owing c t g"
  by (auto simp: owing_def books_def slots_of_def same_counters_def)

text \<open>A worker's slot is given and taken through its flag.\<close>

lemma flag_elsewhere:
  "i \<notin> set (map fe_id es) \<Longrightarrow> map (\<lambda>e. if fe_id e = i then g e else e) es = es"
  by (induction es) auto

lemma live_off:
  assumes "distinct (map fe_id es)" "List.find (\<lambda>e. fe_id e = i) es = Some e" "fe_live e"
  shows "mset (live_owners es) = add_mset (fe_owner e)
    (mset (live_owners (map (\<lambda>e. if fe_id e = i then e\<lparr>fe_live := False\<rparr> else e) es)))"
  using assms by (induction es) (auto simp: live_owners_def flag_elsewhere simp del: mset_map mset_filter split: if_splits)

lemma live_on:
  assumes "distinct (map fe_id es)" "List.find (\<lambda>e. fe_id e = i) es = Some e" "\<not> fe_live e"
  shows "mset (live_owners (map (\<lambda>e. if fe_id e = i then e\<lparr>fe_live := True\<rparr> else e) es)) =
    add_mset (fe_owner e) (mset (live_owners es))"
  using assms by (induction es) (auto simp: live_owners_def flag_elsewhere simp del: mset_map mset_filter split: if_splits)

abbreviation set_live :: "bool \<Rightarrow> string \<Rightarrow> fleet \<Rightarrow> fleet" where
  "set_live b i \<equiv> on_entry i (\<lambda>e. e\<lparr>fe_live := b\<rparr>)"

lemma held_off:
  assumes "fleet_inv c f" "get_entry f i = Some e" "fe_live e"
  shows "held f = add_mset (fe_owner e) (held (set_live False i f))"
  using assms live_off [of "fl_entries f" i e]
  by (simp add: fleet_inv_def names_fresh_def get_entry_def held_def on_entry_def slot_list_def)

lemma held_on:
  assumes "fleet_inv c f" "get_entry f i = Some e" "\<not> fe_live e"
  shows "held (set_live True i f) = add_mset (fe_owner e) (held f)"
  using assms live_on [of "fl_entries f" i e]
  by (simp add: fleet_inv_def names_fresh_def get_entry_def held_def on_entry_def slot_list_def)

lemma live_keeps_id [simp]: "keeps_id (fe_live_update b)"
  by (simp add: keeps_id_def)

lemma named_live [simp]: "well_named (fl_entries (on_entry i (fe_live_update b) f)) = well_named (fl_entries f)"
proof -
  have "well_named (map (\<lambda>e. if fe_id e = i then fe_live_update b e else e) es) = well_named es" for es
    by (induction es) (auto simp: well_named_def)
  then show ?thesis by (simp add: on_entry_def)
qed

lemma same_counters_on_entry [simp]: "same_counters f (on_entry i g f)"
  by (simp add: same_counters_def)

lemma inv_release_entry:
  assumes "fleet_inv c f"
  shows "fleet_inv c (release_entry i f)"
proof (cases "get_entry f i")
  case (Some e)
  show ?thesis
  proof (cases "fe_live e")
    case True
    have "owing c (fe_owner e) (set_live False i f)"
      using assms held_off [OF assms Some True] by (auto simp: fleet_inv_def intro: books_owe)
    then show ?thesis
      using assms Some True
      by (simp add: release_entry_def fleet_inv_def owing_drop names_fresh_def)
  qed (use assms Some in \<open>simp add: release_entry_def\<close>)
qed (use assms in \<open>simp add: release_entry_def\<close>)

lemma on_entry_take: "on_entry i g (take_slot t f) = take_slot t (on_entry i g f)"
  by (simp add: on_entry_def take_slot_def slots_of_def)

lemma owing_live:
  assumes "fleet_inv c f" "get_entry f i = Some e" "\<not> fe_live e"
    and "owing c (fe_owner e) h" "held h = held f" "fl_entries h = fl_entries f"
    and "slot_list h = slot_list f" "fl_rows h = fl_rows f" "fl_ids h = fl_ids f"
  shows "fleet_inv c (set_live True i h)"
proof -
  have "held (set_live True i h) = held (set_live True i f)"
    using assms(4-9) by (simp add: held_def on_entry_def slot_list_def)
  then have "held (set_live True i h) = add_mset (fe_owner e) (held h)"
    using held_on [OF assms(1-3)] assms(5) by simp
  from owing_pay [OF assms(4) this] have "books c (set_live True i h)" by simp
  then show ?thesis using assms by (simp add: fleet_inv_def names_fresh_def)
qed

lemma inv_reacquire:
  assumes "fleet_inv c f"
  shows "fleet_inv c (reacquire i f)"
proof (cases "get_entry f i")
  case (Some e)
  show ?thesis
  proof (cases "fe_live e")
    case False
    let ?h = "(take_slot (fe_owner e) f)\<lparr>fl_unchecked := Suc (fl_unchecked f)\<rparr>"
    have "reacquire i f = set_live True i ?h"
      using Some False by (simp add: reacquire_def on_entry_def take_slot_def slots_of_def)
    moreover have "fleet_inv c (set_live True i ?h)"
      using assms Some False
      by (intro owing_live) (auto simp: fleet_inv_def intro: books_take_unchecked)
    ultimately show ?thesis by simp
  qed (use assms Some in \<open>simp add: reacquire_def\<close>)
qed (use assms in \<open>simp add: reacquire_def\<close>)

lemma inv_reserve_for_wake:
  assumes "fleet_inv c f" "get_entry f i = Some e" "wake_refusal c a e f = None"
  shows "fleet_inv c (reserve_for_wake e f)"
proof (cases "fe_live e")
  case False
  let ?h = "take_slot (fe_owner e) f"
  have "reserve_for_wake e f = set_live True i ?h"
    using assms(2) False get_entry_id [OF assms(2)]
    by (simp add: reserve_for_wake_def on_entry_def take_slot_def slots_of_def)
  moreover have "fleet_inv c (set_live True i ?h)"
    using assms False
    by (intro owing_live [OF assms(1,2)])
      (auto simp: fleet_inv_def wake_refusal_def intro: books_take split: if_splits)
  ultimately show ?thesis by simp
qed (use assms in \<open>simp add: reserve_for_wake_def\<close>)

text \<open>A creation under way: one slot of the token is owed to a worker under a fresh id.\<close>

definition owed :: "fleet_config \<Rightarrow> string \<Rightarrow> string \<Rightarrow> fleet \<Rightarrow> bool" where
  "owed c i t f \<longleftrightarrow> well_named (fl_entries f) \<and> distinct (entry_ids f @ i # slot_ids f) \<and>
     set (row_ids f) \<inter> insert i (set (slot_ids f)) = {} \<and>
     (\<forall>n\<ge>fl_ids f. fc_worker_id c n \<notin> insert i (set (entry_ids f) \<union> set (row_ids f) \<union> set (slot_ids f))) \<and>
     owing c t f"

lemma owed_fresh:
  "owed c i t f \<Longrightarrow> names_fresh c f"
  unfolding owed_def names_fresh_def by auto

lemma owed_spawn:
  assumes "owed c i t f" "slot_pc p = Some (i, t)"
  shows "fleet_inv c (fleet_spawn p f)"
proof -
  have l: "slot_list (fleet_spawn p f) = slot_list f @ [(i, t)]"
    using assms(2) by (simp add: slot_list_def fleet_spawn_def map_filter_def)
  then have "held (fleet_spawn p f) = add_mset t (held f)"
    by (simp add: held_def fleet_spawn_def)
  then have "books c (fleet_spawn p f)"
    using assms(1) by (auto simp: owed_def same_counters_def fleet_spawn_def intro: owing_pay)
  moreover have "names_fresh c (fleet_spawn p f)"
    using assms(1) unfolding owed_def names_fresh_def l by (auto simp: fleet_spawn_def)
  ultimately show ?thesis by (simp add: fleet_inv_def)
qed

lemma owed_lose: "owed c i t f \<Longrightarrow> fleet_inv c (lose_slot t f)"
proof -
  assume a: "owed c i t f"
  have l: "slot_list (lose_slot t f) = slot_list f" by (simp add: slot_list_def lose_slot_def)
  have "held (lose_slot t f) = add_mset t (held f)" unfolding held_def l by (simp add: lose_slot_def)
  with a have "books c (lose_slot t f)"
    by (auto simp: owed_def same_counters_def lose_slot_def intro: owing_pay)
  with owed_fresh [OF a] show ?thesis
    unfolding fleet_inv_def names_fresh_def l by (simp add: lose_slot_def)
qed

lemma owed_drop: "owed c i t f \<Longrightarrow> fleet_inv c (drop_slot t f)"
  using owed_fresh [of c i t f]
  by (auto simp: owed_def fleet_inv_def names_fresh_def intro: owing_drop)

lemma owed_made:
  assumes "owed c i t f" "fe_id e = i" "fe_owner e = t" "fe_live e" "sn_id (fe_snapshot e) = i"
  shows "fleet_inv c (f\<lparr>fl_entries := fl_entries f @ [e]\<rparr>)"
proof -
  let ?g = "f\<lparr>fl_entries := fl_entries f @ [e]\<rparr>"
  have l: "slot_list ?g = slot_list f" by (simp add: slot_list_def)
  have "held ?g = add_mset t (held f)" unfolding held_def l using assms by (simp add: live_owners_def)
  then have "books c ?g" using assms(1) by (auto simp: owed_def same_counters_def intro: owing_pay)
  moreover have "names_fresh c ?g"
    using assms unfolding owed_def names_fresh_def l by (auto simp: well_named_def)
  ultimately show ?thesis by (simp add: fleet_inv_def)
qed

lemma owed_take:
  assumes "fleet_inv c f" "inj (fc_worker_id c)" "fl_total f < fc_max_workers c"
  shows "owed c (fc_worker_id c (fl_ids f)) t ((take_slot t f)\<lparr>fl_ids := Suc (fl_ids f)\<rparr>)"
proof -
  have o: "owing c t ((take_slot t f)\<lparr>fl_ids := Suc (fl_ids f)\<rparr>)"
    using books_take [of c f t] assms by (simp add: fleet_inv_def owing_def slots_of_def)
  have n: "names_fresh c f" using assms(1) by (simp add: fleet_inv_def)
  have "fc_worker_id c m \<noteq> fc_worker_id c (fl_ids f)" if "Suc (fl_ids f) \<le> m" for m
    using that inj_eq [OF assms(2)] by simp
  with n o show ?thesis
    unfolding owed_def names_fresh_def held_counters by (auto simp: Suc_le_eq)
qed

lemma drop_split:
  assumes "n < length xs"
  obtains ys zs where "xs = ys @ xs ! n # zs" "drop_nth n xs = ys @ zs"
  using id_take_nth_drop [OF assms] by (auto simp: drop_nth_def)

lemma owed_resume:
  assumes "fleet_inv c f" "n < length (fl_pcs f)" "slot_pc (fl_pcs f ! n) = Some (i, t)"
  shows "owed c i t (f\<lparr>fl_pcs := drop_nth n (fl_pcs f)\<rparr>)"
proof -
  let ?g = "f\<lparr>fl_pcs := drop_nth n (fl_pcs f)\<rparr>"
  obtain ys zs where s: "fl_pcs f = ys @ fl_pcs f ! n # zs" "drop_nth n (fl_pcs f) = ys @ zs"
    using drop_split [OF assms(2)] by blast
  have l: "slot_list f = List.map_filter slot_pc ys @ (i, t) # List.map_filter slot_pc zs"
    unfolding slot_list_def by (subst s(1)) (simp add: map_filter_def assms(3))
  have g: "slot_list ?g = List.map_filter slot_pc ys @ List.map_filter slot_pc zs"
    by (simp add: slot_list_def s(2) map_filter_def)
  have "held f = add_mset t (held ?g)" unfolding held_def l g by simp
  then have "owing c t ?g"
    using assms(1) by (auto simp: fleet_inv_def same_counters_def intro: books_owe)
  with assms(1) show ?thesis
    unfolding fleet_inv_def names_fresh_def owed_def l g by auto
qed

lemma calm_resume:
  assumes "n < length (fl_pcs f)" "slot_pc (fl_pcs f ! n) = None"
  shows "calm_step f (f\<lparr>fl_pcs := drop_nth n (fl_pcs f)\<rparr>)"
proof -
  obtain ys zs where s: "fl_pcs f = ys @ fl_pcs f ! n # zs" "drop_nth n (fl_pcs f) = ys @ zs"
    using drop_split [OF assms(1)] by blast
  have "slot_list f = List.map_filter slot_pc (ys @ zs)"
    unfolding slot_list_def by (subst s(1)) (simp add: map_filter_def assms(2))
  then show ?thesis by (simp add: calm_step_def quiet_step_def slot_list_def s(2))
qed

section \<open>Every step keeps the books\<close>

lemma inv_on_closed: "fleet_inv c f \<Longrightarrow> fleet_inv c (on_closed c i r f)"
  by (rule calm_inv [OF _ inv_release_entry, where f1 = f and i1 = i])
    (auto simp: on_closed_def intro!: quiet_intros)

lemma inv_closed_fired: "fleet_inv c f \<Longrightarrow> fleet_inv c (closed_fired c i r f)"
  by (auto simp: closed_fired_def split: option.split intro: inv_on_closed)

lemma inv_slots:
  "fleet_inv c g \<Longrightarrow> fleet_inv c (if P then release_entry i g else if Q then reacquire i g else g)"
  by (simp add: inv_release_entry inv_reacquire)

lemma inv_state_changed:
  assumes "fleet_inv c f"
  shows "fleet_inv c (worker_changed c i s f)"
proof -
  let ?f1 = "on_entry i (\<lambda>e. move_timer c (state_op (fl_now f) (sn_state s)) (e\<lparr>fe_snapshot := same_worker e s\<rparr>)) f"
  have "calm_step f ?f1" by (auto intro!: quiet_intros)
  then have "fleet_inv c ?f1" using assms by (rule calm_inv)
  then have "fleet_inv c (if sn_state s = Hibernated then release_entry i ?f1
      else if occupies_slot (sn_state s) then reacquire i ?f1 else ?f1)" (is "fleet_inv c ?f2")
    by (rule inv_slots)
  moreover have "calm_step ?f2 (persist_row c i ?f2)" by (intro calm_persist_row calm_refl)
  ultimately show ?thesis
    unfolding worker_changed_def Let_def by (blast intro: calm_inv)
qed

lemma restored_entry_names [simp]:
  "fe_id (restored_entry c r) = dr_id r" "\<not> fe_live (restored_entry c r)"
  "sn_id (fe_snapshot (restored_entry c r)) = dr_id r"
  "fe_owner (restored_entry c r) = sn_owner (dr_snapshot r)"
  "fe_snapshot (restored_entry c r) = restored_snapshot r" "sn_id (restored_snapshot r) = dr_id r"
  by (simp_all add: restored_entry_def restored_snapshot_def Let_def split: prod.split)

lemma db_get_in: "db_get rows i = Some r \<Longrightarrow> dr_id r = i \<and> r \<in> set rows"
  unfolding db_get_def by (rule find_id)

lemma inv_adopt_entry:
  assumes "fleet_inv c f" "r \<in> set (fl_rows f)" "get_entry f (dr_id r) = None"
  shows "fleet_inv c (f\<lparr>fl_entries := fl_entries f @ [restored_entry c r]\<rparr>)" (is "fleet_inv c ?g")
proof -
  have l: "slot_list ?g = slot_list f" by (simp add: slot_list_def)
  have "held ?g = held f" unfolding held_def l by (simp add: live_owners_def)
  then have "books c ?g" using assms(1) by (simp add: fleet_inv_def books_def slots_of_def)
  moreover have "dr_id r \<notin> set (entry_ids f)" using assms(3) get_entry_none by blast
  moreover have "dr_id r \<in> set (row_ids f)" using assms(2) by simp
  ultimately show ?thesis
    using assms(1) unfolding fleet_inv_def names_fresh_def l by (auto simp: well_named_def)
qed

lemma inv_rehydrate:
  assumes "fleet_inv c f" "r \<in> set (fl_rows f)" "get_entry f (dr_id r) = None"
  shows "fleet_inv c (rehydrate c r f)"
proof -
  let ?f1 = "f\<lparr>fl_entries := fl_entries f @ [restored_entry c r]\<rparr>"
  let ?f2 = "if occupies_slot (sn_state (dr_snapshot r)) then reacquire (dr_id r) ?f1 else ?f1"
  let ?f3 = "on_entry (dr_id r) (arm_idle_timer c (fl_now f)) ?f2"
  have "fleet_inv c ?f2" using inv_adopt_entry [OF assms] by (simp add: inv_reacquire)
  moreover have "calm_step ?f2 ?f3" by (intro calm_on_entry calm_refl) simp
  ultimately have "fleet_inv c ?f3" by (blast intro: calm_inv)
  then show ?thesis
    using assms(1)
    by (auto simp: rehydrate_def Let_def split: option.split intro: inv_on_closed)
qed

lemma lookup_entry_inv:
  assumes "fleet_inv c f" "lookup_entry c a i f = (f', found)"
  shows "fleet_inv c f'" and "found = Some e \<Longrightarrow> get_entry f' i = Some e"
  using assms
  by (auto simp: lookup_entry_def Let_def split: option.splits if_splits
      dest: db_get_in intro: inv_rehydrate)

lemma inv_with_entry:
  assumes "fleet_inv c f"
    and "\<And>e g. fleet_inv c g \<Longrightarrow> get_entry g i = Some e \<Longrightarrow> fleet_inv c (k e g)"
  shows "fleet_inv c (with_entry c x a i k f)"
proof (cases "lookup_entry c a i f")
  case (Pair f' found)
  have f': "fleet_inv c f'" using lookup_entry_inv(1) [OF assms(1) Pair] .
  show ?thesis
  proof (cases found)
    case None
    have "calm_step f' (fleet_answer x i (FRefused WorkerNotFound) f')" by (intro calm_answer calm_refl)
    with f' show ?thesis by (simp add: with_entry_def Pair None calm_inv)
  next
    case (Some e)
    with f' assms(2) lookup_entry_inv(2) [OF assms(1) Pair] show ?thesis
      by (simp add: with_entry_def Pair)
  qed
qed

lemma inv_calm: "fleet_inv c f \<Longrightarrow> calm_step f g \<Longrightarrow> fleet_inv c g"
  by (rule calm_inv)

lemma owed_emit: "owed c i t f \<Longrightarrow> owed c i t (fleet_emit a f)"
  unfolding owed_def owing_def held_counters by (simp add: fleet_emit_def slots_of_def)

lemma inv_build_worker:
  assumes "owed c i (fa_token a) f"
  shows "fleet_inv c (build_worker c x a q i bound f)"
proof (cases "resolve_budgets c (cq_watchdog q)")
  case (Inl code)
  then show ?thesis
    using inv_calm [OF owed_lose [OF assms] calm_answer [OF calm_refl]] by (simp add: build_worker_def)
next
  case (Inr b)
  then show ?thesis
    using owed_spawn [OF owed_emit [OF assms]] by (simp add: build_worker_def)
qed

lemma inv_create:
  assumes "fleet_inv c f" "inj (fc_worker_id c)"
  shows "fleet_inv c (create_worker_call c x a q f)"
proof (cases "create_refusal c a f")
  case None
  then have "fl_total f < fc_max_workers c" by (auto simp: create_refusal_def split: if_splits)
  note o = owed_take [OF assms this, of "fa_token a"]
  show ?thesis
    using None owed_spawn [OF o] inv_build_worker [OF o]
      inv_calm [OF assms(1) calm_answer [OF calm_refl]]
    by (auto simp: create_worker_call_def Let_def split: option.split)
next
  case (Some code)
  then show ?thesis
    using inv_calm [OF assms(1) calm_answer [OF calm_refl]]
    by (auto simp: create_worker_call_def split: option.split)
qed

lemma inv_fleet_answer: "fleet_inv c f \<Longrightarrow> fleet_inv c (fleet_answer x i r f)"
  by (erule inv_calm) (intro calm_answer calm_refl)

lemma inv_ask_verb: "fleet_inv c f \<Longrightarrow> fleet_inv c (ask_verb x i v f)"
  by (erule inv_calm) (intro calm_ask_verb calm_refl)

lemma inv_may_resume: "fleet_inv c f \<Longrightarrow> fleet_inv c (may_resume x v a e f)"
  by (erule inv_calm) (intro calm_may_resume calm_refl)

lemma inv_ask_delete: "fleet_inv c f \<Longrightarrow> fleet_inv c (fleet_spawn (Deleting x i) (close_entry j reason f))"
  by (erule inv_calm) (intro calm_spawn calm_close_entry calm_refl slot_pc.simps)

lemmas inv_asks = inv_fleet_answer inv_ask_verb inv_may_resume inv_ask_delete

lemma inv_delete:
  assumes "fleet_inv c f"
  shows "fleet_inv c (delete_worker c x a holder i f)"
proof (cases "delete_across_restart c a i f")
  case None
  have "fleet_inv c (with_entry c x a i (\<lambda>e f.
      if \<not> fa_admin a \<and> \<not> holder then fleet_answer x i (FRefused LeaseHeld) f
      else fleet_spawn (Deleting x i) (close_entry i ClientRequest f)) f)"
    using assms
    by (rule inv_with_entry) (auto intro!: inv_asks)
  with None show ?thesis by (simp add: delete_worker_def)
next
  case (Some r)
  with inv_calm [OF assms calm_answer [OF calm_refl]] show ?thesis by (simp add: delete_worker_def)
qed

lemma inv_verb: "fleet_inv c f \<Longrightarrow> fleet_inv c (verb_call c x a v i f)"
  unfolding verb_call_def
  by (rule inv_with_entry) (auto intro!: inv_asks)

lemma inv_hibernate: "fleet_inv c f \<Longrightarrow> fleet_inv c (hibernate_call c x a holder i f)"
  unfolding hibernate_call_def
  by (rule inv_with_entry) (auto intro!: inv_asks)

lemma inv_wake_resumed:
  assumes "fleet_inv c f" "get_entry f i = Some e"
  shows "fleet_inv c (wake_resumed c x a e f)"
proof (cases "wake_refusal c a e f")
  case None
  have "fleet_inv c (fleet_spawn (WakingUp x (fe_id e) b) (fleet_emit (VerbAsked (fe_id e) VWake) g))"
    if "fleet_inv c g" for b g
    using that by (rule inv_calm) (auto intro!: quiet_intros)
  with None assms inv_reserve_for_wake [OF assms None] show ?thesis by (simp add: wake_resumed_def)
next
  case (Some code)
  have "calm_step f (fleet_answer x (fe_id e) (FRefused code) f)"
    "calm_step f (fleet_spawn (WakingUp x (fe_id e) False) (fleet_emit (VerbAsked (fe_id e) VWake) f))"
    by (auto intro!: quiet_intros)
  with Some assms(1) show ?thesis by (auto simp: wake_resumed_def intro: calm_inv)
qed

lemma inv_resumed: "fleet_inv c f \<Longrightarrow> fleet_inv c (resumed c x i v a f)"
  by (auto simp: resumed_def split: option.split intro: inv_wake_resumed inv_asks)

lemma inv_wake_failed_here: "fleet_inv c f \<Longrightarrow> fleet_inv c (wake_failed_here i b f)"
  by (auto simp: wake_failed_here_def split: option.split intro: inv_release_entry)

lemma inv_worker_made:
  assumes "owed c i (fa_token a) f"
  shows "fleet_inv c (worker_made c x a q i v f)"
proof -
  let ?e = "arm_idle_timer c (fl_now f) (made_entry c a q i v)"
  let ?g = "f\<lparr>fl_entries := fl_entries f @ [?e]\<rparr>"
  have k: "entry_key ?e = (i, fa_token a, True, i)"
    unfolding key_updates by (simp add: entry_key_def made_entry_def)
  then have "fleet_inv c ?g"
    using owed_made [OF assms, of ?e] by (simp add: entry_key_def)
  moreover have "calm_step ?g (worker_made c x a q i v f)"
    unfolding worker_made_def by (intro quiet_intros calm_refl)
  ultimately show ?thesis by (rule calm_inv [rotated])
qed

lemma inv_run_pc:
  assumes "fleet_inv c f" "n < length (fl_pcs f)" "fl_pcs f ! n = p"
    and "run_fleet_pc c p r (f\<lparr>fl_pcs := drop_nth n (fl_pcs f)\<rparr>) = Some g"
  shows "fleet_inv c g"
proof (cases "slot_pc p")
  case (Some it)
  then have o: "owed c (fst it) (snd it) (f\<lparr>fl_pcs := drop_nth n (fl_pcs f)\<rparr>)"
    using owed_resume [OF assms(1,2)] assms(3) by simp
  show ?thesis
    using assms(4) o Some
    by (cases p) (auto split: fleet_outcome.splits
        intro: inv_build_worker inv_worker_made inv_fleet_answer [OF owed_lose] inv_fleet_answer [OF owed_drop])
next
  case None
  then have i: "fleet_inv c (f\<lparr>fl_pcs := drop_nth n (fl_pcs f)\<rparr>)"
    using calm_inv [OF calm_resume [OF assms(2)] assms(1)] assms(3) by simp
  show ?thesis
    using assms(4) i None
    by (cases p) (auto split: fleet_outcome.splits option.splits
        intro: inv_fleet_answer inv_resumed inv_wake_failed_here)
qed

lemma inv_resume: "fleet_inv c f \<Longrightarrow> fleet_inv c (resume_fleet_pc c n r f)"
  by (auto simp: resume_fleet_pc_def split: option.split intro: inv_run_pc)

definition ledger :: "fleet_config \<Rightarrow> fleet \<Rightarrow> bool" where
  "ledger c f \<longleftrightarrow> inj (fc_worker_id c) \<and> fleet_inv c f"

lemma ledger_step: "ledger c f \<Longrightarrow> ledger c (fleet_step c f i)"
proof -
  assume l: "ledger c f"
  let ?f = "f\<lparr>fl_now := fst i\<rparr>"
  have f: "fleet_inv c ?f" "inj (fc_worker_id c)"
    using l calm_inv [OF calm_now] by (auto simp: ledger_def)
  have "fleet_inv c (on_fleet c (snd i) ?f)"
  proof (cases "snd i")
    case (FCloseAll reason)
    show ?thesis
      unfolding FCloseAll on_fleet.simps close_all_def
      by (rule calm_inv [OF calm_close_list f(1)])
  qed (use f in \<open>simp_all add: inv_create inv_verb inv_hibernate inv_delete inv_state_changed
      inv_closed_fired inv_resume calm_inv [OF calm_sweep] calm_inv [OF calm_idle_due]
      calm_inv [OF calm_rebound]\<close>)
  then show ?thesis using f(2) by (simp add: ledger_def fleet_step_def)
qed

interpretation fleets: machine "fleet_step c" "ledger c" for c
  by unfold_locales (rule ledger_step)

text \<open>Boots: no worker yet, and no row under an id still to be given.\<close>

definition bootable :: "fleet_config \<Rightarrow> worker_db_row list \<Rightarrow> bool" where
  "bootable c rows \<longleftrightarrow> inj (fc_worker_id c) \<and> (\<forall>n. fc_worker_id c n \<notin> set (map dr_id rows))"

lemma ledger_new: "bootable c rows \<Longrightarrow> ledger c (new_fleet rows)"
  by (auto simp: ledger_def bootable_def fleet_inv_def names_fresh_def books_def new_fleet_def
      held_def live_owners_def slot_list_def slots_of_def well_named_def map_filter_def)

lemma reachable_ledger: "bootable c rows \<Longrightarrow> ledger c (fleet_run c (new_fleet rows) is)"
  unfolding fleet_run_def by (rule fleets.run_inv) (rule ledger_new)

end
