(* ===== verification/FleetTold.thy ===== *)
theory FleetTold
  imports FleetInv
begin

text \<open>
  What the registry has said of a close, and what is left alone: a step is \<open>tame\<close> on some workers when
  the rows without an entry stay as they are, entries stay, and the answer of a close of those workers,
  once there is one, is not changed.
\<close>

section \<open>The answer of a close\<close>

definition final_answer :: "string \<Rightarrow> fleet \<Rightarrow> worker_reply option" where
  "final_answer i f =
     (case get_entry f i of
        Some e \<Rightarrow> fe_closed_as e
      | None \<Rightarrow>
          (case db_get (fl_rows f) i of
             Some r \<Rightarrow> if sn_state (dr_snapshot r) = Closed then Some (persisted_close r) else None
           | None \<Rightarrow> None))"

text \<open>A closed row says how, or at least why, it closed; a row without a worker has no process.\<close>

definition explained_row :: "worker_db_row \<Rightarrow> bool" where
  "explained_row r \<longleftrightarrow> (sn_state (dr_snapshot r) = Closed \<longrightarrow>
     dr_close r \<noteq> None \<or> sn_close_reason (dr_snapshot r) \<noteq> None) \<and>
     \<not> occupies_slot (sn_state (dr_snapshot r))"

definition rows_explained :: "fleet \<Rightarrow> bool" where
  "rows_explained f \<longleftrightarrow> (\<forall>i r. get_entry f i = None \<longrightarrow> db_get (fl_rows f) i = Some r \<longrightarrow> explained_row r)"

definition tame :: "string set \<Rightarrow> fleet \<Rightarrow> fleet \<Rightarrow> bool" where
  "tame J f g \<longleftrightarrow> (well_named (fl_entries f) \<longrightarrow> rows_explained f \<longrightarrow>
     well_named (fl_entries g) \<and>
     (\<forall>i. get_entry g i = None \<longrightarrow> get_entry f i = None \<and> db_get (fl_rows g) i = db_get (fl_rows f) i) \<and>
     (\<forall>i\<in>J. \<forall>a. final_answer i f = Some a \<longrightarrow> final_answer i g = Some a))"

lemma tame_explained:
  "tame J f g \<Longrightarrow> well_named (fl_entries f) \<Longrightarrow> rows_explained f \<Longrightarrow> rows_explained g"
  unfolding tame_def rows_explained_def by metis

lemma tame_refl [simp]: "tame J f f"
  by (simp add: tame_def)

lemma tame_trans:
  assumes "tame J f g" "tame J g h"
  shows "tame J f h"
proof (cases "well_named (fl_entries f) \<and> rows_explained f")
  case True
  then have "well_named (fl_entries g)" "rows_explained g"
    using assms(1) tame_explained [OF assms(1)] by (auto simp: tame_def)
  with True assms show ?thesis unfolding tame_def by metis
next
  case False
  then show ?thesis by (auto simp: tame_def)
qed

lemma tame_stack: "(\<And>x. tame J x (op x)) \<Longrightarrow> tame J f g \<Longrightarrow> tame J f (op g)"
  by (blast intro: tame_trans)

named_theorems tame_intros \<open>operations that leave the answers of closes alone\<close>

text \<open>What neither touches the entries nor the rows.\<close>

lemma tame_same:
  "fl_entries g = fl_entries f \<Longrightarrow> fl_rows g = fl_rows f \<Longrightarrow> tame J f g"
  by (simp add: tame_def final_answer_def get_entry_def cong: option.case_cong)

lemma tame_emit [tame_intros]: "tame J f x \<Longrightarrow> tame J f (fleet_emit a x)"
  by (rule tame_stack) (simp_all add: tame_same fleet_emit_def)

lemma tame_answer [tame_intros]: "tame J f x \<Longrightarrow> tame J f (fleet_answer y i r x)"
  unfolding fleet_answer_def by (rule tame_emit)

lemma tame_spawn [tame_intros]: "tame J f x \<Longrightarrow> tame J f (fleet_spawn p x)"
  by (rule tame_stack) (simp_all add: tame_same fleet_spawn_def)

lemma tame_counters [tame_intros]:
  "tame J f x \<Longrightarrow> tame J f (take_slot t x)" "tame J f x \<Longrightarrow> tame J f (drop_slot t x)"
  "tame J f x \<Longrightarrow> tame J f (lose_slot t x)" "tame J f x \<Longrightarrow> tame J f (x\<lparr>fl_ids := n\<rparr>)"
  "tame J f x \<Longrightarrow> tame J f (x\<lparr>fl_unchecked := n\<rparr>)" "tame J f x \<Longrightarrow> tame J f (x\<lparr>fl_pcs := ps\<rparr>)"
  "tame J f x \<Longrightarrow> tame J f (x\<lparr>fl_now := s\<rparr>)"
  by (rule tame_stack [rotated], assumption,
    simp add: tame_same take_slot_def drop_slot_def lose_slot_def)+

text \<open>An entry may change in anything but its names and an answer it has.\<close>

definition keeps_answer :: "(fleet_entry \<Rightarrow> fleet_entry) \<Rightarrow> bool" where
  "keeps_answer g \<longleftrightarrow> (\<forall>e. fe_id (g e) = fe_id e \<and> sn_id (fe_snapshot (g e)) = sn_id (fe_snapshot e) \<and>
     (fe_closed_as e \<noteq> None \<longrightarrow> fe_closed_as (g e) = fe_closed_as e))"

lemma well_named_on_entry:
  "keeps_answer g \<Longrightarrow> well_named (fl_entries f) \<Longrightarrow> well_named (fl_entries (on_entry i g f))"
  by (auto simp: well_named_def on_entry_def keeps_answer_def)

lemma tame_on_entry:
  assumes "keeps_answer g" "tame J f x"
  shows "tame J f (on_entry i g x)"
proof (rule tame_trans [OF assms(2)])
  have "keeps_id g" using assms(1) by (simp add: keeps_id_def keeps_answer_def)
  then show "tame J x (on_entry i g x)"
    using assms(1) well_named_on_entry [OF assms(1)]
    by (auto simp: tame_def final_answer_def get_on_entry keeps_answer_def split: option.splits)
qed

lemma keeps_answers [simp]:
  "keeps_answer (fe_live_update b)"
  "keeps_answer (fe_closing_update b)"
  "keeps_answer (fe_timer_update t)"
  "keeps_answer swept_entry"
  "keeps_answer (arm_idle_timer c now)"
  "keeps_answer (\<lambda>e. e\<lparr>fe_view := (fe_view e)\<lparr>vr_credential := name\<rparr>\<rparr>)"
  "keeps_answer (\<lambda>e. move_timer c h (e\<lparr>fe_snapshot := same_worker e s\<rparr>))"
  by (auto simp: keeps_answer_def swept_entry_def arm_idle_timer_def move_timer_def same_worker_def
      split: option.split)

lemma get_upsert:
  "db_get (db_upsert rows r) i =
     (if i = dr_id r
      then Some (case db_get rows i of None \<Rightarrow> r | Some q \<Rightarrow> raise_head (sn_head (dr_snapshot q)) r)
      else db_get rows i)"
  by (induction rows) (auto simp: db_get_def raise_head_def)

lemma tame_upsert:
  assumes "get_entry f i = Some e" "dr_id r = sn_id (fe_snapshot e)"
  shows "tame J f (f\<lparr>fl_rows := db_upsert (fl_rows f) r\<rparr>)" (is "tame J f ?g")
proof (cases "well_named (fl_entries f)")
  case True
  have g: "get_entry ?g j = get_entry f j" for j by (simp add: get_entry_def)
  have i: "dr_id r = i"
    using True assms get_entry_in [OF assms(1)] get_entry_id [OF assms(1)] by (simp add: well_named_def)
  then have "db_get (fl_rows ?g) j = db_get (fl_rows f) j" if "get_entry f j = None" for j
    using that assms(1) by (auto simp: get_upsert)
  then show ?thesis
    by (auto simp: tame_def final_answer_def g split: option.splits)
qed (simp add: tame_def)

lemma tame_persist_row [tame_intros]: "tame J f x \<Longrightarrow> tame J f (persist_row c i x)"
  by (rule tame_stack) (auto simp: persist_row_def split: option.split intro: tame_upsert)

lemma tame_persist_close [tame_intros]: "tame J f x \<Longrightarrow> tame J f (persist_close c i r x)"
  by (rule tame_stack) (auto simp: persist_close_def split: option.split intro: tame_upsert)

lemma tame_slots [tame_intros]:
  "tame J f x \<Longrightarrow> tame J f (release_entry i x)" "tame J f x \<Longrightarrow> tame J f (reacquire i x)"
  "tame J f x \<Longrightarrow> tame J f (reserve_for_wake e x)"
  by (rule tame_stack [rotated], assumption,
    auto simp: release_entry_def reacquire_def reserve_for_wake_def split: option.split
      intro!: tame_intros tame_on_entry)+

lemma tame_close_entry [tame_intros]: "tame J f x \<Longrightarrow> tame J f (close_entry i reason x)"
  by (rule tame_stack) (auto simp: close_entry_def split: option.split intro!: tame_intros tame_on_entry)

lemma tame_asks [tame_intros]:
  "tame J f x \<Longrightarrow> tame J f (ask_verb y i v x)" "tame J f x \<Longrightarrow> tame J f (may_resume y v a e x)"
  by (auto simp: ask_verb_def may_resume_def intro!: tame_intros)

lemma tame_only:
  "tame (- {i}) f g \<Longrightarrow>
   (\<And>a. well_named (fl_entries f) \<Longrightarrow> rows_explained f \<Longrightarrow> final_answer i f = Some a \<Longrightarrow> final_answer i g = Some a) \<Longrightarrow>
   tame UNIV f g"
  unfolding tame_def by blast

lemma tame_less: "tame UNIV f g \<Longrightarrow> tame J f g"
  unfolding tame_def by blast

definition close_answered :: "worker_reply \<Rightarrow> fleet_entry \<Rightarrow> fleet_entry" where
  "close_answered r e = e\<lparr>fe_subscribed := False, fe_lease_open := False, fe_closed_as := Some r\<rparr>"

lemma tame_close_answered: "tame (- {i}) f x \<Longrightarrow> tame (- {i}) f (on_entry i (close_answered r) x)"
proof (rule tame_trans [where g = x], assumption)
  have k: "keeps_id (close_answered r)" by (simp add: keeps_id_def close_answered_def)
  have "well_named (fl_entries x) \<Longrightarrow> well_named (fl_entries (on_entry i (close_answered r) x))"
    by (auto simp: well_named_def on_entry_def close_answered_def)
  then show "tame (- {i}) x (on_entry i (close_answered r) x)"
    by (auto simp: tame_def final_answer_def get_on_entry [OF k] cong: option.case_cong)
qed

lemma on_closed_answered:
  "on_closed c i r f = persist_close c i r (on_entry i (close_answered r) (release_entry i f))"
  by (simp add: on_closed_def close_answered_def [abs_def])

lemma tame_on_closed: "tame (- {i}) f x \<Longrightarrow> tame (- {i}) f (on_closed c i r x)"
  unfolding on_closed_answered by (intro tame_intros tame_close_answered)

lemma get_persist [simp]:
  "get_entry (persist_close c i r f) j = get_entry f j"
  "get_entry (persist_row c i f) j = get_entry f j"
  by (auto simp: persist_close_def persist_row_def get_entry_def split: option.split)

lemma ids_release [simp]: "entry_ids (release_entry i f) = entry_ids f"
  by (auto simp: release_entry_def split: option.split)

lemma answered_on_closed:
  assumes "get_entry f i \<noteq> None"
  shows "final_answer i (on_closed c i r f) = Some r"
proof -
  have k: "keeps_id (close_answered r)" by (simp add: keeps_id_def close_answered_def)
  have "get_entry (release_entry i f) i \<noteq> None"
    using assms by (metis get_entry_none ids_release)
  then show ?thesis
    by (auto simp: on_closed_answered final_answer_def get_on_entry [OF k] close_answered_def)
qed

lemma tame_closed_fired: "tame UNIV f (closed_fired c i r f)"
proof (cases "get_entry f i")
  case (Some e)
  show ?thesis
  proof (cases "fe_closed_as e")
    case None
    have "tame (- {i}) f (on_closed c i r f)" by (intro tame_on_closed tame_refl)
    then have "tame UNIV f (on_closed c i r f)"
      by (rule tame_only) (use Some None in \<open>simp add: final_answer_def\<close>)
    with Some None show ?thesis by (simp add: closed_fired_def)
  qed (use Some in \<open>simp add: closed_fired_def\<close>)
qed (simp add: closed_fired_def)

text \<open>A handle built over a row that says it is closed answers what the row says.\<close>

lemma handle_closed_as:
  "explained_row r \<Longrightarrow> wk_closed_as (handle_over r) =
     (if sn_state (dr_snapshot r) = Closed then Some (persisted_close r) else None)"
  by (auto simp: explained_row_def handle_over_def restored_row_def restored_worker_def
      restored_state_def pessimistic_close_def persisted_close_def new_worker_def Let_def
      split: option.splits)

lemma find_in_append:
  "List.find P (xs @ ys) = (case List.find P xs of Some x \<Rightarrow> Some x | None \<Rightarrow> List.find P ys)"
  by (induction xs) auto

lemma tame_adopt:
  assumes "get_entry f (dr_id r) = None"
  shows "tame (- {dr_id r}) f (f\<lparr>fl_entries := fl_entries f @ [restored_entry c r]\<rparr>)" (is "tame _ f ?g")
proof -
  have "get_entry ?g i = (if i = dr_id r then Some (restored_entry c r) else get_entry f i)" for i
    using assms by (auto simp: get_entry_def find_in_append split: option.split)
  then show ?thesis
    by (auto simp: tame_def final_answer_def well_named_def split: option.splits if_splits)
qed

lemma ids_slots [simp]:
  "entry_ids (reacquire i f) = entry_ids f"
  by (auto simp: reacquire_def split: option.split)

lemma tame_rehydrate:
  assumes r: "db_get (fl_rows f) (dr_id r) = Some r" and n: "get_entry f (dr_id r) = None"
  shows "tame UNIV f (rehydrate c r f)"
proof (cases "fc_can_build c r")
  case True
  let ?f1 = "f\<lparr>fl_entries := fl_entries f @ [restored_entry c r]\<rparr>"
  let ?f2 = "if occupies_slot (sn_state (dr_snapshot r)) then reacquire (dr_id r) ?f1 else ?f1"
  let ?f3 = "on_entry (dr_id r) (arm_idle_timer c (fl_now f)) ?f2"
  have k: "keeps_id (arm_idle_timer c (fl_now f))" using keeps_answers(5) by (simp add: keeps_id_def keeps_answer_def)
  have f3: "tame (- {dr_id r}) f ?f3"
    by (rule tame_on_entry) (auto intro!: tame_intros tame_adopt [OF n])
  have "entry_ids ?f3 = entry_ids ?f1" using k by simp
  moreover have "dr_id r \<in> set (entry_ids ?f1)" by simp
  ultimately have "dr_id r \<in> set (entry_ids ?f3)" by metis
  then have e: "get_entry ?f3 (dr_id r) \<noteq> None" using get_entry_none by blast
  have re: "rehydrate c r f = (case wk_closed_as (handle_over r) of
      None \<Rightarrow> ?f3 | Some a \<Rightarrow> on_closed c (dr_id r) a ?f3)"
    using True by (simp add: rehydrate_def Let_def)
  show ?thesis
  proof (rule tame_only)
    show "tame (- {dr_id r}) f (rehydrate c r f)"
      unfolding re using f3 by (auto split: option.split intro: tame_on_closed)
    fix a assume x: "rows_explained f" and a: "final_answer (dr_id r) f = Some a"
    have "explained_row r" using x r n by (auto simp: rows_explained_def)
    from handle_closed_as [OF this] a have "wk_closed_as (handle_over r) = Some a"
      by (simp add: final_answer_def n r split: if_splits)
    then show "final_answer (dr_id r) (rehydrate c r f) = Some a"
      unfolding re by (simp add: answered_on_closed [OF e])
  qed
qed (simp add: rehydrate_def)

lemma tame_lookup: "lookup_entry c a i f = (g, found) \<Longrightarrow> tame UNIV f g"
  by (auto simp: lookup_entry_def Let_def split: option.splits if_splits
      dest: db_get_in intro: tame_rehydrate)

lemma tame_with_entry:
  assumes "\<And>e g. tame UNIV g (k e g)"
  shows "tame UNIV f (with_entry c x a i k f)"
proof (cases "lookup_entry c a i f")
  case (Pair g found)
  have "tame UNIV f g" using tame_lookup [OF Pair] .
  with assms show ?thesis
    by (auto simp: with_entry_def Pair split: option.split intro: tame_intros tame_trans)
qed

section \<open>Every step is tame\<close>

lemma tame_close_list: "tame UNIV f (foldl (\<lambda>f i. close_entry i reason f) f is)"
proof (induction "is" rule: rev_induct)
  case (snoc i "is")
  then show ?case by (simp add: tame_close_entry)
qed simp

lemma tame_idle_effects: "tame UNIV f x \<Longrightarrow> tame UNIV f (foldl (\<lambda>f h. idle_effect c i h f) x hs)"
proof (induction hs arbitrary: x)
  case (Cons h hs)
  from Cons.prems have "tame UNIV f (idle_effect c i h x)"
    by (cases h) (auto simp: idle_effect_def intro!: tame_intros)
  from Cons.IH [OF this] show ?case by simp
qed simp

lemma tame_idle_due: "tame UNIV f (idle_due c i f)"
  by (auto simp: idle_due_def Let_def split: option.split intro!: tame_idle_effects tame_on_entry tame_intros)

lemma tame_sweep: "tame UNIV f (sweep_all f)"
proof -
  have "List.find (\<lambda>e. fe_id e = i) (map swept_entry es) =
      map_option swept_entry (List.find (\<lambda>e. fe_id e = i) es)" for i es
    by (induction es) (auto simp: swept_entry_def)
  then have "get_entry (sweep_all f) i = map_option swept_entry (get_entry f i)" for i
    by (simp add: get_entry_def sweep_all_def)
  then show ?thesis
    by (auto simp: tame_def final_answer_def sweep_all_def swept_entry_def well_named_def
        split: option.splits)
qed

lemma tame_rebound: "tame UNIV f (credential_rebound c i name f)"
  by (auto simp: credential_rebound_def split: option.split intro!: tame_intros tame_on_entry)

lemma tame_state_changed: "tame UNIV f (worker_changed c i s f)"
  by (auto simp: worker_changed_def Let_def intro!: tame_intros tame_on_entry)

lemma tame_build [tame_intros]: "tame J f y \<Longrightarrow> tame J f (build_worker c x a q i b y)"
  by (auto simp: build_worker_def split: sum.split intro!: tame_intros)

lemma tame_create: "tame UNIV f (create_worker_call c x a q f)"
  by (auto simp: create_worker_call_def Let_def split: option.split intro!: tame_intros)

text \<open>A made worker is new: neither an entry nor a row has its id.\<close>

lemma tame_made:
  assumes "i \<notin> set (entry_ids f)" "i \<notin> set (row_ids f)"
  shows "tame UNIV f (worker_made c x a q i v f)"
proof -
  let ?e = "arm_idle_timer c (fl_now f) (made_entry c a q i v)"
  let ?g = "f\<lparr>fl_entries := fl_entries f @ [?e]\<rparr>"
  have k: "entry_key ?e = (i, fa_token a, True, i)"
    unfolding key_updates by (simp add: entry_key_def made_entry_def)
  then have i: "fe_id ?e = i" "sn_id (fe_snapshot ?e) = i" by (simp_all add: entry_key_def)
  have n: "get_entry f i = None" "db_get (fl_rows f) i = None"
    using assms by (simp_all only: get_entry_none db_get_def find_none not_False_eq_True)
  have "get_entry ?g j = (if j = i then Some ?e else get_entry f j)" for j
    using n(1) i(1) by (auto simp: get_entry_def find_in_append split: option.split)
  then have "tame UNIV f ?g"
    using n i(2) by (auto simp: tame_def final_answer_def well_named_def i split: option.splits)
  then show ?thesis
    unfolding worker_made_def by (intro tame_intros)
qed

lemma tame_wake_resumed: "tame UNIV f (wake_resumed c x a e f)"
  by (auto simp: wake_resumed_def split: option.split intro!: tame_intros)

lemma tame_run_pc:
  assumes "fleet_inv c f" "n < length (fl_pcs f)"
    and "run_fleet_pc c (fl_pcs f ! n) r (f\<lparr>fl_pcs := drop_nth n (fl_pcs f)\<rparr>) = Some g"
  shows "tame UNIV f g"
proof -
  let ?h = "f\<lparr>fl_pcs := drop_nth n (fl_pcs f)\<rparr>"
  have h: "tame UNIV f ?h" by (intro tame_intros tame_refl)
  show ?thesis
  proof (cases "slot_pc (fl_pcs f ! n)")
    case (Some it)
    then have o: "owed c (fst it) (snd it) ?h" using owed_resume [OF assms(1,2)] by simp
    have m: "tame UNIV f (worker_made c x a q (fst it) v ?h)" for x a q v
      by (rule tame_trans [OF h tame_made]) (use o in \<open>auto simp: owed_def\<close>)
    show ?thesis
      using assms(3) Some m h
      by (cases "fl_pcs f ! n") (auto split: fleet_outcome.splits intro: tame_intros)
  next
    case None
    have w: "tame UNIV f (wake_resumed c x a e ?h)" for x a e
      by (rule tame_trans [OF h tame_wake_resumed])
    show ?thesis
      using assms(3) None h w
      by (cases "fl_pcs f ! n")
        (auto simp: resumed_def wake_failed_here_def split: fleet_outcome.splits option.splits if_splits
          intro: tame_intros)
  qed
qed

lemma tame_step:
  assumes "fleet_inv c f"
  shows "tame UNIV f (on_fleet c i f)"
proof (cases i)
  case (FGoOn n r)
  with tame_run_pc [OF assms] show ?thesis by (auto simp: resume_fleet_pc_def split: option.split)
next
  case (FCloseAll reason)
  then show ?thesis by (simp add: close_all_def tame_close_list)
next
  case (FDelete x a holder i)
  then show ?thesis
    by (auto simp: delete_worker_def split: option.split intro!: tame_intros tame_with_entry)
qed (auto simp: verb_call_def hibernate_call_def tame_create tame_closed_fired tame_idle_due tame_rebound
    tame_sweep tame_state_changed intro!: tame_with_entry tame_intros)

section \<open>What is said, what is not checked\<close>

text \<open>The answers given to deletes so far.\<close>

fun deleted_act :: "fleet_act \<Rightarrow> (string \<times> worker_reply) option" where
  "deleted_act (FAnswered x i (FDeleted a)) = Some (i, a)"
| "deleted_act _ = None"

definition deleted :: "fleet \<Rightarrow> (string \<times> worker_reply) set" where
  "deleted f = set (List.map_filter deleted_act (fl_trace f))"

lemma deleted_answer [simp]:
  "deleted (fleet_answer x i r f) = (case r of FDeleted a \<Rightarrow> insert (i, a) (deleted f) | _ \<Rightarrow> deleted f)"
  by (cases r) (auto simp: deleted_def fleet_answer_def fleet_emit_def map_filter_def)

lemma marks_emit [simp]:
  "deleted_act a = None \<Longrightarrow> deleted (fleet_emit a f) = deleted f"
  "fl_unchecked (fleet_emit a f) = fl_unchecked f" "fl_unchecked (fleet_answer x i r f) = fl_unchecked f"
  by (auto simp: deleted_def fleet_emit_def fleet_answer_def map_filter_def)

lemma marks_plain [simp]:
  "deleted (on_entry i g f) = deleted f" "deleted (fleet_spawn p f) = deleted f"
  "deleted (take_slot t f) = deleted f" "deleted (drop_slot t f) = deleted f"
  "deleted (lose_slot t f) = deleted f" "deleted (f\<lparr>fl_ids := n\<rparr>) = deleted f"
  "deleted (f\<lparr>fl_pcs := ps\<rparr>) = deleted f" "deleted (f\<lparr>fl_now := s\<rparr>) = deleted f"
  "deleted (f\<lparr>fl_rows := rs\<rparr>) = deleted f" "deleted (f\<lparr>fl_entries := es\<rparr>) = deleted f"
  "deleted (f\<lparr>fl_unchecked := n\<rparr>) = deleted f"
  "fl_unchecked (fleet_spawn p f) = fl_unchecked f" "fl_unchecked (lose_slot t f) = fl_unchecked f"
  by (simp_all add: deleted_def on_entry_def fleet_spawn_def take_slot_def drop_slot_def lose_slot_def)

lemma marks_ops [simp]:
  "deleted (release_entry i f) = deleted f" "fl_unchecked (release_entry i f) = fl_unchecked f"
  "deleted (reacquire i f) = deleted f"
  "deleted (reserve_for_wake e f) = deleted f" "fl_unchecked (reserve_for_wake e f) = fl_unchecked f"
  "deleted (persist_row c i f) = deleted f" "fl_unchecked (persist_row c i f) = fl_unchecked f"
  "deleted (persist_close c i r f) = deleted f" "fl_unchecked (persist_close c i r f) = fl_unchecked f"
  "deleted (close_entry i reason f) = deleted f" "fl_unchecked (close_entry i reason f) = fl_unchecked f"
  "deleted (ask_verb x i v f) = deleted f" "fl_unchecked (ask_verb x i v f) = fl_unchecked f"
  by (auto simp: release_entry_def reacquire_def reserve_for_wake_def persist_row_def persist_close_def
      close_entry_def ask_verb_def split: option.split)

lemma marks_resume [simp]:
  "deleted (may_resume x v a e f) = deleted f" "fl_unchecked (may_resume x v a e f) = fl_unchecked f"
  "deleted (wake_resumed c x a e f) = deleted f" "fl_unchecked (wake_resumed c x a e f) = fl_unchecked f"
  "deleted (build_worker c x a q i b f) = deleted f"
  "fl_unchecked (build_worker c x a q i b f) = fl_unchecked f"
  "deleted (on_closed c i r f) = deleted f" "fl_unchecked (on_closed c i r f) = fl_unchecked f"
  "deleted (worker_made c x a q i vr f) = deleted f"
  "fl_unchecked (worker_made c x a q i vr f) = fl_unchecked f"
  "deleted (idle_effect c i h f) = deleted f" "fl_unchecked (idle_effect c i h f) = fl_unchecked f"
  by (auto simp: may_resume_def wake_resumed_def build_worker_def on_closed_def worker_made_def
      idle_effect_def split: option.split sum.split hibernate_effect.split)

lemma marks_create [simp]:
  "deleted (create_worker_call c x a q f) = deleted f"
  "fl_unchecked (create_worker_call c x a q f) = fl_unchecked f"
  by (auto simp: create_worker_call_def Let_def split: option.split)

lemma marks_folds [simp]:
  "deleted (foldl (\<lambda>f i. close_entry i reason f) f is) = deleted f"
  "fl_unchecked (foldl (\<lambda>f i. close_entry i reason f) f is) = fl_unchecked f"
  "deleted (foldl (\<lambda>f h. idle_effect c i h f) f hs) = deleted f"
  "fl_unchecked (foldl (\<lambda>f h. idle_effect c i h f) f hs) = fl_unchecked f"
  by (induction "is" arbitrary: f, simp_all) (induction hs arbitrary: f, simp_all)+

lemma marks_rest [simp]:
  "deleted (sweep_all f) = deleted f" "fl_unchecked (sweep_all f) = fl_unchecked f"
  "deleted (idle_due c i f) = deleted f" "fl_unchecked (idle_due c i f) = fl_unchecked f"
  "deleted (credential_rebound c i name f) = deleted f"
  "fl_unchecked (credential_rebound c i name f) = fl_unchecked f"
  "deleted (closed_fired c i r f) = deleted f" "fl_unchecked (closed_fired c i r f) = fl_unchecked f"
  "deleted (worker_changed c i s f) = deleted f"
  "deleted (rehydrate c row f) = deleted f"
  by (auto simp: sweep_all_def idle_due_def credential_rebound_def closed_fired_def worker_changed_def
      rehydrate_def Let_def split: option.split)

lemma deleted_lookup: "lookup_entry c a i f = (g, found) \<Longrightarrow> deleted g = deleted f"
  by (auto simp: lookup_entry_def Let_def split: option.splits if_splits)

lemma deleted_with_entry:
  "(\<And>e g. deleted (k e g) = deleted g) \<Longrightarrow> deleted (with_entry c x a i k f) = deleted f"
  by (auto simp: with_entry_def deleted_lookup split: prod.split option.split)

definition honest :: "fleet \<Rightarrow> bool" where
  "honest f \<longleftrightarrow> (\<forall>(i, a)\<in>deleted f. final_answer i f = Some a)"

lemma honest_tame:
  assumes "tame UNIV f g" "well_named (fl_entries f)" "rows_explained f" "honest f"
    and "deleted g \<subseteq> insert p (deleted f)" "final_answer (fst p) g = Some (snd p) \<or> p \<in> deleted f"
  shows "honest g"
  using assms unfolding tame_def honest_def by fastforce

lemma honest_same:
  assumes "tame UNIV f g" "well_named (fl_entries f)" "rows_explained f" "honest f" "deleted g = deleted f"
  shows "honest g"
  using assms unfolding tame_def honest_def by fastforce

lemma run_pc_deleted:
  assumes "run_fleet_pc c p r f = Some g"
  shows "deleted g = deleted f \<or> (\<exists>x i a. p = Deleting x i \<and> closed_answer i f = Some a \<and>
    g = fleet_answer x i (FDeleted a) f)"
  using assms
  by (cases p) (auto simp: resumed_def wake_failed_here_def split: fleet_outcome.splits option.splits if_splits)

lemma final_answer_same:
  "fl_entries g = fl_entries f \<Longrightarrow> fl_rows g = fl_rows f \<Longrightarrow> final_answer i g = final_answer i f"
  by (simp add: final_answer_def get_entry_def cong: option.case_cong)

lemma closed_answer_final: "closed_answer i f = Some a \<Longrightarrow> final_answer i f = Some a"
  by (auto simp: closed_answer_def final_answer_def split: bind_splits)

lemma delete_across_final:
  "delete_across_restart c a i f = Some (FDeleted r) \<Longrightarrow> final_answer i f = Some r"
  by (auto simp: delete_across_restart_def final_answer_def split: if_splits option.splits)

lemma honest_step:
  assumes inv: "fleet_inv c f" and ex: "rows_explained f" and ho: "honest f"
  shows "honest (on_fleet c i f)"
proof -
  note wn = inv_named [OF inv]
  note t = tame_step [OF inv, of i]
  note same = honest_same [OF t wn ex ho]
  show ?thesis
  proof (cases i)
    case (FDelete x a h j)
    show ?thesis
    proof (cases "delete_across_restart c a j f")
      case None
      then have "deleted (on_fleet c i f) = deleted f"
        using FDelete by (simp add: delete_worker_def deleted_with_entry)
      then show ?thesis by (rule same)
    next
      case (Some r)
      then have g: "on_fleet c i f = fleet_answer x j r f" using FDelete by (simp add: delete_worker_def)
      show ?thesis
      proof (cases r)
        case (FDeleted b)
        have "final_answer j (fleet_answer x j r f) = final_answer j f"
          by (rule final_answer_same) (simp_all add: fleet_answer_def fleet_emit_def)
        then show ?thesis
          using honest_tame [OF t wn ex ho, of "(j, b)"] delete_across_final [of c a j f b] Some FDeleted
          by (simp add: g)
      qed (use same in \<open>simp_all add: g\<close>)
    qed
  next
    case (FGoOn n r)
    let ?h = "f\<lparr>fl_pcs := drop_nth n (fl_pcs f)\<rparr>"
    have h: "final_answer j ?h = final_answer j f" for j by (rule final_answer_same) simp_all
    show ?thesis
    proof (cases "n < length (fl_pcs f) \<and> run_fleet_pc c (fl_pcs f ! n) r ?h \<noteq> None")
      case True
      then obtain g where g: "run_fleet_pc c (fl_pcs f ! n) r ?h = Some g" by auto
      have o: "on_fleet c i f = g" using FGoOn True g by (simp add: resume_fleet_pc_def)
      from run_pc_deleted [OF g] show ?thesis
      proof (elim disjE exE conjE)
        assume "deleted g = deleted ?h"
        then show ?thesis using same by (simp add: o)
      next
        fix x j a assume a: "closed_answer j ?h = Some a" and ga: "g = fleet_answer x j (FDeleted a) ?h"
        have "final_answer j g = final_answer j ?h"
          unfolding ga by (rule final_answer_same) (simp_all add: fleet_answer_def fleet_emit_def)
        then have "final_answer j g = Some a" using closed_answer_final [OF a] by simp
        moreover have "deleted g = insert (j, a) (deleted f)" by (simp add: ga)
        ultimately show ?thesis
          using honest_tame [OF t wn ex ho, of "(j, a)"] by (simp add: o)
      qed
    next
      case False
      then have "on_fleet c i f = f" using FGoOn by (auto simp: resume_fleet_pc_def split: option.split)
      with ho show ?thesis by simp
    qed
  next
    case (FVerb x a v j)
    then show ?thesis by (intro same) (simp add: verb_call_def deleted_with_entry)
  next
    case (FHibernate x a h j)
    then show ?thesis by (intro same) (simp add: hibernate_call_def deleted_with_entry)
  next
    case (FCloseAll reason)
    then show ?thesis by (intro same) (simp add: close_all_def)
  qed (use same in simp_all)
qed

definition candid :: "fleet_config \<Rightarrow> fleet \<Rightarrow> bool" where
  "candid c f \<longleftrightarrow> ledger c f \<and> rows_explained f \<and> honest f"

lemma candid_step: "candid c f \<Longrightarrow> candid c (fleet_step c f i)"
proof -
  assume a: "candid c f"
  let ?f = "f\<lparr>fl_now := fst i\<rparr>"
  have inv: "fleet_inv c ?f" using a calm_inv [OF calm_now] by (auto simp: candid_def ledger_def)
  have t: "tame UNIV f ?f" by (intro tame_intros tame_refl)
  have wn: "well_named (fl_entries f)" using a inv_named by (auto simp: candid_def ledger_def)
  have ex: "rows_explained ?f" using tame_explained [OF t wn] a by (simp add: candid_def)
  have ho: "honest ?f" using honest_same [OF t wn] a by (simp add: candid_def)
  have "rows_explained (on_fleet c (snd i) ?f)"
    by (rule tame_explained [OF tame_step [OF inv] inv_named [OF inv] ex])
  with honest_step [OF inv ex ho] ledger_step [of c f i] a show ?thesis
    by (simp add: candid_def fleet_step_def)
qed

interpretation tellers: machine "fleet_step c" "candid c" for c
  by unfold_locales (rule candid_step)

definition adopted :: "fleet_config \<Rightarrow> worker_db_row list \<Rightarrow> bool" where
  "adopted c rows \<longleftrightarrow> bootable c rows \<and> (\<forall>r\<in>set rows. explained_row r)"

lemma candid_new: "adopted c rows \<Longrightarrow> candid c (new_fleet rows)"
  using ledger_new [of c rows]
  by (auto simp: adopted_def candid_def honest_def deleted_def new_fleet_def map_filter_def rows_explained_def
      dest: db_get_in)

lemma reachable_candid: "adopted c rows \<Longrightarrow> candid c (fleet_run c (new_fleet rows) is)"
  unfolding fleet_run_def by (rule tellers.run_inv) (rule candid_new)

end
