(* ===== verification/FleetClaims.thy ===== *)
theory FleetClaims
  imports FleetTold
begin

text \<open>What the worker registry promises, and where it does not keep it.\<close>

section \<open>A registry to run\<close>

definition toy_budgets :: watchdog_budgets where
  "toy_budgets = \<lparr>bu_row = \<lparr>wb_silent = 60, wb_tool = 90, wb_cancel = 30\<rparr>, bu_enabled = True\<rparr>"

definition toy_fleet_config :: fleet_config where
  "toy_fleet_config =
     \<lparr>fc_max_workers = 2, fc_max_hibernated = 1, fc_idle_ms = 100, fc_close_unresumable = False,
      fc_cancel_grace = 10, fc_park_timeout = 0, fc_park_action = TimeoutDeny, fc_patch = PatchOnWrite,
      fc_watchdog = toy_budgets, fc_store = True, fc_boot = ''b2'', fc_layer = False,
      fc_worker_id = (\<lambda>n. CHR ''w'' # replicate n CHR ''x''), fc_can_build = (\<lambda>r. True), fc_revive = None\<rparr>"

definition toy_lease :: lease_snapshot where
  "toy_lease = \<lparr>s_worker_id = ''o'', s_holder = None, s_epoch = 4, s_expires_at = None,
     s_acquired_at = None, s_pinned = False\<rparr>"

definition toy_snapshot :: worker_snapshot where
  "toy_snapshot =
     \<lparr>sn_id = ''o'', sn_owner = ''t'', sn_state = Ready, sn_cwd = ''/d'', sn_session = Some ''s'',
      sn_method = Some (Some LoadSession), sn_can_close = False, sn_turn = None, sn_close_reason = None,
      sn_crashed = False, sn_hibernated_at = None, sn_updated = 0, sn_lease = toy_lease,
      sn_process = None, sn_orphan = None, sn_head = 3, sn_generation = 1, sn_wake_count = 0,
      sn_wake_failures = 0, sn_report = None, sn_credential_stale = False, sn_view = None\<rparr>"

definition toy_asleep_row :: worker_db_row where
  "toy_asleep_row =
     \<lparr>dr_snapshot = toy_snapshot\<lparr>sn_state := Hibernated\<rparr>, dr_agent = ''g'', dr_boot = ''b1'',
      dr_close = None, dr_last_active = 0, dr_closed_at = None, dr_idle = None,
      dr_on_unresolved = Some UnresolvedPark, dr_park_timeout = None, dr_park_action = None,
      dr_mcp_names = None, dr_policy_ref = None, dr_policy = None, dr_env = None, dr_watchdog = None,
      dr_patch = None, dr_credential = None, dr_home = None\<rparr>"

definition toy_closed_row :: worker_db_row where
  "toy_closed_row = toy_asleep_row\<lparr>dr_snapshot := toy_snapshot
     \<lparr>sn_id := ''c'', sn_state := Closed, sn_close_reason := Some AgentCrashed\<rparr>\<rparr>"

definition toy_fleet_auth :: fleet_auth where
  "toy_fleet_auth = \<lparr>fa_admin = False, fa_token = ''t'', fa_agents = None, fa_max_workers = 5\<rparr>"

definition toy_stranger :: fleet_auth where
  "toy_stranger = toy_fleet_auth\<lparr>fa_token := ''u''\<rparr>"

definition toy_create :: create_request where
  "toy_create =
     \<lparr>cq_agent = ''g'', cq_checks = [None, None], cq_snapshot = toy_snapshot, cq_idle = None,
      cq_on_unresolved = UnresolvedDeny, cq_park_timeout = None, cq_park_action = None,
      cq_selection = None, cq_engine = None, cq_mcp = None, cq_mcp_applied = [], cq_mcp_dropped = [],
      cq_env = [], cq_env_persist = True, cq_patch = None, cq_watchdog = None, cq_home = None\<rparr>"

definition toy_rows :: "worker_db_row list" where
  "toy_rows = [toy_asleep_row, toy_closed_row]"

definition toy_fleet :: "(ms \<times> fleet_input) list \<Rightarrow> fleet" where
  "toy_fleet is = fleet_run toy_fleet_config (new_fleet toy_rows) is"

lemma toy_ids: "inj (fc_worker_id toy_fleet_config)" "fc_worker_id toy_fleet_config n = CHR ''w'' # replicate n CHR ''x''"
  by (auto simp: toy_fleet_config_def inj_def)

lemma toy_bootable: "bootable toy_fleet_config toy_rows"
  using toy_ids by (auto simp: bootable_def toy_rows_def toy_asleep_row_def toy_closed_row_def toy_snapshot_def)

lemma toy_adopted: "adopted toy_fleet_config toy_rows"
  using toy_bootable
  by (auto simp: adopted_def toy_rows_def toy_asleep_row_def toy_closed_row_def toy_snapshot_def
      explained_row_def occupies_slot_def)

definition toy_day :: "(ms \<times> fleet_input) list" where
  "toy_day = [(1, FCreate 0 toy_fleet_auth toy_create), (2, FGoOn 0 FFine), (3, FVerb 1 toy_fleet_auth VPrompt ''o''),
     (4, FGoOn 0 FFine), (5, FState ''o'' (toy_snapshot\<lparr>sn_state := Starting\<rparr>)), (6, FDelete 2 toy_fleet_auth True ''c''),
     (7, FDelete 3 toy_fleet_auth True ''w''), (8, FClosed ''w'' (ClosedAs ClientRequest True True False)),
     (9, FGoOn 1 FFine), (10, FDelete 4 toy_fleet_auth True ''w''), (11, FGoOn 1 FFine)]"

section \<open>Slots\<close>

text \<open>
  C18: The books balance. Over any history of creations, wakes, state changes, closes and restarts of the
  registry, its total is the number of slots held, by live workers, by workers being made and by
  reservations that were never given back, and each token's count is the number of those it owns.
\<close>

theorem slots_are_counted:
  assumes "bootable c rows"
  shows "fl_total (fleet_run c (new_fleet rows) is) = int (size (held (fleet_run c (new_fleet rows) is))) \<and>
    slots_of (fleet_run c (new_fleet rows) is) token =
      int (count (held (fleet_run c (new_fleet rows) is)) token)"
  using reachable_ledger [OF assms, of "is"] by (simp add: ledger_def fleet_inv_def books_def)

theorem slots_are_counted_witness:
  "fl_total (fleet_run toy_fleet_config (new_fleet toy_rows) toy_day) =
     int (size (held (fleet_run toy_fleet_config (new_fleet toy_rows) toy_day))) \<and>
   slots_of (fleet_run toy_fleet_config (new_fleet toy_rows) toy_day) ''t'' =
     int (count (held (fleet_run toy_fleet_config (new_fleet toy_rows) toy_day)) ''t'')"
  by (rule slots_are_counted) (rule toy_bootable)

text \<open>A worker leaves hibernation without a slot: what the state listener takes is not checked.\<close>

definition rises :: "fleet \<Rightarrow> fleet_input \<Rightarrow> bool" where
  "rises f i = (case i of
     FState j s \<Rightarrow> occupies_slot (sn_state s) \<and>
       (case get_entry f j of None \<Rightarrow> False | Some e \<Rightarrow> \<not> fe_live e)
   | _ \<Rightarrow> False)"

fun rise_count :: "fleet_config \<Rightarrow> fleet \<Rightarrow> (ms \<times> fleet_input) list \<Rightarrow> nat" where
  "rise_count c f [] = 0"
| "rise_count c f (i # is) = of_bool (rises f (snd i)) + rise_count c (fleet_step c f i) is"

lemma unchecked_rehydrate:
  assumes "rows_explained f" "get_entry f i = None" "db_get (fl_rows f) i = Some r"
  shows "fl_unchecked (rehydrate c r f) = fl_unchecked f"
  using assms by (auto simp: rows_explained_def explained_row_def rehydrate_def Let_def split: option.split)

lemma unchecked_lookup:
  "rows_explained f \<Longrightarrow> lookup_entry c a i f = (g, found) \<Longrightarrow> fl_unchecked g = fl_unchecked f"
  by (auto simp: lookup_entry_def Let_def unchecked_rehydrate split: option.splits if_splits)

lemma unchecked_reacquire:
  "fl_unchecked (reacquire i f) = fl_unchecked f +
     of_bool (case get_entry f i of None \<Rightarrow> False | Some e \<Rightarrow> \<not> fe_live e)"
  by (simp add: reacquire_def split: option.split)

lemma unchecked_with_entry:
  "rows_explained f \<Longrightarrow> (\<And>e g. fl_unchecked (k e g) = fl_unchecked g) \<Longrightarrow>
   fl_unchecked (with_entry c x a i k f) = fl_unchecked f"
  by (auto simp: with_entry_def unchecked_lookup split: prod.split option.split)

lemma unchecked_run_pc:
  "run_fleet_pc c p r f = Some g \<Longrightarrow> fl_unchecked g = fl_unchecked f"
  by (cases p) (auto simp: resumed_def wake_failed_here_def take_slot_def drop_slot_def
      split: fleet_outcome.splits option.splits if_splits)

lemma unchecked_step:
  assumes "rows_explained f"
  shows "fl_unchecked (on_fleet c i f) = fl_unchecked f + of_bool (rises f i)"
proof (cases i)
  case (FState j s)
  let ?g = "\<lambda>e. move_timer c (state_op (fl_now f) (sn_state s)) (e\<lparr>fe_snapshot := same_worker e s\<rparr>)"
  let ?f = "on_entry j ?g f"
  have k: "keeps_id ?g" by (auto simp: keeps_id_def move_timer_def split: option.split)
  have live: "fe_live (?g e) = fe_live e" for e by (simp add: move_timer_def split: option.split)
  have "(case get_entry ?f j of None \<Rightarrow> False | Some e \<Rightarrow> \<not> fe_live e) \<longleftrightarrow>
      (case get_entry f j of None \<Rightarrow> False | Some e \<Rightarrow> \<not> fe_live e)"
    using get_on_entry [OF k, of j f j] by (cases "get_entry f j") (simp_all add: live)
  then have "fl_unchecked (reacquire j ?f) =
      fl_unchecked f + of_bool (case get_entry f j of None \<Rightarrow> False | Some e \<Rightarrow> \<not> fe_live e)"
    unfolding unchecked_reacquire by simp
  then show ?thesis
    by (simp add: FState rises_def worker_changed_def Let_def occupies_slot_def)
next
  case (FGoOn n r)
  then show ?thesis
    using unchecked_run_pc [of c "fl_pcs f ! n" r "f\<lparr>fl_pcs := drop_nth n (fl_pcs f)\<rparr>"]
    by (auto simp: resume_fleet_pc_def rises_def split: option.split)
qed (simp_all add: rises_def verb_call_def hibernate_call_def delete_worker_def close_all_def
    unchecked_with_entry assms split: option.split)

lemma tame_now: "tame UNIV f (f\<lparr>fl_now := s\<rparr>)"
  by (intro tame_intros tame_refl)

lemma unchecked_run:
  "candid c f \<Longrightarrow> fl_unchecked (fleet_run c f is) = fl_unchecked f + rise_count c f is"
proof (induction "is" arbitrary: f)
  case (Cons i "is")
  have now: "rises (f\<lparr>fl_now := t\<rparr>) j = rises f j" for t j
    by (simp add: rises_def get_entry_def split: fleet_input.split)
  have "rows_explained (f\<lparr>fl_now := fst i\<rparr>)"
    using Cons.prems tame_explained [OF tame_now] inv_named by (auto simp: candid_def ledger_def)
  from unchecked_step [OF this, of c "snd i"]
  have "fl_unchecked (fleet_step c f i) = fl_unchecked f + of_bool (rises f (snd i))"
    by (simp add: fleet_step_def now)
  with Cons.IH [OF candid_step [OF Cons.prems], of i] show ?case by (simp add: fleet_run_def)
qed (simp add: fleet_run_def)

text \<open>
  C19: The limit. After boot adoption the registry never holds more slots than \<open>maxWorkers\<close>, but for one
  per time a worker left hibernation without the check a wake makes.
\<close>

theorem fleet_is_bounded:
  assumes "adopted c rows"
  shows "fl_total (fleet_run c (new_fleet rows) is) \<le>
    max 0 (fc_max_workers c) + int (rise_count c (new_fleet rows) is)"
proof -
  have "fl_unchecked (new_fleet rows) = 0" by (simp add: new_fleet_def)
  with unchecked_run [OF candid_new [OF assms], of "is"] reachable_candid [OF assms, of "is"]
  show ?thesis by (simp add: candid_def ledger_def fleet_inv_def books_def)
qed

theorem fleet_is_bounded_witness:
  "fl_total (fleet_run toy_fleet_config (new_fleet toy_rows) toy_day) \<le>
     max 0 (fc_max_workers toy_fleet_config) + int (rise_count toy_fleet_config (new_fleet toy_rows) toy_day)"
  by (rule fleet_is_bounded) (rule toy_adopted)

section \<open>Close and delete\<close>

lemma answer_kept:
  assumes "candid c f" "final_answer i f = Some a"
  shows "final_answer i (fleet_run c f is) = Some a"
  using assms
proof (induction "is" arbitrary: f)
  case (Cons j "is")
  let ?f = "f\<lparr>fl_now := fst j\<rparr>"
  have inv: "fleet_inv c ?f"
    using Cons.prems(1) calm_inv [OF calm_now] by (auto simp: candid_def ledger_def)
  have wn: "well_named (fl_entries f)" "rows_explained f"
    using Cons.prems(1) inv_named by (auto simp: candid_def ledger_def)
  have "tame UNIV f (fleet_step c f j)"
    unfolding fleet_step_def by (rule tame_trans [OF tame_now tame_step [OF inv]])
  with wn Cons.prems(2) have "final_answer i (fleet_step c f j) = Some a" by (simp add: tame_def)
  from Cons.IH [OF candid_step [OF Cons.prems(1)] this] show ?case by (simp add: fleet_run_def)
qed (simp add: fleet_run_def)

text \<open>
  C20: One close, one answer. Start the registry on adopted rows: no row in a live state, every closed row
  with a result or a close reason, ids distinct from those still to be made. Then over any history, in
  whatever way and however often a worker is deleted, closed or brought back from its row, every delete of it
  that is answered gets the same result; where the worker was closed by a previous boot, it is the result its
  row keeps. A closed row that explains nothing is answered in two ways
  (\<open>unexplained_close_answered_twice\<close>).
\<close>

theorem deletes_agree:
  assumes "adopted c rows"
    and "FAnswered x i (FDeleted r) \<in> set (fl_trace (fleet_run c (new_fleet rows) is))"
  shows "(\<forall>y r'. FAnswered y i (FDeleted r') \<in> set (fl_trace (fleet_run c (new_fleet rows) is)) \<longrightarrow> r' = r) \<and>
    (\<forall>row. db_get rows i = Some row \<longrightarrow> sn_state (dr_snapshot row) = Closed \<longrightarrow> r = persisted_close row)"
proof -
  let ?f = "fleet_run c (new_fleet rows) is"
  have d: "(j, a) \<in> deleted ?f" if "FAnswered z j (FDeleted a) \<in> set (fl_trace ?f)" for z j a
    using that by (force simp: deleted_def map_filter_def)
  have h: "final_answer j ?f = Some a" if "FAnswered z j (FDeleted a) \<in> set (fl_trace ?f)" for z j a
    using d [OF that] reachable_candid [OF assms(1), of "is"] by (auto simp: candid_def honest_def)
  have "r = persisted_close row"
    if row: "db_get rows i = Some row" "sn_state (dr_snapshot row) = Closed" for row
  proof -
    have "final_answer i (new_fleet rows) = Some (persisted_close row)"
      by (simp add: final_answer_def new_fleet_def get_entry_def row)
    then have "final_answer i ?f = Some (persisted_close row)"
      by (rule answer_kept [OF candid_new [OF assms(1)]])
    then show ?thesis using h [OF assms(2)] by simp
  qed
  then show ?thesis using h [OF assms(2)] h by auto
qed

theorem deletes_agree_witness:
  "FAnswered 2 ''c'' (FDeleted (ClosedAs AgentCrashed False False False)) \<in>
      set (fl_trace (fleet_run toy_fleet_config (new_fleet toy_rows) toy_day)) \<and>
   ClosedAs AgentCrashed False False False = persisted_close toy_closed_row"
proof
  show a: "FAnswered 2 ''c'' (FDeleted (ClosedAs AgentCrashed False False False)) \<in>
    set (fl_trace (fleet_run toy_fleet_config (new_fleet toy_rows) toy_day))" by code_simp
  have r: "db_get toy_rows ''c'' = Some toy_closed_row" "sn_state (dr_snapshot toy_closed_row) = Closed"
    by (simp_all add: db_get_def toy_rows_def toy_closed_row_def toy_asleep_row_def toy_snapshot_def)
  from deletes_agree [OF toy_adopted a] r
  show "ClosedAs AgentCrashed False False False = persisted_close toy_closed_row" by blast
qed

section \<open>Visibility\<close>

definition sees :: "fleet_config \<Rightarrow> fleet_auth \<Rightarrow> string \<Rightarrow> fleet \<Rightarrow> bool" where
  "sees c a i f \<longleftrightarrow>
     (case get_entry f i of
        Some e \<Rightarrow> can_see a (fe_snapshot e)
      | None \<Rightarrow> fc_store c \<and> (case db_get (fl_rows f) i of Some r \<Rightarrow> can_see a (dr_snapshot r) | None \<Rightarrow> False))"

text \<open>
  C21: Existence does not leak. Whatever a token asks of a worker it may not see, whether the worker is
  live, asleep, closed by an earlier boot or does not exist, it gets the one answer \<open>worker_not_found\<close>
  and nothing else happens: no handle is built, nothing is asked of the worker, no row is written.
\<close>

theorem invisible_worker_is_absent:
  assumes "\<not> sees c a i f"
    and "op = FVerb x a v i \<or> op = FHibernate x a h i \<or> op = FDelete x a h i"
  shows "fleet_step c f (t, op) = fleet_answer x i (FRefused WorkerNotFound) (f\<lparr>fl_now := t\<rparr>)"
proof -
  let ?f = "f\<lparr>fl_now := t\<rparr>"
  have g: "get_entry ?f i = get_entry f i" by (simp add: get_entry_def)
  have "lookup_entry c a i ?f = (?f, None)"
    using assms(1) by (auto simp: lookup_entry_def sees_def g split: option.splits)
  moreover have "delete_across_restart c a i ?f \<in> {None, Some (FRefused WorkerNotFound)}"
    using assms(1) by (auto simp: delete_across_restart_def sees_def g split: option.splits)
  ultimately show ?thesis
    using assms(2)
    by (auto simp: fleet_step_def verb_call_def hibernate_call_def delete_worker_def with_entry_def)
qed

theorem invisible_worker_is_absent_witness:
  "fleet_step toy_fleet_config (toy_fleet toy_day) (20, FDelete 9 toy_stranger True ''o'') =
     fleet_answer 9 ''o'' (FRefused WorkerNotFound) ((toy_fleet toy_day)\<lparr>fl_now := 20\<rparr>)"
proof (rule invisible_worker_is_absent [where v = VPrompt and h = True and a = toy_stranger])
  show "\<not> sees toy_fleet_config toy_stranger ''o'' (toy_fleet toy_day)" by code_simp
qed simp

section \<open>What a restart keeps\<close>

text \<open>
  A woken worker asks for what its creator asked for. The row the registry writes of a worker reads
  back, in the next boot, as the very disposition, park budget, policy selection, presets, environment,
  budgets, patch mode, credential and home the worker had; only the watch list comes from the engine
  that is rebuilt.
\<close>

theorem rows_read_back:
  "view_rows_of (row_of_entry c now e previous) = (fe_view e)\<lparr>vr_alert := []\<rparr>"
  by (simp add: view_rows_of_def row_of_entry_def decorate_def Let_def)

section \<open>Where the registry does not keep its promises\<close>

text \<open>
  A prompt wakes a hibernated worker without the check \<open>wake\<close> makes: two workers fill the limit of two,
  an explicit wake of a third is refused, a prompt to it is not, and three slots are held.
\<close>

definition toy_full :: "(ms \<times> fleet_input) list" where
  "toy_full = [(1, FCreate 0 toy_fleet_auth toy_create), (2, FGoOn 0 FFine), (3, FCreate 1 toy_fleet_auth toy_create),
     (4, FGoOn 0 FFine)]"

lemma prompt_wakes_past_limit:
  "FAnswered 2 ''o'' (FRefused WorkerLimit) \<in> set (fl_trace (toy_fleet (toy_full @
      [(5, FVerb 2 toy_fleet_auth VWake ''o''), (6, FGoOn 0 FFine)]))) \<and>
   fl_total (toy_fleet (toy_full @ [(5, FVerb 2 toy_fleet_auth VPrompt ''o''), (6, FGoOn 0 FFine),
      (7, FState ''o'' (toy_snapshot\<lparr>sn_state := Starting\<rparr>))])) = 3"
  by code_simp

text \<open>
  A creation that throws after the reservation and before \<open>createWorker\<close> keeps the slot: two requests
  with a watchdog override the registry refuses, and no worker can be created any more.
\<close>

definition toy_bad_request :: create_request where
  "toy_bad_request = toy_create\<lparr>cq_watchdog := Some
     \<lparr>wo_silent = None, wo_tool = None, wo_cancel = Some 5, wo_enabled = None\<rparr>\<rparr>"

lemma refused_requests_exhaust_the_limit:
  "let f = toy_fleet [(1, FCreate 0 toy_fleet_auth toy_bad_request), (2, FCreate 1 toy_fleet_auth toy_bad_request),
      (3, FCreate 2 toy_fleet_auth toy_create)]
   in fl_trace f = [FAnswered 0 ''w'' (FRefused BadRequest), FAnswered 1 ''wx'' (FRefused BadRequest),
        FAnswered 2 '''' (FRefused WorkerLimit)] \<and>
      fl_entries f = [] \<and> fl_pcs f = [] \<and> fl_total f = 2"
  by code_simp

lemma refused_override_keeps_slot:
  assumes "create_refusal c a f = None" "first_refusal (cq_checks q) = None" "agent_allowed a (cq_agent q)"
    and "resolve_budgets c (cq_watchdog q) = Inl code" "\<not> fc_layer c"
  shows "fl_total (create_worker_call c x a q f) = fl_total f + 1 \<and>
    fl_pcs (create_worker_call c x a q f) = fl_pcs f \<and>
    fl_entries (create_worker_call c x a q f) = fl_entries f"
  using assms
  by (simp add: create_worker_call_def build_worker_def fleet_answer_def fleet_emit_def lose_slot_def
      take_slot_def Let_def)

text \<open>
  A worker created with \<open>idleTimeoutMs: 0\<close>, never to be hibernated, has the daemon's budget after a
  restart: off and unknown are the same \<open>null\<close> in the row.
\<close>

lemma never_hibernate_is_forgotten:
  assumes "0 < fc_idle_ms c" "cq_idle q = Some 0"
  shows "fe_idle (made_entry c a q i v) = None \<and>
    fe_idle (restored_entry c (row_of_entry c now (made_entry c a q i v) None)) = Some (fc_idle_ms c)"
  using assms
  by (simp add: made_entry_def idle_budget_def restored_entry_def row_of_entry_def Let_def split: prod.split)

text \<open>Two hibernations asked for together both pass the limit, because the count is read before either.\<close>

lemma hibernations_race_past_limit:
  "let f = fleet_run toy_fleet_config (new_fleet [])
     (toy_full @ [(5, FHibernate 2 toy_fleet_auth True ''w''), (6, FHibernate 3 toy_fleet_auth True ''wx''),
        (7, FState ''w'' (toy_snapshot\<lparr>sn_state := Hibernated\<rparr>)),
        (8, FState ''wx'' (toy_snapshot\<lparr>sn_state := Hibernated\<rparr>))])
   in count_hibernated toy_fleet_config f = 2"
  by code_simp

text \<open>
  The idle countdown of a worker brought back from its row starts at once, asleep as the worker is.
\<close>

lemma sleeping_worker_counts_down:
  "let f = toy_fleet [(5, FVerb 2 toy_fleet_auth VPrompt ''o'')]
   in map (\<lambda>e. (sn_state (fe_snapshot e), map_option ht_timer (fe_timer e))) (fl_entries f) =
     [(Hibernated, Some (Some 105))]"
  by code_simp

text \<open>
  A closed row without result and reason is answered in two ways, before and after a handle is built
  over it.
\<close>

lemma unexplained_close_answered_twice:
  "let r = toy_closed_row\<lparr>dr_snapshot := (dr_snapshot toy_closed_row)\<lparr>sn_close_reason := None\<rparr>\<rparr>;
       f = fleet_run toy_fleet_config (new_fleet [r])
         [(1, FDelete 0 toy_fleet_auth True ''c''), (2, FVerb 1 toy_fleet_auth VCancel ''c''), (3, FDelete 2 toy_fleet_auth True ''c''),
          (4, FGoOn 1 FFine)]
   in filter (\<lambda>a. deleted_act a \<noteq> None) (fl_trace f) =
     [FAnswered 0 ''c'' (FDeleted (ClosedAs DaemonShutdown False False False)),
      FAnswered 2 ''c'' (FDeleted (ClosedAs Orphaned False False False))]"
  by code_simp

end
