(* ===== verification/Adoption.thy ===== *)
theory Adoption
  imports FleetClaims WorkerClaims Lease
    "HOL-Library.List_Lexorder" "HOL-Library.Char_ord" "HOL-Library.Product_Lexorder"
begin

text \<open>
  Boot adoption: \<open>daemon/src/boot-recovery.ts\<close>. Every row a previous boot left in a live state is brought
  to \<open>hibernated\<close> or \<open>closed\<close>, once, with three events on the worker's own log. The supervisor's
  \<open>reapOrphan\<close>, which kills a process tree whose fingerprint still matches, is a parameter; \<open>None\<close> is a
  supervisor that throws.
\<close>

section \<open>The pass\<close>

record adopt_config =
  ac_boot :: string
  ac_now :: ms
  ac_never :: bool
  ac_reap :: "orphan_record \<Rightarrow> orphan_record option"
  ac_head :: "string \<Rightarrow> seq"
  ac_orphan_json :: "orphan_record \<Rightarrow> json"

text \<open>The message of the error event says where the worker was and where it is now.\<close>

datatype adoption_event =
    AdError "string option" worker_state worker_state
  | AdState worker_state_payload
  | AdLease lease_event

record adoption =
  ad_rows :: "worker_db_row list"
  ad_log :: "(string \<times> adoption_event) list"
  ad_found :: nat
  ad_reaped :: nat
  ad_skipped :: nat
  ad_hibernated :: nat
  ad_closed :: nat
  ad_orphans :: "orphan_record list"

text \<open>\<open>abandoned\<close>, the orphan query of the store.\<close>

definition abandoned_row :: "string \<Rightarrow> worker_db_row \<Rightarrow> bool" where
  "abandoned_row boot r \<longleftrightarrow> dr_boot r \<noteq> boot \<and> occupies_slot (sn_state (dr_snapshot r))"

definition abandoned_rows :: "string \<Rightarrow> worker_db_row list \<Rightarrow> worker_db_row list" where
  "abandoned_rows boot rows =
     sort_key (\<lambda>r. (- sn_updated (dr_snapshot r), dr_id r)) (filter (abandoned_row boot) rows)"

definition reap_if_proven :: "adopt_config \<Rightarrow> worker_db_row \<Rightarrow> orphan_record option" where
  "reap_if_proven c r =
     (case sn_process (dr_snapshot r) of
        None \<Rightarrow> None
      | Some p \<Rightarrow>
          (let record = \<lparr>or_process = p, or_reaped = False, or_skipped = None\<rparr>;
               refused = record\<lparr>or_skipped := Some ''policy''\<rparr>
           in Some (if ac_never c then refused
                else case ac_reap c record of Some q \<Rightarrow> q | None \<Rightarrow> refused)))"

definition is_resumable :: "worker_snapshot \<Rightarrow> bool" where
  "is_resumable s \<longleftrightarrow> sn_session s \<noteq> None \<and> Option.bind (sn_method s) id \<noteq> None"

definition adopted_state :: "worker_snapshot \<Rightarrow> worker_state" where
  "adopted_state s = (if is_resumable s then Hibernated else Closed)"

definition was_reaped :: "orphan_record option \<Rightarrow> bool" where
  "was_reaped orphan = (case orphan of None \<Rightarrow> False | Some q \<Rightarrow> or_reaped q)"

definition adopted_lease :: "worker_snapshot \<Rightarrow> lease_snapshot" where
  "adopted_lease s =
     \<lparr>s_worker_id = sn_id s, s_holder = None, s_epoch = s_epoch (sn_lease s) + 1, s_expires_at = None,
      s_acquired_at = None, s_pinned = False\<rparr>"

definition adoption_events ::
  "adopt_config \<Rightarrow> worker_snapshot \<Rightarrow> orphan_record option \<Rightarrow> adoption_event list" where
  "adoption_events c s orphan =
     [AdError (sn_turn s) (sn_state s) (adopted_state s),
      AdState
        ((bare_payload (adopted_state s) (Some (sn_state s))
           (if is_resumable s then DaemonRestart else Orphaned))
         \<lparr>ws_crashed := Some True, ws_orphan := map_option (ac_orphan_json c) orphan,
          ws_leader_exited := (if is_resumable s then None else Some (was_reaped orphan)),
          ws_tree_gone := (if is_resumable s then None else Some (was_reaped orphan))\<rparr>),
      AdLease
        \<lparr>ev_op = Expired, ev_lease = adopted_lease s, ev_previous = s_holder (sn_lease s), ev_by = None,
         ev_how = HowDaemonRestart, ev_reason = None\<rparr>]"

definition adopted_row :: "adopt_config \<Rightarrow> orphan_record option \<Rightarrow> worker_db_row \<Rightarrow> worker_db_row" where
  "adopted_row c orphan r =
     (let s = dr_snapshot r; state = adopted_state s in
      r\<lparr>dr_boot := ac_boot c,
        dr_close := (if state = Closed
                     then Some (ClosedAs Orphaned (was_reaped orphan) (was_reaped orphan) False) else None),
        dr_closed_at := (if state = Closed then Some (ac_now c) else dr_closed_at r),
        dr_snapshot := s
          \<lparr>sn_state := state, sn_updated := ac_now c, sn_process := None, sn_turn := None,
           sn_crashed := True,
           sn_close_reason := (if state = Closed then Some Orphaned else sn_close_reason s),
           sn_hibernated_at := (if state = Hibernated then Some (ac_now c) else sn_hibernated_at s),
           sn_lease := adopted_lease s, sn_orphan := orphan,
           sn_head := ac_head c (sn_id s) + 3\<rparr>\<rparr>)"

definition adopt_row :: "adopt_config \<Rightarrow> adoption \<Rightarrow> worker_db_row \<Rightarrow> adoption" where
  "adopt_row c a r =
     (let orphan = reap_if_proven c r; s = dr_snapshot r in
      a\<lparr>ad_rows := db_upsert (ad_rows a) (adopted_row c orphan r),
        ad_log := ad_log a @ map (Pair (sn_id s)) (adoption_events c s orphan),
        ad_reaped := ad_reaped a + of_bool (was_reaped orphan),
        ad_skipped := ad_skipped a + of_bool (orphan \<noteq> None \<and> \<not> was_reaped orphan),
        ad_hibernated := ad_hibernated a + of_bool (adopted_state s = Hibernated),
        ad_closed := ad_closed a + of_bool (adopted_state s \<noteq> Hibernated),
        ad_orphans := ad_orphans a @ (case orphan of None \<Rightarrow> [] | Some q \<Rightarrow> [q])\<rparr>)"

definition recover_from_previous_boot :: "adopt_config \<Rightarrow> worker_db_row list \<Rightarrow> adoption" where
  "recover_from_previous_boot c rows =
     (let found = abandoned_rows (ac_boot c) rows in
      foldl (adopt_row c)
        \<lparr>ad_rows = rows, ad_log = [], ad_found = length found, ad_reaped = 0, ad_skipped = 0,
         ad_hibernated = 0, ad_closed = 0, ad_orphans = []\<rparr> found)"

section \<open>What the pass does to the table\<close>

lemma adopted_row_id [simp]: "dr_id (adopted_row c orphan r) = dr_id r"
  by (simp add: adopted_row_def Let_def)

lemma upsert_map:
  "distinct (map dr_id rows) \<Longrightarrow> dr_id r \<in> set (map dr_id rows) \<Longrightarrow>
   db_upsert rows r = map (\<lambda>q. if dr_id q = dr_id r then raise_head (sn_head (dr_snapshot q)) r else q) rows"
proof (induction rows)
  case (Cons q qs)
  show ?case
  proof (cases "dr_id q = dr_id r")
    case True
    with Cons.prems have "map (\<lambda>q. if dr_id q = dr_id r then raise_head (sn_head (dr_snapshot q)) r else q) qs = qs"
      by (intro map_idI) (auto simp: image_iff)
    with True show ?thesis by simp
  qed (use Cons in auto)
qed simp

lemma upserts_map:
  assumes "distinct (map dr_id rows)" "distinct (map dr_id xs)" "set (map dr_id xs) \<subseteq> set (map dr_id rows)"
    and "\<And>r. dr_id (g r) = dr_id r"
  shows "foldl (\<lambda>rs r. db_upsert rs (g r)) rows xs =
    map (\<lambda>q. case List.find (\<lambda>r. dr_id r = dr_id q) xs of
       None \<Rightarrow> q | Some r \<Rightarrow> raise_head (sn_head (dr_snapshot q)) (g r)) rows"
  using assms(1-3)
proof (induction xs arbitrary: rows)
  case (Cons r xs)
  let ?rows = "db_upsert rows (g r)"
  have u: "?rows = map (\<lambda>q. if dr_id q = dr_id r then raise_head (sn_head (dr_snapshot q)) (g r) else q) rows"
    using upsert_map [OF Cons.prems(1), of "g r"] Cons.prems(3) assms(4) by simp
  then have ids: "map dr_id ?rows = map dr_id rows" by (simp add: raise_head_def assms(4))
  have "List.find (\<lambda>r'. dr_id r' = dr_id r) xs = None"
    unfolding find_none using Cons.prems(2) by simp
  with Cons.IH [of ?rows] Cons.prems show ?case
    unfolding foldl.simps ids by (simp add: u assms(4) raise_head_def comp_def cong: if_cong)
qed simp

lemma adopt_rows_table:
  "ad_rows (foldl (adopt_row c) a xs) =
     foldl (\<lambda>rs r. db_upsert rs (adopted_row c (reap_if_proven c r) r)) (ad_rows a) xs"
  by (induction xs arbitrary: a) (simp_all add: adopt_row_def Let_def)

text \<open>What a row becomes.\<close>

definition settled_db_row :: "adopt_config \<Rightarrow> worker_db_row \<Rightarrow> worker_db_row" where
  "settled_db_row c r =
     (if abandoned_row (ac_boot c) r
      then raise_head (sn_head (dr_snapshot r)) (adopted_row c (reap_if_proven c r) r) else r)"

lemma find_self:
  "distinct (map dr_id rows) \<Longrightarrow> q \<in> set rows \<Longrightarrow>
   set xs = set (filter P rows) \<Longrightarrow>
   List.find (\<lambda>r. dr_id r = dr_id q) xs = (if P q then Some q else None)"
proof -
  assume d: "distinct (map dr_id rows)" and q: "q \<in> set rows" and x: "set xs = set (filter P rows)"
  have u: "r = q" if "r \<in> set rows" "dr_id r = dr_id q" for r
    using d q that by (auto simp: distinct_map dest: inj_onD)
  show ?thesis
  proof (cases "P q")
    case True
    then obtain r where r: "List.find (\<lambda>r. dr_id r = dr_id q) xs = Some r"
      using q x by (cases "List.find (\<lambda>r. dr_id r = dr_id q) xs") (auto simp: find_None_iff)
    then have "dr_id r = dr_id q" "r \<in> set xs" using find_id [OF r] by auto
    with u x r True show ?thesis by auto
  next
    case False
    then have "List.find (\<lambda>r. dr_id r = dr_id q) xs = None" using u x by (auto simp: find_None_iff)
    with False show ?thesis by simp
  qed
qed

lemma recovered_rows:
  assumes "distinct (map dr_id rows)"
  shows "ad_rows (recover_from_previous_boot c rows) = map (settled_db_row c) rows"
proof -
  let ?xs = "abandoned_rows (ac_boot c) rows"
  have x: "set ?xs = set (filter (abandoned_row (ac_boot c)) rows)" by (simp add: abandoned_rows_def)
  have m: "mset (map dr_id ?xs) = mset (map dr_id (filter (abandoned_row (ac_boot c)) rows))"
    by (simp add: abandoned_rows_def)
  have "distinct (map dr_id (filter (abandoned_row (ac_boot c)) rows))"
    using assms by (simp add: distinct_map_filter)
  then have "distinct (map dr_id ?xs)" using mset_eq_imp_distinct_iff [OF m] by simp
  from upserts_map [OF assms this, of "\<lambda>r. adopted_row c (reap_if_proven c r) r"] x
  have "ad_rows (recover_from_previous_boot c rows) =
    map (\<lambda>q. case List.find (\<lambda>r. dr_id r = dr_id q) ?xs of
       None \<Rightarrow> q | Some r \<Rightarrow> raise_head (sn_head (dr_snapshot q)) (adopted_row c (reap_if_proven c r) r)) rows"
    by (auto simp: recover_from_previous_boot_def Let_def adopt_rows_table)
  also have "\<dots> = map (settled_db_row c) rows"
    by (rule map_cong [OF refl]) (simp add: find_self [OF assms _ x] settled_db_row_def)
  finally show ?thesis .
qed

section \<open>What it promises\<close>

definition toy_adoption :: adopt_config where
  "toy_adoption =
     \<lparr>ac_boot = ''b2'', ac_now = 50, ac_never = False, ac_reap = (\<lambda>q. Some (q\<lparr>or_reaped := True\<rparr>)),
      ac_head = (\<lambda>i. 3), ac_orphan_json = (\<lambda>q. JNull)\<rparr>"

definition toy_left :: worker_db_row where
  "toy_left = toy_asleep_row\<lparr>dr_snapshot := toy_snapshot\<lparr>sn_id := ''l'', sn_state := Running,
     sn_turn := Some ''t1'', sn_process := Some \<lparr>pi_pid = 7, pi_group = None, pi_started = 1,
       pi_fingerprint = Some ''f''\<rparr>\<rparr>\<rparr>"

definition toy_table :: "worker_db_row list" where
  "toy_table = [toy_asleep_row, toy_left, toy_closed_row]"

lemma toy_table_ids: "distinct (map dr_id toy_table)"
  by code_simp

lemma settled_db_row_id [simp]: "dr_id (settled_db_row c r) = dr_id r"
  by (simp add: settled_db_row_def raise_head_def)

lemma settled_not_abandoned: "\<not> abandoned_row (ac_boot c) (settled_db_row c r)"
  by (auto simp: settled_db_row_def abandoned_row_def raise_head_def adopted_row_def adopted_state_def
      occupies_slot_def Let_def)

lemma settled_twice: "settled_db_row c (settled_db_row c r) = settled_db_row c r"
  using settled_not_abandoned [of c r] by (simp add: settled_db_row_def [of c "settled_db_row c r"])

lemma recovered_none:
  "filter (abandoned_row (ac_boot c)) rows = [] \<Longrightarrow>
   recover_from_previous_boot c rows =
     \<lparr>ad_rows = rows, ad_log = [], ad_found = 0, ad_reaped = 0, ad_skipped = 0, ad_hibernated = 0,
      ad_closed = 0, ad_orphans = []\<rparr>"
  by (simp add: recover_from_previous_boot_def abandoned_rows_def)

text \<open>
  What a reader of the table may rely on, column by column: the row \<open>q\<close> a worker has after adoption, of the
  row \<open>r\<close> a dead daemon left in a live state. Its process tree counts as killed only where the supervisor
  says that it was.
\<close>

definition killed_at_boot :: "adopt_config \<Rightarrow> worker_snapshot \<Rightarrow> bool" where
  "killed_at_boot c s \<longleftrightarrow> \<not> ac_never c \<and>
     (\<exists>p told. sn_process s = Some p \<and> or_reaped told \<and>
        ac_reap c \<lparr>or_process = p, or_reaped = False, or_skipped = None\<rparr> = Some told)"

definition taken_over :: "adopt_config \<Rightarrow> worker_db_row \<Rightarrow> worker_db_row \<Rightarrow> bool" where
  "taken_over c r q \<longleftrightarrow>
     (let s = dr_snapshot r; s' = dr_snapshot q;
          resumable = (sn_session s \<noteq> None \<and> (\<exists>m. sn_method s = Some (Some m)));
          killed = killed_at_boot c s
      in dr_boot q = ac_boot c \<and>
         sn_crashed s' \<and> sn_process s' = None \<and> sn_turn s' = None \<and> sn_updated s' = ac_now c \<and>
         (sn_orphan s' = None \<longleftrightarrow> sn_process s = None) \<and>
         s_holder (sn_lease s') = None \<and> s_epoch (sn_lease s') = s_epoch (sn_lease s) + 1 \<and>
         s_expires_at (sn_lease s') = None \<and> \<not> s_pinned (sn_lease s') \<and>
         sn_head s' = max (sn_head s) (ac_head c (sn_id s) + 3) \<and>
         (if resumable
          then sn_state s' = Hibernated \<and> sn_hibernated_at s' = Some (ac_now c) \<and>
            sn_close_reason s' = sn_close_reason s \<and> dr_close q = None \<and> dr_closed_at q = dr_closed_at r
          else sn_state s' = Closed \<and> sn_hibernated_at s' = sn_hibernated_at s \<and>
            sn_close_reason s' = Some Orphaned \<and> dr_closed_at q = Some (ac_now c) \<and>
            dr_close q = Some (ClosedAs Orphaned killed killed False)) \<and>
         dr_snapshot r = s'\<lparr>sn_state := sn_state s, sn_updated := sn_updated s, sn_process := sn_process s,
           sn_turn := sn_turn s, sn_crashed := sn_crashed s, sn_close_reason := sn_close_reason s,
           sn_hibernated_at := sn_hibernated_at s, sn_lease := sn_lease s, sn_orphan := sn_orphan s,
           sn_head := sn_head s\<rparr> \<and>
         r = q\<lparr>dr_boot := dr_boot r, dr_close := dr_close r, dr_closed_at := dr_closed_at r,
           dr_snapshot := s\<rparr>)"

lemma reaped_iff: "was_reaped (reap_if_proven c r) \<longleftrightarrow> killed_at_boot c (dr_snapshot r)"
  by (auto simp: was_reaped_def reap_if_proven_def killed_at_boot_def Let_def split: option.split)

lemma orphan_iff: "reap_if_proven c r = None \<longleftrightarrow> sn_process (dr_snapshot r) = None"
  by (auto simp: reap_if_proven_def Let_def split: option.split)

lemma resumable_iff: "is_resumable s \<longleftrightarrow> sn_session s \<noteq> None \<and> (\<exists>m. sn_method s = Some (Some m))"
  by (auto simp: is_resumable_def split: bind_splits)

lemma settled_taken_over: "abandoned_row (ac_boot c) r \<Longrightarrow> taken_over c r (settled_db_row c r)"
  by (simp add: taken_over_def settled_db_row_def raise_head_def adopted_row_def adopted_state_def
      adopted_lease_def orphan_iff reaped_iff resumable_iff Let_def)

text \<open>
  C22: Adoption settles every row, once. In the table after the pass, in place of each row another boot left
  in a state that is neither hibernated nor closed stands a row of this boot, marked crashed, without
  process and turn, its lease free and unpinned with the epoch one higher, its head no lower and past the
  three events of the pass; hibernated, with its session and its close reason untouched, where there is a
  session and a method to resume it by, and otherwise closed as \<open>orphaned\<close> with a close result that claims
  the process and its tree gone exactly where the supervisor reported them killed. Every other column and
  every other row is what it was. Nothing is left to adopt: a second pass finds nothing, changes nothing,
  logs nothing and signals no process.
\<close>

theorem adoption_settles_every_row:
  assumes "distinct (map dr_id rows)"
  shows "list_all2 (\<lambda>r q. if dr_boot r \<noteq> ac_boot c \<and> sn_state (dr_snapshot r) \<notin> {Hibernated, Closed}
      then taken_over c r q else q = r) rows (ad_rows (recover_from_previous_boot c rows)) \<and>
    recover_from_previous_boot c (ad_rows (recover_from_previous_boot c rows)) =
      \<lparr>ad_rows = ad_rows (recover_from_previous_boot c rows), ad_log = [], ad_found = 0, ad_reaped = 0,
       ad_skipped = 0, ad_hibernated = 0, ad_closed = 0, ad_orphans = []\<rparr>"
proof
  have left: "dr_boot r \<noteq> ac_boot c \<and> sn_state (dr_snapshot r) \<notin> {Hibernated, Closed} \<longleftrightarrow>
      abandoned_row (ac_boot c) r" for r
    by (cases "sn_state (dr_snapshot r)") (auto simp: abandoned_row_def occupies_slot_def)
  have "\<not> abandoned_row (ac_boot c) r \<Longrightarrow> settled_db_row c r = r" for r
    by (simp add: settled_db_row_def)
  then show "list_all2 (\<lambda>r q. if dr_boot r \<noteq> ac_boot c \<and> sn_state (dr_snapshot r) \<notin> {Hibernated, Closed}
      then taken_over c r q else q = r) rows (ad_rows (recover_from_previous_boot c rows))"
    unfolding recovered_rows [OF assms] left by (simp add: list_all2_conv_all_nth settled_taken_over)
  have "filter (abandoned_row (ac_boot c)) (map (settled_db_row c) rows) = []"
    by (auto simp: filter_empty_conv settled_not_abandoned)
  then show "recover_from_previous_boot c (ad_rows (recover_from_previous_boot c rows)) =
      \<lparr>ad_rows = ad_rows (recover_from_previous_boot c rows), ad_log = [], ad_found = 0, ad_reaped = 0,
       ad_skipped = 0, ad_hibernated = 0, ad_closed = 0, ad_orphans = []\<rparr>"
    by (simp add: recovered_rows [OF assms] recovered_none)
qed

theorem adoption_settles_every_row_witness:
  "list_all2 (\<lambda>r q. if dr_boot r \<noteq> ac_boot toy_adoption \<and> sn_state (dr_snapshot r) \<notin> {Hibernated, Closed}
      then taken_over toy_adoption r q else q = r)
     toy_table (ad_rows (recover_from_previous_boot toy_adoption toy_table)) \<and>
    recover_from_previous_boot toy_adoption (ad_rows (recover_from_previous_boot toy_adoption toy_table)) =
      \<lparr>ad_rows = ad_rows (recover_from_previous_boot toy_adoption toy_table), ad_log = [], ad_found = 0,
       ad_reaped = 0, ad_skipped = 0, ad_hibernated = 0, ad_closed = 0, ad_orphans = []\<rparr>"
  by (rule adoption_settles_every_row) (rule toy_table_ids)

text \<open>Of every abandoned row its own log says what happened, and it is counted.\<close>

lemma adoption_log_fold:
  "ad_log (foldl (adopt_row c) a xs) = ad_log a @
     concat (map (\<lambda>r. map (Pair (dr_id r)) (adoption_events c (dr_snapshot r) (reap_if_proven c r))) xs)"
  by (induction xs arbitrary: a) (simp_all add: adopt_row_def Let_def)

definition log_of :: "string \<Rightarrow> (string \<times> adoption_event) list \<Rightarrow> adoption_event list" where
  "log_of i l = map snd (filter (\<lambda>p. fst p = i) l)"

lemma entries_append [simp]: "log_of i (l @ m) = log_of i l @ log_of i m"
  by (simp add: log_of_def)

lemma entries_own [simp]: "log_of i (map (Pair j) es) = (if i = j then es else [])"
  by (induction es) (auto simp: log_of_def)

lemma entries_of_row:
  "distinct (map dr_id xs) \<Longrightarrow> r \<in> set xs \<Longrightarrow>
   log_of (dr_id r) (concat (map (\<lambda>r. map (Pair (dr_id r)) (g r)) xs)) = g r"
proof (induction xs)
  case (Cons x xs)
  have none: "log_of i (concat (map (\<lambda>r. map (Pair (dr_id r)) (g r)) ys)) = []"
    if "i \<notin> set (map dr_id ys)" for i ys
    using that by (induction ys) (auto simp: log_of_def)
  show ?case
  proof (cases "r = x")
    case True
    with Cons.prems none [of "dr_id x" xs] show ?thesis by simp
  next
    case False
    with Cons show ?thesis by (auto simp: image_iff)
  qed
qed simp

lemma adoption_counts:
  assumes "a' = foldl (adopt_row c) a xs"
  shows "ad_hibernated a' + ad_closed a' = ad_hibernated a + ad_closed a + length xs \<and>
    ad_found a' = ad_found a \<and>
    ad_reaped a' + ad_skipped a' + length (ad_orphans a) = ad_reaped a + ad_skipped a + length (ad_orphans a')"
  unfolding assms
proof (induction xs arbitrary: a)
  case (Cons x xs)
  have "ad_hibernated (adopt_row c a x) + ad_closed (adopt_row c a x) = Suc (ad_hibernated a + ad_closed a)"
    "ad_found (adopt_row c a x) = ad_found a"
    "ad_reaped (adopt_row c a x) + ad_skipped (adopt_row c a x) + length (ad_orphans a) =
      ad_reaped a + ad_skipped a + length (ad_orphans (adopt_row c a x))"
    by (auto simp: adopt_row_def Let_def was_reaped_def split: option.split)
  with Cons.IH [of "adopt_row c a x"] show ?case by simp
qed simp

text \<open>
  Adoption is audited. On the log of every abandoned worker, and of no other, exactly three events
  are written, in this order: the error that names the states before and after, the state event that says
  so as a crash, and the expiry of the lease with the epoch one higher, so that whoever held it is fenced
  off; and the report counts every row once, as hibernated or closed, and every orphan, reaped or skipped.
\<close>

theorem adoption_is_audited:
  assumes "distinct (map dr_id rows)" "r \<in> set rows"
  shows "log_of (dr_id r) (ad_log (recover_from_previous_boot c rows)) =
      (if abandoned_row (ac_boot c) r then adoption_events c (dr_snapshot r) (reap_if_proven c r) else []) \<and>
    ad_found (recover_from_previous_boot c rows) = length (filter (abandoned_row (ac_boot c)) rows) \<and>
    ad_hibernated (recover_from_previous_boot c rows) + ad_closed (recover_from_previous_boot c rows) =
      ad_found (recover_from_previous_boot c rows) \<and>
    ad_reaped (recover_from_previous_boot c rows) + ad_skipped (recover_from_previous_boot c rows) =
      length (ad_orphans (recover_from_previous_boot c rows))"
proof -
  let ?xs = "abandoned_rows (ac_boot c) rows"
  let ?a = "\<lparr>ad_rows = rows, ad_log = [], ad_found = length ?xs, ad_reaped = 0, ad_skipped = 0,
     ad_hibernated = 0, ad_closed = 0, ad_orphans = []\<rparr>"
  have rec: "recover_from_previous_boot c rows = foldl (adopt_row c) ?a ?xs"
    by (simp add: recover_from_previous_boot_def Let_def)
  have m: "mset (map dr_id ?xs) = mset (map dr_id (filter (abandoned_row (ac_boot c)) rows))"
    by (simp add: abandoned_rows_def)
  have "distinct (map dr_id (filter (abandoned_row (ac_boot c)) rows))"
    using assms(1) by (simp add: distinct_map_filter)
  then have d: "distinct (map dr_id ?xs)" using mset_eq_imp_distinct_iff [OF m] by simp
  have len: "length ?xs = length (filter (abandoned_row (ac_boot c)) rows)"
    by (simp add: abandoned_rows_def)
  have "log_of (dr_id r) (ad_log (recover_from_previous_boot c rows)) =
      (if abandoned_row (ac_boot c) r then adoption_events c (dr_snapshot r) (reap_if_proven c r) else [])"
  proof (cases "abandoned_row (ac_boot c) r")
    case True
    then have "r \<in> set ?xs" using assms(2) by (simp add: abandoned_rows_def)
    from entries_of_row [OF d this] True show ?thesis by (simp add: rec adoption_log_fold)
  next
    case False
    have "r = q" if "q \<in> set rows" "dr_id q = dr_id r" for q
      using assms that by (auto simp: distinct_map dest: inj_onD)
    then have "\<forall>q\<in>set ?xs. dr_id q \<noteq> dr_id r" using False by (auto simp: abandoned_rows_def)
    then have "log_of (dr_id r) (concat (map (\<lambda>r. map (Pair (dr_id r))
        (adoption_events c (dr_snapshot r) (reap_if_proven c r))) ?xs)) = []"
      by (induction "?xs" rule: list.induct) (auto simp: log_of_def)
    with False show ?thesis by (simp add: rec adoption_log_fold log_of_def)
  qed
  moreover from adoption_counts [OF rec] len show ?thesis using calculation by simp
qed

theorem adoption_is_audited_witness:
  "log_of (dr_id toy_left) (ad_log (recover_from_previous_boot toy_adoption toy_table)) =
      (if abandoned_row (ac_boot toy_adoption) toy_left
       then adoption_events toy_adoption (dr_snapshot toy_left) (reap_if_proven toy_adoption toy_left) else []) \<and>
    ad_found (recover_from_previous_boot toy_adoption toy_table) =
      length (filter (abandoned_row (ac_boot toy_adoption)) toy_table) \<and>
    ad_hibernated (recover_from_previous_boot toy_adoption toy_table) +
      ad_closed (recover_from_previous_boot toy_adoption toy_table) =
      ad_found (recover_from_previous_boot toy_adoption toy_table) \<and>
    ad_reaped (recover_from_previous_boot toy_adoption toy_table) +
      ad_skipped (recover_from_previous_boot toy_adoption toy_table) =
      length (ad_orphans (recover_from_previous_boot toy_adoption toy_table))"
  by (rule adoption_is_audited) (rule toy_table_ids, simp add: toy_table_def)

text \<open>
  C23: What is adopted can be used. The handle built over an adopted row is a sleeping worker that a wake
  can take from there, with its session and its count of failures, when the agent has a session to resume,
  and a closed worker at rest otherwise, whose close answers pessimistically: the tree is only claimed gone
  where a matching fingerprint let it be killed.
\<close>

theorem adopted_row_can_be_used:
  assumes "abandoned_row (ac_boot c) r" "wc_strategy wc"
  shows "if is_resumable (dr_snapshot r)
    then sleeping wc (handle_over (settled_db_row c r)) \<and>
      wk_session (handle_over (settled_db_row c r)) = sn_session (dr_snapshot r) \<and>
      wk_wake_failures (handle_over (settled_db_row c r)) = sn_wake_failures (dr_snapshot r)
    else at_rest (handle_over (settled_db_row c r)) \<and>
      wk_closed_as (handle_over (settled_db_row c r)) =
        Some (ClosedAs Orphaned (was_reaped (reap_if_proven c r)) (was_reaped (reap_if_proven c r)) False)"
  using assms
  by (auto simp: settled_db_row_def raise_head_def adopted_row_def adopted_state_def is_resumable_def Let_def
      handle_over_def restored_row_def restored_worker_def restored_state_def new_worker_def
      sleeping_def at_rest_def split: bind_splits)

theorem adopted_row_can_be_used_witness:
  "if is_resumable (dr_snapshot toy_left)
   then sleeping toy_worker_config (handle_over (settled_db_row toy_adoption toy_left)) \<and>
     wk_session (handle_over (settled_db_row toy_adoption toy_left)) = sn_session (dr_snapshot toy_left) \<and>
     wk_wake_failures (handle_over (settled_db_row toy_adoption toy_left)) = sn_wake_failures (dr_snapshot toy_left)
   else at_rest (handle_over (settled_db_row toy_adoption toy_left)) \<and>
     wk_closed_as (handle_over (settled_db_row toy_adoption toy_left)) =
       Some (ClosedAs Orphaned (was_reaped (reap_if_proven toy_adoption toy_left))
         (was_reaped (reap_if_proven toy_adoption toy_left)) False)"
proof (rule adopted_row_can_be_used)
  show "abandoned_row (ac_boot toy_adoption) toy_left" by code_simp
  show "wc_strategy toy_worker_config" by (simp add: toy_worker_config_def)
qed

text \<open>After adoption every row is one the registry can start from.\<close>

lemma adopted_after_recovery:
  assumes "inj (fc_worker_id fc)" "\<forall>n. fc_worker_id fc n \<notin> set (map dr_id rows)"
    and "distinct (map dr_id rows)"
    and "\<forall>r\<in>set rows. dr_boot r = ac_boot c \<longrightarrow> explained_row r"
    and "\<forall>r\<in>set rows. sn_state (dr_snapshot r) = Closed \<longrightarrow> explained_row r"
  shows "adopted fc (ad_rows (recover_from_previous_boot c rows))"
proof -
  have "explained_row (settled_db_row c r)" if "r \<in> set rows" for r
  proof (cases "abandoned_row (ac_boot c) r")
    case True
    then show ?thesis
      by (auto simp: settled_db_row_def raise_head_def adopted_row_def adopted_state_def Let_def
          explained_row_def occupies_slot_def)
  next
    case False
    with assms(4,5) that show ?thesis
      by (auto simp: settled_db_row_def abandoned_row_def explained_row_def)
  qed
  with assms(1,2) show ?thesis
    by (auto simp: recovered_rows [OF assms(3)] adopted_def bootable_def)
qed

end
