(* ===== verification/Spec2Isabelle.thy ===== *)
theory Spec2Isabelle
  imports Lease EventLogProps GlobProps PresetClaims InteractionClaims WireProps ElicitationProps TurnClaims
    WatchdogClaims Hibernate UpdateProps TurnLadder
    DeliveryClaims RunClaims ResumeClaims WorkerClaims FleetClaims Adoption
begin

text \<open>
  A verification library for the daemon of omni-acp, which runs coding agents that speak the Agent Client
  Protocol as supervised processes (\<open>workers\<close>), and offers them over HTTP to many clients. Everything a
  worker does goes through one append-only event log; clients follow it, drive it under a lease, answer the
  agent's questions, and fold it into the result of a turn. Paths below are relative to \<open>src/packages/\<close>.

  THE PARTS AND HOW THEY INTERACT. A client takes the worker's lease and sends a prompt. What the agent
  sends back is mapped to one spelling by the update map and fed to the turn reducer, which decides when
  the turn is over; both write to the event log. A question of the agent becomes an interaction: the policy
  engine decides it, or it is parked until a client answers or a deadline passes. The watchdog and the
  hibernation timer watch the worker's activity. The turn aggregate reads a turn's result off the log. Runs
  are prompts without a client at hand: a registry drives a worker through one turn and reports through
  webhook deliveries, whose targets pass an address guard.

  WHICH THEORY MODELS WHICH PART.
  \<^item> \<open>Prelude\<close>: the error codes of \<open>protocol/src/errors.ts\<close>, JavaScript numbers and JSON-shaped values,
    shared list lemmas, and the locales \<open>machine\<close> (an invariant kept by every step holds after every run) and
    \<open>monotone_machine\<close> (a measure no step decreases). \<open>Events\<close>: the envelopes of \<open>protocol/src/events.ts\<close>.
  \<^item> \<open>LeasePolicy\<close>, \<open>Lease\<close>: \<open>core/src/lease/\<close>. The closure variables of \<open>createLease\<close> are the record
    \<open>lease_state\<close>, its methods operations that take the time as an argument.
  \<^item> \<open>EventLog\<close> with \<open>EventLogRing\<close>, \<open>EventLogOrder\<close>, \<open>EventLogSettle\<close>, \<open>EventLogRun\<close>, \<open>EventLogReturn\<close>,
    \<open>EventLogProps\<close>: \<open>core/src/event-log/log-core.ts\<close>. Listeners and overflow callbacks are programs that
    call back into the log, so the interpreter has fuel.
  \<^item> \<open>Glob\<close>, \<open>GlobMatch\<close>, \<open>GlobProps\<close>: \<open>core/src/policy/glob.ts\<close>; \<open>PolicyMatch\<close>, \<open>PolicyEngine\<close>,
    \<open>PolicyProps\<close>, \<open>PolicyClaims\<close>: \<open>match.ts\<close>, \<open>ceiling.ts\<close>, \<open>engine.ts\<close>; \<open>PolicyPresets\<close>, \<open>PresetClaims\<close>:
    \<open>presets.ts\<close>. Every thrown error is a value of a sum type.
  \<^item> \<open>WireJson\<close>, \<open>WireProps\<close>: \<open>core/src/normalizer/map/json.ts\<close>, \<open>permission.ts\<close>; \<open>Elicitation\<close>,
    \<open>ElicitationProps\<close>: \<open>elicitation.ts\<close>; \<open>UpdateShape\<close>, \<open>UpdateMap\<close>, \<open>UpdateProps\<close>: \<open>v2-shape.ts\<close>,
    \<open>update.ts\<close>, \<open>diff.ts\<close>, \<open>tool-call.ts\<close>, \<open>message-id.ts\<close>.
  \<^item> \<open>Responder\<close>, \<open>Envelopes\<close>, \<open>Interactions\<close>, \<open>InteractionRun\<close> with \<open>InteractionInv\<close>, \<open>InteractionSettle\<close>,
    \<open>InteractionClaims\<close>: \<open>core/src/worker/permission-responder.ts\<close> and \<open>core/src/worker/interaction/\<close>. What
    the strategy does to the world (answers, envelopes, park and release, timers) is one ordered trace.
  \<^item> \<open>TurnFold\<close>, \<open>TurnSpec\<close>, \<open>TurnClaims\<close>: \<open>protocol/src/turn.ts\<close>.
  \<^item> \<open>Dialects\<close>, \<open>TurnLifecycle\<close>, \<open>TurnLifecycleInv\<close>, \<open>TurnLifecycleClaims\<close>, \<open>TurnLadder\<close>:
    \<open>core/src/normalizer/turn-lifecycle.ts\<close>, \<open>normalizer.ts\<close>, \<open>vendor/dialects.ts\<close>.
  \<^item> \<open>Watchdog\<close>, \<open>WatchdogClaims\<close>, \<open>Hibernate\<close>: \<open>core/src/worker/watchdog-state.ts\<close>, \<open>watchdog.ts\<close>,
    \<open>hibernate.ts\<close>.
  \<^item> \<open>Resume\<close>, \<open>ResumeClaims\<close>: \<open>core/src/worker/resume-classify.ts\<close>, \<open>session-open.ts\<close>; the permanent-error
    pattern is matched by an exact matcher for its regular expression.
  \<^item> \<open>Worker\<close> with \<open>WorkerInv\<close>, \<open>WorkerQuiet\<close>, \<open>WorkerWake\<close>, \<open>WorkerPaths\<close>, \<open>WorkerClaims\<close>:
    \<open>core/src/worker/worker.ts\<close>. A worker is the record of its fields, the trace of what it did to the
    outside and the list of activities that wait at an \<open>await\<close>; an input starts a call, fires a timer,
    brings a signal of the process or lets one waiting activity go on, so a list of inputs is an
    interleaving. The turn reducer inside is the one of \<open>TurnLifecycle\<close>.
  \<^item> \<open>Fleet\<close> with \<open>FleetInv\<close>, \<open>FleetTold\<close>, \<open>FleetClaims\<close>: the worker registry, \<open>daemon/src/registry.ts\<close> over
    \<open>core/src/persist/worker-store.ts\<close>, in the shape of \<open>Worker\<close>: waiting activities, inputs, a trace. Idle
    timers are those of \<open>Hibernate\<close>, a handle over a row is \<open>restored_worker\<close>. \<open>Adoption\<close>:
    \<open>daemon/src/boot-recovery.ts\<close>.
  \<^item> \<open>WebhookGuard\<close>, \<open>GuardClaims\<close>: \<open>core/src/webhook/guard.ts\<close>; \<open>Deliveries\<close>, \<open>DeliveryClaims\<close>:
    \<open>ladder.ts\<close>, \<open>dispatcher.ts\<close>, \<open>core/src/persist/delivery-store.ts\<close>; \<open>Runs\<close>, \<open>RunClaims\<close>:
    \<open>core/src/run/\<close>, \<open>core/src/persist/run-store.ts\<close>.

  WHAT THE LEMMAS SHOW. Each claim's text says under which conditions; in short: The lease: a client that lost
  its lease without releasing it is fenced off. The log: numbers are gap-free, reads are the retained suffix,
  a subscriber of a memory log sees replay then live, once and in order, under re-entrant listeners. Policy:
  a compiled glob accepts the language its pattern is documented to have, defined on the pattern
  (\<open>glob_says\<close>), and no verdict exceeds the ceiling, up to the envelope on the wire. Interactions: every request is answered exactly once
  or pending, teardown answers all. Turns: the aggregate is a function of the set of envelopes, is final
  once the turn ended, and equals its declarative reading; the reducer ends each prompt at most once, with
  the agent's own answer, within bounded time; the close-out ladder terminates; the idle it writes is what
  the aggregate reads. Watchdog: fires only after a full quiet budget, fires when due, once per turn. Update
  map: idempotent, honest about versions, total but for inherited tags. Deliveries: never lost, never two
  in flight, within the ladder. Runs: bounded, idempotent by key, final once settled, recovered after a
  crash. Sessions: a resume attempt is classified as a rejection only on evidence, and a wake is on its own
  session. Webhook targets: no address that is read lies in a denied block that is read. The worker: over
  every interleaving the log of states is one story, each kind of attempt flies alone, one of many prompts
  is admitted, parks are counted, a closed worker at rest stays closed; undisturbed wakes follow the failure ladder,
  a resumable worker survives a crash asleep, a forced restart that runs through ends its turn as restarted. The races that
  remain are lemmas at the end of \<open>WorkerClaims\<close>. The registry: its counters count the slots held, the limit
  is passed only by wakes it does not check, deletes agree where the closed rows are explained, and a worker a
  token may not see is absent to it; boot adoption settles every row once, column by column (\<open>taken_over\<close>),
  into handles that can be woken or are closed for good. Lemmas without a claim mark that end a theory record
  where the code departs from its comments.
\<close>

text \<open>
  TIME AND CONCURRENCY. JavaScript runs one task at a time, so the code between two \<open>await\<close>s is one
  operation, and theorems quantify over all sequences of operations. Instants are integers (milliseconds)
  given to each operation; a timer is the instant it is due plus an operation that fires it, so theorems
  cover early, late and reordered callbacks. Ids and random numbers are arguments or indexed parameters.

  BOUNDS AND FUEL. Only the event log's interpreter has fuel, because a listener that appends can recurse
  for ever: \<open>EventLogReturn\<close> proves that more fuel never changes an answer, and that every append returns
  when callbacks do not append. All other loops are structural or have a \<open>termination\<close> proof by a measure
  (glob translation, preset expansion, the pump of the delivery loop). The code's limits (64 ids of recent
  history, patterns of 512 characters, 500 characters of an error) are in the definitions.

  PARAMETERS. Code that is not in the repository is an argument: the RegExp engine for command clauses and
  vendor error rules, the SQLite store behind the log, Node's \<open>isIP\<close>, the URL parser and the resolver, the
  spelling of fractional numbers and of JSON-RPC ids, the clock, the id generators.

  NOT MODELLED. Strings are Latin-1 character lists; keys named \<open>__proto__\<close> in agent objects are excluded
  except where the update map looks tags up. In the event log, subscribing from inside a callback and
  callbacks that throw; in the interaction strategy, re-entrant calls from inside \<open>emit\<close>. The glob memo
  and other caches of pure results, the wording of English error sentences (the code and the offending
  value are kept), and the fold's \<open>deniedTitles\<close>, which nothing reads. Of the worker: \<open>setConfig\<close>,
  \<open>answerInteraction\<close>, snapshots and turn views, listeners, the answers to baseline permission requests,
  request body parsing, the tail of stderr, a spawn without a pid (and the test for it at admission), the
  watchdog signals of single envelopes (the fold over them is \<open>Watchdog\<close>); a chain of promises that are already
  settled, \<open>finally\<close> blocks included, is one stretch; the lease, the session strategy, the supervisor, the
  diff provider and the credential store answer it through inputs. Of the registry: the facades that only
  forward, the watchdog's escalation, what a worker is constructed with, and failing writes of the store. The zod schemas of
  \<open>protocol/src\<close> (evaluated by a library), processes and pipes, the git executable, files of the credential
  store, the HTTP framework's handlers, the ACP SDK's connection, and the HMAC of \<open>webhook/sign.ts\<close>.
\<close>

end
